(* ===== verification/Launch_Prelude.thy ===== *)
theory Launch_Prelude
  imports Main "HOL-Library.Word" "HOL-Library.Signed_Division" "HOL-Library.AList"
begin

text \<open>
  Shared vocabulary of the development: the result type of fallible Go functions, its
  sequencing operator and list traversal, Go's nullable big integers, truncated and
  Euclidean division of \<^verbatim>\<open>math/big\<close>, and the arithmetic of rounded-up division that
  the curve proofs rest on.
\<close>

section \<open>Results of fallible functions\<close>

text \<open>
  A Go function returning \<^verbatim>\<open>(T, error)\<close> becomes a function into a sum type: \<open>Inl e\<close> is
  the error return, \<open>Inr v\<close> the return of a value with a nil error. \<open>rbind\<close> is the
  statement \<^verbatim>\<open>v, err := f(); if err != nil { return err }\<close>.
\<close>

named_theorems result_iff \<open>when a fallible computation succeeds, and with what\<close>

definition rbind :: "'e + 'a \<Rightarrow> ('a \<Rightarrow> 'e + 'b) \<Rightarrow> 'e + 'b" where
  "rbind m f = (case m of Inl e \<Rightarrow> Inl e | Inr a \<Rightarrow> f a)"

fun rtraverse :: "('a \<Rightarrow> 'e + 'b) \<Rightarrow> 'a list \<Rightarrow> 'e + 'b list" where
  "rtraverse f [] = Inr []"
| "rtraverse f (x # xs) = rbind (f x) (\<lambda>y. rbind (rtraverse f xs) (\<lambda>ys. Inr (y # ys)))"

definition is_ok :: "'e + 'a \<Rightarrow> bool" where
  "is_ok m = (case m of Inl _ \<Rightarrow> False | Inr _ \<Rightarrow> True)"

text \<open>A loop over a slice that threads a state and stops at the first error.\<close>

fun rfold :: "('a \<Rightarrow> 's \<Rightarrow> 'e + 's) \<Rightarrow> 'a list \<Rightarrow> 's \<Rightarrow> 'e + 's" where
  "rfold f [] s = Inr s"
| "rfold f (x # xs) s = rbind (f x s) (rfold f xs)"

lemma rbind_Inl [simp]: "rbind (Inl e) f = Inl e"
  by (simp add: rbind_def)

lemma rbind_Inr [simp]: "rbind (Inr a) f = f a"
  by (simp add: rbind_def)

lemma rbind_eq_Inr [result_iff]: "rbind m f = Inr y \<longleftrightarrow> (\<exists>x. m = Inr x \<and> f x = Inr y)"
  by (cases m) auto

lemma rbind_eq_Inl: "rbind m f = Inl e \<longleftrightarrow> m = Inl e \<or> (\<exists>x. m = Inr x \<and> f x = Inl e)"
  by (cases m) auto

lemma rbind_assoc: "rbind (rbind m f) g = rbind m (\<lambda>x. rbind (f x) g)"
  by (cases m) auto

lemma rbind_cong [fundef_cong]:
  "m = n \<Longrightarrow> (\<And>x. n = Inr x \<Longrightarrow> f x = g x) \<Longrightarrow> rbind m f = rbind n g"
  by (cases n) auto

lemma if_Inl_eq_Inr [result_iff]: "(if b then Inl e else m) = Inr y \<longleftrightarrow> \<not> b \<and> m = Inr y"
  by auto

lemma is_ok_simps [simp]: "is_ok (Inr a)" "\<not> is_ok (Inl e)"
  by (simp_all add: is_ok_def)

lemma is_ok_iff: "is_ok m \<longleftrightarrow> (\<exists>a. m = Inr a)"
  by (cases m) auto

lemma rtraverse_Inr [result_iff]:
  "rtraverse f xs = Inr ys \<longleftrightarrow> list_all2 (\<lambda>x y. f x = Inr y) xs ys"
  by (induction xs arbitrary: ys) (auto simp: result_iff list_all2_Cons1)

lemma rtraverse_Inl:
  "rtraverse f xs = Inl e \<longleftrightarrow> (\<exists>us x vs. xs = us @ x # vs \<and> is_ok (rtraverse f us) \<and> f x = Inl e)"
proof (induction xs)
  case Nil
  then show ?case by simp
next
  case (Cons x xs)
  have "(\<exists>us z vs. x # xs = us @ z # vs \<and> is_ok (rtraverse f us) \<and> f z = Inl e) \<longleftrightarrow>
     f x = Inl e \<or> (is_ok (f x) \<and> (\<exists>us z vs. xs = us @ z # vs \<and> is_ok (rtraverse f us) \<and> f z = Inl e))"
    (is "?l \<longleftrightarrow> ?r")
  proof
    assume ?l
    then obtain us z vs where *: "x # xs = us @ z # vs" "is_ok (rtraverse f us)" "f z = Inl e"
      by blast
    show ?r
      using * by (cases us) (auto simp: is_ok_iff result_iff list_all2_Cons1)
  next
    assume ?r
    then show ?l
    proof
      assume "f x = Inl e"
      then have "x # xs = [] @ x # xs \<and> is_ok (rtraverse f []) \<and> f x = Inl e" by simp
      then show ?thesis by blast
    next
      assume "is_ok (f x) \<and> (\<exists>us z vs. xs = us @ z # vs \<and> is_ok (rtraverse f us) \<and> f z = Inl e)"
      then obtain us z vs where "is_ok (f x)" "xs = us @ z # vs" "is_ok (rtraverse f us)" "f z = Inl e"
        by blast
      then have "x # xs = (x # us) @ z # vs \<and> is_ok (rtraverse f (x # us)) \<and> f z = Inl e"
        by (auto simp: is_ok_iff)
      then show ?thesis by blast
    qed
  qed
  then show ?case
    using Cons.IH by (cases "f x") (auto simp: rbind_eq_Inl)
qed

lemma rfold_append: "rfold f (xs @ ys) s = rbind (rfold f xs s) (rfold f ys)"
  by (induction xs arbitrary: s) (auto simp: rbind_assoc intro: rbind_cong)

text \<open>A loop that only checks.\<close>

lemma rfold_check: "rfold (\<lambda>x _. f x) xs () = Inr u \<longleftrightarrow> (\<forall>x \<in> set xs. f x = Inr ())"
  by (induction xs) (auto simp: result_iff)

lemma rfold_invariant:
  assumes "\<And>x s s'. x \<in> set xs \<Longrightarrow> P s \<Longrightarrow> f x s = Inr s' \<Longrightarrow> P s'"
    and "P s" and "rfold f xs s = Inr s'"
  shows "P s'"
  using assms
proof (induction xs arbitrary: s)
  case Nil
  then show ?case by simp
next
  case (Cons x xs)
  from Cons.prems(3) obtain t where t: "f x s = Inr t" "rfold f xs t = Inr s'"
    by (auto simp: result_iff)
  have "P t" using Cons.prems(1)[OF _ Cons.prems(2) t(1)] by simp
  then show ?case
    using Cons.IH[OF _ \<open>P t\<close> t(2)] Cons.prems(1) by auto
qed


section \<open>Integers of the source\<close>

text \<open>
  \<^verbatim>\<open>*big.Int\<close> is an unbounded integer behind a pointer that may be nil. \<open>Quo\<close> truncates
  towards zero and \<open>Div\<close> is Euclidean division, as the methods of \<^verbatim>\<open>math/big\<close>.
\<close>

type_synonym bigptr = "int option"

definition big_Quo :: "int \<Rightarrow> int \<Rightarrow> int" where
  "big_Quo a b = a sdiv b"

definition big_Div :: "int \<Rightarrow> int \<Rightarrow> int" where
  "big_Div a b = (if b \<ge> 0 then a div b else - (a div (- b)))"

lemma big_Quo_nonneg [simp]: "0 \<le> a \<Longrightarrow> 0 \<le> b \<Longrightarrow> big_Quo a b = a div b"
  by (cases "a = 0"; cases "b = 0") (auto simp: big_Quo_def signed_divide_int_def)

lemma big_Div_pos [simp]: "0 < b \<Longrightarrow> big_Div a b = a div b"
  by (simp add: big_Div_def)

text \<open>Rounded-up division and its Galois connection with multiplication.\<close>

definition ceil_div :: "int \<Rightarrow> int \<Rightarrow> int" where
  "ceil_div a b = (if a = 0 then 0 else (a - 1) div b + 1)"

lemma int_le_div_iff: "0 < (b::int) \<Longrightarrow> c \<le> a div b \<longleftrightarrow> c * b \<le> a"
proof
  assume b: "0 < b" and "c \<le> a div b"
  then have "c * b \<le> a div b * b" by simp
  also have "\<dots> \<le> a" using b by (metis div_mult_mod_eq le_add_same_cancel1 pos_mod_sign)
  finally show "c * b \<le> a" .
next
  assume b: "0 < b" and "c * b \<le> a"
  then have "(c * b) div b \<le> a div b" by (intro zdiv_mono1)
  then show "c \<le> a div b" using b by simp
qed

lemma int_div_less_iff: "0 < (b::int) \<Longrightarrow> a div b < c \<longleftrightarrow> a < c * b"
  using int_le_div_iff[of b c a] by linarith

lemma ceil_div_le_iff: "0 < b \<Longrightarrow> 0 \<le> a \<Longrightarrow> 0 \<le> c \<Longrightarrow> ceil_div a b \<le> c \<longleftrightarrow> a \<le> c * b"
  using int_div_less_iff[of b "a - 1" c] by (auto simp: ceil_div_def)

lemma ceil_div_gt_iff: "0 < b \<Longrightarrow> 0 \<le> a \<Longrightarrow> 0 \<le> c \<Longrightarrow> c < ceil_div a b \<longleftrightarrow> c * b < a"
  using ceil_div_le_iff[of b a c] by linarith

lemma ceil_div_nonneg [simp]: "0 < b \<Longrightarrow> 0 \<le> a \<Longrightarrow> 0 \<le> ceil_div a b"
  by (cases "a = 0") (auto simp: ceil_div_def pos_imp_zdiv_nonneg_iff)

lemma ceil_div_pos: "0 < b \<Longrightarrow> 0 < a \<Longrightarrow> 0 < ceil_div a b"
  using ceil_div_gt_iff[of b a 0] by simp

lemma ceil_div_upper: "0 < b \<Longrightarrow> 0 \<le> a \<Longrightarrow> a \<le> ceil_div a b * b"
  using ceil_div_le_iff[of b a "ceil_div a b"] by simp

lemma ceil_div_antimono:
  assumes "0 \<le> a" "0 < b" "b \<le> c" shows "ceil_div a c \<le> ceil_div a b"
proof -
  have "a \<le> ceil_div a b * b" using assms by (simp add: ceil_div_upper)
  also have "\<dots> \<le> ceil_div a b * c" using assms by (intro mult_left_mono) auto
  finally show ?thesis using assms by (simp add: ceil_div_le_iff)
qed

lemma ceil_div_exact: "0 < b \<Longrightarrow> 0 < c \<Longrightarrow> ceil_div (c * b) b = c"
proof -
  assume b: "0 < b" and c: "0 < c"
  have "ceil_div (c * b) b \<le> c" using b c by (simp add: ceil_div_le_iff)
  moreover have "c - 1 < ceil_div (c * b) b" using b c by (simp add: ceil_div_gt_iff)
  ultimately show ?thesis by simp
qed

section \<open>Association lists\<close>

lemma update_fresh: "k \<notin> fst ` set al \<Longrightarrow> AList.update k v al = al @ [(k, v)]"
  by (induction al) auto

end
