(* ===== verification/Curve_Math.thy ===== *)
theory Curve_Math
  imports Launch_Prelude
begin

text \<open>
  The bonding-curve engine of \<^verbatim>\<open>backend/internal/curve/math.go\<close> and its error values of
  \<^verbatim>\<open>errors.go\<close>: checked 256-bit arithmetic on big integers, validated parameters, curve
  states, and the quotes \<open>Buy\<close> and \<open>Sell\<close>. Big-integer fields are pointers in the source
  and may be nil in a zero-valued struct, so they are options here; every operation
  validates them before it reads them, and \<open>the\<close> is applied only after that check.
\<close>

section \<open>Data\<close>

type_synonym Phase = "8 word"
type_synonym uint16 = "16 word"

definition PhaseCurve :: Phase where "PhaseCurve = 0"

definition PhaseGraduated :: Phase where "PhaseGraduated = 1"

datatype curve_error =
    ErrZeroInput
  | ErrZeroOutput
  | ErrArithmeticOverflow
  | ErrDivisionByZero
  | ErrInternalInvariant
  | ErrInvalidGraduationETH
  | ErrInvalidAmount string
  | ErrInvalidSupplyAllocation int int int
  | ErrInvalidCurveAllocation int int
  | ErrInvalidVirtualReserves int int int
  | ErrInvalidTradeFeeBPS uint16
  | ErrInvalidProtocolShareBPS uint16
  | ErrInvalidCurveBoundary int int int
  | ErrWrongPhase Phase Phase
  | ErrOversell int int

definition bpsDenominator :: uint16 where "bpsDenominator = 10000"

definition maxUint256 :: int where "maxUint256 = 2 ^ 256 - 1"

definition wad :: int where "wad = 1000000000000000000"

record Parameters =
  totalSupply :: bigptr
  curveTokens :: bigptr
  lpTokens :: bigptr
  graduationETH :: bigptr
  initialVirtualETH :: bigptr
  initialVirtualToken :: bigptr
  tradeFeeBPS :: uint16
  protocolShareBPS :: uint16
  invariant :: bigptr
  finalVirtualToken :: bigptr
  finalVirtualETH :: bigptr

record State =
  phase :: Phase
  virtualETH :: bigptr
  virtualToken :: bigptr
  protocolFees :: bigptr
  creatorFees :: bigptr

record BuyQuote =
  ethGrossUsed :: int
  tokensOut :: int
  protocolFee :: int
  creatorFee :: int
  refund :: int
  graduates :: bool
  nextState :: State

record SellQuote =
  ethOut :: int
  ethGross :: int
  sellProtocolFee :: int
  sellCreatorFee :: int
  sellNextState :: State


section \<open>Checked arithmetic\<close>

definition mulDiv :: "int \<Rightarrow> int \<Rightarrow> int \<Rightarrow> curve_error + int" where
  "mulDiv x y denominator =
     (if denominator = 0 then Inl ErrDivisionByZero
      else let result = big_Quo (x * y) denominator
           in if result > maxUint256 then Inl ErrArithmeticOverflow else Inr result)"

definition ceilDiv :: "int \<Rightarrow> int \<Rightarrow> curve_error + int" where
  "ceilDiv numerator denominator =
     (if denominator = 0 then Inl ErrDivisionByZero
      else if numerator = 0 then Inr 0
      else Inr (big_Quo (numerator - 1) denominator + 1))"

definition checkedAdd :: "int \<Rightarrow> int \<Rightarrow> curve_error + int" where
  "checkedAdd left right =
     (if left + right > maxUint256 then Inl ErrArithmeticOverflow else Inr (left + right))"

definition checkedSub :: "int \<Rightarrow> int \<Rightarrow> curve_error + int" where
  "checkedSub left right =
     (if left < right then Inl ErrArithmeticOverflow else Inr (left - right))"

definition checkedMul :: "int \<Rightarrow> int \<Rightarrow> curve_error + int" where
  "checkedMul left right =
     (if left * right > maxUint256 then Inl ErrArithmeticOverflow else Inr (left * right))"

definition copyUint256 :: "string \<Rightarrow> bigptr \<Rightarrow> curve_error + int" where
  "copyUint256 field value =
     (case value of None \<Rightarrow> Inl (ErrInvalidAmount field)
      | Some v \<Rightarrow> if v < 0 \<or> v > maxUint256 then Inl (ErrInvalidAmount field) else Inr v)"

definition validateParameters :: "Parameters \<Rightarrow> curve_error + unit" where
  "validateParameters parameters =
     rbind (rtraverse (\<lambda>(name, value). copyUint256 name value)
       [(''totalSupply'', totalSupply parameters),
        (''curveTokens'', curveTokens parameters),
        (''lpTokens'', lpTokens parameters),
        (''graduationETH'', graduationETH parameters),
        (''initialVirtualETH'', initialVirtualETH parameters),
        (''initialVirtualToken'', initialVirtualToken parameters),
        (''invariant'', invariant parameters),
        (''finalVirtualToken'', finalVirtualToken parameters),
        (''finalVirtualETH'', finalVirtualETH parameters)]) (\<lambda>_. Inr ())"

definition validateState :: "State \<Rightarrow> curve_error + unit" where
  "validateState state =
     rbind (rtraverse (\<lambda>(name, value). copyUint256 name value)
       [(''virtualETH'', virtualETH state),
        (''virtualToken'', virtualToken state),
        (''protocolFees'', protocolFees state),
        (''creatorFees'', creatorFees state)]) (\<lambda>_. Inr ())"

definition splitFees :: "int \<Rightarrow> uint16 \<Rightarrow> uint16 \<Rightarrow> curve_error + int \<times> int \<times> int" where
  "splitFees gross feeBPS shareBPS =
     (if feeBPS \<ge> bpsDenominator then Inl (ErrInvalidTradeFeeBPS feeBPS)
      else if shareBPS > bpsDenominator then Inl (ErrInvalidProtocolShareBPS shareBPS)
      else rbind (mulDiv gross (uint feeBPS) (uint bpsDenominator)) (\<lambda>totalFee.
           rbind (mulDiv totalFee (uint shareBPS) (uint bpsDenominator)) (\<lambda>protoFee.
           rbind (checkedSub totalFee protoFee) (\<lambda>creaFee.
           Inr (totalFee, protoFee, creaFee)))))"

definition exactGrossForNet :: "int \<Rightarrow> uint16 \<Rightarrow> curve_error + int" where
  "exactGrossForNet net feeBPS =
     (if net = 0 then Inl ErrZeroInput
      else if feeBPS \<ge> bpsDenominator then Inl (ErrInvalidTradeFeeBPS feeBPS)
      else rbind (checkedSub net 1) (\<lambda>netMinusOne.
           rbind (mulDiv netMinusOne (uint bpsDenominator) (uint (bpsDenominator - feeBPS)))
             (\<lambda>grossMinusOne. checkedAdd grossMinusOne 1)))"


section \<open>Parameters and states\<close>

definition NewParameters ::
    "bigptr \<Rightarrow> bigptr \<Rightarrow> bigptr \<Rightarrow> bigptr \<Rightarrow> bigptr \<Rightarrow> bigptr \<Rightarrow> uint16 \<Rightarrow> uint16
     \<Rightarrow> curve_error + Parameters" where
  "NewParameters supply curve lp graduation vETH vToken feeBPS shareBPS =
     rbind (rtraverse (\<lambda>(name, value). copyUint256 name value)
       [(''totalSupply'', supply), (''curveTokens'', curve), (''lpTokens'', lp),
        (''graduationETH'', graduation), (''initialVirtualETH'', vETH),
        (''initialVirtualToken'', vToken)]) (\<lambda>values.
     let totalSupplyCopy = values ! 0; curveTokensCopy = values ! 1; lpTokensCopy = values ! 2;
         graduationETHCopy = values ! 3; initialVirtualETHCopy = values ! 4;
         initialVirtualTokenCopy = values ! 5
     in
     rbind (checkedAdd curveTokensCopy lpTokensCopy) (\<lambda>allocatedSupply.
     if totalSupplyCopy \<noteq> allocatedSupply
     then Inl (ErrInvalidSupplyAllocation totalSupplyCopy curveTokensCopy lpTokensCopy)
     else if lpTokensCopy = 0 \<or> curveTokensCopy \<le> lpTokensCopy
     then Inl (ErrInvalidCurveAllocation curveTokensCopy lpTokensCopy)
     else if graduationETHCopy = 0 then Inl ErrInvalidGraduationETH
     else if initialVirtualETHCopy = 0 \<or> initialVirtualTokenCopy \<le> curveTokensCopy
     then Inl (ErrInvalidVirtualReserves initialVirtualETHCopy initialVirtualTokenCopy curveTokensCopy)
     else if feeBPS \<ge> bpsDenominator then Inl (ErrInvalidTradeFeeBPS feeBPS)
     else if shareBPS > bpsDenominator then Inl (ErrInvalidProtocolShareBPS shareBPS)
     else
     rbind (checkedMul initialVirtualETHCopy initialVirtualTokenCopy) (\<lambda>inv.
     rbind (checkedSub initialVirtualTokenCopy curveTokensCopy) (\<lambda>finalToken.
     rbind (checkedAdd initialVirtualETHCopy graduationETHCopy) (\<lambda>finalETH.
     rbind (ceilDiv inv finalToken) (\<lambda>roundTripETH.
     rbind (ceilDiv inv finalETH) (\<lambda>roundTripToken.
     if roundTripETH \<noteq> finalETH \<or> roundTripToken \<noteq> finalToken
     then Inl (ErrInvalidCurveBoundary inv finalToken finalETH)
     else Inr \<lparr>totalSupply = Some totalSupplyCopy, curveTokens = Some curveTokensCopy,
               lpTokens = Some lpTokensCopy, graduationETH = Some graduationETHCopy,
               initialVirtualETH = Some initialVirtualETHCopy,
               initialVirtualToken = Some initialVirtualTokenCopy,
               tradeFeeBPS = feeBPS, protocolShareBPS = shareBPS,
               invariant = Some inv, finalVirtualToken = Some finalToken,
               finalVirtualETH = Some finalETH\<rparr>)))))))"

definition NewState :: "Phase \<Rightarrow> bigptr \<Rightarrow> bigptr \<Rightarrow> bigptr \<Rightarrow> bigptr \<Rightarrow> curve_error + State" where
  "NewState ph vETH vToken pFees cFees =
     rbind (copyUint256 ''virtualETH'' vETH) (\<lambda>virtualETHCopy.
     rbind (copyUint256 ''virtualToken'' vToken) (\<lambda>virtualTokenCopy.
     rbind (copyUint256 ''protocolFees'' pFees) (\<lambda>protocolFeesCopy.
     rbind (copyUint256 ''creatorFees'' cFees) (\<lambda>creatorFeesCopy.
     Inr \<lparr>phase = ph, virtualETH = Some virtualETHCopy, virtualToken = Some virtualTokenCopy,
          protocolFees = Some protocolFeesCopy, creatorFees = Some creatorFeesCopy\<rparr>))))"

definition SpotPriceWad :: "State \<Rightarrow> curve_error + int" where
  "SpotPriceWad state =
     rbind (validateState state) (\<lambda>_.
     mulDiv (the (virtualETH state)) wad (the (virtualToken state)))"

definition TokensSold :: "Parameters \<Rightarrow> State \<Rightarrow> curve_error + int" where
  "TokensSold parameters state =
     rbind (validateParameters parameters) (\<lambda>_.
     rbind (validateState state) (\<lambda>_.
     checkedSub (the (initialVirtualToken parameters)) (the (virtualToken state))))"

definition RealCurveETH :: "Parameters \<Rightarrow> State \<Rightarrow> curve_error + int" where
  "RealCurveETH parameters state =
     rbind (validateParameters parameters) (\<lambda>_.
     rbind (validateState state) (\<lambda>_.
     checkedSub (the (virtualETH state)) (the (initialVirtualETH parameters))))"


section \<open>Quotes\<close>

text \<open>
  The branch of \<open>Buy\<close> that decides the fill: the mutable variables the source reassigns
  there are the components of the returned tuple, in the order gross used, protocol fee,
  creator fee, new ETH reserve, new token reserve, refund, graduates.
\<close>

definition buyFill ::
    "State \<Rightarrow> Parameters \<Rightarrow> int \<Rightarrow> int \<Rightarrow> int \<Rightarrow> int \<Rightarrow> int \<Rightarrow> int
     \<Rightarrow> curve_error + int \<times> int \<times> int \<times> int \<times> int \<times> int \<times> bool" where
  "buyFill state parameters gross protoFee creaFee candidateVirtualETH candidateVirtualToken finalETH =
     (if candidateVirtualETH > finalETH then
        if the (virtualETH state) \<ge> finalETH then Inl ErrInternalInvariant
        else case checkedSub finalETH (the (virtualETH state)) of
            Inl _ \<Rightarrow> Inl ErrInternalInvariant
          | Inr netNeeded \<Rightarrow>
            if netNeeded \<le> 0 then Inl ErrInternalInvariant
            else rbind (exactGrossForNet netNeeded (tradeFeeBPS parameters)) (\<lambda>used.
                 rbind (splitFees used (tradeFeeBPS parameters) (protocolShareBPS parameters))
                   (\<lambda>(_, protoFee', creaFee').
                 rbind (checkedSub gross used) (\<lambda>ref.
                 Inr (used, protoFee', creaFee', finalETH, the (finalVirtualToken parameters), ref, True))))
      else Inr (gross, protoFee, creaFee, candidateVirtualETH, candidateVirtualToken, 0,
                candidateVirtualToken = the (finalVirtualToken parameters)))"

definition Buy :: "State \<Rightarrow> Parameters \<Rightarrow> bigptr \<Rightarrow> curve_error + BuyQuote" where
  "Buy state parameters suppliedGross =
     (if phase state \<noteq> PhaseCurve then Inl (ErrWrongPhase PhaseCurve (phase state))
      else
      rbind (validateState state) (\<lambda>_.
      rbind (validateParameters parameters) (\<lambda>_.
      rbind (copyUint256 ''suppliedGross'' suppliedGross) (\<lambda>gross.
      if gross = 0 then Inl ErrZeroInput
      else
      rbind (splitFees gross (tradeFeeBPS parameters) (protocolShareBPS parameters))
        (\<lambda>(totalFee, protoFee, creaFee).
      rbind (checkedSub gross totalFee) (\<lambda>effectiveETH.
      rbind (checkedAdd (the (virtualETH state)) effectiveETH) (\<lambda>candidateVirtualETH.
      rbind (ceilDiv (the (invariant parameters)) candidateVirtualETH) (\<lambda>candidateVirtualToken.
      rbind (ceilDiv (the (invariant parameters)) (the (finalVirtualToken parameters))) (\<lambda>finalETH.
      if candidateVirtualToken \<ge> the (virtualToken state) then Inl ErrZeroOutput
      else
      rbind (buyFill state parameters gross protoFee creaFee candidateVirtualETH
               candidateVirtualToken finalETH)
        (\<lambda>(used, protoFee, creaFee, newVirtualETH, newVirtualToken, ref, grad).
      rbind (checkedSub (the (virtualToken state)) newVirtualToken) (\<lambda>out.
      if out = 0 then Inl ErrZeroOutput
      else
      rbind (checkedAdd (the (protocolFees state)) protoFee) (\<lambda>nextProtocolFees.
      rbind (checkedAdd (the (creatorFees state)) creaFee) (\<lambda>nextCreatorFees.
      Inr \<lparr>ethGrossUsed = used, tokensOut = out, protocolFee = protoFee, creatorFee = creaFee,
           refund = ref, graduates = grad,
           nextState = \<lparr>phase = (if grad then PhaseGraduated else PhaseCurve),
                        virtualETH = Some newVirtualETH, virtualToken = Some newVirtualToken,
                        protocolFees = Some nextProtocolFees,
                        creatorFees = Some nextCreatorFees\<rparr>\<rparr>)))))))))))))"

definition Sell :: "State \<Rightarrow> Parameters \<Rightarrow> bigptr \<Rightarrow> curve_error + SellQuote" where
  "Sell state parameters tokensIn =
     (if phase state \<noteq> PhaseCurve then Inl (ErrWrongPhase PhaseCurve (phase state))
      else
      rbind (validateState state) (\<lambda>_.
      rbind (validateParameters parameters) (\<lambda>_.
      rbind (copyUint256 ''tokensIn'' tokensIn) (\<lambda>tokens.
      if tokens = 0 then Inl ErrZeroInput
      else
      rbind (TokensSold parameters state) (\<lambda>soldTokens.
      if tokens > soldTokens then Inl (ErrOversell tokens soldTokens)
      else
      rbind (checkedAdd (the (virtualToken state)) tokens) (\<lambda>newVirtualToken.
      rbind (ceilDiv (the (invariant parameters)) newVirtualToken) (\<lambda>newVirtualETH.
      rbind (checkedSub (the (virtualETH state)) newVirtualETH) (\<lambda>gross.
      if gross = 0 then Inl ErrZeroOutput
      else
      rbind (splitFees gross (tradeFeeBPS parameters) (protocolShareBPS parameters))
        (\<lambda>(totalFee, protoFee, creaFee).
      rbind (checkedSub gross totalFee) (\<lambda>out.
      if out = 0 then Inl ErrZeroOutput
      else
      rbind (checkedAdd (the (protocolFees state)) protoFee) (\<lambda>nextProtocolFees.
      rbind (checkedAdd (the (creatorFees state)) creaFee) (\<lambda>nextCreatorFees.
      Inr \<lparr>ethOut = out, ethGross = gross, sellProtocolFee = protoFee, sellCreatorFee = creaFee,
           sellNextState = \<lparr>phase = PhaseCurve, virtualETH = Some newVirtualETH,
                            virtualToken = Some newVirtualToken,
                            protocolFees = Some nextProtocolFees,
                            creatorFees = Some nextCreatorFees\<rparr>\<rparr>))))))))))))"


section \<open>When the checked operations succeed\<close>

definition is_uint256 :: "bigptr \<Rightarrow> bool" where
  "is_uint256 v = (case v of None \<Rightarrow> False | Some x \<Rightarrow> 0 \<le> x \<and> x \<le> maxUint256)"

lemma is_uint256_Some [simp]: "is_uint256 (Some x) \<longleftrightarrow> 0 \<le> x \<and> x \<le> maxUint256"
  by (simp add: is_uint256_def)

lemma is_uint256_iff: "is_uint256 v \<longleftrightarrow> (\<exists>x. v = Some x \<and> 0 \<le> x \<and> x \<le> maxUint256)"
  by (cases v) (auto simp: is_uint256_def)

lemma uint_bpsDenominator [simp]: "uint bpsDenominator = 10000"
  by (simp add: bpsDenominator_def)

lemma fee_word_less [simp]: "f < bpsDenominator \<longleftrightarrow> uint f < 10000"
  by (simp add: word_less_def)

lemma fee_word_le [simp]: "f \<le> bpsDenominator \<longleftrightarrow> uint f \<le> 10000"
  by (simp add: word_le_def)

lemma fee_word_ge [simp]: "bpsDenominator \<le> f \<longleftrightarrow> 10000 \<le> uint f"
  by (simp add: word_le_def)

lemma fee_word_gt [simp]: "bpsDenominator < f \<longleftrightarrow> 10000 < uint f"
  by (simp add: word_less_def)

lemma uint_fee_complement: "uint f < 10000 \<Longrightarrow> uint (bpsDenominator - f) = 10000 - uint f"
  by (simp add: uint_sub_if')

lemma copyUint256_Inr [result_iff]:
  "copyUint256 field v = Inr x \<longleftrightarrow> v = Some x \<and> 0 \<le> x \<and> x \<le> maxUint256"
  by (auto simp: copyUint256_def split: option.splits)

lemma copyUint256_Some [simp]: "0 \<le> x \<Longrightarrow> x \<le> maxUint256 \<Longrightarrow> copyUint256 field (Some x) = Inr x"
  by (simp add: copyUint256_def)

lemma copyUint256_Inl: "copyUint256 field v = Inl e \<longleftrightarrow> e = ErrInvalidAmount field \<and> \<not> is_uint256 v"
  by (auto simp: copyUint256_def is_uint256_def split: option.splits)

lemma checkedAdd_Inr [result_iff]: "checkedAdd a b = Inr c \<longleftrightarrow> c = a + b \<and> a + b \<le> maxUint256"
  by (auto simp: checkedAdd_def)

lemma checkedSub_Inr [result_iff]: "checkedSub a b = Inr c \<longleftrightarrow> c = a - b \<and> b \<le> a"
  by (auto simp: checkedSub_def)

lemma checkedMul_Inr [result_iff]: "checkedMul a b = Inr c \<longleftrightarrow> c = a * b \<and> a * b \<le> maxUint256"
  by (auto simp: checkedMul_def)

lemma mulDiv_nonneg:
  "0 \<le> x \<Longrightarrow> 0 \<le> y \<Longrightarrow> 0 < d \<Longrightarrow>
   mulDiv x y d = (if x * y div d \<le> maxUint256 then Inr (x * y div d) else Inl ErrArithmeticOverflow)"
  by (simp add: mulDiv_def Let_def)

lemma ceilDiv_pos: "0 < d \<Longrightarrow> 0 \<le> n \<Longrightarrow> ceilDiv n d = Inr (ceil_div n d)"
  by (auto simp: ceilDiv_def ceil_div_def)

lemma validateState_Inr [result_iff]:
  "validateState s = Inr u \<longleftrightarrow> is_uint256 (virtualETH s) \<and> is_uint256 (virtualToken s)
     \<and> is_uint256 (protocolFees s) \<and> is_uint256 (creatorFees s)"
  by (auto simp: validateState_def result_iff list_all2_Cons1 is_uint256_iff)

lemma validateParameters_Inr [result_iff]:
  "validateParameters p = Inr u \<longleftrightarrow> is_uint256 (totalSupply p) \<and> is_uint256 (curveTokens p)
     \<and> is_uint256 (lpTokens p) \<and> is_uint256 (graduationETH p) \<and> is_uint256 (initialVirtualETH p)
     \<and> is_uint256 (initialVirtualToken p) \<and> is_uint256 (invariant p)
     \<and> is_uint256 (finalVirtualToken p) \<and> is_uint256 (finalVirtualETH p)"
  by (auto simp: validateParameters_def result_iff list_all2_Cons1 is_uint256_iff)


section \<open>Fees\<close>

text \<open>
  \<open>fee_of f g\<close> is the trade fee of a gross amount and \<open>net_of f g\<close> what is left; \<open>gross_for f n\<close>
  is the amount \<open>exactGrossForNet\<close> computes. The three are related exactly: \<open>gross_for\<close> is the
  least gross amount whose net is the requested one.
\<close>

definition fee_of :: "uint16 \<Rightarrow> int \<Rightarrow> int" where
  "fee_of f g = g * uint f div 10000"

definition net_of :: "uint16 \<Rightarrow> int \<Rightarrow> int" where
  "net_of f g = g - fee_of f g"

definition gross_for :: "uint16 \<Rightarrow> int \<Rightarrow> int" where
  "gross_for f n = (n - 1) * 10000 div (10000 - uint f) + 1"

lemma fee_of_nonneg [simp]: "0 \<le> g \<Longrightarrow> 0 \<le> fee_of f g"
  by (simp add: fee_of_def pos_imp_zdiv_nonneg_iff)

lemma fee_of_le: "0 \<le> g \<Longrightarrow> uint f < 10000 \<Longrightarrow> fee_of f g \<le> g"
proof -
  assume "0 \<le> g" "uint f < 10000"
  then have "g * uint f \<le> g * 10000" by (intro mult_left_mono) auto
  then have "g * uint f div 10000 \<le> g * 10000 div 10000" by (intro zdiv_mono1) auto
  then show ?thesis by (simp add: fee_of_def)
qed

lemma fee_of_less: "0 < g \<Longrightarrow> uint f < 10000 \<Longrightarrow> fee_of f g < g"
  by (simp add: fee_of_def int_div_less_iff)

lemma net_of_nonneg: "0 \<le> g \<Longrightarrow> uint f < 10000 \<Longrightarrow> 0 \<le> net_of f g"
  using fee_of_le by (simp add: net_of_def)

lemma net_of_pos: "0 < g \<Longrightarrow> uint f < 10000 \<Longrightarrow> 0 < net_of f g"
  using fee_of_less by (simp add: net_of_def)

lemma net_of_le [simp]: "0 \<le> g \<Longrightarrow> net_of f g \<le> g"
  by (simp add: net_of_def)

lemma net_of_le_iff: "net_of f g \<le> n \<longleftrightarrow> g * (10000 - uint f) \<le> n * 10000"
proof -
  have "net_of f g \<le> n \<longleftrightarrow> g - n \<le> g * uint f div 10000"
    by (auto simp: net_of_def fee_of_def)
  also have "\<dots> \<longleftrightarrow> (g - n) * 10000 \<le> g * uint f" by (simp add: int_le_div_iff)
  also have "\<dots> \<longleftrightarrow> g * (10000 - uint f) \<le> n * 10000" by (simp add: algebra_simps)
  finally show ?thesis .
qed

lemma net_of_mono:
  assumes f: "uint f < 10000" and "g \<le> h" shows "net_of f g \<le> net_of f h"
proof -
  have "g * (10000 - uint f) \<le> h * (10000 - uint f)"
    using assms by (intro mult_right_mono) auto
  also have "\<dots> \<le> net_of f h * 10000" using net_of_le_iff[of f h "net_of f h"] by simp
  finally show ?thesis by (simp add: net_of_le_iff)
qed

text \<open>The least gross amount whose net reaches \<open>n\<close>.\<close>

lemma gross_for_le_iff:
  assumes f: "uint f < 10000" shows "gross_for f n \<le> g \<longleftrightarrow> n \<le> net_of f g"
proof -
  have "gross_for f n \<le> g \<longleftrightarrow> (n - 1) * 10000 div (10000 - uint f) < g"
    by (auto simp: gross_for_def)
  also have "\<dots> \<longleftrightarrow> (n - 1) * 10000 < g * (10000 - uint f)" using f by (simp add: int_div_less_iff)
  also have "\<dots> \<longleftrightarrow> \<not> net_of f g \<le> n - 1" unfolding net_of_le_iff by (rule not_le [symmetric])
  finally show ?thesis by auto
qed

lemma net_of_gross_for:
  assumes f: "uint f < 10000" shows "net_of f (gross_for f n) = n"
proof (rule antisym)
  show "n \<le> net_of f (gross_for f n)" using gross_for_le_iff[OF f, of n "gross_for f n"] by simp
  have "(gross_for f n - 1) * (10000 - uint f) \<le> (n - 1) * 10000"
    using f int_le_div_iff[of "10000 - uint f" "gross_for f n - 1" "(n - 1) * 10000"]
    by (simp add: gross_for_def)
  then have "gross_for f n * (10000 - uint f) \<le> (n - 1) * 10000 + (10000 - uint f)"
    by (simp add: algebra_simps)
  also have "\<dots> \<le> n * 10000" by simp
  finally show "net_of f (gross_for f n) \<le> n" by (simp add: net_of_le_iff)
qed

lemma gross_for_pos: "0 < n \<Longrightarrow> uint f < 10000 \<Longrightarrow> 0 < gross_for f n"
  by (simp add: gross_for_def pos_imp_zdiv_nonneg_iff add_pos_nonneg add.commute)

text \<open>How \<open>splitFees\<close> and \<open>exactGrossForNet\<close> compute on 256-bit amounts.\<close>

definition share_of :: "uint16 \<Rightarrow> int \<Rightarrow> int" where
  "share_of s fee = fee * uint s div 10000"

lemma share_of_bounds: "0 \<le> fee \<Longrightarrow> uint s \<le> 10000 \<Longrightarrow> 0 \<le> share_of s fee \<and> share_of s fee \<le> fee"
proof -
  assume "0 \<le> fee" "uint s \<le> 10000"
  then have "fee * uint s \<le> fee * 10000" by (intro mult_left_mono) auto
  then have "fee * uint s div 10000 \<le> fee * 10000 div 10000" by (intro zdiv_mono1) auto
  then show ?thesis using \<open>0 \<le> fee\<close> by (simp add: share_of_def pos_imp_zdiv_nonneg_iff)
qed

lemma splitFees_eq:
  assumes "0 \<le> g" "g \<le> maxUint256" "uint f < 10000" "uint s \<le> 10000"
  shows "splitFees g f s =
    Inr (fee_of f g, share_of s (fee_of f g), fee_of f g - share_of s (fee_of f g))"
proof -
  have fee: "0 \<le> fee_of f g" "fee_of f g \<le> maxUint256"
    using assms fee_of_le[of g f] by auto
  have share: "0 \<le> share_of s (fee_of f g)" "share_of s (fee_of f g) \<le> fee_of f g"
    using share_of_bounds[OF fee(1) assms(4)] by auto
  have "mulDiv g (uint f) 10000 = Inr (fee_of f g)"
    using assms fee by (simp add: mulDiv_nonneg fee_of_def)
  moreover have "mulDiv (fee_of f g) (uint s) 10000 = Inr (share_of s (fee_of f g))"
    using fee share by (simp add: mulDiv_nonneg share_of_def)
  ultimately show ?thesis
    using assms share by (simp add: splitFees_def checkedSub_def)
qed

lemma exactGrossForNet_eq:
  assumes n: "0 < n" and f: "uint f < 10000" and "gross_for f n \<le> maxUint256"
  shows "exactGrossForNet n f = Inr (gross_for f n)"
proof -
  have c: "uint (bpsDenominator - f) = 10000 - uint f" using f by (rule uint_fee_complement)
  have "mulDiv (n - 1) 10000 (10000 - uint f) = Inr (gross_for f n - 1)"
    using assms by (simp add: mulDiv_nonneg gross_for_def)
  then show ?thesis
    using assms c by (simp add: exactGrossForNet_def checkedSub_def checkedAdd_def)
qed

end
