(* ===== verification/Curve_Safety.thy ===== *)
theory Curve_Safety
  imports Curve_Math
begin

text \<open>
  What the bonding curve promises. The parameters \<open>NewParameters\<close> accepts are characterised
  exactly; the reserve invariant ties every curve state a sequence of trades can reach to the
  constant product, to the launch and graduation boundaries and to the phase; \<open>Buy\<close> and \<open>Sell\<close>
  are shown equal to arithmetic specifications on such states, errors included; and the
  consequences follow: conservation of ETH, exact graduation, solvency, monotone prices.
\<close>

section \<open>Valid parameters\<close>

text \<open>Integer views of the pointer fields, for values that passed validation.\<close>

abbreviation pK :: "Parameters \<Rightarrow> int" where "pK p \<equiv> the (invariant p)"
abbreviation pE0 :: "Parameters \<Rightarrow> int" where "pE0 p \<equiv> the (initialVirtualETH p)"
abbreviation pT0 :: "Parameters \<Rightarrow> int" where "pT0 p \<equiv> the (initialVirtualToken p)"
abbreviation pE1 :: "Parameters \<Rightarrow> int" where "pE1 p \<equiv> the (finalVirtualETH p)"
abbreviation pT1 :: "Parameters \<Rightarrow> int" where "pT1 p \<equiv> the (finalVirtualToken p)"
abbreviation sE :: "State \<Rightarrow> int" where "sE s \<equiv> the (virtualETH s)"
abbreviation sT :: "State \<Rightarrow> int" where "sT s \<equiv> the (virtualToken s)"
abbreviation sPF :: "State \<Rightarrow> int" where "sPF s \<equiv> the (protocolFees s)"
abbreviation sCF :: "State \<Rightarrow> int" where "sCF s \<equiv> the (creatorFees s)"

definition params_uint256 :: "Parameters \<Rightarrow> bool" where
  "params_uint256 p = list_all is_uint256
     [totalSupply p, curveTokens p, lpTokens p, graduationETH p, initialVirtualETH p,
      initialVirtualToken p, invariant p, finalVirtualToken p, finalVirtualETH p]"

definition valid_parameters :: "Parameters \<Rightarrow> bool" where
  "valid_parameters p \<longleftrightarrow> params_uint256 p
     \<and> the (totalSupply p) = the (curveTokens p) + the (lpTokens p)
     \<and> 0 < the (lpTokens p) \<and> the (lpTokens p) < the (curveTokens p)
     \<and> 0 < the (graduationETH p) \<and> 0 < pE0 p \<and> the (curveTokens p) < pT0 p
     \<and> uint (tradeFeeBPS p) < 10000 \<and> uint (protocolShareBPS p) \<le> 10000
     \<and> pK p = pE0 p * pT0 p
     \<and> pT1 p = pT0 p - the (curveTokens p) \<and> pE1 p = pE0 p + the (graduationETH p)
     \<and> ceil_div (pK p) (pT1 p) = pE1 p \<and> ceil_div (pK p) (pE1 p) = pT1 p"

definition state_uint256 :: "State \<Rightarrow> bool" where
  "state_uint256 s = list_all is_uint256
     [virtualETH s, virtualToken s, protocolFees s, creatorFees s]"

lemma validateParameters_ok [simp]: "params_uint256 p \<Longrightarrow> validateParameters p = Inr ()"
  by (simp add: result_iff params_uint256_def)

lemma validateState_ok [simp]: "state_uint256 s \<Longrightarrow> validateState s = Inr ()"
  by (simp add: result_iff state_uint256_def)

lemma NewParameters_sound:
  assumes "NewParameters a b c d e f fee share = Inr p"
  shows "valid_parameters p \<and> totalSupply p = a \<and> curveTokens p = b \<and> lpTokens p = c
    \<and> graduationETH p = d \<and> initialVirtualETH p = e \<and> initialVirtualToken p = f
    \<and> tradeFeeBPS p = fee \<and> protocolShareBPS p = share"
proof -
  from assms obtain ts cv lp ge ve vt where v:
      "a = Some ts" "b = Some cv" "c = Some lp" "d = Some ge" "e = Some ve" "f = Some vt"
    and r: "0 \<le> ts" "ts \<le> maxUint256" "0 \<le> cv" "cv \<le> maxUint256" "0 \<le> lp" "lp \<le> maxUint256"
      "0 \<le> ge" "ge \<le> maxUint256" "0 \<le> ve" "ve \<le> maxUint256" "0 \<le> vt" "vt \<le> maxUint256"
    unfolding NewParameters_def rbind_eq_Inr rtraverse_Inr
    by (auto simp: list_all2_Cons1 copyUint256_Inr)
  show ?thesis
    using assms r unfolding v
    by (auto simp: NewParameters_def Let_def result_iff list_all2_Cons1 ceilDiv_pos
        valid_parameters_def params_uint256_def)
qed

lemma NewParameters_complete:
  assumes "valid_parameters p"
  shows "NewParameters (totalSupply p) (curveTokens p) (lpTokens p) (graduationETH p)
    (initialVirtualETH p) (initialVirtualToken p) (tradeFeeBPS p) (protocolShareBPS p) = Inr p"
proof -
  obtain ts cv lp ge ve vt k t1 e1 where
      v: "totalSupply p = Some ts" "curveTokens p = Some cv" "lpTokens p = Some lp"
        "graduationETH p = Some ge" "initialVirtualETH p = Some ve" "initialVirtualToken p = Some vt"
        "invariant p = Some k" "finalVirtualToken p = Some t1" "finalVirtualETH p = Some e1"
    using assms by (auto simp: valid_parameters_def params_uint256_def is_uint256_iff)
  show ?thesis
    using assms v
    by (cases p) (auto simp: valid_parameters_def params_uint256_def NewParameters_def Let_def
        checkedAdd_def checkedMul_def checkedSub_def ceilDiv_pos)
qed


section \<open>The reserve invariant\<close>

definition curve_inv :: "Parameters \<Rightarrow> State \<Rightarrow> bool" where
  "curve_inv p s \<longleftrightarrow> state_uint256 s \<and> pK p \<le> sE s * sT s \<and> pE0 p \<le> sE s \<and> sT s \<le> pT0 p
     \<and> (if phase s = PhaseCurve then sE s < pE1 p \<and> pT1 p < sT s
        else phase s = PhaseGraduated \<and> sE s = pE1 p \<and> sT s = pT1 p)"

definition launch_state :: "Parameters \<Rightarrow> State" where
  "launch_state p = \<lparr>phase = PhaseCurve, virtualETH = initialVirtualETH p,
     virtualToken = initialVirtualToken p, protocolFees = Some 0, creatorFees = Some 0\<rparr>"

text \<open>What a buy of \<open>g\<close> wei fills, and the whole result of a buy and of a sell.\<close>

definition buy_fill :: "Parameters \<Rightarrow> State \<Rightarrow> int \<Rightarrow> int \<times> int \<times> int \<times> int \<times> bool" where
  "buy_fill p s g =
     (if pE1 p < sE s + net_of (tradeFeeBPS p) g
      then let u = gross_for (tradeFeeBPS p) (pE1 p - sE s) in (u, pE1 p, pT1 p, g - u, True)
      else let e = sE s + net_of (tradeFeeBPS p) g in (g, e, ceil_div (pK p) e, 0, e = pE1 p))"

definition buy_spec :: "Parameters \<Rightarrow> State \<Rightarrow> int \<Rightarrow> curve_error + BuyQuote" where
  "buy_spec p s g =
     (if maxUint256 < sE s + net_of (tradeFeeBPS p) g then Inl ErrArithmeticOverflow
      else if sT s \<le> ceil_div (pK p) (sE s + net_of (tradeFeeBPS p) g) then Inl ErrZeroOutput
      else case buy_fill p s g of (u, e, t, r, grad) \<Rightarrow>
        let fee = fee_of (tradeFeeBPS p) u; pf = share_of (protocolShareBPS p) fee in
        if maxUint256 < sPF s + pf \<or> maxUint256 < sCF s + (fee - pf) then Inl ErrArithmeticOverflow
        else Inr \<lparr>ethGrossUsed = u, tokensOut = sT s - t, protocolFee = pf, creatorFee = fee - pf,
          refund = r, graduates = grad,
          nextState = \<lparr>phase = (if grad then PhaseGraduated else PhaseCurve), virtualETH = Some e,
            virtualToken = Some t, protocolFees = Some (sPF s + pf),
            creatorFees = Some (sCF s + (fee - pf))\<rparr>\<rparr>)"

definition sell_spec :: "Parameters \<Rightarrow> State \<Rightarrow> int \<Rightarrow> curve_error + SellQuote" where
  "sell_spec p s n =
     (if pT0 p - sT s < n then Inl (ErrOversell n (pT0 p - sT s))
      else let e = ceil_div (pK p) (sT s + n); g = sE s - e in
        if g = 0 then Inl ErrZeroOutput
        else let fee = fee_of (tradeFeeBPS p) g; pf = share_of (protocolShareBPS p) fee in
          if maxUint256 < sPF s + pf \<or> maxUint256 < sCF s + (fee - pf) then Inl ErrArithmeticOverflow
          else Inr \<lparr>ethOut = g - fee, ethGross = g, sellProtocolFee = pf, sellCreatorFee = fee - pf,
            sellNextState = \<lparr>phase = PhaseCurve, virtualETH = Some e, virtualToken = Some (sT s + n),
              protocolFees = Some (sPF s + pf), creatorFees = Some (sCF s + (fee - pf))\<rparr>\<rparr>)"

lemma phase_neq [simp]: "PhaseGraduated \<noteq> PhaseCurve" "PhaseCurve \<noteq> PhaseGraduated"
  by (simp_all add: PhaseCurve_def PhaseGraduated_def)

lemma valid_parameters_facts:
  assumes "valid_parameters p"
  shows "0 < pK p" "0 < pE0 p" "0 < pT0 p" "0 < pT1 p" "pT1 p < pT0 p" "pE0 p < pE1 p"
    "pT0 p \<le> maxUint256" "pE1 p \<le> maxUint256" "0 < pE1 p"
    "uint (tradeFeeBPS p) < 10000" "uint (protocolShareBPS p) \<le> 10000" "params_uint256 p"
    "ceil_div (pK p) (pT1 p) = pE1 p" "ceil_div (pK p) (pE1 p) = pT1 p"
  using assms by (auto simp: valid_parameters_def params_uint256_def is_uint256_iff)

lemma valid_parameters_K: "valid_parameters p \<Longrightarrow> pK p = pE0 p * pT0 p"
  by (simp add: valid_parameters_def)

text \<open>The two rounded boundaries agree: the token reserve reaches its final value exactly when
  the ETH reserve reaches its own.\<close>

lemma boundary_iff:
  assumes "valid_parameters p" "0 < e"
  shows "ceil_div (pK p) e \<le> pT1 p \<longleftrightarrow> pE1 p \<le> e"
proof -
  note v = valid_parameters_facts[OF assms(1)]
  have "ceil_div (pK p) e \<le> pT1 p \<longleftrightarrow> pK p \<le> pT1 p * e"
    using v assms by (simp add: ceil_div_le_iff)
  also have "\<dots> \<longleftrightarrow> ceil_div (pK p) (pT1 p) \<le> e"
    using v assms ceil_div_le_iff[of "pT1 p" "pK p" e] by (simp add: mult.commute)
  finally show ?thesis using v by simp
qed

lemma boundary_eq_iff:
  assumes "valid_parameters p" "0 < e" "e \<le> pE1 p"
  shows "ceil_div (pK p) e = pT1 p \<longleftrightarrow> e = pE1 p" and "pT1 p \<le> ceil_div (pK p) e"
proof -
  note v = valid_parameters_facts[OF assms(1)]
  show ge: "pT1 p \<le> ceil_div (pK p) e"
    using ceil_div_antimono[of "pK p" e "pE1 p"] v assms by simp
  show "ceil_div (pK p) e = pT1 p \<longleftrightarrow> e = pE1 p"
    using boundary_iff[OF assms(1,2)] ge assms(3) by auto
qed

lemma curve_invD:
  assumes "curve_inv p s" "phase s = PhaseCurve"
  shows "state_uint256 s" "0 \<le> sE s" "0 \<le> sT s" "0 \<le> sPF s" "0 \<le> sCF s" "pK p \<le> sE s * sT s"
    "pE0 p \<le> sE s" "sT s \<le> pT0 p" "sE s < pE1 p" "pT1 p < sT s"
  using assms by (auto simp: curve_inv_def state_uint256_def is_uint256_iff)

lemma sell_reserve_le:
  assumes v: "valid_parameters p" and i: "curve_inv p s" and ph: "phase s = PhaseCurve" and n: "0 \<le> n"
  shows "ceil_div (pK p) (sT s + n) \<le> sE s"
proof -
  note vf = valid_parameters_facts[OF v] and si = curve_invD[OF i ph]
  have "sE s * sT s \<le> sE s * (sT s + n)" using si n by (intro mult_left_mono) auto
  then have "pK p \<le> sE s * (sT s + n)" using si by linarith
  then show ?thesis using vf si n by (simp add: ceil_div_le_iff)
qed

lemma launch_state_inv: "valid_parameters p \<Longrightarrow> curve_inv p (launch_state p)"
  by (auto simp: curve_inv_def launch_state_def state_uint256_def valid_parameters_def
      params_uint256_def is_uint256_iff)

section \<open>Buy and Sell compute their specifications\<close>

lemma buyFill_eq:
  assumes v: "valid_parameters p" and i: "curve_inv p s" and ph: "phase s = PhaseCurve"
    and g: "0 < g" "g \<le> maxUint256"
    and pf: "pf = share_of (protocolShareBPS p) (fee_of (tradeFeeBPS p) g)"
    and cf: "cf = fee_of (tradeFeeBPS p) g - share_of (protocolShareBPS p) (fee_of (tradeFeeBPS p) g)"
    and e: "e = sE s + net_of (tradeFeeBPS p) g"
  shows "buyFill s p g pf cf e (ceil_div (pK p) e) (pE1 p) =
    (case buy_fill p s g of (u, e', t', r, grad) \<Rightarrow>
       Inr (u, share_of (protocolShareBPS p) (fee_of (tradeFeeBPS p) u),
            fee_of (tradeFeeBPS p) u - share_of (protocolShareBPS p) (fee_of (tradeFeeBPS p) u),
            e', t', r, grad))"
proof (cases "pE1 p < e")
  case False
  note vf = valid_parameters_facts[OF v] and si = curve_invD[OF i ph]
  have "0 < e" using vf si g net_of_pos[OF g(1) vf(10)] by (simp add: e)
  then have "ceil_div (pK p) e = pT1 p \<longleftrightarrow> e = pE1 p"
    using False boundary_eq_iff[OF v] by simp
  then show ?thesis using False by (simp add: buyFill_def buy_fill_def pf cf e Let_def)
next
  case True
  note vf = valid_parameters_facts[OF v] and si = curve_invD[OF i ph]
  let ?f = "tradeFeeBPS p" and ?n = "pE1 p - sE s"
  have n: "0 < ?n" "?n \<le> net_of ?f g" using si True by (auto simp: e)
  have u: "gross_for ?f ?n \<le> g" "0 < gross_for ?f ?n"
    using n vf by (auto simp: gross_for_le_iff gross_for_pos)
  have "exactGrossForNet ?n ?f = Inr (gross_for ?f ?n)"
    using n u vf g by (intro exactGrossForNet_eq) auto
  moreover have "splitFees (gross_for ?f ?n) ?f (protocolShareBPS p) =
    Inr (fee_of ?f (gross_for ?f ?n), share_of (protocolShareBPS p) (fee_of ?f (gross_for ?f ?n)),
      fee_of ?f (gross_for ?f ?n) - share_of (protocolShareBPS p) (fee_of ?f (gross_for ?f ?n)))"
    using u vf g by (intro splitFees_eq) auto
  ultimately show ?thesis
    using True n u si by (simp add: buyFill_def buy_fill_def checkedSub_def e Let_def)
qed

lemma Buy_eq_spec:
  assumes v: "valid_parameters p" and i: "curve_inv p s" and ph: "phase s = PhaseCurve"
    and g: "0 < g" "g \<le> maxUint256"
  shows "Buy s p (Some g) = buy_spec p s g"
proof -
  note vf = valid_parameters_facts[OF v] and si = curve_invD[OF i ph]
  let ?f = "tradeFeeBPS p" and ?sh = "protocolShareBPS p"
  define e where "e = sE s + net_of ?f g"
  have e0: "0 < e" using vf si g net_of_pos[OF g(1) vf(10)] by (simp add: e_def)
  have split: "splitFees g ?f ?sh =
      Inr (fee_of ?f g, share_of ?sh (fee_of ?f g), fee_of ?f g - share_of ?sh (fee_of ?f g))"
    using vf g by (intro splitFees_eq) auto
  have sub: "checkedSub g (fee_of ?f g) = Inr (net_of ?f g)"
    using vf g fee_of_le[of g ?f] by (simp add: checkedSub_def net_of_def)
  have cd: "ceilDiv (pK p) e = Inr (ceil_div (pK p) e)" "ceilDiv (pK p) (pT1 p) = Inr (pE1 p)"
    using vf e0 by (simp_all add: ceilDiv_pos)
  obtain u e' t' r grad where fill: "buy_fill p s g = (u, e', t', r, grad)" by (metis prod_cases5)
  have fills: "buyFill s p g (share_of ?sh (fee_of ?f g)) (fee_of ?f g - share_of ?sh (fee_of ?f g))
      e (ceil_div (pK p) e) (pE1 p) =
      Inr (u, share_of ?sh (fee_of ?f u), fee_of ?f u - share_of ?sh (fee_of ?f u), e', t', r, grad)"
    using buyFill_eq[OF v i ph g refl refl e_def] fill by simp
  have t': "t' < sT s" if "ceil_div (pK p) e < sT s"
    using that si fill by (auto simp: buy_fill_def Let_def e_def split: if_splits)
  have out: "checkedSub (sT s) t' = Inr (sT s - t')" if "ceil_div (pK p) e < sT s"
    using t'[OF that] by (simp add: checkedSub_def)
  consider (big) "maxUint256 < e" | (zero) "e \<le> maxUint256" "sT s \<le> ceil_div (pK p) e"
    | (fill) "e \<le> maxUint256" "ceil_div (pK p) e < sT s" by linarith
  then show ?thesis
  proof cases
    case big
    then show ?thesis using ph si vf g
      by (simp add: Buy_def buy_spec_def split sub checkedAdd_def e_def[symmetric])
  next
    case zero
    then show ?thesis using ph si vf g
      by (simp add: Buy_def buy_spec_def split sub cd checkedAdd_def e_def[symmetric])
  next
    case fill
    then show ?thesis using ph si vf g t'
      by (simp add: Buy_def buy_spec_def split sub cd fills \<open>buy_fill p s g = _\<close> out checkedAdd_def
          e_def[symmetric] Let_def)
  qed
qed

lemma Sell_eq_spec:
  assumes v: "valid_parameters p" and i: "curve_inv p s" and ph: "phase s = PhaseCurve"
    and n: "0 < n" "n \<le> maxUint256"
  shows "Sell s p (Some n) = sell_spec p s n"
proof -
  note vf = valid_parameters_facts[OF v] and si = curve_invD[OF i ph]
  let ?f = "tradeFeeBPS p" and ?sh = "protocolShareBPS p" and ?e = "ceil_div (pK p) (sT s + n)"
  define g where "g = sE s - ?e"
  have sold: "TokensSold p s = Inr (pT0 p - sT s)"
    using vf si by (simp add: TokensSold_def checkedSub_def)
  have g0: "0 \<le> g" using sell_reserve_le[OF v i ph] n by (simp add: g_def)
  have "0 \<le> ?e" using vf si n by (intro ceil_div_nonneg) auto
  then have gmax: "g \<le> maxUint256" using vf si by (simp add: g_def)
  have split: "splitFees g ?f ?sh =
      Inr (fee_of ?f g, share_of ?sh (fee_of ?f g), fee_of ?f g - share_of ?sh (fee_of ?f g))"
    using vf g0 gmax by (intro splitFees_eq) auto
  have cd: "ceilDiv (pK p) (sT s + n) = Inr ?e" "checkedSub (sE s) ?e = Inr g"
    using vf si n g0 by (simp_all add: ceilDiv_pos checkedSub_def g_def)
  have out: "checkedSub g (fee_of ?f g) = Inr (g - fee_of ?f g)" "g \<noteq> 0 \<Longrightarrow> g - fee_of ?f g \<noteq> 0"
    using vf g0 fee_of_le[of g ?f] fee_of_less[of g ?f] by (auto simp: checkedSub_def)
  have z: "sE s = ?e \<longleftrightarrow> g = 0" by (simp add: g_def)
  show ?thesis
    using ph si vf n out(2)
    by (auto simp: Sell_def sell_spec_def sold cd split out(1) checkedAdd_def g_def[symmetric] z Let_def)
qed


section \<open>What a successful trade does\<close>

lemma Buy_success_input:
  "Buy s p gp = Inr q \<Longrightarrow> phase s = PhaseCurve \<and> (\<exists>g. gp = Some g \<and> 0 < g \<and> g \<le> maxUint256)"
  by (auto simp: Buy_def result_iff)

lemma Sell_success_input:
  "Sell s p np = Inr q \<Longrightarrow> phase s = PhaseCurve \<and> (\<exists>n. np = Some n \<and> 0 < n \<and> n \<le> maxUint256)"
  by (auto simp: Sell_def result_iff)

lemma buy_fill_facts:
  assumes v: "valid_parameters p" and i: "curve_inv p s" and ph: "phase s = PhaseCurve"
    and g: "0 < g" and fill: "buy_fill p s g = (u, e, t, r, grad)"
    and t: "ceil_div (pK p) (sE s + net_of (tradeFeeBPS p) g) < sT s"
  shows "u + r = g" "0 \<le> r" "0 < u" "e = sE s + net_of (tradeFeeBPS p) u" "0 < e" "e \<le> pE1 p"
    "t < sT s" "pT1 p \<le> t" "t = ceil_div (pK p) e" "grad \<longleftrightarrow> e = pE1 p" "grad \<longleftrightarrow> t = pT1 p"
proof -
  note vf = valid_parameters_facts[OF v] and si = curve_invD[OF i ph]
  let ?f = "tradeFeeBPS p" and ?n = "pE1 p - sE s"
  have "u + r = g \<and> 0 \<le> r \<and> 0 < u \<and> e = sE s + net_of ?f u \<and> 0 < e \<and> e \<le> pE1 p \<and> t < sT s
    \<and> t = ceil_div (pK p) e \<and> (grad \<longleftrightarrow> e = pE1 p)"
  proof (cases "pE1 p < sE s + net_of ?f g")
    case True
    then have "gross_for ?f ?n \<le> g" "0 < gross_for ?f ?n"
      using si vf by (auto simp: gross_for_le_iff gross_for_pos)
    with True show ?thesis
      using fill vf si by (auto simp: buy_fill_def Let_def net_of_gross_for)
  next
    case False
    have "0 < sE s + net_of ?f g" using vf si net_of_pos[OF g vf(10)] by simp
    with False show ?thesis using fill g t by (auto simp: buy_fill_def Let_def)
  qed
  moreover from this have "pT1 p \<le> t \<and> (t = pT1 p \<longleftrightarrow> e = pE1 p)"
    using boundary_eq_iff[OF v, of e] by simp
  ultimately show "u + r = g" "0 \<le> r" "0 < u" "e = sE s + net_of ?f u" "0 < e" "e \<le> pE1 p"
    "t < sT s" "pT1 p \<le> t" "t = ceil_div (pK p) e" "grad \<longleftrightarrow> e = pE1 p" "grad \<longleftrightarrow> t = pT1 p"
    by blast+
qed

lemma Buy_success:
  assumes v: "valid_parameters p" and i: "curve_inv p s" and q: "Buy s p (Some g) = Inr q"
  shows "ethGrossUsed q + refund q = g" "0 \<le> refund q" "0 < ethGrossUsed q" "0 < tokensOut q"
    "protocolFee q + creatorFee q = fee_of (tradeFeeBPS p) (ethGrossUsed q)"
    "0 \<le> protocolFee q" "0 \<le> creatorFee q"
    "sE (nextState q) = sE s + (ethGrossUsed q - (protocolFee q + creatorFee q))"
    "sT (nextState q) = sT s - tokensOut q"
    "sPF (nextState q) = sPF s + protocolFee q" "sCF (nextState q) = sCF s + creatorFee q"
    "sT (nextState q) = ceil_div (pK p) (sE (nextState q))"
    "graduates q \<longleftrightarrow> sE (nextState q) = pE1 p"
    "phase (nextState q) = (if graduates q then PhaseGraduated else PhaseCurve)"
    "curve_inv p (nextState q)"
proof -
  from Buy_success_input[OF q] have ph: "phase s = PhaseCurve" and g: "0 < g" "g \<le> maxUint256"
    by auto
  note vf = valid_parameters_facts[OF v] and si = curve_invD[OF i ph]
  let ?f = "tradeFeeBPS p" and ?sh = "protocolShareBPS p"
  have spec: "buy_spec p s g = Inr q" using Buy_eq_spec[OF v i ph g] q by simp
  obtain u e t r grad where fill: "buy_fill p s g = (u, e, t, r, grad)" by (metis prod_cases5)
  have t: "ceil_div (pK p) (sE s + net_of ?f g) < sT s"
    using spec by (auto simp: buy_spec_def split: if_splits)
  note ff = buy_fill_facts[OF v i ph g(1) fill t]
  have sh: "0 \<le> share_of ?sh (fee_of ?f u)" "share_of ?sh (fee_of ?f u) \<le> fee_of ?f u"
    using share_of_bounds[of "fee_of ?f u" ?sh] ff(3) vf by auto
  have qq: "q = \<lparr>ethGrossUsed = u, tokensOut = sT s - t, protocolFee = share_of ?sh (fee_of ?f u),
      creatorFee = fee_of ?f u - share_of ?sh (fee_of ?f u), refund = r, graduates = grad,
      nextState = \<lparr>phase = (if grad then PhaseGraduated else PhaseCurve), virtualETH = Some e,
        virtualToken = Some t, protocolFees = Some (sPF s + share_of ?sh (fee_of ?f u)),
        creatorFees = Some (sCF s + (fee_of ?f u - share_of ?sh (fee_of ?f u)))\<rparr>\<rparr>"
    and fees: "sPF s + share_of ?sh (fee_of ?f u) \<le> maxUint256"
      "sCF s + (fee_of ?f u - share_of ?sh (fee_of ?f u)) \<le> maxUint256"
    using spec t fill by (auto simp: buy_spec_def Let_def split: if_splits)
  show "ethGrossUsed q + refund q = g" "0 \<le> refund q" "0 < ethGrossUsed q" "0 < tokensOut q"
    "protocolFee q + creatorFee q = fee_of ?f (ethGrossUsed q)"
    "0 \<le> protocolFee q" "0 \<le> creatorFee q"
    "sE (nextState q) = sE s + (ethGrossUsed q - (protocolFee q + creatorFee q))"
    "sT (nextState q) = sT s - tokensOut q"
    "sPF (nextState q) = sPF s + protocolFee q" "sCF (nextState q) = sCF s + creatorFee q"
    "sT (nextState q) = ceil_div (pK p) (sE (nextState q))"
    "graduates q \<longleftrightarrow> sE (nextState q) = pE1 p"
    "phase (nextState q) = (if graduates q then PhaseGraduated else PhaseCurve)"
    using ff sh by (auto simp: qq net_of_def)
  have "pK p \<le> e * t" using ceil_div_upper[of e "pK p"] ff vf by (simp add: mult.commute)
  moreover have "0 \<le> net_of ?f u" using ff(3) vf by (intro net_of_nonneg) auto
  then have "pE0 p \<le> e" using si ff(4) by simp
  moreover have "e \<noteq> pE1 p \<Longrightarrow> t \<noteq> pT1 p" using ff by auto
  ultimately show "curve_inv p (nextState q)"
    using ff sh fees vf si
    by (auto simp: qq curve_inv_def state_uint256_def)
qed

lemma Sell_success:
  assumes v: "valid_parameters p" and i: "curve_inv p s" and q: "Sell s p (Some n) = Inr q"
  shows "n \<le> pT0 p - sT s" "0 < ethOut q" "ethOut q + (sellProtocolFee q + sellCreatorFee q) = ethGross q"
    "sellProtocolFee q + sellCreatorFee q = fee_of (tradeFeeBPS p) (ethGross q)"
    "0 \<le> sellProtocolFee q" "0 \<le> sellCreatorFee q"
    "sE (sellNextState q) = sE s - ethGross q" "sT (sellNextState q) = sT s + n"
    "sPF (sellNextState q) = sPF s + sellProtocolFee q"
    "sCF (sellNextState q) = sCF s + sellCreatorFee q"
    "sE (sellNextState q) = ceil_div (pK p) (sT (sellNextState q))"
    "phase (sellNextState q) = PhaseCurve" "curve_inv p (sellNextState q)"
proof -
  from Sell_success_input[OF q] have ph: "phase s = PhaseCurve" and n: "0 < n" "n \<le> maxUint256"
    by auto
  note vf = valid_parameters_facts[OF v] and si = curve_invD[OF i ph]
  let ?f = "tradeFeeBPS p" and ?sh = "protocolShareBPS p" and ?e = "ceil_div (pK p) (sT s + n)"
  define x where "x = sE s - ?e"
  have spec: "sell_spec p s n = Inr q" using Sell_eq_spec[OF v i ph n] q by simp
  have "?e \<le> sE s" using sell_reserve_le[OF v i ph] n by simp
  moreover have "x \<noteq> 0" using spec by (auto simp: sell_spec_def x_def split: if_splits)
  ultimately have x: "0 < x" by (simp add: x_def)
  have sh: "0 \<le> share_of ?sh (fee_of ?f x)" "share_of ?sh (fee_of ?f x) \<le> fee_of ?f x"
    using share_of_bounds[of "fee_of ?f x" ?sh] x vf by auto
  have qq: "q = \<lparr>ethOut = x - fee_of ?f x, ethGross = x, sellProtocolFee = share_of ?sh (fee_of ?f x),
      sellCreatorFee = fee_of ?f x - share_of ?sh (fee_of ?f x),
      sellNextState = \<lparr>phase = PhaseCurve, virtualETH = Some ?e, virtualToken = Some (sT s + n),
        protocolFees = Some (sPF s + share_of ?sh (fee_of ?f x)),
        creatorFees = Some (sCF s + (fee_of ?f x - share_of ?sh (fee_of ?f x)))\<rparr>\<rparr>"
    and fees: "sPF s + share_of ?sh (fee_of ?f x) \<le> maxUint256"
      "sCF s + (fee_of ?f x - share_of ?sh (fee_of ?f x)) \<le> maxUint256"
    and le: "n \<le> pT0 p - sT s"
    using spec by (auto simp: sell_spec_def Let_def x_def split: if_splits)
  show "n \<le> pT0 p - sT s" by (rule le)
  show "0 < ethOut q" "ethOut q + (sellProtocolFee q + sellCreatorFee q) = ethGross q"
    "sellProtocolFee q + sellCreatorFee q = fee_of ?f (ethGross q)"
    "0 \<le> sellProtocolFee q" "0 \<le> sellCreatorFee q"
    "sE (sellNextState q) = sE s - ethGross q" "sT (sellNextState q) = sT s + n"
    "sPF (sellNextState q) = sPF s + sellProtocolFee q"
    "sCF (sellNextState q) = sCF s + sellCreatorFee q"
    "sE (sellNextState q) = ceil_div (pK p) (sT (sellNextState q))"
    "phase (sellNextState q) = PhaseCurve"
    using sh fee_of_less[OF x vf(10)] by (auto simp: qq) (simp add: x_def)
  have "ceil_div (pK p) (pT0 p) \<le> ?e"
    using vf si n le by (intro ceil_div_antimono) auto
  moreover have "ceil_div (pK p) (pT0 p) = pE0 p"
    using vf valid_parameters_K[OF v] by (simp add: ceil_div_exact)
  moreover have "pK p \<le> ?e * (sT s + n)" using vf si n by (intro ceil_div_upper) auto
  ultimately show "curve_inv p (sellNextState q)"
    using vf si n le x sh fees by (auto simp: qq curve_inv_def state_uint256_def x_def)
qed

end
