(* ===== verification/Curve_Trading.thy ===== *)
theory Curve_Trading
  imports Curve_Safety
begin

text \<open>
  Sequences of trades on a curve and the properties of the bonding-curve engine. A trading
  engine is an interface: a step that either fails or returns a new state with the ETH and
  token flow of the trade, an invariant the step keeps and two reserves that move by exactly
  these flows. What follows for whole runs is proved once for the interface, which the curve's
  \<open>Buy\<close> and \<open>Sell\<close> implement.
\<close>

section \<open>Trading engines\<close>

fun run_flow :: "('t \<Rightarrow> 's \<Rightarrow> 'e + 's \<times> int \<times> int) \<Rightarrow> 't list \<Rightarrow> 's \<Rightarrow> 'e + 's \<times> int \<times> int" where
  "run_flow step [] s = Inr (s, 0, 0)"
| "run_flow step (t # ts) s =
     rbind (step t s) (\<lambda>(s1, d, n).
     rbind (run_flow step ts s1) (\<lambda>(s2, d', n'). Inr (s2, d + d', n + n')))"

locale trading_engine =
  fixes inv :: "'s \<Rightarrow> bool" and reserve :: "'s \<Rightarrow> int" and stock :: "'s \<Rightarrow> int"
    and step :: "'t \<Rightarrow> 's \<Rightarrow> 'e + 's \<times> int \<times> int" and floor_reserve :: int and full_stock :: int
  assumes step_inv: "inv s \<Longrightarrow> step t s = Inr (s', d, n) \<Longrightarrow> inv s'"
    and step_reserve: "inv s \<Longrightarrow> step t s = Inr (s', d, n) \<Longrightarrow> reserve s' = reserve s + d"
    and step_stock: "inv s \<Longrightarrow> step t s = Inr (s', d, n) \<Longrightarrow> stock s' = stock s - n"
    and inv_floor: "inv s \<Longrightarrow> floor_reserve \<le> reserve s"
    and inv_full: "inv s \<Longrightarrow> stock s \<le> full_stock"
begin

lemma run_flow_inv:
  assumes "inv s" "run_flow step ts s = Inr (s', d, n)"
  shows "inv s' \<and> reserve s' = reserve s + d \<and> stock s' = stock s - n"
  using assms
proof (induction ts arbitrary: s d n)
  case Nil
  then show ?case by simp
next
  case (Cons t ts)
  from Cons.prems(2) obtain s1 d1 n1 d2 n2 where
      1: "step t s = Inr (s1, d1, n1)" and 2: "run_flow step ts s1 = Inr (s', d2, n2)"
      and sum: "d = d1 + d2" "n = n1 + n2"
    by (auto simp: result_iff)
  have "inv s1" using step_inv[OF Cons.prems(1) 1] .
  then show ?case
    using Cons.IH[OF _ 2] step_reserve[OF Cons.prems(1) 1] step_stock[OF Cons.prems(1) 1] sum by simp
qed

lemma run_flow_solvent:
  assumes "inv s" "reserve s = floor_reserve" "stock s = full_stock"
    and "run_flow step ts s = Inr (s', d, n)"
  shows "0 \<le> d \<and> 0 \<le> n"
  using run_flow_inv[OF assms(1,4)] inv_floor[of s'] inv_full[of s'] assms by simp

end

section \<open>The curve as a trading engine\<close>

datatype trade = TradeBuy bigptr | TradeSell bigptr

text \<open>The flow of a trade: ETH that stays in the curve, and tokens that leave it.\<close>

definition curve_trade :: "Parameters \<Rightarrow> trade \<Rightarrow> State \<Rightarrow> curve_error + State \<times> int \<times> int" where
  "curve_trade p t s = (case t of
     TradeBuy g \<Rightarrow> rbind (Buy s p g) (\<lambda>q.
       Inr (nextState q, ethGrossUsed q - (protocolFee q + creatorFee q), tokensOut q))
   | TradeSell n \<Rightarrow> rbind (Sell s p n) (\<lambda>q.
       Inr (sellNextState q, - ethGross q, - the n)))"

lemma curve_tradeE:
  assumes "curve_trade p t s = Inr (s', d, n)"
  obtains (buy) g q where "t = TradeBuy (Some g)" "Buy s p (Some g) = Inr q" "s' = nextState q"
      "d = ethGrossUsed q - (protocolFee q + creatorFee q)" "n = tokensOut q"
    | (sell) k q where "t = TradeSell (Some k)" "Sell s p (Some k) = Inr q" "s' = sellNextState q"
      "d = - ethGross q" "n = - k"
proof (cases t)
  case (TradeBuy x)
  then obtain q where q: "Buy s p x = Inr q" "s' = nextState q"
      "d = ethGrossUsed q - (protocolFee q + creatorFee q)" "n = tokensOut q"
    using assms by (auto simp: curve_trade_def result_iff)
  then show ?thesis using buy TradeBuy Buy_success_input[OF q(1)] by blast
next
  case (TradeSell x)
  then obtain q where q: "Sell s p x = Inr q" "s' = sellNextState q" "d = - ethGross q" "n = - the x"
    using assms by (auto simp: curve_trade_def result_iff)
  moreover obtain k where "x = Some k" using Sell_success_input[OF q(1)] by blast
  ultimately show ?thesis using sell TradeSell by simp
qed

interpretation curve: trading_engine
  "\<lambda>s. valid_parameters p \<and> curve_inv p s" sE sT "curve_trade p"
  "if valid_parameters p then pE0 p else 0" "if valid_parameters p then pT0 p else 0" for p
proof (unfold_locales, goal_cases)
  case (1 s t s' d n)
  from 1(2) show ?case using 1(1)
    by (cases rule: curve_tradeE) (auto intro: Buy_success(15) Sell_success(13))
next
  case (2 s t s' d n)
  from 2(2) show ?case using 2(1)
    by (cases rule: curve_tradeE) (auto simp: Buy_success(8) Sell_success(7))
next
  case (3 s t s' d n)
  from 3(2) show ?case using 3(1)
    by (cases rule: curve_tradeE) (auto simp: Buy_success(9) Sell_success(8))
next
  case (4 s)
  then show ?case by (auto simp: curve_inv_def)
next
  case (5 s)
  then show ?case by (auto simp: curve_inv_def)
qed

lemma launch_reserves [simp]: "virtualETH (launch_state p) = initialVirtualETH p"
  "virtualToken (launch_state p) = initialVirtualToken p" "phase (launch_state p) = PhaseCurve"
  by (simp_all add: launch_state_def)

lemma RealCurveETH_inv:
  "valid_parameters p \<Longrightarrow> curve_inv p s \<Longrightarrow> RealCurveETH p s = Inr (sE s - pE0 p)"
  using valid_parameters_facts[of p] by (auto simp: RealCurveETH_def checkedSub_def curve_inv_def)

lemma TokensSold_inv:
  "valid_parameters p \<Longrightarrow> curve_inv p s \<Longrightarrow> TokensSold p s = Inr (pT0 p - sT s)"
  using valid_parameters_facts[of p] by (auto simp: TokensSold_def checkedSub_def curve_inv_def)

text \<open>The parameter set of the committed version-one vectors, used by the witnesses.\<close>

definition v1_parameters :: Parameters where
  "v1_parameters = \<lparr>totalSupply = Some 1000000000000000000000000000,
     curveTokens = Some 800000000000000000000000000, lpTokens = Some 200000000000000000000000000,
     graduationETH = Some 4200000000000000000, initialVirtualETH = Some 1400000000000000000,
     initialVirtualToken = Some 1066666666666666666666666667, tradeFeeBPS = 100,
     protocolShareBPS = 5000, invariant = Some 1493333333333333333333333333800000000000000000,
     finalVirtualToken = Some 266666666666666666666666667,
     finalVirtualETH = Some 5600000000000000000\<rparr>"

lemma v1_valid: "valid_parameters v1_parameters"
  by (simp add: valid_parameters_def params_uint256_def v1_parameters_def maxUint256_def ceil_div_def)

lemma v1_launch_inv: "curve_inv v1_parameters (launch_state v1_parameters)"
  by (rule launch_state_inv[OF v1_valid])

lemmas curve_eval = v1_parameters_def launch_state_def maxUint256_def ceil_div_def fee_of_def
  net_of_def share_of_def gross_for_def buy_fill_def buy_spec_def sell_spec_def Let_def


section \<open>Properties of the curve engine\<close>

text \<open>\<open>NewParameters\<close> accepts exactly the parameter sets that satisfy every launch rule
  (supply split, allocation, boundaries that round-trip in both directions, fee bounds) and
  returns them unchanged with the derived invariant and final reserves.\<close>

theorem NewParameters_iff:
  "NewParameters a b c d e f fee share = Inr p \<longleftrightarrow>
     valid_parameters p \<and> totalSupply p = a \<and> curveTokens p = b \<and> lpTokens p = c
     \<and> graduationETH p = d \<and> initialVirtualETH p = e \<and> initialVirtualToken p = f
     \<and> tradeFeeBPS p = fee \<and> protocolShareBPS p = share"
  using NewParameters_sound NewParameters_complete by blast




text \<open>The state the vectors reach with one ETH bought from launch.\<close>

definition v1_mid_state :: State where
  "v1_mid_state = \<lparr>phase = PhaseCurve, virtualETH = Some 2390000000000000000,
     virtualToken = Some 624825662482566248256624826, protocolFees = Some 5000000000000000,
     creatorFees = Some 5000000000000000\<rparr>"

lemma v1_mid_inv: "curve_inv v1_parameters v1_mid_state"
  by (simp add: curve_inv_def v1_mid_state_def v1_parameters_def state_uint256_def maxUint256_def)


lemma Buy_reserve_min:
  assumes "valid_parameters p" "curve_inv p s" "Buy s p (Some g) = Inr q"
  shows "sE (nextState q) = min (pE1 p) (sE s + net_of (tradeFeeBPS p) g)"
proof -
  from Buy_success_input[OF assms(3)] have ph: "phase s = PhaseCurve" and g: "0 < g" "g \<le> maxUint256"
    by auto
  have "buy_spec p s g = Inr q" using Buy_eq_spec[OF assms(1,2) ph g] assms(3) by simp
  then show ?thesis by (auto simp: buy_spec_def buy_fill_def Let_def split: if_splits)
qed

text \<open>C26: ETH and tokens are conserved by a buy. The supplied amount is the gross used plus the
  refund; the gross used is the increase of the ETH reserve plus the two fees, whose accumulators
  grow by exactly these; the tokens paid out are the decrease of the token reserve; the reserve
  invariant holds again; and the ETH reserve stops exactly at the graduation boundary.\<close>

theorem Buy_conserves:
  assumes "valid_parameters p" "curve_inv p s" "Buy s p (Some g) = Inr q"
  shows "g = ethGrossUsed q + refund q \<and> 0 \<le> refund q
    \<and> ethGrossUsed q = (sE (nextState q) - sE s) + protocolFee q + creatorFee q
    \<and> sPF (nextState q) = sPF s + protocolFee q \<and> sCF (nextState q) = sCF s + creatorFee q
    \<and> 0 < tokensOut q \<and> sT (nextState q) = sT s - tokensOut q
    \<and> curve_inv p (nextState q)
    \<and> sE (nextState q) = min (pE1 p) (sE s + net_of (tradeFeeBPS p) g)"
  using Buy_success[OF assms] Buy_reserve_min[OF assms] by simp

lemma v1_buy_one_eth:
  "Buy (launch_state v1_parameters) v1_parameters (Some 1000000000000000000) =
     Inr \<lparr>ethGrossUsed = 1000000000000000000, tokensOut = 441841004184100418410041841,
       protocolFee = 5000000000000000, creatorFee = 5000000000000000, refund = 0,
       graduates = False, nextState = v1_mid_state\<rparr>"
  by (subst Buy_eq_spec[OF v1_valid v1_launch_inv]) (simp_all add: curve_eval v1_mid_state_def)

theorem Buy_conserves_witness:
  "valid_parameters v1_parameters \<and> curve_inv v1_parameters (launch_state v1_parameters)
   \<and> curve_inv v1_parameters v1_mid_state"
  using Buy_conserves[OF v1_valid v1_launch_inv v1_buy_one_eth] v1_valid v1_launch_inv by simp

text \<open>ETH and tokens are conserved by a sell. The decrease of the ETH reserve is the payout
  plus the two fees, the token reserve grows by what was sold, never past its launch value, and
  the reserve invariant holds again, so the curve always holds at least its launch reserve.\<close>

theorem Sell_conserves:
  assumes "valid_parameters p" "curve_inv p s" "Sell s p (Some n) = Inr q"
  shows "sE s - sE (sellNextState q) = ethOut q + sellProtocolFee q + sellCreatorFee q
    \<and> 0 < ethOut q \<and> sT (sellNextState q) = sT s + n \<and> sT s + n \<le> pT0 p
    \<and> pE0 p \<le> sE (sellNextState q)
    \<and> sPF (sellNextState q) = sPF s + sellProtocolFee q
    \<and> sCF (sellNextState q) = sCF s + sellCreatorFee q
    \<and> curve_inv p (sellNextState q)"
  using Sell_success[OF assms] by (auto simp: curve_inv_def)

lemma v1_sell_all:
  "Sell v1_mid_state v1_parameters (Some 441841004184100418410041841) =
     Inr \<lparr>ethOut = 980100000000000000, ethGross = 990000000000000000,
       sellProtocolFee = 4950000000000000, sellCreatorFee = 4950000000000000,
       sellNextState = \<lparr>phase = PhaseCurve, virtualETH = Some 1400000000000000000,
         virtualToken = Some 1066666666666666666666666667, protocolFees = Some 9950000000000000,
         creatorFees = Some 9950000000000000\<rparr>\<rparr>"
  by (subst Sell_eq_spec[OF v1_valid v1_mid_inv]) (simp_all add: curve_eval v1_mid_state_def)

theorem Sell_conserves_witness:
  "curve_inv v1_parameters \<lparr>phase = PhaseCurve, virtualETH = Some 1400000000000000000,
     virtualToken = Some 1066666666666666666666666667, protocolFees = Some 9950000000000000,
     creatorFees = Some 9950000000000000\<rparr> \<and> valid_parameters v1_parameters"
  using Sell_conserves[OF v1_valid v1_mid_inv v1_sell_all] v1_valid by simp

text \<open>C24: graduation is exact. A buy graduates the curve if and only if it brings the real ETH
  held to exactly the configured graduation amount, and then exactly the whole curve allocation
  has been sold; the next phase says which.\<close>

theorem graduation_exact:
  assumes "valid_parameters p" "curve_inv p s" "Buy s p (Some g) = Inr q"
  shows "(graduates q \<longleftrightarrow> RealCurveETH p (nextState q) = Inr (the (graduationETH p)))
    \<and> (graduates q \<longleftrightarrow> TokensSold p (nextState q) = Inr (the (curveTokens p)))
    \<and> phase (nextState q) = (if graduates q then PhaseGraduated else PhaseCurve)"
proof -
  note b = Buy_success[OF assms] and vf = valid_parameters_facts[OF assms(1)]
  have g: "the (graduationETH p) = pE1 p - pE0 p" "the (curveTokens p) = pT0 p - pT1 p"
    using assms(1) by (auto simp: valid_parameters_def)
  have "0 < sE (nextState q)" "sE (nextState q) \<le> pE1 p"
    using b(15) vf by (auto simp: curve_inv_def split: if_splits)
  then have "sT (nextState q) = pT1 p \<longleftrightarrow> sE (nextState q) = pE1 p"
    using boundary_eq_iff(1)[OF assms(1)] b(12) by simp
  then show ?thesis
    using b(13,14) g by (simp add: RealCurveETH_inv[OF assms(1) b(15)] TokensSold_inv[OF assms(1) b(15)])
qed

theorem graduation_exact_witness:
  "\<not> graduates \<lparr>ethGrossUsed = 1000000000000000000, tokensOut = 441841004184100418410041841,
       protocolFee = 5000000000000000, creatorFee = 5000000000000000, refund = 0,
       graduates = False, nextState = v1_mid_state\<rparr>
   \<and> RealCurveETH v1_parameters v1_mid_state \<noteq> Inr 4200000000000000000
   \<and> Buy (launch_state v1_parameters) v1_parameters (Some 1000000000000000000) =
       Inr \<lparr>ethGrossUsed = 1000000000000000000, tokensOut = 441841004184100418410041841,
       protocolFee = 5000000000000000, creatorFee = 5000000000000000, refund = 0,
       graduates = False, nextState = v1_mid_state\<rparr>"
  using graduation_exact[OF v1_valid v1_launch_inv v1_buy_one_eth] v1_buy_one_eth
  by (simp add: v1_parameters_def)

text \<open>C11: solvency of every run. Whatever sequence of buys and sells is executed from launch, the
  real ETH the curve reports is exactly the sum of the net flows of the trades and is never
  negative, the tokens it reports as sold are exactly those paid out less those returned and
  never negative, and the reserve invariant holds at the end.\<close>

theorem run_solvent:
  assumes "valid_parameters p" and "run_flow (curve_trade p) ts (launch_state p) = Inr (s, d, n)"
  shows "RealCurveETH p s = Inr d \<and> 0 \<le> d \<and> d \<le> the (graduationETH p)
    \<and> TokensSold p s = Inr n \<and> 0 \<le> n \<and> n \<le> the (curveTokens p) \<and> curve_inv p s"
proof -
  have l: "valid_parameters p \<and> curve_inv p (launch_state p)"
    using assms(1) launch_state_inv by simp
  have i: "curve_inv p s" "sE s = pE0 p + d" "sT s = pT0 p - n"
    using curve.run_flow_inv[OF l assms(2)] by auto
  have "0 \<le> d \<and> 0 \<le> n" using curve.run_flow_solvent[OF l _ _ assms(2)] assms(1) by simp
  moreover have "sE s \<le> pE1 p" "pT1 p \<le> sT s" using i(1) by (auto simp: curve_inv_def split: if_splits)
  moreover have "the (graduationETH p) = pE1 p - pE0 p" "the (curveTokens p) = pT0 p - pT1 p"
    using assms(1) by (auto simp: valid_parameters_def)
  ultimately show ?thesis
    using i RealCurveETH_inv[OF assms(1) i(1)] TokensSold_inv[OF assms(1) i(1)] by simp
qed

theorem run_solvent_witness:
  "RealCurveETH v1_parameters v1_mid_state = Inr 990000000000000000 \<and> valid_parameters v1_parameters"
proof -
  have "run_flow (curve_trade v1_parameters) [TradeBuy (Some 1000000000000000000)]
      (launch_state v1_parameters) = Inr (v1_mid_state, 990000000000000000, 441841004184100418410041841)"
    by (simp add: curve_trade_def v1_buy_one_eth)
  from run_solvent[OF v1_valid this] show ?thesis using v1_valid by simp
qed

text \<open>which errors a trade on an open curve can report. A buy fails only for an amount that is
  not a 256-bit unsigned integer, for a zero amount, for an amount too small to buy one token unit
  or for an accumulator overflow; a sell also for more tokens than were sold. In particular the
  internal-invariant and division errors are unreachable.\<close>

theorem trade_errors:
  assumes "valid_parameters p" "curve_inv p s" "phase s = PhaseCurve"
  shows "(Buy s p a = Inl e \<longrightarrow> e \<in> {ErrInvalidAmount ''suppliedGross'', ErrZeroInput, ErrZeroOutput,
            ErrArithmeticOverflow})
    \<and> (Sell s p a = Inl e \<longrightarrow> e \<in> {ErrInvalidAmount ''tokensIn'', ErrZeroInput, ErrZeroOutput,
            ErrArithmeticOverflow, ErrOversell (the a) (pT0 p - sT s)})"
proof (cases "is_uint256 a \<and> the a \<noteq> 0")
  case True
  then obtain x where x: "a = Some x" "0 < x" "x \<le> maxUint256" by (auto simp: is_uint256_iff)
  have "buy_spec p s x = Inl e \<longrightarrow> e = ErrArithmeticOverflow \<or> e = ErrZeroOutput"
    by (auto simp: buy_spec_def Let_def split: prod.splits)
  moreover have "sell_spec p s x = Inl e \<longrightarrow>
      e \<in> {ErrArithmeticOverflow, ErrZeroOutput, ErrOversell x (pT0 p - sT s)}"
    by (auto simp: sell_spec_def Let_def)
  ultimately show ?thesis
    using Buy_eq_spec[OF assms x(2,3)] Sell_eq_spec[OF assms x(2,3)] by (auto simp: x(1))
next
  case False
  have su: "state_uint256 s" "params_uint256 p"
    using assms by (auto simp: curve_inv_def valid_parameters_facts)
  show ?thesis
  proof (cases "is_uint256 a")
    case True
    with False have "a = Some 0" by (auto simp: is_uint256_iff)
    then show ?thesis using assms(3) su by (simp add: Buy_def Sell_def maxUint256_def)
  next
    case False
    then have "copyUint256 f a = Inl (ErrInvalidAmount f)" for f by (simp add: copyUint256_Inl)
    then show ?thesis using assms(3) su by (simp add: Buy_def Sell_def)
  qed
qed

theorem trade_errors_witness:
  "Sell (launch_state v1_parameters) v1_parameters (Some 1) = Inl (ErrOversell 1 0)
   \<and> ErrOversell 1 0 \<in> {ErrInvalidAmount ''tokensIn'', ErrZeroInput, ErrZeroOutput,
        ErrArithmeticOverflow, ErrOversell 1 (0 :: int)}"
proof -
  have e: "Sell (launch_state v1_parameters) v1_parameters (Some 1) = Inl (ErrOversell 1 0)"
    by (subst Sell_eq_spec[OF v1_valid v1_launch_inv]) (simp_all add: curve_eval)
  then show ?thesis
    using trade_errors[OF v1_valid v1_launch_inv, of "Some 1" "ErrOversell 1 0"]
    by (simp add: v1_parameters_def launch_state_def)
qed



text \<open>Graduation is final. On a graduated curve every buy and every sell is refused with the
  wrong-phase error, whatever the amount and the parameters.\<close>

theorem graduated_absorbing:
  assumes "phase s = PhaseGraduated"
  shows "Buy s p a = Inl (ErrWrongPhase PhaseCurve PhaseGraduated)
    \<and> Sell s p a = Inl (ErrWrongPhase PhaseCurve PhaseGraduated)
    \<and> (\<forall>t. \<not> is_ok (curve_trade p t s))"
proof -
  have "Buy s p x = Inl (ErrWrongPhase PhaseCurve PhaseGraduated)"
    "Sell s p x = Inl (ErrWrongPhase PhaseCurve PhaseGraduated)" for x
    using assms by (simp_all add: Buy_def Sell_def)
  then show ?thesis by (simp add: curve_trade_def split: trade.split)
qed

theorem graduated_absorbing_witness:
  "Buy (v1_mid_state\<lparr>phase := PhaseGraduated\<rparr>) v1_parameters (Some 5) =
     Inl (ErrWrongPhase PhaseCurve PhaseGraduated)"
  using graduated_absorbing[of "v1_mid_state\<lparr>phase := PhaseGraduated\<rparr>" v1_parameters "Some 5"] by simp

text \<open>\<open>exactGrossForNet\<close> returns the least gross amount that leaves the requested net amount
  after the trade fee, and leaves exactly that: the final fill takes no wei more than needed.\<close>

theorem exactGrossForNet_least:
  assumes "exactGrossForNet net f = Inr g" "0 < net"
  shows "0 < g \<and> (\<forall>h. net \<le> net_of f h \<longrightarrow> g \<le> h)
    \<and> (splitFees g f share = Inr (totalFee, pf, cf) \<longrightarrow> g - totalFee = net \<and> pf + cf = totalFee)
    \<and> net_of f g = net"
proof -
  have f: "uint f < 10000" using assms by (auto simp: exactGrossForNet_def split: if_splits)
  have c: "uint (bpsDenominator - f) = 10000 - uint f" using f by (rule uint_fee_complement)
  have g: "g = gross_for f net" "g \<le> maxUint256"
    using assms f c
    by (auto simp: exactGrossForNet_def checkedSub_def mulDiv_nonneg gross_for_def result_iff
        split: if_splits)
  have h: "0 < g" "net_of f g = net" "\<forall>h. net \<le> net_of f h \<longrightarrow> g \<le> h"
    using f g assms(2) by (simp_all add: gross_for_pos net_of_gross_for gross_for_le_iff)
  moreover have "splitFees g f share = Inr (totalFee, pf, cf) \<longrightarrow> g - totalFee = net \<and> pf + cf = totalFee"
    using splitFees_eq[of g f share] f g(2) h by (auto simp: splitFees_def net_of_def split: if_splits)
  ultimately show ?thesis by blast
qed

theorem exactGrossForNet_least_witness:
  "exactGrossForNet 4200000000000000000 100 = Inr 4242424242424242424
   \<and> net_of 100 4242424242424242424 = 4200000000000000000"
proof -
  have e: "exactGrossForNet 4200000000000000000 100 = Inr 4242424242424242424"
    by (subst exactGrossForNet_eq) (simp_all add: gross_for_def maxUint256_def)
  then show ?thesis using exactGrossForNet_least[OF e] by simp
qed

text \<open>a round trip never profits. Selling at once everything a non-graduating buy paid out
  restores the token reserve and pays gross exactly the net amount the buy put in plus the rounding
  slack the curve held before; on a curve without slack the trader gets back at most the net of
  what was paid.\<close>

theorem buy_then_sell:
  assumes "valid_parameters p" "curve_inv p s" "Buy s p (Some g) = Inr q"
    and "Sell (nextState q) p (Some (tokensOut q)) = Inr r"
  shows "sT (sellNextState r) = sT s
    \<and> ethGross r = net_of (tradeFeeBPS p) (ethGrossUsed q) + (sE s - ceil_div (pK p) (sT s))
    \<and> (sE s = ceil_div (pK p) (sT s) \<longrightarrow>
         sE (sellNextState r) = sE s \<and> ethOut r \<le> net_of (tradeFeeBPS p) (ethGrossUsed q))"
proof -
  note b = Buy_success[OF assms(1-3)]
  note c = Sell_success[OF assms(1) b(15) assms(4)]
  have t: "sT (sellNextState r) = sT s" using b(9) c(8) by simp
  have "ethGross r = net_of (tradeFeeBPS p) (ethGrossUsed q) + (sE s - ceil_div (pK p) (sT s))"
    using b(5,8) c(7,11) t by (simp add: net_of_def)
  then show ?thesis using t c(3,5,6,7,11) by auto
qed

theorem buy_then_sell_witness:
  "ceil_div (pK v1_parameters) (sT (launch_state v1_parameters)) = sE (launch_state v1_parameters)
   \<and> (980100000000000000 :: int) \<le> net_of 100 1000000000000000000"
  using buy_then_sell[OF v1_valid v1_launch_inv v1_buy_one_eth] v1_sell_all
  by (simp add: curve_eval)

lemma SpotPriceWad_Inr:
  "SpotPriceWad x = Inr y \<Longrightarrow> 0 \<le> sE x \<and> 0 < sT x \<and> y = sE x * wad div sT x"
  by (auto simp: SpotPriceWad_def result_iff is_uint256_iff mulDiv_def Let_def wad_def split: if_splits)

lemma spot_price_mono:
  assumes "0 \<le> e" "e \<le> e'" "0 < t'" "t' \<le> t" shows "e * wad div t \<le> e' * wad div t'"
proof -
  have "e * wad div t \<le> e * wad div t'" using assms by (intro zdiv_mono2) (auto simp: wad_def)
  also have "\<dots> \<le> e' * wad div t'" using assms by (intro zdiv_mono1) (auto simp: wad_def)
  finally show ?thesis .
qed

lemma Buy_amount_mono:
  assumes i: "valid_parameters p" "curve_inv p s" and q: "Buy s p (Some g) = Inr q"
    and r: "Buy s p (Some h) = Inr r" and gh: "g \<le> h"
  shows "tokensOut q \<le> tokensOut r"
proof -
  note bq = Buy_success[OF i q] and br = Buy_success[OF i r] and vf = valid_parameters_facts[OF i(1)]
  have "net_of (tradeFeeBPS p) g \<le> net_of (tradeFeeBPS p) h" using gh vf by (simp add: net_of_mono)
  then have "sE (nextState q) \<le> sE (nextState r)"
    by (simp add: Buy_reserve_min[OF i q] Buy_reserve_min[OF i r])
  moreover have "0 < sE (nextState q)" using bq(15) vf by (auto simp: curve_inv_def)
  ultimately have "sT (nextState r) \<le> sT (nextState q)"
    using bq(12) br(12) vf ceil_div_antimono by simp
  then show ?thesis using bq(9) br(9) by simp
qed

text \<open>Trading moves the price and the amounts the right way. A larger buy from the same state
  never pays out fewer tokens, a buy never lowers the spot price and a sell never raises it.\<close>

theorem price_monotone:
  assumes "valid_parameters p" "curve_inv p s"
  shows "(Buy s p (Some g) = Inr q \<and> Buy s p (Some h) = Inr r \<and> g \<le> h \<longrightarrow> tokensOut q \<le> tokensOut r)
    \<and> (Buy s p (Some g) = Inr q \<and> SpotPriceWad s = Inr a \<and> SpotPriceWad (nextState q) = Inr b \<longrightarrow> a \<le> b)
    \<and> (Sell s p (Some n) = Inr w \<and> SpotPriceWad s = Inr a \<and> SpotPriceWad (sellNextState w) = Inr b
        \<longrightarrow> b \<le> a)"
proof (intro conjI impI; elim conjE)
  assume "Buy s p (Some g) = Inr q" "Buy s p (Some h) = Inr r" "g \<le> h"
  then show "tokensOut q \<le> tokensOut r" by (rule Buy_amount_mono[OF assms])
next
  assume q: "Buy s p (Some g) = Inr q" and a: "SpotPriceWad s = Inr a"
    and b: "SpotPriceWad (nextState q) = Inr b"
  note bq = Buy_success[OF assms q]
  have "fee_of (tradeFeeBPS p) (ethGrossUsed q) \<le> ethGrossUsed q"
    using bq(3) valid_parameters_facts[OF assms(1)] by (intro fee_of_le) auto
  then show "a \<le> b"
    using SpotPriceWad_Inr[OF a] SpotPriceWad_Inr[OF b] bq(4,5,8,9) by (auto intro: spot_price_mono)
next
  assume w: "Sell s p (Some n) = Inr w" and a: "SpotPriceWad s = Inr a"
    and b: "SpotPriceWad (sellNextState w) = Inr b"
  note c = Sell_success[OF assms w]
  have "0 < n" using Sell_success_input[OF w] by simp
  then show "b \<le> a"
    using SpotPriceWad_Inr[OF a] SpotPriceWad_Inr[OF b] c(2,3,5,6,7,8) by (auto intro: spot_price_mono)
qed

theorem price_monotone_witness:
  "SpotPriceWad (launch_state v1_parameters) = Inr 1312499999
   \<and> SpotPriceWad v1_mid_state = Inr 3825066964 \<and> (1312499999 :: int) \<le> 3825066964"
proof -
  have a: "SpotPriceWad (launch_state v1_parameters) = Inr 1312499999"
    by (simp add: SpotPriceWad_def mulDiv_def validateState_def curve_eval wad_def)
  have b: "SpotPriceWad v1_mid_state = Inr 3825066964"
    by (simp add: SpotPriceWad_def mulDiv_def validateState_def curve_eval wad_def v1_mid_state_def)
  show ?thesis
    using price_monotone[OF v1_valid v1_launch_inv] v1_buy_one_eth a b by auto
qed

end
