(* ===== verification/Chain_Types.thy ===== *)
theory Chain_Types
  imports Launch_Prelude
begin

text \<open>
  Data that crosses the chain and ledger packages: the decoded events of
  \<^verbatim>\<open>backend/internal/chain/types.go\<close>, the canonical ledger inputs of
  \<^verbatim>\<open>backend/internal/ledger/events.go\<close>, the errors of \<^verbatim>\<open>chain/errors.go\<close>, emitter sets, and
  the fields of go-ethereum's log and header structures that the code reads.

  Addresses and hashes are 160- and 256-bit words, whose order is the byte-wise order of the
  big-endian arrays the source compares. The unsigned 64-bit log fields are 64-bit words, whose
  arithmetic wraps as the source's does. Signed 64-bit heights and times (in seconds) are
  integers: the code only adds one to, and subtracts between, heights it has range-checked.
  A Go time that was never set is the start of year 1.
\<close>

section \<open>Words and structures of go-ethereum\<close>

type_synonym Address = "160 word"
type_synonym Hash = "256 word"

record Log =
  lgAddress :: Address
  lgTopics :: "Hash list"
  lgData :: "8 word list"
  lgBlockNumber :: "64 word"
  lgTxHash :: Hash
  lgTxIndex :: "64 word"
  lgBlockHash :: Hash
  lgIndex :: "64 word"
  lgRemoved :: bool

definition maxInt64 :: int where "maxInt64 = 2 ^ 63 - 1"

definition maxInt32 :: int where "maxInt32 = 2 ^ 31 - 1"

definition zero_time :: int where "zero_time = - 62135596800"

section \<open>Decoded events\<close>

datatype EmitterKind = EmitterFactory | EmitterCurve | EmitterToken | EmitterPair

record LogCoordinates =
  coBlockNumber :: "64 word"
  coBlockHash :: Hash
  coTransactionIndex :: "64 word"
  coTransactionHash :: Hash
  coLogIndex :: "64 word"

record TokenLaunched =
  tlToken :: Address
  tlCurve :: Address
  tlCreator :: Address
  tlLPPair :: Address
  tlWETH :: Address
  tlProtocolTreasury :: Address
  tlEngineVersion :: "16 word"
  tlName :: string
  tlSymbol :: string
  tlTotalSupply :: bigptr
  tlVirtualETH :: bigptr
  tlVirtualToken :: bigptr
  tlCurveTokens :: bigptr
  tlLPTokens :: bigptr
  tlGraduationETH :: bigptr
  tlLaunchFeePaid :: bigptr
  tlTradeFeeBPS :: "16 word"
  tlProtocolShareBPS :: "16 word"

text \<open>
  The dynamic type of \<^verbatim>\<open>DecodedLog.Value\<close>. Arguments are in the order of the struct fields:
  a trade is token, trader, direction, gross, refund, tokens, protocol fee, creator fee, new ETH
  reserve and new token reserve; pool events start with the pair.
\<close>

datatype chain_event =
    EvTokenLaunched TokenLaunched
  | EvTrade Address Address bool bigptr bigptr bigptr bigptr bigptr bigptr bigptr
  | EvGraduated Address Address bigptr bigptr bigptr
  | EvCreatorFeesClaimed Address Address bigptr
  | EvProtocolFeesClaimed Address Address bigptr
  | EvLaunchFeesClaimed Address bigptr
  | EvRefundCredited Address Address bigptr
  | EvRefundClaimed Address Address bigptr
  | EvLaunchPauseSet bool
  | EvTradingPauseSet bool
  | EvEngineConfigured "16 word" Address bool
  | EvFutureDefaultsConfigured Hash
  | EvFutureTreasuryConfigured Address Address
  | EvTransfer Address Address Address bigptr
  | EvPoolMint Address Address bigptr bigptr
  | EvPoolBurn Address Address bigptr bigptr Address
  | EvPoolSwap Address Address bigptr bigptr bigptr bigptr Address
  | EvPoolSync Address bigptr bigptr

record DecodedLog =
  dlCoordinates :: LogCoordinates
  dlEmitter :: Address
  dlKind :: EmitterKind
  dlName :: string
  dlValue :: chain_event

section \<open>Emitters\<close>

type_synonym AddressSet = "Address list"

text \<open>
  An address set is a Go map with empty values; its iteration order is unspecified, and every
  use either tests membership or sorts, so it is the duplicate-free list of its keys.
\<close>

definition set_add :: "'a \<Rightarrow> 'a list \<Rightarrow> 'a list" where
  "set_add a xs = List.insert a xs"

definition NewAddressSet :: "Address list \<Rightarrow> AddressSet" where
  "NewAddressSet addresses = fold set_add addresses []"

record Emitters =
  emFactory :: Address
  emCurves :: AddressSet
  emTokens :: AddressSet
  emPairs :: AddressSet

definition Kind :: "Emitters \<Rightarrow> Address \<Rightarrow> EmitterKind option" where
  "Kind e address =
     (if address = emFactory e then Some EmitterFactory
      else if address \<in> set (emCurves e) then Some EmitterCurve
      else if address \<in> set (emTokens e) then Some EmitterToken
      else if address \<in> set (emPairs e) then Some EmitterPair
      else None)"

section \<open>Errors of the chain package\<close>

datatype chain_error =
    MalformedLog LogCoordinates
  | UnknownTopic LogCoordinates Hash
  | EmitterError Address LogCoordinates
  | EngineVersionError "16 word"
  | RPCCapacity "64 word"
  | ChainIDMismatch nat nat "int option"
  | BytecodeMismatch string Address
  | PairMismatch
  | TypePanic string
  | SourceError string
  | OtherChainError string

section \<open>Ledger inputs\<close>

record EventCoordinates =
  ecChainID :: int
  ecBlockNumber :: int
  ecBlockHash :: Hash
  ecBlockTime :: int
  ecTransactionIndex :: int
  ecTxHash :: Hash
  ecLogIndex :: int

record IndexedBlock =
  ibChainID :: int
  ibBlockNumber :: int
  ibBlockHash :: Hash
  ibParentHash :: Hash
  ibBlockTime :: int
  ibFinalityStatus :: string

text \<open>The payloads of the ledger structs, each beside its coordinates.\<close>

datatype ledger_payload =
    LTokenLaunch TokenLaunched
  | LTrade Address Address bool bigptr bigptr bigptr bigptr bigptr bigptr bigptr
  | LGraduation Address Address bigptr bigptr bigptr
  | LCreatorFeeClaim Address Address bigptr
  | LProtocolFeeClaim Address Address bigptr
  | LLaunchFeeClaim Address bigptr
  | LRefundCredit Address Address bigptr
  | LRefundClaim Address Address bigptr
  | LTransfer Address Address Address bigptr
  | LPoolMint Address Address bigptr bigptr
  | LPoolBurn Address Address bigptr bigptr Address
  | LPoolSwap Address Address bigptr bigptr bigptr bigptr Address
  | LPoolSync Address bigptr bigptr
  | LLaunchPause bool
  | LTradingPause bool
  | LEngineConfiguration "16 word" Address bool
  | LFutureDefaultsConfiguration Hash
  | LFutureTreasuryConfiguration Address Address

record ledger_event =
  leCoordinates :: EventCoordinates
  lePayload :: ledger_payload

section \<open>Facts about emitter sets\<close>

lemma set_set_add [simp]: "set (set_add a xs) = insert a (set xs)"
  by (simp add: set_add_def)

lemma distinct_set_add [simp]: "distinct xs \<Longrightarrow> distinct (set_add a xs)"
  by (simp add: set_add_def)

lemma fold_set_add: "set (fold set_add as xs) = set as \<union> set xs"
  by (induction as arbitrary: xs) auto

lemma distinct_fold_set_add: "distinct xs \<Longrightarrow> distinct (fold set_add as xs)"
  by (induction as arbitrary: xs) auto

lemma set_NewAddressSet [simp]: "set (NewAddressSet as) = set as"
  by (simp add: NewAddressSet_def fold_set_add)

lemma distinct_NewAddressSet [simp]: "distinct (NewAddressSet as)"
  by (simp add: NewAddressSet_def distinct_fold_set_add)

lemma Kind_eq_None: "Kind e a = None \<longleftrightarrow>
    a \<noteq> emFactory e \<and> a \<notin> set (emCurves e) \<and> a \<notin> set (emTokens e) \<and> a \<notin> set (emPairs e)"
  by (simp add: Kind_def)

end
