(* ===== verification/Event_Decoder.thy ===== *)
theory Event_Decoder
  imports Chain_Types
begin

text \<open>
  The ABI registry and log decoder of \<^verbatim>\<open>backend/internal/chain/decoder.go\<close>. The ABI files, their
  parser and the two unpacking functions belong to go-ethereum: they are arguments of the model
  (\<open>readABI\<close>, and the record \<open>abi_codec\<close> with \<open>unpackIntoMap\<close> and \<open>parseTopicsIntoMap\<close>).
  A type assertion on a missing or differently typed map entry panics in Go; here it is the
  error \<open>TypePanic\<close>.
\<close>

section \<open>The ABI library as parameters\<close>

record abi_argument =
  argName :: string
  argIsAddress :: bool
  argIndexed :: bool

record abi_event =
  evName :: string
  evID :: Hash
  evInputs :: "abi_argument list"

type_synonym abi = "string \<rightharpoonup> abi_event"

datatype abi_value =
    VAddress Address
  | VBool bool
  | VText string
  | VU16 "16 word"
  | VInt int
  | VBytes32 Hash

type_synonym abi_values = "string \<rightharpoonup> abi_value"

record abi_codec =
  unpackIntoMap :: "abi_argument list \<Rightarrow> 8 word list \<Rightarrow> abi_values \<Rightarrow> string + abi_values"
  parseTopicsIntoMap :: "abi_argument list \<Rightarrow> Hash list \<Rightarrow> abi_values \<Rightarrow> string + abi_values"

section \<open>The registry\<close>

record eventDefinition =
  edEvent :: abi_event
  edKinds :: "EmitterKind list"

record Decoder =
  deEngineVersion :: "16 word"
  deEvents :: "(Hash \<times> eventDefinition) list"

definition add_event ::
    "abi \<Rightarrow> EmitterKind \<Rightarrow> string \<Rightarrow> (Hash \<times> eventDefinition) list
     \<Rightarrow> chain_error + (Hash \<times> eventDefinition) list" where
  "add_event parsed kind name events =
     (case parsed name of
        None \<Rightarrow> Inl (OtherChainError ''event ABI is missing'')
      | Some event \<Rightarrow>
        (case map_of events (evID event) of
           Some definition \<Rightarrow>
             Inr (AList.update (evID event)
               (definition\<lparr>edKinds := set_add kind (edKinds definition)\<rparr>) events)
         | None \<Rightarrow>
             Inr (AList.update (evID event) \<lparr>edEvent = event, edKinds = [kind]\<rparr> events)))"

definition decoder_add ::
    "abi \<Rightarrow> string list \<Rightarrow> EmitterKind \<Rightarrow> (Hash \<times> eventDefinition) list
     \<Rightarrow> chain_error + (Hash \<times> eventDefinition) list" where
  "decoder_add parsed names kind events = rfold (add_event parsed kind) names events"

definition factory_names :: "string list" where
  "factory_names = [''TokenLaunched'', ''LaunchFeesClaimed'', ''LaunchPauseSet'', ''TradingPauseSet'',
     ''EngineConfigured'', ''FutureDefaultsConfigured'', ''FutureTreasuryConfigured'']"

definition curve_names :: "string list" where
  "curve_names = [''Trade'', ''Graduated'', ''CreatorFeesClaimed'', ''ProtocolFeesClaimed'',
     ''RefundCredited'', ''RefundClaimed'']"

definition NewDecoder :: "(string \<Rightarrow> chain_error + abi) \<Rightarrow> 16 word \<Rightarrow> chain_error + Decoder" where
  "NewDecoder readABI engineVersion =
     (if engineVersion \<noteq> 1 then Inl (EngineVersionError engineVersion)
      else
      rbind (readABI ''abi/v1/ILaunchEvents.json'') (\<lambda>launch.
      rbind (readABI ''abi/v1/IUniswapV2PairEvents.json'') (\<lambda>pair.
      rbind (readABI ''abi/v1/LaunchToken.json'') (\<lambda>token.
      rbind (decoder_add launch factory_names EmitterFactory []) (\<lambda>events1.
      rbind (decoder_add launch curve_names EmitterCurve events1) (\<lambda>events2.
      rbind (decoder_add token [''Transfer''] EmitterToken events2) (\<lambda>events3.
      rbind (decoder_add pair [''Mint'', ''Burn'', ''Swap'', ''Sync''] EmitterPair events3) (\<lambda>events.
      if length events \<noteq> 18
      then Inl (OtherChainError ''load event ABI registry'')
      else Inr \<lparr>deEngineVersion = engineVersion, deEvents = events\<rparr>))))))))"

section \<open>Decoding one log\<close>

definition coordinates :: "Log \<Rightarrow> LogCoordinates" where
  "coordinates log = \<lparr>coBlockNumber = lgBlockNumber log, coBlockHash = lgBlockHash log,
     coTransactionIndex = lgTxIndex log, coTransactionHash = lgTxHash log, coLogIndex = lgIndex log\<rparr>"

definition indexedArguments :: "abi_argument list \<Rightarrow> abi_argument list" where
  "indexedArguments arguments = filter argIndexed arguments"

definition nonIndexed :: "abi_argument list \<Rightarrow> abi_argument list" where
  "nonIndexed arguments = filter (\<lambda>a. \<not> argIndexed a) arguments"

text \<open>The first twelve bytes of a topic are its bits from 160 up.\<close>

definition isPaddedAddress :: "Hash \<Rightarrow> bool" where
  "isPaddedAddress topic \<longleftrightarrow> drop_bit 160 topic = 0"

fun invalidPaddingFrom :: "nat \<Rightarrow> abi_argument list \<Rightarrow> 8 word list \<Rightarrow> string option" where
  "invalidPaddingFrom index [] bytes = None"
| "invalidPaddingFrom index (argument # arguments) bytes =
     (let offset = index * 32 in
      if argIsAddress argument \<and> offset + 32 \<le> length bytes
         \<and> list_ex (\<lambda>b. b \<noteq> 0) (take 12 (drop offset bytes))
      then Some (argName argument)
      else invalidPaddingFrom (index + 1) arguments bytes)"

definition invalidDataAddressPadding :: "abi_argument list \<Rightarrow> 8 word list \<Rightarrow> string option" where
  "invalidDataAddressPadding arguments bytes = invalidPaddingFrom 0 arguments bytes"

definition addr :: "abi_values \<Rightarrow> string \<Rightarrow> chain_error + Address" where
  "addr v name = (case v name of Some (VAddress a) \<Rightarrow> Inr a | _ \<Rightarrow> Inl (TypePanic name))"

definition boolean :: "abi_values \<Rightarrow> string \<Rightarrow> chain_error + bool" where
  "boolean v name = (case v name of Some (VBool b) \<Rightarrow> Inr b | _ \<Rightarrow> Inl (TypePanic name))"

definition abi_text :: "abi_values \<Rightarrow> string \<Rightarrow> chain_error + string" where
  "abi_text v name = (case v name of Some (VText t) \<Rightarrow> Inr t | _ \<Rightarrow> Inl (TypePanic name))"

definition u16 :: "abi_values \<Rightarrow> string \<Rightarrow> chain_error + 16 word" where
  "u16 v name = (case v name of Some (VU16 n) \<Rightarrow> Inr n | _ \<Rightarrow> Inl (TypePanic name))"

definition integer :: "abi_values \<Rightarrow> string \<Rightarrow> chain_error + bigptr" where
  "integer v name = (case v name of Some (VInt i) \<Rightarrow> Inr (Some i) | _ \<Rightarrow> Inl (TypePanic name))"

definition abi_hash :: "abi_values \<Rightarrow> string \<Rightarrow> chain_error + Hash" where
  "abi_hash v name = (case v name of Some (VBytes32 h) \<Rightarrow> Inr h | _ \<Rightarrow> Inl (TypePanic name))"

definition typedTokenLaunched :: "abi_values \<Rightarrow> chain_error + chain_event" where
  "typedTokenLaunched v =
     rbind (addr v ''token'') (\<lambda>token. rbind (addr v ''curve'') (\<lambda>curve.
     rbind (addr v ''creator'') (\<lambda>creator. rbind (addr v ''lpPair'') (\<lambda>lpPair.
     rbind (addr v ''weth'') (\<lambda>weth. rbind (addr v ''protocolTreasury'') (\<lambda>treasury.
     rbind (u16 v ''engineVersion'') (\<lambda>version. rbind (abi_text v ''name'') (\<lambda>name.
     rbind (abi_text v ''symbol'') (\<lambda>symbol. rbind (integer v ''totalSupply'') (\<lambda>supply.
     rbind (integer v ''virtualEth'') (\<lambda>virtualEth. rbind (integer v ''virtualToken'') (\<lambda>virtualToken.
     rbind (integer v ''curveTokens'') (\<lambda>curveTokens. rbind (integer v ''lpTokens'') (\<lambda>lpTokens.
     rbind (integer v ''graduationEth'') (\<lambda>graduation. rbind (integer v ''launchFeePaid'') (\<lambda>paid.
     rbind (u16 v ''tradeFeeBps'') (\<lambda>fee. rbind (u16 v ''protocolShareBps'') (\<lambda>share.
     Inr (EvTokenLaunched \<lparr>tlToken = token, tlCurve = curve, tlCreator = creator, tlLPPair = lpPair,
       tlWETH = weth, tlProtocolTreasury = treasury, tlEngineVersion = version, tlName = name,
       tlSymbol = symbol, tlTotalSupply = supply, tlVirtualETH = virtualEth,
       tlVirtualToken = virtualToken, tlCurveTokens = curveTokens, tlLPTokens = lpTokens,
       tlGraduationETH = graduation, tlLaunchFeePaid = paid, tlTradeFeeBPS = fee,
       tlProtocolShareBPS = share\<rparr>)))))))))))))))))))"

definition typedEvent :: "string \<Rightarrow> Address \<Rightarrow> abi_values \<Rightarrow> chain_error + chain_event" where
  "typedEvent name emitter v =
     (if name = ''TokenLaunched'' then typedTokenLaunched v
      else if name = ''Trade'' then
        rbind (addr v ''token'') (\<lambda>token. rbind (addr v ''trader'') (\<lambda>trader.
        rbind (boolean v ''isBuy'') (\<lambda>isBuy. rbind (integer v ''ethGross'') (\<lambda>gross.
        rbind (integer v ''ethRefund'') (\<lambda>ref. rbind (integer v ''tokenAmount'') (\<lambda>amount.
        rbind (integer v ''protocolFee'') (\<lambda>pf. rbind (integer v ''creatorFee'') (\<lambda>cf.
        rbind (integer v ''newEthReserve'') (\<lambda>er. rbind (integer v ''newTokenReserve'') (\<lambda>tr.
        Inr (EvTrade token trader isBuy gross ref amount pf cf er tr)))))))))))
      else if name = ''Graduated'' then
        rbind (addr v ''token'') (\<lambda>token. rbind (addr v ''lpPair'') (\<lambda>lp.
        rbind (integer v ''ethToPool'') (\<lambda>e. rbind (integer v ''tokensToPool'') (\<lambda>t.
        rbind (integer v ''lpLiquidityBurned'') (\<lambda>l. Inr (EvGraduated token lp e t l))))))
      else if name = ''CreatorFeesClaimed'' then
        rbind (addr v ''token'') (\<lambda>token. rbind (addr v ''creator'') (\<lambda>a.
        rbind (integer v ''amount'') (\<lambda>n. Inr (EvCreatorFeesClaimed token a n))))
      else if name = ''ProtocolFeesClaimed'' then
        rbind (addr v ''token'') (\<lambda>token. rbind (addr v ''treasury'') (\<lambda>a.
        rbind (integer v ''amount'') (\<lambda>n. Inr (EvProtocolFeesClaimed token a n))))
      else if name = ''LaunchFeesClaimed'' then
        rbind (addr v ''treasury'') (\<lambda>a. rbind (integer v ''amount'') (\<lambda>n.
        Inr (EvLaunchFeesClaimed a n)))
      else if name = ''RefundCredited'' then
        rbind (addr v ''token'') (\<lambda>token. rbind (addr v ''account'') (\<lambda>a.
        rbind (integer v ''amount'') (\<lambda>n. Inr (EvRefundCredited token a n))))
      else if name = ''RefundClaimed'' then
        rbind (addr v ''token'') (\<lambda>token. rbind (addr v ''account'') (\<lambda>a.
        rbind (integer v ''amount'') (\<lambda>n. Inr (EvRefundClaimed token a n))))
      else if name = ''LaunchPauseSet'' then
        rbind (boolean v ''paused'') (\<lambda>b. Inr (EvLaunchPauseSet b))
      else if name = ''TradingPauseSet'' then
        rbind (boolean v ''paused'') (\<lambda>b. Inr (EvTradingPauseSet b))
      else if name = ''EngineConfigured'' then
        rbind (u16 v ''engineVersion'') (\<lambda>n. rbind (addr v ''implementation'') (\<lambda>a.
        rbind (boolean v ''enabled'') (\<lambda>b. Inr (EvEngineConfigured n a b))))
      else if name = ''FutureDefaultsConfigured'' then
        rbind (abi_hash v ''configHash'') (\<lambda>h. Inr (EvFutureDefaultsConfigured h))
      else if name = ''FutureTreasuryConfigured'' then
        rbind (addr v ''previousTreasury'') (\<lambda>a. rbind (addr v ''newTreasury'') (\<lambda>b.
        Inr (EvFutureTreasuryConfigured a b)))
      else if name = ''Transfer'' then
        rbind (addr v ''from'') (\<lambda>a. rbind (addr v ''to'') (\<lambda>b.
        rbind (integer v ''value'') (\<lambda>n. Inr (EvTransfer emitter a b n))))
      else if name = ''Mint'' then
        rbind (addr v ''sender'') (\<lambda>a. rbind (integer v ''amount0'') (\<lambda>m.
        rbind (integer v ''amount1'') (\<lambda>n. Inr (EvPoolMint emitter a m n))))
      else if name = ''Burn'' then
        rbind (addr v ''sender'') (\<lambda>a. rbind (integer v ''amount0'') (\<lambda>m.
        rbind (integer v ''amount1'') (\<lambda>n. rbind (addr v ''to'') (\<lambda>b.
        Inr (EvPoolBurn emitter a m n b)))))
      else if name = ''Swap'' then
        rbind (addr v ''sender'') (\<lambda>a. rbind (integer v ''amount0In'') (\<lambda>i0.
        rbind (integer v ''amount1In'') (\<lambda>i1. rbind (integer v ''amount0Out'') (\<lambda>o0.
        rbind (integer v ''amount1Out'') (\<lambda>o1. rbind (addr v ''to'') (\<lambda>b.
        Inr (EvPoolSwap emitter a i0 i1 o0 o1 b)))))))
      else if name = ''Sync'' then
        rbind (integer v ''reserve0'') (\<lambda>m. rbind (integer v ''reserve1'') (\<lambda>n.
        Inr (EvPoolSync emitter m n)))
      else Inl (OtherChainError ''unknown decoded event''))"

text \<open>
  \<open>Decode\<close> wraps a failure of \<open>typedEvent\<close> and of the two library calls in a malformed-log
  error; a panic passes through.
\<close>

definition wrapMalformed :: "LogCoordinates \<Rightarrow> chain_error + 'a \<Rightarrow> chain_error + 'a" where
  "wrapMalformed c m = (case m of Inr a \<Rightarrow> Inr a | Inl (TypePanic n) \<Rightarrow> Inl (TypePanic n)
     | Inl _ \<Rightarrow> Inl (MalformedLog c))"

definition checkVersion :: "Decoder \<Rightarrow> chain_event \<Rightarrow> chain_error + unit" where
  "checkVersion d event = (case event of
     EvTokenLaunched launched \<Rightarrow>
       (if tlEngineVersion launched \<noteq> deEngineVersion d
        then Inl (EngineVersionError (tlEngineVersion launched)) else Inr ())
   | EvEngineConfigured version _ _ \<Rightarrow>
       (if version \<noteq> deEngineVersion d then Inl (EngineVersionError version) else Inr ())
   | _ \<Rightarrow> Inr ())"

definition Decode :: "abi_codec \<Rightarrow> Decoder \<Rightarrow> Log \<Rightarrow> Emitters \<Rightarrow> chain_error + DecodedLog" where
  "Decode codec d log emitters =
     (let coordinate = coordinates log in
      case Kind emitters (lgAddress log) of
        None \<Rightarrow> Inl (EmitterError (lgAddress log) coordinate)
      | Some kind \<Rightarrow>
      (case lgTopics log of
        [] \<Rightarrow> Inl (MalformedLog coordinate)
      | topic0 # args \<Rightarrow>
      (case map_of (deEvents d) topic0 of
        None \<Rightarrow> Inl (UnknownTopic coordinate topic0)
      | Some definition \<Rightarrow>
        if kind \<notin> set (edKinds definition) then Inl (MalformedLog coordinate)
        else
        let inputs = evInputs (edEvent definition); indexed = indexedArguments inputs in
        if length (lgTopics log) \<noteq> length indexed + 1 then Inl (MalformedLog coordinate)
        else if list_ex (\<lambda>(argument, topic). argIsAddress argument \<and> \<not> isPaddedAddress topic)
                  (zip indexed args) then Inl (MalformedLog coordinate)
        else if invalidDataAddressPadding (nonIndexed inputs) (lgData log) \<noteq> None
        then Inl (MalformedLog coordinate)
        else
        (case unpackIntoMap codec (nonIndexed inputs) (lgData log) Map.empty of
          Inl _ \<Rightarrow> Inl (MalformedLog coordinate)
        | Inr values1 \<Rightarrow>
        (case parseTopicsIntoMap codec indexed args values1 of
          Inl _ \<Rightarrow> Inl (MalformedLog coordinate)
        | Inr values \<Rightarrow>
          rbind (wrapMalformed coordinate
                   (typedEvent (evName (edEvent definition)) (lgAddress log) values)) (\<lambda>value.
          rbind (checkVersion d value) (\<lambda>_.
          Inr \<lparr>dlCoordinates = coordinate, dlEmitter = lgAddress log, dlKind = kind,
               dlName = evName (edEvent definition), dlValue = value\<rparr>)))))))"


section \<open>What the registry holds\<close>

text \<open>The table of events the constructor registers, and the kind of emitter each decoded event
  belongs to.\<close>

definition registered_events :: "(EmitterKind \<times> string) list" where
  "registered_events = map (Pair EmitterFactory) factory_names @ map (Pair EmitterCurve) curve_names
     @ [(EmitterToken, ''Transfer'')]
     @ map (Pair EmitterPair) [''Mint'', ''Burn'', ''Swap'', ''Sync'']"

fun event_kind :: "chain_event \<Rightarrow> EmitterKind" where
  "event_kind (EvTokenLaunched _) = EmitterFactory"
| "event_kind (EvLaunchFeesClaimed _ _) = EmitterFactory"
| "event_kind (EvLaunchPauseSet _) = EmitterFactory"
| "event_kind (EvTradingPauseSet _) = EmitterFactory"
| "event_kind (EvEngineConfigured _ _ _) = EmitterFactory"
| "event_kind (EvFutureDefaultsConfigured _) = EmitterFactory"
| "event_kind (EvFutureTreasuryConfigured _ _) = EmitterFactory"
| "event_kind (EvTransfer _ _ _ _) = EmitterToken"
| "event_kind (EvPoolMint _ _ _ _) = EmitterPair"
| "event_kind (EvPoolBurn _ _ _ _ _) = EmitterPair"
| "event_kind (EvPoolSwap _ _ _ _ _ _ _) = EmitterPair"
| "event_kind (EvPoolSync _ _ _) = EmitterPair"
| "event_kind _ = EmitterCurve"

definition event_of_kind :: "abi \<Rightarrow> abi \<Rightarrow> abi \<Rightarrow> EmitterKind \<Rightarrow> string \<Rightarrow> abi_event option" where
  "event_of_kind launch pair token kind =
     (case kind of EmitterToken \<Rightarrow> token | EmitterPair \<Rightarrow> pair | _ \<Rightarrow> launch)"

definition registry_entry :: "(EmitterKind \<Rightarrow> abi) \<Rightarrow> EmitterKind \<times> string \<Rightarrow> Hash \<times> eventDefinition \<Rightarrow> bool" where
  "registry_entry abis kn entry = (case (kn, entry) of ((kind, name), (h, def)) \<Rightarrow>
     (case abis kind name of None \<Rightarrow> False
      | Some event \<Rightarrow> h = evID event \<and> def = \<lparr>edEvent = event, edKinds = [kind]\<rparr>))"

lemma length_update: "length (AList.update k v al) = (if k \<in> fst ` set al then length al else Suc (length al))"
  by (induction al) auto

lemma add_event_Inr:
  assumes "add_event parsed kind name ev = Inr ev'" "distinct (map fst ev)"
  shows "distinct (map fst ev') \<and> length ev' \<le> Suc (length ev)
    \<and> (length ev' = Suc (length ev) \<longrightarrow>
        (\<exists>e. parsed name = Some e \<and> ev' = ev @ [(evID e, \<lparr>edEvent = e, edKinds = [kind]\<rparr>)]))"
proof -
  from assms(1) obtain e where e: "parsed name = Some e"
    by (auto simp: add_event_def split: option.splits)
  show ?thesis
  proof (cases "evID e \<in> fst ` set ev")
    case True
    then obtain d where "map_of ev (evID e) = Some d" by (metis map_of_eq_None_iff not_None_eq)
    then have "ev' = AList.update (evID e) (d\<lparr>edKinds := set_add kind (edKinds d)\<rparr>) ev"
      using assms(1) e by (simp add: add_event_def)
    then have "length ev' = length ev" "distinct (map fst ev')"
      using True assms(2) by (simp_all add: length_update distinct_update)
    then show ?thesis by simp
  next
    case False
    then have "map_of ev (evID e) = None" by (simp add: map_of_eq_None_iff)
    then show ?thesis using assms e False by (auto simp: add_event_def update_fresh)
  qed
qed

lemma add_events_Inr:
  assumes "rfold (\<lambda>(k, n). add_event (abis k) k n) xs ev = Inr ev'" "distinct (map fst ev)"
  shows "distinct (map fst ev') \<and> length ev' \<le> length ev + length xs
    \<and> (length ev' = length ev + length xs \<longrightarrow>
        (\<exists>new. ev' = ev @ new \<and> list_all2 (registry_entry abis) xs new))"
  using assms
proof (induction xs arbitrary: ev)
  case Nil
  then show ?case by simp
next
  case (Cons x xs)
  obtain k n where x: "x = (k, n)" by (cases x)
  with Cons.prems(1) obtain ev1 where 1: "add_event (abis k) k n ev = Inr ev1"
      and 2: "rfold (\<lambda>(k, n). add_event (abis k) k n) xs ev1 = Inr ev'"
    by (auto simp: result_iff)
  note a = add_event_Inr[OF 1 Cons.prems(2)]
  note b = Cons.IH[OF 2 a[THEN conjunct1]]
  show ?case
  proof (intro conjI impI)
    show "distinct (map fst ev')" "length ev' \<le> length ev + length (x # xs)" using a b by auto
    assume "length ev' = length ev + length (x # xs)"
    with a b obtain e new where e: "abis k n = Some e"
        "ev1 = ev @ [(evID e, \<lparr>edEvent = e, edKinds = [k]\<rparr>)]"
        and new: "ev' = ev1 @ new" "list_all2 (registry_entry abis) xs new"
      by fastforce
    then show "\<exists>new. ev' = ev @ new \<and> list_all2 (registry_entry abis) (x # xs) new"
      by (auto simp: registry_entry_def x)
  qed
qed

lemma decoder_add_as_rfold:
  "decoder_add (abis k) names k ev = rfold (\<lambda>(k, n). add_event (abis k) k n) (map (Pair k) names) ev"
  unfolding decoder_add_def by (induction names arbitrary: ev) (auto intro: rbind_cong)

lemma NewDecoder_registry:
  assumes "NewDecoder readABI v = Inr d"
  obtains launch pair token where
    "readABI ''abi/v1/ILaunchEvents.json'' = Inr launch"
    "readABI ''abi/v1/IUniswapV2PairEvents.json'' = Inr pair"
    "readABI ''abi/v1/LaunchToken.json'' = Inr token"
    "v = 1" "deEngineVersion d = 1" "length (deEvents d) = 18" "distinct (map fst (deEvents d))"
    "list_all2 (registry_entry (event_of_kind launch pair token)) registered_events (deEvents d)"
proof -
  from assms obtain launch pair token ev1 ev2 ev3 ev where
      abis: "readABI ''abi/v1/ILaunchEvents.json'' = Inr launch"
      "readABI ''abi/v1/IUniswapV2PairEvents.json'' = Inr pair"
      "readABI ''abi/v1/LaunchToken.json'' = Inr token"
    and adds: "decoder_add launch factory_names EmitterFactory [] = Inr ev1"
      "decoder_add launch curve_names EmitterCurve ev1 = Inr ev2"
      "decoder_add token [''Transfer''] EmitterToken ev2 = Inr ev3"
      "decoder_add pair [''Mint'', ''Burn'', ''Swap'', ''Sync''] EmitterPair ev3 = Inr ev"
    and len: "length ev = 18" and v: "v = 1" and d: "d = \<lparr>deEngineVersion = 1, deEvents = ev\<rparr>"
    by (auto simp: NewDecoder_def result_iff split: if_splits)
  let ?abis = "event_of_kind launch pair token"
  let ?f = "\<lambda>(k, n). add_event (?abis k) k n"
  have k: "?abis EmitterFactory = launch" "?abis EmitterCurve = launch" "?abis EmitterToken = token"
    "?abis EmitterPair = pair" by (simp_all add: event_of_kind_def)
  have "rfold ?f registered_events [] = Inr ev"
    using adds decoder_add_as_rfold[of ?abis EmitterFactory] decoder_add_as_rfold[of ?abis EmitterCurve]
      decoder_add_as_rfold[of ?abis EmitterToken "[''Transfer'']"]
      decoder_add_as_rfold[of ?abis EmitterPair "[''Mint'', ''Burn'', ''Swap'', ''Sync'']"]
    unfolding registered_events_def rfold_append k by simp
  note r = add_events_Inr[OF this]
  have "length registered_events = 18"
    by (simp add: registered_events_def factory_names_def curve_names_def)
  then have "list_all2 (registry_entry ?abis) registered_events ev" "distinct (map fst ev)"
    using r len by auto
  then show thesis using that abis v d len by simp
qed

lemma typedEvent_kind:
  assumes "typedEvent name em v = Inr e" "(k, name) \<in> set registered_events"
  shows "event_kind e = k"
  using assms(2) unfolding registered_events_def factory_names_def curve_names_def
  apply simp
  apply (elim disjE conjE)
  using assms(1)
  by (simp_all add: typedEvent_def typedTokenLaunched_def)
    (auto simp: rbind_eq_Inr)


section \<open>What a decoded log guarantees\<close>

lemma Decode_InrE:
  assumes "Decode codec d log em = Inr dl"
  obtains topic0 args ed vals where
    "Kind em (lgAddress log) = Some (dlKind dl)" "lgTopics log = topic0 # args"
    "map_of (deEvents d) topic0 = Some ed" "dlKind dl \<in> set (edKinds ed)"
    "length args = length (indexedArguments (evInputs (edEvent ed)))"
    "list_all (\<lambda>(argument, topic). argIsAddress argument \<longrightarrow> isPaddedAddress topic)
       (zip (indexedArguments (evInputs (edEvent ed))) args)"
    "typedEvent (evName (edEvent ed)) (lgAddress log) vals = Inr (dlValue dl)"
    "checkVersion d (dlValue dl) = Inr ()" "dlName dl = evName (edEvent ed)"
    "dlEmitter dl = lgAddress log" "dlCoordinates dl = coordinates log"
  using assms
  by (auto simp: Decode_def Let_def rbind_eq_Inr wrapMalformed_def list_all_iff list_ex_iff
      split: option.splits list.splits if_splits sum.splits chain_error.splits) blast+

lemma registry_lookup:
  assumes "list_all2 (registry_entry abis) xs ev" "map_of ev h = Some def"
  obtains k n e where "(k, n) \<in> set xs" "abis k n = Some e" "h = evID e"
    "def = \<lparr>edEvent = e, edKinds = [k]\<rparr>"
proof -
  have "(h, def) \<in> set ev" using assms(2) by (rule map_of_SomeD)
  then obtain kn where "kn \<in> set xs" "registry_entry abis kn (h, def)"
    using assms(1) by (metis in_set_conv_nth list_all2_conv_all_nth)
  then show thesis using that
    by (cases kn) (auto simp: registry_entry_def split: option.splits)
qed


text \<open>A small ABI for evaluation: every registered event with its position as topic.\<close>

definition demo_abi :: abi where
  "demo_abi = map_of (map (\<lambda>(i, (_, n)). (n, \<lparr>evName = n, evID = word_of_nat (Suc i), evInputs = []\<rparr>))
     (List.enumerate 0 registered_events))"

definition demo_codec :: abi_codec where
  "demo_codec = \<lparr>unpackIntoMap = (\<lambda>_ _ m. Inr (m(''paused'' \<mapsto> VBool True))),
     parseTopicsIntoMap = (\<lambda>_ _ m. Inr m)\<rparr>"

definition demo_decoder :: Decoder where
  "demo_decoder = \<lparr>deEngineVersion = 1, deEvents = map (\<lambda>(i, (k, n)).
     (word_of_nat (Suc i), \<lparr>edEvent = \<lparr>evName = n, evID = word_of_nat (Suc i), evInputs = []\<rparr>,
        edKinds = [k]\<rparr>)) (List.enumerate 0 registered_events)\<rparr>"

definition demo_log :: "64 word \<Rightarrow> Address \<Rightarrow> Hash \<Rightarrow> Log" where
  "demo_log block address topic = \<lparr>lgAddress = address, lgTopics = [topic], lgData = [],
     lgBlockNumber = block, lgTxHash = 7, lgTxIndex = 0, lgBlockHash = 9, lgIndex = 0,
     lgRemoved = False\<rparr>"

lemma demo_decoder_new: "NewDecoder (\<lambda>_. Inr demo_abi) 1 = Inr demo_decoder"
  by (simp add: NewDecoder_def decoder_add_def add_event_def demo_decoder_def demo_abi_def
      registered_events_def factory_names_def curve_names_def enumerate_eq_zip)


end
