(* ===== verification/Rpc_Client.thy ===== *)
theory Rpc_Client
  imports Chain_Types
begin

text \<open>
  The RPC client of \<^verbatim>\<open>backend/internal/chain/rpc.go\<close>: classification of provider errors and the
  bounded retry loop around every call. The client libraries are parameters: an error is the
  record of what \<^verbatim>\<open>errors.Is\<close> and \<^verbatim>\<open>errors.As\<close> report about it, and a call is a function of the
  attempt number. Context cancellation while waiting between attempts is a function of the
  attempt as well. Error messages are ASCII strings; \<open>to_lower\<close> is \<^verbatim>\<open>strings.ToLower\<close> there.
\<close>

section \<open>Error classification\<close>

record rpc_error =
  reCanceled :: bool
  reDeadline :: bool
  reNotFound :: bool
  reNetwork :: bool
  reHTTPStatus :: "int option"
  reCode :: "int option"
  reMessage :: string

definition lower_char :: "char \<Rightarrow> char" where
  "lower_char c = (if 65 \<le> (of_char c :: nat) \<and> (of_char c :: nat) \<le> 90
     then char_of ((of_char c :: nat) + 32) else c)"

definition to_lower :: "string \<Rightarrow> string" where
  "to_lower s = map lower_char s"

fun has_prefix :: "string \<Rightarrow> string \<Rightarrow> bool" where
  "has_prefix [] s = True"
| "has_prefix (c # cs) [] = False"
| "has_prefix (c # cs) (d # ds) = (c = d \<and> has_prefix cs ds)"

fun str_contains :: "string \<Rightarrow> string \<Rightarrow> bool" where
  "str_contains [] pat = (pat = [])"
| "str_contains (c # cs) pat = (has_prefix pat (c # cs) \<or> str_contains cs pat)"

definition code_in :: "rpc_error \<Rightarrow> int list \<Rightarrow> bool" where
  "code_in err codes = (case reCode err of None \<Rightarrow> False | Some c \<Rightarrow> c \<in> set codes)"

definition isUnsupportedTag :: "rpc_error \<Rightarrow> bool" where
  "isUnsupportedTag err =
     (if reNotFound err then True
      else if code_in err [- 32601, - 32602] then True
      else let message = to_lower (reMessage err) in
        str_contains message ''unsupported'' \<or> str_contains message ''unknown block''
        \<or> str_contains message ''invalid argument'')"

definition isRetryable :: "rpc_error \<Rightarrow> bool" where
  "isRetryable err =
     (if reCanceled err then False
      else if reDeadline err then True
      else if reNetwork err then True
      else case reHTTPStatus err of
        Some status \<Rightarrow> status = 429 \<or> status \<ge> 500
      | None \<Rightarrow> (case reCode err of Some c \<Rightarrow> c \<le> - 32000 \<and> c \<ge> - 32099 | None \<Rightarrow> False))"

definition capacity_patterns :: "string list" where
  "capacity_patterns = [''response too large'', ''query returned more than'',
     ''logs matched by query exceeds limit'', ''block range too large'', ''too many results'']"

definition IsCapacityError :: "rpc_error \<Rightarrow> bool" where
  "IsCapacityError err =
     (if reHTTPStatus err = Some 413 then True
      else if code_in err [- 32003, - 32005] then True
      else let message = to_lower (reMessage err) in
        if str_contains message ''rate limit'' \<or> str_contains message ''too many requests'' then False
        else list_ex (str_contains message) capacity_patterns)"

section \<open>Retry\<close>

text \<open>
  \<open>retry_from attempt\<close> is the loop from a given attempt: \<open>operation attempt\<close> is the outcome of
  that call, \<open>done attempt\<close> says that the context ended while waiting after it, and then the
  context's own error is returned. The second component counts the calls made.
\<close>

definition cancelled_error :: rpc_error where
  "cancelled_error = \<lparr>reCanceled = True, reDeadline = False, reNotFound = False, reNetwork = False,
     reHTTPStatus = None, reCode = None, reMessage = ''context canceled''\<rparr>"

function retry_from ::
    "nat \<Rightarrow> bool \<Rightarrow> (nat \<Rightarrow> bool) \<Rightarrow> (nat \<Rightarrow> rpc_error + 'a) \<Rightarrow> nat \<Rightarrow> (rpc_error + 'a) \<times> nat" where
  "retry_from maxRetries capacitySensitive ctxDone operation attempt =
     (case operation attempt of
        Inr v \<Rightarrow> (Inr v, attempt + 1)
      | Inl err \<Rightarrow>
        if (capacitySensitive \<and> IsCapacityError err) \<or> \<not> isRetryable err then (Inl err, attempt + 1)
        else if attempt \<ge> maxRetries then (Inl err, attempt + 1)
        else if ctxDone attempt then (Inl cancelled_error, attempt + 1)
        else retry_from maxRetries capacitySensitive ctxDone operation (attempt + 1))"
  by pat_completeness auto
termination
  by (relation "measure (\<lambda>(m, _, _, _, a). Suc m - a)") auto

declare retry_from.simps [simp del]

definition retry :: "nat \<Rightarrow> bool \<Rightarrow> (nat \<Rightarrow> bool) \<Rightarrow> (nat \<Rightarrow> rpc_error + 'a) \<Rightarrow> (rpc_error + 'a) \<times> nat" where
  "retry maxRetries capacitySensitive ctxDone operation =
     retry_from maxRetries capacitySensitive ctxDone operation 0"

text \<open>
  A head read by tag: an error that says the tag is not supported is reported as such.
\<close>

datatype head_error = FinalityTagError string rpc_error | HeadError string rpc_error

definition finalityHeader :: "string \<Rightarrow> rpc_error + 'h \<Rightarrow> head_error + 'h" where
  "finalityHeader tag result = (case result of
     Inl err \<Rightarrow> (if isUnsupportedTag err then Inl (FinalityTagError tag err) else Inl (HeadError tag err))
   | Inr header \<Rightarrow> Inr header)"

definition ReadHeads ::
    "rpc_error + 'h \<Rightarrow> rpc_error + 'h \<Rightarrow> rpc_error + 'h \<Rightarrow> head_error + 'h \<times> 'h \<times> 'h" where
  "ReadHeads latestResult safeResult finalizedResult =
     (case latestResult of Inl err \<Rightarrow> Inl (HeadError ''latest'' err)
      | Inr latest \<Rightarrow>
        rbind (finalityHeader ''safe'' safeResult) (\<lambda>safe.
        rbind (finalityHeader ''finalized'' finalizedResult) (\<lambda>finalized.
        Inr (latest, safe, finalized))))"

section \<open>Facts\<close>

lemma cancelled_not_retryable: "\<not> isRetryable cancelled_error"
  by (simp add: isRetryable_def cancelled_error_def)

definition transient :: "bool \<Rightarrow> rpc_error + 'a \<Rightarrow> bool" where
  "transient capacitySensitive r = (case r of Inr _ \<Rightarrow> False
     | Inl err \<Rightarrow> isRetryable err \<and> \<not> (capacitySensitive \<and> IsCapacityError err))"

lemma retry_from_transient:
  assumes "\<And>i. a \<le> i \<Longrightarrow> i < b \<Longrightarrow> transient cs (op i) \<and> \<not> ctxDone i" "a \<le> b" "b \<le> m"
  shows "retry_from m cs ctxDone op a = retry_from m cs ctxDone op b"
  using assms
proof (induction "b - a" arbitrary: a)
  case 0
  then show ?case by simp
next
  case (Suc n)
  then have "a < b" by simp
  then have t: "transient cs (op a)" "\<not> ctxDone a" using Suc.prems(1)[of a] by auto
  then have "retry_from m cs ctxDone op a = retry_from m cs ctxDone op (Suc a)"
    using \<open>a < b\<close> Suc.prems(3)
    by (subst retry_from.simps) (auto simp: transient_def split: sum.splits)
  also have "\<dots> = retry_from m cs ctxDone op b"
    using Suc \<open>a < b\<close> by (intro Suc.hyps) auto
  finally show ?case .
qed

lemma retry_from_final:
  "\<not> transient cs (op a) \<Longrightarrow> retry_from m cs ctxDone op a = (op a, a + 1)"
  by (subst retry_from.simps) (auto simp: transient_def split: sum.splits)

lemma retry_from_exhausted:
  "transient cs (op m) \<Longrightarrow> retry_from m cs ctxDone op m = (op m, m + 1)"
  by (subst retry_from.simps) (auto simp: transient_def split: sum.splits)

lemma retry_from_calls: "a \<le> m \<Longrightarrow> snd (retry_from m cs ctxDone op a) \<le> m + 1"
proof (induction m cs ctxDone op a rule: retry_from.induct)
  case (1 m cs ctxDone op a)
  show ?case
    using 1 by (subst retry_from.simps) (auto split: sum.splits)
qed

text \<open>The retry loop makes at most one call more than the configured number of retries. With an
  uncancelled context it returns the outcome of the first attempt that is not a transient failure
  (a success, an error that is not retryable, or a capacity error the caller wants to see), and
  only when every allowed attempt fails transiently the last of these errors.\<close>

theorem retry_outcome:
  assumes "\<And>i. i < k \<Longrightarrow> transient cs (op i) \<and> \<not> ctxDone i" "k \<le> m"
  shows "snd (retry m cs ctxDone op) \<le> m + 1
    \<and> (\<not> transient cs (op k) \<longrightarrow> retry m cs ctxDone op = (op k, k + 1))
    \<and> (k = m \<longrightarrow> retry m cs ctxDone op = (op m, m + 1))"
proof -
  have "retry m cs ctxDone op = retry_from m cs ctxDone op k"
    unfolding retry_def using assms by (intro retry_from_transient) auto
  then show ?thesis
    using retry_from_calls[of 0 m cs ctxDone op] retry_from_final[of cs op k m ctxDone]
      retry_from_exhausted[of cs op m ctxDone]
    by (cases "transient cs (op k)") (auto simp: retry_def)
qed

theorem retry_outcome_witness:
  "retry 2 False (\<lambda>_. False)
     (\<lambda>i. if i = 0 then Inl (cancelled_error\<lparr>reCanceled := False, reDeadline := True\<rparr>) else Inr (5 :: nat)) =
   (Inr 5, 2)"
  using retry_outcome[of 1 False
      "\<lambda>i. if i = 0 then Inl (cancelled_error\<lparr>reCanceled := False, reDeadline := True\<rparr>) else Inr (5 :: nat)"
      "\<lambda>_. False" 2]
  by (simp add: transient_def isRetryable_def cancelled_error_def)

end
