(* ===== verification/Log_Discovery.thy ===== *)
theory Log_Discovery
  imports Event_Decoder Rpc_Client "HOL-Library.Product_Lexorder"
begin

text \<open>
  Log discovery of \<^verbatim>\<open>backend/internal/chain/discovery.go\<close>: range queries that bisect on capacity
  errors, address batches with provider-response checks, the launch-driven discovery of new
  emitters, and deduplication with conflict detection. The provider is a function from a query
  (from, to, addresses, topics) to logs or an RPC error. Block numbers are 64-bit words, so the
  midpoint arithmetic is the source's, wrap-around included.
\<close>

section \<open>Range queries\<close>

type_synonym log_source = "64 word \<Rightarrow> 64 word \<Rightarrow> Address list \<Rightarrow> Hash list \<Rightarrow> rpc_error + Log list"

lemma word_distance_halves:
  fixes f t :: "64 word"
  assumes "f \<noteq> t"
  shows "unat (f + (t - f) div 2 - f) < unat (t - f)"
    and "unat (t - (f + (t - f) div 2 + 1)) < unat (t - f)"
proof -
  define d where "d = t - f"
  have d: "d \<noteq> 0" using assms by (simp add: d_def)
  then have n: "0 < unat d" by (simp add: unat_gt_0)
  have h: "unat (d div 2) = unat d div 2" by (simp add: unat_div)
  have b: "Suc (unat d div 2) < 2 ^ 64" using unsigned_less[of d, where ?'a = nat] by simp
  have "f + d div 2 - f = d div 2" by simp
  then show "unat (f + (t - f) div 2 - f) < unat (t - f)" using n h by (simp add: d_def[symmetric])
  have s1: "unat (d div 2 + 1) = Suc (unat d div 2)"
    using h b by (simp add: unat_plus_if')
  have le: "d div 2 + 1 \<le> d"
    using n s1 unfolding word_le_nat_alt by linarith
  have e: "t - (f + d div 2 + 1) = d - (d div 2 + 1)" by (simp add: d_def algebra_simps)
  have "unat (d - (d div 2 + 1)) = unat d - Suc (unat d div 2)"
    using le s1 by (simp add: unat_sub)
  then have "unat (d - (d div 2 + 1)) < unat d" using n by linarith
  then show "unat (t - (f + (t - f) div 2 + 1)) < unat (t - f)"
    unfolding d_def[symmetric] e .
qed

function fetchRange ::
    "log_source \<Rightarrow> Address list \<Rightarrow> Hash list \<Rightarrow> 64 word \<Rightarrow> 64 word \<Rightarrow> chain_error + Log list" where
  "fetchRange source addresses topics fromBlock toBlock =
     (case source fromBlock toBlock addresses topics of
        Inr logs \<Rightarrow> Inr logs
      | Inl err \<Rightarrow>
        if \<not> IsCapacityError err then Inl (SourceError (reMessage err))
        else if fromBlock = toBlock then Inl (RPCCapacity fromBlock)
        else let middle = fromBlock + (toBlock - fromBlock) div 2 in
          rbind (fetchRange source addresses topics fromBlock middle) (\<lambda>left.
          rbind (fetchRange source addresses topics (middle + 1) toBlock) (\<lambda>right.
          Inr (left @ right))))"
  by pat_completeness auto
termination
  by (relation "measure (\<lambda>(_, _, _, f, t). unat (t - f))")
    (auto intro: word_distance_halves word_distance_halves(1)[simplified])

declare fetchRange.simps [simp del]

section \<open>Address batches\<close>

text \<open>
  \<open>batches n xs\<close> are the slices of the batch loop. A batch size of zero, on which the source's
  loop would not advance, is refused by \<open>NewDiscoverer\<close>.
\<close>

function batches :: "nat \<Rightarrow> 'a list \<Rightarrow> 'a list list" where
  "batches n xs = (if xs = [] \<or> n = 0 then [] else take n xs # batches n (drop n xs))"
  by pat_completeness auto
termination
  by (relation "measure (\<lambda>(_, xs). length xs)") auto

declare batches.simps [simp del]

definition checkFetched :: "AddressSet \<Rightarrow> Hash list \<Rightarrow> Log \<Rightarrow> unit \<Rightarrow> chain_error + unit" where
  "checkFetched allowedAddresses allowedTopics log _ =
     (if lgAddress log \<notin> set allowedAddresses then Inl (EmitterError (lgAddress log) (coordinates log))
      else case lgTopics log of
        [] \<Rightarrow> Inl (MalformedLog (coordinates log))
      | topic0 # _ \<Rightarrow>
        (if topic0 \<notin> set allowedTopics then Inl (UnknownTopic (coordinates log) topic0) else Inr ()))"

definition fetch ::
    "log_source \<Rightarrow> nat \<Rightarrow> 64 word \<Rightarrow> 64 word \<Rightarrow> Address list \<Rightarrow> Hash list \<Rightarrow> chain_error + Log list" where
  "fetch source addressBatchSize fromBlock toBlock addresses topics =
     (if addresses = [] then Inr []
      else rfold (\<lambda>batch result.
          rbind (fetchRange source batch topics fromBlock toBlock) (\<lambda>logs.
          rbind (rfold (checkFetched (NewAddressSet batch) topics) logs ()) (\<lambda>_.
          Inr (result @ logs))))
        (batches addressBatchSize (sort addresses)) [])"

section \<open>Deduplication\<close>

definition logKey :: "Log \<Rightarrow> 64 word \<times> 64 word \<times> 64 word" where
  "logKey log = (lgBlockNumber log, lgTxIndex log, lgIndex log)"

definition sameLog :: "Log \<Rightarrow> Log \<Rightarrow> bool" where
  "sameLog a b \<longleftrightarrow> lgAddress a = lgAddress b \<and> lgBlockHash a = lgBlockHash b
     \<and> lgTxHash a = lgTxHash b \<and> lgBlockNumber a = lgBlockNumber b \<and> lgTxIndex a = lgTxIndex b
     \<and> lgIndex a = lgIndex b \<and> lgTopics a = lgTopics b \<and> lgData a = lgData b"

type_synonym unique_logs = "((64 word \<times> 64 word \<times> 64 word) \<times> Log) list"

definition addUnique :: "Log \<Rightarrow> unique_logs \<Rightarrow> chain_error + unique_logs" where
  "addUnique log unique = (case map_of unique (logKey log) of
     Some previous \<Rightarrow>
       (if \<not> sameLog previous log
        then Inl (OtherChainError ''provider returned conflicting logs'') else Inr unique)
   | None \<Rightarrow> Inr (AList.update (logKey log) log unique))"

definition deduplicateAndSort :: "Log list \<Rightarrow> chain_error + Log list" where
  "deduplicateAndSort logs =
     rbind (rfold addUnique logs []) (\<lambda>unique. Inr (sort_key logKey (map snd unique)))"

section \<open>Discovery\<close>

definition decoder_Topics :: "Decoder \<Rightarrow> EmitterKind \<Rightarrow> Hash list" where
  "decoder_Topics d kind =
     sort (map fst (filter (\<lambda>(topic, ed). kind \<in> set (edKinds ed)) (deEvents d)))"

definition emptyEmitters :: "Address \<Rightarrow> Emitters" where
  "emptyEmitters factory = \<lparr>emFactory = factory, emCurves = [], emTokens = [], emPairs = []\<rparr>"

definition copyEmitters :: "Emitters \<Rightarrow> Emitters" where
  "copyEmitters source =
     (emptyEmitters (emFactory source))\<lparr>emCurves := NewAddressSet (emCurves source),
        emTokens := NewAddressSet (emTokens source), emPairs := NewAddressSet (emPairs source)\<rparr>"

definition addressesFor :: "Emitters \<Rightarrow> EmitterKind \<Rightarrow> Address list" where
  "addressesFor emitters kind = (case kind of EmitterCurve \<Rightarrow> emCurves emitters
     | EmitterToken \<Rightarrow> emTokens emitters | EmitterPair \<Rightarrow> emPairs emitters | EmitterFactory \<Rightarrow> [])"

record Discoverer =
  diSource :: log_source
  diDecoder :: Decoder
  diFactory :: Address
  diAddressBatchSize :: nat
  diVerifyLaunchPair :: "(TokenLaunched \<Rightarrow> chain_error + unit) option"

definition NewDiscoverer ::
    "log_source option \<Rightarrow> Decoder option \<Rightarrow> Address \<Rightarrow> 64 word \<Rightarrow> chain_error + Discoverer" where
  "NewDiscoverer source decoder factory addressBatchSize =
     (case (source, decoder) of
        (Some s, Some d) \<Rightarrow>
          (if factory = 0 then Inl (OtherChainError ''factory address is zero'')
           else if addressBatchSize = 0 \<or> addressBatchSize > 2 ^ 63 - 1
           then Inl (OtherChainError ''address batch size is invalid'')
           else Inr \<lparr>diSource = s, diDecoder = d, diFactory = factory,
             diAddressBatchSize = unat addressBatchSize, diVerifyLaunchPair = None\<rparr>)
      | _ \<Rightarrow> Inl (OtherChainError ''log source and decoder are required''))"

definition NewDiscovererWithPairVerification ::
    "log_source option \<Rightarrow> Decoder option \<Rightarrow> Address \<Rightarrow> 64 word
     \<Rightarrow> (TokenLaunched \<Rightarrow> chain_error + unit) option \<Rightarrow> chain_error + Discoverer" where
  "NewDiscovererWithPairVerification source decoder factory addressBatchSize verifyLaunchPair =
     (case verifyLaunchPair of
        None \<Rightarrow> Inl (OtherChainError ''launch pair verifier is required'')
      | Some v \<Rightarrow> rbind (NewDiscoverer source decoder factory addressBatchSize)
          (\<lambda>discoverer. Inr (discoverer\<lparr>diVerifyLaunchPair := Some v\<rparr>)))"

record DiscoveryResult =
  drLogs :: "Log list"
  drLaunches :: "TokenLaunched list"
  drEmitters :: Emitters

text \<open>The variables of the loop over factory logs.\<close>

record launch_scan =
  scLaunches :: "TokenLaunched list"
  scEmitters :: Emitters
  scNewByBlock :: "(64 word \<times> Emitters) list"

definition addLaunch :: "TokenLaunched \<Rightarrow> Emitters \<Rightarrow> Emitters" where
  "addLaunch launch e = e\<lparr>emCurves := set_add (tlCurve launch) (emCurves e),
     emTokens := set_add (tlToken launch) (emTokens e), emPairs := set_add (tlLPPair launch) (emPairs e)\<rparr>"

definition scanFactoryLog :: "abi_codec \<Rightarrow> Discoverer \<Rightarrow> Log \<Rightarrow> launch_scan \<Rightarrow> chain_error + launch_scan" where
  "scanFactoryLog codec d log s =
     rbind (Decode codec (diDecoder d) log (scEmitters s)) (\<lambda>decoded.
     case dlValue decoded of
       EvTokenLaunched launch \<Rightarrow>
         rbind (case diVerifyLaunchPair d of None \<Rightarrow> Inr () | Some verify \<Rightarrow> verify launch) (\<lambda>_.
         let blockSet = (case map_of (scNewByBlock s) (lgBlockNumber log) of
               None \<Rightarrow> emptyEmitters (diFactory d) | Some e \<Rightarrow> e) in
         Inr \<lparr>scLaunches = scLaunches s @ [launch], scEmitters = addLaunch launch (scEmitters s),
           scNewByBlock = AList.update (lgBlockNumber log) (addLaunch launch blockSet) (scNewByBlock s)\<rparr>)
     | _ \<Rightarrow> Inr s)"

definition launchKinds :: "EmitterKind list" where
  "launchKinds = [EmitterCurve, EmitterToken, EmitterPair]"

text \<open>The three queries for the addresses of an emitter set from a block on.\<close>

definition fetchKinds :: "Discoverer \<Rightarrow> 64 word \<Rightarrow> 64 word \<Rightarrow> Emitters \<Rightarrow> Log list \<Rightarrow> chain_error + Log list" where
  "fetchKinds d fromBlock toBlock emitters allLogs =
     rfold (\<lambda>kind acc.
         rbind (fetch (diSource d) (diAddressBatchSize d) fromBlock toBlock
             (addressesFor emitters kind) (decoder_Topics (diDecoder d) kind)) (\<lambda>logs.
         Inr (acc @ logs)))
       launchKinds allLogs"

definition Discover ::
    "abi_codec \<Rightarrow> Discoverer \<Rightarrow> 64 word \<Rightarrow> 64 word \<Rightarrow> Emitters \<Rightarrow> chain_error + DiscoveryResult" where
  "Discover codec d fromBlock toBlock known =
     (if fromBlock > toBlock then Inl (OtherChainError ''invalid discovery range'')
      else if emFactory (copyEmitters known) \<noteq> 0 \<and> emFactory (copyEmitters known) \<noteq> diFactory d
      then Inl (OtherChainError ''known factory differs from discoverer factory'')
      else
      let emitters = (copyEmitters known)\<lparr>emFactory := diFactory d\<rparr> in
      rbind (fetch (diSource d) (diAddressBatchSize d) fromBlock toBlock [diFactory d]
          (decoder_Topics (diDecoder d) EmitterFactory)) (\<lambda>factoryLogs.
      rbind (rfold (scanFactoryLog codec d) factoryLogs
          \<lparr>scLaunches = [], scEmitters = emitters, scNewByBlock = []\<rparr>) (\<lambda>scan.
      rbind (rfold (\<lambda>block acc. case map_of (scNewByBlock scan) block of
              Some fresh \<Rightarrow> fetchKinds d block toBlock fresh acc | None \<Rightarrow> Inr acc)
          (sort (map fst (scNewByBlock scan))) factoryLogs) (\<lambda>logs1.
      rbind (fetchKinds d fromBlock toBlock known logs1) (\<lambda>allLogs.
      rbind (deduplicateAndSort allLogs) (\<lambda>deduplicated.
      Inr \<lparr>drLogs = deduplicated, drLaunches = scLaunches scan, drEmitters = scEmitters scan\<rparr>))))))"

section \<open>Deduplication: order, coverage and conflicts\<close>

definition unique_wf :: "unique_logs \<Rightarrow> bool" where
  "unique_wf u \<longleftrightarrow> distinct (map fst u) \<and> (\<forall>(k, l) \<in> set u. k = logKey l)"

lemma sameLog_refl [simp]: "sameLog a a"
  by (simp add: sameLog_def)

lemma sameLog_sym: "sameLog a b \<Longrightarrow> sameLog b a"
  by (simp add: sameLog_def)

lemma sameLog_trans: "sameLog a b \<Longrightarrow> sameLog b c \<Longrightarrow> sameLog a c"
  by (simp add: sameLog_def)

lemma sameLog_key: "sameLog a b \<Longrightarrow> logKey a = logKey b"
  by (simp add: sameLog_def logKey_def)

lemma addUnique_fresh: "map_of u (logKey l) = None \<Longrightarrow> addUnique l u = Inr (u @ [(logKey l, l)])"
  using update_fresh[of "logKey l" u l] by (simp add: addUnique_def map_of_eq_None_iff[symmetric])

lemma unique_wf_snoc: "unique_wf u \<Longrightarrow> map_of u (logKey l) = None \<Longrightarrow> unique_wf (u @ [(logKey l, l)])"
  by (auto simp: unique_wf_def map_of_eq_None_iff)

text \<open>No two logs with one key disagree.\<close>

definition consistent :: "Log list \<Rightarrow> bool" where
  "consistent logs \<longleftrightarrow> (\<forall>a \<in> set logs. \<forall>b \<in> set logs. logKey a = logKey b \<longrightarrow> sameLog a b)"

lemma addUnique_fold:
  assumes "unique_wf u" "rfold addUnique logs u = Inr u'"
  shows "unique_wf u' \<and> set u \<subseteq> set u' \<and> snd ` set u' \<subseteq> snd ` set u \<union> set logs
    \<and> (\<forall>l \<in> set logs. \<exists>p. map_of u' (logKey l) = Some p \<and> sameLog p l)"
  using assms
proof (induction logs arbitrary: u)
  case Nil
  then show ?case by auto
next
  case (Cons l logs)
  from Cons.prems(2) obtain v where v: "addUnique l u = Inr v" "rfold addUnique logs v = Inr u'"
    by (auto simp: result_iff)
  have step: "unique_wf v \<and> set u \<subseteq> set v \<and> snd ` set v \<subseteq> insert l (snd ` set u)
    \<and> (\<exists>p. (logKey l, p) \<in> set v \<and> sameLog p l)"
  proof (cases "map_of u (logKey l)")
    case None
    then show ?thesis using v Cons.prems(1) unique_wf_snoc[of u l] by (auto simp: addUnique_fresh)
  next
    case (Some p)
    then show ?thesis using v Cons.prems(1) map_of_SomeD[OF Some]
      by (auto simp: addUnique_def split: if_splits)
  qed
  note IH = Cons.IH[OF conjunct1[OF step] v(2)]
  from step IH obtain p where "(logKey l, p) \<in> set u'" "sameLog p l" by blast
  then have "map_of u' (logKey l) = Some p" using IH by (simp add: unique_wf_def)
  moreover have "snd ` set u' \<subseteq> insert l (snd ` set u) \<union> set logs"
    using step IH by (meson Un_mono order_refl order_trans)
  moreover have "set u \<subseteq> set u'" using step IH by (meson order_trans)
  ultimately show ?case using IH \<open>sameLog p l\<close> by (simp del: map_of_eq_Some_iff)
qed

lemma addUnique_fold_ok:
  assumes "unique_wf u" "consistent (map snd u @ logs)"
  shows "\<exists>u'. rfold addUnique logs u = Inr u'"
  using assms
proof (induction logs arbitrary: u)
  case Nil
  then show ?case by simp
next
  case (Cons l logs)
  show ?case
  proof (cases "map_of u (logKey l)")
    case None
    have "consistent (map snd (u @ [(logKey l, l)]) @ logs)"
      using Cons.prems(2) by (simp add: consistent_def)
    then show ?thesis
      using Cons.IH[OF unique_wf_snoc[OF Cons.prems(1) None]] by (simp add: addUnique_fresh[OF None])
  next
    case (Some p)
    then have m: "(logKey l, p) \<in> set u" by (rule map_of_SomeD)
    then have "p \<in> set (map snd u @ l # logs)" "logKey p = logKey l"
      using Cons.prems(1) by (force, auto simp: unique_wf_def)
    then have "sameLog p l" using Cons.prems(2) unfolding consistent_def by (meson in_set_conv_decomp)
    moreover have "consistent (map snd u @ logs)" using Cons.prems(2) by (simp add: consistent_def)
    ultimately show ?thesis using Cons.IH[OF Cons.prems(1)] by (simp add: addUnique_def Some)
  qed
qed

lemma deduplicateAndSort_Inr:
  assumes "deduplicateAndSort logs = Inr result"
  shows "sorted_wrt (\<lambda>a b. logKey a < logKey b) result \<and> set result \<subseteq> set logs
    \<and> (\<forall>l \<in> set logs. \<exists>r \<in> set result. sameLog r l)"
proof -
  from assms obtain u where u: "rfold addUnique logs [] = Inr u"
      and r: "result = sort_key logKey (map snd u)"
    by (auto simp: deduplicateAndSort_def result_iff)
  note f = addUnique_fold[OF _ u]
  have wf: "unique_wf u" and cov: "\<forall>l \<in> set logs. \<exists>p. map_of u (logKey l) = Some p \<and> sameLog p l"
    and sub: "snd ` set u \<subseteq> set logs"
    using f by (auto simp: unique_wf_def)
  have "map logKey (map snd u) = map fst u"
    using wf by (auto simp: unique_wf_def)
  then have "distinct (map logKey (map snd u))" using wf unfolding unique_wf_def by metis
  then have "distinct (map logKey result)"
    unfolding r by (metis distinct_map distinct_sort set_sort)
  then have "sorted_wrt (<) (map logKey result)"
    by (simp add: r strict_sorted_iff)
  moreover have "\<exists>r \<in> set result. sameLog r l" if "l \<in> set logs" for l
    using cov that r by (force dest: map_of_SomeD)
  ultimately show ?thesis using sub r by (auto simp: sorted_wrt_map)
qed

text \<open>Deduplication succeeds exactly when no two logs at one (block, transaction index, log
  index) disagree, and then returns a subset of the input that represents every input log and is
  strictly ordered by that key, hence without duplicates; the only error is the conflict.\<close>

theorem deduplicateAndSort_correct:
  "(\<exists>result. deduplicateAndSort logs = Inr result) = consistent logs
   \<and> (\<forall>e. deduplicateAndSort logs = Inl e \<longrightarrow> e = OtherChainError ''provider returned conflicting logs'')
   \<and> (\<forall>result. deduplicateAndSort logs = Inr result \<longrightarrow>
        sorted_wrt (\<lambda>a b. logKey a < logKey b) result \<and> set result \<subseteq> set logs
        \<and> (\<forall>l \<in> set logs. \<exists>r \<in> set result. sameLog r l))"
proof (intro conjI)
  show "(\<exists>result. deduplicateAndSort logs = Inr result) = consistent logs"
  proof
    assume "\<exists>result. deduplicateAndSort logs = Inr result"
    then obtain u where u: "rfold addUnique logs [] = Inr u"
      by (auto simp: deduplicateAndSort_def result_iff)
    have "\<forall>l \<in> set logs. \<exists>p. map_of u (logKey l) = Some p \<and> sameLog p l"
      using addUnique_fold[of "[]" logs u] u by (simp add: unique_wf_def del: map_of_eq_Some_iff)
    then show "consistent logs"
      unfolding consistent_def by (metis option.inject sameLog_sym sameLog_trans)
  next
    assume "consistent logs"
    then show "\<exists>result. deduplicateAndSort logs = Inr result"
      using addUnique_fold_ok[of "[]" logs] by (auto simp: deduplicateAndSort_def unique_wf_def)
  qed
  have "rfold addUnique logs u = Inl e \<Longrightarrow> e = OtherChainError ''provider returned conflicting logs''" for u e
    by (induction logs arbitrary: u) (auto simp: rbind_eq_Inl addUnique_def split: option.splits if_splits)
  then show "\<forall>e. deduplicateAndSort logs = Inl e \<longrightarrow> e = OtherChainError ''provider returned conflicting logs''"
    by (auto simp: deduplicateAndSort_def rbind_eq_Inl)
  show "\<forall>result. deduplicateAndSort logs = Inr result \<longrightarrow>
        sorted_wrt (\<lambda>a b. logKey a < logKey b) result \<and> set result \<subseteq> set logs
        \<and> (\<forall>l \<in> set logs. \<exists>r \<in> set result. sameLog r l)"
    using deduplicateAndSort_Inr by blast
qed

theorem deduplicateAndSort_correct_witness:
  "\<exists>r. deduplicateAndSort [demo_log 6 42 1, demo_log 5 42 1, demo_log 6 42 1] = Inr r
     \<and> sorted_wrt (\<lambda>a b. logKey a < logKey b) r"
proof -
  have "consistent [demo_log 6 42 1, demo_log 5 42 1, demo_log 6 42 1]"
    by (simp add: consistent_def logKey_def demo_log_def)
  then show ?thesis
    using deduplicateAndSort_correct[of "[demo_log 6 42 1, demo_log 5 42 1, demo_log 6 42 1]"] by blast
qed

end
