(* ===== verification/Discovery_Complete.thy ===== *)
theory Discovery_Complete
  imports Log_Discovery
begin

text \<open>
  What discovery returns. Whatever the provider answers, every returned log comes from a watched
  address under a topic of that address's kind; and against a provider that answers queries about
  a chain of logs faithfully, bisection, batching, launch-driven refetching and deduplication
  together return exactly the watched logs of the range, in chain order.
\<close>

section \<open>Faithful providers\<close>

definition has_topic :: "Hash list \<Rightarrow> Log \<Rightarrow> bool" where
  "has_topic topics l = (case lgTopics l of [] \<Rightarrow> False | h # _ \<Rightarrow> h \<in> set topics)"

definition in_query :: "64 word \<Rightarrow> 64 word \<Rightarrow> Address list \<Rightarrow> Hash list \<Rightarrow> Log \<Rightarrow> bool" where
  "in_query f t addresses topics l \<longleftrightarrow> f \<le> lgBlockNumber l \<and> lgBlockNumber l \<le> t
     \<and> lgAddress l \<in> set addresses \<and> (topics = [] \<or> has_topic topics l)"

text \<open>The documented answer to a log query: the logs of the range that match it, in chain order.\<close>

definition faithful :: "log_source \<Rightarrow> Log list \<Rightarrow> bool" where
  "faithful source chain \<longleftrightarrow> (\<forall>f t as ts logs.
     source f t as ts = Inr logs \<longrightarrow> logs = filter (in_query f t as ts) chain)"

definition chain_order :: "Log list \<Rightarrow> bool" where
  "chain_order chain \<longleftrightarrow> sorted_wrt (\<lambda>a b. logKey a < logKey b) chain"

lemma chain_order_blocks: "chain_order chain \<Longrightarrow> sorted_wrt (\<lambda>a b. lgBlockNumber a \<le> lgBlockNumber b) chain"
  unfolding chain_order_def by (erule sorted_wrt_mono_rel[rotated]) (auto simp: logKey_def less_prod_def')

lemma filter_split_sorted:
  fixes key :: "'a \<Rightarrow> 'k :: linorder"
  assumes "sorted_wrt (\<lambda>a b. key a \<le> key b) xs"
  shows "filter (\<lambda>x. key x \<le> m \<and> P x) xs @ filter (\<lambda>x. m < key x \<and> P x) xs = filter P xs"
  using assms
proof (induction xs)
  case Nil
  then show ?case by simp
next
  case (Cons x xs)
  show ?case
  proof (cases "key x \<le> m")
    case True
    then show ?thesis using Cons by auto
  next
    case False
    then have "\<forall>y \<in> set xs. m < key y" using Cons.prems by force
    then have "filter (\<lambda>x. key x \<le> m \<and> P x) xs = []" "filter (\<lambda>x. m < key x \<and> P x) xs = filter P xs"
      by (auto simp: filter_empty_conv intro: filter_cong)
    then show ?thesis using False by auto
  qed
qed

lemma word_midpoint:
  fixes f t :: "64 word"
  assumes "f < t"
  shows "f \<le> f + (t - f) div 2" "f + (t - f) div 2 < t" "f + (t - f) div 2 + 1 \<le> t"
    "f + (t - f) div 2 + 1 \<le> b \<longleftrightarrow> f + (t - f) div 2 < b"
proof -
  define m where "m = f + (t - f) div 2"
  have ft: "unat f < unat t" using assms by (simp add: word_less_nat_alt)
  have "unat (t - f) = unat t - unat f" using assms by (simp add: unat_sub)
  then have h: "unat ((t - f) div 2) = (unat t - unat f) div 2" by (simp add: unat_div)
  have tb: "unat t < 2 ^ 64" using unsigned_less[of t, where ?'a = nat] by simp
  have bound: "unat f + (unat t - unat f) div 2 < 2 ^ 64" using ft tb by linarith
  have m: "unat m = unat f + (unat t - unat f) div 2"
    unfolding m_def using h bound by (simp add: unat_plus_if')
  have lt: "unat m < unat t" using m ft by linarith
  have m1: "unat (m + 1) = unat m + 1" using lt tb by (simp add: unat_plus_if')
  show "f \<le> f + (t - f) div 2" "f + (t - f) div 2 < t" "f + (t - f) div 2 + 1 \<le> t"
    "f + (t - f) div 2 + 1 \<le> b \<longleftrightarrow> f + (t - f) div 2 < b"
    unfolding m_def[symmetric] word_le_nat_alt word_less_nat_alt using m lt m1 by linarith+
qed

section \<open>Bisection\<close>

lemma in_query_split:
  assumes "sorted_wrt (\<lambda>a b. lgBlockNumber a \<le> lgBlockNumber b) chain" "f < t"
  shows "filter (in_query f (f + (t - f) div 2) as ts) chain
     @ filter (in_query (f + (t - f) div 2 + 1) t as ts) chain = filter (in_query f t as ts) chain"
proof -
  define m where "m = f + (t - f) div 2"
  note m = word_midpoint[OF assms(2), folded m_def]
  have l: "in_query f m as ts l \<longleftrightarrow> lgBlockNumber l \<le> m \<and> in_query f t as ts l" for l
    using m(2) unfolding in_query_def by force
  have r: "in_query (m + 1) t as ts l \<longleftrightarrow> m < lgBlockNumber l \<and> in_query f t as ts l" for l
    using m(1,4) unfolding in_query_def by force
  show ?thesis unfolding m_def[symmetric] l r by (rule filter_split_sorted[OF assms(1)])
qed

lemma fetchRange_faithful:
  assumes "faithful source chain" "sorted_wrt (\<lambda>a b. lgBlockNumber a \<le> lgBlockNumber b) chain"
    and "f \<le> t" "fetchRange source as ts f t = Inr logs"
  shows "logs = filter (in_query f t as ts) chain"
  using assms(1,3,4)
proof (induction source as ts f t arbitrary: logs rule: fetchRange.induct)
  case (1 source as ts f t)
  show ?case
  proof (cases "source f t as ts")
    case (Inr found)
    then have "logs = found" using 1(5) by (simp add: fetchRange.simps)
    then show ?thesis using Inr 1(3) by (simp add: faithful_def)
  next
    case (Inl err)
    then have err: "IsCapacityError err" "f \<noteq> t"
      using 1(5) by (auto simp: fetchRange.simps split: if_splits)
    then have ft: "f < t" using 1(4) by simp
    define m where "m = f + (t - f) div 2"
    note mid = word_midpoint[OF ft, folded m_def]
    obtain left right where lr: "fetchRange source as ts f m = Inr left"
        "fetchRange source as ts (m + 1) t = Inr right" "logs = left @ right"
      using 1(5) Inl err by (subst (asm) fetchRange.simps) (auto simp: Let_def m_def result_iff)
    have "left = filter (in_query f m as ts) chain"
      using 1(1)[OF Inl _ err(2) m_def 1(3)] err mid lr(1) by simp
    moreover have "right = filter (in_query (m + 1) t as ts) chain"
      using 1(2)[OF Inl _ err(2) m_def lr(1) 1(3)] err mid lr(2) by simp
    ultimately show ?thesis
      using in_query_split[OF assms(2) ft, of as ts] lr(3) by (simp add: m_def[symmetric])
  qed
qed

text \<open>A provider that only ever refuses ranges for their size, and never a single block.\<close>

definition capacity_limited :: "log_source \<Rightarrow> bool" where
  "capacity_limited source \<longleftrightarrow> (\<forall>f t as ts err. source f t as ts = Inl err \<longrightarrow> IsCapacityError err \<and> f \<noteq> t)"

lemma fetchRange_ok: "capacity_limited source \<Longrightarrow> \<exists>logs. fetchRange source as ts f t = Inr logs"
proof (induction source as ts f t rule: fetchRange.induct)
  case (1 source as ts f t)
  show ?case
  proof (cases "source f t as ts")
    case (Inr found)
    then show ?thesis by (simp add: fetchRange.simps)
  next
    case (Inl err)
    then have err: "IsCapacityError err" "f \<noteq> t" using 1(3) by (auto simp: capacity_limited_def)
    obtain left where l: "fetchRange source as ts f (f + (t - f) div 2) = Inr left"
      using 1(1)[OF Inl _ err(2) refl 1(3)] err by auto
    moreover obtain right where "fetchRange source as ts (f + (t - f) div 2 + 1) t = Inr right"
      using 1(2)[OF Inl _ err(2) refl l 1(3)] err by auto
    ultimately show ?thesis using Inl err by (subst fetchRange.simps) (simp add: Let_def)
  qed
qed

text \<open>C31: bisection on capacity errors loses and duplicates nothing. Against a provider that answers
  faithfully and refuses only multi-block ranges for their size, a range query terminates with
  exactly the matching logs of the whole range, in chain order, however often it had to split.\<close>

theorem fetchRange_exact:
  assumes "faithful source chain" "chain_order chain" "capacity_limited source" "f \<le> t"
  shows "fetchRange source as ts f t = Inr (filter (in_query f t as ts) chain)"
  using fetchRange_ok[OF assms(3)] fetchRange_faithful[OF assms(1) chain_order_blocks[OF assms(2)] assms(4)]
  by blast

text \<open>A provider for evaluation that refuses every range of more than one block.\<close>

definition block_source :: "Log list \<Rightarrow> log_source" where
  "block_source chain f t as ts =
     (if f = t then Inr (filter (in_query f t as ts) chain)
      else Inl (cancelled_error\<lparr>reCanceled := False, reHTTPStatus := Some 413\<rparr>))"

lemma block_source_ok: "faithful (block_source chain) chain" "capacity_limited (block_source chain)"
  by (auto simp: faithful_def capacity_limited_def block_source_def IsCapacityError_def split: if_splits)

theorem fetchRange_exact_witness:
  "fetchRange (block_source [demo_log 3 42 1, demo_log 6 42 1, demo_log 8 42 1]) [42] [1] 5 7
     = Inr [demo_log 6 42 1]"
proof -
  have "chain_order [demo_log 3 42 1, demo_log 6 42 1, demo_log 8 42 1]"
    by (simp add: chain_order_def demo_log_def logKey_def less_prod_def')
  then show ?thesis
    using fetchRange_exact[OF block_source_ok(1) _ block_source_ok(2),
        of "[demo_log 3 42 1, demo_log 6 42 1, demo_log 8 42 1]" 5 7 "[42]" "[1]"]
    by (simp add: in_query_def demo_log_def has_topic_def)
qed

section \<open>Batched fetches\<close>

lemma concat_batches: "0 < n \<Longrightarrow> concat (batches n xs) = xs"
  by (induction n xs rule: batches.induct) (subst batches.simps, auto)

lemma checkFetched_all:
  "rfold (checkFetched A ts) logs () = Inr u \<longleftrightarrow> (\<forall>l \<in> set logs. lgAddress l \<in> set A \<and> has_topic ts l)"
  by (induction logs) (auto simp: result_iff checkFetched_def has_topic_def split: list.splits)

text \<open>Whatever the provider answers, a fetched log has a requested address and topic.\<close>

lemma fetch_fold_Inr:
  assumes "rfold (\<lambda>batch result.
          rbind (fetchRange source batch topics f t) (\<lambda>logs.
          rbind (rfold (checkFetched (NewAddressSet batch) topics) logs ()) (\<lambda>_.
          Inr (result @ logs)))) bs acc = Inr out"
  shows "\<exists>parts. list_all2 (\<lambda>b logs. fetchRange source b topics f t = Inr logs
        \<and> (\<forall>l \<in> set logs. lgAddress l \<in> set b \<and> has_topic topics l)) bs parts \<and> out = acc @ concat parts"
  using assms
proof (induction bs arbitrary: acc)
  case Nil
  then show ?case by simp
next
  case (Cons b bs)
  from Cons.prems obtain logs where logs: "fetchRange source b topics f t = Inr logs"
      "\<forall>l \<in> set logs. lgAddress l \<in> set b \<and> has_topic topics l"
    and rest: "rfold (\<lambda>batch result.
          rbind (fetchRange source batch topics f t) (\<lambda>logs.
          rbind (rfold (checkFetched (NewAddressSet batch) topics) logs ()) (\<lambda>_.
          Inr (result @ logs)))) bs (acc @ logs) = Inr out"
    by (auto simp: rbind_eq_Inr checkFetched_all)
  from Cons.IH[OF rest] obtain parts where
      "list_all2 (\<lambda>b logs. fetchRange source b topics f t = Inr logs
        \<and> (\<forall>l \<in> set logs. lgAddress l \<in> set b \<and> has_topic topics l)) bs parts"
      "out = (acc @ logs) @ concat parts" by blast
  then have "list_all2 (\<lambda>b logs. fetchRange source b topics f t = Inr logs
        \<and> (\<forall>l \<in> set logs. lgAddress l \<in> set b \<and> has_topic topics l)) (b # bs) (logs # parts)
      \<and> out = acc @ concat (logs # parts)"
    using logs by simp
  then show ?case by blast
qed

lemma list_all2_function: "list_all2 (\<lambda>x y. y = g x) xs ys \<Longrightarrow> ys = map g xs"
  by (induction rule: list_all2_induct) auto

lemma list_all2_right: "list_all2 P xs ys \<Longrightarrow> y \<in> set ys \<Longrightarrow> \<exists>x \<in> set xs. P x y"
  by (induction rule: list_all2_induct) auto

lemma fetch_checked:
  assumes "fetch source n f t as ts = Inr logs" "0 < n" "l \<in> set logs"
  shows "lgAddress l \<in> set as \<and> has_topic ts l"
proof -
  from assms obtain parts where p: "list_all2 (\<lambda>b logs. fetchRange source b ts f t = Inr logs
        \<and> (\<forall>l \<in> set logs. lgAddress l \<in> set b \<and> has_topic ts l)) (batches n (sort as)) parts"
      "logs = concat parts"
    by (auto simp: fetch_def dest!: fetch_fold_Inr split: if_splits)
  from assms(3) p(2) obtain part where "part \<in> set parts" "l \<in> set part" by auto
  then obtain b where "b \<in> set (batches n (sort as))" "lgAddress l \<in> set b" "has_topic ts l"
    using list_all2_right[OF p(1)] by blast
  moreover then have "lgAddress l \<in> set (concat (batches n (sort as)))" by auto
  ultimately show ?thesis using assms(2) by (simp only: concat_batches set_sort simp_thms)
qed

definition selected :: "Log list \<Rightarrow> 64 word \<Rightarrow> 64 word \<Rightarrow> Address set \<Rightarrow> Hash list \<Rightarrow> Log set" where
  "selected chain f t A ts = {l \<in> set chain. f \<le> lgBlockNumber l \<and> lgBlockNumber l \<le> t
     \<and> lgAddress l \<in> A \<and> has_topic ts l}"

lemma fetch_selected:
  assumes "faithful source chain" "chain_order chain" "f \<le> t" "0 < n"
    and "fetch source n f t as ts = Inr logs"
  shows "set logs = selected chain f t (set as) ts"
proof (cases "as = []")
  case True
  then show ?thesis using assms(5) by (simp add: fetch_def selected_def)
next
  case False
  then obtain parts where p: "list_all2 (\<lambda>b logs. fetchRange source b ts f t = Inr logs
        \<and> (\<forall>l \<in> set logs. lgAddress l \<in> set b \<and> has_topic ts l)) (batches n (sort as)) parts"
      "logs = concat parts"
    using assms(5) by (auto simp: fetch_def dest!: fetch_fold_Inr)
  have "list_all2 (\<lambda>b logs. logs = filter (in_query f t b ts) chain) (batches n (sort as)) parts"
    using p(1) fetchRange_faithful[OF assms(1) chain_order_blocks[OF assms(2)] assms(3)]
    by (auto elim!: list_all2_mono)
  then have parts: "parts = map (\<lambda>b. filter (in_query f t b ts) chain) (batches n (sort as))"
    by (rule list_all2_function)
  have "set logs = {l \<in> set chain. \<exists>b \<in> set (batches n (sort as)). in_query f t b ts l}"
    by (auto simp: p(2) parts)
  also have "\<dots> = {l \<in> set chain. in_query f t (concat (batches n (sort as))) ts l}"
    by (auto simp: in_query_def)
  also have "\<dots> = {l \<in> set chain. in_query f t as ts l}"
    using assms(4) by (simp add: concat_batches in_query_def)
  finally have "set logs = {l \<in> set chain. in_query f t as ts l}" .
  then show ?thesis
    using fetch_checked[OF assms(5,4)] unfolding selected_def in_query_def by blast
qed

lemma fetch_ok:
  assumes "faithful source chain" "chain_order chain" "capacity_limited source" "f \<le> t" "ts \<noteq> []"
  shows "\<exists>logs. fetch source n f t as ts = Inr logs"
proof -
  have ex: "fetchRange source b ts f t = Inr (filter (in_query f t b ts) chain)" for b
    using fetchRange_ok[OF assms(3)]
      fetchRange_faithful[OF assms(1) chain_order_blocks[OF assms(2)] assms(4)] by blast
  have c: "rfold (checkFetched (NewAddressSet b) ts) (filter (in_query f t b ts) chain) () = Inr ()" for b
    using assms(5) by (auto simp: checkFetched_all in_query_def)
  have "\<exists>out. rfold (\<lambda>batch result.
          rbind (fetchRange source batch ts f t) (\<lambda>logs.
          rbind (rfold (checkFetched (NewAddressSet batch) ts) logs ()) (\<lambda>_.
          Inr (result @ logs)))) bs acc = Inr out" for bs acc
    by (induction bs arbitrary: acc) (simp_all add: ex c)
  then show ?thesis by (simp add: fetch_def)
qed

section \<open>Launches\<close>

definition launchOf :: "abi_codec \<Rightarrow> Discoverer \<Rightarrow> Log \<Rightarrow> TokenLaunched option" where
  "launchOf codec d log = (case Decode codec (diDecoder d) log (emptyEmitters (diFactory d)) of
     Inr decoded \<Rightarrow> (case dlValue decoded of EvTokenLaunched launch \<Rightarrow> Some launch | _ \<Rightarrow> None)
   | Inl _ \<Rightarrow> None)"

definition launch_addresses :: "EmitterKind \<Rightarrow> TokenLaunched \<Rightarrow> Address set" where
  "launch_addresses k l = (case k of EmitterCurve \<Rightarrow> {tlCurve l} | EmitterToken \<Rightarrow> {tlToken l}
     | EmitterPair \<Rightarrow> {tlLPPair l} | EmitterFactory \<Rightarrow> {})"

definition launched_at :: "(64 word \<times> Emitters) list \<Rightarrow> 64 word \<Rightarrow> EmitterKind \<Rightarrow> Address set" where
  "launched_at nb b k = (case map_of nb b of None \<Rightarrow> {} | Some e \<Rightarrow> set (addressesFor e k))"

lemma Decode_factory:
  assumes "lgAddress log = f" "emFactory em = f"
  shows "Decode codec dec log em = Decode codec dec log (emptyEmitters f)"
proof -
  have "Kind em (lgAddress log) = Kind (emptyEmitters f) (lgAddress log)"
    using assms by (simp add: Kind_def emptyEmitters_def)
  then show ?thesis by (simp add: Decode_def Let_def)
qed

lemma addressesFor_addLaunch:
  "set (addressesFor (addLaunch l e) k) = set (addressesFor e k) \<union> launch_addresses k l"
  by (cases k) (auto simp: addressesFor_def addLaunch_def launch_addresses_def)

lemma addressesFor_empty [simp]: "addressesFor (emptyEmitters f) k = []"
  by (cases k) (auto simp: addressesFor_def emptyEmitters_def)

lemma emFactory_addLaunch [simp]: "emFactory (addLaunch l e) = emFactory e"
  by (simp add: addLaunch_def)

text \<open>One iteration of the loop over factory logs.\<close>

lemma scanFactoryLog_none:
  assumes "scanFactoryLog codec d log s = Inr s'" "lgAddress log = diFactory d"
    "emFactory (scEmitters s) = diFactory d" "launchOf codec d log = None"
  shows "s' = s"
proof -
  from assms(1) obtain decoded where D: "Decode codec (diDecoder d) log (scEmitters s) = Inr decoded"
    by (auto simp: scanFactoryLog_def rbind_eq_Inr)
  have "Decode codec (diDecoder d) log (emptyEmitters (diFactory d)) = Inr decoded"
    using D Decode_factory[OF assms(2,3)] by simp
  then show ?thesis using assms(1,4) D
    by (cases "dlValue decoded") (simp_all add: scanFactoryLog_def launchOf_def rbind_eq_Inr Let_def)
qed

lemma scanFactoryLog_some:
  assumes "scanFactoryLog codec d log s = Inr s'" "lgAddress log = diFactory d"
    "emFactory (scEmitters s) = diFactory d" "launchOf codec d log = Some l"
  shows "s' = \<lparr>scLaunches = scLaunches s @ [l], scEmitters = addLaunch l (scEmitters s),
     scNewByBlock = AList.update (lgBlockNumber log) (addLaunch l
       (case map_of (scNewByBlock s) (lgBlockNumber log) of None \<Rightarrow> emptyEmitters (diFactory d) | Some e \<Rightarrow> e))
       (scNewByBlock s)\<rparr>"
proof -
  from assms(1) obtain decoded where D: "Decode codec (diDecoder d) log (scEmitters s) = Inr decoded"
    by (auto simp: scanFactoryLog_def rbind_eq_Inr)
  have "Decode codec (diDecoder d) log (emptyEmitters (diFactory d)) = Inr decoded"
    using D Decode_factory[OF assms(2,3)] by simp
  then show ?thesis using assms(1,4) D
    by (cases "dlValue decoded") (simp_all add: scanFactoryLog_def launchOf_def rbind_eq_Inr Let_def)
qed

lemma launched_at_update:
  "launched_at (AList.update b (addLaunch l (case map_of nb b of None \<Rightarrow> emptyEmitters f | Some e \<Rightarrow> e)) nb) c k =
   launched_at nb c k \<union> (if c = b then launch_addresses k l else {})"
  by (auto simp: launched_at_def update_conv' addressesFor_addLaunch split: option.splits)

definition scan_result ::
    "abi_codec \<Rightarrow> Discoverer \<Rightarrow> Log list \<Rightarrow> launch_scan \<Rightarrow> launch_scan \<Rightarrow> bool" where
  "scan_result codec d logs s s' \<longleftrightarrow> emFactory (scEmitters s') = diFactory d
     \<and> scLaunches s' = scLaunches s @ List.map_filter (launchOf codec d) logs
     \<and> (\<forall>k. set (addressesFor (scEmitters s') k) = set (addressesFor (scEmitters s) k)
          \<union> (\<Union>l \<in> set (List.map_filter (launchOf codec d) logs). launch_addresses k l))
     \<and> (\<forall>b k. launched_at (scNewByBlock s') b k = launched_at (scNewByBlock s) b k
          \<union> (\<Union>l \<in> set (List.map_filter (launchOf codec d) (filter (\<lambda>g. lgBlockNumber g = b) logs)).
               launch_addresses k l))
     \<and> fst ` set (scNewByBlock s') = fst ` set (scNewByBlock s)
          \<union> {lgBlockNumber g | g l. g \<in> set logs \<and> launchOf codec d g = Some l}"

lemma scan_result_Nil: "emFactory (scEmitters s) = diFactory d \<Longrightarrow> scan_result codec d [] s s"
  by (simp add: scan_result_def List.map_filter_simps)

lemma scan_result_Cons:
  assumes "scanFactoryLog codec d g s = Inr t" "lgAddress g = diFactory d"
    "emFactory (scEmitters s) = diFactory d" "scan_result codec d logs t s'"
  shows "scan_result codec d (g # logs) s s'"
proof (cases "launchOf codec d g")
  case None
  then have "t = s" using scanFactoryLog_none[OF assms(1-3)] by simp
  then show ?thesis using assms(4) None by (auto simp: scan_result_def List.map_filter_simps)
next
  case (Some l)
  note t = scanFactoryLog_some[OF assms(1-3) Some]
  have 1: "scLaunches t = scLaunches s @ [l]" "scEmitters t = addLaunch l (scEmitters s)"
    "\<And>b k. launched_at (scNewByBlock t) b k = launched_at (scNewByBlock s) b k
        \<union> (if b = lgBlockNumber g then launch_addresses k l else {})"
    "fst ` set (scNewByBlock t) = insert (lgBlockNumber g) (fst ` set (scNewByBlock s))"
    by (simp_all add: t launched_at_update dom_update)
  show ?thesis
    using assms(4) Some unfolding scan_result_def 1 addressesFor_addLaunch
    by (intro conjI allI) (auto simp: List.map_filter_simps)
qed

lemma scan_fold:
  assumes "rfold (scanFactoryLog codec d) logs s = Inr s'" "emFactory (scEmitters s) = diFactory d"
    "\<forall>g \<in> set logs. lgAddress g = diFactory d"
  shows "scan_result codec d logs s s'"
  using assms
proof (induction logs arbitrary: s)
  case Nil
  then show ?case by (simp add: scan_result_Nil)
next
  case (Cons g logs)
  from Cons.prems(1) obtain t where t: "scanFactoryLog codec d g s = Inr t"
      "rfold (scanFactoryLog codec d) logs t = Inr s'" by (auto simp: rbind_eq_Inr)
  have "emFactory (scEmitters t) = diFactory d"
  proof (cases "launchOf codec d g")
    case None
    then show ?thesis using scanFactoryLog_none[OF t(1)] Cons.prems by simp
  next
    case (Some l)
    then show ?thesis using scanFactoryLog_some[OF t(1)] Cons.prems by simp
  qed
  then show ?case
    using Cons.IH[OF t(2)] Cons.prems by (intro scan_result_Cons[OF t(1)]) auto
qed

section \<open>The discovered logs\<close>

abbreviation topics_of :: "Discoverer \<Rightarrow> EmitterKind \<Rightarrow> Hash list" where
  "topics_of d k \<equiv> decoder_Topics (diDecoder d) k"

lemma fetchKinds_selected:
  assumes "faithful (diSource d) chain" "chain_order chain" "0 < diAddressBatchSize d" "f \<le> t"
    and "fetchKinds d f t e acc = Inr out"
  shows "set out = set acc \<union> (\<Union>k \<in> set launchKinds. selected chain f t (set (addressesFor e k)) (topics_of d k))"
  using assms(5) unfolding fetchKinds_def launchKinds_def
  by (auto simp: rbind_eq_Inr fetch_selected[OF assms(1,2,4,3)])

lemma refetch_selected:
  assumes "faithful (diSource d) chain" "chain_order chain" "0 < diAddressBatchSize d"
    and "\<forall>b \<in> set blocks. b \<le> t"
    and "rfold (\<lambda>block acc. case map_of nb block of
           Some fresh \<Rightarrow> fetchKinds d block t fresh acc | None \<Rightarrow> Inr acc) blocks acc = Inr out"
  shows "set out = set acc \<union>
    (\<Union>b \<in> set blocks. \<Union>k \<in> set launchKinds. selected chain b t (launched_at nb b k) (topics_of d k))"
  using assms(4,5)
proof (induction blocks arbitrary: acc)
  case Nil
  then show ?case by simp
next
  case (Cons b blocks)
  from Cons.prems(2) obtain mid where
      mid: "(case map_of nb b of Some fresh \<Rightarrow> fetchKinds d b t fresh acc | None \<Rightarrow> Inr acc) = Inr mid"
    and rest: "rfold (\<lambda>block acc. case map_of nb block of
           Some fresh \<Rightarrow> fetchKinds d block t fresh acc | None \<Rightarrow> Inr acc) blocks mid = Inr out"
    by (auto simp: rbind_eq_Inr)
  have "set mid = set acc \<union> (\<Union>k \<in> set launchKinds. selected chain b t (launched_at nb b k) (topics_of d k))"
  proof (cases "map_of nb b")
    case None
    then show ?thesis using mid by (simp add: launched_at_def selected_def)
  next
    case (Some e)
    then show ?thesis using mid fetchKinds_selected[OF assms(1-3), of b t e acc mid] Cons.prems(1)
      by (simp add: launched_at_def)
  qed
  then show ?case using Cons.IH[OF _ rest] Cons.prems(1) by (simp add: Un_assoc)
qed

text \<open>
  A log is watched when the factory emitted it, when an emitter known before the range emitted it,
  or when it was emitted by an address that a launch in the range created, in the launch's block
  or later; always under a topic of that emitter kind.
\<close>

definition watched :: "abi_codec \<Rightarrow> Discoverer \<Rightarrow> Log list \<Rightarrow> 64 word \<Rightarrow> Emitters \<Rightarrow> Log \<Rightarrow> bool" where
  "watched codec d chain f known l \<longleftrightarrow>
     lgAddress l = diFactory d \<and> has_topic (topics_of d EmitterFactory) l
   \<or> (\<exists>k \<in> set launchKinds. has_topic (topics_of d k) l \<and>
        (lgAddress l \<in> set (addressesFor known k)
         \<or> (\<exists>g \<in> set chain. lgAddress g = diFactory d \<and> has_topic (topics_of d EmitterFactory) g
              \<and> f \<le> lgBlockNumber g \<and> lgBlockNumber g \<le> lgBlockNumber l
              \<and> (\<exists>launch. launchOf codec d g = Some launch \<and> lgAddress l \<in> launch_addresses k launch))))"

definition factory_logs :: "Discoverer \<Rightarrow> Log list \<Rightarrow> 64 word \<Rightarrow> 64 word \<Rightarrow> Log list" where
  "factory_logs d chain f t = filter (\<lambda>l. f \<le> lgBlockNumber l \<and> lgBlockNumber l \<le> t
     \<and> lgAddress l = diFactory d \<and> has_topic (topics_of d EmitterFactory) l) chain"

lemma fetch_single:
  assumes "faithful source chain" "chain_order chain" "f \<le> t" "0 < n"
    and "fetch source n f t [a] ts = Inr logs"
  shows "logs = filter (\<lambda>l. f \<le> lgBlockNumber l \<and> lgBlockNumber l \<le> t \<and> lgAddress l = a \<and> has_topic ts l) chain"
proof -
  have b: "batches n [a] = [[a]]" using assms(4) by (simp add: batches.simps[of n "[a]"] batches.simps[of n "[]"])
  have "logs = filter (in_query f t [a] ts) chain"
    using assms(5) fetchRange_faithful[OF assms(1) chain_order_blocks[OF assms(2)] assms(3)]
    by (auto simp: fetch_def b rbind_eq_Inr)
  moreover have "\<forall>l \<in> set logs. has_topic ts l" using fetch_checked[OF assms(5,4)] by blast
  ultimately show ?thesis by (auto simp: in_query_def intro!: filter_cong)
qed

lemma DiscoverE:
  assumes "Discover codec d f t known = Inr r"
  obtains scan logs1 allLogs factoryLogs where "f \<le> t"
    "fetch (diSource d) (diAddressBatchSize d) f t [diFactory d] (topics_of d EmitterFactory) = Inr factoryLogs"
    "rfold (scanFactoryLog codec d) factoryLogs
      \<lparr>scLaunches = [], scEmitters = (copyEmitters known)\<lparr>emFactory := diFactory d\<rparr>, scNewByBlock = []\<rparr> = Inr scan"
    "rfold (\<lambda>block acc. case map_of (scNewByBlock scan) block of
        Some fresh \<Rightarrow> fetchKinds d block t fresh acc | None \<Rightarrow> Inr acc)
      (sort (map fst (scNewByBlock scan))) factoryLogs = Inr logs1"
    "fetchKinds d f t known logs1 = Inr allLogs"
    "deduplicateAndSort allLogs = Inr (drLogs r)"
    "drLaunches r = scLaunches scan" "drEmitters r = scEmitters scan"
  using assms unfolding Discover_def Let_def
  by (auto simp: rbind_eq_Inr split: if_splits)

lemma chain_order_unique:
  "chain_order chain \<Longrightarrow> a \<in> set chain \<Longrightarrow> b \<in> set chain \<Longrightarrow> logKey a = logKey b \<Longrightarrow> a = b"
  unfolding chain_order_def by (induction chain) auto

lemma chain_order_filter_eq:
  assumes "chain_order chain" "chain_order xs" "set xs = {l \<in> set chain. P l}"
  shows "xs = filter P chain"
proof -
  have d: "chain_order (filter P chain)" using assms(1) by (simp add: chain_order_def sorted_wrt_filter)
  have "chain_order ys \<Longrightarrow> sorted (map logKey ys) \<and> distinct (map logKey ys)" for ys
    using strict_sorted_iff[of "map logKey ys"] by (simp add: chain_order_def sorted_wrt_map)
  then have "map logKey xs = map logKey (filter P chain)"
    using d assms by (intro sorted_distinct_set_unique) auto
  moreover have "inj_on logKey (set xs \<union> set (filter P chain))"
    using chain_order_unique[OF assms(1)] assms(3) by (auto simp: inj_on_def)
  ultimately show ?thesis by (rule map_inj_on)
qed

lemma dedup_of_chain:
  assumes "chain_order chain" "set logs \<subseteq> set chain" "deduplicateAndSort logs = Inr result"
  shows "chain_order result \<and> set result = set logs"
proof -
  note r = deduplicateAndSort_Inr[OF assms(3)]
  have "l \<in> set result" if "l \<in> set logs" for l
  proof -
    from r that obtain x where "x \<in> set result" "sameLog x l" by blast
    moreover then have "x = l"
      using chain_order_unique[OF assms(1), of x l] assms(2) r that sameLog_key by blast
    ultimately show ?thesis by simp
  qed
  then show ?thesis using r by (auto simp: chain_order_def)
qed

lemma in_map_filter: "y \<in> set (List.map_filter g xs) \<longleftrightarrow> (\<exists>x \<in> set xs. g x = Some y)"
  by (induction xs) (auto simp: List.map_filter_simps split: option.splits)

lemma discovered_set:
  fixes codec d chain f t known
  defines "F \<equiv> factory_logs d chain f t"
  defines "at \<equiv> (\<lambda>b k. \<Union>l \<in> set (List.map_filter (launchOf codec d) (filter (\<lambda>g. lgBlockNumber g = b) F)).
               launch_addresses k l)"
  shows "set F \<union> (\<Union>b \<in> {lgBlockNumber g | g l. g \<in> set F \<and> launchOf codec d g = Some l}.
        \<Union>k \<in> set launchKinds. selected chain b t (at b k) (topics_of d k))
      \<union> (\<Union>k \<in> set launchKinds. selected chain f t (set (addressesFor known k)) (topics_of d k))
    = {l \<in> set chain. f \<le> lgBlockNumber l \<and> lgBlockNumber l \<le> t \<and> watched codec d chain f known l}"
  (is "_ \<union> ?new \<union> ?known = ?R")
proof (intro equalityI subsetI)
  fix l assume "l \<in> set F \<union> ?new \<union> ?known"
  then consider "l \<in> set F" | "l \<in> ?new" | "l \<in> ?known" by blast
  then show "l \<in> ?R"
  proof cases
    case 1
    then show ?thesis by (simp add: F_def factory_logs_def watched_def)
  next
    case 2
    then obtain b k where k: "k \<in> set launchKinds" "l \<in> selected chain b t (at b k) (topics_of d k)" by blast
    then obtain g launch where "g \<in> set F" "lgBlockNumber g = b" "launchOf codec d g = Some launch"
        "lgAddress l \<in> launch_addresses k launch"
      by (auto simp: selected_def at_def in_map_filter)
    then show ?thesis using k unfolding watched_def F_def factory_logs_def selected_def by auto
  next
    case 3
    then show ?thesis unfolding watched_def selected_def by auto
  qed
next
  fix l assume l: "l \<in> ?R"
  then consider "l \<in> set F" | k where "k \<in> set launchKinds" "has_topic (topics_of d k) l"
        "lgAddress l \<in> set (addressesFor known k)"
    | k g launch where "k \<in> set launchKinds" "has_topic (topics_of d k) l" "g \<in> set chain"
        "lgAddress g = diFactory d" "has_topic (topics_of d EmitterFactory) g" "f \<le> lgBlockNumber g"
        "lgBlockNumber g \<le> lgBlockNumber l" "launchOf codec d g = Some launch"
        "lgAddress l \<in> launch_addresses k launch"
    unfolding watched_def F_def factory_logs_def by auto
  then show "l \<in> set F \<union> ?new \<union> ?known"
  proof cases
    case 1
    then show ?thesis by simp
  next
    case 2
    then show ?thesis using l by (auto simp: selected_def)
  next
    case (3 k g launch)
    then have g: "g \<in> set F" using l by (auto simp: F_def factory_logs_def)
    have "launch \<in> set (List.map_filter (launchOf codec d) (filter (\<lambda>h. lgBlockNumber h = lgBlockNumber g) F))"
      unfolding in_map_filter using g 3(8) by auto
    then have "lgAddress l \<in> at (lgBlockNumber g) k" unfolding at_def using 3(9) by blast
    then have "l \<in> selected chain (lgBlockNumber g) t (at (lgBlockNumber g) k) (topics_of d k)"
      using 3 l by (simp add: selected_def)
    then show ?thesis using 3 g by blast
  qed
qed

text \<open>C6: discovery over a block range is complete and exact. Against a provider that answers queries
  faithfully about a chain of logs, a discovery that returns has as its logs precisely the watched
  logs of the range in chain order: the factory's, those of the emitters known beforehand, and
  those of every curve, token and pair launched in the range from the launch block on, although
  these addresses were unknown when the range was first queried. The launches are those the
  factory logs decode to, in order, and the returned emitter set is the known one plus theirs.\<close>

theorem Discover_complete:
  assumes "faithful (diSource d) chain" "chain_order chain" "0 < diAddressBatchSize d"
    and "Discover codec d f t known = Inr r"
  shows "drLogs r = filter (\<lambda>l. f \<le> lgBlockNumber l \<and> lgBlockNumber l \<le> t \<and> watched codec d chain f known l) chain
    \<and> drLaunches r = List.map_filter (launchOf codec d) (factory_logs d chain f t)
    \<and> (\<forall>k \<in> set launchKinds. set (addressesFor (drEmitters r) k) =
         set (addressesFor known k) \<union> (\<Union>l \<in> set (drLaunches r). launch_addresses k l))
    \<and> emFactory (drEmitters r) = diFactory d"
proof -
  from assms(4) obtain scan logs1 allLogs F where ft: "f \<le> t"
    and F: "fetch (diSource d) (diAddressBatchSize d) f t [diFactory d] (topics_of d EmitterFactory) = Inr F"
    and scan: "rfold (scanFactoryLog codec d) F
      \<lparr>scLaunches = [], scEmitters = (copyEmitters known)\<lparr>emFactory := diFactory d\<rparr>, scNewByBlock = []\<rparr> = Inr scan"
    and l1: "rfold (\<lambda>block acc. case map_of (scNewByBlock scan) block of
        Some fresh \<Rightarrow> fetchKinds d block t fresh acc | None \<Rightarrow> Inr acc)
      (sort (map fst (scNewByBlock scan))) F = Inr logs1"
    and all: "fetchKinds d f t known logs1 = Inr allLogs"
    and r: "deduplicateAndSort allLogs = Inr (drLogs r)" "drLaunches r = scLaunches scan"
      "drEmitters r = scEmitters scan"
    by (rule DiscoverE)
  have FF: "F = factory_logs d chain f t"
    using fetch_single[OF assms(1,2) ft assms(3) F] by (simp add: factory_logs_def)
  have sr: "scan_result codec d F
      \<lparr>scLaunches = [], scEmitters = (copyEmitters known)\<lparr>emFactory := diFactory d\<rparr>, scNewByBlock = []\<rparr> scan"
    by (rule scan_fold[OF scan]) (auto simp: FF factory_logs_def)
  have at: "launched_at (scNewByBlock scan) b k = (\<Union>l \<in> set (List.map_filter (launchOf codec d)
      (filter (\<lambda>g. lgBlockNumber g = b) F)). launch_addresses k l)" for b k
    using sr by (simp add: scan_result_def launched_at_def)
  have blocks: "fst ` set (scNewByBlock scan) = {lgBlockNumber g | g l. g \<in> set F \<and> launchOf codec d g = Some l}"
    using sr by (simp add: scan_result_def)
  then have "\<forall>b \<in> set (sort (map fst (scNewByBlock scan))). b \<le> t"
    by (auto simp: FF factory_logs_def)
  note refetch = refetch_selected[OF assms(1-3) this l1]
  have "set allLogs = {l \<in> set chain. f \<le> lgBlockNumber l \<and> lgBlockNumber l \<le> t \<and> watched codec d chain f known l}"
    using fetchKinds_selected[OF assms(1-3) ft all] refetch discovered_set[of d chain f t codec known]
    by (simp only: set_sort set_map blocks at FF)
  then have "drLogs r = filter (\<lambda>l. f \<le> lgBlockNumber l \<and> lgBlockNumber l \<le> t \<and> watched codec d chain f known l) chain"
    using dedup_of_chain[OF assms(2) _ r(1)] by (intro chain_order_filter_eq[OF assms(2)]) auto
  moreover have "set (addressesFor ((copyEmitters known)\<lparr>emFactory := diFactory d\<rparr>) k) =
      set (addressesFor known k)" for k
    by (cases k) (simp_all add: addressesFor_def copyEmitters_def)
  ultimately show ?thesis using sr by (simp add: scan_result_def r(2,3) FF)
qed

text \<open>A launch and, in the same block, a trade of the curve it creates.\<close>

definition launch_values :: abi_values where
  "launch_values = map_of ([(''engineVersion'', VU16 1), (''tradeFeeBps'', VU16 100), (''protocolShareBps'', VU16 5000),
     (''name'', VText ''n''), (''symbol'', VText ''s''), (''token'', VAddress 60), (''curve'', VAddress 50),
     (''creator'', VAddress 1), (''lpPair'', VAddress 70), (''weth'', VAddress 2), (''protocolTreasury'', VAddress 3)]
     @ map (\<lambda>n. (n, VInt 1)) [''totalSupply'', ''virtualEth'', ''virtualToken'', ''curveTokens'', ''lpTokens'',
        ''graduationEth'', ''launchFeePaid''])"

definition launch_codec :: abi_codec where
  "launch_codec = \<lparr>unpackIntoMap = (\<lambda>_ _ _. Inr launch_values), parseTopicsIntoMap = (\<lambda>_ _ m. Inr m)\<rparr>"

definition demo_chain :: "Log list" where
  "demo_chain = [demo_log 5 42 1, (demo_log 5 50 8)\<lparr>lgTxIndex := 1\<rparr>, demo_log 6 99 8]"

definition demo_discoverer :: Discoverer where
  "demo_discoverer = \<lparr>diSource = block_source demo_chain, diDecoder = demo_decoder, diFactory = 42,
     diAddressBatchSize = 10, diVerifyLaunchPair = None\<rparr>"

lemma demo_topics: "decoder_Topics demo_decoder EmitterFactory = [1, 2, 3, 4, 5, 6, 7]"
  "decoder_Topics demo_decoder EmitterCurve = [8, 9, 10, 11, 12, 13]"
  "decoder_Topics demo_decoder EmitterToken = [14]"
  "decoder_Topics demo_decoder EmitterPair = [15, 16, 17, 18]"
  by (simp_all add: decoder_Topics_def demo_decoder_def registered_events_def factory_names_def
      curve_names_def enumerate_eq_zip)

lemma block_source_fetch:
  assumes "ts \<noteq> []" "0 < n" "n \<ge> length as"
  shows "fetch (block_source chain) n f f as ts = Inr (filter (in_query f f (sort as) ts) chain)"
proof (cases "as = []")
  case True
  then show ?thesis by (simp add: fetch_def in_query_def)
next
  case False
  then have ne: "sort as \<noteq> []" by (metis length_0_conv length_sort)
  have b: "batches n (sort as) = [sort as]"
    using assms ne by (subst batches.simps) (simp add: batches.simps[of n "[]"])
  have c: "rfold (checkFetched (NewAddressSet (sort as)) ts) (filter (in_query f f (sort as) ts) chain) () = Inr ()"
    using assms(1) by (auto simp: checkFetched_all in_query_def)
  show ?thesis using False
    by (simp add: fetch_def b c fetchRange.simps[of "block_source chain" "sort as" ts f f] block_source_def[of chain f f])
qed

definition demo_launch :: TokenLaunched where
  "demo_launch = \<lparr>tlToken = 60, tlCurve = 50, tlCreator = 1, tlLPPair = 70, tlWETH = 2,
     tlProtocolTreasury = 3, tlEngineVersion = 1, tlName = ''n'', tlSymbol = ''s'', tlTotalSupply = Some 1,
     tlVirtualETH = Some 1, tlVirtualToken = Some 1, tlCurveTokens = Some 1, tlLPTokens = Some 1,
     tlGraduationETH = Some 1, tlLaunchFeePaid = Some 1, tlTradeFeeBPS = 100, tlProtocolShareBPS = 5000\<rparr>"

lemma demo_typed: "typedTokenLaunched launch_values = Inr (EvTokenLaunched demo_launch)"
  by (simp add: typedTokenLaunched_def launch_values_def addr_def u16_def abi_text_def integer_def demo_launch_def)

lemma demo_decode:
  "Decode launch_codec demo_decoder (demo_log 5 42 1) \<lparr>emFactory = 42, emCurves = [], emTokens = [], emPairs = []\<rparr> =
   Inr \<lparr>dlCoordinates = coordinates (demo_log 5 42 1), dlEmitter = 42, dlKind = EmitterFactory,
     dlName = ''TokenLaunched'', dlValue = EvTokenLaunched demo_launch\<rparr>"
  by (simp add: Decode_def demo_log_def demo_decoder_def launch_codec_def Kind_def Let_def
      registered_events_def factory_names_def curve_names_def enumerate_eq_zip indexedArguments_def
      nonIndexed_def invalidDataAddressPadding_def typedEvent_def demo_typed wrapMalformed_def
      checkVersion_def) (simp add: demo_launch_def)

lemma demo_discover:
  assumes "v = None \<or> (\<exists>verify. v = Some verify \<and> verify demo_launch = Inr ())"
  shows "\<exists>r. Discover launch_codec (demo_discoverer\<lparr>diVerifyLaunchPair := v\<rparr>) 5 5 (emptyEmitters 0) = Inr r"
proof -
  have v: "(case v of None \<Rightarrow> Inr () | Some verify \<Rightarrow> verify demo_launch) = Inr ()" using assms by auto
  have F: "fetch (block_source demo_chain) 10 5 5 [42] [1, 2, 3, 4, 5, 6, 7] = Inr [demo_log 5 42 1]"
    by (simp add: block_source_fetch demo_chain_def in_query_def has_topic_def demo_log_def)
  have fresh: "fetch (block_source demo_chain) 10 5 5 [50] [8, 9, 10, 11, 12, 13] =
      Inr [(demo_log 5 50 8)\<lparr>lgTxIndex := 1\<rparr>]"
    "fetch (block_source demo_chain) 10 5 5 [60] [14] = Inr []"
    "fetch (block_source demo_chain) 10 5 5 [70] [15, 16, 17, 18] = Inr []"
    "fetch (block_source demo_chain) 10 5 5 [] ts = Inr []" for ts
    by (simp_all add: block_source_fetch demo_chain_def in_query_def has_topic_def demo_log_def fetch_def[of _ _ _ _ "[]"])
  have "consistent [demo_log 5 42 1, (demo_log 5 50 8)\<lparr>lgTxIndex := 1\<rparr>]"
    by (simp add: consistent_def logKey_def demo_log_def sameLog_def)
  then have "\<exists>u. rfold addUnique [demo_log 5 42 1, (demo_log 5 50 8)\<lparr>lgTxIndex := 1\<rparr>] [] = Inr u"
    by (intro addUnique_fold_ok) (simp_all add: unique_wf_def)
  then have dd: "\<exists>u. deduplicateAndSort [demo_log 5 42 1, (demo_log 5 50 8)\<lparr>lgTxIndex := 1\<rparr>] = Inr u"
    by (auto simp: deduplicateAndSort_def)
  have b: "lgBlockNumber (demo_log 5 42 1) = 5" by (simp add: demo_log_def)
  show ?thesis using dd v[unfolded demo_launch_def]
    by (auto simp: Discover_def Let_def demo_discoverer_def demo_topics F copyEmitters_def emptyEmitters_def
        NewAddressSet_def scanFactoryLog_def demo_decode b addLaunch_def set_add_def fetchKinds_def launchKinds_def
        addressesFor_def fresh demo_launch_def)
qed

theorem Discover_complete_witness:
  "\<exists>r. Discover launch_codec demo_discoverer 5 5 (emptyEmitters 0) = Inr r
     \<and> drLogs r = [demo_log 5 42 1, (demo_log 5 50 8)\<lparr>lgTxIndex := 1\<rparr>]"
proof -
  obtain r where r: "Discover launch_codec demo_discoverer 5 5 (emptyEmitters 0) = Inr r"
    using demo_discover[of None] by (auto simp: demo_discoverer_def)
  have l: "launchOf launch_codec demo_discoverer (demo_log 5 42 1) = Some demo_launch"
    by (simp add: launchOf_def demo_discoverer_def emptyEmitters_def demo_decode)
  have c: "chain_order demo_chain"
    by (simp add: chain_order_def demo_chain_def demo_log_def logKey_def less_prod_def')
  have "drLogs r = [demo_log 5 42 1, (demo_log 5 50 8)\<lparr>lgTxIndex := 1\<rparr>]"
    using Discover_complete[OF _ c _ r] block_source_ok(1)[of demo_chain] l
    by (simp add: demo_discoverer_def demo_chain_def watched_def demo_topics has_topic_def launchKinds_def
        addressesFor_def emptyEmitters_def launch_addresses_def demo_log_def demo_launch_def)
  then show ?thesis using r by blast
qed

end
