(* ===== verification/Ledger_Store.thy ===== *)
theory Ledger_Store
  imports Chain_Types Rpc_Client "HOL-Library.Char_ord"
begin

text \<open>
  The PostgreSQL side of the indexer: the tables it owns, the statements of
  \<^verbatim>\<open>store/postgres/queries\<close> that the Go code executes on them, the transaction wrapper of
  \<^verbatim>\<open>tx.go\<close>, the session-lock owner of \<^verbatim>\<open>ownership.go\<close>, and the adapter operations of
  \<^verbatim>\<open>adapter.go\<close> and \<^verbatim>\<open>indexer_store.go\<close> for blocks, watermarks, reorg records and token identities.

  Tables are lists of rows. Price, balance and statistics tables are written only by SQL that the
  Go code calls and never reads back while indexing; they are one opaque component, and the
  statements on them are parameters in the record \<open>market_sql\<close>.

  Every interaction with the outside (a statement, a begin, a commit, an RPC call) consumes a tick;
  its outcome is a function of the tick, so any statement may fail and any two reads of one header
  may differ. A transaction rolls back by restoring the tables (sequence gaps are not observable).
\<close>

section \<open>Errors, rows and tables\<close>

datatype idx_error =
    QueryFailed
  | BeginFailed
  | CommitUnknown
  | ContextDone
  | OwnershipLost
  | NoRows
  | UniqueViolation
  | CheckViolation
  | InvariantConflict string
  | NegativeBalance Address Address
  | AmountInvalid string
  | RPCUnhealthy string
  | InvalidHeader
  | HeadOrdering
  | SafeViolation
  | CanonicalMismatch
  | ChainFailure chain_error
  | OtherError string

type_synonym sync_point = "int \<times> Hash \<times> int"

record SyncState =
  syChainID :: int
  syDeploymentID :: string
  syObserved :: "sync_point option"
  sySafe :: "sync_point option"
  syFinalized :: "sync_point option"

record token_row =
  trChainID :: int
  trLaunch :: EventCoordinates
  trLaunched :: TokenLaunched
  trGraduation :: "EventCoordinates option"

record dirty_row =
  adChainID :: int
  adToken :: Address
  adGeneration :: int
  adClaim :: "(int \<times> int \<times> string) option"

record ReorgRecord =
  rrChainID :: int
  rrDeploymentID :: string
  rrDetectedTipNumber :: int
  rrDetectedTipHash :: Hash
  rrCommonAncestorNumber :: int
  rrCommonAncestorHash :: Hash
  rrDepth :: int
  rrDetectedAt :: int

record reorg_row =
  roID :: int
  roRecord :: ReorgRecord
  roRecovered :: bool

record 'm db =
  dbBlocks :: "IndexedBlock list"
  dbSync :: "SyncState list"
  dbEvents :: "ledger_event list"
  dbTokens :: "token_row list"
  dbDirty :: "dirty_row list"
  dbDirtySeq :: int
  dbReorgs :: "reorg_row list"
  dbReorgSeq :: int
  dbMarket :: 'm

section \<open>Effects\<close>

datatype commit_outcome = Committed | LostApplied | LostDropped

type_synonym event_id = "int \<times> Hash \<times> int"

record 'm market_sql =
  sqlTradeReserve :: "event_id \<Rightarrow> 'm db \<Rightarrow> 'm"
  sqlPoolSyncReserve :: "event_id \<Rightarrow> 'm db \<Rightarrow> 'm"
  sqlMarketTradeCandles :: "event_id \<Rightarrow> 'm db \<Rightarrow> 'm"
  sqlTransfer :: "int \<Rightarrow> Address \<Rightarrow> Address \<Rightarrow> int \<Rightarrow> Address \<Rightarrow> int \<Rightarrow> 'm db \<Rightarrow> bool \<times> 'm"
  sqlRebuild :: "int \<Rightarrow> Address \<Rightarrow> 'm db \<Rightarrow> 'm"
  sqlClearOrphan :: "int \<Rightarrow> Address \<Rightarrow> 'm db \<Rightarrow> 'm"
  sqlDeleteTokenStats :: "int \<Rightarrow> Address \<Rightarrow> 'm db \<Rightarrow> 'm"
  sqlRecomputeTokenStats :: "int \<Rightarrow> Address \<Rightarrow> 'm db \<Rightarrow> 'm"
  sqlClearProtocolDaily :: "int \<Rightarrow> 'm db \<Rightarrow> 'm"
  sqlRecomputeProtocolDaily :: "int \<Rightarrow> 'm db \<Rightarrow> 'm"
  sqlRecomputeProtocolStats :: "int \<Rightarrow> 'm db \<Rightarrow> 'm"

record 'm db_env =
  envFails :: "nat \<Rightarrow> bool"
  envCtxDone :: "nat \<Rightarrow> bool"
  envCommit :: "nat \<Rightarrow> commit_outcome"
  envConnClosed :: "nat \<Rightarrow> bool"
  envNow :: "nat \<Rightarrow> int"
  envMarket :: "'m market_sql"

record 'm world =
  wDb :: "'m db"
  wTick :: nat
  wOwnerDead :: "idx_error option"

type_synonym ('m, 'a) io = "'m world \<Rightarrow> (idx_error + 'a) \<times> 'm world"

definition ret :: "'a \<Rightarrow> ('m, 'a) io" where
  "ret a w = (Inr a, w)"

definition raise :: "idx_error \<Rightarrow> ('m, 'a) io" where
  "raise e w = (Inl e, w)"

definition iobind :: "('m, 'a) io \<Rightarrow> ('a \<Rightarrow> ('m, 'b) io) \<Rightarrow> ('m, 'b) io" where
  "iobind m f w = (case m w of (Inl e, w') \<Rightarrow> (Inl e, w') | (Inr a, w') \<Rightarrow> f a w')"

definition lift_result :: "idx_error + 'a \<Rightarrow> ('m, 'a) io" where
  "lift_result r w = (r, w)"

fun iter :: "('a \<Rightarrow> ('m, unit) io) \<Rightarrow> 'a list \<Rightarrow> ('m, unit) io" where
  "iter f [] = ret ()"
| "iter f (x # xs) = iobind (f x) (\<lambda>_. iter f xs)"

definition tick :: "'m world \<Rightarrow> 'm world" where
  "tick w = w\<lparr>wTick := wTick w + 1\<rparr>"

text \<open>One SQL statement: it fails for reasons of its own or acts on the tables.\<close>

definition statement :: "'m db_env \<Rightarrow> ('m db \<Rightarrow> idx_error + 'a \<times> 'm db) \<Rightarrow> ('m, 'a) io" where
  "statement env q w =
     (if envFails env (wTick w) then (Inl QueryFailed, tick w)
      else case q (wDb w) of
        Inl e \<Rightarrow> (Inl e, tick w)
      | Inr (a, d) \<Rightarrow> (Inr a, (tick w)\<lparr>wDb := d\<rparr>))"

section \<open>Transactions\<close>

text \<open>
  \<open>WithinTx\<close>: a failed begin leaves nothing behind, a callback error and an ended context roll
  back, and an unacknowledged commit may or may not have been applied.
\<close>

definition rollbackTo :: "'m db \<Rightarrow> 'm world \<Rightarrow> 'm world" where
  "rollbackTo d w = w\<lparr>wDb := d\<rparr>"

definition WithinTx :: "'m db_env \<Rightarrow> ('m, 'a) io \<Rightarrow> ('m, 'a) io" where
  "WithinTx env fn w =
     (if envFails env (wTick w) then (Inl BeginFailed, tick w)
      else case fn (tick w) of
        (Inl e, w') \<Rightarrow> (Inl e, rollbackTo (wDb w) w')
      | (Inr a, w') \<Rightarrow>
          if envCtxDone env (wTick w') then (Inl ContextDone, rollbackTo (wDb w) (tick w'))
          else case envCommit env (wTick w') of
            Committed \<Rightarrow> (Inr a, tick w')
          | LostApplied \<Rightarrow> (Inl CommitUnknown, tick w')
          | LostDropped \<Rightarrow> (Inl CommitUnknown, rollbackTo (wDb w) (tick w')))"

text \<open>
  \<open>Ownership.WithinTx\<close> and \<open>Probe\<close>: once the session lock may be lost, every later use of it
  fails with the recorded error.
\<close>

definition Owner_WithinTx :: "'m db_env \<Rightarrow> ('m, 'a) io \<Rightarrow> ('m, 'a) io" where
  "Owner_WithinTx env fn w =
     (case wOwnerDead w of
        Some e \<Rightarrow> (Inl e, w)
      | None \<Rightarrow>
        (case WithinTx env fn w of (r, w') \<Rightarrow>
           (r, if envConnClosed env (wTick w') \<or> r = Inl CommitUnknown
               then w'\<lparr>wOwnerDead := Some OwnershipLost\<rparr> else w')))"

definition Owner_Probe :: "'m db_env \<Rightarrow> ('m, unit) io" where
  "Owner_Probe env w =
     (case wOwnerDead w of
        Some e \<Rightarrow> (Inl e, w)
      | None \<Rightarrow>
        (if envFails env (wTick w) then (Inl OwnershipLost, (tick w)\<lparr>wOwnerDead := Some OwnershipLost\<rparr>)
         else (Inr (), tick w)))"

definition Owner_Close :: "('m, unit) io" where
  "Owner_Close w = (Inr (), (tick w)\<lparr>wOwnerDead := Some OwnershipLost\<rparr>)"

text \<open>\<open>IndexerStore.Transaction\<close>, without its best-effort notifications.\<close>

definition Transaction :: "bool \<Rightarrow> 'm db_env \<Rightarrow> ('m, 'a) io \<Rightarrow> ('m, 'a) io" where
  "Transaction owned env fn = (if owned then Owner_WithinTx env fn else WithinTx env fn)"

section \<open>Indexed blocks\<close>

definition block_at :: "int \<Rightarrow> int \<Rightarrow> IndexedBlock \<Rightarrow> bool" where
  "block_at chainID n b \<longleftrightarrow> ibChainID b = chainID \<and> ibBlockNumber b = n"

definition finality_valid :: "string \<Rightarrow> bool" where
  "finality_valid s \<longleftrightarrow> s = ''observed'' \<or> s = ''safe'' \<or> s = ''finalized''"

text \<open>
  Insert, or update the finality status of the row at that height when its identity is the same.
  The result is the number of affected rows.
\<close>

definition sql_UpsertIndexedBlock :: "IndexedBlock \<Rightarrow> 'm db \<Rightarrow> idx_error + nat \<times> 'm db" where
  "sql_UpsertIndexedBlock b d =
     (if ibChainID b \<le> 0 \<or> ibBlockNumber b < 0 \<or> \<not> finality_valid (ibFinalityStatus b) then Inl CheckViolation
      else case List.find (block_at (ibChainID b) (ibBlockNumber b)) (dbBlocks d) of
        Some stored \<Rightarrow>
          if ibBlockHash stored = ibBlockHash b \<and> ibParentHash stored = ibParentHash b
             \<and> ibBlockTime stored = ibBlockTime b
          then Inr (1, d\<lparr>dbBlocks := map (\<lambda>r. if block_at (ibChainID b) (ibBlockNumber b) r
                 then r\<lparr>ibFinalityStatus := ibFinalityStatus b\<rparr> else r) (dbBlocks d)\<rparr>)
          else Inr (0, d)
      | None \<Rightarrow>
          if list_ex (\<lambda>r. ibChainID r = ibChainID b \<and> ibBlockHash r = ibBlockHash b) (dbBlocks d)
          then Inl UniqueViolation
          else Inr (1, d\<lparr>dbBlocks := dbBlocks d @ [b]\<rparr>))"

definition sql_GetIndexedBlockByNumber :: "int \<Rightarrow> int \<Rightarrow> 'm db \<Rightarrow> idx_error + IndexedBlock \<times> 'm db" where
  "sql_GetIndexedBlockByNumber chainID n d =
     (case List.find (block_at chainID n) (dbBlocks d) of None \<Rightarrow> Inl NoRows | Some b \<Rightarrow> Inr (b, d))"

definition sql_GetIndexedBlockByHash :: "int \<Rightarrow> Hash \<Rightarrow> 'm db \<Rightarrow> idx_error + IndexedBlock \<times> 'm db" where
  "sql_GetIndexedBlockByHash chainID h d =
     (case List.find (\<lambda>b. ibChainID b = chainID \<and> ibBlockHash b = h) (dbBlocks d) of
        None \<Rightarrow> Inl NoRows | Some b \<Rightarrow> Inr (b, d))"

definition promoted_status :: "string \<Rightarrow> string \<Rightarrow> string" where
  "promoted_status requested current =
     (if requested = ''finalized'' then ''finalized''
      else if current = ''finalized'' then ''finalized'' else ''safe'')"

definition sql_PromoteIndexedBlocks :: "int \<Rightarrow> int \<Rightarrow> string \<Rightarrow> int \<Rightarrow> 'm db \<Rightarrow> idx_error + unit \<times> 'm db" where
  "sql_PromoteIndexedBlocks chainID n requested previous d =
     Inr ((), d\<lparr>dbBlocks := map (\<lambda>b. if ibChainID b = chainID \<and> previous < ibBlockNumber b \<and> ibBlockNumber b \<le> n
        then b\<lparr>ibFinalityStatus := promoted_status requested (ibFinalityStatus b)\<rparr> else b) (dbBlocks d)\<rparr>)"

definition equalIndexedBlockIdentity :: "IndexedBlock \<Rightarrow> IndexedBlock \<Rightarrow> bool" where
  "equalIndexedBlockIdentity stored attempted \<longleftrightarrow> ibChainID stored = ibChainID attempted
     \<and> ibBlockNumber stored = ibBlockNumber attempted \<and> ibBlockHash stored = ibBlockHash attempted
     \<and> ibParentHash stored = ibParentHash attempted \<and> ibBlockTime stored = ibBlockTime attempted"

text \<open>\<open>UpsertIndexedBlock\<close> returns whether a row changed; a unique violation becomes a conflict.\<close>

definition on_error :: "(idx_error \<Rightarrow> idx_error) \<Rightarrow> ('m, 'a) io \<Rightarrow> ('m, 'a) io" where
  "on_error g m w = (case m w of (Inl e, w') \<Rightarrow> (Inl (g e), w') | (Inr a, w') \<Rightarrow> (Inr a, w'))"

definition UpsertIndexedBlock :: "'m db_env \<Rightarrow> IndexedBlock \<Rightarrow> ('m, bool) io" where
  "UpsertIndexedBlock env b =
     iobind (on_error (\<lambda>e. if e = UniqueViolation then InvariantConflict ''indexed_block'' else e)
         (statement env (sql_UpsertIndexedBlock b))) (\<lambda>rows.
     if rows = 1 then ret True
     else iobind (statement env (sql_GetIndexedBlockByNumber (ibChainID b) (ibBlockNumber b))) (\<lambda>stored.
       if equalIndexedBlockIdentity stored b
       then raise (OtherError ''upsert indexed block affected no rows despite identical identity'')
       else raise (InvariantConflict ''indexed_block'')))"

definition GetIndexedBlockByNumber :: "'m db_env \<Rightarrow> int \<Rightarrow> int \<Rightarrow> ('m, IndexedBlock) io" where
  "GetIndexedBlockByNumber env chainID n = statement env (sql_GetIndexedBlockByNumber chainID n)"

definition GetIndexedBlockByHash :: "'m db_env \<Rightarrow> int \<Rightarrow> Hash \<Rightarrow> ('m, IndexedBlock) io" where
  "GetIndexedBlockByHash env chainID h = statement env (sql_GetIndexedBlockByHash chainID h)"

definition ReadBlock :: "'m db_env \<Rightarrow> int \<Rightarrow> int \<Rightarrow> ('m, IndexedBlock option) io" where
  "ReadBlock env chainID n w =
     (case GetIndexedBlockByNumber env chainID n w of
        (Inl e, w') \<Rightarrow> (if e = NoRows then (Inr None, w') else (Inl e, w'))
      | (Inr b, w') \<Rightarrow> (Inr (Some b), w'))"

definition PromoteBlocks ::
    "'m db_env \<Rightarrow> int \<Rightarrow> IndexedBlock option \<Rightarrow> IndexedBlock option \<Rightarrow> int \<Rightarrow> int \<Rightarrow> ('m, unit) io" where
  "PromoteBlocks env chainID safe final previousSafe previousFinalized =
     iobind (case safe of None \<Rightarrow> ret ()
        | Some b \<Rightarrow> statement env (sql_PromoteIndexedBlocks chainID (ibBlockNumber b) ''safe'' previousSafe)) (\<lambda>_.
     (case final of None \<Rightarrow> ret ()
        | Some b \<Rightarrow> statement env (sql_PromoteIndexedBlocks chainID (ibBlockNumber b) ''finalized'' previousFinalized)))"

section \<open>Watermarks\<close>

record State =
  stChainID :: int
  stDeploymentID :: string
  stObserved :: "IndexedBlock option"
  stSafe :: "IndexedBlock option"
  stFinalized :: "IndexedBlock option"

definition lower_alnum :: "char \<Rightarrow> bool" where
  "lower_alnum c \<longleftrightarrow> (CHR ''a'' \<le> c \<and> c \<le> CHR ''z'') \<or> (CHR ''0'' \<le> c \<and> c \<le> CHR ''9'')"

definition deployment_id_valid :: "string \<Rightarrow> bool" where
  "deployment_id_valid s = (case s of [] \<Rightarrow> False | c # cs \<Rightarrow> lower_alnum c \<and> 2 \<le> length cs \<and> length cs \<le> 63
     \<and> list_all (\<lambda>x. lower_alnum x \<or> x = CHR ''.'' \<or> x = CHR ''_'' \<or> x = CHR ''-'') cs)"

definition point_not_ahead :: "sync_point option \<Rightarrow> sync_point option \<Rightarrow> bool" where
  "point_not_ahead p q = (case p of None \<Rightarrow> True | Some (n, _) \<Rightarrow>
     (case q of None \<Rightarrow> False | Some (m, _) \<Rightarrow> n \<le> m))"

definition point_nonnegative :: "sync_point option \<Rightarrow> bool" where
  "point_nonnegative p = (case p of None \<Rightarrow> True | Some (n, _) \<Rightarrow> 0 \<le> n)"

text \<open>The check constraints of the table.\<close>

definition sync_check :: "SyncState \<Rightarrow> bool" where
  "sync_check s \<longleftrightarrow> 0 < syChainID s \<and> deployment_id_valid (syDeploymentID s)
     \<and> point_nonnegative (syObserved s) \<and> point_nonnegative (sySafe s) \<and> point_nonnegative (syFinalized s)
     \<and> point_not_ahead (sySafe s) (syObserved s) \<and> point_not_ahead (syFinalized s) (sySafe s)"

definition sync_key :: "int \<Rightarrow> string \<Rightarrow> SyncState \<Rightarrow> bool" where
  "sync_key chainID deploymentID s \<longleftrightarrow> syChainID s = chainID \<and> syDeploymentID s = deploymentID"

definition sql_UpsertSyncState :: "SyncState \<Rightarrow> 'm db \<Rightarrow> idx_error + SyncState \<times> 'm db" where
  "sql_UpsertSyncState s d =
     (if \<not> sync_check s then Inl CheckViolation
      else Inr (s, d\<lparr>dbSync := s # filter (\<lambda>r. \<not> sync_key (syChainID s) (syDeploymentID s) r) (dbSync d)\<rparr>))"

definition sql_GetSyncState :: "int \<Rightarrow> string \<Rightarrow> 'm db \<Rightarrow> idx_error + SyncState \<times> 'm db" where
  "sql_GetSyncState chainID deploymentID d =
     (case List.find (sync_key chainID deploymentID) (dbSync d) of None \<Rightarrow> Inl NoRows | Some s \<Rightarrow> Inr (s, d))"

definition UpsertSyncState :: "'m db_env \<Rightarrow> SyncState \<Rightarrow> ('m, SyncState) io" where
  "UpsertSyncState env s = statement env (sql_UpsertSyncState s)"

definition GetSyncState :: "'m db_env \<Rightarrow> int \<Rightarrow> string \<Rightarrow> ('m, SyncState) io" where
  "GetSyncState env chainID deploymentID = statement env (sql_GetSyncState chainID deploymentID)"

definition syncBlock :: "int \<Rightarrow> sync_point option \<Rightarrow> IndexedBlock option" where
  "syncBlock chainID p = (case p of None \<Rightarrow> None
     | Some (n, h, at) \<Rightarrow> Some \<lparr>ibChainID = chainID, ibBlockNumber = n, ibBlockHash = h, ibParentHash = 0,
         ibBlockTime = at, ibFinalityStatus = []\<rparr>)"

definition ReadState :: "'m db_env \<Rightarrow> int \<Rightarrow> string \<Rightarrow> ('m, State) io" where
  "ReadState env chainID deployment w =
     (case GetSyncState env chainID deployment w of
        (Inl e, w') \<Rightarrow>
          (if e = NoRows
           then (Inr \<lparr>stChainID = chainID, stDeploymentID = deployment, stObserved = None, stSafe = None,
                  stFinalized = None\<rparr>, w')
           else (Inl e, w'))
      | (Inr s, w') \<Rightarrow>
          (Inr \<lparr>stChainID = chainID, stDeploymentID = deployment, stObserved = syncBlock chainID (syObserved s),
             stSafe = syncBlock chainID (sySafe s), stFinalized = syncBlock chainID (syFinalized s)\<rparr>, w'))"

definition point_of :: "IndexedBlock option \<Rightarrow> sync_point option" where
  "point_of b = map_option (\<lambda>b. (ibBlockNumber b, ibBlockHash b, ibBlockTime b)) b"

definition WriteState :: "'m db_env \<Rightarrow> State \<Rightarrow> ('m, unit) io" where
  "WriteState env s =
     (case stObserved s of
        None \<Rightarrow> ret ()
      | Some _ \<Rightarrow>
        iobind (UpsertSyncState env \<lparr>syChainID = stChainID s, syDeploymentID = stDeploymentID s,
            syObserved = point_of (stObserved s), sySafe = point_of (stSafe s),
            syFinalized = point_of (stFinalized s)\<rparr>) (\<lambda>_. ret ()))"

section \<open>Token identities\<close>

record TokenIdentity =
  tiToken :: Address
  tiCurve :: Address
  tiPair :: Address
  tiEngineVersion :: "16 word"
  tiLaunch :: EventCoordinates
  tiGraduationBlock :: "int option"

definition sql_ListTokenIdentities :: "int \<Rightarrow> 'm db \<Rightarrow> idx_error + token_row list \<times> 'm db" where
  "sql_ListTokenIdentities chainID d =
     Inr (sort_key (\<lambda>r. tlToken (trLaunched r)) (filter (\<lambda>r. trChainID r = chainID) (dbTokens d)), d)"

definition identity_of :: "int \<Rightarrow> token_row \<Rightarrow> TokenIdentity" where
  "identity_of chainID r = \<lparr>tiToken = tlToken (trLaunched r), tiCurve = tlCurve (trLaunched r),
     tiPair = tlLPPair (trLaunched r), tiEngineVersion = tlEngineVersion (trLaunched r),
     tiLaunch = \<lparr>ecChainID = chainID, ecBlockNumber = ecBlockNumber (trLaunch r),
        ecBlockHash = ecBlockHash (trLaunch r), ecBlockTime = ecBlockTime (trLaunch r),
        ecTransactionIndex = 0, ecTxHash = 0, ecLogIndex = 0\<rparr>,
     tiGraduationBlock = None\<rparr>"

definition TokenIdentities :: "'m db_env \<Rightarrow> int \<Rightarrow> ('m, TokenIdentity list) io" where
  "TokenIdentities env chainID =
     iobind (statement env (sql_ListTokenIdentities chainID)) (\<lambda>rows. ret (map (identity_of chainID) rows))"

section \<open>Reorg recovery\<close>

definition sql_FindCommonAncestor :: "int \<Rightarrow> Hash list \<Rightarrow> 'm db \<Rightarrow> idx_error + IndexedBlock \<times> 'm db" where
  "sql_FindCommonAncestor chainID candidates d =
     (case sort_key (\<lambda>b. - ibBlockNumber b)
         (filter (\<lambda>b. ibChainID b = chainID \<and> ibBlockHash b \<in> set candidates) (dbBlocks d)) of
        [] \<Rightarrow> Inl NoRows | b # _ \<Rightarrow> Inr (b, d))"

text \<open>The returned block carries only its number and hash.\<close>

definition FindCommonAncestor :: "'m db_env \<Rightarrow> int \<Rightarrow> Hash list \<Rightarrow> ('m, IndexedBlock) io" where
  "FindCommonAncestor env chainID candidates =
     iobind (statement env (sql_FindCommonAncestor chainID candidates)) (\<lambda>row.
     ret \<lparr>ibChainID = chainID, ibBlockNumber = ibBlockNumber row, ibBlockHash = ibBlockHash row,
       ibParentHash = 0, ibBlockTime = zero_time, ibFinalityStatus = []\<rparr>)"

datatype ledger_table =
    TTokenLaunches | TTrades | TGraduations | TCreatorFeeClaims | TProtocolFeeClaims | TLaunchFeeClaims
  | TRefundCredits | TRefundClaims | TTransfers | TPoolMints | TPoolBurns | TPoolSwaps | TPoolSyncs
  | TLaunchPauseEvents | TTradingPauseEvents | TEngineConfigurations | TFutureDefaultsConfigurations
  | TFutureTreasuryConfigurations

definition table_of :: "ledger_payload \<Rightarrow> ledger_table" where
  "table_of p = (case p of
      LTokenLaunch _ \<Rightarrow> TTokenLaunches | LTrade _ _ _ _ _ _ _ _ _ _ \<Rightarrow> TTrades
    | LGraduation _ _ _ _ _ \<Rightarrow> TGraduations | LCreatorFeeClaim _ _ _ \<Rightarrow> TCreatorFeeClaims
    | LProtocolFeeClaim _ _ _ \<Rightarrow> TProtocolFeeClaims | LLaunchFeeClaim _ _ \<Rightarrow> TLaunchFeeClaims
    | LRefundCredit _ _ _ \<Rightarrow> TRefundCredits | LRefundClaim _ _ _ \<Rightarrow> TRefundClaims
    | LTransfer _ _ _ _ \<Rightarrow> TTransfers | LPoolMint _ _ _ _ \<Rightarrow> TPoolMints | LPoolBurn _ _ _ _ _ \<Rightarrow> TPoolBurns
    | LPoolSwap _ _ _ _ _ _ _ \<Rightarrow> TPoolSwaps | LPoolSync _ _ _ \<Rightarrow> TPoolSyncs
    | LLaunchPause _ \<Rightarrow> TLaunchPauseEvents | LTradingPause _ \<Rightarrow> TTradingPauseEvents
    | LEngineConfiguration _ _ _ \<Rightarrow> TEngineConfigurations
    | LFutureDefaultsConfiguration _ \<Rightarrow> TFutureDefaultsConfigurations
    | LFutureTreasuryConfiguration _ _ \<Rightarrow> TFutureTreasuryConfigurations)"

definition event_token :: "ledger_payload \<Rightarrow> Address option" where
  "event_token p = (case p of
      LTokenLaunch l \<Rightarrow> Some (tlToken l) | LTrade t _ _ _ _ _ _ _ _ _ \<Rightarrow> Some t
    | LGraduation t _ _ _ _ \<Rightarrow> Some t | LCreatorFeeClaim t _ _ \<Rightarrow> Some t | LProtocolFeeClaim t _ _ \<Rightarrow> Some t
    | LRefundCredit t _ _ \<Rightarrow> Some t | LRefundClaim t _ _ \<Rightarrow> Some t | LTransfer t _ _ _ \<Rightarrow> Some t | _ \<Rightarrow> None)"

definition event_pair :: "ledger_payload \<Rightarrow> Address option" where
  "event_pair p = (case p of
      LPoolMint a _ _ _ \<Rightarrow> Some a | LPoolBurn a _ _ _ _ \<Rightarrow> Some a | LPoolSwap a _ _ _ _ _ _ \<Rightarrow> Some a
    | LPoolSync a _ _ \<Rightarrow> Some a | _ \<Rightarrow> None)"

definition event_above :: "int \<Rightarrow> int \<Rightarrow> ledger_event \<Rightarrow> bool" where
  "event_above chainID n e \<longleftrightarrow> ecChainID (leCoordinates e) = chainID \<and> n < ecBlockNumber (leCoordinates e)"

definition sql_AffectedTokensAbove :: "int \<Rightarrow> int \<Rightarrow> 'm db \<Rightarrow> idx_error + Address list \<times> 'm db" where
  "sql_AffectedTokensAbove chainID ancestor d =
     (let above = filter (event_above chainID ancestor) (dbEvents d);
          direct = List.map_filter (\<lambda>e. event_token (lePayload e)) above;
          pairs = List.map_filter (\<lambda>e. event_pair (lePayload e)) above;
          paired = map (\<lambda>r. tlToken (trLaunched r))
            (filter (\<lambda>r. trChainID r = chainID \<and> tlLPPair (trLaunched r) \<in> set pairs) (dbTokens d))
      in Inr (sort (remdups (direct @ paired)), d))"

definition AffectedTokensAbove :: "'m db_env \<Rightarrow> int \<Rightarrow> int \<Rightarrow> ('m, Address list) io" where
  "AffectedTokensAbove env chainID ancestor = statement env (sql_AffectedTokensAbove chainID ancestor)"

definition sql_DeleteAbove :: "ledger_table \<Rightarrow> int \<Rightarrow> int \<Rightarrow> 'm db \<Rightarrow> idx_error + unit \<times> 'm db" where
  "sql_DeleteAbove table chainID n d =
     Inr ((), d\<lparr>dbEvents := filter (\<lambda>e. \<not> (table_of (lePayload e) = table \<and> event_above chainID n e)) (dbEvents d)\<rparr>)"

definition sql_DeleteIndexedBlocksAbove :: "int \<Rightarrow> int \<Rightarrow> 'm db \<Rightarrow> idx_error + unit \<times> 'm db" where
  "sql_DeleteIndexedBlocksAbove chainID n d =
     Inr ((), d\<lparr>dbBlocks := filter (\<lambda>b. \<not> (ibChainID b = chainID \<and> n < ibBlockNumber b)) (dbBlocks d)\<rparr>)"

definition delete_order :: "ledger_table list" where
  "delete_order = [TCreatorFeeClaims, TProtocolFeeClaims, TLaunchFeeClaims, TRefundCredits, TRefundClaims,
     TTransfers, TPoolMints, TPoolBurns, TPoolSwaps, TPoolSyncs, TLaunchPauseEvents, TTradingPauseEvents,
     TEngineConfigurations, TFutureDefaultsConfigurations, TFutureTreasuryConfigurations, TGraduations,
     TTrades, TTokenLaunches]"

definition DeleteCanonicalAbove :: "'m db_env \<Rightarrow> int \<Rightarrow> int \<Rightarrow> ('m, unit) io" where
  "DeleteCanonicalAbove env chainID ancestor =
     iobind (iter (\<lambda>table. statement env (sql_DeleteAbove table chainID ancestor)) delete_order) (\<lambda>_.
     statement env (sql_DeleteIndexedBlocksAbove chainID ancestor))"

definition sql_RecordIndexerReorg :: "ReorgRecord \<Rightarrow> 'm db \<Rightarrow> idx_error + int \<times> 'm db" where
  "sql_RecordIndexerReorg r d =
     (if rrChainID r \<le> 0 \<or> rrDetectedTipNumber r < 0 \<or> rrCommonAncestorNumber r < 0 \<or> rrDepth r \<le> 0
      then Inl CheckViolation
      else let n = dbReorgSeq d + 1 in
        Inr (n, d\<lparr>dbReorgs := dbReorgs d @ [\<lparr>roID = n, roRecord = r, roRecovered = False\<rparr>], dbReorgSeq := n\<rparr>))"

definition sql_CompleteIndexerReorg :: "int \<Rightarrow> 'm db \<Rightarrow> idx_error + ReorgRecord \<times> 'm db" where
  "sql_CompleteIndexerReorg n d =
     (case List.find (\<lambda>r. roID r = n \<and> \<not> roRecovered r) (dbReorgs d) of
        None \<Rightarrow> Inl NoRows
      | Some row \<Rightarrow> Inr (roRecord row,
          d\<lparr>dbReorgs := map (\<lambda>r. if roID r = n then r\<lparr>roRecovered := True\<rparr> else r) (dbReorgs d)\<rparr>))"

definition RecordReorg :: "'m db_env \<Rightarrow> ReorgRecord \<Rightarrow> ('m, int) io" where
  "RecordReorg env record = statement env (sql_RecordIndexerReorg record)"

definition CompleteReorg :: "'m db_env \<Rightarrow> int \<Rightarrow> ('m, unit) io" where
  "CompleteReorg env n = iobind (statement env (sql_CompleteIndexerReorg n)) (\<lambda>_. ret ())"

section \<open>Aggregation work queue\<close>

definition dirty_key :: "int \<Rightarrow> Address \<Rightarrow> dirty_row \<Rightarrow> bool" where
  "dirty_key chainID token r \<longleftrightarrow> adChainID r = chainID \<and> adToken r = token"

text \<open>The sequence is drawn once for the insert and once more when the row exists already.\<close>

definition mark_dirty :: "int \<Rightarrow> Address \<Rightarrow> 'm db \<Rightarrow> 'm db" where
  "mark_dirty chainID token d =
     (if list_ex (dirty_key chainID token) (dbDirty d)
      then d\<lparr>dbDirty := map (\<lambda>r. if dirty_key chainID token r then r\<lparr>adGeneration := dbDirtySeq d + 2\<rparr> else r) (dbDirty d),
             dbDirtySeq := dbDirtySeq d + 2\<rparr>
      else d\<lparr>dbDirty := dbDirty d @ [\<lparr>adChainID = chainID, adToken = token, adGeneration = dbDirtySeq d + 1,
               adClaim = None\<rparr>], dbDirtySeq := dbDirtySeq d + 1\<rparr>)"

definition sql_MarkTokenDirty :: "int \<Rightarrow> Address \<Rightarrow> 'm db \<Rightarrow> idx_error + unit \<times> 'm db" where
  "sql_MarkTokenDirty chainID token d = Inr ((), mark_dirty chainID token d)"

definition sql_MarkPairTokenDirty :: "int \<Rightarrow> Address \<Rightarrow> 'm db \<Rightarrow> idx_error + unit \<times> 'm db" where
  "sql_MarkPairTokenDirty chainID pair d =
     Inr ((), fold (\<lambda>r d. mark_dirty chainID (tlToken (trLaunched r)) d)
       (filter (\<lambda>r. trChainID r = chainID \<and> tlLPPair (trLaunched r) = pair) (dbTokens d)) d)"

definition markTokenDirty :: "'m db_env \<Rightarrow> int \<Rightarrow> Address \<Rightarrow> ('m, unit) io" where
  "markTokenDirty env chainID token = statement env (sql_MarkTokenDirty chainID token)"

definition markPairTokenDirty :: "'m db_env \<Rightarrow> int \<Rightarrow> Address \<Rightarrow> ('m, unit) io" where
  "markPairTokenDirty env chainID pair = statement env (sql_MarkPairTokenDirty chainID pair)"

definition claimable :: "int \<Rightarrow> dirty_row \<Rightarrow> bool" where
  "claimable now r = (case adClaim r of None \<Rightarrow> True
     | Some (generation, claimedAt, _) \<Rightarrow> generation < adGeneration r \<or> claimedAt < now - 30)"

definition claim_candidates :: "int \<Rightarrow> nat \<Rightarrow> 'm db \<Rightarrow> dirty_row list" where
  "claim_candidates now batchSize d =
     take batchSize (sort_key adGeneration (sort_key adChainID (sort_key adToken
       (filter (claimable now) (dbDirty d)))))"

record DirtyClaim =
  dcChainID :: int
  dcTokenAddress :: Address
  dcClaimedGeneration :: int

definition sql_ClaimAggregationDirty :: "string \<Rightarrow> nat \<Rightarrow> int \<Rightarrow> 'm db \<Rightarrow> idx_error + DirtyClaim list \<times> 'm db" where
  "sql_ClaimAggregationDirty workerID batchSize now d =
     (let candidates = claim_candidates now batchSize d in
      Inr (map (\<lambda>r. \<lparr>dcChainID = adChainID r, dcTokenAddress = adToken r, dcClaimedGeneration = adGeneration r\<rparr>) candidates,
        d\<lparr>dbDirty := map (\<lambda>r. if list_ex (dirty_key (adChainID r) (adToken r)) candidates
           then r\<lparr>adClaim := Some (adGeneration r, now, workerID)\<rparr> else r) (dbDirty d)\<rparr>))"

definition ClaimAggregationDirty :: "'m db_env \<Rightarrow> string \<Rightarrow> nat \<Rightarrow> ('m, DirtyClaim list) io" where
  "ClaimAggregationDirty env workerID batchSize w =
     statement env (sql_ClaimAggregationDirty workerID batchSize (envNow env (wTick w))) w"

definition completes :: "DirtyClaim \<Rightarrow> string \<Rightarrow> dirty_row \<Rightarrow> bool" where
  "completes claim workerID r \<longleftrightarrow> dirty_key (dcChainID claim) (dcTokenAddress claim) r
     \<and> adGeneration r = dcClaimedGeneration claim
     \<and> (case adClaim r of None \<Rightarrow> False | Some (generation, _, by_worker) \<Rightarrow>
          generation = dcClaimedGeneration claim \<and> by_worker = workerID)"

definition sql_CompleteAggregationDirty :: "DirtyClaim \<Rightarrow> string \<Rightarrow> 'm db \<Rightarrow> idx_error + nat \<times> 'm db" where
  "sql_CompleteAggregationDirty claim workerID d =
     Inr (length (filter (completes claim workerID) (dbDirty d)),
       d\<lparr>dbDirty := filter (\<lambda>r. \<not> completes claim workerID r) (dbDirty d)\<rparr>)"

definition CompleteAggregationDirty :: "'m db_env \<Rightarrow> DirtyClaim \<Rightarrow> string \<Rightarrow> ('m, bool) io" where
  "CompleteAggregationDirty env claim workerID =
     iobind (statement env (sql_CompleteAggregationDirty claim workerID)) (\<lambda>rows. ret (rows = 1))"

section \<open>Rebuilding projections\<close>

definition event_identity :: "ledger_table \<Rightarrow> int \<Rightarrow> Hash \<Rightarrow> int \<Rightarrow> ledger_event \<Rightarrow> bool" where
  "event_identity table chainID txHash logIndex e \<longleftrightarrow> table_of (lePayload e) = table
     \<and> ecChainID (leCoordinates e) = chainID \<and> ecTxHash (leCoordinates e) = txHash
     \<and> ecLogIndex (leCoordinates e) = logIndex"

definition token_key :: "int \<Rightarrow> Address \<Rightarrow> token_row \<Rightarrow> bool" where
  "token_key chainID token r \<longleftrightarrow> trChainID r = chainID \<and> tlToken (trLaunched r) = token"

definition launch_event :: "int \<Rightarrow> Address \<Rightarrow> ledger_event \<Rightarrow> bool" where
  "launch_event chainID token e \<longleftrightarrow> table_of (lePayload e) = TTokenLaunches
     \<and> ecChainID (leCoordinates e) = chainID \<and> event_token (lePayload e) = Some token"

definition latest_graduation :: "int \<Rightarrow> Address \<Rightarrow> 'm db \<Rightarrow> EventCoordinates option" where
  "latest_graduation chainID token d =
     (case rev (sort_key (\<lambda>c. ecBlockNumber c) (sort_key ecTransactionIndex (sort_key ecLogIndex
         (map leCoordinates (filter (\<lambda>e. table_of (lePayload e) = TGraduations
            \<and> ecChainID (leCoordinates e) = chainID \<and> event_token (lePayload e) = Some token) (dbEvents d)))))) of
        [] \<Rightarrow> None | c # _ \<Rightarrow> Some c)"

text \<open>
  \<open>rebuild_token_projections\<close>: the token row is replaced by the one its launch and latest
  graduation give, the market tables by what the parameter computes, and the token is marked.
\<close>

definition sql_RebuildTokenProjections :: "'m market_sql \<Rightarrow> int \<Rightarrow> Address \<Rightarrow> 'm db \<Rightarrow> idx_error + unit \<times> 'm db" where
  "sql_RebuildTokenProjections sql chainID token d =
     (case List.find (launch_event chainID token) (dbEvents d) of
        Some e \<Rightarrow>
          (case lePayload e of
             LTokenLaunch l \<Rightarrow>
               let row = \<lparr>trChainID = chainID, trLaunch = leCoordinates e, trLaunched = l,
                     trGraduation = latest_graduation chainID token d\<rparr>;
                   d1 = d\<lparr>dbTokens := row # filter (\<lambda>r. \<not> token_key chainID token r) (dbTokens d)\<rparr>
               in Inr ((), mark_dirty chainID token (d1\<lparr>dbMarket := sqlRebuild sql chainID token d1\<rparr>))
           | _ \<Rightarrow> Inl QueryFailed)
      | None \<Rightarrow> Inl QueryFailed)"

definition sql_ClearOrphanProjections :: "'m market_sql \<Rightarrow> int \<Rightarrow> Address \<Rightarrow> 'm db \<Rightarrow> idx_error + unit \<times> 'm db" where
  "sql_ClearOrphanProjections sql chainID token d =
     Inr ((), d\<lparr>dbTokens := filter (\<lambda>r. \<not> token_key chainID token r) (dbTokens d),
       dbDirty := filter (\<lambda>r. \<not> dirty_key chainID token r) (dbDirty d),
       dbMarket := sqlClearOrphan sql chainID token d\<rparr>)"

definition sql_HasCanonicalLaunch :: "int \<Rightarrow> Address \<Rightarrow> 'm db \<Rightarrow> idx_error + bool \<times> 'm db" where
  "sql_HasCanonicalLaunch chainID token d = Inr (list_ex (launch_event chainID token) (dbEvents d), d)"

definition RebuildTokenProjections :: "'m db_env \<Rightarrow> int \<Rightarrow> Address \<Rightarrow> ('m, unit) io" where
  "RebuildTokenProjections env chainID token =
     iobind (statement env (sql_HasCanonicalLaunch chainID token)) (\<lambda>exists.
     if \<not> exists then statement env (sql_ClearOrphanProjections (envMarket env) chainID token)
     else statement env (sql_RebuildTokenProjections (envMarket env) chainID token))"

text \<open>A statement that writes market tables only.\<close>

definition market_statement :: "'m db_env \<Rightarrow> ('m db \<Rightarrow> 'm) \<Rightarrow> ('m, unit) io" where
  "market_statement env f = statement env (\<lambda>d. Inr ((), d\<lparr>dbMarket := f d\<rparr>))"

definition DeleteTokenStats :: "'m db_env \<Rightarrow> int \<Rightarrow> Address \<Rightarrow> ('m, unit) io" where
  "DeleteTokenStats env chainID token = market_statement env (sqlDeleteTokenStats (envMarket env) chainID token)"

definition RecomputeTokenStats :: "'m db_env \<Rightarrow> int \<Rightarrow> Address \<Rightarrow> ('m, unit) io" where
  "RecomputeTokenStats env chainID token = market_statement env (sqlRecomputeTokenStats (envMarket env) chainID token)"

definition recomputeProtocolAggregates :: "'m db_env \<Rightarrow> int \<Rightarrow> ('m, unit) io" where
  "recomputeProtocolAggregates env chainID =
     iobind (market_statement env (sqlClearProtocolDaily (envMarket env) chainID)) (\<lambda>_.
     iobind (market_statement env (sqlRecomputeProtocolDaily (envMarket env) chainID)) (\<lambda>_.
     market_statement env (sqlRecomputeProtocolStats (envMarket env) chainID)))"

text \<open>Outside a transaction the refresh opens its own; inside one it joins it.\<close>

definition RecomputeProtocolAggregates :: "bool \<Rightarrow> 'm db_env \<Rightarrow> int \<Rightarrow> ('m, unit) io" where
  "RecomputeProtocolAggregates hasBeginner env chainID =
     (if hasBeginner then WithinTx env (recomputeProtocolAggregates env chainID)
      else recomputeProtocolAggregates env chainID)"

section \<open>Reasoning about effects\<close>

text \<open>
  \<open>triple P m Q\<close>: from tables satisfying \<open>P\<close>, if \<open>m\<close> succeeds with a value then the tables it
  leaves satisfy \<open>Q\<close> of that value. What a failing body leaves is rolled back.
\<close>

definition triple :: "('m db \<Rightarrow> bool) \<Rightarrow> ('m, 'a) io \<Rightarrow> ('a \<Rightarrow> 'm db \<Rightarrow> bool) \<Rightarrow> bool" where
  "triple P m Q \<longleftrightarrow> (\<forall>w a w'. P (wDb w) \<longrightarrow> m w = (Inr a, w') \<longrightarrow> Q a (wDb w'))"

named_theorems io_rule \<open>rules for success triples\<close>

lemma ret_eq: "ret a w = (Inr a, w)"
  by (simp add: ret_def)

lemma raise_eq: "raise e w = (Inl e, w)"
  by (simp add: raise_def)

lemma iobind_eq_Inr:
  "iobind m f w = (Inr b, w'') \<longleftrightarrow> (\<exists>a w'. m w = (Inr a, w') \<and> f a w' = (Inr b, w''))"
  by (auto simp: iobind_def split: prod.splits sum.splits)

lemma iobind_eq_Inl:
  "iobind m f w = (Inl e, w'') \<longleftrightarrow>
     m w = (Inl e, w'') \<or> (\<exists>a w'. m w = (Inr a, w') \<and> f a w' = (Inl e, w''))"
  by (auto simp: iobind_def split: prod.splits sum.splits)

lemma wDb_tick [simp]: "wDb (tick w) = wDb w" "wOwnerDead (tick w) = wOwnerDead w" "wTick (tick w) = Suc (wTick w)"
  by (simp_all add: tick_def)

lemma statement_Inr:
  "statement env q w = (Inr a, w') \<longleftrightarrow>
     \<not> envFails env (wTick w) \<and> (\<exists>d. q (wDb w) = Inr (a, d) \<and> w' = (tick w)\<lparr>wDb := d\<rparr>)"
  by (auto simp: statement_def split: sum.splits)

lemma triple_ret [io_rule]: "(\<And>d. P d \<Longrightarrow> Q a d) \<Longrightarrow> triple P (ret a) Q"
  by (simp add: triple_def ret_eq)

lemma triple_raise [io_rule]: "triple P (raise e) Q"
  by (simp add: triple_def raise_eq)

lemma triple_lift [io_rule]: "(\<And>a d. r = Inr a \<Longrightarrow> P d \<Longrightarrow> Q a d) \<Longrightarrow> triple P (lift_result r) Q"
  by (auto simp: triple_def lift_result_def)

lemma triple_bind: "triple P m R \<Longrightarrow> (\<And>a. triple (R a) (f a) Q) \<Longrightarrow> triple P (iobind m f) Q"
  unfolding triple_def iobind_eq_Inr by blast

lemma triple_statement [io_rule]:
  "(\<And>d a d'. P d \<Longrightarrow> q d = Inr (a, d') \<Longrightarrow> Q a d') \<Longrightarrow> triple P (statement env q) Q"
  by (auto simp: triple_def statement_Inr)

lemma triple_iter [io_rule]:
  "(\<And>x. x \<in> set xs \<Longrightarrow> triple I (f x) (\<lambda>_. I)) \<Longrightarrow> triple I (iter f xs) (\<lambda>_. I)"
  by (induction xs) (auto intro!: triple_bind[where R = "\<lambda>_. I"] triple_ret)

lemma triple_on_error [io_rule]: "triple P m Q \<Longrightarrow> triple P (on_error g m) Q"
  by (auto simp: triple_def on_error_def split: prod.splits sum.splits)

lemma triple_conseq: "triple P m Q \<Longrightarrow> (\<And>d. P' d \<Longrightarrow> P d) \<Longrightarrow> (\<And>a d. Q a d \<Longrightarrow> Q' a d) \<Longrightarrow> triple P' m Q'"
  unfolding triple_def by blast

lemma triple_market [io_rule]:
  "(\<And>d m. P d \<Longrightarrow> Q () (d\<lparr>dbMarket := m\<rparr>)) \<Longrightarrow> triple P (market_statement env f) Q"
  by (auto simp: market_statement_def intro!: triple_statement)

text \<open>
  The contract a client of a transactional store relies on: a failing transaction leaves the
  tables as they were, unless its commit was sent and not acknowledged, and then they are either
  untouched or exactly what the body left; a succeeding one leaves what the body left.
\<close>

definition atomic_outcome :: "('m, 'a) io \<Rightarrow> 'm world \<Rightarrow> (idx_error + 'a) \<Rightarrow> 'm world \<Rightarrow> bool" where
  "atomic_outcome body w r w' \<longleftrightarrow>
     (case r of
        Inr a \<Rightarrow> \<exists>w1 w2. wDb w1 = wDb w \<and> body w1 = (Inr a, w2) \<and> wDb w' = wDb w2
      | Inl e \<Rightarrow> wDb w' = wDb w
          \<or> (e = CommitUnknown \<and> (\<exists>a w1 w2. wDb w1 = wDb w \<and> body w1 = (Inr a, w2) \<and> wDb w' = wDb w2)))"

locale transactional =
  fixes run :: "('m, 'a) io \<Rightarrow> ('m, 'a) io"
  assumes atomic: "run body w = (r, w') \<Longrightarrow> atomic_outcome body w r w'"
begin

lemma run_success:
  assumes "run body w = (Inr a, w')" "triple P body Q" "P (wDb w)"
  shows "Q a (wDb w')"
proof -
  obtain w1 w2 where "wDb w1 = wDb w" "body w1 = (Inr a, w2)" "wDb w' = wDb w2"
    using atomic[OF assms(1)] by (auto simp: atomic_outcome_def)
  then show ?thesis using assms(2,3) unfolding triple_def by metis
qed

lemma run_any:
  assumes "run body w = (r, w')" "triple P body Q" "P (wDb w)"
  shows "wDb w' = wDb w \<or> (\<exists>a. Q a (wDb w'))"
proof (cases r)
  case (Inr a)
  then show ?thesis using run_success[of body w a w' P Q] assms by blast
next
  case (Inl e)
  then have "wDb w' = wDb w \<or> (\<exists>a w1 w2. wDb w1 = wDb w \<and> body w1 = (Inr a, w2) \<and> wDb w' = wDb w2)"
    using atomic[OF assms(1)] by (auto simp: atomic_outcome_def)
  then show ?thesis using assms(2,3) unfolding triple_def by metis
qed

lemma run_error:
  assumes "run body w = (Inl e, w')" "e \<noteq> CommitUnknown"
  shows "wDb w' = wDb w"
  using atomic[OF assms(1)] assms(2) by (auto simp: atomic_outcome_def)

text \<open>A body that only reads leaves the tables alone whatever its outcome.\<close>

lemma run_read_only:
  assumes "run body w = (r, w')" "\<And>w1 r1 w2. body w1 = (r1, w2) \<Longrightarrow> wDb w2 = wDb w1"
  shows "wDb w' = wDb w"
  using atomic[OF assms(1)] assms(2) by (cases r) (auto simp: atomic_outcome_def)

end

lemma WithinTx_atomic: "WithinTx env body w = (r, w') \<Longrightarrow> atomic_outcome body w r w'"
proof -
  assume a: "WithinTx env body w = (r, w')"
  show ?thesis
  proof (cases "body (tick w)")
    case (Pair r1 w1)
    then show ?thesis using a
      by (cases r1) (auto simp: WithinTx_def atomic_outcome_def rollbackTo_def split: if_splits commit_outcome.splits,
        (metis wDb_tick(1))+)
  qed
qed

interpretation plain_tx: transactional "WithinTx env" for env
  by unfold_locales (rule WithinTx_atomic)

lemma Owner_WithinTx_atomic: "Owner_WithinTx env body w = (r, w') \<Longrightarrow> atomic_outcome body w r w'"
proof (cases "wOwnerDead w")
  case None
  assume a: "Owner_WithinTx env body w = (r, w')"
  obtain r1 w1 where r: "WithinTx env body w = (r1, w1)" by fastforce
  then have "r = r1" "wDb w' = wDb w1" using a None by (auto simp: Owner_WithinTx_def split: if_splits)
  then show ?thesis using WithinTx_atomic[OF r] by (cases r1) (simp_all add: atomic_outcome_def)
next
  case (Some e)
  assume "Owner_WithinTx env body w = (r, w')"
  then show ?thesis using Some by (auto simp: Owner_WithinTx_def atomic_outcome_def)
qed

interpretation owned_tx: transactional "Owner_WithinTx env" for env
  by unfold_locales (rule Owner_WithinTx_atomic)

interpretation store_tx: transactional "Transaction owned env" for owned env
  by unfold_locales (auto simp: Transaction_def WithinTx_atomic Owner_WithinTx_atomic split: if_splits)

end
