(* ===== verification/Ledger_Ingest.thy ===== *)
theory Ledger_Ingest
  imports Ledger_Store
begin

text \<open>
  Writing canonical events: the parameter conversions of \<^verbatim>\<open>store/postgres/convert.go\<close> with their
  256-bit range checks, the idempotent inserts and the ingest operations of \<^verbatim>\<open>adapter.go\<close>, one per
  event kind. An insert returns whether a new row was written; replaying an identical event changes
  nothing, replaying a different one under the same key is a conflict.
\<close>

section \<open>Parameter conversions\<close>

definition uint256 :: "string \<Rightarrow> bigptr \<Rightarrow> idx_error + bigptr" where
  "uint256 name value = (case value of
     None \<Rightarrow> Inl (AmountInvalid name)
   | Some v \<Rightarrow> (if v < 0 \<or> v \<ge> 2 ^ 256 then Inl (AmountInvalid name) else Inr (Some v)))"

definition tradeParams ::
    "EventCoordinates \<Rightarrow> Address \<Rightarrow> Address \<Rightarrow> bool \<Rightarrow> bigptr \<Rightarrow> bigptr \<Rightarrow> bigptr \<Rightarrow> bigptr \<Rightarrow> bigptr \<Rightarrow> bigptr
     \<Rightarrow> bigptr \<Rightarrow> idx_error + ledger_event" where
  "tradeParams c token trader isBuy gross ref amount pf cf er tr =
     rbind (uint256 ''trade eth gross'' gross) (\<lambda>gross.
     rbind (uint256 ''trade eth refund'' ref) (\<lambda>ref.
     rbind (uint256 ''trade token amount'' amount) (\<lambda>amount.
     rbind (uint256 ''trade protocol fee'' pf) (\<lambda>pf.
     rbind (uint256 ''trade creator fee'' cf) (\<lambda>cf.
     rbind (uint256 ''trade new ETH reserve'' er) (\<lambda>er.
     rbind (uint256 ''trade new token reserve'' tr) (\<lambda>tr.
     Inr \<lparr>leCoordinates = c, lePayload = LTrade token trader isBuy gross ref amount pf cf er tr\<rparr>)))))))"

definition launchPauseParams :: "EventCoordinates \<Rightarrow> bool \<Rightarrow> ledger_event" where
  "launchPauseParams c paused = \<lparr>leCoordinates = c, lePayload = LLaunchPause paused\<rparr>"

definition tokenLaunchParams :: "EventCoordinates \<Rightarrow> TokenLaunched \<Rightarrow> idx_error + ledger_event" where
  "tokenLaunchParams c l =
     rbind (rtraverse (uint256 ''token launch amount'') [tlTotalSupply l, tlVirtualETH l, tlVirtualToken l,
        tlCurveTokens l, tlLPTokens l, tlGraduationETH l, tlLaunchFeePaid l]) (\<lambda>v.
     Inr \<lparr>leCoordinates = c, lePayload = LTokenLaunch (l\<lparr>tlTotalSupply := v ! 0, tlVirtualETH := v ! 1,
        tlVirtualToken := v ! 2, tlCurveTokens := v ! 3, tlLPTokens := v ! 4, tlGraduationETH := v ! 5,
        tlLaunchFeePaid := v ! 6\<rparr>)\<rparr>)"

definition graduationParams ::
    "EventCoordinates \<Rightarrow> Address \<Rightarrow> Address \<Rightarrow> bigptr \<Rightarrow> bigptr \<Rightarrow> bigptr \<Rightarrow> idx_error + ledger_event" where
  "graduationParams c token pair eth tokens lp =
     rbind (uint256 ''graduation ETH to pool'' eth) (\<lambda>eth.
     rbind (uint256 ''graduation tokens to pool'' tokens) (\<lambda>tokens.
     rbind (uint256 ''graduation LP burned'' lp) (\<lambda>lp.
     Inr \<lparr>leCoordinates = c, lePayload = LGraduation token pair eth tokens lp\<rparr>)))"

definition creatorFeeClaimParams :: "EventCoordinates \<Rightarrow> Address \<Rightarrow> Address \<Rightarrow> bigptr \<Rightarrow> idx_error + ledger_event" where
  "creatorFeeClaimParams c token creator amount =
     rbind (uint256 ''creator fee claim amount'' amount) (\<lambda>amount.
     Inr \<lparr>leCoordinates = c, lePayload = LCreatorFeeClaim token creator amount\<rparr>)"

definition protocolFeeClaimParams :: "EventCoordinates \<Rightarrow> Address \<Rightarrow> Address \<Rightarrow> bigptr \<Rightarrow> idx_error + ledger_event" where
  "protocolFeeClaimParams c token treasury amount =
     rbind (uint256 ''protocol fee claim amount'' amount) (\<lambda>amount.
     Inr \<lparr>leCoordinates = c, lePayload = LProtocolFeeClaim token treasury amount\<rparr>)"

definition launchFeeClaimParams :: "EventCoordinates \<Rightarrow> Address \<Rightarrow> bigptr \<Rightarrow> idx_error + ledger_event" where
  "launchFeeClaimParams c treasury amount =
     rbind (uint256 ''launch fee claim amount'' amount) (\<lambda>amount.
     Inr \<lparr>leCoordinates = c, lePayload = LLaunchFeeClaim treasury amount\<rparr>)"

definition refundCreditParams :: "EventCoordinates \<Rightarrow> Address \<Rightarrow> Address \<Rightarrow> bigptr \<Rightarrow> idx_error + ledger_event" where
  "refundCreditParams c token account amount =
     rbind (uint256 ''refund credit amount'' amount) (\<lambda>amount.
     Inr \<lparr>leCoordinates = c, lePayload = LRefundCredit token account amount\<rparr>)"

definition refundClaimParams :: "EventCoordinates \<Rightarrow> Address \<Rightarrow> Address \<Rightarrow> bigptr \<Rightarrow> idx_error + ledger_event" where
  "refundClaimParams c token account amount =
     rbind (uint256 ''refund claim amount'' amount) (\<lambda>amount.
     Inr \<lparr>leCoordinates = c, lePayload = LRefundClaim token account amount\<rparr>)"

definition transferParams :: "EventCoordinates \<Rightarrow> Address \<Rightarrow> Address \<Rightarrow> Address \<Rightarrow> bigptr \<Rightarrow> idx_error + ledger_event" where
  "transferParams c token sender to value =
     rbind (uint256 ''transfer value'' value) (\<lambda>value.
     Inr \<lparr>leCoordinates = c, lePayload = LTransfer token sender to value\<rparr>)"

definition poolMintParams :: "EventCoordinates \<Rightarrow> Address \<Rightarrow> Address \<Rightarrow> bigptr \<Rightarrow> bigptr \<Rightarrow> idx_error + ledger_event" where
  "poolMintParams c pair sender a0 a1 =
     rbind (uint256 ''pool mint amount0'' a0) (\<lambda>a0. rbind (uint256 ''pool mint amount1'' a1) (\<lambda>a1.
     Inr \<lparr>leCoordinates = c, lePayload = LPoolMint pair sender a0 a1\<rparr>))"

definition poolBurnParams ::
    "EventCoordinates \<Rightarrow> Address \<Rightarrow> Address \<Rightarrow> bigptr \<Rightarrow> bigptr \<Rightarrow> Address \<Rightarrow> idx_error + ledger_event" where
  "poolBurnParams c pair sender a0 a1 to =
     rbind (uint256 ''pool burn amount0'' a0) (\<lambda>a0. rbind (uint256 ''pool burn amount1'' a1) (\<lambda>a1.
     Inr \<lparr>leCoordinates = c, lePayload = LPoolBurn pair sender a0 a1 to\<rparr>))"

definition poolSwapParams ::
    "EventCoordinates \<Rightarrow> Address \<Rightarrow> Address \<Rightarrow> bigptr \<Rightarrow> bigptr \<Rightarrow> bigptr \<Rightarrow> bigptr \<Rightarrow> Address \<Rightarrow> idx_error + ledger_event" where
  "poolSwapParams c pair sender i0 i1 o0 o1 to =
     rbind (rtraverse (uint256 ''pool swap amount'') [i0, i1, o0, o1]) (\<lambda>v.
     Inr \<lparr>leCoordinates = c, lePayload = LPoolSwap pair sender (v ! 0) (v ! 1) (v ! 2) (v ! 3) to\<rparr>)"

definition poolSyncParams :: "EventCoordinates \<Rightarrow> Address \<Rightarrow> bigptr \<Rightarrow> bigptr \<Rightarrow> idx_error + ledger_event" where
  "poolSyncParams c pair r0 r1 =
     rbind (uint256 ''pool sync reserve0'' r0) (\<lambda>r0. rbind (uint256 ''pool sync reserve1'' r1) (\<lambda>r1.
     Inr \<lparr>leCoordinates = c, lePayload = LPoolSync pair r0 r1\<rparr>))"

definition tradingPauseParams :: "EventCoordinates \<Rightarrow> bool \<Rightarrow> ledger_event" where
  "tradingPauseParams c paused = \<lparr>leCoordinates = c, lePayload = LTradingPause paused\<rparr>"

definition engineConfigurationParams :: "EventCoordinates \<Rightarrow> 16 word \<Rightarrow> Address \<Rightarrow> bool \<Rightarrow> ledger_event" where
  "engineConfigurationParams c version implementation enabled =
     \<lparr>leCoordinates = c, lePayload = LEngineConfiguration version implementation enabled\<rparr>"

definition futureDefaultsConfigurationParams :: "EventCoordinates \<Rightarrow> Hash \<Rightarrow> ledger_event" where
  "futureDefaultsConfigurationParams c h = \<lparr>leCoordinates = c, lePayload = LFutureDefaultsConfiguration h\<rparr>"

definition futureTreasuryConfigurationParams :: "EventCoordinates \<Rightarrow> Address \<Rightarrow> Address \<Rightarrow> ledger_event" where
  "futureTreasuryConfigurationParams c prev next =
     \<lparr>leCoordinates = c, lePayload = LFutureTreasuryConfiguration prev next\<rparr>"

section \<open>Idempotent inserts\<close>

definition same_identity :: "ledger_event \<Rightarrow> ledger_event \<Rightarrow> bool" where
  "same_identity e = event_identity (table_of (lePayload e)) (ecChainID (leCoordinates e))
     (ecTxHash (leCoordinates e)) (ecLogIndex (leCoordinates e))"

definition event_check :: "ledger_event \<Rightarrow> bool" where
  "event_check e \<longleftrightarrow> 0 < ecChainID (leCoordinates e) \<and> 0 \<le> ecBlockNumber (leCoordinates e)
     \<and> 0 \<le> ecTransactionIndex (leCoordinates e) \<and> 0 \<le> ecLogIndex (leCoordinates e)"

text \<open>
  \<open>INSERT ... ON CONFLICT (chain_id, tx_hash, log_index) DO NOTHING\<close> into the event's table; a
  token has one launch row only, and a second one is a unique violation.
\<close>

definition sql_InsertEvent :: "ledger_event \<Rightarrow> 'm db \<Rightarrow> idx_error + nat \<times> 'm db" where
  "sql_InsertEvent e d =
     (if \<not> event_check e then Inl CheckViolation
      else if list_ex (same_identity e) (dbEvents d) then Inr (0, d)
      else if (case lePayload e of LTokenLaunch l \<Rightarrow>
                 list_ex (launch_event (ecChainID (leCoordinates e)) (tlToken l)) (dbEvents d) | _ \<Rightarrow> False)
      then Inl UniqueViolation
      else Inr (1, d\<lparr>dbEvents := dbEvents d @ [e]\<rparr>))"

definition sql_MatchesEvent :: "ledger_event \<Rightarrow> 'm db \<Rightarrow> idx_error + bool \<times> 'm db" where
  "sql_MatchesEvent e d =
     (case List.find (same_identity e) (dbEvents d) of None \<Rightarrow> Inl NoRows | Some stored \<Rightarrow> Inr (stored = e, d))"

definition insertEvent :: "'m db_env \<Rightarrow> string \<Rightarrow> ledger_event \<Rightarrow> ('m, bool) io" where
  "insertEvent env entity e =
     iobind (statement env (sql_InsertEvent e)) (\<lambda>rows.
     if rows = 1 then ret True
     else iobind (statement env (sql_MatchesEvent e)) (\<lambda>matching.
       if matching then ret False else raise (InvariantConflict entity)))"

text \<open>Convert, then insert.\<close>

definition insertConverted :: "'m db_env \<Rightarrow> string \<Rightarrow> idx_error + ledger_event \<Rightarrow> ('m, bool) io" where
  "insertConverted env entity arg = iobind (lift_result arg) (insertEvent env entity)"

definition InsertTrade where
  "InsertTrade env c token trader isBuy gross ref amount pf cf er tr =
     iobind (lift_result (tradeParams c token trader isBuy gross ref amount pf cf er tr)) (\<lambda>arg.
     iobind (statement env (sql_InsertEvent arg)) (\<lambda>rows.
     if rows = 1 then ret True
     else iobind (statement env (sql_MatchesEvent arg)) (\<lambda>stored.
       if stored then ret False else raise (InvariantConflict ''trade''))))"

definition InsertLaunchPauseEvent :: "'m db_env \<Rightarrow> EventCoordinates \<Rightarrow> bool \<Rightarrow> ('m, bool) io" where
  "InsertLaunchPauseEvent env c paused =
     iobind (statement env (sql_InsertEvent (launchPauseParams c paused))) (\<lambda>rows.
     if rows = 1 then ret True
     else iobind (statement env (sql_MatchesEvent (launchPauseParams c paused))) (\<lambda>stored.
       if stored then ret False else raise (InvariantConflict ''launch_pause_event'')))"

definition InsertTokenLaunch :: "'m db_env \<Rightarrow> EventCoordinates \<Rightarrow> TokenLaunched \<Rightarrow> ('m, bool) io" where
  "InsertTokenLaunch env c l = insertConverted env ''token_launch'' (tokenLaunchParams c l)"

definition InsertGraduation ::
    "'m db_env \<Rightarrow> EventCoordinates \<Rightarrow> Address \<Rightarrow> Address \<Rightarrow> bigptr \<Rightarrow> bigptr \<Rightarrow> bigptr \<Rightarrow> ('m, bool) io" where
  "InsertGraduation env c token pair eth tokens lp =
     insertConverted env ''graduation'' (graduationParams c token pair eth tokens lp)"

definition InsertCreatorFeeClaim :: "'m db_env \<Rightarrow> EventCoordinates \<Rightarrow> Address \<Rightarrow> Address \<Rightarrow> bigptr \<Rightarrow> ('m, bool) io" where
  "InsertCreatorFeeClaim env c token creator amount =
     insertConverted env ''creator_fee_claim'' (creatorFeeClaimParams c token creator amount)"

definition InsertProtocolFeeClaim :: "'m db_env \<Rightarrow> EventCoordinates \<Rightarrow> Address \<Rightarrow> Address \<Rightarrow> bigptr \<Rightarrow> ('m, bool) io" where
  "InsertProtocolFeeClaim env c token treasury amount =
     insertConverted env ''protocol_fee_claim'' (protocolFeeClaimParams c token treasury amount)"

definition InsertLaunchFeeClaim :: "'m db_env \<Rightarrow> EventCoordinates \<Rightarrow> Address \<Rightarrow> bigptr \<Rightarrow> ('m, bool) io" where
  "InsertLaunchFeeClaim env c treasury amount =
     insertConverted env ''launch_fee_claim'' (launchFeeClaimParams c treasury amount)"

definition InsertRefundCredit :: "'m db_env \<Rightarrow> EventCoordinates \<Rightarrow> Address \<Rightarrow> Address \<Rightarrow> bigptr \<Rightarrow> ('m, bool) io" where
  "InsertRefundCredit env c token account amount =
     insertConverted env ''refund_credit'' (refundCreditParams c token account amount)"

definition InsertRefundClaim :: "'m db_env \<Rightarrow> EventCoordinates \<Rightarrow> Address \<Rightarrow> Address \<Rightarrow> bigptr \<Rightarrow> ('m, bool) io" where
  "InsertRefundClaim env c token account amount =
     insertConverted env ''refund_claim'' (refundClaimParams c token account amount)"

definition InsertTransfer :: "'m db_env \<Rightarrow> EventCoordinates \<Rightarrow> Address \<Rightarrow> Address \<Rightarrow> Address \<Rightarrow> bigptr \<Rightarrow> ('m, bool) io" where
  "InsertTransfer env c token sender to value =
     insertConverted env ''transfer'' (transferParams c token sender to value)"

definition InsertPoolMint :: "'m db_env \<Rightarrow> EventCoordinates \<Rightarrow> Address \<Rightarrow> Address \<Rightarrow> bigptr \<Rightarrow> bigptr \<Rightarrow> ('m, bool) io" where
  "InsertPoolMint env c pair sender a0 a1 = insertConverted env ''pool_mint'' (poolMintParams c pair sender a0 a1)"

definition InsertPoolBurn ::
    "'m db_env \<Rightarrow> EventCoordinates \<Rightarrow> Address \<Rightarrow> Address \<Rightarrow> bigptr \<Rightarrow> bigptr \<Rightarrow> Address \<Rightarrow> ('m, bool) io" where
  "InsertPoolBurn env c pair sender a0 a1 to =
     insertConverted env ''pool_burn'' (poolBurnParams c pair sender a0 a1 to)"

definition InsertPoolSwap ::
    "'m db_env \<Rightarrow> EventCoordinates \<Rightarrow> Address \<Rightarrow> Address \<Rightarrow> bigptr \<Rightarrow> bigptr \<Rightarrow> bigptr \<Rightarrow> bigptr \<Rightarrow> Address \<Rightarrow> ('m, bool) io" where
  "InsertPoolSwap env c pair sender i0 i1 o0 o1 to =
     insertConverted env ''pool_swap'' (poolSwapParams c pair sender i0 i1 o0 o1 to)"

definition InsertPoolSync :: "'m db_env \<Rightarrow> EventCoordinates \<Rightarrow> Address \<Rightarrow> bigptr \<Rightarrow> bigptr \<Rightarrow> ('m, bool) io" where
  "InsertPoolSync env c pair r0 r1 = insertConverted env ''pool_sync'' (poolSyncParams c pair r0 r1)"

definition InsertTradingPauseEvent :: "'m db_env \<Rightarrow> EventCoordinates \<Rightarrow> bool \<Rightarrow> ('m, bool) io" where
  "InsertTradingPauseEvent env c paused = insertEvent env ''trading_pause_event'' (tradingPauseParams c paused)"

definition InsertEngineConfiguration :: "'m db_env \<Rightarrow> EventCoordinates \<Rightarrow> 16 word \<Rightarrow> Address \<Rightarrow> bool \<Rightarrow> ('m, bool) io" where
  "InsertEngineConfiguration env c version implementation enabled =
     insertEvent env ''engine_configuration'' (engineConfigurationParams c version implementation enabled)"

definition InsertFutureDefaultsConfiguration :: "'m db_env \<Rightarrow> EventCoordinates \<Rightarrow> Hash \<Rightarrow> ('m, bool) io" where
  "InsertFutureDefaultsConfiguration env c h =
     insertEvent env ''future_defaults_configuration'' (futureDefaultsConfigurationParams c h)"

definition InsertFutureTreasuryConfiguration :: "'m db_env \<Rightarrow> EventCoordinates \<Rightarrow> Address \<Rightarrow> Address \<Rightarrow> ('m, bool) io" where
  "InsertFutureTreasuryConfiguration env c prev next =
     insertEvent env ''future_treasury_configuration'' (futureTreasuryConfigurationParams c prev next)"

section \<open>Ingest operations\<close>

definition projectionIdentity :: "EventCoordinates \<Rightarrow> event_id" where
  "projectionIdentity c = (ecChainID c, ecTxHash c, ecLogIndex c)"

text \<open>The work after an insert runs only for a row that is new.\<close>

definition when_inserted :: "('m, bool) io \<Rightarrow> ('m, unit) io \<Rightarrow> ('m, bool) io" where
  "when_inserted ins next =
     iobind ins (\<lambda>inserted. if \<not> inserted then ret False else iobind next (\<lambda>_. ret True))"

definition sql_ApplyTokenLaunchProjection :: "event_id \<Rightarrow> 'm db \<Rightarrow> idx_error + unit \<times> 'm db" where
  "sql_ApplyTokenLaunchProjection i d =
     (case List.find (event_identity TTokenLaunches (fst i) (fst (snd i)) (snd (snd i))) (dbEvents d) of
        None \<Rightarrow> Inr ((), d)
      | Some e \<Rightarrow>
        (case lePayload e of
           LTokenLaunch l \<Rightarrow>
             if list_ex (token_key (ecChainID (leCoordinates e)) (tlToken l)) (dbTokens d) then Inr ((), d)
             else Inr ((), d\<lparr>dbTokens := dbTokens d @ [\<lparr>trChainID = ecChainID (leCoordinates e),
               trLaunch = leCoordinates e, trLaunched = l, trGraduation = None\<rparr>]\<rparr>)
         | _ \<Rightarrow> Inr ((), d)))"

definition sql_ApplyGraduationProjection :: "event_id \<Rightarrow> 'm db \<Rightarrow> idx_error + unit \<times> 'm db" where
  "sql_ApplyGraduationProjection i d =
     (case List.find (event_identity TGraduations (fst i) (fst (snd i)) (snd (snd i))) (dbEvents d) of
        None \<Rightarrow> Inr ((), d)
      | Some e \<Rightarrow>
        (case event_token (lePayload e) of
           None \<Rightarrow> Inr ((), d)
         | Some token \<Rightarrow> Inr ((), d\<lparr>dbTokens := map (\<lambda>r. if token_key (ecChainID (leCoordinates e)) token r
               then r\<lparr>trGraduation := Some (leCoordinates e)\<rparr> else r) (dbTokens d)\<rparr>)))"

definition IngestTokenLaunch :: "'m db_env \<Rightarrow> EventCoordinates \<Rightarrow> TokenLaunched \<Rightarrow> ('m, bool) io" where
  "IngestTokenLaunch env c l =
     when_inserted (InsertTokenLaunch env c l)
       (iobind (statement env (sql_ApplyTokenLaunchProjection (projectionIdentity c))) (\<lambda>_.
        markTokenDirty env (ecChainID c) (tlToken l)))"

definition IngestTrade where
  "IngestTrade env c token trader isBuy gross ref amount pf cf er tr =
     when_inserted (InsertTrade env c token trader isBuy gross ref amount pf cf er tr)
       (iobind (market_statement env (sqlTradeReserve (envMarket env) (projectionIdentity c))) (\<lambda>_.
        iobind (market_statement env (sqlMarketTradeCandles (envMarket env) (projectionIdentity c))) (\<lambda>_.
        markTokenDirty env (ecChainID c) token)))"

definition IngestGraduation ::
    "'m db_env \<Rightarrow> EventCoordinates \<Rightarrow> Address \<Rightarrow> Address \<Rightarrow> bigptr \<Rightarrow> bigptr \<Rightarrow> bigptr \<Rightarrow> ('m, bool) io" where
  "IngestGraduation env c token pair eth tokens lp =
     when_inserted (InsertGraduation env c token pair eth tokens lp)
       (iobind (statement env (sql_ApplyGraduationProjection (projectionIdentity c))) (\<lambda>_.
        markTokenDirty env (ecChainID c) token))"

definition IngestTransfer :: "'m db_env \<Rightarrow> EventCoordinates \<Rightarrow> Address \<Rightarrow> Address \<Rightarrow> Address \<Rightarrow> bigptr \<Rightarrow> ('m, bool) io" where
  "IngestTransfer env c token sender to value =
     when_inserted (InsertTransfer env c token sender to value)
       (iobind (lift_result (uint256 ''transfer value'' value)) (\<lambda>v.
        iobind (statement env (\<lambda>d. case sqlTransfer (envMarket env) (ecChainID c) token sender
              (case v of Some x \<Rightarrow> x | None \<Rightarrow> 0) to (ecBlockNumber c) d of
            (applied, m) \<Rightarrow> Inr (applied, d\<lparr>dbMarket := m\<rparr>))) (\<lambda>applied.
        if \<not> applied then raise (NegativeBalance token sender)
        else markTokenDirty env (ecChainID c) token)))"

definition IngestPoolSync :: "'m db_env \<Rightarrow> EventCoordinates \<Rightarrow> Address \<Rightarrow> bigptr \<Rightarrow> bigptr \<Rightarrow> ('m, bool) io" where
  "IngestPoolSync env c pair r0 r1 =
     when_inserted (InsertPoolSync env c pair r0 r1)
       (iobind (market_statement env (sqlPoolSyncReserve (envMarket env) (projectionIdentity c))) (\<lambda>_.
        markPairTokenDirty env (ecChainID c) pair))"

definition IngestPoolSwap ::
    "'m db_env \<Rightarrow> EventCoordinates \<Rightarrow> Address \<Rightarrow> Address \<Rightarrow> bigptr \<Rightarrow> bigptr \<Rightarrow> bigptr \<Rightarrow> bigptr \<Rightarrow> Address \<Rightarrow> ('m, bool) io" where
  "IngestPoolSwap env c pair sender i0 i1 o0 o1 to =
     when_inserted (InsertPoolSwap env c pair sender i0 i1 o0 o1 to)
       (iobind (market_statement env (sqlMarketTradeCandles (envMarket env) (projectionIdentity c))) (\<lambda>_.
        markPairTokenDirty env (ecChainID c) pair))"

definition IngestCreatorFeeClaim :: "'m db_env \<Rightarrow> EventCoordinates \<Rightarrow> Address \<Rightarrow> Address \<Rightarrow> bigptr \<Rightarrow> ('m, bool) io" where
  "IngestCreatorFeeClaim env c token creator amount =
     when_inserted (InsertCreatorFeeClaim env c token creator amount) (markTokenDirty env (ecChainID c) token)"

definition IngestProtocolFeeClaim :: "'m db_env \<Rightarrow> EventCoordinates \<Rightarrow> Address \<Rightarrow> Address \<Rightarrow> bigptr \<Rightarrow> ('m, bool) io" where
  "IngestProtocolFeeClaim env c token treasury amount =
     when_inserted (InsertProtocolFeeClaim env c token treasury amount) (markTokenDirty env (ecChainID c) token)"

definition IngestRefundCredit :: "'m db_env \<Rightarrow> EventCoordinates \<Rightarrow> Address \<Rightarrow> Address \<Rightarrow> bigptr \<Rightarrow> ('m, bool) io" where
  "IngestRefundCredit env c token account amount =
     when_inserted (InsertRefundCredit env c token account amount) (markTokenDirty env (ecChainID c) token)"

definition IngestRefundClaim :: "'m db_env \<Rightarrow> EventCoordinates \<Rightarrow> Address \<Rightarrow> Address \<Rightarrow> bigptr \<Rightarrow> ('m, bool) io" where
  "IngestRefundClaim env c token account amount =
     when_inserted (InsertRefundClaim env c token account amount) (markTokenDirty env (ecChainID c) token)"

definition IngestPoolMint :: "'m db_env \<Rightarrow> EventCoordinates \<Rightarrow> Address \<Rightarrow> Address \<Rightarrow> bigptr \<Rightarrow> bigptr \<Rightarrow> ('m, bool) io" where
  "IngestPoolMint env c pair sender a0 a1 =
     when_inserted (InsertPoolMint env c pair sender a0 a1) (markPairTokenDirty env (ecChainID c) pair)"

definition IngestPoolBurn ::
    "'m db_env \<Rightarrow> EventCoordinates \<Rightarrow> Address \<Rightarrow> Address \<Rightarrow> bigptr \<Rightarrow> bigptr \<Rightarrow> Address \<Rightarrow> ('m, bool) io" where
  "IngestPoolBurn env c pair sender a0 a1 to =
     when_inserted (InsertPoolBurn env c pair sender a0 a1 to) (markPairTokenDirty env (ecChainID c) pair)"

definition IngestLaunchFeeClaim :: "'m db_env \<Rightarrow> EventCoordinates \<Rightarrow> Address \<Rightarrow> bigptr \<Rightarrow> ('m, bool) io" where
  "IngestLaunchFeeClaim env c treasury amount = InsertLaunchFeeClaim env c treasury amount"

definition IngestLaunchPauseEvent :: "'m db_env \<Rightarrow> EventCoordinates \<Rightarrow> bool \<Rightarrow> ('m, bool) io" where
  "IngestLaunchPauseEvent env c paused = InsertLaunchPauseEvent env c paused"

definition IngestTradingPauseEvent :: "'m db_env \<Rightarrow> EventCoordinates \<Rightarrow> bool \<Rightarrow> ('m, bool) io" where
  "IngestTradingPauseEvent env c paused = InsertTradingPauseEvent env c paused"

definition IngestEngineConfiguration :: "'m db_env \<Rightarrow> EventCoordinates \<Rightarrow> 16 word \<Rightarrow> Address \<Rightarrow> bool \<Rightarrow> ('m, bool) io" where
  "IngestEngineConfiguration env c version implementation enabled =
     InsertEngineConfiguration env c version implementation enabled"

definition IngestFutureDefaultsConfiguration :: "'m db_env \<Rightarrow> EventCoordinates \<Rightarrow> Hash \<Rightarrow> ('m, bool) io" where
  "IngestFutureDefaultsConfiguration env c h = InsertFutureDefaultsConfiguration env c h"

definition IngestFutureTreasuryConfiguration :: "'m db_env \<Rightarrow> EventCoordinates \<Rightarrow> Address \<Rightarrow> Address \<Rightarrow> ('m, bool) io" where
  "IngestFutureTreasuryConfiguration env c prev next = InsertFutureTreasuryConfiguration env c prev next"

section \<open>The ledger as a write-once map\<close>

type_synonym event_key = "ledger_table \<times> int \<times> Hash \<times> int"

definition event_key :: "ledger_event \<Rightarrow> event_key" where
  "event_key e = (table_of (lePayload e), ecChainID (leCoordinates e), ecTxHash (leCoordinates e),
     ecLogIndex (leCoordinates e))"

definition events_unique :: "'m db \<Rightarrow> bool" where
  "events_unique d \<longleftrightarrow> distinct (map event_key (dbEvents d))"

definition ledger_map :: "'m db \<Rightarrow> event_key \<rightharpoonup> ledger_event" where
  "ledger_map d = map_of (map (\<lambda>e. (event_key e, e)) (dbEvents d))"

lemma same_identity_iff: "same_identity e x \<longleftrightarrow> event_key x = event_key e"
  by (auto simp: same_identity_def event_identity_def event_key_def)

lemma find_identity: "List.find (same_identity e) (dbEvents d) = ledger_map d (event_key e)"
proof -
  have "List.find (same_identity e) xs = map_of (map (\<lambda>e. (event_key e, e)) xs) (event_key e)" for xs
    by (induction xs) (auto simp: same_identity_iff)
  then show ?thesis by (simp add: ledger_map_def)
qed

lemma ledger_map_None: "ledger_map d k = None \<longleftrightarrow> k \<notin> event_key ` set (dbEvents d)"
  by (force simp: ledger_map_def map_of_eq_None_iff)

lemma ledger_map_Some: "events_unique d \<Longrightarrow> ledger_map d k = Some e \<longleftrightarrow> e \<in> set (dbEvents d) \<and> event_key e = k"
  by (auto simp: ledger_map_def events_unique_def comp_def)

lemma ledger_map_SomeD: "ledger_map d k = Some e \<Longrightarrow> e \<in> set (dbEvents d) \<and> event_key e = k"
  by (auto simp: ledger_map_def dest: map_of_SomeD)

lemma ledger_map_append:
  "ledger_map d (event_key e) = None \<Longrightarrow>
   ledger_map (d\<lparr>dbEvents := dbEvents d @ [e]\<rparr>) = (ledger_map d)(event_key e \<mapsto> e)"
  by (auto simp: ledger_map_def map_add_def fun_eq_iff split: option.splits)

text \<open>What a successful insert leaves behind.\<close>

definition stored :: "ledger_event \<Rightarrow> 'm db \<Rightarrow> 'm db \<Rightarrow> bool" where
  "stored e d d' \<longleftrightarrow> dbBlocks d' = dbBlocks d \<and> dbSync d' = dbSync d \<and> dbReorgs d' = dbReorgs d
     \<and> dbReorgSeq d' = dbReorgSeq d
     \<and> (if ledger_map d (event_key e) = Some e then d' = d
        else ledger_map d (event_key e) = None \<and> event_check e \<and> dbEvents d' = dbEvents d @ [e])"

lemma sql_InsertEvent_Inr:
  assumes "sql_InsertEvent e d = Inr (n, d')"
  shows "(n = 1 \<and> ledger_map d (event_key e) = None \<and> event_check e \<and> d' = d\<lparr>dbEvents := dbEvents d @ [e]\<rparr>)
    \<or> (n = 0 \<and> ledger_map d (event_key e) \<noteq> None \<and> d' = d)"
proof -
  have "list_ex (same_identity e) (dbEvents d) \<longleftrightarrow> ledger_map d (event_key e) \<noteq> None"
    unfolding ledger_map_None by (simp add: list_ex_iff same_identity_iff image_iff) metis
  then show ?thesis using assms by (auto simp: sql_InsertEvent_def split: if_splits)
qed

lemma insertEvent_triple:
  "triple (\<lambda>d. d = d0) (insertEvent env entity e)
     (\<lambda>ins d. if ins then ledger_map d0 (event_key e) = None \<and> event_check e \<and> d = d0\<lparr>dbEvents := dbEvents d0 @ [e]\<rparr>
        else ledger_map d0 (event_key e) = Some e \<and> d = d0)"
  unfolding insertEvent_def
  by (rule triple_bind[where R = "\<lambda>n d. (n = 1 \<and> ledger_map d0 (event_key e) = None \<and> event_check e
        \<and> d = d0\<lparr>dbEvents := dbEvents d0 @ [e]\<rparr>) \<or> (n = 0 \<and> ledger_map d0 (event_key e) \<noteq> None \<and> d = d0)"])
    (auto intro!: io_rule triple_bind[where R = "\<lambda>m d. d = d0 \<and> (m \<longrightarrow> ledger_map d0 (event_key e) = Some e)"]
      dest!: sql_InsertEvent_Inr simp: sql_MatchesEvent_def find_identity split: option.splits)

section \<open>What ingesting leaves behind\<close>

definition same_ledger :: "'m db \<Rightarrow> 'm db \<Rightarrow> bool" where
  "same_ledger d d' \<longleftrightarrow> dbBlocks d' = dbBlocks d \<and> dbSync d' = dbSync d \<and> dbReorgs d' = dbReorgs d
     \<and> dbReorgSeq d' = dbReorgSeq d \<and> dbEvents d' = dbEvents d"

definition quiet :: "('m, 'a) io \<Rightarrow> bool" where
  "quiet m \<longleftrightarrow> (\<forall>d1. triple (\<lambda>d. d = d1) m (\<lambda>_ d. same_ledger d1 d))"

named_theorems quiet_rule \<open>operations that leave blocks, watermarks, events and reorg records alone\<close>

lemma same_ledger_refl [simp]: "same_ledger d d"
  by (simp add: same_ledger_def)

lemma same_ledger_trans: "same_ledger a b \<Longrightarrow> same_ledger b c \<Longrightarrow> same_ledger a c"
  by (simp add: same_ledger_def)

lemma quiet_ret [quiet_rule]: "quiet (ret a)"
  by (simp add: quiet_def triple_def ret_eq)

lemma quiet_raise [quiet_rule]: "quiet (raise e)"
  by (simp add: quiet_def triple_def raise_eq)

lemma quiet_lift [quiet_rule]: "quiet (lift_result r)"
  by (auto simp: quiet_def triple_def lift_result_def)

lemma quiet_bind [quiet_rule]: "quiet m \<Longrightarrow> (\<And>a. quiet (f a)) \<Longrightarrow> quiet (iobind m f)"
  unfolding quiet_def triple_def iobind_eq_Inr by (metis same_ledger_trans)

lemma quiet_if [quiet_rule]: "quiet a \<Longrightarrow> quiet b \<Longrightarrow> quiet (if p then a else b)"
  by simp

lemma quiet_statement: "(\<And>d a d'. q d = Inr (a, d') \<Longrightarrow> same_ledger d d') \<Longrightarrow> quiet (statement env q)"
  by (auto simp: quiet_def intro!: triple_statement)

lemma quiet_market [quiet_rule]: "quiet (market_statement env f)"
  by (auto simp: market_statement_def same_ledger_def intro!: quiet_statement)

lemma same_ledger_mark_dirty [simp]: "same_ledger d (mark_dirty chainID token d)"
  by (simp add: same_ledger_def mark_dirty_def)

lemma quiet_markTokenDirty [quiet_rule]: "quiet (markTokenDirty env chainID token)"
  by (auto simp: markTokenDirty_def sql_MarkTokenDirty_def intro!: quiet_statement)

lemma same_ledger_fold:
  "(\<And>x d. same_ledger d (f x d)) \<Longrightarrow> same_ledger d (fold f xs d)"
proof (induction xs arbitrary: d)
  case (Cons x xs)
  then show ?case using same_ledger_trans[of d "f x d"] by simp
qed simp

lemma quiet_markPairTokenDirty [quiet_rule]: "quiet (markPairTokenDirty env chainID pair)"
  by (auto simp: markPairTokenDirty_def sql_MarkPairTokenDirty_def intro!: quiet_statement same_ledger_fold)

lemma quiet_ApplyTokenLaunch [quiet_rule]: "quiet (statement env (sql_ApplyTokenLaunchProjection i))"
  by (rule quiet_statement)
    (auto simp: sql_ApplyTokenLaunchProjection_def same_ledger_def split: option.splits ledger_payload.splits if_splits)

lemma quiet_ApplyGraduation [quiet_rule]: "quiet (statement env (sql_ApplyGraduationProjection i))"
  by (rule quiet_statement)
    (auto simp: sql_ApplyGraduationProjection_def same_ledger_def split: option.splits)

lemma quiet_Transfer [quiet_rule]:
  "quiet (statement env (\<lambda>d. case f d of (applied, m) \<Rightarrow> Inr (applied, d\<lparr>dbMarket := m\<rparr>)))"
  by (rule quiet_statement) (auto simp: same_ledger_def split: prod.splits)

lemma stored_insert:
  "triple (\<lambda>d. d = d0) (insertEvent env entity e) (\<lambda>_ d. stored e d0 d)"
  by (rule triple_conseq[OF insertEvent_triple[of d0]]) (auto simp: stored_def split: if_splits)

lemma stored_when_inserted:
  assumes "quiet next"
  shows "triple (\<lambda>d. d = d0) (when_inserted (insertEvent env entity e) next) (\<lambda>_ d. stored e d0 d)"
proof (unfold when_inserted_def, rule triple_bind[OF insertEvent_triple])
  fix ins
  show "triple (\<lambda>d. if ins then ledger_map d0 (event_key e) = None \<and> event_check e \<and> d = d0\<lparr>dbEvents := dbEvents d0 @ [e]\<rparr>
      else ledger_map d0 (event_key e) = Some e \<and> d = d0)
      (if \<not> ins then ret False else iobind next (\<lambda>_. ret True)) (\<lambda>_ d. stored e d0 d)"
  proof (cases ins)
    case False
    then show ?thesis by (auto simp: stored_def intro: triple_ret)
  next
    case True
    have "triple (\<lambda>d. d = d0\<lparr>dbEvents := dbEvents d0 @ [e]\<rparr>) next
        (\<lambda>_ d. same_ledger (d0\<lparr>dbEvents := dbEvents d0 @ [e]\<rparr>) d)"
      using assms by (simp add: quiet_def)
    then show ?thesis using True
      unfolding triple_def by (auto simp: stored_def same_ledger_def iobind_eq_Inr ret_eq)
  qed
qed

lemma converted:
  assumes "\<And>e. arg = Inr e \<Longrightarrow> triple (\<lambda>d. d = d0) (m e) (\<lambda>_ d. stored (g e) d0 d)"
    and "\<And>e. arg = Inr e \<Longrightarrow> g e = e'"
  shows "triple (\<lambda>d. d = d0) (iobind (lift_result arg) m) (\<lambda>_ d. stored e' d0 d)"
proof (cases arg)
  case (Inl x)
  then show ?thesis by (simp add: triple_def iobind_def lift_result_def)
next
  case (Inr e)
  then show ?thesis using assms by (simp add: triple_def iobind_def lift_result_def)
qed

lemma uint256_Inr [simp]: "uint256 n v = Inr r \<longleftrightarrow> r = v \<and> (\<exists>x. v = Some x \<and> 0 \<le> x \<and> x < 2 ^ 256)"
  by (auto simp: uint256_def split: option.splits)

lemma InsertTrade_converted:
  "InsertTrade env c token trader isBuy gross ref amount pf cf er tr =
   insertConverted env ''trade'' (tradeParams c token trader isBuy gross ref amount pf cf er tr)"
  unfolding InsertTrade_def insertConverted_def insertEvent_def[abs_def] by (rule refl)

lemma InsertLaunchPause_event:
  "InsertLaunchPauseEvent env c paused = insertEvent env ''launch_pause_event'' (launchPauseParams c paused)"
  by (simp add: InsertLaunchPauseEvent_def insertEvent_def)

lemma when_inserted_converted:
  "when_inserted (insertConverted env entity arg) next = iobind (lift_result arg) (\<lambda>e. when_inserted (insertEvent env entity e) next)"
  by (rule ext) (auto simp: when_inserted_def insertConverted_def iobind_def lift_result_def split: sum.splits prod.splits)

lemma stored_converted_next:
  assumes "quiet next" "\<And>e. arg = Inr e \<Longrightarrow> e = e'"
  shows "triple (\<lambda>d. d = d0) (when_inserted (insertConverted env entity arg) next) (\<lambda>_ d. stored e' d0 d)"
  unfolding when_inserted_converted
  by (rule converted[where g = "\<lambda>e. e"]) (auto intro: stored_when_inserted[OF assms(1)] assms(2))

lemma stored_converted:
  assumes "\<And>e. arg = Inr e \<Longrightarrow> e = e'"
  shows "triple (\<lambda>d. d = d0) (insertConverted env entity arg) (\<lambda>_ d. stored e' d0 d)"
  unfolding insertConverted_def
  by (rule converted[where g = "\<lambda>e. e"]) (auto intro: stored_insert assms)

lemmas params_defs = tradeParams_def tokenLaunchParams_def graduationParams_def creatorFeeClaimParams_def
  protocolFeeClaimParams_def launchFeeClaimParams_def refundCreditParams_def refundClaimParams_def
  transferParams_def poolMintParams_def poolBurnParams_def poolSwapParams_def poolSyncParams_def

lemma tokenLaunchParams_Inr: "tokenLaunchParams c l = Inr e \<Longrightarrow> e = \<lparr>leCoordinates = c, lePayload = LTokenLaunch l\<rparr>"
  by (auto simp: tokenLaunchParams_def rbind_eq_Inr)

text \<open>Each ingest operation stores its event with the given coordinates and amounts, or finds it stored.\<close>

lemma Ingest_stored:
  "triple (\<lambda>d. d = d0) (IngestTokenLaunch env c l) (\<lambda>_ d. stored \<lparr>leCoordinates = c, lePayload = LTokenLaunch l\<rparr> d0 d)"
  "triple (\<lambda>d. d = d0) (IngestTrade env c t r b v1 v2 v3 v4 v5 v6 v7)
     (\<lambda>_ d. stored \<lparr>leCoordinates = c, lePayload = LTrade t r b v1 v2 v3 v4 v5 v6 v7\<rparr> d0 d)"
  "triple (\<lambda>d. d = d0) (IngestGraduation env c t p v1 v2 v3)
     (\<lambda>_ d. stored \<lparr>leCoordinates = c, lePayload = LGraduation t p v1 v2 v3\<rparr> d0 d)"
  "triple (\<lambda>d. d = d0) (IngestTransfer env c t f p v1)
     (\<lambda>_ d. stored \<lparr>leCoordinates = c, lePayload = LTransfer t f p v1\<rparr> d0 d)"
  "triple (\<lambda>d. d = d0) (IngestPoolSync env c p v1 v2)
     (\<lambda>_ d. stored \<lparr>leCoordinates = c, lePayload = LPoolSync p v1 v2\<rparr> d0 d)"
  "triple (\<lambda>d. d = d0) (IngestPoolSwap env c p s v1 v2 v3 v4 x)
     (\<lambda>_ d. stored \<lparr>leCoordinates = c, lePayload = LPoolSwap p s v1 v2 v3 v4 x\<rparr> d0 d)"
  "triple (\<lambda>d. d = d0) (IngestCreatorFeeClaim env c t a v1)
     (\<lambda>_ d. stored \<lparr>leCoordinates = c, lePayload = LCreatorFeeClaim t a v1\<rparr> d0 d)"
  "triple (\<lambda>d. d = d0) (IngestProtocolFeeClaim env c t a v1)
     (\<lambda>_ d. stored \<lparr>leCoordinates = c, lePayload = LProtocolFeeClaim t a v1\<rparr> d0 d)"
  "triple (\<lambda>d. d = d0) (IngestRefundCredit env c t a v1)
     (\<lambda>_ d. stored \<lparr>leCoordinates = c, lePayload = LRefundCredit t a v1\<rparr> d0 d)"
  "triple (\<lambda>d. d = d0) (IngestRefundClaim env c t a v1)
     (\<lambda>_ d. stored \<lparr>leCoordinates = c, lePayload = LRefundClaim t a v1\<rparr> d0 d)"
  "triple (\<lambda>d. d = d0) (IngestPoolMint env c p s v1 v2)
     (\<lambda>_ d. stored \<lparr>leCoordinates = c, lePayload = LPoolMint p s v1 v2\<rparr> d0 d)"
  "triple (\<lambda>d. d = d0) (IngestPoolBurn env c p s v1 v2 x)
     (\<lambda>_ d. stored \<lparr>leCoordinates = c, lePayload = LPoolBurn p s v1 v2 x\<rparr> d0 d)"
  "triple (\<lambda>d. d = d0) (IngestLaunchFeeClaim env c a v1)
     (\<lambda>_ d. stored \<lparr>leCoordinates = c, lePayload = LLaunchFeeClaim a v1\<rparr> d0 d)"
  "triple (\<lambda>d. d = d0) (IngestLaunchPauseEvent env c b) (\<lambda>_ d. stored \<lparr>leCoordinates = c, lePayload = LLaunchPause b\<rparr> d0 d)"
  "triple (\<lambda>d. d = d0) (IngestTradingPauseEvent env c b) (\<lambda>_ d. stored \<lparr>leCoordinates = c, lePayload = LTradingPause b\<rparr> d0 d)"
  "triple (\<lambda>d. d = d0) (IngestEngineConfiguration env c n a b)
     (\<lambda>_ d. stored \<lparr>leCoordinates = c, lePayload = LEngineConfiguration n a b\<rparr> d0 d)"
  "triple (\<lambda>d. d = d0) (IngestFutureDefaultsConfiguration env c h)
     (\<lambda>_ d. stored \<lparr>leCoordinates = c, lePayload = LFutureDefaultsConfiguration h\<rparr> d0 d)"
  "triple (\<lambda>d. d = d0) (IngestFutureTreasuryConfiguration env c a a')
     (\<lambda>_ d. stored \<lparr>leCoordinates = c, lePayload = LFutureTreasuryConfiguration a a'\<rparr> d0 d)"
  unfolding IngestTokenLaunch_def InsertTokenLaunch_def IngestTrade_def InsertTrade_converted IngestGraduation_def
    InsertGraduation_def IngestTransfer_def InsertTransfer_def IngestPoolSync_def InsertPoolSync_def
    IngestPoolSwap_def InsertPoolSwap_def IngestCreatorFeeClaim_def InsertCreatorFeeClaim_def
    IngestProtocolFeeClaim_def InsertProtocolFeeClaim_def IngestRefundCredit_def InsertRefundCredit_def
    IngestRefundClaim_def InsertRefundClaim_def IngestPoolMint_def InsertPoolMint_def IngestPoolBurn_def
    InsertPoolBurn_def
    apply (rule stored_converted_next, (intro quiet_rule)[1], (auto simp: params_defs rbind_eq_Inr)[1])+
  unfolding IngestLaunchFeeClaim_def InsertLaunchFeeClaim_def IngestLaunchPauseEvent_def InsertLaunchPause_event
    IngestTradingPauseEvent_def InsertTradingPauseEvent_def IngestEngineConfiguration_def InsertEngineConfiguration_def
    IngestFutureDefaultsConfiguration_def InsertFutureDefaultsConfiguration_def
    IngestFutureTreasuryConfiguration_def InsertFutureTreasuryConfiguration_def launchPauseParams_def
    tradingPauseParams_def engineConfigurationParams_def futureDefaultsConfigurationParams_def
    futureTreasuryConfigurationParams_def
    apply (rule stored_converted, (auto simp: params_defs rbind_eq_Inr)[1])
  by (rule stored_insert)+

section \<open>Properties\<close>

definition relaunch :: "ledger_event \<Rightarrow> 'm db \<Rightarrow> bool" where
  "relaunch e d = (case lePayload e of LTokenLaunch l \<Rightarrow>
     list_ex (launch_event (ecChainID (leCoordinates e)) (tlToken l)) (dbEvents d) | _ \<Rightarrow> False)"

lemma sql_InsertEvent_eq:
  "event_check e \<Longrightarrow> sql_InsertEvent e d =
     (if ledger_map d (event_key e) \<noteq> None then Inr (0, d) else if relaunch e d then Inl UniqueViolation
      else Inr (1, d\<lparr>dbEvents := dbEvents d @ [e]\<rparr>))"
proof -
  have "list_ex (same_identity e) (dbEvents d) \<longleftrightarrow> ledger_map d (event_key e) \<noteq> None"
    unfolding ledger_map_None by (simp add: list_ex_iff same_identity_iff image_iff) metis
  then show "event_check e \<Longrightarrow> ?thesis"
    by (simp add: sql_InsertEvent_def relaunch_def split: ledger_payload.splits)
qed

lemma events_unique_append:
  "events_unique d \<Longrightarrow> ledger_map d (event_key e) = None \<Longrightarrow> events_unique (d\<lparr>dbEvents := dbEvents d @ [e]\<rparr>)"
  by (auto simp: events_unique_def ledger_map_None)

text \<open>C14: the event tables behave as a write-once map from (table, chain, transaction hash, log index)
  to events. When its statements are executed, an insert under a new key adds exactly that
  binding and reports a new row; under a key that holds the same event it changes nothing and
  reports no new row, so replays are harmless; under a key that holds a different event it is
  refused as an invariant conflict and changes nothing. Keys stay unique.\<close>

theorem insertEvent_refines:
  assumes "\<not> envFails env (wTick w)" "\<not> envFails env (Suc (wTick w))" "event_check e" "\<not> relaunch e (wDb w)"
  shows "fst (insertEvent env entity e w) = (case ledger_map (wDb w) (event_key e) of
       None \<Rightarrow> Inr True | Some s \<Rightarrow> if s = e then Inr False else Inl (InvariantConflict entity))
   \<and> ledger_map (wDb (snd (insertEvent env entity e w))) = (case ledger_map (wDb w) (event_key e) of
       None \<Rightarrow> (ledger_map (wDb w))(event_key e \<mapsto> e) | Some s \<Rightarrow> ledger_map (wDb w))
   \<and> (events_unique (wDb w) \<longrightarrow> events_unique (wDb (snd (insertEvent env entity e w))))"
proof (cases "ledger_map (wDb w) (event_key e)")
  case None
  then show ?thesis using assms
    by (simp add: insertEvent_def iobind_def statement_def ret_eq raise_eq sql_InsertEvent_eq ledger_map_append events_unique_append)
next
  case (Some s)
  then show ?thesis using assms
    by (simp add: insertEvent_def iobind_def statement_def ret_eq raise_eq sql_InsertEvent_eq sql_MatchesEvent_def find_identity)
qed

definition quiet_env :: "'m market_sql \<Rightarrow> 'm db_env" where
  "quiet_env sql = \<lparr>envFails = (\<lambda>_. False), envCtxDone = (\<lambda>_. False), envCommit = (\<lambda>_. Committed),
     envConnClosed = (\<lambda>_. False), envNow = (\<lambda>_. 0), envMarket = sql\<rparr>"

definition unit_sql :: "unit market_sql" where
  "unit_sql = \<lparr>sqlTradeReserve = (\<lambda>_ _. ()), sqlPoolSyncReserve = (\<lambda>_ _. ()), sqlMarketTradeCandles = (\<lambda>_ _. ()),
     sqlTransfer = (\<lambda>_ _ _ _ _ _ _. (True, ())), sqlRebuild = (\<lambda>_ _ _. ()), sqlClearOrphan = (\<lambda>_ _ _. ()),
     sqlDeleteTokenStats = (\<lambda>_ _ _. ()), sqlRecomputeTokenStats = (\<lambda>_ _ _. ()), sqlClearProtocolDaily = (\<lambda>_ _. ()),
     sqlRecomputeProtocolDaily = (\<lambda>_ _. ()), sqlRecomputeProtocolStats = (\<lambda>_ _. ())\<rparr>"

definition empty_db :: "unit db" where
  "empty_db = \<lparr>dbBlocks = [], dbSync = [], dbEvents = [], dbTokens = [], dbDirty = [], dbDirtySeq = 0,
     dbReorgs = [], dbReorgSeq = 0, dbMarket = ()\<rparr>"

definition empty_world :: "unit world" where
  "empty_world = \<lparr>wDb = empty_db, wTick = 0, wOwnerDead = None\<rparr>"

definition demo_coordinates :: "int \<Rightarrow> EventCoordinates" where
  "demo_coordinates n = \<lparr>ecChainID = 1, ecBlockNumber = n, ecBlockHash = 9, ecBlockTime = 100,
     ecTransactionIndex = 0, ecTxHash = 7, ecLogIndex = 0\<rparr>"

theorem insertEvent_refines_witness:
  "fst (insertEvent (quiet_env unit_sql) ''p'' \<lparr>leCoordinates = demo_coordinates 5, lePayload = LLaunchPause True\<rparr> empty_world)
     = Inr True"
  using insertEvent_refines[of "quiet_env unit_sql" empty_world
      "\<lparr>leCoordinates = demo_coordinates 5, lePayload = LLaunchPause True\<rparr>" "''p''"]
  by (simp add: quiet_env_def empty_world_def empty_db_def demo_coordinates_def event_check_def relaunch_def ledger_map_def)

end
