(* ===== verification/Event_Router.thy ===== *)
theory Event_Router
  imports Ledger_Ingest
begin

text \<open>
  The ledger router of \<^verbatim>\<open>indexer/router.go\<close>: the ordering checks of trades against launches and
  graduations, and the dispatch of each decoded log to the ingest operation of its event kind with
  the coordinates of the canonical block it was found in.
\<close>

section \<open>Conversions of coordinates\<close>

text \<open>Go's conversions of unsigned to signed integers keep the low bits.\<close>

definition int64_of :: "64 word \<Rightarrow> int" where
  "int64_of w = sint w"

definition int32_of :: "64 word \<Rightarrow> int" where
  "int32_of w = sint (ucast w :: 32 word)"

type_synonym block_map = "int \<rightharpoonup> IndexedBlock"

definition blockTimeAt :: "block_map \<Rightarrow> int \<Rightarrow> int" where
  "blockTimeAt blocks n = (case blocks n of None \<Rightarrow> zero_time | Some b \<Rightarrow> ibBlockTime b)"

definition eventCoordinates :: "int \<Rightarrow> block_map \<Rightarrow> DecodedLog \<Rightarrow> EventCoordinates" where
  "eventCoordinates chainID blocks log =
     (let c = dlCoordinates log; n = int64_of (coBlockNumber c) in
      \<lparr>ecChainID = chainID, ecBlockNumber = n, ecBlockHash = coBlockHash c, ecBlockTime = blockTimeAt blocks n,
       ecTransactionIndex = int32_of (coTransactionIndex c), ecTxHash = coTransactionHash c,
       ecLogIndex = int32_of (coLogIndex c)\<rparr>)"

section \<open>Routing one log\<close>

definition router_apply :: "'m db_env \<Rightarrow> int \<Rightarrow> block_map \<Rightarrow> DecodedLog \<Rightarrow> ('m, bool) io" where
  "router_apply env chainID blocks log =
     (let c = eventCoordinates chainID blocks log in
      case dlValue log of
        EvTokenLaunched v \<Rightarrow> IngestTokenLaunch env c v
      | EvTrade token trader isBuy gross ref amount pf cf er tr \<Rightarrow>
          IngestTrade env c token trader isBuy gross ref amount pf cf er tr
      | EvGraduated token pair eth tokens lp \<Rightarrow> IngestGraduation env c token pair eth tokens lp
      | EvTransfer token sender to value \<Rightarrow> IngestTransfer env c token sender to value
      | EvPoolSync pair r0 r1 \<Rightarrow> IngestPoolSync env c pair r0 r1
      | EvPoolSwap pair sender i0 i1 o0 o1 to \<Rightarrow> IngestPoolSwap env c pair sender i0 i1 o0 o1 to
      | EvPoolMint pair sender a0 a1 \<Rightarrow> IngestPoolMint env c pair sender a0 a1
      | EvPoolBurn pair sender a0 a1 to \<Rightarrow> IngestPoolBurn env c pair sender a0 a1 to
      | EvCreatorFeesClaimed token creator amount \<Rightarrow> IngestCreatorFeeClaim env c token creator amount
      | EvProtocolFeesClaimed token treasury amount \<Rightarrow> IngestProtocolFeeClaim env c token treasury amount
      | EvRefundCredited token account amount \<Rightarrow> IngestRefundCredit env c token account amount
      | EvRefundClaimed token account amount \<Rightarrow> IngestRefundClaim env c token account amount
      | EvLaunchFeesClaimed treasury amount \<Rightarrow> IngestLaunchFeeClaim env c treasury amount
      | EvLaunchPauseSet paused \<Rightarrow> IngestLaunchPauseEvent env c paused
      | EvTradingPauseSet paused \<Rightarrow> IngestTradingPauseEvent env c paused
      | EvEngineConfigured version implementation enabled \<Rightarrow>
          IngestEngineConfiguration env c version implementation enabled
      | EvFutureDefaultsConfigured h \<Rightarrow> IngestFutureDefaultsConfiguration env c h
      | EvFutureTreasuryConfigured prev next \<Rightarrow> IngestFutureTreasuryConfiguration env c prev next)"

section \<open>Routing a chunk\<close>

type_synonym height_map = "Address \<rightharpoonup> int"

definition identity_heights :: "TokenIdentity list \<Rightarrow> height_map \<times> height_map" where
  "identity_heights identities = fold (\<lambda>i (launches, graduations).
     (launches(tiToken i \<mapsto> ecBlockNumber (tiLaunch i)),
      (case tiGraduationBlock i of None \<Rightarrow> graduations | Some n \<Rightarrow> graduations(tiToken i \<mapsto> n))))
     identities (Map.empty, Map.empty)"

definition log_height :: "DecodedLog \<Rightarrow> int" where
  "log_height log = int64_of (coBlockNumber (dlCoordinates log))"

definition log_heights :: "DecodedLog list \<Rightarrow> height_map \<times> height_map \<Rightarrow> height_map \<times> height_map" where
  "log_heights logs = fold (\<lambda>log (launches, graduations).
     case dlValue log of
       EvTokenLaunched v \<Rightarrow> (launches(tlToken v \<mapsto> log_height log), graduations)
     | EvGraduated token _ _ _ _ \<Rightarrow> (launches, graduations(token \<mapsto> log_height log))
     | _ \<Rightarrow> (launches, graduations)) logs"

definition checkTrade :: "height_map \<times> height_map \<Rightarrow> DecodedLog \<Rightarrow> unit \<Rightarrow> idx_error + unit" where
  "checkTrade heights log _ = (case dlValue log of
     EvTrade token _ _ _ _ _ _ _ _ _ \<Rightarrow>
       (case snd heights token of
          Some graduation \<Rightarrow>
            (if log_height log > graduation then Inl (OtherError ''trade after graduation'')
             else (case fst heights token of
               Some launch \<Rightarrow> (if log_height log < launch then Inl (OtherError ''pre-launch trade'') else Inr ())
             | None \<Rightarrow> Inr ()))
        | None \<Rightarrow>
            (case fst heights token of
               Some launch \<Rightarrow> (if log_height log < launch then Inl (OtherError ''pre-launch trade'') else Inr ())
             | None \<Rightarrow> Inr ()))
   | _ \<Rightarrow> Inr ())"

definition router_Apply ::
    "'m db_env \<Rightarrow> int \<Rightarrow> DecodedLog list \<Rightarrow> block_map \<Rightarrow> TokenIdentity list \<Rightarrow> ('m, unit) io" where
  "router_Apply env chainID logs blocks identities =
     (let heights = log_heights logs (identity_heights identities) in
      iobind (lift_result (rfold (checkTrade heights) logs ())) (\<lambda>_.
      iter (\<lambda>log. iobind (router_apply env chainID blocks log) (\<lambda>_. ret ())) logs))"

section \<open>What routing stores\<close>

definition payload_of :: "chain_event \<Rightarrow> ledger_payload" where
  "payload_of v = (case v of
      EvTokenLaunched l \<Rightarrow> LTokenLaunch l
    | EvTrade t r b g rf a p cf er tr \<Rightarrow> LTrade t r b g rf a p cf er tr
    | EvGraduated t p e k l \<Rightarrow> LGraduation t p e k l
    | EvCreatorFeesClaimed t a n \<Rightarrow> LCreatorFeeClaim t a n
    | EvProtocolFeesClaimed t a n \<Rightarrow> LProtocolFeeClaim t a n
    | EvLaunchFeesClaimed a n \<Rightarrow> LLaunchFeeClaim a n
    | EvRefundCredited t a n \<Rightarrow> LRefundCredit t a n
    | EvRefundClaimed t a n \<Rightarrow> LRefundClaim t a n
    | EvLaunchPauseSet b \<Rightarrow> LLaunchPause b
    | EvTradingPauseSet b \<Rightarrow> LTradingPause b
    | EvEngineConfigured n a b \<Rightarrow> LEngineConfiguration n a b
    | EvFutureDefaultsConfigured h \<Rightarrow> LFutureDefaultsConfiguration h
    | EvFutureTreasuryConfigured a b \<Rightarrow> LFutureTreasuryConfiguration a b
    | EvTransfer t a b n \<Rightarrow> LTransfer t a b n
    | EvPoolMint p a m n \<Rightarrow> LPoolMint p a m n
    | EvPoolBurn p a m n b \<Rightarrow> LPoolBurn p a m n b
    | EvPoolSwap p a m n x y b \<Rightarrow> LPoolSwap p a m n x y b
    | EvPoolSync p m n \<Rightarrow> LPoolSync p m n)"

definition ledger_event_of :: "int \<Rightarrow> block_map \<Rightarrow> DecodedLog \<Rightarrow> ledger_event" where
  "ledger_event_of chainID blocks log =
     \<lparr>leCoordinates = eventCoordinates chainID blocks log, lePayload = payload_of (dlValue log)\<rparr>"

lemma router_apply_stored:
  "triple (\<lambda>d. d = d0) (router_apply env chainID blocks log) (\<lambda>_ d. stored (ledger_event_of chainID blocks log) d0 d)"
  by (cases "dlValue log")
    (simp_all add: router_apply_def ledger_event_of_def payload_of_def Let_def Ingest_stored)

text \<open>The effect of storing a list of events on blocks, watermarks and the ledger.\<close>

definition stored_all :: "ledger_event list \<Rightarrow> 'm db \<Rightarrow> 'm db \<Rightarrow> bool" where
  "stored_all es d d' \<longleftrightarrow> dbBlocks d' = dbBlocks d \<and> dbSync d' = dbSync d \<and> dbReorgs d' = dbReorgs d
     \<and> dbReorgSeq d' = dbReorgSeq d \<and> set (dbEvents d') = set (dbEvents d) \<union> set es
     \<and> (events_unique d \<longrightarrow> events_unique d')"

lemma stored_all_one: "stored e d d' \<Longrightarrow> stored_all [e] d d'"
  by (auto simp: stored_all_def stored_def events_unique_def ledger_map_None
      dest: ledger_map_SomeD split: if_splits)

lemma stored_all_append: "stored_all es d d1 \<Longrightarrow> stored_all fs d1 d2 \<Longrightarrow> stored_all (es @ fs) d d2"
  by (auto simp: stored_all_def)

lemma stored_all_Nil [simp]: "stored_all [] d d"
  by (simp add: stored_all_def)

lemma iter_apply_stored:
  "triple (stored_all es d0) (iter (\<lambda>log. iobind (router_apply env chainID blocks log) (\<lambda>_. ret ())) logs)
     (\<lambda>_. stored_all (es @ map (ledger_event_of chainID blocks) logs) d0)"
proof (induction logs arbitrary: es)
  case Nil
  then show ?case by (simp add: triple_def ret_eq)
next
  case (Cons log logs)
  have "triple (stored_all es d0) (router_apply env chainID blocks log)
      (\<lambda>_. stored_all (es @ [ledger_event_of chainID blocks log]) d0)"
    using router_apply_stored[of _ env chainID blocks log] unfolding triple_def
    by (metis stored_all_append stored_all_one)
  then have "triple (stored_all es d0) (iobind (router_apply env chainID blocks log) (\<lambda>_. ret ()))
      (\<lambda>_. stored_all (es @ [ledger_event_of chainID blocks log]) d0)"
    by (rule triple_bind) (auto intro: triple_ret)
  then have "triple (stored_all es d0) (iter (\<lambda>log. iobind (router_apply env chainID blocks log) (\<lambda>_. ret ())) (log # logs))
      (\<lambda>_. stored_all ((es @ [ledger_event_of chainID blocks log]) @ map (ledger_event_of chainID blocks) logs) d0)"
    unfolding iter.simps by (rule triple_bind) (rule Cons.IH)
  then show ?case by simp
qed

lemma router_Apply_stored:
  "triple (\<lambda>d. d = d0) (router_Apply env chainID logs blocks identities)
     (\<lambda>_. stored_all (map (ledger_event_of chainID blocks) logs) d0)"
  unfolding router_Apply_def Let_def
  by (rule triple_bind[where R = "\<lambda>_. stored_all [] d0"])
    (auto intro!: triple_lift iter_apply_stored[where es = "[]", simplified])

section \<open>Properties\<close>

lemma checkTrade_Inr:
  "checkTrade heights log u = Inr () \<longleftrightarrow> (\<forall>t r b v1 v2 v3 v4 v5 v6 v7.
     dlValue log = EvTrade t r b v1 v2 v3 v4 v5 v6 v7 \<longrightarrow>
     (\<forall>g. snd heights t = Some g \<longrightarrow> log_height log \<le> g) \<and> (\<forall>l. fst heights t = Some l \<longrightarrow> l \<le> log_height log))"
  by (cases "dlValue log") (auto simp: checkTrade_def not_less split: option.splits if_splits)

text \<open>C30: routing a chunk stores exactly the chunk. When it succeeds, the ledger holds what it held before
  plus, for every decoded log, the event of its kind with the log's own payload and the
  coordinates of the canonical block the log belongs to, and nothing else; keys stay unique,
  blocks, watermarks and reorg records are untouched; and every trade of the chunk lies at or above
  its token's launch height and at or below its graduation height, as far as these are known from
  the chunk and from the stored identities.\<close>

theorem router_Apply_correct:
  assumes "router_Apply env chainID logs blocks identities w = (Inr (), w')"
  shows "set (dbEvents (wDb w')) = set (dbEvents (wDb w)) \<union> set (map (ledger_event_of chainID blocks) logs)
    \<and> (events_unique (wDb w) \<longrightarrow> events_unique (wDb w'))
    \<and> dbBlocks (wDb w') = dbBlocks (wDb w) \<and> dbSync (wDb w') = dbSync (wDb w) \<and> dbReorgs (wDb w') = dbReorgs (wDb w)
    \<and> (\<forall>log \<in> set logs. \<forall>t r b v1 v2 v3 v4 v5 v6 v7. dlValue log = EvTrade t r b v1 v2 v3 v4 v5 v6 v7 \<longrightarrow>
        (\<forall>g. snd (log_heights logs (identity_heights identities)) t = Some g \<longrightarrow> log_height log \<le> g)
        \<and> (\<forall>l. fst (log_heights logs (identity_heights identities)) t = Some l \<longrightarrow> l \<le> log_height log))"
proof -
  have s: "stored_all (map (ledger_event_of chainID blocks) logs) (wDb w) (wDb w')"
    using router_Apply_stored[of "wDb w" env chainID logs blocks identities] assms unfolding triple_def by blast
  have c: "rfold (checkTrade (log_heights logs (identity_heights identities))) logs () = Inr ()"
    using assms by (auto simp: router_Apply_def Let_def iobind_eq_Inr lift_result_def)
  then have "\<forall>log \<in> set logs. checkTrade (log_heights logs (identity_heights identities)) log () = Inr ()"
    using rfold_check[of "\<lambda>x. checkTrade (log_heights logs (identity_heights identities)) x ()" logs] by simp
  then show ?thesis using s by (simp add: checkTrade_Inr stored_all_def)
qed

definition demo_trade :: "64 word \<Rightarrow> DecodedLog" where
  "demo_trade n = \<lparr>dlCoordinates = \<lparr>coBlockNumber = n, coBlockHash = 9, coTransactionIndex = 0,
     coTransactionHash = 7, coLogIndex = 0\<rparr>, dlEmitter = 50, dlKind = EmitterCurve, dlName = ''Trade'',
     dlValue = EvTrade 60 1 True (Some 10) (Some 0) (Some 5) (Some 0) (Some 0) (Some 10) (Some 5)\<rparr>"

lemma demo_apply: "\<exists>w'. router_Apply (quiet_env unit_sql) 1 [demo_trade 5] Map.empty [] empty_world = (Inr (), w')"
  by (simp add: router_Apply_def log_heights_def identity_heights_def demo_trade_def checkTrade_def iobind_def
      lift_result_def router_apply_def eventCoordinates_def int64_of_def int32_of_def IngestTrade_def InsertTrade_def
      when_inserted_def tradeParams_def uint256_def statement_def quiet_env_def empty_world_def empty_db_def
      sql_InsertEvent_def event_check_def market_statement_def markTokenDirty_def sql_MarkTokenDirty_def ret_eq Let_def)

theorem router_Apply_correct_witness:
  "\<exists>w'. router_Apply (quiet_env unit_sql) 1 [demo_trade 5] Map.empty [] empty_world = (Inr (), w')
     \<and> set (dbEvents (wDb w')) = {ledger_event_of 1 Map.empty (demo_trade 5)}"
proof -
  obtain w' where w: "router_Apply (quiet_env unit_sql) 1 [demo_trade 5] Map.empty [] empty_world = (Inr (), w')"
    using demo_apply by blast
  then show ?thesis using router_Apply_correct[OF w] by (simp add: empty_world_def empty_db_def)
qed

end
