(* ===== verification/Indexer_Engine.thy ===== *)
theory Indexer_Engine
  imports Event_Router Log_Discovery
begin

text \<open>
  The indexing engine of \<^verbatim>\<open>indexer/engine.go\<close> and its reorg recovery of \<^verbatim>\<open>indexer/reorg.go\<close>: one
  \<open>Step\<close> reads the stored watermarks, validates the provider's heads, compares the saved blocks with
  the provider's, reads and links the headers of the next chunk, discovers and decodes its logs,
  rechecks the last header, computes the finality promotions and commits everything in one
  transaction; a mismatch above the safe head starts recovery instead.

  The provider, log discovery and the database are parameters of the record \<open>engine\<close>. An RPC call
  consumes a tick and its answer depends on it, so a header read twice may differ. Heights are
  integers: they are range-checked when a header is accepted.
\<close>

section \<open>Settings and dependencies\<close>

record header =
  hdNumber :: "int option"
  hdHash :: Hash
  hdParentHash :: Hash
  hdTime :: "64 word"

record Settings =
  seChainID :: int
  seDeploymentID :: string
  seFactory :: Address
  seStartBlock :: int
  seChunkSize :: int
  sePollInterval :: int
  seReorgSearchDepth :: nat
  seReorgRecoveryMode :: bool

record 'm engine =
  egSettings :: Settings
  egOwned :: bool
  egDb :: "'m db_env"
  egHeads :: "nat \<Rightarrow> rpc_error + header \<times> header \<times> header"
  egHeader :: "nat \<Rightarrow> 64 word \<Rightarrow> rpc_error + header"
  egDiscover :: "nat \<Rightarrow> 64 word \<Rightarrow> 64 word \<Rightarrow> Emitters \<Rightarrow> chain_error + DiscoveryResult"
  egDecoder :: Decoder
  egCodec :: abi_codec

definition defaultReorgSearchDepth :: nat where "defaultReorgSearchDepth = 128"

definition maxReorgSearchDepth :: nat where "maxReorgSearchDepth = 100000"

text \<open>\<open>New\<close>: the effective settings, or a refusal. The dependencies are present by typing.\<close>

definition New :: "Settings \<Rightarrow> idx_error + Settings" where
  "New settings =
     (let s = (if seReorgSearchDepth settings = 0
               then settings\<lparr>seReorgSearchDepth := defaultReorgSearchDepth\<rparr> else settings) in
      if seChainID s \<le> 0 \<or> seDeploymentID s = [] \<or> seStartBlock s < 0 \<or> seChunkSize s \<le> 0
         \<or> sePollInterval s \<le> 0 \<or> seReorgSearchDepth s > maxReorgSearchDepth
         \<or> (seReorgSearchDepth s > defaultReorgSearchDepth \<and> \<not> seReorgRecoveryMode s)
         \<or> (seReorgRecoveryMode s \<and> seReorgSearchDepth s \<le> defaultReorgSearchDepth)
      then Inl (OtherError ''invalid indexer dependencies or settings'')
      else Inr s)"

definition rpc :: "string \<Rightarrow> (nat \<Rightarrow> rpc_error + 'a) \<Rightarrow> ('m, 'a) io" where
  "rpc operation call w =
     (case call (wTick w) of
        Inl err \<Rightarrow> (Inl (RPCUnhealthy operation), tick w) | Inr a \<Rightarrow> (Inr a, tick w))"

definition headerByNumber :: "'m engine \<Rightarrow> string \<Rightarrow> int \<Rightarrow> ('m, header) io" where
  "headerByNumber e operation n = rpc operation (\<lambda>t. egHeader e t (word_of_int n))"

definition block :: "int \<Rightarrow> header option \<Rightarrow> idx_error + IndexedBlock" where
  "block chainID h =
     (case h of
        None \<Rightarrow> Inl InvalidHeader
      | Some hd' \<Rightarrow>
        (case hdNumber hd' of
           None \<Rightarrow> Inl InvalidHeader
         | Some n \<Rightarrow>
           if n > maxInt64 \<or> n < 0 \<or> uint (hdTime hd') > maxInt64 then Inl InvalidHeader
           else Inr \<lparr>ibChainID = chainID, ibBlockNumber = n, ibBlockHash = hdHash hd',
             ibParentHash = hdParentHash hd', ibBlockTime = uint (hdTime hd'),
             ibFinalityStatus = ''observed''\<rparr>))"

definition engineBlock :: "'m engine \<Rightarrow> header \<Rightarrow> ('m, IndexedBlock) io" where
  "engineBlock e h = lift_result (block (seChainID (egSettings e)) (Some h))"

section \<open>Reorg recovery\<close>

text \<open>The candidate loop, from the tip down: each header continues the one above it.\<close>

fun collectCandidates ::
    "'m engine \<Rightarrow> IndexedBlock \<Rightarrow> int list \<Rightarrow> header option \<Rightarrow> Hash list \<Rightarrow> ('m, Hash list) io" where
  "collectCandidates e tip [] previous candidates = ret candidates"
| "collectCandidates e tip (number # numbers) previous candidates =
     iobind (headerByNumber e ''read reorg candidate header'' number) (\<lambda>h.
     iobind (engineBlock e h) (\<lambda>b.
     if ibBlockNumber b \<noteq> number then raise (OtherError ''RPC reorg candidate number differs'')
     else if candidates = [] \<and> hdHash h \<noteq> ibBlockHash tip
     then raise (OtherError ''RPC reorg candidate at detected tip changed'')
     else if (case previous of None \<Rightarrow> False
              | Some p \<Rightarrow> hdNumber p \<noteq> Some (ibBlockNumber b + 1) \<or> hdParentHash p \<noteq> hdHash h)
     then raise (OtherError ''RPC reorg candidate chain is discontinuous'')
     else collectCandidates e tip numbers (Some h) (candidates @ [hdHash h])))"

definition candidateFloor :: "Settings \<Rightarrow> State \<Rightarrow> int" where
  "candidateFloor s st = (case stSafe st of None \<Rightarrow> seStartBlock s
     | Some b \<Rightarrow> if ibBlockNumber b > seStartBlock s then ibBlockNumber b else seStartBlock s)"

definition candidateNumbers :: "Settings \<Rightarrow> int \<Rightarrow> int \<Rightarrow> int list" where
  "candidateNumbers s floor tip = rev [max floor (tip - int (seReorgSearchDepth s) + 1)..tip]"

text \<open>The first recovery transaction: find the ancestor, recheck the tip, record the incident.\<close>

definition recordReorgTx :: "'m engine \<Rightarrow> State \<Rightarrow> IndexedBlock \<Rightarrow> IndexedBlock \<Rightarrow> Hash list \<Rightarrow> ('m, int) io" where
  "recordReorgTx e st observed tip candidates =
     (let s = egSettings e in
      iobind (FindCommonAncestor (egDb e) (seChainID s) candidates) (\<lambda>ancestor.
      let depth = ibBlockNumber observed - ibBlockNumber ancestor in
      if depth \<le> 0 then raise (OtherError ''reorg ancestor is not below observed tip'')
      else if (case stSafe st of None \<Rightarrow> False | Some b \<Rightarrow> ibBlockNumber ancestor < ibBlockNumber b)
      then raise SafeViolation
      else
      iobind (headerByNumber e ''recheck detected reorg tip'' (ibBlockNumber tip)) (\<lambda>h.
      iobind (engineBlock e h) (\<lambda>rechecked.
      if ibBlockNumber rechecked \<noteq> ibBlockNumber tip \<or> ibBlockHash rechecked \<noteq> ibBlockHash tip
      then raise (OtherError ''RPC reorg tip changed before recovery write'')
      else (\<lambda>w. RecordReorg (egDb e) \<lparr>rrChainID = seChainID s, rrDeploymentID = seDeploymentID s,
          rrDetectedTipNumber = ibBlockNumber tip, rrDetectedTipHash = ibBlockHash tip,
          rrCommonAncestorNumber = ibBlockNumber ancestor, rrCommonAncestorHash = ibBlockHash ancestor,
          rrDepth = depth, rrDetectedAt = envNow (egDb e) (wTick w)\<rparr> w)))))"

text \<open>The second: delete above the ancestor, rebuild what it touched, move the watermark back.\<close>

definition recoverTx :: "'m engine \<Rightarrow> State \<Rightarrow> Hash list \<Rightarrow> int \<Rightarrow> ('m, unit) io" where
  "recoverTx e st candidates reorgID =
     (let env = egDb e; chainID = seChainID (egSettings e) in
      iobind (FindCommonAncestor env chainID candidates) (\<lambda>ancestor.
      iobind (AffectedTokensAbove env chainID (ibBlockNumber ancestor)) (\<lambda>tokens.
      iobind (DeleteCanonicalAbove env chainID (ibBlockNumber ancestor)) (\<lambda>_.
      iobind (iter (\<lambda>token.
          iobind (RebuildTokenProjections env chainID token) (\<lambda>_.
          iobind (DeleteTokenStats env chainID token) (\<lambda>_.
          RecomputeTokenStats env chainID token))) tokens) (\<lambda>_.
      iobind (RecomputeProtocolAggregates False env chainID) (\<lambda>_.
      iobind (WriteState env (st\<lparr>stObserved := Some ancestor\<rparr>)) (\<lambda>_.
      CompleteReorg env reorgID)))))))"

definition recoverReorg :: "'m engine \<Rightarrow> State \<Rightarrow> IndexedBlock \<Rightarrow> ('m, unit) io" where
  "recoverReorg e st tip =
     (case stObserved st of
        None \<Rightarrow> raise (OtherError ''cannot recover reorg without observed tip'')
      | Some observed \<Rightarrow>
        let floor = candidateFloor (egSettings e) st in
        if ibBlockNumber tip < floor then raise SafeViolation
        else
        iobind (collectCandidates e tip (candidateNumbers (egSettings e) floor (ibBlockNumber tip)) None []) (\<lambda>candidates.
        if candidates = [] then raise (OtherError ''no reorg candidates at or above the configured search floor'')
        else
        iobind (Transaction (egOwned e) (egDb e) (recordReorgTx e st observed tip candidates)) (\<lambda>reorgID.
        Transaction (egOwned e) (egDb e) (recoverTx e st candidates reorgID))))"

section \<open>One step\<close>

definition readStored :: "'m engine \<Rightarrow> ('m, State \<times> TokenIdentity list) io" where
  "readStored e =
     (let s = egSettings e in
      Transaction (egOwned e) (egDb e)
        (iobind (ReadState (egDb e) (seChainID s) (seDeploymentID s)) (\<lambda>state.
         iobind (TokenIdentities (egDb e) (seChainID s)) (\<lambda>identities. ret (state, identities)))))"

definition readHeads :: "'m engine \<Rightarrow> ('m, IndexedBlock \<times> IndexedBlock \<times> IndexedBlock) io" where
  "readHeads e =
     iobind (rpc ''read heads'' (egHeads e)) (\<lambda>(hl, hs, hf).
     iobind (engineBlock e hl) (\<lambda>latest.
     iobind (engineBlock e hs) (\<lambda>safe.
     iobind (engineBlock e hf) (\<lambda>finalized.
     if ibBlockNumber safe > ibBlockNumber latest \<or> ibBlockNumber finalized > ibBlockNumber safe
     then raise HeadOrdering else ret (latest, safe, finalized)))))"

text \<open>
  Compare the saved safe and observed blocks with the provider's. The result is the provider's
  block at the height of a mismatch that recovery may repair.
\<close>

fun checkSaved :: "'m engine \<Rightarrow> State \<Rightarrow> IndexedBlock option list \<Rightarrow> ('m, IndexedBlock option) io" where
  "checkSaved e st [] = ret None"
| "checkSaved e st (None # rest) = checkSaved e st rest"
| "checkSaved e st (Some saved # rest) =
     iobind (headerByNumber e ''read saved header'' (ibBlockNumber saved)) (\<lambda>remote.
     if hdHash remote \<noteq> ibBlockHash saved then
       (if (case stSafe st of None \<Rightarrow> False | Some b \<Rightarrow> ibBlockNumber saved \<le> ibBlockNumber b)
        then raise SafeViolation
        else iobind (engineBlock e remote) (\<lambda>tip. ret (Some tip)))
     else checkSaved e st rest)"

text \<open>Headers of the chunk, linked to each other and to the observed block.\<close>

datatype chunk = ChunkReorg IndexedBlock | ChunkBlocks "IndexedBlock list"

fun readChunk :: "'m engine \<Rightarrow> State \<Rightarrow> int list \<Rightarrow> IndexedBlock option \<Rightarrow> IndexedBlock list \<Rightarrow> ('m, chunk) io" where
  "readChunk e st [] previous blocks = ret (ChunkBlocks blocks)"
| "readChunk e st (number # numbers) previous blocks =
     iobind (headerByNumber e ''read chunk header'' number) (\<lambda>h.
     iobind (engineBlock e h) (\<lambda>b.
     if ibBlockNumber b \<noteq> number then raise (OtherError ''RPC header number differs from requested number'')
     else if (case previous of None \<Rightarrow> False | Some p \<Rightarrow> ibParentHash b \<noteq> ibBlockHash p) then
       (if (case (stSafe st, previous) of (Some sb, Some p) \<Rightarrow> ibBlockNumber p \<le> ibBlockNumber sb | _ \<Rightarrow> False)
        then raise SafeViolation else ret (ChunkReorg b))
     else readChunk e st numbers (Some b) (blocks @ [b])))"

definition chunkRange :: "Settings \<Rightarrow> State \<Rightarrow> IndexedBlock \<Rightarrow> int \<times> int" where
  "chunkRange s st latest =
     (let lo = (case stObserved st of None \<Rightarrow> seStartBlock s | Some b \<Rightarrow> ibBlockNumber b + 1);
          hi = ibBlockNumber latest in
      (lo, if hi - lo \<ge> seChunkSize s then lo + seChunkSize s - 1 else hi))"

definition block_map_of :: "IndexedBlock list \<Rightarrow> block_map" where
  "block_map_of blocks = map_of (map (\<lambda>b. (ibBlockNumber b, b)) blocks)"

fun knownEmitters :: "TokenIdentity list \<Rightarrow> Emitters \<Rightarrow> idx_error + Emitters" where
  "knownEmitters [] em = Inr em"
| "knownEmitters (i # is) em =
     (if tiEngineVersion i \<noteq> 1 then Inl (OtherError ''unsupported persisted engine version'')
      else knownEmitters is (em\<lparr>emCurves := set_add (tiCurve i) (emCurves em),
        emTokens := set_add (tiToken i) (emTokens em), emPairs := set_add (tiPair i) (emPairs em)\<rparr>))"

definition decodeLog :: "'m engine \<Rightarrow> block_map \<Rightarrow> Emitters \<Rightarrow> Log \<Rightarrow> idx_error + DecodedLog" where
  "decodeLog e blocks emitters log =
     (if uint (lgBlockNumber log) > maxInt64 \<or> uint (lgTxIndex log) > maxInt32 \<or> uint (lgIndex log) > maxInt32
         \<or> lgRemoved log
      then Inl (OtherError ''invalid log coordinates'')
      else case blocks (int64_of (lgBlockNumber log)) of
        None \<Rightarrow> Inl CanonicalMismatch
      | Some b \<Rightarrow>
        if ibBlockHash b \<noteq> lgBlockHash log then Inl CanonicalMismatch
        else case Decode (egCodec e) (egDecoder e) log emitters of
          Inl err \<Rightarrow> Inl (ChainFailure err) | Inr event \<Rightarrow> Inr event)"

definition discoverChunk ::
    "'m engine \<Rightarrow> TokenIdentity list \<Rightarrow> int \<Rightarrow> int \<Rightarrow> IndexedBlock list \<Rightarrow> ('m, DecodedLog list) io" where
  "discoverChunk e identities lo hi blocks =
     iobind (lift_result (knownEmitters identities
         \<lparr>emFactory = seFactory (egSettings e), emCurves = [], emTokens = [], emPairs = []\<rparr>)) (\<lambda>emitters.
     iobind (\<lambda>w. case egDiscover e (wTick w) (word_of_int lo) (word_of_int hi) emitters of
         Inl err \<Rightarrow> (Inl (ChainFailure err), tick w) | Inr r \<Rightarrow> (Inr r, tick w)) (\<lambda>result.
     iobind (lift_result (rtraverse (decodeLog e (block_map_of blocks) (drEmitters result)) (drLogs result))) (\<lambda>decoded.
     iobind (headerByNumber e ''recheck chunk header'' hi) (\<lambda>check.
     if (case block_map_of blocks hi of None \<Rightarrow> hdHash check \<noteq> 0 | Some b \<Rightarrow> hdHash check \<noteq> ibBlockHash b)
     then raise CanonicalMismatch else ret decoded))))"

text \<open>
  One promotion: the local block at the lower of the tag and the observed height, when it lies
  above the current watermark, must be the provider's.
\<close>

definition promote ::
    "'m engine \<Rightarrow> block_map \<Rightarrow> IndexedBlock \<Rightarrow> IndexedBlock \<Rightarrow> string \<Rightarrow> IndexedBlock option \<Rightarrow> ('m, IndexedBlock option) io" where
  "promote e blocks observed remoteBlock status target =
     (let s = egSettings e; number = min (ibBlockNumber remoteBlock) (ibBlockNumber observed) in
      if number < seStartBlock s \<or> (case target of None \<Rightarrow> False | Some b \<Rightarrow> number \<le> ibBlockNumber b)
      then ret target
      else
      iobind (case blocks number of
          Some b \<Rightarrow> ret (Some b)
        | None \<Rightarrow> Transaction (egOwned e) (egDb e) (ReadBlock (egDb e) (seChainID s) number)) (\<lambda>found.
      case found of
        None \<Rightarrow> raise (OtherError ''missing promotion block'')
      | Some found_block \<Rightarrow>
        iobind (headerByNumber e ''read promotion header'' number) (\<lambda>remote.
        if hdHash remote \<noteq> ibBlockHash found_block
           \<or> (number = ibBlockNumber remoteBlock \<and> ibBlockHash found_block \<noteq> ibBlockHash remoteBlock)
        then raise CanonicalMismatch
        else ret (Some (found_block\<lparr>ibFinalityStatus := status\<rparr>)))))"

definition commitTx ::
    "'m engine \<Rightarrow> State \<Rightarrow> IndexedBlock list \<Rightarrow> DecodedLog list \<Rightarrow> TokenIdentity list \<Rightarrow> int \<Rightarrow> int \<Rightarrow> ('m, unit) io" where
  "commitTx e st blocks decoded identities previousSafe previousFinalized =
     (let env = egDb e; chainID = seChainID (egSettings e) in
      iobind (iter (\<lambda>b. iobind (UpsertIndexedBlock env b) (\<lambda>changed.
          if \<not> changed then raise CanonicalMismatch else ret ())) blocks) (\<lambda>_.
      iobind (router_Apply env chainID decoded (block_map_of blocks) identities) (\<lambda>_.
      iobind (PromoteBlocks env chainID (stSafe st) (stFinalized st) previousSafe previousFinalized) (\<lambda>_.
      WriteState env st))))"

definition number_or :: "IndexedBlock option \<Rightarrow> int" where
  "number_or b = (case b of None \<Rightarrow> -1 | Some x \<Rightarrow> ibBlockNumber x)"

text \<open>The part of a step after the chunk has been read: discovery, promotion and commit.\<close>

definition finishStep ::
    "'m engine \<Rightarrow> State \<Rightarrow> TokenIdentity list \<Rightarrow> IndexedBlock \<Rightarrow> IndexedBlock \<Rightarrow> int \<Rightarrow> int \<Rightarrow> IndexedBlock list
     \<Rightarrow> ('m, bool \<times> State option) io" where
  "finishStep e st identities safe finalized lo hi blocks =
     iobind (if blocks = [] then ret [] else discoverChunk e identities lo hi blocks) (\<lambda>decoded.
     let st1 = (if blocks = [] then st else st\<lparr>stObserved := Some (last blocks)\<rparr>) in
     case stObserved st1 of
       None \<Rightarrow> ret (False, None)
     | Some observed \<Rightarrow>
       iobind (promote e (block_map_of blocks) observed safe ''safe'' (stSafe st1)) (\<lambda>safe'.
       iobind (promote e (block_map_of blocks) observed finalized ''finalized'' (stFinalized st1)) (\<lambda>finalized'.
       let st2 = st1\<lparr>stSafe := safe', stFinalized := finalized'\<rparr> in
       iobind (Transaction (egOwned e) (egDb e)
           (commitTx e st2 blocks decoded identities (number_or (stSafe st)) (number_or (stFinalized st)))) (\<lambda>_.
       ret (blocks \<noteq> [], Some st2)))))"

text \<open>
  \<open>Step\<close> returns whether it advanced and the state handed to the commit callback, if any.
\<close>

definition Step :: "'m engine \<Rightarrow> ('m, bool \<times> State option) io" where
  "Step e =
     iobind (readStored e) (\<lambda>(st, identities).
     iobind (readHeads e) (\<lambda>(latest, safe, finalized).
     iobind (checkSaved e st [stSafe st, stObserved st]) (\<lambda>mismatch.
     case mismatch of
       Some tip \<Rightarrow> iobind (recoverReorg e st tip) (\<lambda>_. ret (True, None))
     | None \<Rightarrow>
       (case chunkRange (egSettings e) st latest of (lo, hi) \<Rightarrow>
        iobind (readChunk e st [lo..hi] (stObserved st) []) (\<lambda>chunk.
        case chunk of
          ChunkReorg tip \<Rightarrow> iobind (recoverReorg e st tip) (\<lambda>_. ret (True, None))
        | ChunkBlocks blocks \<Rightarrow> finishStep e st identities safe finalized lo hi blocks)))))"

section \<open>The run loop\<close>

text \<open>
  \<open>Run\<close> repeats steps until one fails or the context ends while polling. It has no other end, so
  the model takes the number of steps to observe; None means it is still running.
\<close>

fun Run :: "nat \<Rightarrow> 'm engine \<Rightarrow> 'm world \<Rightarrow> idx_error option \<times> 'm world" where
  "Run 0 e w = (None, w)"
| "Run (Suc fuel) e w =
     (case Step e w of
        (Inl err, w') \<Rightarrow> (Some err, w')
      | (Inr (advanced, _), w') \<Rightarrow>
          if advanced then Run fuel e w'
          else if envCtxDone (egDb e) (wTick w') then (Some ContextDone, tick w')
          else Run fuel e (tick w'))"

end
