(* ===== verification/Indexer_Invariant.thy ===== *)
theory Indexer_Invariant
  imports Indexer_Engine
begin

text \<open>
  The canonical-chain invariant of the indexer's tables, the rules for effects that can fail with
  the tables in a known state, and the effect of the block, watermark and recovery statements on
  the table of indexed blocks seen as a map from heights to blocks.
\<close>

section \<open>Effects with both outcomes\<close>

definition hoare ::
    "('m db \<Rightarrow> bool) \<Rightarrow> ('m, 'a) io \<Rightarrow> ('a \<Rightarrow> 'm db \<Rightarrow> bool) \<Rightarrow> (idx_error \<Rightarrow> 'm db \<Rightarrow> bool) \<Rightarrow> bool" where
  "hoare P m Q E \<longleftrightarrow> (\<forall>w r w'. P (wDb w) \<longrightarrow> m w = (r, w') \<longrightarrow>
     (case r of Inr a \<Rightarrow> Q a (wDb w') | Inl x \<Rightarrow> E x (wDb w')))"

definition reads_only :: "('m, 'a) io \<Rightarrow> bool" where
  "reads_only m \<longleftrightarrow> (\<forall>w r w'. m w = (r, w') \<longrightarrow> wDb w' = wDb w)"

named_theorems ro_rule \<open>effects that leave the tables alone\<close>

lemma hoare_bind: "hoare P m R E \<Longrightarrow> (\<And>a. hoare (R a) (f a) Q E) \<Longrightarrow> hoare P (iobind m f) Q E"
  unfolding hoare_def iobind_def by (fastforce split: prod.splits sum.splits)

lemma hoare_ret: "(\<And>d. P d \<Longrightarrow> Q a d) \<Longrightarrow> hoare P (ret a) Q E"
  by (simp add: hoare_def ret_eq)

lemma hoare_raise: "(\<And>d. P d \<Longrightarrow> E x d) \<Longrightarrow> hoare P (raise x) Q E"
  by (simp add: hoare_def raise_eq)

lemma hoare_pre: "hoare P m Q E \<Longrightarrow> (\<And>d. P' d \<Longrightarrow> P d) \<Longrightarrow> hoare P' m Q E"
  unfolding hoare_def by blast

lemma hoare_False: "(\<And>d. \<not> P d) \<Longrightarrow> hoare P m Q E"
  by (simp add: hoare_def)

lemma hoare_tx:
  assumes "triple P body Q" "\<And>x d. P d \<Longrightarrow> E x d" "\<And>a d. Q a d \<Longrightarrow> E CommitUnknown d"
  shows "hoare P (Transaction owned env body) Q E"
  unfolding hoare_def
proof (intro allI impI)
  fix w r w'
  assume P: "P (wDb w)" and run: "Transaction owned env body w = (r, w')"
  show "case r of Inr a \<Rightarrow> Q a (wDb w') | Inl x \<Rightarrow> E x (wDb w')"
  proof (cases r)
    case (Inr a)
    then show ?thesis using store_tx.run_success[of owned env body w a w' P Q] run assms(1) P by simp
  next
    case (Inl x)
    show ?thesis
    proof (cases "x = CommitUnknown")
      case True
      have "wDb w' = wDb w \<or> (\<exists>a. Q a (wDb w'))" by (rule store_tx.run_any[OF run assms(1) P])
      then show ?thesis using Inl True assms(2)[OF P] assms(3) by auto
    next
      case False
      then show ?thesis using store_tx.run_error[OF run[unfolded Inl]] Inl assms(2)[OF P] by simp
    qed
  qed
qed

lemma hoare_read: "reads_only m \<Longrightarrow> triple P m Q \<Longrightarrow> (\<And>x d. P d \<Longrightarrow> E x d) \<Longrightarrow> hoare P m Q E"
  unfolding hoare_def reads_only_def triple_def by (fastforce split: sum.splits)

lemma triple_tx: "triple P body Q \<Longrightarrow> triple P (Transaction owned env body) Q"
  unfolding triple_def[of P "Transaction owned env body"] by (metis store_tx.run_success)

lemma ro_ret [ro_rule]: "reads_only (ret a)"
  by (simp add: reads_only_def ret_eq)

lemma ro_raise [ro_rule]: "reads_only (raise a)"
  by (simp add: reads_only_def raise_eq)

lemma ro_lift [ro_rule]: "reads_only (lift_result a)"
  by (simp add: reads_only_def lift_result_def)

lemma ro_bind [ro_rule]: "reads_only m \<Longrightarrow> (\<And>a. reads_only (f a)) \<Longrightarrow> reads_only (iobind m f)"
  unfolding reads_only_def iobind_def by (fastforce split: prod.splits sum.splits)

lemma ro_if [ro_rule]: "reads_only a \<Longrightarrow> reads_only b \<Longrightarrow> reads_only (if p then a else b)"
  by simp

lemma ro_rpc [ro_rule]: "reads_only (rpc op call)"
  by (auto simp: reads_only_def rpc_def split: sum.splits)

lemma ro_header [ro_rule]: "reads_only (headerByNumber e op n)"
  unfolding headerByNumber_def by (rule ro_rpc)

lemma ro_block [ro_rule]: "reads_only (engineBlock e h)"
  unfolding engineBlock_def by (rule ro_lift)

lemma ro_statement: "(\<And>d a d'. q d = Inr (a, d') \<Longrightarrow> d' = d) \<Longrightarrow> reads_only (statement env q)"
  by (auto simp: reads_only_def statement_def split: if_splits sum.splits)

lemma ro_tx [ro_rule]: "reads_only body \<Longrightarrow> reads_only (Transaction owned env body)"
  unfolding reads_only_def by (metis store_tx.run_read_only)

lemma ro_collect [ro_rule]: "reads_only (collectCandidates e tip numbers previous candidates)"
  by (induction numbers arbitrary: previous candidates) (auto intro!: ro_rule)

lemma ro_checkSaved [ro_rule]: "reads_only (checkSaved e st saved)"
proof (induction saved)
  case Nil
  then show ?case by (auto intro!: ro_rule)
next
  case (Cons a saved)
  then show ?case by (cases a) (auto intro!: ro_rule)
qed

lemma ro_readChunk [ro_rule]: "reads_only (readChunk e st numbers previous blocks)"
  by (induction numbers arbitrary: previous blocks) (auto intro!: ro_rule)

lemma ro_ReadState [ro_rule]: "reads_only (ReadState env chainID dep)"
  by (auto simp: reads_only_def ReadState_def GetSyncState_def statement_def sql_GetSyncState_def
      split: if_splits sum.splits prod.splits option.splits)

lemma ro_ReadBlock [ro_rule]: "reads_only (ReadBlock env chainID n)"
  by (auto simp: reads_only_def ReadBlock_def GetIndexedBlockByNumber_def statement_def
      sql_GetIndexedBlockByNumber_def split: if_splits sum.splits prod.splits option.splits)

lemma ro_TokenIdentities [ro_rule]: "reads_only (TokenIdentities env chainID)"
  unfolding TokenIdentities_def by (intro ro_rule ro_statement) (auto simp: sql_ListTokenIdentities_def)

lemma ro_readStored [ro_rule]: "reads_only (readStored e)"
  unfolding readStored_def Let_def by (intro ro_rule)

lemma ro_readHeads [ro_rule]: "reads_only (readHeads e)"
  unfolding readHeads_def by (auto intro!: ro_rule split: prod.splits)

lemma ro_discover [ro_rule]: "reads_only (discoverChunk e identities lo hi blocks)"
proof -
  have "reads_only (\<lambda>w. case egDiscover e (wTick w) a b em of
      Inl err \<Rightarrow> (Inl (ChainFailure err), tick w) | Inr r \<Rightarrow> (Inr r, tick w))" for a b em
    by (auto simp: reads_only_def split: sum.splits)
  then show ?thesis unfolding discoverChunk_def by (intro ro_rule)
qed

lemma ro_promote [ro_rule]: "reads_only (promote e blocks observed remote status target)"
  unfolding promote_def Let_def by (auto intro!: ro_rule split: option.splits)

lemma ro_triple: "reads_only m \<Longrightarrow> triple P m Q \<Longrightarrow> triple (\<lambda>d. d = d0 \<and> P d) m (\<lambda>a d. d = d0 \<and> Q a d0)"
  unfolding reads_only_def triple_def by metis

section \<open>Indexed blocks as a map of heights\<close>

definition row_at :: "int \<Rightarrow> 'm db \<Rightarrow> int \<rightharpoonup> IndexedBlock" where
  "row_at c d n = List.find (block_at c n) (dbBlocks d)"

definition hash_at :: "int \<Rightarrow> 'm db \<Rightarrow> int \<rightharpoonup> Hash" where
  "hash_at c d n = map_option ibBlockHash (row_at c d n)"

definition blocks_unique :: "'m db \<Rightarrow> bool" where
  "blocks_unique d \<longleftrightarrow> distinct (map (\<lambda>b. (ibChainID b, ibBlockNumber b)) (dbBlocks d))"

lemma row_at_cong: "dbBlocks d' = dbBlocks d \<Longrightarrow> row_at c d' = row_at c d"
  by (simp add: row_at_def fun_eq_iff)

lemma row_at_SomeD: "row_at c d n = Some b \<Longrightarrow> b \<in> set (dbBlocks d) \<and> ibChainID b = c \<and> ibBlockNumber b = n"
  unfolding row_at_def by (auto simp: find_Some_iff block_at_def)

lemma find_unique:
  assumes "distinct (map k xs)" "b \<in> set xs" "\<And>x. P x \<longleftrightarrow> k x = k b"
  shows "List.find P xs = Some b"
  using assms
proof (induction xs)
  case (Cons x xs)
  then show ?case by (auto simp: image_iff)
qed simp

lemma row_at_member:
  assumes "blocks_unique d" "b \<in> set (dbBlocks d)"
  shows "row_at (ibChainID b) d (ibBlockNumber b) = Some b"
  unfolding row_at_def using assms
  by (intro find_unique[where k = "\<lambda>b. (ibChainID b, ibBlockNumber b)"]) (auto simp: blocks_unique_def block_at_def)

lemma find_append: "List.find P (xs @ ys) = (case List.find P xs of None \<Rightarrow> List.find P ys | Some x \<Rightarrow> Some x)"
  by (induction xs) auto

lemma find_map: "(\<And>x. P (f x) = P x) \<Longrightarrow> List.find P (map f xs) = map_option f (List.find P xs)"
  by (induction xs) auto

lemma find_filter:
  "(\<And>x. P x \<Longrightarrow> q x = b) \<Longrightarrow> List.find P (filter q xs) = (if b then List.find P xs else None)"
  by (induction xs) auto

lemma row_at_append:
  "row_at c (d\<lparr>dbBlocks := dbBlocks d @ [b]\<rparr>) n =
     (case row_at c d n of Some x \<Rightarrow> Some x | None \<Rightarrow> if block_at c n b then Some b else None)"
  by (simp add: row_at_def find_append split: option.splits)

definition promote_row :: "int \<Rightarrow> int \<Rightarrow> string \<Rightarrow> int \<Rightarrow> IndexedBlock \<Rightarrow> IndexedBlock" where
  "promote_row c m requested previous b =
     (if ibChainID b = c \<and> previous < ibBlockNumber b \<and> ibBlockNumber b \<le> m
      then b\<lparr>ibFinalityStatus := promoted_status requested (ibFinalityStatus b)\<rparr> else b)"

lemma promote_row_simps [simp]: "ibChainID (promote_row c m r p b) = ibChainID b"
  "ibBlockNumber (promote_row c m r p b) = ibBlockNumber b" "ibBlockHash (promote_row c m r p b) = ibBlockHash b"
  "ibParentHash (promote_row c m r p b) = ibParentHash b" "ibBlockTime (promote_row c m r p b) = ibBlockTime b"
  by (simp_all add: promote_row_def)

lemma sql_Promote_eq:
  "sql_PromoteIndexedBlocks c m r p d = Inr ((), d\<lparr>dbBlocks := map (promote_row c m r p) (dbBlocks d)\<rparr>)"
  unfolding sql_PromoteIndexedBlocks_def promote_row_def[abs_def] ..

lemma row_at_promote:
  "row_at c' (d\<lparr>dbBlocks := map (promote_row c m r p) (dbBlocks d)\<rparr>) n = map_option (promote_row c m r p) (row_at c' d n)"
  unfolding row_at_def by (simp add: find_map block_at_def)

lemma blocks_unique_promote:
  "blocks_unique (d\<lparr>dbBlocks := map (promote_row c m r p) (dbBlocks d)\<rparr>) = blocks_unique d"
  by (simp add: blocks_unique_def comp_def)

lemma row_at_delete:
  "row_at c (d\<lparr>dbBlocks := filter (\<lambda>b. \<not> (ibChainID b = c \<and> a < ibBlockNumber b)) (dbBlocks d)\<rparr>) n =
     (if n \<le> a then row_at c d n else None)"
proof -
  have "List.find (block_at c n) (filter (\<lambda>b. \<not> (ibChainID b = c \<and> a < ibBlockNumber b)) (dbBlocks d)) =
      (if n \<le> a then List.find (block_at c n) (dbBlocks d) else None)"
    by (rule find_filter) (auto simp: block_at_def)
  then show ?thesis by (simp add: row_at_def)
qed

section \<open>The invariant\<close>

text \<open>
  The rows of the chain cover the heights from the start block to the observed one without gaps,
  each block names its predecessor as parent, and the watermarks are stored blocks in order.
\<close>

definition canonical :: "int \<Rightarrow> int \<Rightarrow> (int \<rightharpoonup> IndexedBlock) \<Rightarrow> bool" where
  "canonical start on M \<longleftrightarrow> dom M = {start..on}
     \<and> (\<forall>n b p. M n = Some p \<longrightarrow> M (n + 1) = Some b \<longrightarrow> ibParentHash b = ibBlockHash p)"

definition point_ok :: "Settings \<Rightarrow> 'm db \<Rightarrow> sync_point option \<Rightarrow> bool" where
  "point_ok s d p = (case p of None \<Rightarrow> True
     | Some (n, h, _) \<Rightarrow> seStartBlock s \<le> n \<and> hash_at (seChainID s) d n = Some h)"

definition point_number :: "sync_point option \<Rightarrow> int" where
  "point_number p = (case p of None \<Rightarrow> -1 | Some (n, _) \<Rightarrow> n)"

definition status_at :: "SyncState \<Rightarrow> int \<Rightarrow> string" where
  "status_at y n = (if n \<le> point_number (syFinalized y) then ''finalized''
     else if n \<le> point_number (sySafe y) then ''safe'' else ''observed'')"

definition sync_inv :: "Settings \<Rightarrow> 'm db \<Rightarrow> SyncState \<Rightarrow> bool" where
  "sync_inv s d y \<longleftrightarrow> syObserved y \<noteq> None
     \<and> canonical (seStartBlock s) (point_number (syObserved y)) (row_at (seChainID s) d)
     \<and> point_ok s d (syObserved y) \<and> point_ok s d (sySafe y) \<and> point_ok s d (syFinalized y)
     \<and> point_not_ahead (sySafe y) (syObserved y) \<and> point_not_ahead (syFinalized y) (sySafe y)
     \<and> (\<forall>n b. row_at (seChainID s) d n = Some b \<longrightarrow> ibFinalityStatus b = status_at y n)"

text \<open>An event is anchored when the block its coordinates name is stored.\<close>

definition anchored :: "int \<Rightarrow> 'm db \<Rightarrow> ledger_event \<Rightarrow> bool" where
  "anchored c d e \<longleftrightarrow> (\<exists>b. row_at c d (ecBlockNumber (leCoordinates e)) = Some b
     \<and> ibBlockHash b = ecBlockHash (leCoordinates e) \<and> ibBlockTime b = ecBlockTime (leCoordinates e))"

definition stored_sync :: "Settings \<Rightarrow> 'm db \<Rightarrow> SyncState option" where
  "stored_sync s d = List.find (sync_key (seChainID s) (seDeploymentID s)) (dbSync d)"

definition engine_inv :: "Settings \<Rightarrow> 'm db \<Rightarrow> bool" where
  "engine_inv s d \<longleftrightarrow> blocks_unique d \<and> events_unique d
     \<and> (\<forall>e \<in> set (dbEvents d). ecChainID (leCoordinates e) = seChainID s \<longrightarrow> anchored (seChainID s) d e)
     \<and> (case stored_sync s d of None \<Rightarrow> row_at (seChainID s) d = Map.empty | Some y \<Rightarrow> sync_inv s d y)"

section \<open>Effects of the commit\<close>

definition fresh_blocks :: "int \<Rightarrow> 'm db \<Rightarrow> IndexedBlock list \<Rightarrow> bool" where
  "fresh_blocks c d bs \<longleftrightarrow> (\<forall>b \<in> set bs. ibChainID b = c \<and> row_at c d (ibBlockNumber b) = None)
     \<and> distinct (map ibBlockNumber bs)"

lemma upsert_fresh:
  "triple (\<lambda>d. d = d0 \<and> row_at (ibChainID b) d0 (ibBlockNumber b) = None)
     (iobind (UpsertIndexedBlock env b) (\<lambda>changed. if \<not> changed then raise CanonicalMismatch else ret ()))
     (\<lambda>_ d. d = d0\<lparr>dbBlocks := dbBlocks d0 @ [b]\<rparr>)"
proof -
  have "triple (\<lambda>d. d = d0 \<and> row_at (ibChainID b) d0 (ibBlockNumber b) = None) (UpsertIndexedBlock env b)
     (\<lambda>_ d. d = d0\<lparr>dbBlocks := dbBlocks d0 @ [b]\<rparr>)"
    unfolding UpsertIndexedBlock_def
    by (rule triple_bind[where R = "\<lambda>rows d. rows = 1 \<and> d = d0\<lparr>dbBlocks := dbBlocks d0 @ [b]\<rparr>"],
        rule triple_on_error, rule triple_statement)
      (auto simp: sql_UpsertIndexedBlock_def row_at_def triple_def ret_eq split: if_splits option.splits)
  then show ?thesis by (rule triple_bind) (auto intro!: triple_ret triple_raise)
qed

lemma fresh_blocks_Cons:
  "fresh_blocks c d (b # bs) \<Longrightarrow> fresh_blocks c (d\<lparr>dbBlocks := dbBlocks d @ [b]\<rparr>) bs"
  by (auto simp: fresh_blocks_def row_at_append block_at_def split: option.splits)

lemma upsert_all:
  "triple (\<lambda>d. d = d0 \<and> fresh_blocks c d0 bs)
     (iter (\<lambda>b. iobind (UpsertIndexedBlock env b) (\<lambda>changed. if \<not> changed then raise CanonicalMismatch else ret ())) bs)
     (\<lambda>_ d. d = d0\<lparr>dbBlocks := dbBlocks d0 @ bs\<rparr>)"
proof (induction bs arbitrary: d0)
  case Nil
  then show ?case by (simp add: triple_def ret_eq)
next
  case (Cons b bs)
  have pre: "triple (\<lambda>d. d = d0 \<and> fresh_blocks c d0 (b # bs))
      (iobind (UpsertIndexedBlock env b) (\<lambda>changed. if \<not> changed then raise CanonicalMismatch else ret ()))
      (\<lambda>_ d. d = d0\<lparr>dbBlocks := dbBlocks d0 @ [b]\<rparr> \<and> fresh_blocks c (d0\<lparr>dbBlocks := dbBlocks d0 @ [b]\<rparr>) bs)"
  proof (cases "fresh_blocks c d0 (b # bs)")
    case True
    then have "row_at (ibChainID b) d0 (ibBlockNumber b) = None" by (simp add: fresh_blocks_def)
    then show ?thesis
      by (intro triple_conseq[OF upsert_fresh[of d0 b env]]) (simp_all add: fresh_blocks_Cons[OF True])
  qed (simp add: triple_def)
  show ?case unfolding iter.simps
    by (rule triple_bind[OF pre], rule triple_conseq[OF Cons.IH]) auto
qed

definition promoteds :: "int \<Rightarrow> State \<Rightarrow> int \<Rightarrow> int \<Rightarrow> IndexedBlock \<Rightarrow> IndexedBlock" where
  "promoteds c st previousSafe previousFinalized b =
     (case stFinalized st of None \<Rightarrow> id | Some f \<Rightarrow> promote_row c (ibBlockNumber f) ''finalized'' previousFinalized)
     ((case stSafe st of None \<Rightarrow> id | Some x \<Rightarrow> promote_row c (ibBlockNumber x) ''safe'' previousSafe) b)"

lemma promoteds_simps [simp]: "ibChainID (promoteds c st p q b) = ibChainID b"
  "ibBlockNumber (promoteds c st p q b) = ibBlockNumber b" "ibBlockHash (promoteds c st p q b) = ibBlockHash b"
  "ibParentHash (promoteds c st p q b) = ibParentHash b" "ibBlockTime (promoteds c st p q b) = ibBlockTime b"
  by (simp_all add: promoteds_def split: option.splits)

lemma PromoteBlocks_triple:
  "triple (\<lambda>d. d = d0) (PromoteBlocks env c (stSafe st) (stFinalized st) p q)
     (\<lambda>_ d. d = d0\<lparr>dbBlocks := map (promoteds c st p q) (dbBlocks d0)\<rparr>)"
  unfolding PromoteBlocks_def
  by (rule triple_bind[where R = "\<lambda>_ d. d = d0\<lparr>dbBlocks := map (case stSafe st of None \<Rightarrow> id
          | Some x \<Rightarrow> promote_row c (ibBlockNumber x) ''safe'' p) (dbBlocks d0)\<rparr>"])
    (auto simp: sql_Promote_eq promoteds_def[abs_def] comp_def intro!: io_rule split: option.splits)

definition sync_of :: "State \<Rightarrow> SyncState" where
  "sync_of st = \<lparr>syChainID = stChainID st, syDeploymentID = stDeploymentID st,
     syObserved = point_of (stObserved st), sySafe = point_of (stSafe st), syFinalized = point_of (stFinalized st)\<rparr>"

lemma WriteState_triple:
  "stObserved st \<noteq> None \<Longrightarrow> triple (\<lambda>d. d = d0) (WriteState env st) (\<lambda>_ d. sync_check (sync_of st) \<and>
     d = d0\<lparr>dbSync := sync_of st # filter (\<lambda>r. \<not> sync_key (stChainID st) (stDeploymentID st) r) (dbSync d0)\<rparr>)"
  unfolding WriteState_def UpsertSyncState_def
  by (auto simp: sync_of_def[symmetric] split: option.splits
      intro!: triple_bind[where R = "\<lambda>_ d. sync_check (sync_of st) \<and>
        d = d0\<lparr>dbSync := sync_of st # filter (\<lambda>r. \<not> sync_key (stChainID st) (stDeploymentID st) r) (dbSync d0)\<rparr>"] io_rule)
    (auto simp: sql_UpsertSyncState_def sync_of_def split: if_splits)

definition committed ::
    "Settings \<Rightarrow> State \<Rightarrow> IndexedBlock list \<Rightarrow> ledger_event list \<Rightarrow> int \<Rightarrow> int \<Rightarrow> 'm db \<Rightarrow> 'm db \<Rightarrow> bool" where
  "committed s st bs es p q d d' \<longleftrightarrow>
     dbBlocks d' = map (promoteds (seChainID s) st p q) (dbBlocks d @ bs)
     \<and> sync_check (sync_of st)
     \<and> dbSync d' = sync_of st # filter (\<lambda>r. \<not> sync_key (stChainID st) (stDeploymentID st) r) (dbSync d)
     \<and> set (dbEvents d') = set (dbEvents d) \<union> set es
     \<and> (events_unique d \<longrightarrow> events_unique d')"

lemma commitTx_triple:
  assumes "stObserved st \<noteq> None"
  shows "triple (\<lambda>d. d = d0 \<and> fresh_blocks (seChainID (egSettings e)) d0 bs) (commitTx e st bs decoded ids p q)
    (\<lambda>_ d. committed (egSettings e) st bs (map (ledger_event_of (seChainID (egSettings e)) (block_map_of bs)) decoded) p q d0 d)"
proof -
  let ?c = "seChainID (egSettings e)"
  let ?es = "map (ledger_event_of ?c (block_map_of bs)) decoded"
  let ?d1 = "d0\<lparr>dbBlocks := dbBlocks d0 @ bs\<rparr>"
  have 1: "triple (\<lambda>d. d = ?d1) (router_Apply (egDb e) ?c decoded (block_map_of bs) ids) (\<lambda>_. stored_all ?es ?d1)"
    by (rule router_Apply_stored)
  have 2: "triple (stored_all ?es ?d1) (PromoteBlocks (egDb e) ?c (stSafe st) (stFinalized st) p q)
     (\<lambda>_ d. dbBlocks d = map (promoteds ?c st p q) (dbBlocks d0 @ bs) \<and> dbSync d = dbSync d0
       \<and> set (dbEvents d) = set (dbEvents d0) \<union> set ?es \<and> (events_unique d0 \<longrightarrow> events_unique d))"
    unfolding triple_def
  proof (intro allI impI)
    fix w a w'
    assume "stored_all ?es ?d1 (wDb w)"
      and run: "PromoteBlocks (egDb e) ?c (stSafe st) (stFinalized st) p q w = (Inr a, w')"
    moreover have "wDb w' = (wDb w)\<lparr>dbBlocks := map (promoteds ?c st p q) (dbBlocks (wDb w))\<rparr>"
      using PromoteBlocks_triple[of "wDb w" "egDb e" ?c st p q] run unfolding triple_def by blast
    ultimately show "dbBlocks (wDb w') = map (promoteds ?c st p q) (dbBlocks d0 @ bs) \<and> dbSync (wDb w') = dbSync d0
       \<and> set (dbEvents (wDb w')) = set (dbEvents d0) \<union> set ?es \<and> (events_unique d0 \<longrightarrow> events_unique (wDb w'))"
      by (simp add: stored_all_def events_unique_def)
  qed
  have 3: "triple (\<lambda>d. dbBlocks d = map (promoteds ?c st p q) (dbBlocks d0 @ bs) \<and> dbSync d = dbSync d0
       \<and> set (dbEvents d) = set (dbEvents d0) \<union> set ?es \<and> (events_unique d0 \<longrightarrow> events_unique d))
     (WriteState (egDb e) st) (\<lambda>_. committed (egSettings e) st bs ?es p q d0)"
    unfolding triple_def
  proof (intro allI impI)
    fix w a w'
    assume "dbBlocks (wDb w) = map (promoteds ?c st p q) (dbBlocks d0 @ bs) \<and> dbSync (wDb w) = dbSync d0
       \<and> set (dbEvents (wDb w)) = set (dbEvents d0) \<union> set ?es \<and> (events_unique d0 \<longrightarrow> events_unique (wDb w))"
      and run: "WriteState (egDb e) st w = (Inr a, w')"
    moreover have "sync_check (sync_of st) \<and> wDb w' =
        (wDb w)\<lparr>dbSync := sync_of st # filter (\<lambda>r. \<not> sync_key (stChainID st) (stDeploymentID st) r) (dbSync (wDb w))\<rparr>"
      using WriteState_triple[OF assms, of "wDb w" "egDb e"] run unfolding triple_def by blast
    ultimately show "committed (egSettings e) st bs ?es p q d0 (wDb w')"
      by (simp add: committed_def events_unique_def)
  qed
  show ?thesis unfolding commitTx_def Let_def
    by (rule triple_bind[OF upsert_all], rule triple_bind[OF 1], rule triple_bind[OF 2], rule 3)
qed

end
