(* ===== verification/Indexer_Commit.thy ===== *)
theory Indexer_Commit
  imports Indexer_Invariant
begin

text \<open>
  What the reading phases of a step establish about the values they return (the stored state, the
  linked chunk, the checked logs, the promotions), and that committing such values keeps the
  canonical-chain invariant.
\<close>

section \<open>Reading the stored state\<close>

definition read_state :: "Settings \<Rightarrow> 'm db \<Rightarrow> State" where
  "read_state s d = (case stored_sync s d of
     None \<Rightarrow> \<lparr>stChainID = seChainID s, stDeploymentID = seDeploymentID s, stObserved = None, stSafe = None,
       stFinalized = None\<rparr>
   | Some y \<Rightarrow> \<lparr>stChainID = seChainID s, stDeploymentID = seDeploymentID s,
       stObserved = syncBlock (seChainID s) (syObserved y), stSafe = syncBlock (seChainID s) (sySafe y),
       stFinalized = syncBlock (seChainID s) (syFinalized y)\<rparr>)"

lemma ReadState_triple:
  "triple (\<lambda>d. d = d0) (ReadState env (seChainID s) (seDeploymentID s)) (\<lambda>st d. d = d0 \<and> st = read_state s d0)"
  by (auto simp: triple_def ReadState_def GetSyncState_def statement_def sql_GetSyncState_def read_state_def
      stored_sync_def split: if_splits sum.splits prod.splits option.splits)

lemma readStored_triple:
  "triple (\<lambda>d. d = d0) (readStored e) (\<lambda>(st, ids) d. d = d0 \<and> st = read_state (egSettings e) d0)"
proof -
  have "triple (\<lambda>d. d = d0) (iobind (ReadState (egDb e) (seChainID (egSettings e)) (seDeploymentID (egSettings e)))
      (\<lambda>state. iobind (TokenIdentities (egDb e) (seChainID (egSettings e))) (\<lambda>ids. ret (state, ids))))
      (\<lambda>(st, ids) d. d = d0 \<and> st = read_state (egSettings e) d0)"
    by (rule triple_bind[OF ReadState_triple])
      (auto simp: TokenIdentities_def sql_ListTokenIdentities_def intro!: triple_ret triple_statement
        triple_bind[where R = "\<lambda>_ d. d = d0 \<and> _ = read_state (egSettings e) d0"])
  then show ?thesis unfolding readStored_def Let_def by (rule triple_tx)
qed

lemma point_of_syncBlock [simp]: "point_of (syncBlock c p) = p"
  by (simp add: point_of_def syncBlock_def split: option.splits)

lemma point_number_point_of [simp]: "point_number (point_of b) = number_or b"
  by (simp add: point_number_def point_of_def number_or_def split: option.splits)

section \<open>The chunk\<close>

fun linked :: "IndexedBlock option \<Rightarrow> IndexedBlock list \<Rightarrow> bool" where
  "linked prev [] = True"
| "linked prev (b # bs) = ((case prev of None \<Rightarrow> True | Some p \<Rightarrow> ibParentHash b = ibBlockHash p) \<and> linked (Some b) bs)"

definition chunk_ok :: "int \<Rightarrow> int list \<Rightarrow> IndexedBlock option \<Rightarrow> IndexedBlock list \<Rightarrow> bool" where
  "chunk_ok c ns prev bs \<longleftrightarrow> map ibBlockNumber bs = ns \<and> linked prev bs
     \<and> (\<forall>b \<in> set bs. ibChainID b = c \<and> ibFinalityStatus b = ''observed'')"

lemma block_Inr: "block c h = Inr b \<Longrightarrow> ibChainID b = c \<and> ibFinalityStatus b = ''observed'' \<and> 0 \<le> ibBlockNumber b"
  by (auto simp: block_def split: option.splits if_splits)

lemma readChunk_Inr:
  assumes "readChunk e st ns prev acc w = (Inr (ChunkBlocks out), w')"
  shows "\<exists>bs. out = acc @ bs \<and> chunk_ok (seChainID (egSettings e)) ns prev bs"
  using assms
proof (induction ns arbitrary: prev acc w)
  case Nil
  then show ?case by (simp add: ret_eq chunk_ok_def)
next
  case (Cons n ns)
  from Cons.prems obtain h b w1 where
      b: "block (seChainID (egSettings e)) (Some h) = Inr b" "ibBlockNumber b = n"
        "case prev of None \<Rightarrow> True | Some p \<Rightarrow> ibParentHash b = ibBlockHash p"
    and rest: "readChunk e st ns (Some b) (acc @ [b]) w1 = (Inr (ChunkBlocks out), w')"
    by (auto simp: iobind_eq_Inr engineBlock_def lift_result_def raise_eq ret_eq split: if_splits option.splits)
  from Cons.IH[OF rest] obtain bs where "out = (acc @ [b]) @ bs" "chunk_ok (seChainID (egSettings e)) ns (Some b) bs"
    by blast
  then have "out = acc @ (b # bs) \<and> chunk_ok (seChainID (egSettings e)) (n # ns) prev (b # bs)"
    using b block_Inr[OF b(1)] by (simp add: chunk_ok_def)
  then show ?case by blast
qed

lemma block_map_of_SomeD: "block_map_of bs n = Some b \<Longrightarrow> b \<in> set bs \<and> ibBlockNumber b = n"
  unfolding block_map_of_def by (drule map_of_SomeD) auto

lemma block_map_of_dom: "dom (block_map_of bs) = ibBlockNumber ` set bs"
  by (simp add: block_map_of_def dom_map_of_conv_image_fst image_image)

lemma block_map_of_Cons: "block_map_of (b # bs) n = (if n = ibBlockNumber b then Some b else block_map_of bs n)"
  by (simp add: block_map_of_def)

lemma linked_step:
  assumes "linked prev bs" "map ibBlockNumber bs = [lo..hi]"
  shows "(block_map_of bs n = Some p \<longrightarrow> block_map_of bs (n + 1) = Some b \<longrightarrow> ibParentHash b = ibBlockHash p)
    \<and> (\<forall>q. prev = Some q \<longrightarrow> block_map_of bs lo = Some b \<longrightarrow> ibParentHash b = ibBlockHash q)"
  using assms
proof (induction bs arbitrary: prev lo)
  case Nil
  then show ?case by (simp add: block_map_of_def)
next
  case (Cons x bs)
  have "lo \<le> hi" using Cons.prems(2) by (cases "hi < lo") auto
  then have x: "ibBlockNumber x = lo" "map ibBlockNumber bs = [lo + 1..hi]"
    using Cons.prems(2) by (auto simp: upto.simps[of lo hi])
  note IH = Cons.IH[of "Some x" "lo + 1", OF _ x(2)]
  have "ibBlockNumber ` set bs = {lo + 1..hi}" using x(2) by (metis set_map set_upto)
  then have "m \<notin> dom (block_map_of bs)" if "m \<le> lo" for m
    using that by (simp add: block_map_of_dom)
  then have "block_map_of bs m = None" if "m \<le> lo" for m using that by blast
  then show ?case
    using IH Cons.prems(1) x(1) by (auto simp: block_map_of_Cons split: if_splits)
qed

lemma last_number: "map ibBlockNumber bs = [lo..hi] \<Longrightarrow> bs \<noteq> [] \<Longrightarrow> ibBlockNumber (last bs) = hi \<and> lo \<le> hi"
proof -
  assume m: "map ibBlockNumber bs = [lo..hi]" and ne: "bs \<noteq> []"
  have le: "lo \<le> hi" using m ne by (cases "hi < lo") auto
  have "ibBlockNumber (last bs) = last [lo..hi]" using m ne by (metis last_map)
  also have "\<dots> = hi" using le upto_rec2[of lo hi] by simp
  finally show ?thesis using le by simp
qed

section \<open>Checked logs\<close>

lemma small_sint: "uint (w :: 64 word) \<le> maxInt64 \<Longrightarrow> int64_of w = uint w"
proof -
  assume "uint w \<le> maxInt64"
  moreover have "0 \<le> uint w" by simp
  ultimately have "uint w < 2 ^ 63" "- (2 ^ 63) \<le> uint w" unfolding maxInt64_def by linarith+
  then show ?thesis by (simp add: int64_of_def sint_uint signed_take_bit_int_eq_self_iff)
qed

definition anchored_in :: "IndexedBlock list \<Rightarrow> ledger_event \<Rightarrow> bool" where
  "anchored_in bs e \<longleftrightarrow> (\<exists>b. block_map_of bs (ecBlockNumber (leCoordinates e)) = Some b
     \<and> ibBlockHash b = ecBlockHash (leCoordinates e) \<and> ibBlockTime b = ecBlockTime (leCoordinates e))"

lemma Decode_coordinates: "Decode codec d log em = Inr dl \<Longrightarrow> dlCoordinates dl = coordinates log"
  by (erule Decode_InrE)

lemma decodeLog_anchored:
  assumes "decodeLog e (block_map_of bs) em log = Inr dl"
  shows "anchored_in bs (ledger_event_of c (block_map_of bs) dl)"
proof -
  from assms obtain b where b: "block_map_of bs (int64_of (lgBlockNumber log)) = Some b" "ibBlockHash b = lgBlockHash log"
      and dec: "Decode (egCodec e) (egDecoder e) log em = Inr dl"
    by (auto simp: decodeLog_def split: if_splits option.splits sum.splits)
  have "dlCoordinates dl = coordinates log" using dec by (rule Decode_coordinates)
  then show ?thesis using b
    by (simp add: anchored_in_def ledger_event_of_def eventCoordinates_def coordinates_def Let_def blockTimeAt_def)
qed

lemma discoverChunk_anchored:
  assumes "discoverChunk e ids lo hi bs w = (Inr decoded, w')"
  shows "\<forall>ev \<in> set (map (ledger_event_of c (block_map_of bs)) decoded). anchored_in bs ev"
proof -
  from assms obtain r :: DiscoveryResult where "rtraverse (decodeLog e (block_map_of bs) (drEmitters r)) (drLogs r) = Inr decoded"
    unfolding discoverChunk_def iobind_eq_Inr lift_result_def
    by (auto simp: ret_eq raise_eq split: if_splits option.splits)
  then have "list_all2 (\<lambda>log dl. decodeLog e (block_map_of bs) (drEmitters r) log = Inr dl) (drLogs r) decoded"
    by (simp add: rtraverse_Inr)
  then show ?thesis
    by (induction rule: list_all2_induct) (auto intro: decodeLog_anchored)
qed

lemma ledger_event_chain [simp]: "ecChainID (leCoordinates (ledger_event_of c bm log)) = c"
  by (simp add: ledger_event_of_def eventCoordinates_def Let_def)

section \<open>Promotions\<close>

definition merged_hash :: "int \<Rightarrow> 'm db \<Rightarrow> IndexedBlock list \<Rightarrow> int \<rightharpoonup> Hash" where
  "merged_hash c d bs n = (case block_map_of bs n of Some b \<Rightarrow> Some (ibBlockHash b) | None \<Rightarrow> hash_at c d n)"

definition promotion_ok ::
    "Settings \<Rightarrow> 'm db \<Rightarrow> IndexedBlock list \<Rightarrow> IndexedBlock \<Rightarrow> IndexedBlock \<Rightarrow> IndexedBlock option \<Rightarrow> IndexedBlock option \<Rightarrow> bool" where
  "promotion_ok s d bs observed remote target result \<longleftrightarrow>
     (let n = min (ibBlockNumber remote) (ibBlockNumber observed) in
      if n < seStartBlock s \<or> (\<exists>t. target = Some t \<and> n \<le> ibBlockNumber t) then result = target
      else \<exists>b. result = Some b \<and> ibBlockNumber b = n \<and> merged_hash (seChainID s) d bs n = Some (ibBlockHash b))"

lemma promote_triple:
  "triple (\<lambda>d. d = d0) (promote e (block_map_of bs) observed remote status target)
     (\<lambda>r d. d = d0 \<and> promotion_ok (egSettings e) d0 bs observed remote target r)"
proof -
  define s where "s = egSettings e"
  define n where "n = min (ibBlockNumber remote) (ibBlockNumber observed)"
  show ?thesis
  proof (cases "n < seStartBlock s \<or> (\<exists>t. target = Some t \<and> n \<le> ibBlockNumber t)")
    case True
    then have p: "promote e (block_map_of bs) observed remote status target = ret target"
      unfolding promote_def Let_def n_def[symmetric] s_def[symmetric] by (auto split: option.splits)
    show ?thesis unfolding p using True
      by (intro triple_ret) (simp add: promotion_ok_def Let_def n_def[symmetric] s_def[symmetric])
  next
    case False
    let ?read = "case block_map_of bs n of Some b \<Rightarrow> ret (Some b)
        | None \<Rightarrow> Transaction (egOwned e) (egDb e) (ReadBlock (egDb e) (seChainID s) n)"
    let ?k = "\<lambda>found. case found of None \<Rightarrow> raise (OtherError ''missing promotion block'')
      | Some found_block \<Rightarrow> iobind (headerByNumber e ''read promotion header'' n) (\<lambda>h.
        if hdHash h \<noteq> ibBlockHash found_block
           \<or> (n = ibBlockNumber remote \<and> ibBlockHash found_block \<noteq> ibBlockHash remote)
        then raise CanonicalMismatch else ret (Some (found_block\<lparr>ibFinalityStatus := status\<rparr>)))"
    have p: "promote e (block_map_of bs) observed remote status target = iobind ?read ?k"
      unfolding promote_def Let_def n_def[symmetric] s_def[symmetric] using False by (auto split: option.splits)
    have "triple (\<lambda>d. d = d0) (ReadBlock (egDb e) (seChainID s) n)
        (\<lambda>r d. d = d0 \<and> (\<forall>b. r = Some b \<longrightarrow> row_at (seChainID s) d0 n = Some b))"
      by (auto simp: triple_def ReadBlock_def GetIndexedBlockByNumber_def statement_def row_at_def
          sql_GetIndexedBlockByNumber_def split: if_splits sum.splits prod.splits option.splits)
    note tx = triple_tx[OF this, of "egOwned e" "egDb e"]
    have 1: "triple (\<lambda>d. d = d0) ?read (\<lambda>r d. d = d0 \<and> (\<forall>b. r = Some b \<longrightarrow> ibBlockNumber b = n
        \<and> merged_hash (seChainID s) d0 bs n = Some (ibBlockHash b)))"
    proof (cases "block_map_of bs n")
      case None
      then show ?thesis
        using triple_conseq[OF tx, of "\<lambda>d. d = d0" "\<lambda>r d. d = d0 \<and> (\<forall>b. r = Some b \<longrightarrow> ibBlockNumber b = n
          \<and> merged_hash (seChainID s) d0 bs n = Some (ibBlockHash b))"]
        by (auto simp: merged_hash_def hash_at_def dest: row_at_SomeD)
    next
      case (Some b)
      then show ?thesis by (auto intro!: triple_ret simp: merged_hash_def dest: block_map_of_SomeD)
    qed
    have 2: "triple (\<lambda>d. d = d0 \<and> (\<forall>b. found = Some b \<longrightarrow> ibBlockNumber b = n
        \<and> merged_hash (seChainID s) d0 bs n = Some (ibBlockHash b))) (?k found)
        (\<lambda>r d. d = d0 \<and> promotion_ok s d0 bs observed remote target r)" for found
    proof (cases found)
      case None
      then show ?thesis by (simp add: triple_raise)
    next
      case (Some b)
      then show ?thesis using False
        by (auto simp: triple_def iobind_eq_Inr headerByNumber_def rpc_def ret_eq raise_eq promotion_ok_def Let_def
            n_def[symmetric] split: sum.splits if_splits)
    qed
    show ?thesis unfolding p s_def[symmetric] by (rule triple_bind[OF 1 2])
  qed
qed

section \<open>The invariant over states\<close>

definition mark_ok :: "int \<Rightarrow> (int \<rightharpoonup> IndexedBlock) \<Rightarrow> IndexedBlock option \<Rightarrow> bool" where
  "mark_ok start M x \<longleftrightarrow> (\<forall>b. x = Some b \<longrightarrow> start \<le> ibBlockNumber b
     \<and> (\<exists>r. M (ibBlockNumber b) = Some r \<and> ibBlockHash r = ibBlockHash b))"

definition not_ahead :: "IndexedBlock option \<Rightarrow> IndexedBlock option \<Rightarrow> bool" where
  "not_ahead x y \<longleftrightarrow> (\<forall>b. x = Some b \<longrightarrow> (\<exists>b'. y = Some b' \<and> ibBlockNumber b \<le> ibBlockNumber b'))"

definition status_for :: "State \<Rightarrow> int \<Rightarrow> string" where
  "status_for st n = (if n \<le> number_or (stFinalized st) then ''finalized''
     else if n \<le> number_or (stSafe st) then ''safe'' else ''observed'')"

definition covered :: "int \<Rightarrow> State \<Rightarrow> int set" where
  "covered start st = (case stObserved st of None \<Rightarrow> {} | Some b \<Rightarrow> {start..ibBlockNumber b})"

definition links :: "(int \<rightharpoonup> IndexedBlock) \<Rightarrow> bool" where
  "links M \<longleftrightarrow> (\<forall>n p b. M n = Some p \<longrightarrow> M (n + 1) = Some b \<longrightarrow> ibParentHash b = ibBlockHash p)"

definition state_inv :: "int \<Rightarrow> (int \<rightharpoonup> IndexedBlock) \<Rightarrow> State \<Rightarrow> bool" where
  "state_inv start M st \<longleftrightarrow> dom M = covered start st \<and> links M
     \<and> mark_ok start M (stObserved st) \<and> mark_ok start M (stSafe st) \<and> mark_ok start M (stFinalized st)
     \<and> not_ahead (stSafe st) (stObserved st) \<and> not_ahead (stFinalized st) (stSafe st)
     \<and> (\<forall>n b. M n = Some b \<longrightarrow> ibFinalityStatus b = status_for st n)"

lemma point_ok_of: "point_ok s d (point_of x) \<longleftrightarrow> mark_ok (seStartBlock s) (row_at (seChainID s) d) x"
  by (cases x) (auto simp: point_ok_def point_of_def mark_ok_def hash_at_def)

lemma not_ahead_of: "point_not_ahead (point_of x) (point_of y) \<longleftrightarrow> not_ahead x y"
  by (cases x; cases y) (auto simp: point_not_ahead_def point_of_def not_ahead_def)

lemma sync_inv_of:
  assumes "syObserved y = point_of (stObserved st)" "sySafe y = point_of (stSafe st)"
    "syFinalized y = point_of (stFinalized st)" "stObserved st \<noteq> None"
  shows "sync_inv s d y \<longleftrightarrow> state_inv (seStartBlock s) (row_at (seChainID s) d) st"
proof -
  obtain b where b: "stObserved st = Some b" using assms(4) by blast
  then have "canonical (seStartBlock s) (point_number (syObserved y)) (row_at (seChainID s) d) \<longleftrightarrow>
      dom (row_at (seChainID s) d) = covered (seStartBlock s) st \<and> links (row_at (seChainID s) d)"
    by (auto simp: canonical_def covered_def links_def assms(1) number_or_def)
  then show ?thesis
    using b by (simp add: sync_inv_def state_inv_def assms(1-3) point_ok_of not_ahead_of status_at_def status_for_def)
      (auto simp: point_of_def)
qed

lemma stored_sync_key: "stored_sync s d = Some y \<Longrightarrow> syChainID y = seChainID s \<and> syDeploymentID y = seDeploymentID s"
  unfolding stored_sync_def by (auto simp: find_Some_iff sync_key_def)

lemma engine_inv_state:
  assumes "engine_inv s d"
  shows "state_inv (seStartBlock s) (row_at (seChainID s) d) (read_state s d)"
proof (cases "stored_sync s d")
  case None
  then show ?thesis using assms
    by (simp add: engine_inv_def state_inv_def read_state_def covered_def links_def mark_ok_def not_ahead_def)
next
  case (Some y)
  then have y: "sync_inv s d y" using assms by (simp add: engine_inv_def)
  then have "stObserved (read_state s d) \<noteq> None"
    using Some by (auto simp: read_state_def sync_inv_def syncBlock_def)
  moreover have "syObserved y = point_of (stObserved (read_state s d))" "sySafe y = point_of (stSafe (read_state s d))"
    "syFinalized y = point_of (stFinalized (read_state s d))"
    using Some by (simp_all add: read_state_def)
  ultimately show ?thesis using y sync_inv_of by blast
qed

section \<open>Committing a chunk\<close>

definition merged :: "(int \<rightharpoonup> IndexedBlock) \<Rightarrow> IndexedBlock list \<Rightarrow> int \<rightharpoonup> IndexedBlock" where
  "merged M bs n = (case M n of Some b \<Rightarrow> Some b | None \<Rightarrow> block_map_of bs n)"

definition next_height :: "int \<Rightarrow> State \<Rightarrow> int" where
  "next_height start st = (case stObserved st of None \<Rightarrow> start | Some b \<Rightarrow> ibBlockNumber b + 1)"

lemma merged_rows:
  assumes "\<forall>b \<in> set bs. ibChainID b = c" "dbBlocks d' = map f (dbBlocks d @ bs)"
    "\<And>b. ibChainID (f b) = ibChainID b \<and> ibBlockNumber (f b) = ibBlockNumber b"
  shows "row_at c d' n = map_option f (merged (row_at c d) bs n)"
proof -
  have "List.find (block_at c n) bs = block_map_of bs n"
    using assms(1) by (induction bs) (auto simp: block_map_of_def block_at_def)
  moreover have "row_at c d' n = map_option f (List.find (block_at c n) (dbBlocks d @ bs))"
    unfolding row_at_def assms(2) by (rule find_map) (simp add: block_at_def assms(3))
  ultimately show ?thesis by (simp add: merged_def row_at_def find_append split: option.splits)
qed

lemma merged_dom:
  assumes "dom M = covered start st" "map ibBlockNumber bs = [next_height start st..hi]"
    "stObserved st2 = (if bs = [] then stObserved st else Some (last bs))"
    "mark_ok start M (stObserved st)"
  shows "dom (merged M bs) = covered start st2"
proof -
  have d: "dom (merged M bs) = covered start st \<union> {next_height start st..hi}"
  proof -
    have "dom (merged M bs) = dom M \<union> dom (block_map_of bs)"
      by (auto simp: merged_def split: option.splits)
    moreover have "dom (block_map_of bs) = {next_height start st..hi}"
      unfolding block_map_of_dom using assms(2) by (metis set_map set_upto)
    ultimately show ?thesis using assms(1) by simp
  qed
  show ?thesis
  proof (cases "bs = []")
    case True
    then have "{next_height start st..hi} = {}" using assms(2) by (metis list.simps(8) set_upto list.set(1))
    then show ?thesis using d True assms(3) by (simp add: covered_def)
  next
    case False
    then have l: "ibBlockNumber (last bs) = hi" "next_height start st \<le> hi" using last_number[OF assms(2)] by auto
    show ?thesis
    proof (cases "stObserved st")
      case None
      then show ?thesis using d l False assms(3) by (simp add: covered_def next_height_def)
    next
      case (Some b)
      then have "start \<le> ibBlockNumber b" using assms(4) by (simp add: mark_ok_def)
      then show ?thesis using d l False assms(3) Some by (auto simp: covered_def next_height_def)
    qed
  qed
qed

lemma merged_links:
  assumes "dom M = covered start st" "links M" "mark_ok start M (stObserved st)"
    "chunk_ok c [next_height start st..hi] (stObserved st) bs"
  shows "links (merged M bs)"
  unfolding links_def
proof (intro allI impI)
  fix n p b
  assume p: "merged M bs n = Some p" and b: "merged M bs (n + 1) = Some b"
  note lk = linked_step[of "stObserved st" bs "next_height start st" hi n p b]
  have ch: "linked (stObserved st) bs" "map ibBlockNumber bs = [next_height start st..hi]"
    using assms(4) by (simp_all add: chunk_ok_def)
  have new: "next_height start st \<le> m" if "block_map_of bs m = Some x" for m x
    using block_map_of_SomeD[OF that] ch(2) by (metis atLeastAtMost_iff image_eqI set_map set_upto)
  show "ibParentHash b = ibBlockHash p"
  proof (cases "M (n + 1)")
    case (Some b')
    then have "n + 1 \<in> covered start st" using assms(1) by blast
    then obtain o' where o: "stObserved st = Some o'" "n + 1 \<le> ibBlockNumber o'"
      by (auto simp: covered_def split: option.splits)
    then have "block_map_of bs n = None" using new[of n] by (cases "block_map_of bs n") (auto simp: next_height_def)
    then have "M n = Some p" using p by (simp add: merged_def split: option.splits)
    then show ?thesis using Some b assms(2) by (simp add: merged_def links_def)
  next
    case None
    then have nb: "block_map_of bs (n + 1) = Some b" using b by (simp add: merged_def)
    show ?thesis
    proof (cases "M n")
      case None
      then show ?thesis using p nb lk ch by (simp add: merged_def)
    next
      case (Some p')
      then have pp: "p' = p" using p by (simp add: merged_def)
      have "n \<in> covered start st" using Some assms(1) by blast
      then obtain o' where o: "stObserved st = Some o'" "n \<le> ibBlockNumber o'"
        by (auto simp: covered_def split: option.splits)
      then have n: "n = ibBlockNumber o'" using new[OF nb] by (simp add: next_height_def)
      then have "ibBlockHash p = ibBlockHash o'" using assms(3) o Some pp by (simp add: mark_ok_def)
      then show ?thesis using lk ch nb o n by (simp add: next_height_def)
    qed
  qed
qed

lemma merged_old: "M n = Some b \<Longrightarrow> merged M bs n = Some b"
  by (simp add: merged_def)

lemma mark_ok_merged: "mark_ok start M x \<Longrightarrow> mark_ok start (merged M bs) x"
  unfolding mark_ok_def by (metis merged_old)

lemma merged_hash_eq:
  assumes "dom (row_at c d) = covered start st" "map ibBlockNumber bs = [next_height start st..hi]"
  shows "merged_hash c d bs n = map_option ibBlockHash (merged (row_at c d) bs n)"
proof (cases "block_map_of bs n")
  case None
  then show ?thesis by (simp add: merged_hash_def merged_def hash_at_def split: option.splits)
next
  case (Some b)
  then have "next_height start st \<le> n"
    using block_map_of_SomeD[OF Some] assms(2) by (metis atLeastAtMost_iff image_eqI set_map set_upto)
  then have "n \<notin> covered start st" by (auto simp: covered_def next_height_def split: option.splits)
  then have "row_at c d n = None" using assms(1) by blast
  then show ?thesis using Some by (simp add: merged_hash_def merged_def)
qed

lemma block_map_of_last:
  assumes "map ibBlockNumber bs = [lo..hi]" "bs \<noteq> []"
  shows "block_map_of bs (ibBlockNumber (last bs)) = Some (last bs)"
proof -
  have "distinct (map ibBlockNumber bs)" by (simp add: assms(1))
  then show ?thesis using assms(2) unfolding block_map_of_def by (simp add: comp_def)
qed

definition ready ::
    "Settings \<Rightarrow> 'm db \<Rightarrow> IndexedBlock list \<Rightarrow> int \<Rightarrow> State \<Rightarrow> State \<Rightarrow> bool" where
  "ready s d bs hi st st2 \<longleftrightarrow>
     chunk_ok (seChainID s) [next_height (seStartBlock s) st..hi] (stObserved st) bs
     \<and> stObserved st2 = (if bs = [] then stObserved st else Some (last bs))
     \<and> (\<exists>observed safe finalized. stObserved st2 = Some observed \<and> ibBlockNumber finalized \<le> ibBlockNumber safe
          \<and> promotion_ok s d bs observed safe (stSafe st) (stSafe st2)
          \<and> promotion_ok s d bs observed finalized (stFinalized st) (stFinalized st2))"

abbreviation kept_at :: "Settings \<Rightarrow> IndexedBlock option \<Rightarrow> int \<Rightarrow> bool" where
  "kept_at s target n \<equiv> n < seStartBlock s \<or> (\<exists>t. target = Some t \<and> n \<le> ibBlockNumber t)"

lemma promotion_kept:
  "promotion_ok s d bs observed remote target result \<Longrightarrow>
   kept_at s target (min (ibBlockNumber remote) (ibBlockNumber observed)) \<Longrightarrow> result = target"
  unfolding promotion_ok_def Let_def by (simp only: if_True)

lemma promotion_moved:
  assumes "promotion_ok s d bs observed remote target result"
    "\<not> kept_at s target (min (ibBlockNumber remote) (ibBlockNumber observed))"
  obtains b where "result = Some b" "ibBlockNumber b = min (ibBlockNumber remote) (ibBlockNumber observed)"
    "merged_hash (seChainID s) d bs (min (ibBlockNumber remote) (ibBlockNumber observed)) = Some (ibBlockHash b)"
  using assms unfolding promotion_ok_def Let_def by (simp only: if_False) blast

lemma promotion_mark:
  assumes "promotion_ok s d bs observed remote target result"
    "dom (row_at (seChainID s) d) = covered (seStartBlock s) st"
    "map ibBlockNumber bs = [next_height (seStartBlock s) st..hi]"
    "mark_ok (seStartBlock s) (row_at (seChainID s) d) target"
  shows "mark_ok (seStartBlock s) (merged (row_at (seChainID s) d) bs) result"
proof -
  let ?n = "min (ibBlockNumber remote) (ibBlockNumber observed)"
  show ?thesis
  proof (cases "?n < seStartBlock s \<or> (\<exists>t. target = Some t \<and> ?n \<le> ibBlockNumber t)")
    case True
    then have "result = target" using promotion_kept[OF assms(1)] by blast
    then show ?thesis using mark_ok_merged[OF assms(4)] by simp
  next
    case False
    obtain b where "result = Some b" "ibBlockNumber b = ?n"
        "merged_hash (seChainID s) d bs ?n = Some (ibBlockHash b)"
      by (rule promotion_moved[OF assms(1) False])
    then show ?thesis using False merged_hash_eq[OF assms(2,3), of ?n] by (auto simp: mark_ok_def)
  qed
qed

lemma promotion_number:
  assumes "promotion_ok s d bs observed remote target result"
  shows "number_or target \<le> number_or result \<or> target = None"
    "\<And>b. result = Some b \<Longrightarrow> target = Some b \<or> ibBlockNumber b = min (ibBlockNumber remote) (ibBlockNumber observed)"
proof -
  let ?n = "min (ibBlockNumber remote) (ibBlockNumber observed)"
  show "number_or target \<le> number_or result \<or> target = None"
  proof (cases "kept_at s target ?n")
    case True
    then show ?thesis using promotion_kept[OF assms] by simp
  next
    case False
    obtain b where "result = Some b" "ibBlockNumber b = ?n" by (rule promotion_moved[OF assms False])
    then show ?thesis using False by (cases target) (auto simp: number_or_def)
  qed
  show "target = Some b \<or> ibBlockNumber b = ?n" if "result = Some b" for b
  proof (cases "kept_at s target ?n")
    case True
    then show ?thesis using promotion_kept[OF assms] that by simp
  next
    case False
    obtain b' where "result = Some b'" "ibBlockNumber b' = ?n" by (rule promotion_moved[OF assms False])
    then show ?thesis using that by simp
  qed
qed

lemma promotion_order:
  assumes "promotion_ok s d bs observed safe t1 r1" "promotion_ok s d bs observed finalized t2 r2"
    "ibBlockNumber finalized \<le> ibBlockNumber safe" "not_ahead t2 t1"
  shows "not_ahead r2 r1"
  unfolding not_ahead_def
proof (intro allI impI)
  fix f assume f: "r2 = Some f"
  let ?nf = "min (ibBlockNumber finalized) (ibBlockNumber observed)"
  let ?ns = "min (ibBlockNumber safe) (ibBlockNumber observed)"
  have le: "?nf \<le> ?ns" using assms(3) by linarith
  show "\<exists>b'. r1 = Some b' \<and> ibBlockNumber f \<le> ibBlockNumber b'"
  proof (cases "?nf < seStartBlock s \<or> (\<exists>t. t2 = Some t \<and> ?nf \<le> ibBlockNumber t)")
    case True
    then have "t2 = Some f" using promotion_kept[OF assms(2)] f by simp
    then obtain x where x: "t1 = Some x" "ibBlockNumber f \<le> ibBlockNumber x" using assms(4) by (auto simp: not_ahead_def)
    show ?thesis
    proof (cases "kept_at s t1 ?ns")
      case True
      then show ?thesis using promotion_kept[OF assms(1)] x by blast
    next
      case False
      obtain b where "r1 = Some b" "ibBlockNumber b = ?ns" by (rule promotion_moved[OF assms(1) False])
      then show ?thesis using False x by auto
    qed
  next
    case False
    obtain f' where "r2 = Some f'" "ibBlockNumber f' = ?nf" by (rule promotion_moved[OF assms(2) False])
    then have fn: "ibBlockNumber f = ?nf" using f by simp
    have ns: "\<not> ?ns < seStartBlock s" using False le by linarith
    show ?thesis
    proof (cases "kept_at s t1 ?ns")
      case True
      then obtain t where "t1 = Some t" "?ns \<le> ibBlockNumber t" using ns by blast
      then show ?thesis using promotion_kept[OF assms(1) True] fn le by auto
    next
      case False
      obtain b where "r1 = Some b" "ibBlockNumber b = ?ns" by (rule promotion_moved[OF assms(1) False])
      then show ?thesis using fn le by simp
    qed
  qed
qed

lemma promotion_behind:
  assumes "promotion_ok s d bs observed safe target result" "stObserved st2 = Some observed"
    "not_ahead target (stObserved st)" "\<And>o'. stObserved st = Some o' \<Longrightarrow> ibBlockNumber o' \<le> ibBlockNumber observed"
  shows "not_ahead result (stObserved st2)"
  unfolding not_ahead_def
proof (intro allI impI)
  fix b assume "result = Some b"
  then consider "target = Some b" | "ibBlockNumber b = min (ibBlockNumber safe) (ibBlockNumber observed)"
    using promotion_number(2)[OF assms(1)] by blast
  then show "\<exists>b'. stObserved st2 = Some b' \<and> ibBlockNumber b \<le> ibBlockNumber b'"
  proof cases
    case 1
    then obtain o' where "stObserved st = Some o'" "ibBlockNumber b \<le> ibBlockNumber o'"
      using assms(3) by (auto simp: not_ahead_def)
    then show ?thesis using assms(2) assms(4) by fastforce
  next
    case 2
    then show ?thesis using assms(2) by simp
  qed
qed

lemma promoteds_status:
  assumes "0 \<le> ibBlockNumber b" "ibChainID b = c"
    "ibFinalityStatus b = status_for st (ibBlockNumber b) \<or>
       (ibFinalityStatus b = ''observed'' \<and> number_or (stSafe st) < ibBlockNumber b \<and> number_or (stFinalized st) < ibBlockNumber b)"
    "number_or (stSafe st) \<le> number_or (stSafe st2)" "number_or (stFinalized st) \<le> number_or (stFinalized st2)"
  shows "ibFinalityStatus (promoteds c st2 (number_or (stSafe st)) (number_or (stFinalized st)) b) =
     status_for st2 (ibBlockNumber b)"
proof -
  define n where "n = ibBlockNumber b"
  define x where "x = (case stSafe st2 of None \<Rightarrow> id
    | Some x \<Rightarrow> promote_row c (ibBlockNumber x) ''safe'' (number_or (stSafe st))) b"
  have x: "ibFinalityStatus x = (if number_or (stSafe st) < n \<and> n \<le> number_or (stSafe st2)
      then promoted_status ''safe'' (ibFinalityStatus b) else ibFinalityStatus b)" "ibBlockNumber x = n" "ibChainID x = c"
    using assms(1,2) by (auto simp: x_def n_def promote_row_def number_or_def split: option.splits)
  have "ibFinalityStatus (promoteds c st2 (number_or (stSafe st)) (number_or (stFinalized st)) b) =
     (if number_or (stFinalized st) < n \<and> n \<le> number_or (stFinalized st2) then ''finalized'' else ibFinalityStatus x)"
    unfolding promoteds_def x_def[symmetric] using x(2,3) assms(1)
    by (auto simp: promote_row_def promoted_status_def number_or_def n_def[symmetric] split: option.splits)
  moreover have "ibFinalityStatus b = status_for st n \<or> (ibFinalityStatus b = ''observed'' \<and> number_or (stSafe st) < n
      \<and> number_or (stFinalized st) < n)" using assms(3) by (simp add: n_def)
  ultimately show ?thesis unfolding n_def[symmetric] x(1)
    using assms(4,5)
    by (cases "n \<le> number_or (stFinalized st)"; cases "n \<le> number_or (stSafe st)";
        cases "n \<le> number_or (stFinalized st2)"; cases "n \<le> number_or (stSafe st2)";
        simp add: status_for_def promoted_status_def)
qed

lemma number_or_le:
  "not_ahead x y \<Longrightarrow> mark_ok start M y \<Longrightarrow> 0 \<le> start \<Longrightarrow> number_or x \<le> number_or y"
  by (cases x; cases y) (auto simp: not_ahead_def mark_ok_def number_or_def)

lemma commit_state_inv:
  fixes s d bs hi st2
  defines "st \<equiv> read_state s d" and "c \<equiv> seChainID s" and "start \<equiv> seStartBlock s"
  defines "f \<equiv> promoteds c st2 (number_or (stSafe st)) (number_or (stFinalized st))"
  assumes start: "0 \<le> start" and inv: "engine_inv s d" and ready: "ready s d bs hi st st2"
  shows "state_inv start (\<lambda>n. map_option f (merged (row_at c d) bs n)) st2"
proof -
  have si: "state_inv start (row_at c d) st"
    using engine_inv_state[OF inv] by (simp add: st_def c_def start_def)
  then have M: "dom (row_at c d) = covered start st" "links (row_at c d)" "mark_ok start (row_at c d) (stObserved st)"
      "mark_ok start (row_at c d) (stSafe st)" "mark_ok start (row_at c d) (stFinalized st)"
      "not_ahead (stSafe st) (stObserved st)" "not_ahead (stFinalized st) (stSafe st)"
    and status: "\<And>n b. row_at c d n = Some b \<Longrightarrow> ibFinalityStatus b = status_for st n"
    by (simp_all add: state_inv_def)
  obtain observed safe finalized where
      chunk: "chunk_ok c [next_height start st..hi] (stObserved st) bs"
    and obs: "stObserved st2 = (if bs = [] then stObserved st else Some (last bs))" "stObserved st2 = Some observed"
    and ord: "ibBlockNumber finalized \<le> ibBlockNumber safe"
    and ps: "promotion_ok s d bs observed safe (stSafe st) (stSafe st2)"
    and pf: "promotion_ok s d bs observed finalized (stFinalized st) (stFinalized st2)"
    using ready unfolding ready_def c_def start_def by blast
  have nums: "map ibBlockNumber bs = [next_height start st..hi]" using chunk by (simp add: chunk_ok_def)
  let ?M = "merged (row_at c d) bs"
  have dom: "dom ?M = covered start st2" by (rule merged_dom[OF M(1) nums obs(1) M(3)])
  have lk: "links ?M" by (rule merged_links[OF M(1,2,3) chunk])
  have grow: "ibBlockNumber o' \<le> ibBlockNumber observed" if "stObserved st = Some o'" for o'
    using that obs last_number[OF nums] by (auto simp: next_height_def split: if_splits)
  have mo: "mark_ok start ?M (stObserved st2)"
  proof (cases "bs = []")
    case True
    then show ?thesis using obs mark_ok_merged[OF M(3)] by simp
  next
    case False
    have "start \<le> next_height start st" using M(3) by (auto simp: mark_ok_def next_height_def split: option.splits)
    moreover have nl: "ibBlockNumber (last bs) = hi" "next_height start st \<le> hi" using last_number[OF nums False] by auto
    moreover have "row_at c d hi = None"
    proof -
      have "hi \<notin> covered start st" using nl by (auto simp: covered_def next_height_def split: option.splits)
      then show ?thesis using M(1) by blast
    qed
    then have "?M hi = Some (last bs)" using block_map_of_last[OF nums False] nl by (simp add: merged_def)
    ultimately show ?thesis using obs False by (simp add: mark_ok_def)
  qed
  have ms: "mark_ok start ?M (stSafe st2)" and mf: "mark_ok start ?M (stFinalized st2)"
    using promotion_mark[OF ps] promotion_mark[OF pf] M(1,4,5) nums unfolding c_def start_def by blast+
  have a1: "not_ahead (stSafe st2) (stObserved st2)"
    using promotion_behind[OF ps obs(2) M(6) grow] by blast
  have a2: "not_ahead (stFinalized st2) (stSafe st2)" by (rule promotion_order[OF ps pf ord M(7)])
  have ge: "number_or (stSafe st) \<le> number_or (stSafe st2)" "number_or (stFinalized st) \<le> number_or (stFinalized st2)"
    using promotion_number(1)[OF ps] promotion_number(1)[OF pf] ms mf start
    by (auto simp: number_or_def mark_ok_def split: option.splits)
  have st2: "ibFinalityStatus (f b) = status_for st2 n" if "?M n = Some b" for n b
  proof -
    have n: "start \<le> n" using that dom by (auto simp: covered_def dom_def split: option.splits)
    have "ibBlockNumber b = n \<and> ibChainID b = c \<and> (ibFinalityStatus b = status_for st n \<or>
       (ibFinalityStatus b = ''observed'' \<and> number_or (stSafe st) < n \<and> number_or (stFinalized st) < n))"
    proof (cases "row_at c d n")
      case (Some b')
      then show ?thesis using that status[OF Some] row_at_SomeD[OF Some] by (simp add: merged_def)
    next
      case None
      then have nb: "block_map_of bs n = Some b" using that by (simp add: merged_def)
      then have m: "b \<in> set bs" "ibBlockNumber b = n" by (auto dest: block_map_of_SomeD)
      then have "next_height start st \<le> n" using nums by (metis atLeastAtMost_iff image_eqI set_map set_upto)
      moreover have "number_or (stSafe st) \<le> number_or (stObserved st)" "number_or (stFinalized st) \<le> number_or (stSafe st)"
        using number_or_le[OF M(6) M(3) start] number_or_le[OF M(7) M(4) start] by auto
      ultimately have "number_or (stSafe st) < n" "number_or (stFinalized st) < n"
        using n start by (auto simp: number_or_def next_height_def split: option.splits)
      then show ?thesis using m chunk by (simp add: chunk_ok_def)
    qed
    then show ?thesis
      unfolding f_def using promoteds_status[of b c st st2] ge n start by auto
  qed
  have keep: "mark_ok start (\<lambda>n. map_option f (?M n)) x" if "mark_ok start ?M x" for x
    using that by (auto simp: mark_ok_def f_def)
  have "links (\<lambda>n. map_option f (?M n))" using lk by (auto simp: links_def f_def)
  moreover have "dom (\<lambda>n. map_option f (?M n)) = dom ?M" by (auto simp: dom_def)
  ultimately show ?thesis
    unfolding state_inv_def using dom keep[OF mo] keep[OF ms] keep[OF mf] a1 a2 st2 by auto
qed

text \<open>
  How the tables may evolve: the invariant is kept, and every stored block and event at or below
  the safe watermark stays what it is.
\<close>

definition same_block :: "IndexedBlock \<Rightarrow> IndexedBlock \<Rightarrow> bool" where
  "same_block a b \<longleftrightarrow> ibBlockNumber a = ibBlockNumber b \<and> ibBlockHash a = ibBlockHash b
     \<and> ibParentHash a = ibParentHash b \<and> ibBlockTime a = ibBlockTime b"

definition keeps_upto :: "Settings \<Rightarrow> int \<Rightarrow> 'm db \<Rightarrow> 'm db \<Rightarrow> bool" where
  "keeps_upto s n d d' \<longleftrightarrow>
     (\<forall>m b. m \<le> n \<longrightarrow> row_at (seChainID s) d m = Some b \<longrightarrow> (\<exists>b'. row_at (seChainID s) d' m = Some b' \<and> same_block b b'))
     \<and> (\<forall>ev \<in> set (dbEvents d). ecBlockNumber (leCoordinates ev) \<le> n \<longrightarrow> ev \<in> set (dbEvents d'))"

definition evolves :: "Settings \<Rightarrow> 'm db \<Rightarrow> 'm db \<Rightarrow> bool" where
  "evolves s d d' \<longleftrightarrow> engine_inv s d' \<and> keeps_upto s (number_or (stSafe (read_state s d))) d d'
     \<and> number_or (stSafe (read_state s d)) \<le> number_or (stSafe (read_state s d'))
     \<and> number_or (stFinalized (read_state s d)) \<le> number_or (stFinalized (read_state s d'))"

lemma keeps_upto_refl [simp]: "keeps_upto s n d d"
  by (auto simp: keeps_upto_def same_block_def)

lemma evolves_refl: "engine_inv s d \<Longrightarrow> evolves s d d"
  by (simp add: evolves_def)

lemma keeps_upto_mono: "keeps_upto s n d d' \<Longrightarrow> m \<le> n \<Longrightarrow> keeps_upto s m d d'"
  unfolding keeps_upto_def by (meson order_trans)

lemma keeps_upto_trans: "keeps_upto s n d d1 \<Longrightarrow> keeps_upto s n d1 d2 \<Longrightarrow> keeps_upto s n d d2"
  unfolding keeps_upto_def same_block_def by (metis (no_types, opaque_lifting))

lemma evolves_trans: "evolves s d d1 \<Longrightarrow> evolves s d1 d2 \<Longrightarrow> evolves s d d2"
  unfolding evolves_def by (meson keeps_upto_mono keeps_upto_trans order_trans)

lemma read_state_written:
  assumes "dbSync d' = sync_of st # rest" "stChainID st = seChainID s" "stDeploymentID st = seDeploymentID s"
  shows "stored_sync s d' = Some (sync_of st)"
    "number_or (stSafe (read_state s d')) = number_or (stSafe st)"
    "number_or (stFinalized (read_state s d')) = number_or (stFinalized st)"
proof -
  show y: "stored_sync s d' = Some (sync_of st)"
    using assms by (simp add: stored_sync_def sync_key_def sync_of_def)
  have "number_or (syncBlock c (point_of x)) = number_or x" for c x
    by (cases x) (auto simp: number_or_def syncBlock_def point_of_def)
  then show "number_or (stSafe (read_state s d')) = number_or (stSafe st)"
    "number_or (stFinalized (read_state s d')) = number_or (stFinalized st)"
    using y by (simp_all add: read_state_def sync_of_def)
qed

lemma ready_monotone:
  assumes "ready s d bs hi st st2" "state_inv (seStartBlock s) M st2" "0 \<le> seStartBlock s"
  shows "number_or (stSafe st) \<le> number_or (stSafe st2)" "number_or (stFinalized st) \<le> number_or (stFinalized st2)"
  using assms unfolding ready_def
  by (auto dest!: promotion_number(1) simp: number_or_def state_inv_def mark_ok_def split: option.splits)

lemma ready_fresh:
  assumes "engine_inv s d" "ready s d bs hi (read_state s d) st2"
  shows "fresh_blocks (seChainID s) d bs"
proof -
  let ?st = "read_state s d"
  have nums: "map ibBlockNumber bs = [next_height (seStartBlock s) ?st..hi]"
    and chain: "\<forall>b \<in> set bs. ibChainID b = seChainID s"
    using assms(2) by (auto simp: ready_def chunk_ok_def)
  have dom: "dom (row_at (seChainID s) d) = covered (seStartBlock s) ?st"
    using engine_inv_state[OF assms(1)] by (simp add: state_inv_def)
  have "row_at (seChainID s) d (ibBlockNumber b) = None" if "b \<in> set bs" for b
  proof -
    have "next_height (seStartBlock s) ?st \<le> ibBlockNumber b"
      using nums that by (metis atLeastAtMost_iff image_eqI set_map set_upto)
    then have "ibBlockNumber b \<notin> covered (seStartBlock s) ?st"
      by (auto simp: covered_def next_height_def split: option.splits)
    then show ?thesis using dom by blast
  qed
  moreover have "distinct (map ibBlockNumber bs)" by (simp add: nums)
  ultimately show ?thesis using chain by (simp add: fresh_blocks_def)
qed

lemma blocks_unique_committed:
  assumes "blocks_unique d" "fresh_blocks c d bs" "dbBlocks d' = map f (dbBlocks d @ bs)"
    "\<And>b. ibChainID (f b) = ibChainID b \<and> ibBlockNumber (f b) = ibBlockNumber b"
  shows "blocks_unique d'"
proof -
  let ?k = "\<lambda>b. (ibChainID b, ibBlockNumber b)"
  have "distinct (map snd (map ?k bs))" using assms(2) by (simp add: fresh_blocks_def comp_def)
  then have "distinct (map ?k bs)" using distinct_map by blast
  moreover have False if "x \<in> set (dbBlocks d)" "b \<in> set bs" "?k x = ?k b" for x b
    using row_at_member[OF assms(1) that(1)] that assms(2) by (auto simp: fresh_blocks_def)
  ultimately have "distinct (map ?k (dbBlocks d @ bs))"
    using assms(1) unfolding blocks_unique_def map_append distinct_append set_map by blast
  moreover have "map ?k (dbBlocks d') = map ?k (dbBlocks d @ bs)" by (simp add: assms(3,4) comp_def)
  ultimately show ?thesis by (simp only: blocks_unique_def)
qed

lemma committed_evolves:
  fixes s d bs hi st2 es d'
  defines "st \<equiv> read_state s d"
  assumes start: "0 \<le> seStartBlock s" and inv: "engine_inv s d" and ready: "ready s d bs hi st st2"
    and keys: "stChainID st2 = seChainID s" "stDeploymentID st2 = seDeploymentID s"
    and com: "committed s st2 bs es (number_or (stSafe st)) (number_or (stFinalized st)) d d'"
    and es: "\<forall>ev \<in> set es. anchored_in bs ev"
  shows "evolves s d d'"
proof -
  let ?c = "seChainID s" and ?f = "promoteds (seChainID s) st2 (number_or (stSafe st)) (number_or (stFinalized st))"
  have si: "state_inv (seStartBlock s) (\<lambda>n. map_option ?f (merged (row_at ?c d) bs n)) st2"
    unfolding st_def by (rule commit_state_inv[OF start inv ready[unfolded st_def]])
  have blocks: "dbBlocks d' = map ?f (dbBlocks d @ bs)" and sync: "dbSync d' = sync_of st2 #
      filter (\<lambda>r. \<not> sync_key (stChainID st2) (stDeploymentID st2) r) (dbSync d)"
    and ev: "set (dbEvents d') = set (dbEvents d) \<union> set es" "events_unique d \<longrightarrow> events_unique d'"
    using com by (auto simp: committed_def)
  have fresh: "fresh_blocks ?c d bs" using ready_fresh[OF inv] ready by (simp add: st_def)
  then have chain: "\<forall>b \<in> set bs. ibChainID b = ?c" by (simp add: fresh_blocks_def)
  have rows: "row_at ?c d' = (\<lambda>n. map_option ?f (merged (row_at ?c d) bs n))"
    by (rule ext, rule merged_rows[OF chain blocks]) simp
  have "stObserved st2 \<noteq> None" using ready unfolding ready_def by (metis option.distinct(1))
  then have "sync_inv s d' (sync_of st2)"
    using si rows by (subst sync_inv_of) (auto simp: sync_of_def)
  moreover have "stored_sync s d' = Some (sync_of st2)" by (rule read_state_written[OF sync keys])
  moreover have "blocks_unique d'"
    using inv by (intro blocks_unique_committed[OF _ fresh blocks]) (simp_all add: engine_inv_def)
  moreover have "anchored ?c d' e" if e: "e \<in> set (dbEvents d')" "ecChainID (leCoordinates e) = ?c" for e
  proof (cases "e \<in> set (dbEvents d)")
    case True
    then have "anchored ?c d e" using inv e(2) by (simp add: engine_inv_def)
    then show ?thesis by (auto simp: anchored_def rows merged_def)
  next
    case False
    then have "anchored_in bs e" using e ev es by blast
    then obtain b where b: "block_map_of bs (ecBlockNumber (leCoordinates e)) = Some b"
        "ibBlockHash b = ecBlockHash (leCoordinates e)" "ibBlockTime b = ecBlockTime (leCoordinates e)"
      by (auto simp: anchored_in_def)
    then have "row_at ?c d (ecBlockNumber (leCoordinates e)) = None"
      using fresh block_map_of_SomeD[OF b(1)] by (auto simp: fresh_blocks_def)
    then show ?thesis using b by (simp add: anchored_def rows merged_def)
  qed
  ultimately have "engine_inv s d'" using inv ev by (simp add: engine_inv_def)
  moreover have "keeps_upto s n d d'" for n
    unfolding keeps_upto_def rows using ev(1) by (auto simp: merged_def same_block_def)
  ultimately show ?thesis
    using ready_monotone[OF ready si start] read_state_written(2,3)[OF sync keys] by (simp add: evolves_def st_def)
qed

end
