(* ===== verification/Indexer_Recovery.thy ===== *)
theory Indexer_Recovery
  imports Indexer_Commit
begin

text \<open>
  Reorg recovery keeps the canonical-chain invariant: rolling the tables back to a stored common
  ancestor at or above the safe watermark leaves a linked chain that ends at the ancestor, with
  only events of remaining blocks, and never touches what lies at or below the safe watermark.
\<close>

section \<open>The common ancestor\<close>

definition common_ancestor :: "int \<Rightarrow> Hash list \<Rightarrow> 'm db \<Rightarrow> IndexedBlock option" where
  "common_ancestor c candidates d =
     (case sort_key (\<lambda>b. - ibBlockNumber b)
         (filter (\<lambda>b. ibChainID b = c \<and> ibBlockHash b \<in> set candidates) (dbBlocks d)) of
        [] \<Rightarrow> None | b # _ \<Rightarrow> Some b)"

lemma common_ancestor_Some:
  assumes "common_ancestor c candidates d = Some b"
  shows "b \<in> set (dbBlocks d) \<and> ibChainID b = c \<and> ibBlockHash b \<in> set candidates
    \<and> (\<forall>x \<in> set (dbBlocks d). ibChainID x = c \<longrightarrow> ibBlockHash x \<in> set candidates \<longrightarrow> ibBlockNumber x \<le> ibBlockNumber b)"
proof -
  define xs where "xs = filter (\<lambda>b. ibChainID b = c \<and> ibBlockHash b \<in> set candidates) (dbBlocks d)"
  obtain rest where r: "sort_key (\<lambda>b. - ibBlockNumber b) xs = b # rest"
    using assms by (auto simp: common_ancestor_def xs_def split: list.splits)
  then have "sorted (map (\<lambda>b. - ibBlockNumber b) (b # rest))" by (metis sorted_sort_key)
  moreover have "set xs = set (b # rest)" using r by (metis set_sort)
  ultimately have "b \<in> set xs" "\<forall>x \<in> set xs. ibBlockNumber x \<le> ibBlockNumber b" by auto
  then show ?thesis by (auto simp: xs_def)
qed

definition ancestor_block :: "int \<Rightarrow> IndexedBlock \<Rightarrow> IndexedBlock" where
  "ancestor_block c b = \<lparr>ibChainID = c, ibBlockNumber = ibBlockNumber b, ibBlockHash = ibBlockHash b,
     ibParentHash = 0, ibBlockTime = zero_time, ibFinalityStatus = []\<rparr>"

lemma FindCommonAncestor_triple:
  "triple (\<lambda>d. d = d0) (FindCommonAncestor env c candidates)
     (\<lambda>a d. d = d0 \<and> (\<exists>b. common_ancestor c candidates d0 = Some b \<and> a = ancestor_block c b))"
  unfolding FindCommonAncestor_def
  by (rule triple_bind[where R = "\<lambda>b d. d = d0 \<and> common_ancestor c candidates d0 = Some b"])
    (auto intro!: triple_ret triple_statement simp: sql_FindCommonAncestor_def common_ancestor_def ancestor_block_def
      split: list.splits)

section \<open>Deleting above the ancestor\<close>

definition rolled_back :: "int \<Rightarrow> int \<Rightarrow> 'm db \<Rightarrow> 'm db" where
  "rolled_back c a d = d\<lparr>dbEvents := filter (\<lambda>e. \<not> event_above c a e) (dbEvents d),
     dbBlocks := filter (\<lambda>b. \<not> (ibChainID b = c \<and> a < ibBlockNumber b)) (dbBlocks d)\<rparr>"

lemma delete_tables:
  "triple (\<lambda>d. d = d0) (iter (\<lambda>table. statement env (sql_DeleteAbove table c a)) tables)
     (\<lambda>_ d. d = d0\<lparr>dbEvents := filter (\<lambda>e. \<not> (table_of (lePayload e) \<in> set tables \<and> event_above c a e)) (dbEvents d0)\<rparr>)"
proof (induction tables arbitrary: d0)
  case Nil
  then show ?case by (simp add: triple_def ret_eq)
next
  case (Cons t tables)
  let ?d1 = "d0\<lparr>dbEvents := filter (\<lambda>e. \<not> (table_of (lePayload e) = t \<and> event_above c a e)) (dbEvents d0)\<rparr>"
  have 1: "triple (\<lambda>d. d = d0) (statement env (sql_DeleteAbove t c a)) (\<lambda>_ d. d = ?d1)"
    by (rule triple_statement) (simp add: sql_DeleteAbove_def)
  have eq: "?d1\<lparr>dbEvents := filter (\<lambda>e. \<not> (table_of (lePayload e) \<in> set tables \<and> event_above c a e)) (dbEvents ?d1)\<rparr> =
      d0\<lparr>dbEvents := filter (\<lambda>e. \<not> (table_of (lePayload e) \<in> set (t # tables) \<and> event_above c a e)) (dbEvents d0)\<rparr>"
    by (auto intro!: arg_cong[where f = "\<lambda>x. d0\<lparr>dbEvents := x\<rparr>"] filter_cong)
  show ?case unfolding iter.simps eq[symmetric] by (rule triple_bind[OF 1]) (rule Cons.IH)
qed

lemma delete_order_complete: "t \<in> set delete_order"
  by (cases t) (simp_all add: delete_order_def)

lemma DeleteCanonicalAbove_triple:
  "triple (\<lambda>d. d = d0) (DeleteCanonicalAbove env c a) (\<lambda>_ d. d = rolled_back c a d0)"
  unfolding DeleteCanonicalAbove_def
  by (rule triple_bind[OF delete_tables])
    (auto intro!: triple_statement simp: sql_DeleteIndexedBlocksAbove_def rolled_back_def delete_order_complete)

section \<open>Rebuilding is quiet\<close>

lemma quiet_iter [quiet_rule]: "(\<And>x. quiet (f x)) \<Longrightarrow> quiet (iter f xs)"
  by (induction xs) (auto intro!: quiet_rule)

lemma quiet_Rebuild [quiet_rule]: "quiet (RebuildTokenProjections env c token)"
proof -
  have "same_ledger d d'" if "sql_RebuildTokenProjections sql c token d = Inr (u, d')" for sql d d' u
    using that by (auto simp: sql_RebuildTokenProjections_def Let_def same_ledger_def mark_dirty_def
        split: option.splits ledger_payload.splits)
  then show ?thesis
    unfolding RebuildTokenProjections_def
    by (intro quiet_rule quiet_statement)
      (auto simp: sql_HasCanonicalLaunch_def sql_ClearOrphanProjections_def same_ledger_def)
qed

lemma quiet_recompute [quiet_rule]: "quiet (DeleteTokenStats env c token)" "quiet (RecomputeTokenStats env c token)"
  "quiet (RecomputeProtocolAggregates False env c)"
  unfolding DeleteTokenStats_def RecomputeTokenStats_def RecomputeProtocolAggregates_def recomputeProtocolAggregates_def
  by (simp_all, (intro quiet_rule)+)

lemma triple_quiet: "quiet m \<Longrightarrow> triple (\<lambda>d. same_ledger d0 d) m (\<lambda>_. same_ledger d0)"
  unfolding quiet_def triple_def by (metis same_ledger_trans)

section \<open>Recovery keeps the invariant\<close>

lemma engine_inv_cong:
  assumes "dbBlocks d' = dbBlocks d" "dbSync d' = dbSync d" "dbEvents d' = dbEvents d"
  shows "engine_inv s d' = engine_inv s d" "row_at c d' = row_at c d" "read_state s d' = read_state s d"
proof -
  show r: "row_at c d' = row_at c d" for c by (rule row_at_cong[OF assms(1)])
  have y: "stored_sync s d' = stored_sync s d" by (simp add: stored_sync_def assms(2))
  show "read_state s d' = read_state s d" by (simp add: read_state_def y)
  have h: "hash_at c d' = hash_at c d" for c by (simp add: hash_at_def r fun_eq_iff)
  show "engine_inv s d' = engine_inv s d"
    by (simp add: engine_inv_def blocks_unique_def events_unique_def anchored_def sync_inv_def point_ok_def assms y r h
        cong: option.case_cong)
qed

lemma evolves_cong:
  assumes "dbBlocks d' = dbBlocks d" "dbSync d' = dbSync d" "dbEvents d' = dbEvents d" "engine_inv s d"
  shows "evolves s d d'"
  using assms(4) by (simp add: evolves_def keeps_upto_def same_block_def assms(3) engine_inv_cong[OF assms(1-3)])

definition rolled_state :: "Settings \<Rightarrow> State \<Rightarrow> IndexedBlock \<Rightarrow> State" where
  "rolled_state s st b = st\<lparr>stObserved := Some (ancestor_block (seChainID s) b)\<rparr>"

lemma read_state_keys: "stChainID (read_state s d) = seChainID s" "stDeploymentID (read_state s d) = seDeploymentID s"
  by (simp_all add: read_state_def split: option.splits)

lemma rolled_state_inv:
  assumes inv: "state_inv start M st" and b: "M n = Some b" "ibBlockNumber b = n" and start: "0 \<le> start"
    and safe: "number_or (stSafe st) \<le> n"
  shows "state_inv start (\<lambda>m. if m \<le> n then M m else None) (rolled_state s st b)"
proof -
  have dom: "dom M = covered start st" and marks: "mark_ok start M (stSafe st)" "mark_ok start M (stFinalized st)"
    and ahead: "not_ahead (stFinalized st) (stSafe st)"
    using inv by (simp_all add: state_inv_def)
  have "n \<in> dom M" using b(1) by blast
  then have n: "start \<le> n" "\<And>m. start \<le> m \<Longrightarrow> m \<le> n \<Longrightarrow> m \<in> dom M"
    unfolding dom by (auto simp: covered_def split: option.splits)
  have sub: "m \<in> dom M \<Longrightarrow> start \<le> m" for m using dom by (auto simp: covered_def split: option.splits)
  have "number_or (stFinalized st) \<le> n" using number_or_le[OF ahead marks(1) start] safe by simp
  then have "mark_ok start (\<lambda>m. if m \<le> n then M m else None) (stSafe st)"
    "mark_ok start (\<lambda>m. if m \<le> n then M m else None) (stFinalized st)"
    using marks safe by (auto simp: mark_ok_def number_or_def)
  moreover have "dom (\<lambda>m. if m \<le> n then M m else None) = {start..n}"
    using n(2) sub by (auto simp: dom_def split: if_splits)
  moreover have "links (\<lambda>m. if m \<le> n then M m else None)"
    using inv by (auto simp: state_inv_def links_def split: if_splits)
  moreover have "not_ahead (stSafe st) (Some (ancestor_block (seChainID s) b))"
    using safe b(2) by (auto simp: not_ahead_def number_or_def ancestor_block_def)
  moreover have "status_for (rolled_state s st b) = status_for st"
    by (simp add: status_for_def rolled_state_def fun_eq_iff)
  ultimately show ?thesis
    using inv b n(1) ahead
    by (auto simp: state_inv_def rolled_state_def covered_def ancestor_block_def mark_ok_def split: if_splits)
qed

lemma rolled_back_evolves:
  fixes s d cands b d'
  defines "st \<equiv> read_state s d" and "c \<equiv> seChainID s" and "a \<equiv> ibBlockNumber b"
  assumes start: "0 \<le> seStartBlock s" and inv: "engine_inv s d" and b: "common_ancestor c cands d = Some b"
    and safe: "number_or (stSafe st) \<le> a"
    and d': "dbBlocks d' = dbBlocks (rolled_back c a d)" "dbEvents d' = dbEvents (rolled_back c a d)"
      "dbSync d' = sync_of (rolled_state s st b) # rest"
  shows "evolves s d d'"
proof -
  have bu: "blocks_unique d" using inv by (simp add: engine_inv_def)
  have row: "row_at c d a = Some b"
    using row_at_member[OF bu] common_ancestor_Some[OF b] by (auto simp: a_def)
  have rows: "row_at c d' = (\<lambda>m. if m \<le> a then row_at c d m else None)"
  proof
    fix m
    have "row_at c d' m = row_at c (d\<lparr>dbBlocks := filter (\<lambda>b. \<not> (ibChainID b = c \<and> a < ibBlockNumber b)) (dbBlocks d)\<rparr>) m"
      by (simp add: row_at_def d'(1) rolled_back_def)
    then show "row_at c d' m = (if m \<le> a then row_at c d m else None)" by (simp only: row_at_delete)
  qed
  have si: "state_inv (seStartBlock s) (row_at c d') (rolled_state s st b)"
    unfolding rows using engine_inv_state[OF inv] row start safe
    by (intro rolled_state_inv) (simp_all add: st_def c_def a_def)
  have keys: "stChainID (rolled_state s st b) = seChainID s" "stDeploymentID (rolled_state s st b) = seDeploymentID s"
    by (simp_all add: rolled_state_def st_def read_state_keys)
  note w = read_state_written[OF d'(3) keys]
  have "sync_inv s d' (sync_of (rolled_state s st b))"
    using si by (subst sync_inv_of) (auto simp: sync_of_def rolled_state_def c_def)
  moreover have "blocks_unique d'" using bu by (simp add: blocks_unique_def d'(1) rolled_back_def distinct_map_filter)
  moreover have "events_unique d'"
    using inv by (simp add: events_unique_def d'(2) rolled_back_def engine_inv_def distinct_map_filter)
  moreover have "anchored c d' e" if e: "e \<in> set (dbEvents d')" "ecChainID (leCoordinates e) = c" for e
  proof -
    have "e \<in> set (dbEvents d)" and le: "ecBlockNumber (leCoordinates e) \<le> a"
      using e by (auto simp: d'(2) rolled_back_def event_above_def)
    then have "anchored c d e" using inv e(2) by (simp add: engine_inv_def c_def)
    then show ?thesis using le by (simp add: anchored_def rows)
  qed
  ultimately have "engine_inv s d'" by (simp add: engine_inv_def w(1) c_def)
  moreover have "keeps_upto s (number_or (stSafe st)) d d'"
    unfolding keeps_upto_def c_def[symmetric] rows d'(2)
    using safe by (auto simp: same_block_def rolled_back_def event_above_def)
  ultimately show ?thesis by (simp add: evolves_def st_def[symmetric] w(2,3)) (simp add: rolled_state_def)
qed

definition recovered :: "Settings \<Rightarrow> State \<Rightarrow> IndexedBlock \<Rightarrow> 'm db \<Rightarrow> 'm db \<Rightarrow> bool" where
  "recovered s st b d d' \<longleftrightarrow> dbBlocks d' = dbBlocks (rolled_back (seChainID s) (ibBlockNumber b) d)
     \<and> dbEvents d' = dbEvents (rolled_back (seChainID s) (ibBlockNumber b) d)
     \<and> (\<exists>rest. dbSync d' = sync_of (rolled_state s st b) # rest)"

lemma recovered_write:
  assumes "same_ledger (rolled_back (seChainID s) (ibBlockNumber b) d) d1"
  shows "triple (\<lambda>d. d = d1) (WriteState env (rolled_state s st b)) (\<lambda>_. recovered s st b d)"
  by (rule triple_conseq[OF WriteState_triple[of "rolled_state s st b" d1]])
    (use assms in \<open>auto simp: rolled_state_def recovered_def same_ledger_def\<close>)

lemma CompleteReorg_frame:
  "triple (\<lambda>d. d = d0) (CompleteReorg env n) (\<lambda>_ d. \<exists>rs. d = d0\<lparr>dbReorgs := rs\<rparr>)"
  unfolding CompleteReorg_def
  by (rule triple_bind[where R = "\<lambda>_ d. \<exists>rs. d = d0\<lparr>dbReorgs := rs\<rparr>"])
    (auto intro!: triple_ret triple_raise triple_statement simp: sql_CompleteIndexerReorg_def split: option.splits if_splits)

lemma ro_keeps: "reads_only m \<Longrightarrow> triple (\<lambda>d. d = d0) m (\<lambda>_ d. d = d0)"
  by (auto simp: reads_only_def triple_def)

lemma triple_False: "(\<And>d. \<not> P d) \<Longrightarrow> triple P m Q"
  by (simp add: triple_def)

lemma triple_each: "(\<And>d0. P d0 \<Longrightarrow> triple (\<lambda>d. d = d0) m Q) \<Longrightarrow> triple P m Q"
  unfolding triple_def by blast

lemma recoverTx_triple:
  fixes e d0 cands reorgID
  defines "s \<equiv> egSettings e"
  assumes b: "common_ancestor (seChainID s) cands d0 = Some b"
  shows "triple (\<lambda>d. d = d0) (recoverTx e st cands reorgID) (\<lambda>_. recovered s st b d0)"
proof -
  define c where "c = seChainID s"
  define rb where "rb = rolled_back c (ibBlockNumber b) d0"
  let ?anc = "ancestor_block c b"
  let ?fix = "\<lambda>token. iobind (RebuildTokenProjections (egDb e) c token) (\<lambda>_.
          iobind (DeleteTokenStats (egDb e) c token) (\<lambda>_. RecomputeTokenStats (egDb e) c token))"
  have f: "triple (\<lambda>d. d = d0) (FindCommonAncestor (egDb e) c cands) (\<lambda>a d. d = d0 \<and> a = ?anc)"
    by (rule triple_conseq[OF FindCommonAncestor_triple[of d0]]) (use b in \<open>auto simp: c_def\<close>)
  have t: "triple (\<lambda>d. d = d0) (AffectedTokensAbove (egDb e) c n) (\<lambda>_ d. d = d0)" for n
    by (auto simp: AffectedTokensAbove_def sql_AffectedTokensAbove_def Let_def intro!: triple_statement)
  have del: "triple (\<lambda>d. d = d0) (DeleteCanonicalAbove (egDb e) c (ibBlockNumber b)) (\<lambda>_. same_ledger rb)"
    by (rule triple_conseq[OF DeleteCanonicalAbove_triple[of d0]]) (auto simp: rb_def)
  have q: "triple (same_ledger rb) (iter ?fix tokens) (\<lambda>_. same_ledger rb)" for tokens
    by (rule triple_quiet) (intro quiet_rule)
  have p: "triple (same_ledger rb) (RecomputeProtocolAggregates False (egDb e) c) (\<lambda>_. same_ledger rb)"
    by (rule triple_quiet) (intro quiet_rule)
  have ws: "triple (same_ledger rb) (WriteState (egDb e) (rolled_state s st b)) (\<lambda>_. recovered s st b d0)"
    unfolding rb_def c_def by (rule triple_each) (rule recovered_write)
  have cr: "triple (recovered s st b d0) (CompleteReorg (egDb e) reorgID) (\<lambda>_. recovered s st b d0)"
    by (rule triple_each, rule triple_conseq[OF CompleteReorg_frame]) (auto simp: recovered_def)
  note all = triple_bind[OF t triple_bind[OF del triple_bind[OF q triple_bind[OF p triple_bind[OF ws cr]]]]]
  have n: "ibBlockNumber ?anc = ibBlockNumber b" by (simp add: ancestor_block_def)
  show ?thesis
    unfolding recoverTx_def Let_def s_def[symmetric] c_def[symmetric]
  proof (rule triple_bind[OF f])
    fix anc
    show "triple (\<lambda>d. d = d0 \<and> anc = ?anc)
       (iobind (AffectedTokensAbove (egDb e) c (ibBlockNumber anc)) (\<lambda>tokens.
        iobind (DeleteCanonicalAbove (egDb e) c (ibBlockNumber anc)) (\<lambda>_.
        iobind (iter ?fix tokens) (\<lambda>_. iobind (RecomputeProtocolAggregates False (egDb e) c) (\<lambda>_.
        iobind (WriteState (egDb e) (st\<lparr>stObserved := Some anc\<rparr>)) (\<lambda>_. CompleteReorg (egDb e) reorgID))))))
       (\<lambda>_. recovered s st b d0)"
    proof (cases "anc = ?anc")
      case True
      have st: "st\<lparr>stObserved := Some ?anc\<rparr> = rolled_state s st b" by (simp add: rolled_state_def c_def)
      show ?thesis unfolding True n st by (rule triple_conseq[OF all]) simp_all
    qed (simp add: triple_def)
  qed
qed

section \<open>Both recovery transactions\<close>

definition same_chain :: "'m db \<Rightarrow> 'm db \<Rightarrow> bool" where
  "same_chain d d' \<longleftrightarrow> dbBlocks d' = dbBlocks d \<and> dbSync d' = dbSync d \<and> dbEvents d' = dbEvents d"

text \<open>A recovery to block \<open>b\<close>: a stored candidate below the observed block and not below the safe one.\<close>

definition recovers_to :: "Settings \<Rightarrow> Hash list \<Rightarrow> IndexedBlock \<Rightarrow> 'm db \<Rightarrow> bool" where
  "recovers_to s cands b d \<longleftrightarrow> common_ancestor (seChainID s) cands d = Some b
     \<and> (\<exists>observed. stObserved (read_state s d) = Some observed \<and> ibBlockNumber b < ibBlockNumber observed)
     \<and> number_or (stSafe (read_state s d)) \<le> ibBlockNumber b"

definition rolled_to :: "Settings \<Rightarrow> 'm db \<Rightarrow> 'm db \<Rightarrow> bool" where
  "rolled_to s d d' \<longleftrightarrow> (\<exists>cands b. recovers_to s cands b d \<and> recovered s (read_state s d) b d d')"

lemma same_chain_refl [simp]: "same_chain d d"
  by (simp add: same_chain_def)

lemma same_chain_read: "same_chain d d' \<Longrightarrow> read_state s d' = read_state s d"
  by (rule engine_inv_cong(3)) (simp_all add: same_chain_def)

lemma same_chain_evolves: "same_chain d d' \<Longrightarrow> engine_inv s d \<Longrightarrow> evolves s d d'"
  by (rule evolves_cong) (simp_all add: same_chain_def)

lemma same_chain_rolled: "same_chain d d1 \<Longrightarrow> rolled_to s d1 d' \<Longrightarrow> rolled_to s d d'"
proof -
  assume same: "same_chain d d1" and rolled: "rolled_to s d1 d'"
  have "common_ancestor (seChainID s) cands d1 = common_ancestor (seChainID s) cands d" for cands
    using same by (simp add: common_ancestor_def same_chain_def)
  moreover have "dbBlocks (rolled_back c a d1) = dbBlocks (rolled_back c a d)"
    "dbEvents (rolled_back c a d1) = dbEvents (rolled_back c a d)" for c a
    using same by (simp_all add: rolled_back_def same_chain_def)
  ultimately show ?thesis
    using rolled unfolding rolled_to_def recovers_to_def recovered_def same_chain_read[OF same] by simp
qed

lemma rolled_to_evolves: "0 \<le> seStartBlock s \<Longrightarrow> engine_inv s d \<Longrightarrow> rolled_to s d d' \<Longrightarrow> evolves s d d'"
  unfolding rolled_to_def recovers_to_def recovered_def by (blast intro: rolled_back_evolves)

lemma RecordReorg_frame: "triple (\<lambda>d. d = d0) (RecordReorg env r) (\<lambda>_ d. same_chain d0 d)"
  unfolding RecordReorg_def
  by (rule triple_statement) (auto simp: same_chain_def sql_RecordIndexerReorg_def Let_def split: if_splits)

lemma ancestor_number:
  assumes "0 \<le> seStartBlock s" "engine_inv s d" "common_ancestor (seChainID s) cands d = Some b"
  shows "0 \<le> ibBlockNumber b"
proof -
  have "row_at (seChainID s) d (ibBlockNumber b) = Some b"
    using row_at_member[of d b] common_ancestor_Some[OF assms(3)] assms(2) by (auto simp: engine_inv_def)
  moreover have "dom (row_at (seChainID s) d) = covered (seStartBlock s) (read_state s d)"
    using engine_inv_state[OF assms(2)] by (simp add: state_inv_def)
  ultimately have "ibBlockNumber b \<in> covered (seStartBlock s) (read_state s d)" by blast
  then show ?thesis using assms(1) by (auto simp: covered_def split: option.splits)
qed

definition recorded :: "Settings \<Rightarrow> Hash list \<Rightarrow> 'm db \<Rightarrow> 'm db \<Rightarrow> bool" where
  "recorded s cands d d' \<longleftrightarrow> same_chain d d' \<and> (\<exists>b. recovers_to s cands b d)"

lemma recordReorgTx_triple:
  fixes e d0 cands
  defines "s \<equiv> egSettings e"
  assumes start: "0 \<le> seStartBlock s" and inv: "engine_inv s d0"
    and obs: "stObserved (read_state s d0) = Some observed"
  shows "triple (\<lambda>d. d = d0) (recordReorgTx e (read_state s d0) observed tip cands) (\<lambda>_. recorded s cands d0)"
proof -
  let ?st = "read_state s d0"
  let ?k = "\<lambda>ancestor. iobind (headerByNumber e ''recheck detected reorg tip'' (ibBlockNumber tip)) (\<lambda>h.
      iobind (engineBlock e h) (\<lambda>rechecked.
      if ibBlockNumber rechecked \<noteq> ibBlockNumber tip \<or> ibBlockHash rechecked \<noteq> ibBlockHash tip
      then raise (OtherError ''RPC reorg tip changed before recovery write'')
      else (\<lambda>w. RecordReorg (egDb e) \<lparr>rrChainID = seChainID s, rrDeploymentID = seDeploymentID s,
          rrDetectedTipNumber = ibBlockNumber tip, rrDetectedTipHash = ibBlockHash tip,
          rrCommonAncestorNumber = ibBlockNumber ancestor, rrCommonAncestorHash = ibBlockHash ancestor,
          rrDepth = ibBlockNumber observed - ibBlockNumber ancestor, rrDetectedAt = envNow (egDb e) (wTick w)\<rparr> w)))"
  have rec: "triple (\<lambda>d. d = d0) (\<lambda>w. RecordReorg (egDb e) (r w) w) (\<lambda>_ d. same_chain d0 d)" for r
    unfolding triple_def using RecordReorg_frame[of d0 "egDb e"] by (auto simp: triple_def)
  have k: "triple (\<lambda>d. d = d0) (?k ancestor) (\<lambda>_ d. same_chain d0 d)" for ancestor
    by (rule triple_bind[OF ro_keeps[OF ro_header]], rule triple_bind[OF ro_keeps[OF ro_block]])
      (auto intro!: triple_raise rec)
  show ?thesis
    unfolding recordReorgTx_def Let_def s_def[symmetric]
  proof (rule triple_bind[OF FindCommonAncestor_triple])
    fix ancestor :: IndexedBlock
    let ?body = "if ibBlockNumber observed - ibBlockNumber ancestor \<le> 0
        then raise (OtherError ''reorg ancestor is not below observed tip'')
        else if (case stSafe ?st of None \<Rightarrow> False | Some b \<Rightarrow> ibBlockNumber ancestor < ibBlockNumber b)
        then raise SafeViolation else ?k ancestor"
    show "triple (\<lambda>d. d = d0 \<and> (\<exists>b. common_ancestor (seChainID s) cands d0 = Some b \<and> ancestor = ancestor_block (seChainID s) b))
      ?body (\<lambda>_. recorded s cands d0)"
    proof (cases "\<exists>b. common_ancestor (seChainID s) cands d0 = Some b \<and> ancestor = ancestor_block (seChainID s) b")
      case True
      then obtain b where b: "common_ancestor (seChainID s) cands d0 = Some b" "ancestor = ancestor_block (seChainID s) b"
        by blast
      have n: "ibBlockNumber ancestor = ibBlockNumber b" by (simp add: b(2) ancestor_block_def)
      show ?thesis
      proof (cases "ibBlockNumber b < ibBlockNumber observed \<and> number_or (stSafe ?st) \<le> ibBlockNumber b")
        case True
        then have "recovers_to s cands b d0" using b(1) obs by (simp add: recovers_to_def)
        then have r: "recorded s cands d0 d" if "same_chain d0 d" for d using that by (auto simp: recorded_def)
        have "?body = ?k ancestor" using True n by (simp add: number_or_def split: option.splits)
        then show ?thesis by (simp only:) (rule triple_conseq[OF k[of ancestor]], simp, rule r)
      next
        case False
        then have "\<exists>x. ?body = raise x"
          using n ancestor_number[OF start inv b(1)] by (cases "stSafe ?st") (auto simp: number_or_def)
        then obtain x where x: "?body = raise x" by blast
        show ?thesis unfolding x by (rule triple_raise)
      qed
    qed (rule triple_False, blast)
  qed
qed

lemma recoverReorg_hoare:
  fixes e d0
  defines "s \<equiv> egSettings e"
  assumes start: "0 \<le> seStartBlock s" and inv: "engine_inv s d0"
  shows "hoare (\<lambda>d. d = d0) (recoverReorg e (read_state s d0) tip) (\<lambda>_. rolled_to s d0)
     (\<lambda>x d. same_chain d0 d \<or> x = CommitUnknown \<and> rolled_to s d0 d)"
proof (cases "stObserved (read_state s d0)")
  case None
  then show ?thesis by (simp add: recoverReorg_def) (rule hoare_raise, simp)
next
  case (Some observed)
  let ?E = "\<lambda>x d. same_chain d0 d \<or> x = CommitUnknown \<and> rolled_to s d0 d"
  have read: "hoare (\<lambda>d. d = d0) (collectCandidates e tip ns p cs) (\<lambda>_ d. d = d0) ?E" for ns p cs
    by (rule hoare_read[OF ro_collect ro_keeps[OF ro_collect]]) simp
  have one: "hoare (\<lambda>d. d = d0) (Transaction (egOwned e) (egDb e) (recordReorgTx e (read_state s d0) observed tip cands))
      (\<lambda>_. recorded s cands d0) ?E" for cands
    using start inv Some unfolding s_def
    by (intro hoare_tx recordReorgTx_triple) (auto simp: recorded_def)
  have two: "hoare (recorded s cands d0) (Transaction (egOwned e) (egDb e) (recoverTx e (read_state s d0) cands n))
      (\<lambda>_. rolled_to s d0) ?E" for cands n
  proof (rule hoare_tx)
    show "triple (recorded s cands d0) (recoverTx e (read_state s d0) cands n) (\<lambda>_. rolled_to s d0)"
    proof (rule triple_each)
      fix d1 assume "recorded s cands d0 d1"
      then obtain b where same: "same_chain d0 d1" and b: "recovers_to s cands b d0" by (auto simp: recorded_def)
      then have b1: "recovers_to s cands b d1"
        by (simp add: recovers_to_def same_chain_read common_ancestor_def) (simp add: same_chain_def)
      have "rolled_to s d0 d" if "recovered s (read_state s d0) b d1 d" for d
        using that b1 same_chain_read[OF same] by (intro same_chain_rolled[OF same]) (auto simp: rolled_to_def)
      then show "triple (\<lambda>d. d = d1) (recoverTx e (read_state s d0) cands n) (\<lambda>_. rolled_to s d0)"
        by (intro triple_conseq[OF recoverTx_triple[of e cands d1 b]])
          (use b1 in \<open>auto simp: recovers_to_def s_def\<close>)
    qed
  qed (auto simp: recorded_def)
  show ?thesis
    unfolding recoverReorg_def Some option.case Let_def s_def[symmetric]
    by (auto intro!: hoare_raise hoare_bind[OF read] hoare_bind[OF one] two)
qed

end
