(* ===== verification/Indexer_Safety.thy ===== *)
theory Indexer_Safety
  imports Indexer_Recovery
begin

text \<open>
  What one step of the engine does to the tables, on success and on every failure, and that any
  run of steps keeps the canonical-chain invariant, never rewrites the chain at or below the safe
  watermark and never moves a watermark back.
\<close>

section \<open>Outcomes of a step\<close>

text \<open>
  The step advanced: the next chunk, linked to the observed block and at most \<open>ChunkSize\<close> long, is
  committed with its events and the new watermarks.
\<close>

definition advanced :: "Settings \<Rightarrow> bool \<Rightarrow> State \<Rightarrow> 'm db \<Rightarrow> 'm db \<Rightarrow> bool" where
  "advanced s moved st2 d d' \<longleftrightarrow> (\<exists>bs hi es.
     ready s d bs hi (read_state s d) st2 \<and> moved = (bs \<noteq> []) \<and> int (length bs) \<le> seChunkSize s
     \<and> stChainID st2 = seChainID s \<and> stDeploymentID st2 = seDeploymentID s
     \<and> committed s st2 bs es (number_or (stSafe (read_state s d))) (number_or (stFinalized (read_state s d))) d d'
     \<and> (\<forall>ev \<in> set es. anchored_in bs ev))"

definition step_failed :: "Settings \<Rightarrow> 'm db \<Rightarrow> idx_error \<Rightarrow> 'm db \<Rightarrow> bool" where
  "step_failed s d x d' \<longleftrightarrow> same_chain d d'
     \<or> x = CommitUnknown \<and> (rolled_to s d d' \<or> (\<exists>moved st2. advanced s moved st2 d d'))"

definition step_done :: "Settings \<Rightarrow> 'm db \<Rightarrow> bool \<times> State option \<Rightarrow> 'm db \<Rightarrow> bool" where
  "step_done s d r d' = (case r of
     (moved, Some st2) \<Rightarrow> advanced s moved st2 d d'
   | (True, None) \<Rightarrow> rolled_to s d d'
   | (False, None) \<Rightarrow> d' = d)"

lemma advanced_evolves:
  "0 \<le> seStartBlock s \<Longrightarrow> engine_inv s d \<Longrightarrow> advanced s moved st2 d d' \<Longrightarrow> evolves s d d'"
  unfolding advanced_def by (blast intro: committed_evolves)

lemma step_failed_evolves: "0 \<le> seStartBlock s \<Longrightarrow> engine_inv s d \<Longrightarrow> step_failed s d x d' \<Longrightarrow> evolves s d d'"
  unfolding step_failed_def by (blast intro: advanced_evolves rolled_to_evolves same_chain_evolves)

lemma step_done_evolves: "0 \<le> seStartBlock s \<Longrightarrow> engine_inv s d \<Longrightarrow> step_done s d r d' \<Longrightarrow> evolves s d d'"
  unfolding step_done_def
  by (auto split: prod.splits option.splits bool.splits intro: advanced_evolves rolled_to_evolves evolves_refl)

section \<open>Committing the chunk\<close>

lemma hoare_keep:
  "reads_only m \<Longrightarrow> (\<And>w a w'. m w = (Inr a, w') \<Longrightarrow> R a) \<Longrightarrow> (\<And>x. E x d0) \<Longrightarrow>
   hoare (\<lambda>d. d = d0) m (\<lambda>a d. d = d0 \<and> R a) E"
  by (rule hoare_read) (auto simp: reads_only_def triple_def)

lemma hoare_fact: "(R \<Longrightarrow> hoare (\<lambda>d. d = d0) m Q E) \<Longrightarrow> hoare (\<lambda>d. d = d0 \<and> R) m Q E"
  by (auto simp: hoare_def)

lemma commit_hoare:
  fixes e d0 bs hi st2
  defines "s \<equiv> egSettings e"
  defines "st \<equiv> read_state s d0"
  assumes inv: "engine_inv s d0" and ready: "ready s d0 bs hi st st2"
    and keys: "stChainID st2 = seChainID s" "stDeploymentID st2 = seDeploymentID s"
    and size: "int (length bs) \<le> seChunkSize s"
    and es: "\<forall>ev \<in> set (map (ledger_event_of (seChainID s) (block_map_of bs)) decoded). anchored_in bs ev"
  shows "hoare (\<lambda>d. d = d0) (Transaction (egOwned e) (egDb e)
       (commitTx e st2 bs decoded ids (number_or (stSafe st)) (number_or (stFinalized st))))
     (\<lambda>_. advanced s (bs \<noteq> []) st2 d0) (step_failed s d0)"
proof (rule hoare_tx)
  let ?es = "map (ledger_event_of (seChainID s) (block_map_of bs)) decoded"
  have obs: "stObserved st2 \<noteq> None" using ready unfolding ready_def by (metis option.distinct(1))
  have fresh: "fresh_blocks (seChainID s) d0 bs" using ready_fresh[OF inv] ready by (simp add: st_def)
  have "advanced s (bs \<noteq> []) st2 d0 d"
    if "committed s st2 bs ?es (number_or (stSafe st)) (number_or (stFinalized st)) d0 d" for d
    unfolding advanced_def using that ready keys size es st_def by blast
  then show "triple (\<lambda>d. d = d0) (commitTx e st2 bs decoded ids (number_or (stSafe st)) (number_or (stFinalized st)))
      (\<lambda>_. advanced s (bs \<noteq> []) st2 d0)"
    by (intro triple_conseq[OF commitTx_triple[OF obs, of d0 e bs]]) (use fresh in \<open>auto simp: s_def\<close>)
qed (auto simp: step_failed_def)

lemma promote_hoare:
  "hoare (\<lambda>d. d = d0) (promote e (block_map_of bs) observed remote status target)
     (\<lambda>r d. d = d0 \<and> promotion_ok (egSettings e) d0 bs observed remote target r) (step_failed s d0)"
  by (rule hoare_read[OF ro_promote promote_triple]) (simp add: step_failed_def)

lemma finishStep_hoare:
  fixes e d0 bs hi
  defines "s \<equiv> egSettings e"
  defines "st \<equiv> read_state s d0"
  assumes inv: "engine_inv s d0"
    and chunk: "chunk_ok (seChainID s) [next_height (seStartBlock s) st..hi] (stObserved st) bs"
    and size: "int (length bs) \<le> seChunkSize s" and ord: "ibBlockNumber finalized \<le> ibBlockNumber safe"
  shows "hoare (\<lambda>d. d = d0) (finishStep e st ids safe finalized lo hi bs) (step_done s d0) (step_failed s d0)"
proof -
  let ?anch = "\<lambda>decoded. \<forall>ev \<in> set (map (ledger_event_of (seChainID s) (block_map_of bs)) decoded). anchored_in bs ev"
  define st1 where "st1 = (if bs = [] then st else st\<lparr>stObserved := Some (last bs)\<rparr>)"
  have E0: "step_failed s d0 x d0" for x by (simp add: step_failed_def)
  have disc: "hoare (\<lambda>d. d = d0) (if bs = [] then ret [] else discoverChunk e ids lo hi bs)
      (\<lambda>decoded d. d = d0 \<and> ?anch decoded) (step_failed s d0)"
  proof (rule hoare_keep)
    fix w a w' assume "(if bs = [] then ret [] else discoverChunk e ids lo hi bs) w = (Inr a, w')"
    then show "?anch a" by (cases "bs = []") (simp_all add: ret_eq discoverChunk_anchored del: set_map)
  qed (auto intro!: ro_rule E0)
  have commit: "hoare (\<lambda>d. d = d0)
      (iobind (Transaction (egOwned e) (egDb e) (commitTx e (st1\<lparr>stSafe := safe', stFinalized := finalized'\<rparr>) bs decoded ids
         (number_or (stSafe st)) (number_or (stFinalized st)))) (\<lambda>_. ret (bs \<noteq> [], Some (st1\<lparr>stSafe := safe', stFinalized := finalized'\<rparr>))))
      (step_done s d0) (step_failed s d0)"
    if obs: "stObserved st1 = Some observed" and an: "?anch decoded"
      and ps: "promotion_ok s d0 bs observed safe (stSafe st1) safe'"
      and pf: "promotion_ok s d0 bs observed finalized (stFinalized st1) finalized'" for decoded observed safe' finalized'
  proof -
    let ?st2 = "st1\<lparr>stSafe := safe', stFinalized := finalized'\<rparr>"
    have same: "stSafe st1 = stSafe st" "stFinalized st1 = stFinalized st" by (simp_all add: st1_def)
    have rdy: "ready s d0 bs hi st ?st2"
      unfolding ready_def using chunk obs ord ps pf same by (auto simp: st1_def)
    have keys: "stChainID ?st2 = seChainID s" "stDeploymentID ?st2 = seDeploymentID s"
      by (simp_all add: st1_def st_def read_state_keys)
    have "hoare (\<lambda>d. d = d0) (Transaction (egOwned e) (egDb e) (commitTx e ?st2 bs decoded ids
         (number_or (stSafe st)) (number_or (stFinalized st)))) (\<lambda>_. advanced s (bs \<noteq> []) ?st2 d0) (step_failed s d0)"
      unfolding st_def s_def
      by (rule commit_hoare[OF inv[unfolded s_def] rdy[unfolded st_def s_def] keys[unfolded s_def]
            size[unfolded s_def] an[unfolded s_def]])
    then show ?thesis by (rule hoare_bind) (rule hoare_ret, auto simp: step_done_def split: bool.split)
  qed
  show ?thesis
    unfolding finishStep_def Let_def st1_def[symmetric]
  proof (rule hoare_bind[OF disc], rule hoare_fact)
    fix decoded assume an: "?anch decoded"
    show "hoare (\<lambda>d. d = d0) (case stObserved st1 of None \<Rightarrow> ret (False, None) | Some observed \<Rightarrow>
       iobind (promote e (block_map_of bs) observed safe ''safe'' (stSafe st1)) (\<lambda>safe'.
       iobind (promote e (block_map_of bs) observed finalized ''finalized'' (stFinalized st1)) (\<lambda>finalized'.
       iobind (Transaction (egOwned e) (egDb e) (commitTx e (st1\<lparr>stSafe := safe', stFinalized := finalized'\<rparr>) bs decoded ids
         (number_or (stSafe st)) (number_or (stFinalized st)))) (\<lambda>_. ret (bs \<noteq> [], Some (st1\<lparr>stSafe := safe', stFinalized := finalized'\<rparr>))))))
      (step_done s d0) (step_failed s d0)"
    proof (cases "stObserved st1")
      case None
      then show ?thesis by (auto intro!: hoare_ret simp: step_done_def)
    next
      case (Some observed)
      show ?thesis unfolding Some option.case
        by (rule hoare_bind[OF promote_hoare], rule hoare_fact, rule hoare_bind[OF promote_hoare], rule hoare_fact)
          (rule commit[OF Some an], simp_all add: s_def)
    qed
  qed
qed

section \<open>The whole step\<close>

lemma readHeads_ordered:
  "readHeads e w = (Inr (latest, safe, finalized), w') \<Longrightarrow> ibBlockNumber finalized \<le> ibBlockNumber safe"
  unfolding readHeads_def
  by (auto simp: iobind_eq_Inr ret_eq raise_eq split: if_splits prod.splits)

lemma chunkRange_size:
  assumes "chunkRange s st latest = (lo, hi)" "0 < seChunkSize s"
  shows "lo = next_height (seStartBlock s) st" "int (length [lo..hi]) \<le> seChunkSize s" "hi \<le> ibBlockNumber latest"
  using assms by (auto simp: chunkRange_def next_height_def Let_def split: if_splits)

lemma recover_step:
  fixes e d0
  defines "s \<equiv> egSettings e"
  assumes "0 \<le> seStartBlock s" "engine_inv s d0"
  shows "hoare (\<lambda>d. d = d0) (iobind (recoverReorg e (read_state s d0) tip) (\<lambda>_. ret (True, None)))
     (step_done s d0) (step_failed s d0)"
proof -
  have "hoare (\<lambda>d. d = d0) (recoverReorg e (read_state s d0) tip) (\<lambda>_. rolled_to s d0) (step_failed s d0)"
    using recoverReorg_hoare[of e d0 tip] assms unfolding hoare_def step_failed_def s_def
    by (fastforce split: sum.splits)
  then show ?thesis by (rule hoare_bind) (rule hoare_ret, simp add: step_done_def)
qed

lemma Step_hoare:
  fixes e d0
  defines "s \<equiv> egSettings e"
  assumes start: "0 \<le> seStartBlock s" and inv: "engine_inv s d0" and size: "0 < seChunkSize s"
  shows "hoare (\<lambda>d. d = d0) (Step e) (step_done s d0) (step_failed s d0)"
proof -
  define st where "st = read_state s d0"
  have E0: "step_failed s d0 x d0" for x by (simp add: step_failed_def)
  note rec = recover_step[of e d0, folded s_def, OF start inv, folded st_def]
  have stored: "hoare (\<lambda>d. d = d0) (readStored e) (\<lambda>p d. d = d0 \<and> fst p = st) (step_failed s d0)"
  proof (rule hoare_read[OF ro_readStored])
    show "triple (\<lambda>d. d = d0) (readStored e) (\<lambda>p d. d = d0 \<and> fst p = st)"
      by (rule triple_conseq[OF readStored_triple[of d0 e]]) (auto simp: st_def s_def)
  qed (use E0 in simp)
  have heads: "hoare (\<lambda>d. d = d0) (readHeads e)
      (\<lambda>p d. d = d0 \<and> ibBlockNumber (snd (snd p)) \<le> ibBlockNumber (fst (snd p))) (step_failed s d0)"
    by (rule hoare_keep[OF ro_readHeads]) (auto dest: readHeads_ordered intro: E0)
  have saved: "hoare (\<lambda>d. d = d0) (checkSaved e st xs) (\<lambda>_ d. d = d0 \<and> True) (step_failed s d0)" for xs
    by (rule hoare_keep[OF ro_checkSaved]) (auto intro: E0)
  have chunk: "hoare (\<lambda>d. d = d0) (readChunk e st ns prev [])
      (\<lambda>r d. d = d0 \<and> (\<forall>bs. r = ChunkBlocks bs \<longrightarrow> chunk_ok (seChainID s) ns prev bs)) (step_failed s d0)" for ns prev
    by (rule hoare_keep[OF ro_readChunk]) (use E0 in \<open>auto dest: readChunk_Inr simp: s_def\<close>)
  have range: "hoare (\<lambda>d. d = d0) (iobind (readChunk e st [lo..hi] (stObserved st) []) (\<lambda>chunk.
        case chunk of ChunkReorg tip \<Rightarrow> iobind (recoverReorg e st tip) (\<lambda>_. ret (True, None))
        | ChunkBlocks blocks \<Rightarrow> finishStep e st ids safe finalized lo hi blocks)) (step_done s d0) (step_failed s d0)"
    if r: "chunkRange s st latest = (lo, hi)" and ord: "ibBlockNumber finalized \<le> ibBlockNumber safe"
    for lo hi latest safe finalized ids
  proof (rule hoare_bind[OF chunk], rule hoare_fact)
    fix r assume ok: "\<forall>bs. r = ChunkBlocks bs \<longrightarrow> chunk_ok (seChainID s) [lo..hi] (stObserved st) bs"
    show "hoare (\<lambda>d. d = d0) (case r of ChunkReorg tip \<Rightarrow> iobind (recoverReorg e st tip) (\<lambda>_. ret (True, None))
        | ChunkBlocks blocks \<Rightarrow> finishStep e st ids safe finalized lo hi blocks) (step_done s d0) (step_failed s d0)"
    proof (cases r)
      case (ChunkBlocks bs)
      then have c: "chunk_ok (seChainID s) [lo..hi] (stObserved st) bs" using ok by blast
      then have "length bs = length [lo..hi]" unfolding chunk_ok_def by (metis length_map)
      then show ?thesis
        using c chunkRange_size[OF r size] ord inv ChunkBlocks unfolding s_def st_def
        by (auto intro!: finishStep_hoare)
    qed (simp add: rec)
  qed
  show ?thesis
    unfolding Step_def s_def[symmetric]
    by (rule hoare_bind[OF stored], rule hoare_fact, clarsimp, rule hoare_bind[OF heads], rule hoare_fact, clarsimp,
        rule hoare_bind[OF saved], rule hoare_fact)
      (auto intro!: rec range split: option.splits prod.splits)
qed

section \<open>Runs\<close>

lemma New_settings: "New settings = Inr s \<Longrightarrow> 0 \<le> seStartBlock s \<and> 0 < seChunkSize s"
  by (auto simp: New_def Let_def split: if_splits)

lemma Step_run:
  assumes "New settings = Inr (egSettings e)" "engine_inv (egSettings e) (wDb w)" "Step e w = (r, w')"
  shows "case r of Inr out \<Rightarrow> step_done (egSettings e) (wDb w) out (wDb w')
    | Inl err \<Rightarrow> step_failed (egSettings e) (wDb w) err (wDb w')"
  using Step_hoare[of e "wDb w"] New_settings[OF assms(1)] assms(2,3) by (auto simp: hoare_def)

lemma Step_evolves:
  assumes "New settings = Inr (egSettings e)" "engine_inv (egSettings e) (wDb w)" "Step e w = (r, w')"
  shows "evolves (egSettings e) (wDb w) (wDb w')"
  using Step_run[OF assms] New_settings[OF assms(1)] assms(2)
  by (cases r) (auto intro: step_done_evolves step_failed_evolves)

lemma Run_evolves:
  assumes "New settings = Inr (egSettings e)"
  shows "engine_inv (egSettings e) (wDb w) \<Longrightarrow> Run fuel e w = (r, w') \<Longrightarrow> evolves (egSettings e) (wDb w) (wDb w')"
proof (induction fuel arbitrary: w)
  case 0
  then show ?case by (simp add: evolves_refl)
next
  case (Suc fuel)
  obtain x w1 where s: "Step e w = (x, w1)" by fastforce
  have e1: "evolves (egSettings e) (wDb w) (wDb w1)" by (rule Step_evolves[OF assms Suc.prems(1) s])
  then have inv: "engine_inv (egSettings e) (wDb w1)" by (simp add: evolves_def)
  show ?case
  proof (cases x)
    case (Inl err)
    then show ?thesis using Suc.prems(2) s e1 by simp
  next
    case (Inr out)
    obtain moved st where out: "out = (moved, st)" by fastforce
    have "wDb w' = wDb w1 \<or> evolves (egSettings e) (wDb w1) (wDb w')"
      using Suc.prems(2) s Inr out Suc.IH[of w1] Suc.IH[of "tick w1"] inv by (auto split: if_splits)
    then show ?thesis using e1 evolves_trans by (metis (no_types))
  qed
qed

section \<open>A concrete engine\<close>

text \<open>A provider with three blocks, and one that disagrees from a given height on.\<close>

definition demo_header :: "int \<Rightarrow> int \<Rightarrow> header" where
  "demo_header fork n = \<lparr>hdNumber = Some n, hdHash = word_of_int (n + 1 + (if fork \<le> n then 100 else 0)),
     hdParentHash = word_of_int (n + (if fork < n then 100 else 0)), hdTime = word_of_int n\<rparr>"

definition demo_settings :: Settings where
  "demo_settings = \<lparr>seChainID = 1, seDeploymentID = ''demo-v1'', seFactory = 42, seStartBlock = 0, seChunkSize = 3,
     sePollInterval = 1, seReorgSearchDepth = 128, seReorgRecoveryMode = False\<rparr>"

definition demo_engine :: "int \<Rightarrow> unit engine" where
  "demo_engine fork = \<lparr>egSettings = demo_settings, egOwned = False, egDb = quiet_env unit_sql,
     egHeads = (\<lambda>_. Inr (demo_header fork 2, demo_header fork 0, demo_header fork 0)),
     egHeader = (\<lambda>_ n. Inr (demo_header fork (uint n))),
     egDiscover = (\<lambda>_ _ _ em. Inr \<lparr>drLogs = [], drLaunches = [], drEmitters = em\<rparr>),
     egDecoder = \<lparr>deEngineVersion = 1, deEvents = []\<rparr>, egCodec = demo_codec\<rparr>"

definition demo_block :: "int \<Rightarrow> string \<Rightarrow> IndexedBlock" where
  "demo_block n status = \<lparr>ibChainID = 1, ibBlockNumber = n, ibBlockHash = word_of_int (n + 1), ibParentHash = word_of_int n,
     ibBlockTime = n, ibFinalityStatus = status\<rparr>"

definition demo_first :: "unit world" where
  "demo_first = \<lparr>wDb = empty_db
      \<lparr>dbBlocks := [demo_block 0 ''finalized'', demo_block 1 ''observed'', demo_block 2 ''observed''],
       dbSync := [\<lparr>syChainID = 1, syDeploymentID = ''demo-v1'', syObserved = Some (2, 3, 2), sySafe = Some (0, 1, 0),
         syFinalized = Some (0, 1, 0)\<rparr>]\<rparr>, wTick = 20, wOwnerDead = None\<rparr>"

lemma demo_settings_of: "egSettings (demo_engine fork) = demo_settings"
  by (simp add: demo_engine_def)

lemma demo_inv: "New demo_settings = Inr (egSettings (demo_engine fork))" "engine_inv (egSettings (demo_engine fork)) (wDb empty_world)"
  by (simp_all add: demo_engine_def New_def demo_settings_def maxReorgSearchDepth_def defaultReorgSearchDepth_def
      engine_inv_def blocks_unique_def events_unique_def stored_sync_def empty_world_def empty_db_def row_at_def fun_eq_iff)

lemma demo_advances: "map_prod (map_sum id fst) id (Step (demo_engine 9) empty_world) = (Inr True, demo_first)"
  by code_simp

lemma demo_state: "map_sum id ((\<noteq>) None \<circ> snd) (fst (Step (demo_engine 9) empty_world)) = Inr True"
  by code_simp

lemma demo_first_inv: "engine_inv (egSettings (demo_engine fork)) (wDb demo_first)"
proof -
  have "Step (demo_engine 9) empty_world = (fst (Step (demo_engine 9) empty_world), demo_first)"
    using demo_advances by (cases "Step (demo_engine 9) empty_world") auto
  then have "evolves (egSettings (demo_engine 9)) (wDb empty_world) (wDb demo_first)"
    by (rule Step_evolves[OF demo_inv])
  then show ?thesis by (simp add: evolves_def demo_engine_def)
qed

section \<open>Properties\<close>





end
