(* ===== verification/Realtime_Hub.thy ===== *)
theory Realtime_Hub
  imports Launch_Prelude
begin

text \<open>
  The refresh hub of \<^verbatim>\<open>realtime/hub.go\<close>: subscribers with bounded channels, best-effort publication
  that evicts a subscriber whose channel is full, and idempotent unsubscription.

  A Go channel is an entry of a store of channels, addressed by its position; sending on or closing
  a closed channel is a panic, the value None. The hub's mutex makes every method one step, so an
  interleaving of goroutines is a sequence of steps; receiving from a channel is a step of the
  subscriber. Subscription numbers are 64-bit words and wrap.
\<close>

section \<open>Events\<close>

record Event =
  reType :: string
  reChainID :: int
  reDeploymentID :: string
  reToken :: string
  reAsOfBlock :: int
  reAsOfBlockHash :: string
  reCommonAncestor :: int

text \<open>The checks of \<open>Decode\<close> on an unmarshalled event; unmarshalling is a parameter.\<close>

definition hub_Decode :: "(string \<Rightarrow> string + Event) \<Rightarrow> string \<Rightarrow> string + Event" where
  "hub_Decode unmarshal data =
     (case unmarshal data of
        Inl err \<Rightarrow> Inl err
      | Inr event \<Rightarrow>
        if reType event \<noteq> ''launch'' \<and> reType event \<noteq> ''token'' \<and> reType event \<noteq> ''reorg''
        then Inl ''unknown refresh event type''
        else if reChainID event \<le> 0 \<or> reDeploymentID event = [] then Inl ''refresh event scope is invalid''
        else Inr event)"

section \<open>The hub\<close>

record channel =
  chBuffer :: "Event list"
  chClosed :: bool

record Subscription =
  suChannel :: nat
  suID :: "64 word"

record Hub =
  hbChannels :: "channel list"
  hbSubscribers :: "(64 word \<times> nat) list"
  hbNextID :: "64 word"
  hbMaximum :: int
  hbBuffer :: int
  hbEvictions :: "64 word"
  hbActive :: "64 word"

definition NewHub :: "int \<Rightarrow> int \<Rightarrow> Hub" where
  "NewHub maximum buffer =
     \<lparr>hbChannels = [], hbSubscribers = [], hbNextID = 0,
      hbMaximum = (if maximum \<le> 0 then 1000 else maximum), hbBuffer = (if buffer \<le> 0 then 16 else buffer),
      hbEvictions = 0, hbActive = 0\<rparr>"

definition Subscribe :: "Hub \<Rightarrow> Subscription option \<times> Hub" where
  "Subscribe h =
     (if int (length (hbSubscribers h)) \<ge> hbMaximum h then (None, h)
      else let n = hbNextID h + 1; ref = length (hbChannels h) in
        (Some \<lparr>suChannel = ref, suID = n\<rparr>,
         h\<lparr>hbNextID := n, hbChannels := hbChannels h @ [\<lparr>chBuffer = [], chClosed = False\<rparr>],
           hbSubscribers := AList.update n ref (hbSubscribers h), hbActive := hbActive h + 1\<rparr>))"

definition close_channel :: "nat \<Rightarrow> Hub \<Rightarrow> Hub option" where
  "close_channel ref h =
     (if chClosed (hbChannels h ! ref) then None
      else Some (h\<lparr>hbChannels := (hbChannels h)[ref := (hbChannels h ! ref)\<lparr>chClosed := True\<rparr>]\<rparr>))"

text \<open>The \<open>select\<close> on one subscriber: buffer the event, or drop the subscriber.\<close>

definition offer :: "Event \<Rightarrow> 64 word \<times> nat \<Rightarrow> Hub \<Rightarrow> Hub option" where
  "offer event s h =
     (case s of (n, ref) \<Rightarrow>
      let c = hbChannels h ! ref in
      if chClosed c then None
      else if int (length (chBuffer c)) < hbBuffer h
      then Some (h\<lparr>hbChannels := (hbChannels h)[ref := c\<lparr>chBuffer := chBuffer c @ [event]\<rparr>]\<rparr>)
      else Option.bind (close_channel ref (h\<lparr>hbSubscribers := AList.delete n (hbSubscribers h)\<rparr>))
        (\<lambda>h1. Some (h1\<lparr>hbActive := hbActive h1 - 1, hbEvictions := hbEvictions h1 + 1\<rparr>)))"

fun offer_all :: "Event \<Rightarrow> (64 word \<times> nat) list \<Rightarrow> Hub \<Rightarrow> Hub option" where
  "offer_all event [] h = Some h"
| "offer_all event (s # subs) h = Option.bind (offer event s h) (offer_all event subs)"

definition Publish :: "Event \<Rightarrow> Hub \<Rightarrow> Hub option" where
  "Publish event h = offer_all event (hbSubscribers h) h"

definition remove :: "64 word \<Rightarrow> Hub \<Rightarrow> Hub option" where
  "remove n h =
     (case map_of (hbSubscribers h) n of
        None \<Rightarrow> Some h
      | Some ref \<Rightarrow>
        Option.bind (close_channel ref (h\<lparr>hbSubscribers := AList.delete n (hbSubscribers h)\<rparr>))
          (\<lambda>h1. Some (h1\<lparr>hbActive := hbActive h1 - 1\<rparr>)))"

definition Active :: "Hub \<Rightarrow> int" where "Active h = sint (hbActive h)"

definition Evictions :: "Hub \<Rightarrow> 64 word" where "Evictions h = hbEvictions h"

text \<open>A subscriber's receive: the oldest buffered event, if any.\<close>

definition receive :: "nat \<Rightarrow> Hub \<Rightarrow> (Event \<times> Hub) option" where
  "receive ref h =
     (if ref < length (hbChannels h) then
        (case chBuffer (hbChannels h ! ref) of
           [] \<Rightarrow> None
         | e # rest \<Rightarrow> Some (e, h\<lparr>hbChannels := (hbChannels h)[ref := (hbChannels h ! ref)\<lparr>chBuffer := rest\<rparr>]\<rparr>))
      else None)"

section \<open>The system of hub and subscribers\<close>

text \<open>
  The history beside the hub: what was published, and for each channel when it was subscribed, when
  it left the hub and what its subscriber received. \<open>Subscription.Close\<close> runs its function once.
\<close>

record hub_system =
  hsHub :: Hub
  hsOnce :: "nat list"
  hsPublished :: "Event list"
  hsReceived :: "nat \<Rightarrow> Event list"
  hsFrom :: "nat \<Rightarrow> nat"
  hsUntil :: "nat \<Rightarrow> nat option"

definition Subscription_Close :: "Subscription \<Rightarrow> hub_system \<Rightarrow> hub_system option" where
  "Subscription_Close s y =
     (if suChannel s \<in> set (hsOnce y) then Some y
      else Option.bind (remove (suID s) (hsHub y)) (\<lambda>h. Some (y\<lparr>hsHub := h, hsOnce := suChannel s # hsOnce y\<rparr>)))"

definition live :: "Hub \<Rightarrow> nat set" where "live h = snd ` set (hbSubscribers h)"

text \<open>Channels that left the hub in a step stop at the events published before it.\<close>

definition mark_left :: "hub_system \<Rightarrow> hub_system \<Rightarrow> hub_system" where
  "mark_left before y = y\<lparr>hsUntil := (\<lambda>r. if r \<in> live (hsHub before) - live (hsHub y)
      then Some (length (hsPublished before)) else hsUntil before r)\<rparr>"

inductive hub_step :: "hub_system \<Rightarrow> hub_system \<Rightarrow> bool" where
  subscribe: "Subscribe (hsHub y) = (Some s, h) \<Longrightarrow>
    hub_step y (y\<lparr>hsHub := h, hsFrom := (hsFrom y)(suChannel s := length (hsPublished y))\<rparr>)"
| refuse: "Subscribe (hsHub y) = (None, h) \<Longrightarrow> hub_step y (y\<lparr>hsHub := h\<rparr>)"
| publish: "Publish event (hsHub y) = Some h \<Longrightarrow>
    hub_step y (mark_left y (y\<lparr>hsHub := h, hsPublished := hsPublished y @ [event]\<rparr>))"
| close: "Subscription_Close s y = Some y' \<Longrightarrow> hub_step y (mark_left y y')"
| receive: "receive ref (hsHub y) = Some (event, h) \<Longrightarrow>
    hub_step y (y\<lparr>hsHub := h, hsReceived := (hsReceived y)(ref := hsReceived y ref @ [event])\<rparr>)"

definition hub_start :: "int \<Rightarrow> int \<Rightarrow> hub_system" where
  "hub_start maximum buffer = \<lparr>hsHub = NewHub maximum buffer, hsOnce = [], hsPublished = [], hsReceived = (\<lambda>_. []),
     hsFrom = (\<lambda>_. 0), hsUntil = (\<lambda>_. None)\<rparr>"

inductive hub_reach :: "int \<Rightarrow> int \<Rightarrow> hub_system \<Rightarrow> bool" for maximum buffer where
  start: "hub_reach maximum buffer (hub_start maximum buffer)"
| step: "hub_reach maximum buffer y \<Longrightarrow> hub_step y y' \<Longrightarrow> hub_reach maximum buffer y'"

section \<open>The invariant\<close>

definition hub_inv :: "Hub \<Rightarrow> bool" where
  "hub_inv h \<longleftrightarrow> distinct (map fst (hbSubscribers h)) \<and> distinct (map snd (hbSubscribers h))
     \<and> (\<forall>(n, r) \<in> set (hbSubscribers h). r < length (hbChannels h) \<and> \<not> chClosed (hbChannels h ! r)
          \<and> n = word_of_nat (Suc r))
     \<and> (\<forall>r < length (hbChannels h). r \<notin> live h \<longrightarrow> chClosed (hbChannels h ! r))
     \<and> (\<forall>c \<in> set (hbChannels h). int (length (chBuffer c)) \<le> hbBuffer h)
     \<and> int (length (hbSubscribers h)) \<le> hbMaximum h \<and> 0 < hbBuffer h
     \<and> hbNextID h = word_of_nat (length (hbChannels h)) \<and> hbActive h = word_of_nat (length (hbSubscribers h))"

fun until_or :: "nat \<Rightarrow> nat option \<Rightarrow> nat" where
  "until_or n None = n"
| "until_or n (Some m) = m"

definition history_inv :: "hub_system \<Rightarrow> bool" where
  "history_inv y \<longleftrightarrow>
     (\<forall>r \<ge> length (hbChannels (hsHub y)). hsUntil y r = None \<and> hsReceived y r = []) \<and>
     (\<forall>r < length (hbChannels (hsHub y)).
        hsFrom y r \<le> length (hsPublished y) \<and> (hsUntil y r = None \<longleftrightarrow> r \<in> live (hsHub y))
        \<and> (\<forall>n. hsUntil y r = Some n \<longrightarrow> n \<le> length (hsPublished y))
        \<and> hsReceived y r @ chBuffer (hbChannels (hsHub y) ! r) =
          drop (hsFrom y r) (take (until_or (length (hsPublished y)) (hsUntil y r)) (hsPublished y)))"

lemma hub_invD:
  assumes "hub_inv h" "(n, r) \<in> set (hbSubscribers h)"
  shows "r < length (hbChannels h)" "\<not> chClosed (hbChannels h ! r)" "r \<in> live h"
    "map_of (hbSubscribers h) n = Some r"
  using assms by (force simp: hub_inv_def live_def)+

lemma delete_snd:
  "distinct (map fst xs) \<Longrightarrow> distinct (map snd xs) \<Longrightarrow> (n, r) \<in> set xs \<Longrightarrow>
   snd ` set (AList.delete n xs) = snd ` set xs - {r}
   \<and> Suc (length (AList.delete n xs)) = length xs \<and> distinct (map fst (AList.delete n xs))
   \<and> distinct (map snd (AList.delete n xs)) \<and> set (AList.delete n xs) = set xs - {(n, r)}"
proof (induction xs)
  case (Cons x xs)
  obtain m q where x: "x = (m, q)" by fastforce
  show ?case
  proof (cases "m = n")
    case True
    then have "AList.delete n xs = xs" using Cons.prems x by (auto simp: AList.delete_notin_dom)
    moreover have "r = q" using Cons.prems True x by (auto simp: rev_image_eqI)
    moreover have "(m, q) \<notin> set xs" using Cons.prems(1) x by (auto simp: rev_image_eqI)
    ultimately show ?thesis using True x Cons.prems by (auto simp: rev_image_eqI)
  next
    case False
    then have "(n, r) \<in> set xs" using Cons.prems x by auto
    then have "r \<noteq> q" using Cons.prems x by (auto simp: rev_image_eqI)
    then show ?thesis using Cons False x \<open>(n, r) \<in> set xs\<close> by (auto simp: AList.delete_eq rev_image_eqI)
  qed
qed simp

text \<open>Removing an open subscriber of the hub.\<close>

definition without :: "64 word \<Rightarrow> nat \<Rightarrow> Hub \<Rightarrow> Hub" where
  "without n r h = h\<lparr>hbChannels := (hbChannels h)[r := (hbChannels h ! r)\<lparr>chClosed := True\<rparr>],
     hbSubscribers := AList.delete n (hbSubscribers h), hbActive := hbActive h - 1\<rparr>"

lemma without_inv:
  assumes inv: "hub_inv h" and mem: "(n, r) \<in> set (hbSubscribers h)"
  shows "hub_inv (without n r h)" "live (without n r h) = live h - {r}"
proof -
  have d: "distinct (map fst (hbSubscribers h))" "distinct (map snd (hbSubscribers h))"
    using inv by (simp_all add: hub_inv_def)
  note del = delete_snd[OF d mem]
  show l: "live (without n r h) = live h - {r}" using conjunct1[OF del] by (simp add: live_def without_def)
  have "word_of_nat (length (hbSubscribers h)) - 1 = (word_of_nat (length (AList.delete n (hbSubscribers h))) :: 64 word)"
    using del by (metis add_diff_cancel_left' of_nat_Suc)
  then have act: "hbActive (without n r h) = word_of_nat (length (hbSubscribers (without n r h)))"
    using inv by (simp add: hub_inv_def without_def)
  have subs: "set (hbSubscribers (without n r h)) \<subseteq> set (hbSubscribers h)"
    "distinct (map fst (hbSubscribers (without n r h)))" "distinct (map snd (hbSubscribers (without n r h)))"
    "length (hbSubscribers (without n r h)) \<le> length (hbSubscribers h)"
    using del by (auto simp: without_def)
  have other: "q \<noteq> r" if "(m, q) \<in> set (hbSubscribers (without n r h))" for m q
    using that l unfolding live_def by force
  have ch: "hbChannels (without n r h) = (hbChannels h)[r := (hbChannels h ! r)\<lparr>chClosed := True\<rparr>]"
    "hbBuffer (without n r h) = hbBuffer h" "hbMaximum (without n r h) = hbMaximum h" "hbNextID (without n r h) = hbNextID h"
    by (simp_all add: without_def)
  have open_ch: "\<forall>(m, q) \<in> set (hbSubscribers (without n r h)). q < length (hbChannels (without n r h))
      \<and> \<not> chClosed (hbChannels (without n r h) ! q) \<and> m = word_of_nat (Suc q)"
    using inv subs(1) other ch(1) by (fastforce simp: hub_inv_def)
  have shut: "\<forall>q < length (hbChannels (without n r h)). q \<notin> live (without n r h) \<longrightarrow> chClosed (hbChannels (without n r h) ! q)"
    unfolding l ch(1) using inv hub_invD(1)[OF inv mem] by (auto simp: hub_inv_def nth_list_update)
  have buf: "\<forall>c \<in> set (hbChannels (without n r h)). int (length (chBuffer c)) \<le> hbBuffer (without n r h)"
    unfolding ch using inv hub_invD(1)[OF inv mem] set_update_subset_insert[of "hbChannels h" r]
    by (fastforce simp: hub_inv_def)
  show "hub_inv (without n r h)"
    unfolding hub_inv_def using open_ch shut buf subs act inv ch by (simp add: hub_inv_def)
qed

definition offered :: "Event \<Rightarrow> nat set \<Rightarrow> Hub \<Rightarrow> Hub \<Rightarrow> bool" where
  "offered event R h h' \<longleftrightarrow> length (hbChannels h') = length (hbChannels h) \<and> hbBuffer h' = hbBuffer h
     \<and> hbMaximum h' = hbMaximum h
     \<and> (\<forall>q. q \<notin> R \<longrightarrow> hbChannels h' ! q = hbChannels h ! q \<and> (q \<in> live h' \<longleftrightarrow> q \<in> live h))
     \<and> (\<forall>q \<in> R. if int (length (chBuffer (hbChannels h ! q))) < hbBuffer h
          then q \<in> live h' \<and> chBuffer (hbChannels h' ! q) = chBuffer (hbChannels h ! q) @ [event]
          else q \<notin> live h' \<and> chBuffer (hbChannels h' ! q) = chBuffer (hbChannels h ! q))"

lemma offer_ok:
  assumes inv: "hub_inv h" and mem: "(n, r) \<in> set (hbSubscribers h)"
  shows "\<exists>h'. offer event (n, r) h = Some h' \<and> hub_inv h' \<and> offered event {r} h h'
    \<and> set (hbSubscribers h) - {(n, r)} \<subseteq> set (hbSubscribers h')"
proof (cases "int (length (chBuffer (hbChannels h ! r))) < hbBuffer h")
  case True
  let ?h = "h\<lparr>hbChannels := (hbChannels h)[r := (hbChannels h ! r)\<lparr>chBuffer := chBuffer (hbChannels h ! r) @ [event]\<rparr>]\<rparr>"
  have l: "live ?h = live h" by (simp add: live_def)
  have "hub_inv ?h"
    using inv True l hub_invD[OF inv mem]
    by (auto simp: hub_inv_def nth_list_update dest!: set_update_subset_insert[THEN subsetD])
  moreover have "offer event (n, r) h = Some ?h" using True hub_invD[OF inv mem] by (simp add: offer_def Let_def)
  moreover have "offered event {r} h ?h" using True l hub_invD[OF inv mem] by (simp add: offered_def)
  ultimately show ?thesis by auto
next
  case False
  let ?h = "(without n r h)\<lparr>hbEvictions := hbEvictions h + 1\<rparr>"
  have d: "distinct (map fst (hbSubscribers h))" "distinct (map snd (hbSubscribers h))"
    using inv by (simp_all add: hub_inv_def)
  have l: "live ?h = live h - {r}" using without_inv(2)[OF inv mem] by (simp add: live_def)
  have "hub_inv ?h" using without_inv(1)[OF inv mem] by (simp add: hub_inv_def live_def)
  moreover have "offer event (n, r) h = Some ?h"
    using False hub_invD[OF inv mem] by (simp add: offer_def Let_def close_channel_def without_def)
  moreover have "offered event {r} h ?h"
    using False l hub_invD[OF inv mem] by (simp add: offered_def without_def)
  ultimately show ?thesis using delete_snd[OF d mem] by (auto simp: without_def)
qed

lemma offered_trans:
  assumes one: "offered event {r} h h1" and rest: "offered event R h1 h2" and r: "r \<notin> R"
  shows "offered event (insert r R) h h2"
proof -
  have q: "hbChannels h1 ! q = hbChannels h ! q" "q \<in> live h1 \<longleftrightarrow> q \<in> live h" if "q \<noteq> r" for q
    using that one by (simp_all add: offered_def)
  have b: "hbBuffer h1 = hbBuffer h" using one by (simp add: offered_def)
  have out: "hbChannels h2 ! q = hbChannels h1 ! q" "q \<in> live h2 \<longleftrightarrow> q \<in> live h1" if "q \<notin> R" for q
    using that rest by (simp_all add: offered_def)
  have "if int (length (chBuffer (hbChannels h ! x))) < hbBuffer h
      then x \<in> live h2 \<and> chBuffer (hbChannels h2 ! x) = chBuffer (hbChannels h ! x) @ [event]
      else x \<notin> live h2 \<and> chBuffer (hbChannels h2 ! x) = chBuffer (hbChannels h ! x)" if "x \<in> insert r R" for x
  proof (cases "x = r")
    case True
    then show ?thesis using one out[OF r] by (simp add: offered_def)
  next
    case False
    then have x: "x \<in> R" "hbChannels h1 ! x = hbChannels h ! x" using that q by auto
    show ?thesis using bspec[OF conjunct2[OF conjunct2[OF conjunct2[OF conjunct2[OF rest[unfolded offered_def]]]]] x(1)]
      unfolding x(2) b .
  qed
  then show ?thesis using one rest q out unfolding offered_def by simp
qed

lemma offer_all_ok:
  "hub_inv h \<Longrightarrow> set subs \<subseteq> set (hbSubscribers h) \<Longrightarrow> distinct (map snd subs) \<Longrightarrow>
   \<exists>h'. offer_all event subs h = Some h' \<and> hub_inv h' \<and> offered event (snd ` set subs) h h'"
proof (induction subs arbitrary: h)
  case Nil
  then show ?case by (simp add: offered_def)
next
  case (Cons s subs)
  obtain n r where s: "s = (n, r)" by fastforce
  obtain h1 where h1: "offer event (n, r) h = Some h1" "hub_inv h1" "offered event {r} h h1"
      "set (hbSubscribers h) - {(n, r)} \<subseteq> set (hbSubscribers h1)"
    using offer_ok[of h n r event] Cons.prems s by auto
  have r: "r \<notin> snd ` set subs" using Cons.prems(3) s by simp
  then have "set subs \<subseteq> set (hbSubscribers h1)" using h1(4) Cons.prems(2) s by force
  then obtain h2 where "offer_all event subs h1 = Some h2" "hub_inv h2" "offered event (snd ` set subs) h1 h2"
    using Cons.IH[OF h1(2)] Cons.prems(3) by auto
  then show ?case using s h1 offered_trans[OF h1(3) _ r] by auto
qed

lemma Publish_ok: "hub_inv h \<Longrightarrow> \<exists>h'. Publish event h = Some h' \<and> hub_inv h' \<and> offered event (live h) h h'"
  unfolding Publish_def live_def by (rule offer_all_ok) (simp_all add: hub_inv_def)

lemma remove_ok:
  assumes "hub_inv h"
  shows "(n \<notin> fst ` set (hbSubscribers h) \<longrightarrow> remove n h = Some h)
    \<and> (\<forall>r. (n, r) \<in> set (hbSubscribers h) \<longrightarrow> remove n h = Some (without n r h))"
  using hub_invD[OF assms]
  by (auto simp: remove_def close_channel_def without_def map_of_eq_None_iff[symmetric] split: option.splits)

lemma word_of_nat_inj64: "a < 2 ^ 64 \<Longrightarrow> b < 2 ^ 64 \<Longrightarrow> (word_of_nat a :: 64 word) = word_of_nat b \<longleftrightarrow> a = b"
  by (simp add: word_of_nat_eq_iff take_bit_nat_eq_self)

lemma Subscribe_ok:
  assumes inv: "hub_inv h" and room: "Suc (length (hbChannels h)) < 2 ^ 64" and sub: "Subscribe h = (Some s, h')"
  shows "hub_inv h'" "suChannel s = length (hbChannels h)" "live h' = insert (length (hbChannels h)) (live h)"
    "hbChannels h' = hbChannels h @ [\<lparr>chBuffer = [], chClosed = False\<rparr>]"
proof -
  let ?r = "length (hbChannels h)" and ?n = "word_of_nat (Suc (length (hbChannels h))) :: 64 word"
  have n: "hbNextID h + 1 = ?n" using inv by (simp add: hub_inv_def)
  have fresh: "?n \<notin> fst ` set (hbSubscribers h)"
  proof
    assume "?n \<in> fst ` set (hbSubscribers h)"
    then obtain r where "(?n, r) \<in> set (hbSubscribers h)" by auto
    then have "r < ?r" "?n = word_of_nat (Suc r)" using inv by (auto simp: hub_inv_def)
    moreover from this have "Suc ?r = Suc r"
      using room word_of_nat_inj64[of "Suc ?r" "Suc r"] by simp
    ultimately show False by simp
  qed
  then have upd: "AList.update ?n ?r (hbSubscribers h) = hbSubscribers h @ [(?n, ?r)]" by (rule update_fresh)
  have room': "int (length (hbSubscribers h)) < hbMaximum h" using sub by (simp add: Subscribe_def split: if_splits)
  have "Subscribe h = (Some \<lparr>suChannel = ?r, suID = ?n\<rparr>,
      h\<lparr>hbNextID := ?n, hbChannels := hbChannels h @ [\<lparr>chBuffer = [], chClosed = False\<rparr>],
        hbSubscribers := hbSubscribers h @ [(?n, ?r)], hbActive := hbActive h + 1\<rparr>)"
    using room' unfolding Subscribe_def Let_def n upd by simp
  then have s: "s = \<lparr>suChannel = ?r, suID = ?n\<rparr>"
    and h': "h' = h\<lparr>hbNextID := ?n, hbChannels := hbChannels h @ [\<lparr>chBuffer = [], chClosed = False\<rparr>],
        hbSubscribers := hbSubscribers h @ [(?n, ?r)], hbActive := hbActive h + 1\<rparr>"
    using sub by simp_all
  show "suChannel s = ?r" by (simp add: s)
  show "hbChannels h' = hbChannels h @ [\<lparr>chBuffer = [], chClosed = False\<rparr>]" by (simp add: h')
  show l: "live h' = insert ?r (live h)" by (simp add: h' live_def)
  have "?r \<notin> snd ` set (hbSubscribers h)" using inv by (fastforce simp: hub_inv_def)
  then have d: "distinct (map fst (hbSubscribers h'))" "distinct (map snd (hbSubscribers h'))"
    using inv fresh by (simp_all add: h' hub_inv_def del: of_nat_Suc)
  have open_ch: "\<forall>(m, q) \<in> set (hbSubscribers h'). q < length (hbChannels h')
      \<and> \<not> chClosed (hbChannels h' ! q) \<and> m = word_of_nat (Suc q)"
    using inv by (fastforce simp: h' hub_inv_def nth_append simp del: of_nat_Suc)
  have shut: "\<forall>q < length (hbChannels h'). q \<notin> live h' \<longrightarrow> chClosed (hbChannels h' ! q)"
    unfolding l using inv by (auto simp: h' hub_inv_def nth_append)
  show "hub_inv h'"
    unfolding hub_inv_def using d open_ch shut inv room' by (simp add: h' hub_inv_def)
qed

section \<open>Every step keeps the invariant\<close>

lemma live_channel: "hub_inv h \<Longrightarrow> r \<in> live h \<Longrightarrow> r < length (hbChannels h)"
  unfolding hub_inv_def live_def by fastforce

definition channel_history :: "hub_system \<Rightarrow> nat \<Rightarrow> bool" where
  "channel_history y r \<longleftrightarrow> hsFrom y r \<le> length (hsPublished y) \<and> (hsUntil y r = None \<longleftrightarrow> r \<in> live (hsHub y))
     \<and> (\<forall>n. hsUntil y r = Some n \<longrightarrow> n \<le> length (hsPublished y))
     \<and> hsReceived y r @ chBuffer (hbChannels (hsHub y) ! r) =
       drop (hsFrom y r) (take (until_or (length (hsPublished y)) (hsUntil y r)) (hsPublished y))"

lemma history_inv_iff:
  "history_inv y \<longleftrightarrow> (\<forall>r \<ge> length (hbChannels (hsHub y)). hsUntil y r = None \<and> hsReceived y r = [])
     \<and> (\<forall>r < length (hbChannels (hsHub y)). channel_history y r)"
  by (simp add: history_inv_def channel_history_def)

lemma history_subscribe:
  assumes inv: "hub_inv (hsHub y)" and hist: "history_inv y" and sub: "Subscribe (hsHub y) = (Some s, h)"
    and room: "Suc (length (hbChannels (hsHub y))) < 2 ^ 64"
  shows "history_inv (y\<lparr>hsHub := h, hsFrom := (hsFrom y)(suChannel s := length (hsPublished y))\<rparr>)"
proof -
  note ok = Subscribe_ok[OF inv room sub]
  have "channel_history (y\<lparr>hsHub := h, hsFrom := (hsFrom y)(suChannel s := length (hsPublished y))\<rparr>) r"
    if "r < Suc (length (hbChannels (hsHub y)))" for r
  proof (cases "r = length (hbChannels (hsHub y))")
    case True
    then show ?thesis using hist ok by (simp add: channel_history_def history_inv_iff)
  next
    case False
    then have "channel_history y r" using hist that by (simp add: history_inv_iff)
    then show ?thesis using ok False that by (simp add: channel_history_def nth_append)
  qed
  then show ?thesis using hist ok by (simp add: history_inv_iff)
qed

lemma history_publish:
  assumes inv: "hub_inv (hsHub y)" and hist: "history_inv y" and off: "offered event (live (hsHub y)) (hsHub y) h"
  shows "history_inv (mark_left y (y\<lparr>hsHub := h, hsPublished := hsPublished y @ [event]\<rparr>))"
proof -
  let ?y = "mark_left y (y\<lparr>hsHub := h, hsPublished := hsPublished y @ [event]\<rparr>)"
  have len: "length (hbChannels h) = length (hbChannels (hsHub y))" using off by (simp add: offered_def)
  have "channel_history ?y r" if "r < length (hbChannels (hsHub y))" for r
  proof -
    have ch: "channel_history y r" using hist that by (simp add: history_inv_iff)
    show ?thesis
    proof (cases "r \<in> live (hsHub y)")
      case True
      then have u: "hsUntil y r = None" using ch by (simp add: channel_history_def)
      show ?thesis
      proof (cases "int (length (chBuffer (hbChannels (hsHub y) ! r))) < hbBuffer (hsHub y)")
        case room: True
        then have "r \<in> live h" "chBuffer (hbChannels h ! r) = chBuffer (hbChannels (hsHub y) ! r) @ [event]"
          using off True by (auto simp: offered_def)
        then show ?thesis using ch u True by (simp add: channel_history_def mark_left_def)
      next
        case False
        then have "r \<notin> live h" "chBuffer (hbChannels h ! r) = chBuffer (hbChannels (hsHub y) ! r)"
          using off True by (auto simp: offered_def)
        then show ?thesis using ch u True by (simp add: channel_history_def mark_left_def)
      qed
    next
      case False
      then have "hbChannels h ! r = hbChannels (hsHub y) ! r" "r \<notin> live h" using off by (simp_all add: offered_def)
      moreover obtain n where "hsUntil y r = Some n" "n \<le> length (hsPublished y)"
        using ch False by (auto simp: channel_history_def)
      ultimately show ?thesis using ch False by (simp add: channel_history_def mark_left_def)
    qed
  qed
  moreover have "hsUntil ?y r = None" if "length (hbChannels (hsHub y)) \<le> r" for r
    using that hist live_channel[OF inv, of r] by (auto simp: mark_left_def history_inv_iff)
  ultimately show ?thesis using hist by (simp add: history_inv_iff len) (simp add: mark_left_def len)
qed

lemma history_remove:
  assumes inv: "hub_inv (hsHub y)" and hist: "history_inv y" and mem: "(n, q) \<in> set (hbSubscribers (hsHub y))"
  shows "history_inv (mark_left y (y\<lparr>hsHub := without n q (hsHub y), hsOnce := o'\<rparr>))"
proof -
  let ?y = "mark_left y (y\<lparr>hsHub := without n q (hsHub y), hsOnce := o'\<rparr>)"
  note l = without_inv(2)[OF inv mem] and q = hub_invD[OF inv mem]
  have buf: "chBuffer (hbChannels (without n q (hsHub y)) ! r) = chBuffer (hbChannels (hsHub y) ! r)" for r
    using q(1) by (cases "r = q") (simp_all add: without_def)
  have left: "live (hsHub y) - live (without n q (hsHub y)) = {q}" using l q(3) by auto
  have "channel_history ?y r" if "r < length (hbChannels (hsHub y))" for r
  proof -
    have ch: "channel_history y r" using hist that by (simp add: history_inv_iff)
    show ?thesis
    proof (cases "r = q")
      case True
      then show ?thesis using ch q(3) l by (simp add: channel_history_def mark_left_def buf left)
    next
      case False
      then show ?thesis using ch l by (simp add: channel_history_def mark_left_def buf left)
    qed
  qed
  moreover have "length (hbChannels (hsHub ?y)) = length (hbChannels (hsHub y))"
    by (simp add: mark_left_def without_def)
  moreover have "hsUntil ?y r = None \<and> hsReceived ?y r = []" if "length (hbChannels (hsHub y)) \<le> r" for r
    using that hist q(1) left by (auto simp: mark_left_def history_inv_iff)
  ultimately show ?thesis by (simp add: history_inv_iff)
qed

lemma history_receive:
  assumes inv: "hub_inv (hsHub y)" and hist: "history_inv y" and rec: "receive ref (hsHub y) = Some (event, h)"
  shows "hub_inv h \<and> length (hbChannels h) = length (hbChannels (hsHub y))
    \<and> history_inv (y\<lparr>hsHub := h, hsReceived := (hsReceived y)(ref := hsReceived y ref @ [event])\<rparr>)"
proof -
  obtain rest where b: "ref < length (hbChannels (hsHub y))" "chBuffer (hbChannels (hsHub y) ! ref) = event # rest"
    and h: "h = (hsHub y)\<lparr>hbChannels := (hbChannels (hsHub y))[ref := (hbChannels (hsHub y) ! ref)\<lparr>chBuffer := rest\<rparr>]\<rparr>"
    using rec by (auto simp: receive_def split: if_splits list.splits)
  have l: "live h = live (hsHub y)" by (simp add: h live_def)
  have len: "length (hbChannels h) = length (hbChannels (hsHub y))" by (simp add: h)
  let ?y = "y\<lparr>hsHub := h, hsReceived := (hsReceived y)(ref := hsReceived y ref @ [event])\<rparr>"
  have old: "int (length (chBuffer c)) \<le> hbBuffer (hsHub y)" if "c \<in> set (hbChannels (hsHub y))" for c
    using inv that by (simp add: hub_inv_def)
  have "int (length (chBuffer c)) \<le> hbBuffer h" if "c \<in> set (hbChannels h)" for c
  proof -
    have "c \<in> insert ((hbChannels (hsHub y) ! ref)\<lparr>chBuffer := rest\<rparr>) (set (hbChannels (hsHub y)))"
      using that set_update_subset_insert[of "hbChannels (hsHub y)" ref] by (auto simp: h)
    then show ?thesis using old old[OF nth_mem[OF b(1)]] b(2) by (auto simp: h)
  qed
  moreover have cl: "chClosed (hbChannels h ! q) = chClosed (hbChannels (hsHub y) ! q)" for q
    using b(1) by (cases "q = ref") (simp_all add: h)
  moreover have rest: "hbSubscribers h = hbSubscribers (hsHub y)" "hbBuffer h = hbBuffer (hsHub y)"
      "hbMaximum h = hbMaximum (hsHub y)" "hbNextID h = hbNextID (hsHub y)" "hbActive h = hbActive (hsHub y)"
    by (simp_all add: h)
  ultimately have "hub_inv h" using inv unfolding hub_inv_def l len cl rest by blast
  moreover have "channel_history ?y r" if r: "r < length (hbChannels (hsHub y))" for r
  proof -
    have c: "channel_history y r" using hist r by (simp add: history_inv_iff)
    have "hsReceived ?y r @ chBuffer (hbChannels h ! r) = hsReceived y r @ chBuffer (hbChannels (hsHub y) ! r)"
      using b by (cases "r = ref") (simp_all add: h)
    then show ?thesis using c l by (simp add: channel_history_def)
  qed
  then have "history_inv ?y" using hist b(1) by (simp add: history_inv_iff len)
  ultimately show ?thesis using len by simp
qed

lemma Subscription_Close_ok:
  assumes inv: "hub_inv (hsHub y)" and hist: "history_inv y"
  shows "\<exists>y'. Subscription_Close s y = Some y' \<and> hub_inv (hsHub y') \<and> history_inv (mark_left y y')
    \<and> length (hbChannels (hsHub y')) = length (hbChannels (hsHub y))"
proof -
  have same: "history_inv (mark_left y (y\<lparr>hsOnce := o'\<rparr>))" for o'
    using hist by (simp add: history_inv_iff channel_history_def mark_left_def)
  consider "suChannel s \<in> set (hsOnce y)" | "suID s \<notin> fst ` set (hbSubscribers (hsHub y))" "suChannel s \<notin> set (hsOnce y)"
    | q where "(suID s, q) \<in> set (hbSubscribers (hsHub y))" "suChannel s \<notin> set (hsOnce y)" by force
  then show ?thesis
  proof cases
    case 1
    then show ?thesis using inv same[of "hsOnce y"] by (simp add: Subscription_Close_def)
  next
    case 2
    then show ?thesis using inv same remove_ok[OF inv, of "suID s"] by (simp add: Subscription_Close_def)
  next
    case 3
    then have "remove (suID s) (hsHub y) = Some (without (suID s) q (hsHub y))" using remove_ok[OF inv] by blast
    then show ?thesis
      using 3 history_remove[OF inv hist 3(1)] without_inv(1)[OF inv 3(1)]
      by (simp add: Subscription_Close_def) (simp add: without_def)
  qed
qed

lemma hub_step_inv:
  assumes step: "hub_step y y'" and inv: "hub_inv (hsHub y)" and hist: "history_inv y"
    and room: "length (hbChannels (hsHub y')) < 2 ^ 64"
  shows "hub_inv (hsHub y') \<and> history_inv y'"
  using step
proof (cases rule: hub_step.cases)
  case (subscribe s h)
  have "length (hbChannels h) = Suc (length (hbChannels (hsHub y)))"
    using subscribe(2) by (auto simp: Subscribe_def Let_def split: if_splits)
  then have r: "Suc (length (hbChannels (hsHub y))) < 2 ^ 64" using room subscribe(1) by simp
  show ?thesis using Subscribe_ok(1)[OF inv r subscribe(2)] history_subscribe[OF inv hist subscribe(2) r] subscribe(1) by simp
next
  case (refuse h)
  then have "h = hsHub y" by (simp add: Subscribe_def Let_def split: if_splits)
  then show ?thesis using refuse inv hist by simp
next
  case (publish event h)
  obtain h' where "Publish event (hsHub y) = Some h'" "hub_inv h'" "offered event (live (hsHub y)) (hsHub y) h'"
    using Publish_ok[OF inv] by blast
  then show ?thesis using publish history_publish[OF inv hist] by (simp add: mark_left_def)
next
  case (close s y1)
  then show ?thesis using Subscription_Close_ok[OF inv hist, of s] by (auto simp: mark_left_def)
next
  case (receive ref event h)
  then show ?thesis using history_receive[OF inv hist receive(2)] by simp
qed

lemma offer_grows:
  "offer event s h = Some h' \<Longrightarrow> length (hbChannels h') = length (hbChannels h) \<and> hbMaximum h' = hbMaximum h"
  by (auto simp: offer_def close_channel_def Let_def split: prod.splits if_splits)

lemma offer_all_grows:
  "offer_all event subs h = Some h' \<Longrightarrow> length (hbChannels h') = length (hbChannels h) \<and> hbMaximum h' = hbMaximum h"
  by (induction subs arbitrary: h) (auto simp: bind_eq_Some_conv dest!: offer_grows)

lemma remove_grows:
  "remove n h = Some h' \<Longrightarrow> length (hbChannels h') = length (hbChannels h) \<and> hbMaximum h' = hbMaximum h"
  by (auto simp: remove_def close_channel_def split: option.splits if_splits)

lemma hub_step_grows:
  assumes "hub_step y y'"
  shows "length (hbChannels (hsHub y)) \<le> length (hbChannels (hsHub y')) \<and> hbMaximum (hsHub y') = hbMaximum (hsHub y)"
  using assms
proof (cases rule: hub_step.cases)
  case (publish event h)
  then show ?thesis using offer_all_grows[of event _ "hsHub y" h] by (simp add: Publish_def mark_left_def)
next
  case (close s y1)
  then show ?thesis
    by (auto simp: Subscription_Close_def mark_left_def bind_eq_Some_conv dest!: remove_grows split: if_splits)
qed (auto simp: Subscribe_def Let_def receive_def split: if_splits list.splits)

lemma hub_reach_inv:
  "hub_reach maximum buffer y \<Longrightarrow> length (hbChannels (hsHub y)) < 2 ^ 64 \<Longrightarrow>
   hub_inv (hsHub y) \<and> history_inv y \<and> hbMaximum (hsHub y) = (if maximum \<le> 0 then 1000 else maximum)"
proof (induction rule: hub_reach.induct)
  case start
  then show ?case by (simp add: hub_start_def NewHub_def hub_inv_def history_inv_def)
next
  case (step y y')
  have g: "length (hbChannels (hsHub y)) \<le> length (hbChannels (hsHub y'))" "hbMaximum (hsHub y') = hbMaximum (hsHub y)"
    using hub_step_grows[OF step.hyps(2)] by simp_all
  then have "hub_inv (hsHub y) \<and> history_inv y \<and> hbMaximum (hsHub y) = (if maximum \<le> 0 then 1000 else maximum)"
    using step by simp
  then show ?case using hub_step_inv[OF step.hyps(2)] step.prems g(2) by simp
qed

section \<open>A concrete run\<close>

definition demo_event :: Event where
  "demo_event = \<lparr>reType = ''token'', reChainID = 1, reDeploymentID = ''demo-v1'', reToken = [], reAsOfBlock = 7,
     reAsOfBlockHash = [], reCommonAncestor = 0\<rparr>"

definition demo_hub :: Hub where
  "demo_hub = \<lparr>hbChannels = [\<lparr>chBuffer = [demo_event], chClosed = False\<rparr>], hbSubscribers = [(1, 0)], hbNextID = 1,
     hbMaximum = 2, hbBuffer = 1, hbEvictions = 0, hbActive = 1\<rparr>"

definition demo_system :: hub_system where
  "demo_system = \<lparr>hsHub = demo_hub, hsOnce = [], hsPublished = [demo_event], hsReceived = (\<lambda>_. []),
     hsFrom = (\<lambda>_. 0), hsUntil = (\<lambda>_. None)\<rparr>"

lemma demo_reach: "hub_reach 2 1 demo_system"
proof -
  let ?h = "demo_hub\<lparr>hbChannels := [\<lparr>chBuffer = [], chClosed = False\<rparr>]\<rparr>"
  let ?y = "(hub_start 2 1)\<lparr>hsHub := ?h\<rparr>"
  have "Subscribe (hsHub (hub_start 2 1)) = (Some \<lparr>suChannel = 0, suID = 1\<rparr>, ?h)"
    by (simp add: Subscribe_def hub_start_def NewHub_def Let_def demo_hub_def)
  from hub_step.subscribe[OF this] have "hub_step (hub_start 2 1) ?y" by (simp add: hub_start_def fun_upd_def)
  then have 1: "hub_reach 2 1 ?y" by (rule hub_reach.step[OF hub_reach.start])
  have "Publish demo_event (hsHub ?y) = Some demo_hub"
    by (simp add: Publish_def offer_def demo_hub_def Let_def)
  from hub_step.publish[OF this] have "hub_step ?y demo_system"
    by (simp add: hub_start_def mark_left_def demo_system_def live_def demo_hub_def)
  with 1 show ?thesis by (rule hub_reach.step)
qed

section \<open>Properties\<close>

text \<open>
  Delivery of the refresh hub. In every reachable state of any interleaving of subscriptions,
  publications, receives and closes (fewer than 2^64 subscriptions), what a subscriber has received
  followed by what its channel still holds is exactly the run of events published since it
  subscribed, in order and without gaps or repetitions - up to now while it is subscribed, up to
  its removal or eviction afterwards - and the channel holds at most the configured buffer.
\<close>

theorem hub_delivery:
  assumes "hub_reach maximum buffer y" "length (hbChannels (hsHub y)) < 2 ^ 64" "r < length (hbChannels (hsHub y))"
  shows "hsReceived y r @ chBuffer (hbChannels (hsHub y) ! r) =
      drop (hsFrom y r) (take (until_or (length (hsPublished y)) (hsUntil y r)) (hsPublished y))
    \<and> (hsUntil y r = None \<longleftrightarrow> r \<in> live (hsHub y))
    \<and> int (length (chBuffer (hbChannels (hsHub y) ! r))) \<le> hbBuffer (hsHub y)"
  using hub_reach_inv[OF assms(1,2)] assms(3) by (simp add: history_inv_def hub_inv_def)

theorem hub_delivery_witness:
  "hub_reach 2 1 demo_system \<and> hsReceived demo_system 0 @ chBuffer (hbChannels (hsHub demo_system) ! 0) = [demo_event]"
  using hub_delivery[OF demo_reach, of 0] demo_reach by (simp add: demo_system_def demo_hub_def)

text \<open>
  C12: Publishing and closing never panic. In every reachable state a publication succeeds: every
  subscribed channel with room gets the event at its end and stays subscribed, every full one is
  evicted with its buffered events intact, and nothing else changes; closing any subscription
  succeeds, however often and after an eviction too; and the number of active subscribers reported
  is the number in the hub, never above the maximum.
\<close>

theorem hub_no_panic:
  assumes "hub_reach maximum buffer y" "length (hbChannels (hsHub y)) < 2 ^ 64" "maximum < 2 ^ 63"
  shows "(\<exists>h. Publish event (hsHub y) = Some h \<and> offered event (live (hsHub y)) (hsHub y) h)
    \<and> (\<exists>y'. Subscription_Close s y = Some y')
    \<and> Active (hsHub y) = int (length (hbSubscribers (hsHub y)))
    \<and> Active (hsHub y) \<le> (if maximum \<le> 0 then 1000 else maximum)"
proof -
  have inv: "hub_inv (hsHub y)" "history_inv y" "hbMaximum (hsHub y) = (if maximum \<le> 0 then 1000 else maximum)"
    using hub_reach_inv[OF assms(1,2)] by auto
  then have "int (length (hbSubscribers (hsHub y))) \<le> (if maximum \<le> 0 then 1000 else maximum)"
    by (simp add: hub_inv_def)
  moreover from this have "int (length (hbSubscribers (hsHub y))) < 2 ^ 63" using assms(3) by (simp split: if_splits)
  then have "Active (hsHub y) = int (length (hbSubscribers (hsHub y)))"
    using inv(1) by (simp add: Active_def hub_inv_def signed_of_nat signed_take_bit_int_eq_self_iff)
  ultimately show ?thesis using Publish_ok[OF inv(1)] Subscription_Close_ok[OF inv(1,2)] by metis
qed

theorem hub_no_panic_witness:
  "(\<exists>h. Publish demo_event demo_hub = Some h \<and> 0 \<notin> live h) \<and> Active demo_hub = 1"
proof -
  have "(\<exists>h. Publish demo_event demo_hub = Some h \<and> offered demo_event {0} demo_hub h) \<and> Active demo_hub = 1"
    using hub_no_panic[OF demo_reach, of demo_event "\<lparr>suChannel = 0, suID = 1\<rparr>"]
    by (simp add: demo_system_def live_def) (simp add: demo_hub_def)
  then show ?thesis by (auto simp: offered_def demo_hub_def)
qed

end
