(* ===== verification/Aggregation_Worker.thy ===== *)
theory Aggregation_Worker
  imports Ledger_Ingest
begin

text \<open>
  The aggregation worker of \<^verbatim>\<open>stats/worker.go\<close> over its source of dirty tokens, and the source backed
  by the store, \<^verbatim>\<open>store/postgres/aggregation_source.go\<close>. The second half shows that no mark is lost
  under any interleaving of the statements of indexer and workers.
\<close>

section \<open>The source and the worker\<close>

record Claim =
  clChainID :: int
  clToken :: Address
  clGeneration :: int

text \<open>The interface \<open>DirtySource\<close>; the optional member is present when the source computes batches.\<close>

record 'm DirtySource =
  dsClaim :: "string \<Rightarrow> nat \<Rightarrow> ('m, Claim list) io"
  dsCompute :: "Claim \<Rightarrow> 'm world \<Rightarrow> idx_error option \<times> 'm world"
  dsComputeBatch :: "(Claim list \<Rightarrow> 'm world \<Rightarrow> idx_error option list \<times> 'm world) option"
  dsComplete :: "Claim \<Rightarrow> string \<Rightarrow> ('m, bool) io"

record 'm Worker =
  wkSource :: "'m DirtySource"
  wkWorkerID :: string
  wkBatchSize :: int

text \<open>The loop over claims with their results: report a failed one, complete the others.\<close>

fun completeAll :: "'m DirtySource \<Rightarrow> string \<Rightarrow> (Claim \<times> idx_error option) list \<Rightarrow> ('m, (Claim \<times> idx_error) list) io" where
  "completeAll s worker [] = ret []"
| "completeAll s worker ((claim, Some err) # rest) =
     iobind (completeAll s worker rest) (\<lambda>reported. ret ((claim, err) # reported))"
| "completeAll s worker ((claim, None) # rest) =
     iobind (dsComplete s claim worker) (\<lambda>_. completeAll s worker rest)"

text \<open>The loop of a source without batches: compute and complete one claim after the other.\<close>

fun computeEach :: "'m DirtySource \<Rightarrow> string \<Rightarrow> Claim list \<Rightarrow> ('m, (Claim \<times> idx_error) list) io" where
  "computeEach s worker [] = ret []"
| "computeEach s worker (claim # rest) =
     (\<lambda>w. case dsCompute s claim w of
        (Some err, w1) \<Rightarrow> iobind (computeEach s worker rest) (\<lambda>reported. ret ((claim, err) # reported)) w1
      | (None, w1) \<Rightarrow> iobind (dsComplete s claim worker) (\<lambda>_. computeEach s worker rest) w1)"

text \<open>\<open>drain\<close> returns the pairs handed to \<open>OnError\<close>.\<close>

definition drain :: "'m Worker \<Rightarrow> nat \<Rightarrow> ('m, (Claim \<times> idx_error) list) io" where
  "drain k batch =
     iobind (dsClaim (wkSource k) (wkWorkerID k) batch) (\<lambda>claims.
     case dsComputeBatch (wkSource k) of
       Some compute \<Rightarrow>
         (\<lambda>w. case compute claims w of (results, w1) \<Rightarrow>
            if length results \<noteq> length claims
            then raise (OtherError ''batch compute returned a wrong number of results'') w1
            else completeAll (wkSource k) (wkWorkerID k) (zip claims results) w1)
     | None \<Rightarrow> computeEach (wkSource k) (wkWorkerID k) claims)"

definition batchSizeOf :: "'m Worker \<Rightarrow> nat" where
  "batchSizeOf k = (if wkBatchSize k \<le> 0 then 32 else nat (wkBatchSize k))"

text \<open>\<open>Worker.Run\<close>: drain and wait, until a drain fails or the context ends; None is still running.\<close>

fun Worker_Run :: "nat \<Rightarrow> (nat \<Rightarrow> bool) \<Rightarrow> 'm Worker \<Rightarrow> 'm world \<Rightarrow> idx_error option \<times> 'm world" where
  "Worker_Run 0 ctxDone k w = (None, w)"
| "Worker_Run (Suc fuel) ctxDone k w =
     (case drain k (batchSizeOf k) w of
        (Inl err, w') \<Rightarrow> (Some err, w')
      | (Inr _, w') \<Rightarrow> if ctxDone (wTick w') then (Some ContextDone, tick w') else Worker_Run fuel ctxDone k (tick w'))"

section \<open>The store as a source\<close>

definition claim_of :: "DirtyClaim \<Rightarrow> Claim" where
  "claim_of c = \<lparr>clChainID = dcChainID c, clToken = dcTokenAddress c, clGeneration = dcClaimedGeneration c\<rparr>"

definition AggregationSource_Claim :: "'m db_env \<Rightarrow> string \<Rightarrow> nat \<Rightarrow> ('m, Claim list) io" where
  "AggregationSource_Claim env worker batch =
     iobind (ClaimAggregationDirty env worker batch) (\<lambda>claims. ret (map claim_of claims))"

text \<open>The first loop of \<open>ComputeBatch\<close>: one result per claim, the chains in order of first success.\<close>

fun computeTokens :: "'m db_env \<Rightarrow> Claim list \<Rightarrow> int list \<Rightarrow> 'm world \<Rightarrow> (idx_error option list \<times> int list) \<times> 'm world" where
  "computeTokens env [] seen w = (([], seen), w)"
| "computeTokens env (c # cs) seen w =
     (case RecomputeTokenStats env (clChainID c) (clToken c) w of
        (Inl err, w1) \<Rightarrow>
          (case computeTokens env cs seen w1 of ((results, seen'), w2) \<Rightarrow> ((Some err # results, seen'), w2))
      | (Inr _, w1) \<Rightarrow>
          (case computeTokens env cs (if clChainID c \<in> set seen then seen else seen @ [clChainID c]) w1 of
             ((results, seen'), w2) \<Rightarrow> ((None # results, seen'), w2)))"

text \<open>The second: a failed protocol refresh fails every claim of its chain that had succeeded.\<close>

fun refreshChains :: "'m db_env \<Rightarrow> Claim list \<Rightarrow> int list \<Rightarrow> idx_error option list \<Rightarrow> 'm world \<Rightarrow> idx_error option list \<times> 'm world" where
  "refreshChains env claims [] results w = (results, w)"
| "refreshChains env claims (chainID # rest) results w =
     (case RecomputeProtocolAggregates True env chainID w of
        (Inl err, w1) \<Rightarrow> refreshChains env claims rest
           (map (\<lambda>(c, r). if clChainID c = chainID \<and> r = None then Some err else r) (zip claims results)) w1
      | (Inr _, w1) \<Rightarrow> refreshChains env claims rest results w1)"

definition ComputeBatch :: "'m db_env \<Rightarrow> Claim list \<Rightarrow> 'm world \<Rightarrow> idx_error option list \<times> 'm world" where
  "ComputeBatch env claims w =
     (case computeTokens env claims [] w of ((results, seen), w1) \<Rightarrow> refreshChains env claims seen results w1)"

definition AggregationSource_Compute :: "'m db_env \<Rightarrow> Claim \<Rightarrow> 'm world \<Rightarrow> idx_error option \<times> 'm world" where
  "AggregationSource_Compute env claim w = (case ComputeBatch env [claim] w of (results, w1) \<Rightarrow> (hd results, w1))"

definition AggregationSource_Complete :: "'m db_env \<Rightarrow> Claim \<Rightarrow> string \<Rightarrow> ('m, bool) io" where
  "AggregationSource_Complete env claim worker =
     CompleteAggregationDirty env \<lparr>dcChainID = clChainID claim, dcTokenAddress = clToken claim,
       dcClaimedGeneration = clGeneration claim\<rparr> worker"

definition AggregationSource :: "'m db_env \<Rightarrow> 'm DirtySource" where
  "AggregationSource env = \<lparr>dsClaim = AggregationSource_Claim env, dsCompute = AggregationSource_Compute env,
     dsComputeBatch = Some (ComputeBatch env), dsComplete = AggregationSource_Complete env\<rparr>"

section \<open>What the worker relies on\<close>

text \<open>A batch source returns one result per claim, so a drain fails only where a statement of it fails.\<close>

locale batch_source =
  fixes source :: "'m DirtySource"
    and batch :: "Claim list \<Rightarrow> 'm world \<Rightarrow> idx_error option list \<times> 'm world"
  assumes batched: "dsComputeBatch source = Some batch"
    and one_each: "batch claims w = (results, w') \<Longrightarrow> length results = length claims"
begin

lemma drain_batch:
  "drain \<lparr>wkSource = source, wkWorkerID = worker, wkBatchSize = n\<rparr> limit =
   iobind (dsClaim source worker limit) (\<lambda>claims w. case batch claims w of (results, w1) \<Rightarrow>
     completeAll source worker (zip claims results) w1)"
proof -
  have "(\<lambda>w. case batch claims w of (results, w1) \<Rightarrow>
      if length results \<noteq> length claims
      then raise (OtherError ''batch compute returned a wrong number of results'') w1
      else completeAll source worker (zip claims results) w1) =
    (\<lambda>w. case batch claims w of (results, w1) \<Rightarrow> completeAll source worker (zip claims results) w1)" for claims
    by (auto simp: fun_eq_iff dest: one_each split: prod.splits)
  then show ?thesis unfolding drain_def batched option.case Worker.simps by simp
qed

end

lemma computeTokens_length: "computeTokens env claims seen w = ((results, seen'), w') \<Longrightarrow> length results = length claims"
  by (induction claims arbitrary: seen w results) (auto split: prod.splits sum.splits)

lemma refreshChains_length:
  "refreshChains env claims cs results w = (results', w') \<Longrightarrow> length results = length claims \<Longrightarrow> length results' = length claims"
  by (induction cs arbitrary: results w) (auto split: prod.splits sum.splits)

interpretation aggregation: batch_source "AggregationSource env" "ComputeBatch env" for env
  by unfold_locales (auto simp: AggregationSource_def ComputeBatch_def split: prod.splits
      dest!: computeTokens_length refreshChains_length)

section \<open>The queue under interleaving\<close>

text \<open>
  Every statement of indexer and workers is one step on the tables. Beside them stand the claims
  handed out, those computed since, and the tokens marked since their last computation.
\<close>

record 'm queue_state =
  qsDb :: "'m db"
  qsHeld :: "(string \<times> DirtyClaim) list"
  qsComputed :: "(string \<times> DirtyClaim) list"
  qsStale :: "(int \<times> Address) set"

inductive queue_step :: "'m market_sql \<Rightarrow> 'm queue_state \<Rightarrow> 'm queue_state \<Rightarrow> bool" for sql where
  mark: "sql_MarkTokenDirty c t (qsDb q) = Inr (u, d) \<Longrightarrow>
    queue_step sql q (q\<lparr>qsDb := d, qsStale := insert (c, t) (qsStale q)\<rparr>)"
| orphan: "sql_ClearOrphanProjections sql c t (qsDb q) = Inr (u, d) \<Longrightarrow>
    queue_step sql q (q\<lparr>qsDb := d, qsStale := qsStale q - {(c, t)}\<rparr>)"
| claim: "sql_ClaimAggregationDirty worker batch now (qsDb q) = Inr (claims, d) \<Longrightarrow>
    queue_step sql q (q\<lparr>qsDb := d, qsHeld := map (Pair worker) claims @ qsHeld q\<rparr>)"
| compute: "(worker, k) \<in> set (qsHeld q) \<Longrightarrow>
    queue_step sql q (q\<lparr>qsDb := (qsDb q)\<lparr>dbMarket := sqlRecomputeTokenStats sql (dcChainID k) (dcTokenAddress k) (qsDb q)\<rparr>,
      qsComputed := (worker, k) # qsComputed q, qsStale := qsStale q - {(dcChainID k, dcTokenAddress k)}\<rparr>)"
| complete: "(worker, k) \<in> set (qsComputed q) \<Longrightarrow> sql_CompleteAggregationDirty k worker (qsDb q) = Inr (rows, d) \<Longrightarrow>
    queue_step sql q (q\<lparr>qsDb := d\<rparr>)"
| refresh: "queue_step sql q (q\<lparr>qsDb := (qsDb q)\<lparr>dbMarket := m\<rparr>\<rparr>)"

definition queued :: "'m db \<Rightarrow> (int \<times> Address) set" where
  "queued d = (\<lambda>r. (adChainID r, adToken r)) ` set (dbDirty d)"

definition queue_inv :: "'m queue_state \<Rightarrow> bool" where
  "queue_inv q \<longleftrightarrow> (\<forall>r \<in> set (dbDirty (qsDb q)). adGeneration r \<le> dbDirtySeq (qsDb q))
     \<and> (\<forall>(_, k) \<in> set (qsHeld q) \<union> set (qsComputed q). dcClaimedGeneration k \<le> dbDirtySeq (qsDb q))
     \<and> (\<forall>(_, k) \<in> set (qsComputed q). (dcChainID k, dcTokenAddress k) \<in> qsStale q \<longrightarrow>
          (\<forall>r \<in> set (dbDirty (qsDb q)). dirty_key (dcChainID k) (dcTokenAddress k) r \<longrightarrow> dcClaimedGeneration k < adGeneration r))
     \<and> qsStale q \<subseteq> queued (qsDb q)"

lemma mark_dirty_rows:
  "r \<in> set (dbDirty (mark_dirty c t d)) \<Longrightarrow>
   if dirty_key c t r then dbDirtySeq d < adGeneration r \<and> adGeneration r \<le> dbDirtySeq (mark_dirty c t d)
   else r \<in> set (dbDirty d)"
proof (cases "list_ex (dirty_key c t) (dbDirty d)")
  case True
  assume "r \<in> set (dbDirty (mark_dirty c t d))"
  then obtain x where "x \<in> set (dbDirty d)" "r = (if dirty_key c t x then x\<lparr>adGeneration := dbDirtySeq d + 2\<rparr> else x)"
    using True by (auto simp: mark_dirty_def)
  then show ?thesis using True by (cases "dirty_key c t x") (auto simp: mark_dirty_def dirty_key_def)
next
  case False
  assume "r \<in> set (dbDirty (mark_dirty c t d))"
  then consider "r \<in> set (dbDirty d)" | "r = \<lparr>adChainID = c, adToken = t, adGeneration = dbDirtySeq d + 1, adClaim = None\<rparr>"
    using False by (auto simp: mark_dirty_def)
  then show ?thesis
  proof cases
    case 1
    then have "\<not> dirty_key c t r" using False by (auto simp: list_ex_iff)
    then show ?thesis using 1 by simp
  next
    case 2
    then show ?thesis using False by (simp add: mark_dirty_def dirty_key_def)
  qed
qed

lemma mark_dirty_queued: "queued (mark_dirty c t d) = insert (c, t) (queued d)"
proof (cases "list_ex (dirty_key c t) (dbDirty d)")
  case True
  let ?f = "\<lambda>r. if dirty_key c t r then r\<lparr>adGeneration := dbDirtySeq d + 2\<rparr> else r"
  have "(\<lambda>r. (adChainID (?f r), adToken (?f r))) = (\<lambda>r. (adChainID r, adToken r))" by auto
  moreover have "dbDirty (mark_dirty c t d) = map ?f (dbDirty d)" using True by (simp add: mark_dirty_def)
  ultimately have "queued (mark_dirty c t d) = queued d"
    by (simp only: queued_def list.set_map image_image)
  moreover have "(c, t) \<in> queued d" using True by (auto simp: queued_def list_ex_iff dirty_key_def)
  ultimately show ?thesis by auto
next
  case False
  then show ?thesis by (simp add: queued_def mark_dirty_def)
qed

lemma mark_dirty_seq: "dbDirtySeq d < dbDirtySeq (mark_dirty c t d)"
  by (simp add: mark_dirty_def)

lemma queue_inv_mark:
  assumes "queue_inv q"
  shows "queue_inv (q\<lparr>qsDb := mark_dirty c t (qsDb q), qsStale := insert (c, t) (qsStale q)\<rparr>)"
proof -
  let ?d = "qsDb q" and ?d' = "mark_dirty c t (qsDb q)"
  have seq: "dbDirtySeq ?d < dbDirtySeq ?d'" by (rule mark_dirty_seq)
  have gen: "adGeneration r \<le> dbDirtySeq ?d'" if "r \<in> set (dbDirty ?d')" for r
    using mark_dirty_rows[OF that] assms seq by (fastforce simp: queue_inv_def split: if_splits)
  have held: "dcClaimedGeneration k \<le> dbDirtySeq ?d" if "(w, k) \<in> set (qsHeld q) \<union> set (qsComputed q)" for w k
    using assms that by (auto simp: queue_inv_def)
  have "dcClaimedGeneration k < adGeneration r"
    if k: "(w, k) \<in> set (qsComputed q)" and st: "(dcChainID k, dcTokenAddress k) \<in> insert (c, t) (qsStale q)"
      and r: "r \<in> set (dbDirty ?d')" "dirty_key (dcChainID k) (dcTokenAddress k) r" for w k r
  proof (cases "dirty_key c t r")
    case True
    then show ?thesis using mark_dirty_rows[OF r(1)] held[of w k] k by auto
  next
    case False
    then have "(dcChainID k, dcTokenAddress k) \<in> qsStale q" "r \<in> set (dbDirty ?d)"
      using st r mark_dirty_rows[OF r(1)] by (auto simp: dirty_key_def)
    then show ?thesis using assms k r(2) by (fastforce simp: queue_inv_def)
  qed
  moreover have "insert (c, t) (qsStale q) \<subseteq> queued ?d'"
    using assms by (auto simp: mark_dirty_queued queue_inv_def)
  moreover have "\<forall>(w, k) \<in> set (qsHeld q) \<union> set (qsComputed q). dcClaimedGeneration k \<le> dbDirtySeq ?d'"
    using held seq by fastforce
  ultimately show ?thesis using gen unfolding queue_inv_def by auto
qed

lemma queue_inv_complete:
  assumes inv: "queue_inv q" and k: "(worker, k) \<in> set (qsComputed q)"
  shows "queue_inv (q\<lparr>qsDb := (qsDb q)\<lparr>dbDirty := filter (\<lambda>r. \<not> completes k worker r) (dbDirty (qsDb q))\<rparr>\<rparr>)"
proof -
  have keep: "x \<in> (\<lambda>r. (adChainID r, adToken r)) ` set (filter (\<lambda>r. \<not> completes k worker r) (dbDirty (qsDb q)))"
    if x: "x \<in> qsStale q" for x
  proof -
    obtain r where r: "r \<in> set (dbDirty (qsDb q))" "x = (adChainID r, adToken r)"
      using inv x by (auto simp: queue_inv_def queued_def)
    have "\<not> completes k worker r"
    proof
      assume c: "completes k worker r"
      then have "(dcChainID k, dcTokenAddress k) \<in> qsStale q" "dirty_key (dcChainID k) (dcTokenAddress k) r"
        using x r(2) by (auto simp: completes_def dirty_key_def)
      then have "dcClaimedGeneration k < adGeneration r" using inv k r(1) by (fastforce simp: queue_inv_def)
      then show False using c by (simp add: completes_def)
    qed
    then show ?thesis using r by auto
  qed
  then have "qsStale q \<subseteq> queued ((qsDb q)\<lparr>dbDirty := filter (\<lambda>r. \<not> completes k worker r) (dbDirty (qsDb q))\<rparr>)"
    unfolding queued_def by auto
  then show ?thesis using inv unfolding queue_inv_def by auto
qed

lemma claim_rows:
  assumes "sql_ClaimAggregationDirty worker batch now d = Inr (claims, d')"
  shows "dbDirtySeq d' = dbDirtySeq d" "queued d' = queued d"
    "\<forall>k \<in> set claims. \<exists>r \<in> set (dbDirty d). dcClaimedGeneration k = adGeneration r"
    "\<forall>r' \<in> set (dbDirty d'). \<exists>r \<in> set (dbDirty d). adChainID r' = adChainID r \<and> adToken r' = adToken r \<and> adGeneration r' = adGeneration r"
proof -
  let ?f = "\<lambda>r. if list_ex (dirty_key (adChainID r) (adToken r)) (claim_candidates now batch d)
      then r\<lparr>adClaim := Some (adGeneration r, now, worker)\<rparr> else r"
  have d': "d' = d\<lparr>dbDirty := map ?f (dbDirty d)\<rparr>"
    and cl: "claims = map (\<lambda>r. \<lparr>dcChainID = adChainID r, dcTokenAddress = adToken r, dcClaimedGeneration = adGeneration r\<rparr>)
        (claim_candidates now batch d)"
    using assms by (auto simp: sql_ClaimAggregationDirty_def Let_def)
  show "dbDirtySeq d' = dbDirtySeq d" by (simp add: d')
  have f: "adChainID (?f r) = adChainID r" "adToken (?f r) = adToken r" "adGeneration (?f r) = adGeneration r" for r
    by simp_all
  have dd: "dbDirty d' = map ?f (dbDirty d)" by (simp add: d')
  show "queued d' = queued d" unfolding queued_def dd list.set_map image_image by (rule image_cong) (simp_all add: f)
  have "set (claim_candidates now batch d) \<subseteq> set (dbDirty d)"
    unfolding claim_candidates_def by (auto dest!: in_set_takeD)
  then show "\<forall>k \<in> set claims. \<exists>r \<in> set (dbDirty d). dcClaimedGeneration k = adGeneration r" using cl by auto
  show "\<forall>r' \<in> set (dbDirty d'). \<exists>r \<in> set (dbDirty d). adChainID r' = adChainID r \<and> adToken r' = adToken r \<and> adGeneration r' = adGeneration r"
    unfolding d' by (auto simp: f)
qed

lemma queue_inv_claim:
  assumes inv: "queue_inv q" and run: "sql_ClaimAggregationDirty worker batch now (qsDb q) = Inr (claims, d)"
  shows "queue_inv (q\<lparr>qsDb := d, qsHeld := map (Pair worker) claims @ qsHeld q\<rparr>)"
proof -
  note c = claim_rows[OF run]
  have "\<forall>r \<in> set (dbDirty d). adGeneration r \<le> dbDirtySeq d"
    using c inv by (fastforce simp: queue_inv_def)
  moreover have "\<forall>k \<in> set claims. dcClaimedGeneration k \<le> dbDirtySeq d"
    using c inv by (fastforce simp: queue_inv_def)
  moreover have "dcClaimedGeneration k < adGeneration r"
    if prem: "(w, k) \<in> set (qsComputed q)" "(dcChainID k, dcTokenAddress k) \<in> qsStale q" "r \<in> set (dbDirty d)"
      "dirty_key (dcChainID k) (dcTokenAddress k) r" for w k r
  proof -
    obtain r0 where r0: "r0 \<in> set (dbDirty (qsDb q))" "adChainID r = adChainID r0" "adToken r = adToken r0"
        "adGeneration r = adGeneration r0" using c(4) prem(3) by blast
    then have "dirty_key (dcChainID k) (dcTokenAddress k) r0" using prem(4) r0 by (simp add: dirty_key_def)
    then show ?thesis using inv prem(1,2) r0 by (fastforce simp: queue_inv_def)
  qed
  moreover have "\<forall>(w, k) \<in> set (qsHeld q) \<union> set (qsComputed q). dcClaimedGeneration k \<le> dbDirtySeq d"
    "qsStale q \<subseteq> queued d" using inv c(1,2) by (simp_all add: queue_inv_def)
  ultimately show ?thesis unfolding queue_inv_def by (simp add: ball_Un) blast
qed

lemma queue_inv_orphan:
  assumes inv: "queue_inv q" and run: "sql_ClearOrphanProjections sql c t (qsDb q) = Inr (u, d)"
  shows "queue_inv (q\<lparr>qsDb := d, qsStale := qsStale q - {(c, t)}\<rparr>)"
proof -
  have d: "dbDirty d = filter (\<lambda>r. \<not> dirty_key c t r) (dbDirty (qsDb q))" "dbDirtySeq d = dbDirtySeq (qsDb q)"
    using run by (auto simp: sql_ClearOrphanProjections_def)
  have "qsStale q - {(c, t)} \<subseteq> queued d"
    using inv by (force simp: queue_inv_def queued_def d dirty_key_def)
  then show ?thesis using inv unfolding queue_inv_def by (auto simp: d)
qed

lemma queue_step_inv: "queue_step sql q q' \<Longrightarrow> queue_inv q \<Longrightarrow> queue_inv q'"
proof (induction rule: queue_step.induct)
  case (mark c t q u d)
  then show ?case using queue_inv_mark[of q c t] by (simp add: sql_MarkTokenDirty_def)
next
  case (orphan c t q u d)
  then show ?case by (simp add: queue_inv_orphan)
next
  case (claim worker batch now q claims d)
  then show ?case by (simp add: queue_inv_claim)
next
  case (compute worker k q)
  then show ?case by (auto simp: queue_inv_def queued_def)
next
  case (complete worker k q rows d)
  then show ?case using queue_inv_complete[of q worker k] by (simp add: sql_CompleteAggregationDirty_def)
next
  case (refresh q m)
  then show ?case by (simp add: queue_inv_def queued_def)
qed

section \<open>The worker's drain is a path of queue steps\<close>

abbreviation queue_steps :: "'m market_sql \<Rightarrow> 'm queue_state \<Rightarrow> 'm queue_state \<Rightarrow> bool" where
  "queue_steps sql \<equiv> (queue_step sql)\<^sup>*\<^sup>*"

definition dirty_claim :: "Claim \<Rightarrow> DirtyClaim" where
  "dirty_claim c = \<lparr>dcChainID = clChainID c, dcTokenAddress = clToken c, dcClaimedGeneration = clGeneration c\<rparr>"

lemma dirty_claim_of [simp]: "dirty_claim (claim_of k) = k" "dcChainID (dirty_claim c) = clChainID c"
  "dcTokenAddress (dirty_claim c) = clToken c"
  by (simp_all add: dirty_claim_def claim_of_def)

lemma statement_any: "statement env q w = (r, w') \<Longrightarrow> wDb w' = wDb w \<or> (\<exists>a. r = Inr a \<and> q (wDb w) = Inr (a, wDb w'))"
  by (auto simp: statement_def split: if_splits sum.splits)

lemma statement_Inl: "statement env q w = (Inl e, w') \<Longrightarrow> wDb w' = wDb w"
  by (auto simp: statement_def split: if_splits sum.splits)

lemma computeTokens_steps:
  assumes "computeTokens env claims seen w = ((results, seen'), w')" "qsDb q = wDb w"
    and "\<forall>c \<in> set claims. (worker, dirty_claim c) \<in> set (qsHeld q)"
  shows "\<exists>q'. queue_steps (envMarket env) q q' \<and> qsDb q' = wDb w' \<and> set (qsComputed q) \<subseteq> set (qsComputed q')
    \<and> (\<forall>(c, r) \<in> set (zip claims results). r = None \<longrightarrow> (worker, dirty_claim c) \<in> set (qsComputed q'))"
  using assms
proof (induction claims arbitrary: seen w q results)
  case Nil
  then show ?case by (intro exI[of _ q]) auto
next
  case (Cons c claims)
  obtain x w1 where x: "RecomputeTokenStats env (clChainID c) (clToken c) w = (x, w1)" by fastforce
  let ?q = "q\<lparr>qsDb := (qsDb q)\<lparr>dbMarket := sqlRecomputeTokenStats (envMarket env) (clChainID c) (clToken c) (qsDb q)\<rparr>,
      qsComputed := (worker, dirty_claim c) # qsComputed q, qsStale := qsStale q - {(clChainID c, clToken c)}\<rparr>"
  show ?case
  proof (cases x)
    case (Inl err)
    then obtain rs where rest: "computeTokens env claims seen w1 = ((rs, seen'), w')" "results = Some err # rs"
      using Cons.prems(1) x by (auto split: prod.splits)
    have "qsDb q = wDb w1"
      using statement_Inl[OF x[unfolded Inl RecomputeTokenStats_def market_statement_def]] Cons.prems(2) by simp
    moreover have "\<forall>c \<in> set claims. (worker, dirty_claim c) \<in> set (qsHeld q)" using Cons.prems(3) by simp
    ultimately show ?thesis using Cons.IH[OF rest(1)] rest(2) by auto
  next
    case (Inr u)
    then obtain rs seen1 where rest: "computeTokens env claims seen1 w1 = ((rs, seen'), w')" "results = None # rs"
      using Cons.prems(1) x by (auto split: prod.splits)
    have d: "qsDb ?q = wDb w1"
      using x Inr Cons.prems(2) by (auto simp: RecomputeTokenStats_def market_statement_def statement_Inr)
    have step: "queue_step (envMarket env) q ?q"
      using queue_step.compute[of worker "dirty_claim c" q "envMarket env"] Cons.prems(3) by simp
    obtain q' where "queue_steps (envMarket env) ?q q'" "qsDb q' = wDb w'" "set (qsComputed ?q) \<subseteq> set (qsComputed q')"
        "\<forall>(c, r) \<in> set (zip claims rs). r = None \<longrightarrow> (worker, dirty_claim c) \<in> set (qsComputed q')"
      using Cons.IH[OF rest(1) d] Cons.prems(3) by auto
    then show ?thesis
      using step rest(2) by (intro exI[of _ q']) (auto intro: converse_rtranclp_into_rtranclp)
  qed
qed

definition market_only :: "'m db \<Rightarrow> 'm db \<Rightarrow> bool" where
  "market_only d d' \<longleftrightarrow> (\<exists>m. d' = d\<lparr>dbMarket := m\<rparr>)"

lemma market_only_refl: "market_only d d"
  unfolding market_only_def by (rule exI[of _ "dbMarket d"]) simp

lemma market_only_set: "market_only d d' \<Longrightarrow> market_only d (d'\<lparr>dbMarket := m\<rparr>)"
  by (auto simp: market_only_def)

lemma recompute_market:
  assumes "RecomputeProtocolAggregates True env c w = (r, w')"
  shows "market_only (wDb w) (wDb w')"
proof -
  have "triple (market_only (wDb w)) (recomputeProtocolAggregates env c) (\<lambda>_. market_only (wDb w))"
    unfolding recomputeProtocolAggregates_def
    by (auto intro!: triple_market triple_bind[where R = "\<lambda>_. market_only (wDb w)"] market_only_set)
  then have "wDb w' = wDb w \<or> (\<exists>a :: unit. market_only (wDb w) (wDb w'))"
    using assms by (intro plain_tx.run_any[where env = env and P = "market_only (wDb w)"]) (simp_all add: RecomputeProtocolAggregates_def market_only_refl)
  then show ?thesis using market_only_refl by auto
qed

lemma refreshChains_steps:
  assumes "refreshChains env claims cs results w = (results', w')" "qsDb q = wDb w" "length results = length claims"
  shows "\<exists>q'. queue_steps (envMarket env) q q' \<and> qsDb q' = wDb w' \<and> qsComputed q' = qsComputed q
    \<and> (\<forall>(c, r) \<in> set (zip claims results'). r = None \<longrightarrow> (c, None) \<in> set (zip claims results))"
  using assms
proof (induction cs arbitrary: w q results)
  case Nil
  then show ?case by (intro exI[of _ q]) auto
next
  case (Cons chain cs)
  obtain x w1 where x: "RecomputeProtocolAggregates True env chain w = (x, w1)" by fastforce
  obtain m where "wDb w1 = (wDb w)\<lparr>dbMarket := m\<rparr>" using recompute_market[OF x] by (auto simp: market_only_def)
  then have d: "qsDb (q\<lparr>qsDb := (qsDb q)\<lparr>dbMarket := m\<rparr>\<rparr>) = wDb w1" using Cons.prems(2) by simp
  have step: "queue_step (envMarket env) q (q\<lparr>qsDb := (qsDb q)\<lparr>dbMarket := m\<rparr>\<rparr>)" by (rule queue_step.refresh)
  define rs where "rs = (case x of Inr _ \<Rightarrow> results
      | Inl err \<Rightarrow> map (\<lambda>(c, r). if clChainID c = chain \<and> r = None then Some err else r) (zip claims results))"
  have rest: "refreshChains env claims cs rs w1 = (results', w')" "length rs = length claims"
    using Cons.prems x by (auto simp: rs_def split: sum.splits)
  have "(c, None) \<in> set (zip claims results)" if "(c, None) \<in> set (zip claims rs)" for c
    using that Cons.prems(3) by (auto simp: rs_def set_zip split: sum.splits if_splits)
  moreover obtain q' where "queue_steps (envMarket env) (q\<lparr>qsDb := (qsDb q)\<lparr>dbMarket := m\<rparr>\<rparr>) q'" "qsDb q' = wDb w'"
      "qsComputed q' = qsComputed q" "\<forall>(c, r) \<in> set (zip claims results'). r = None \<longrightarrow> (c, None) \<in> set (zip claims rs)"
    using Cons.IH[OF rest(1) d rest(2)] by auto
  moreover from this step have "queue_steps (envMarket env) q q'" by (meson converse_rtranclp_into_rtranclp)
  ultimately show ?case by (intro exI[of _ q']) auto
qed

lemma completeAll_steps:
  assumes "completeAll (AggregationSource env) worker crs w = (r, w')" "qsDb q = wDb w"
    and "\<forall>(c, r) \<in> set crs. r = None \<longrightarrow> (worker, dirty_claim c) \<in> set (qsComputed q)"
  shows "\<exists>q'. queue_steps (envMarket env) q q' \<and> qsDb q' = wDb w'"
  using assms
proof (induction crs arbitrary: w q r)
  case Nil
  then show ?case by (auto simp: ret_eq)
next
  case (Cons cr crs)
  show ?case
  proof (cases cr)
    case (Pair c x)
    show ?thesis
    proof (cases x)
      case (Some err)
      then obtain r1 where "completeAll (AggregationSource env) worker crs w = (r1, w')"
        using Cons.prems(1) Pair by (auto simp: iobind_def ret_eq split: prod.splits sum.splits)
      then show ?thesis using Cons.IH[of w r1 q] Cons.prems(2,3) by auto
    next
      case None
      have held: "(worker, dirty_claim c) \<in> set (qsComputed q)" using Cons.prems(3) Pair None by simp
      obtain y w1 where y: "statement env (sql_CompleteAggregationDirty (dirty_claim c) worker) w = (y, w1)" by fastforce
      have rest: "w' = w1 \<or> (\<exists>r1. completeAll (AggregationSource env) worker crs w1 = (r1, w'))"
        using Cons.prems(1) Pair None y
        by (auto simp: AggregationSource_def AggregationSource_Complete_def CompleteAggregationDirty_def
            dirty_claim_def[symmetric] iobind_def ret_eq split: prod.splits sum.splits)
      have "\<exists>q1. queue_steps (envMarket env) q q1 \<and> qsDb q1 = wDb w1 \<and> qsComputed q1 = qsComputed q"
      proof (cases "wDb w1 = wDb w")
        case True
        then show ?thesis using Cons.prems(2) by (intro exI[of _ q]) simp
      next
        case False
        then obtain a where "sql_CompleteAggregationDirty (dirty_claim c) worker (qsDb q) = Inr (a, wDb w1)"
          using statement_any[OF y] Cons.prems(2) by auto
        from queue_step.complete[OF held this, of "envMarket env"] show ?thesis
          by (intro exI[of _ "q\<lparr>qsDb := wDb w1\<rparr>"]) (simp add: r_into_rtranclp)
      qed
      then obtain q1 where q1: "queue_steps (envMarket env) q q1" "qsDb q1 = wDb w1" "qsComputed q1 = qsComputed q"
        by blast
      show ?thesis
      proof (cases "w' = w1")
        case True
        then show ?thesis using q1 by blast
      next
        case False
        then obtain r1 where r1: "completeAll (AggregationSource env) worker crs w1 = (r1, w')" using rest by blast
        have "\<forall>(c, r) \<in> set crs. r = None \<longrightarrow> (worker, dirty_claim c) \<in> set (qsComputed q1)"
          using Cons.prems(3) q1(3) by simp
        then obtain q' where "queue_steps (envMarket env) q1 q'" "qsDb q' = wDb w'" using Cons.IH[OF r1 q1(2)] by blast
        then show ?thesis using rtranclp_trans[OF q1(1)] by blast
      qed
    qed
  qed
qed

lemma drain_steps:
  assumes "drain \<lparr>wkSource = AggregationSource env, wkWorkerID = worker, wkBatchSize = n\<rparr> limit w = (r, w')" "qsDb q = wDb w"
  shows "\<exists>q'. queue_steps (envMarket env) q q' \<and> qsDb q' = wDb w'"
proof -
  obtain x w1 where x: "statement env (sql_ClaimAggregationDirty worker limit (envNow env (wTick w))) w = (x, w1)" by fastforce
  have run: "(case x of Inl e \<Rightarrow> (Inl e, w1) | Inr ks \<Rightarrow> (case ComputeBatch env (map claim_of ks) w1 of (results, w2) \<Rightarrow>
      completeAll (AggregationSource env) worker (zip (map claim_of ks) results) w2)) = (r, w')"
    using assms(1) x unfolding aggregation.drain_batch
    by (auto simp: AggregationSource_def AggregationSource_Claim_def ClaimAggregationDirty_def iobind_def ret_eq
        split: prod.splits sum.splits)
  show ?thesis
  proof (cases x)
    case (Inl e)
    then show ?thesis using run x assms(2) statement_Inl by (intro exI[of _ q]) fastforce
  next
    case (Inr ks)
    let ?q = "q\<lparr>qsDb := wDb w1, qsHeld := map (Pair worker) ks @ qsHeld q\<rparr>" and ?cs = "map claim_of ks"
    have "sql_ClaimAggregationDirty worker limit (envNow env (wTick w)) (qsDb q) = Inr (ks, wDb w1)"
      using x Inr assms(2) by (auto simp: statement_Inr)
    then have step: "queue_step (envMarket env) q ?q" by (rule queue_step.claim)
    obtain rs seen w2 where c: "computeTokens env ?cs [] w1 = ((rs, seen), w2)" by (metis prod_cases3 surj_pair)
    obtain results w3 where f: "refreshChains env ?cs seen rs w2 = (results, w3)" by fastforce
    have comp: "completeAll (AggregationSource env) worker (zip ?cs results) w3 = (r, w')"
      using run Inr c f by (simp add: ComputeBatch_def)
    obtain q2 where q2: "queue_steps (envMarket env) ?q q2" "qsDb q2 = wDb w2"
        "\<forall>(c, r) \<in> set (zip ?cs rs). r = None \<longrightarrow> (worker, dirty_claim c) \<in> set (qsComputed q2)"
      using computeTokens_steps[OF c, of ?q worker] by auto
    obtain q3 where q3: "queue_steps (envMarket env) q2 q3" "qsDb q3 = wDb w3" "qsComputed q3 = qsComputed q2"
        "\<forall>(c, r) \<in> set (zip ?cs results). r = None \<longrightarrow> (c, None) \<in> set (zip ?cs rs)"
      using refreshChains_steps[OF f q2(2) computeTokens_length[OF c]] by auto
    have "\<forall>(c, r) \<in> set (zip ?cs results). r = None \<longrightarrow> (worker, dirty_claim c) \<in> set (qsComputed q3)"
      using q3(3,4) q2(3) by fastforce
    then obtain q4 where q4: "queue_steps (envMarket env) q3 q4" "qsDb q4 = wDb w'"
      using completeAll_steps[OF comp q3(2)] by blast
    have "queue_steps (envMarket env) q q4"
      using step q2(1) q3(1) q4(1) by (meson converse_rtranclp_into_rtranclp rtranclp_trans)
    then show ?thesis using q4(2) by blast
  qed
qed

section \<open>Properties\<close>

text \<open>A queue nobody holds a claim of and whose marks are all still waiting.\<close>

definition fresh_queue :: "'m queue_state \<Rightarrow> bool" where
  "fresh_queue q \<longleftrightarrow> qsHeld q = [] \<and> qsComputed q = [] \<and> qsStale q = queued (qsDb q)
     \<and> (\<forall>r \<in> set (dbDirty (qsDb q)). adGeneration r \<le> dbDirtySeq (qsDb q))"


definition demo_queue :: "unit queue_state" where
  "demo_queue = \<lparr>qsDb = mark_dirty 1 60 empty_db, qsHeld = [], qsComputed = [], qsStale = {(1, 60)}\<rparr>"



definition demo_worker :: "unit Worker" where
  "demo_worker = \<lparr>wkSource = AggregationSource (quiet_env unit_sql), wkWorkerID = ''w'', wkBatchSize = 4\<rparr>"


end
