(* ===== verification/Token_Stats.thy ===== *)
theory Token_Stats
  imports Chain_Types
begin

text \<open>
  The statistics calculator of \<^verbatim>\<open>stats/calculator.go\<close>: spot price, valuations, holder count,
  all-time high, daily volume and 24-hour price change of a token from a snapshot of its
  projections. Times are integers (nanoseconds); a nullable big integer is an option.
\<close>

section \<open>Data\<close>

definition statsWad :: int where "statsWad = 10 ^ 18"

definition zeroAddress :: Address where "zeroAddress = 0"

definition deadAddress :: Address where "deadAddress = 0xdEaD"

definition MaxSafePriceChange24hBPS :: int where "MaxSafePriceChange24hBPS = 2 ^ 53 - 1"

definition MinSafePriceChange24hBPS :: int where "MinSafePriceChange24hBPS = - MaxSafePriceChange24hBPS"

datatype stats_error = PriceChangeRangeError int

record Holder =
  hoAddress :: Address
  hoBalance :: "int option"

record Candle =
  cnStart :: int
  cnOpen :: "int option"
  cnHigh :: "int option"
  cnLow :: "int option"
  cnClose :: "int option"
  cnVolume :: "int option"
  cnTrades :: int

record TokenInput =
  tnToken :: Address
  tnCurve :: Address
  tnPair :: Address
  tnLaunchPrice :: "int option"
  tnLaunchAt :: int
  tnReserveETH :: "int option"
  tnReserveToken :: "int option"
  tnTotalSupply :: "int option"
  tnCandles :: "Candle list"
  tnHolders :: "Holder list"
  tnPreviousATH :: "int option"
  tnPreviousATHAt :: int

record TokenStats =
  tsToken :: Address
  tsSpotPrice :: int
  tsMarketCap :: int
  tsFDV :: int
  tsLiquidity :: int
  tsATH :: int
  tsVolume24H :: int
  tsATHAt :: int
  tsPriceChange24hBPS :: int
  tsHolderCount :: int

section \<open>Helpers\<close>

definition positive :: "int option \<Rightarrow> bool" where
  "positive v = (case v of None \<Rightarrow> False | Some x \<Rightarrow> 0 < x)"

definition nonNegativeCopy :: "int option \<Rightarrow> int" where
  "nonNegativeCopy v = (case v of None \<Rightarrow> 0 | Some x \<Rightarrow> if x < 0 then 0 else x)"

definition checkedPriceChange24hBPS :: "int \<Rightarrow> stats_error + int" where
  "checkedPriceChange24hBPS v =
     (if v < MinSafePriceChange24hBPS \<or> v > MaxSafePriceChange24hBPS then Inl (PriceChangeRangeError v) else Inr v)"

definition isSupplyExcluded :: "Address \<Rightarrow> Address \<Rightarrow> bool" where
  "isSupplyExcluded address curve \<longleftrightarrow> address = zeroAddress \<or> address = deadAddress \<or> address = curve"

definition isHolderExcluded :: "Address \<Rightarrow> Address \<Rightarrow> Address \<Rightarrow> bool" where
  "isHolderExcluded address curve pair \<longleftrightarrow> isSupplyExcluded address curve \<or> address = pair"

section \<open>The two loops\<close>

definition holderStep :: "Address \<Rightarrow> Address \<Rightarrow> Holder \<Rightarrow> int \<times> int \<Rightarrow> int \<times> int" where
  "holderStep curve pair h acc = (case acc of (circulating, count) \<Rightarrow>
     if \<not> positive (hoBalance h) then (circulating, count)
     else (if isSupplyExcluded (hoAddress h) curve then circulating - the (hoBalance h) else circulating,
           if \<not> isHolderExcluded (hoAddress h) curve pair then count + 1 else count))"

record candle_scan =
  csATH :: int
  csATHAt :: int
  csFromCandle :: bool
  csVolume :: int
  csBaseline :: "Candle option"
  csLatest :: "Candle option"

definition athStep :: "Candle \<Rightarrow> candle_scan \<Rightarrow> candle_scan" where
  "athStep c s =
     (if positive (cnHigh c) \<and> (the (cnHigh c) > csATH s
          \<or> (csFromCandle s \<and> the (cnHigh c) = csATH s \<and> cnStart c < csATHAt s))
      then s\<lparr>csATH := the (cnHigh c), csATHAt := cnStart c, csFromCandle := True\<rparr> else s)"

definition later :: "Candle \<Rightarrow> Candle option \<Rightarrow> bool" where
  "later c b = (case b of None \<Rightarrow> True | Some x \<Rightarrow> cnStart c > cnStart x)"

definition candleStep :: "int \<Rightarrow> Candle \<Rightarrow> candle_scan \<Rightarrow> candle_scan" where
  "candleStep cutoff c s =
     (let s1 = athStep c s;
          s2 = (if \<not> cnStart c < cutoff \<and> positive (cnVolume c) then s1\<lparr>csVolume := csVolume s1 + the (cnVolume c)\<rparr> else s1);
          s3 = (if cnClose c \<noteq> None \<and> cnStart c \<le> cutoff \<and> later c (csBaseline s2) then s2\<lparr>csBaseline := Some c\<rparr> else s2)
      in if cnClose c \<noteq> None \<and> later c (csLatest s3) then s3\<lparr>csLatest := Some c\<rparr> else s3)"

definition dayNanoseconds :: int where "dayNanoseconds = 24 * 3600 * 10 ^ 9"

section \<open>The calculator\<close>

definition spotPriceOf :: "TokenInput \<Rightarrow> int" where
  "spotPriceOf input = (if positive (tnReserveETH input) \<and> positive (tnReserveToken input)
     then big_Div (the (tnReserveETH input) * statsWad) (the (tnReserveToken input)) else 0)"

definition baseATH :: "TokenInput \<Rightarrow> int \<times> int" where
  "baseATH input = (case tnPreviousATH input of
       Some x \<Rightarrow> if 0 \<le> x then (x, tnPreviousATHAt input) else (nonNegativeCopy (tnLaunchPrice input), tnLaunchAt input)
     | None \<Rightarrow> (nonNegativeCopy (tnLaunchPrice input), tnLaunchAt input))"

definition supplyStats :: "TokenInput \<Rightarrow> int \<Rightarrow> int \<times> int \<times> int" where
  "supplyStats input spot = (case tnTotalSupply input of
       Some supply \<Rightarrow>
         if 0 \<le> supply then
           (case fold (holderStep (tnCurve input) (tnPair input)) (tnHolders input) (supply, 0) of (circulating, count) \<Rightarrow>
              (big_Div (spot * supply) statsWad, if circulating > 0 then big_Div (spot * circulating) statsWad else 0, count))
         else (0, 0, 0)
     | None \<Rightarrow> (0, 0, 0))"

definition priceChange :: "candle_scan \<Rightarrow> stats_error + int" where
  "priceChange s = (case (csBaseline s, csLatest s) of
       (Some b, Some l) \<Rightarrow>
         if positive (cnClose b)
         then checkedPriceChange24hBPS (big_Quo ((the (cnClose l) - the (cnClose b)) * 10000) (the (cnClose b)))
         else Inr 0
     | _ \<Rightarrow> Inr 0)"

definition ComputeTokenStats :: "TokenInput \<Rightarrow> int \<Rightarrow> stats_error + TokenStats" where
  "ComputeTokenStats input now =
     (let spot = spotPriceOf input;
          scan = fold (candleStep (now - dayNanoseconds)) (tnCandles input)
            \<lparr>csATH = fst (baseATH input), csATHAt = snd (baseATH input), csFromCandle = False, csVolume = 0,
             csBaseline = None, csLatest = None\<rparr>
      in case supplyStats input spot of (fdv, cap, holders) \<Rightarrow>
        rbind (priceChange scan) (\<lambda>change.
        Inr \<lparr>tsToken = tnToken input, tsSpotPrice = spot, tsMarketCap = cap, tsFDV = fdv,
          tsLiquidity = (if positive (tnReserveETH input) then the (tnReserveETH input) else 0),
          tsATH = csATH scan, tsVolume24H = csVolume scan, tsATHAt = csATHAt scan,
          tsPriceChange24hBPS = change, tsHolderCount = holders\<rparr>))"

section \<open>What the candle loop computes\<close>

lemma candleStep_ath:
  "csATH (candleStep cutoff c s) = csATH (athStep c s)" "csATHAt (candleStep cutoff c s) = csATHAt (athStep c s)"
  "csFromCandle (candleStep cutoff c s) = csFromCandle (athStep c s)"
  by (simp_all add: candleStep_def Let_def)

lemma athStep_rest: "csVolume (athStep c s) = csVolume s" "csBaseline (athStep c s) = csBaseline s" "csLatest (athStep c s) = csLatest s"
  by (simp_all add: athStep_def)

lemma candleStep_rest:
  "csVolume (candleStep cutoff c s) = csVolume s + (if cutoff \<le> cnStart c \<and> positive (cnVolume c) then the (cnVolume c) else 0)"
  "csBaseline (candleStep cutoff c s) =
     (if cnClose c \<noteq> None \<and> cnStart c \<le> cutoff \<and> later c (csBaseline s) then Some c else csBaseline s)"
  "csLatest (candleStep cutoff c s) = (if cnClose c \<noteq> None \<and> later c (csLatest s) then Some c else csLatest s)"
  by (auto simp: candleStep_def Let_def athStep_rest)

definition ath_ok :: "int \<Rightarrow> int \<Rightarrow> Candle list \<Rightarrow> candle_scan \<Rightarrow> bool" where
  "ath_ok base at cs s \<longleftrightarrow> base \<le> csATH s \<and> (\<forall>c \<in> set cs. positive (cnHigh c) \<longrightarrow> the (cnHigh c) \<le> csATH s)
     \<and> (if csFromCandle s
        then base < csATH s \<and> (\<exists>c \<in> set cs. cnHigh c = Some (csATH s) \<and> cnStart c = csATHAt s)
          \<and> (\<forall>c \<in> set cs. cnHigh c = Some (csATH s) \<longrightarrow> csATHAt s \<le> cnStart c)
        else csATH s = base \<and> csATHAt s = at)"

lemma ath_step:
  assumes "ath_ok base at cs s" "0 \<le> base"
  shows "ath_ok base at (cs @ [c]) (candleStep cutoff c s)"
proof -
  have nonneg: "0 \<le> csATH s" using assms by (simp add: ath_ok_def)
  consider (none) "\<not> positive (cnHigh c)" | (high) h where "cnHigh c = Some h" "0 < h" "h > csATH s"
    | (tie) h where "cnHigh c = Some h" "0 < h" "h = csATH s" | (low) h where "cnHigh c = Some h" "0 < h" "h < csATH s"
  proof (cases "cnHigh c")
    case None
    then show ?thesis by (intro none) (simp add: positive_def)
  next
    case (Some h)
    then show ?thesis
      using none high[OF Some] tie[OF Some] low[OF Some] linorder_less_linear[of h "csATH s"]
      by (cases "0 < h") (auto simp: positive_def)
  qed
  then show ?thesis
  proof cases
    case none
    then have "cnHigh c \<noteq> Some (csATH s) \<or> (csATH s = 0 \<and> \<not> csFromCandle s)"
      using nonneg assms by (auto simp: positive_def ath_ok_def)
    then show ?thesis using none assms by (auto simp: ath_ok_def candleStep_ath athStep_def)
  next
    case high
    then have "\<forall>x \<in> set cs. cnHigh x \<noteq> Some h" using assms by (auto simp: ath_ok_def positive_def)
    then show ?thesis using high assms by (auto simp: ath_ok_def candleStep_ath athStep_def positive_def)
  next
    case tie
    then show ?thesis using assms by (fastforce simp: ath_ok_def candleStep_ath athStep_def positive_def)
  next
    case low
    then show ?thesis using assms
      by (cases "csFromCandle s") (auto simp: ath_ok_def candleStep_ath athStep_def positive_def)
  qed
qed

lemma ath_fold:
  assumes "csATH s = base" "csATHAt s = at" "\<not> csFromCandle s" "0 \<le> base"
  shows "ath_ok base at cs (fold (candleStep cutoff) cs s)"
  by (induction cs rule: rev_induct) (use assms in \<open>auto simp: ath_ok_def[of _ _ "[]"] ath_step\<close>)

definition newest :: "(Candle \<Rightarrow> bool) \<Rightarrow> Candle list \<Rightarrow> Candle option \<Rightarrow> bool" where
  "newest ok cs r = (case r of None \<Rightarrow> \<forall>c \<in> set cs. \<not> ok c
     | Some b \<Rightarrow> b \<in> set cs \<and> ok b \<and> (\<forall>c \<in> set cs. ok c \<longrightarrow> cnStart c \<le> cnStart b))"

lemma newest_step:
  "newest ok cs r \<Longrightarrow> newest ok (cs @ [c]) (if ok c \<and> later c r then Some c else r)"
  by (cases r) (auto simp: newest_def later_def)

lemma baseline_fold:
  "csBaseline s = None \<Longrightarrow>
   newest (\<lambda>c. cnClose c \<noteq> None \<and> cnStart c \<le> cutoff) cs (csBaseline (fold (candleStep cutoff) cs s))"
proof (induction cs rule: rev_induct)
  case Nil
  then show ?case by (simp add: newest_def)
next
  case (snoc c cs)
  from newest_step[OF snoc.IH[OF snoc.prems], of c] show ?case by (simp add: candleStep_rest conj_assoc)
qed

lemma latest_fold:
  "csLatest s = None \<Longrightarrow> newest (\<lambda>c. cnClose c \<noteq> None) cs (csLatest (fold (candleStep cutoff) cs s))"
proof (induction cs rule: rev_induct)
  case Nil
  then show ?case by (simp add: newest_def)
next
  case (snoc c cs)
  from newest_step[OF snoc.IH[OF snoc.prems], of c] show ?case by (simp add: candleStep_rest)
qed

lemma volume_fold:
  "csVolume (fold (candleStep cutoff) cs s) = csVolume s
     + (\<Sum>c \<leftarrow> filter (\<lambda>c. cutoff \<le> cnStart c \<and> positive (cnVolume c)) cs. the (cnVolume c))"
  by (induction cs rule: rev_induct) (auto simp: candleStep_rest)

section \<open>What the holder loop computes\<close>

lemma holder_fold:
  "fold (holderStep curve pair) hs (amount, n) =
     (amount - (\<Sum>h \<leftarrow> filter (\<lambda>h. positive (hoBalance h) \<and> isSupplyExcluded (hoAddress h) curve) hs. the (hoBalance h)),
      n + int (length (filter (\<lambda>h. positive (hoBalance h) \<and> \<not> isHolderExcluded (hoAddress h) curve pair) hs)))"
  by (induction hs arbitrary: amount n) (auto simp: holderStep_def)

lemma positive_sum_nonneg: "0 \<le> (\<Sum>h \<leftarrow> filter (\<lambda>h. positive (hoBalance h) \<and> q h) hs. the (hoBalance h))"
  by (rule sum_list_nonneg) (auto simp: positive_def split: option.splits)

section \<open>Properties\<close>

lemma baseATH_nonneg: "0 \<le> fst (baseATH input)"
  by (auto simp: baseATH_def nonNegativeCopy_def split: option.splits)

lemma spotPrice_nonneg: "0 \<le> spotPriceOf input"
  by (auto simp: spotPriceOf_def positive_def statsWad_def pos_imp_zdiv_nonneg_iff split: option.splits)

lemma supplyStats_bounds:
  assumes "supplyStats input spot = (fdv, cap, holders)" "0 \<le> spot"
  shows "0 \<le> cap \<and> cap \<le> fdv \<and> 0 \<le> holders \<and> holders \<le> int (length (tnHolders input))"
proof (cases "\<exists>t. tnTotalSupply input = Some t \<and> 0 \<le> t")
  case True
  then obtain t where t: "tnTotalSupply input = Some t" "0 \<le> t" by blast
  let ?out = "\<Sum>h \<leftarrow> filter (\<lambda>h. positive (hoBalance h) \<and> isSupplyExcluded (hoAddress h) (tnCurve input)) (tnHolders input). the (hoBalance h)"
  have out: "0 \<le> ?out" by (rule positive_sum_nonneg)
  have "spot * (t - ?out) div statsWad \<le> spot * t div statsWad"
    using out assms(2) by (intro zdiv_mono1 mult_left_mono) (simp_all add: statsWad_def)
  moreover have "0 \<le> spot * t div statsWad" "0 < t - ?out \<longrightarrow> 0 \<le> spot * (t - ?out) div statsWad"
    using t assms(2) by (simp_all add: statsWad_def pos_imp_zdiv_nonneg_iff)
  ultimately show ?thesis
    using assms(1) t by (auto simp: supplyStats_def holder_fold statsWad_def split: if_splits intro: length_filter_le)
next
  case False
  then show ?thesis using assms(1) by (auto simp: supplyStats_def split: option.splits if_splits)
qed

text \<open>
  C32: The computed statistics are what they claim. The all-time high is the base (the previous high,
  or the launch price after a rollback) or the largest positive candle high, whichever is greater,
  dated at the base's time or at the earliest candle that reaches it, so it never falls below a
  previous high; the volume is the sum over the candles of the last day; the market capitalisation
  is non-negative and never above the fully diluted value; and no more holders are counted than
  were given.
\<close>

theorem ComputeTokenStats_correct:
  assumes "ComputeTokenStats input now = Inr st"
  shows "fst (baseATH input) \<le> tsATH st
    \<and> (\<forall>c \<in> set (tnCandles input). positive (cnHigh c) \<longrightarrow> the (cnHigh c) \<le> tsATH st)
    \<and> (tsATH st = fst (baseATH input) \<longrightarrow> tsATHAt st = snd (baseATH input))
    \<and> (tsATH st \<noteq> fst (baseATH input) \<longrightarrow>
        (\<exists>c \<in> set (tnCandles input). cnHigh c = Some (tsATH st) \<and> cnStart c = tsATHAt st)
        \<and> (\<forall>c \<in> set (tnCandles input). cnHigh c = Some (tsATH st) \<longrightarrow> tsATHAt st \<le> cnStart c))
    \<and> tsVolume24H st = (\<Sum>c \<leftarrow> filter (\<lambda>c. now - dayNanoseconds \<le> cnStart c \<and> positive (cnVolume c)) (tnCandles input).
        the (cnVolume c))
    \<and> 0 \<le> tsMarketCap st \<and> tsMarketCap st \<le> tsFDV st
    \<and> 0 \<le> tsHolderCount st \<and> tsHolderCount st \<le> int (length (tnHolders input))"
proof -
  let ?s0 = "\<lparr>csATH = fst (baseATH input), csATHAt = snd (baseATH input), csFromCandle = False, csVolume = 0,
             csBaseline = None, csLatest = None\<rparr>"
  define scan where "scan = fold (candleStep (now - dayNanoseconds)) (tnCandles input) ?s0"
  obtain fdv cap holders where s: "supplyStats input (spotPriceOf input) = (fdv, cap, holders)" by (metis prod_cases3)
  have st: "tsATH st = csATH scan" "tsATHAt st = csATHAt scan" "tsVolume24H st = csVolume scan"
    "tsMarketCap st = cap" "tsFDV st = fdv" "tsHolderCount st = holders"
    using assms s by (auto simp: ComputeTokenStats_def Let_def scan_def[symmetric] result_iff)
  have "ath_ok (fst (baseATH input)) (snd (baseATH input)) (tnCandles input) scan"
    unfolding scan_def by (rule ath_fold) (simp_all add: baseATH_nonneg)
  moreover have "csVolume scan = (\<Sum>c \<leftarrow> filter (\<lambda>c. now - dayNanoseconds \<le> cnStart c \<and> positive (cnVolume c)) (tnCandles input).
        the (cnVolume c))"
    unfolding scan_def by (subst volume_fold) simp
  ultimately show ?thesis
    using supplyStats_bounds[OF s spotPrice_nonneg] st by (auto simp: ath_ok_def split: if_splits)
qed

definition demo_candle :: "int \<Rightarrow> int \<Rightarrow> Candle" where
  "demo_candle start high = \<lparr>cnStart = start, cnOpen = Some 5, cnHigh = Some high, cnLow = Some 4, cnClose = Some 8,
     cnVolume = Some 10, cnTrades = 1\<rparr>"

definition demo_input :: TokenInput where
  "demo_input = \<lparr>tnToken = 60, tnCurve = 50, tnPair = 70, tnLaunchPrice = Some 5, tnLaunchAt = 0, tnReserveETH = Some 2,
     tnReserveToken = Some 4, tnTotalSupply = Some 1000, tnCandles = [demo_candle 1 9, demo_candle (10 ^ 15) 7],
     tnHolders = [\<lparr>hoAddress = 50, hoBalance = Some 400\<rparr>, \<lparr>hoAddress = 3, hoBalance = Some 600\<rparr>],
     tnPreviousATH = None, tnPreviousATHAt = 0\<rparr>"

theorem ComputeTokenStats_correct_witness:
  "\<exists>st. ComputeTokenStats demo_input (10 ^ 15) = Inr st \<and> 9 \<le> tsATH st \<and> tsVolume24H st = 10 \<and> tsMarketCap st \<le> tsFDV st"
proof -
  have "is_ok (ComputeTokenStats demo_input (10 ^ 15))" by code_simp
  then obtain st where st: "ComputeTokenStats demo_input (10 ^ 15) = Inr st" by (auto simp: is_ok_iff)
  then show ?thesis
    using ComputeTokenStats_correct[OF st]
    by (auto simp: demo_input_def demo_candle_def positive_def dayNanoseconds_def)
qed

text \<open>
  The daily price change is exact or refused. With the newest candle that has a close as the
  current price and the newest one no later than a day ago as the baseline, the change is the
  truncated quotient of their difference in basis points when it is representable as a JavaScript
  integer, the computation fails with exactly that value otherwise, and it is zero without a
  positive baseline.
\<close>

theorem price_change_checked:
  "\<exists>b l. newest (\<lambda>c. cnClose c \<noteq> None \<and> cnStart c \<le> now - dayNanoseconds) (tnCandles input) b
    \<and> newest (\<lambda>c. cnClose c \<noteq> None) (tnCandles input) l
    \<and> (let change = (case (b, l) of (Some x, Some y) \<Rightarrow>
           if positive (cnClose x) then big_Quo ((the (cnClose y) - the (cnClose x)) * 10000) (the (cnClose x)) else 0
         | _ \<Rightarrow> 0) in
       if \<bar>change\<bar> \<le> 2 ^ 53 - 1
       then map_sum id tsPriceChange24hBPS (ComputeTokenStats input now) = Inr change
       else ComputeTokenStats input now = Inl (PriceChangeRangeError change))"
proof -
  let ?s0 = "\<lparr>csATH = fst (baseATH input), csATHAt = snd (baseATH input), csFromCandle = False, csVolume = 0,
             csBaseline = None, csLatest = None\<rparr>"
  define scan where "scan = fold (candleStep (now - dayNanoseconds)) (tnCandles input) ?s0"
  obtain fdv cap holders where s: "supplyStats input (spotPriceOf input) = (fdv, cap, holders)" by (metis prod_cases3)
  define change where "change = (case (csBaseline scan, csLatest scan) of (Some x, Some y) \<Rightarrow>
      if positive (cnClose x) then big_Quo ((the (cnClose y) - the (cnClose x)) * 10000) (the (cnClose x)) else 0 | _ \<Rightarrow> 0)"
  have pc: "priceChange scan = (if \<bar>change\<bar> \<le> 2 ^ 53 - 1 then Inr change else Inl (PriceChangeRangeError change))"
    by (auto simp: priceChange_def change_def checkedPriceChange24hBPS_def MaxSafePriceChange24hBPS_def
        MinSafePriceChange24hBPS_def split: option.splits)
  have "newest (\<lambda>c. cnClose c \<noteq> None \<and> cnStart c \<le> now - dayNanoseconds) (tnCandles input) (csBaseline scan)"
    "newest (\<lambda>c. cnClose c \<noteq> None) (tnCandles input) (csLatest scan)"
    unfolding scan_def by (rule baseline_fold latest_fold, simp)+
  moreover have "if \<bar>change\<bar> \<le> 2 ^ 53 - 1
       then map_sum id tsPriceChange24hBPS (ComputeTokenStats input now) = Inr change
       else ComputeTokenStats input now = Inl (PriceChangeRangeError change)"
    using s pc by (auto simp: ComputeTokenStats_def Let_def scan_def[symmetric])
  ultimately show ?thesis unfolding change_def Let_def by blast
qed

end
