(* ===== verification/Numeric_Codec.thy ===== *)
theory Numeric_Codec
  imports Launch_Prelude
begin

text \<open>
  The fixed-width column types of \<^verbatim>\<open>store/postgres/sqlc/types.go\<close>: addresses and hashes as byte
  strings of exact length, and unsigned 256-bit integers stored as PostgreSQL numerics. A byte
  array is a list of bytes, most significant first.
\<close>

section \<open>Big-endian bytes\<close>

fun be_bytes :: "nat \<Rightarrow> int \<Rightarrow> 8 word list" where
  "be_bytes 0 v = []"
| "be_bytes (Suc n) v = be_bytes n (v div 256) @ [word_of_int v]"

definition be_value :: "8 word list \<Rightarrow> int" where
  "be_value bs = fold (\<lambda>b acc. acc * 256 + uint b) bs 0"

lemma be_value_Nil [simp]: "be_value [] = 0"
  by (simp add: be_value_def)

lemma be_value_snoc [simp]: "be_value (bs @ [b]) = be_value bs * 256 + uint b"
  by (simp add: be_value_def)

lemma length_be_bytes [simp]: "length (be_bytes n v) = n"
  by (induction n arbitrary: v) auto

lemma be_value_bounds: "0 \<le> be_value bs \<and> be_value bs < 256 ^ length bs"
proof (induction bs rule: rev_induct)
  case (snoc b bs)
  have "0 \<le> uint b" "uint b < 256" using uint_lt2p[of b] by simp_all
  then show ?case using snoc.IH by simp
qed simp

lemma be_value_be_bytes: "0 \<le> v \<Longrightarrow> be_value (be_bytes n v) = v mod 256 ^ n"
proof (induction n arbitrary: v)
  case (Suc n)
  have "v mod (256 * 256 ^ n) = 256 * (v div 256 mod 256 ^ n) + v mod 256"
    by (rule zmod_zmult2_eq) simp
  then show ?case using Suc by (simp add: uint_word_of_int pos_imp_zdiv_nonneg_iff)
qed simp

lemma be_bytes_be_value: "be_bytes (length bs) (be_value bs) = bs"
proof (induction bs rule: rev_induct)
  case (snoc b bs)
  have b: "0 \<le> uint b" "uint b < 256" using uint_lt2p[of b] by simp_all
  then have "(be_value bs * 256 + uint b) div 256 = be_value bs" by simp
  moreover have "word_of_int (be_value bs * 256 + uint b) = b"
  proof -
    have "uint (word_of_int (be_value bs * 256 + uint b) :: 8 word) = (be_value bs * 256 + uint b) mod 2 ^ 8"
      by (simp only: uint_word_of_int len_num1 len_bit0 mult_1_right numeral_2_eq_2[symmetric]) simp
    also have "\<dots> = uint b" using b by simp
    finally show ?thesis by (rule word_uint_eqI)
  qed
  ultimately show ?case using snoc.IH by simp
qed simp

section \<open>Addresses and hashes\<close>

definition addressLength :: nat where "addressLength = 20"

definition hashLength :: nat where "hashLength = 32"

datatype codec_error =
    WrongLength string nat nat
  | NilValue | NegativeValue | ExceedsBits
  | NullNumeric | NotFinite | NilCoefficient | FractionalNumeric | NumericTooLarge

definition Address_ScanBytes :: "8 word list \<Rightarrow> codec_error + 8 word list" where
  "Address_ScanBytes value = (if length value \<noteq> addressLength
     then Inl (WrongLength ''address'' (length value) addressLength) else Inr value)"

definition Address_BytesValue :: "8 word list \<Rightarrow> 8 word list" where "Address_BytesValue address = address"

definition Hash_ScanBytes :: "8 word list \<Rightarrow> codec_error + 8 word list" where
  "Hash_ScanBytes value = (if length value \<noteq> hashLength
     then Inl (WrongLength ''hash'' (length value) hashLength) else Inr value)"

definition Hash_BytesValue :: "8 word list \<Rightarrow> 8 word list" where "Hash_BytesValue hash = hash"

section \<open>Unsigned 256-bit integers\<close>

text \<open>A \<open>Uint256\<close> is its array of bytes.\<close>

definition NewUint256 :: "bigptr \<Rightarrow> codec_error + 8 word list" where
  "NewUint256 value =
     (case value of
        None \<Rightarrow> Inl NilValue
      | Some v \<Rightarrow> if v < 0 then Inl NegativeValue else if v \<ge> 2 ^ 256 then Inl ExceedsBits
          else Inr (be_bytes hashLength v))"

definition Uint256_BigInt :: "8 word list \<Rightarrow> int" where "Uint256_BigInt value = be_value value"

datatype infinity_modifier = Finite | Infinity | NegativeInfinity

record Numeric =
  nuInt :: bigptr
  nuExp :: int
  nuNaN :: bool
  nuInfinityModifier :: infinity_modifier
  nuValid :: bool

definition numericInteger :: "Numeric \<Rightarrow> codec_error + int" where
  "numericInteger numeric =
     (case nuInt numeric of
        None \<Rightarrow> Inl NilCoefficient
      | Some i \<Rightarrow>
        if i = 0 then Inr i
        else if nuExp numeric > 77 then Inl NumericTooLarge
        else if nuExp numeric < -78 then Inl FractionalNumeric
        else if nuExp numeric = 0 then Inr i
        else let power = 10 ^ nat \<bar>nuExp numeric\<bar> in
          if nuExp numeric > 0 then Inr (i * power)
          else if i - big_Quo i power * power \<noteq> 0 then Inl FractionalNumeric
          else Inr (big_Quo i power))"

definition ScanNumeric :: "Numeric \<Rightarrow> codec_error + 8 word list" where
  "ScanNumeric numeric =
     (if \<not> nuValid numeric then Inl NullNumeric
      else if nuNaN numeric \<or> nuInfinityModifier numeric \<noteq> Finite then Inl NotFinite
      else rbind (numericInteger numeric) (\<lambda>integer. NewUint256 (Some integer)))"

definition NumericValue :: "8 word list \<Rightarrow> Numeric" where
  "NumericValue value = \<lparr>nuInt = Some (Uint256_BigInt value), nuExp = 0, nuNaN = False, nuInfinityModifier = Finite,
     nuValid = True\<rparr>"

section \<open>Properties\<close>

text \<open>The integer a finite numeric stands for, if it stands for one.\<close>

definition represents :: "Numeric \<Rightarrow> int \<Rightarrow> bool" where
  "represents n v = (\<exists>i. nuInt n = Some i \<and>
     (if nuExp n \<ge> 0 then v = i * 10 ^ nat (nuExp n) else v * 10 ^ nat (- nuExp n) = i))"

lemma quo_exact_iff: "0 < p \<Longrightarrow> i - big_Quo i p * p = 0 \<longleftrightarrow> p dvd i" "0 < p \<Longrightarrow> p dvd i \<Longrightarrow> big_Quo i p * p = i"
proof -
  assume p: "0 < p"
  have neg: "- (- i div p) = i div p" if "p dvd i" using that p by (simp add: dvd_neg_div)
  have q: "big_Quo i p = (if 0 \<le> i then i div p else - ((- i) div p))"
    using p by (cases "0 \<le> i") (simp, simp add: big_Quo_def signed_divide_int_def)
  show "i - big_Quo i p * p = 0 \<longleftrightarrow> p dvd i"
  proof
    assume "i - big_Quo i p * p = 0"
    then have "i = big_Quo i p * p" by simp
    then show "p dvd i" by (metis dvd_triv_right)
  next
    assume d: "p dvd i"
    then show "i - big_Quo i p * p = 0" using neg q by (auto simp: dvd_div_mult_self)
  qed
  then show "p dvd i \<Longrightarrow> big_Quo i p * p = i" by simp
qed

lemma numericInteger_Inr:
  "numericInteger n = Inr v \<longleftrightarrow> represents n v \<and> (nuInt n = Some 0 \<or> -78 \<le> nuExp n \<and> nuExp n \<le> 77)"
proof (cases "nuInt n")
  case None
  then show ?thesis by (simp add: numericInteger_def represents_def)
next
  case (Some i)
  let ?p = "10 ^ nat (- nuExp n) :: int"
  have "numericInteger n = Inr v \<longleftrightarrow> v * ?p = i" if "i \<noteq> 0" "-78 \<le> nuExp n" "nuExp n < 0"
    using that Some quo_exact_iff[of ?p i] by (auto simp: numericInteger_def Let_def)
  then show ?thesis using Some
    by (cases "nuExp n = 0"; cases "0 < nuExp n") (auto simp: numericInteger_def represents_def Let_def)
qed

lemma too_large:
  assumes "represents n v" "nuInt n \<noteq> Some 0" "77 < nuExp n" shows "v < 0 \<or> 2 ^ 256 \<le> v"
proof -
  obtain i where i: "v = i * 10 ^ nat (nuExp n)" "i \<noteq> 0" using assms by (auto simp: represents_def)
  have "(2::int) ^ 256 \<le> 10 ^ 78" by simp
  also have "\<dots> \<le> (10::int) ^ nat (nuExp n)" using assms(3) by (intro power_increasing) auto
  finally have big: "2 ^ 256 \<le> (10::int) ^ nat (nuExp n)" .
  show ?thesis
  proof (cases "0 < i")
    case True
    then have "1 * 10 ^ nat (nuExp n) \<le> i * 10 ^ nat (nuExp n)" by (intro mult_right_mono) auto
    then show ?thesis using big i(1) by linarith
  next
    case False
    then show ?thesis using i by (simp add: mult_less_0_iff)
  qed
qed

lemma NewUint256_Inr [result_iff]:
  "NewUint256 (Some v) = Inr u \<longleftrightarrow> 0 \<le> v \<and> length u = hashLength \<and> be_value u = v"
proof -
  have big: "(2::int) ^ 256 = 256 ^ 32" by simp
  have "u = be_bytes hashLength v \<longleftrightarrow> length u = hashLength \<and> be_value u = v" if "0 \<le> v" "v < 2 ^ 256"
    using that be_value_be_bytes[of v hashLength] be_bytes_be_value[of u] big
    by (auto simp: hashLength_def)
  moreover have "v < 2 ^ 256" if "length u = hashLength" "be_value u = v"
    using be_value_bounds[of u] that big by (simp add: hashLength_def)
  ultimately show ?thesis
    by (cases "v < 0"; cases "v < 2 ^ 256") (auto simp: NewUint256_def)
qed

text \<open>
  Scanning a stored numeric is exact: a numeric whose exponent is not below -78 is accepted precisely
  when it is present, finite and an integer that 32 bytes hold, and the bytes are that integer, most
  significant first. In particular no rounding, sign loss or wrap-around ever happens.
\<close>

theorem ScanNumeric_exact:
  assumes "-78 \<le> nuExp n"
  shows "ScanNumeric n = Inr u \<longleftrightarrow>
    nuValid n \<and> \<not> nuNaN n \<and> nuInfinityModifier n = Finite \<and>
    length u = hashLength \<and> represents n (Uint256_BigInt u)"
proof -
  have "nuInt n = Some 0 \<or> nuExp n \<le> 77" if "length u = hashLength" "represents n (be_value u)"
    using that too_large[of n "be_value u"] be_value_bounds[of u] by (force simp: hashLength_def)
  then show ?thesis
    using assms be_value_bounds[of u]
    by (auto simp: ScanNumeric_def Uint256_BigInt_def result_iff numericInteger_Inr)
qed

theorem ScanNumeric_exact_witness:
  "ScanNumeric \<lparr>nuInt = Some 1200, nuExp = -2, nuNaN = False, nuInfinityModifier = Finite, nuValid = True\<rparr> =
     Inr (be_bytes 32 12)"
proof -
  have "be_value (be_bytes 32 12) = 12" by (subst be_value_be_bytes) simp_all
  then show ?thesis
    by (subst ScanNumeric_exact) (simp_all add: represents_def Uint256_BigInt_def hashLength_def)
qed

text \<open>
  The column types round-trip: a 256-bit value written to the database reads back unchanged, every
  value in range has one stored form and reads back as the same integer, and an address or a hash of
  the right width survives both directions.
\<close>

theorem Uint256_roundtrip:
  assumes "length u = hashLength" "0 \<le> v" "v < 2 ^ 256" "length a = addressLength" "length h = hashLength"
  shows "ScanNumeric (NumericValue u) = Inr u \<and>
    (\<exists>!w. NewUint256 (Some v) = Inr w \<and> Uint256_BigInt w = v) \<and>
    Address_ScanBytes (Address_BytesValue a) = Inr a \<and> Hash_ScanBytes (Hash_BytesValue h) = Inr h"
proof -
  have "ScanNumeric (NumericValue u) = Inr u"
    using assms(1) be_value_bounds[of u]
    by (auto simp: ScanNumeric_def NumericValue_def Uint256_BigInt_def result_iff numericInteger_Inr represents_def)
  moreover have "be_value (be_bytes hashLength v) = v"
    using assms(2,3) be_value_be_bytes[of v hashLength] by (simp add: hashLength_def)
  then have "NewUint256 (Some v) = Inr (be_bytes hashLength v) \<and> Uint256_BigInt (be_bytes hashLength v) = v"
    using assms(2,3) by (simp add: NewUint256_def Uint256_BigInt_def)
  ultimately show ?thesis
    using assms(4,5)
    by (auto simp: Address_ScanBytes_def Address_BytesValue_def Hash_ScanBytes_def Hash_BytesValue_def)
qed

theorem Uint256_roundtrip_witness:
  "ScanNumeric (NumericValue (replicate 32 255)) = Inr (replicate 32 255) \<and>
   (\<exists>!w. NewUint256 (Some (2 ^ 256 - 1)) = Inr w \<and> Uint256_BigInt w = 2 ^ 256 - 1) \<and>
   Address_ScanBytes (Address_BytesValue (replicate 20 1)) = Inr (replicate 20 1) \<and>
   Hash_ScanBytes (Hash_BytesValue (replicate 32 2)) = Inr (replicate 32 2)"
  using Uint256_roundtrip[of "replicate 32 255" "2 ^ 256 - 1" "replicate 20 1" "replicate 32 2"]
  by (simp add: hashLength_def addressLength_def)

end
