(* ===== verification/Deployment_Registry.thy ===== *)
theory Deployment_Registry
  imports Chain_Types "HOL-Library.Sublist" "HOL-Library.Char_ord" "HOL-Library.List_Lexorder"
begin

text \<open>
  The registry of reviewed deployments (\<^verbatim>\<open>backend/deployments\<close>: \<^verbatim>\<open>model.go\<close>, \<^verbatim>\<open>errors.go\<close>,
  \<^verbatim>\<open>registry.go\<close>, \<^verbatim>\<open>reconcile.go\<close>): loading and validating the artifacts of a file system, and the
  selection of a deployment at start-up.

  The JSON-schema compiler and go-ethereum's hexadecimal conversions are parameters of the model, as
  is the decoding of a JSON body into the raw structs. A file system is the list of its files with
  the outcome of reading each: the two the source passes, an embedded one and an in-memory map,
  list their directories without errors.
\<close>

section \<open>Data\<close>

datatype Environment = EnvironmentLocal | EnvironmentTestnet | EnvironmentProduction | EnvironmentOther string

record BytecodeHashes =
  bhLaunchFactory :: Hash
  bhBondingCurveV1 :: Hash
  bhUniswapV2Factory :: Hash
  bhWETH :: Hash

record Deployment =
  dpChainID :: "64 word"
  dpDeploymentID :: string
  dpName :: string
  dpEnvironment :: Environment
  dpFactory :: Address
  dpStartBlock :: "64 word"
  dpEngineVersion :: "16 word"
  dpCurveImplementation :: Address
  dpUniV2Factory :: Address
  dpWETH :: Address
  dpPairInitCodeHash :: Hash
  dpLPBurnAddress :: Address
  dpBytecodeHashes :: BytecodeHashes
  dpDeployTransaction :: Hash
  dpExplorerBase :: string

datatype registry_error =
    ValidationError string string
  | DisabledConflict "64 word"
  | DeploymentNotFound "64 word" string
  | DeploymentDisabled "64 word" string
  | ChainMismatch "64 word" "64 word"
  | ConfirmationsNotAllowed Environment
  | ManifestUnreadable string

text \<open>The two Go maps are association lists, in the order of insertion.\<close>

record Registry =
  rgDeployments :: "((64 word \<times> string) \<times> Deployment) list"
  rgDisabled :: "(64 word \<times> string) list"

section \<open>Raw manifests\<close>

record rawBytecodeHashes =
  rbLaunchFactory :: string
  rbBondingCurveV1 :: string
  rbUniswapV2Factory :: string
  rbWETH :: string

record rawDeployment =
  rwSchemaVersion :: "16 word"
  rwDeploymentID :: string
  rwName :: string
  rwEnvironment :: Environment
  rwChainID :: "64 word"
  rwFactory :: string
  rwStartBlock :: "64 word"
  rwEngineVersion :: "16 word"
  rwCurveImplementation :: string
  rwUniswapV2Factory :: string
  rwWETH :: string
  rwPairInitCodeHash :: string
  rwLPBurnAddress :: string
  rwExplorerBase :: string
  rwGraduationEnabled :: bool
  rwDeployTransaction :: string
  rwBytecodeHashes :: rawBytecodeHashes

record rawDependencies =
  rdWETH :: string
  rdUniswapV2Factory :: string
  rdUniswapV2Router02 :: string
  rdPairInitCodeHash :: string
  rdBytecodeWETH :: string
  rdBytecodeUniswapV2Factory :: string
  rdBytecodeUniswapV2Pair :: string

record rawDisabled =
  rsChainID :: "64 word"
  rsReason :: string

text \<open>The library functions the loader calls.\<close>

record hex_codec =
  hxIsHexAddress :: "string \<Rightarrow> bool"
  hxHexToAddress :: "string \<Rightarrow> Address"
  hxHexToHash :: "string \<Rightarrow> Hash"
  hxBytesToHash :: "8 word list \<Rightarrow> Hash"

record 'd json_codec =
  jcDocument :: "string \<Rightarrow> string + 'd"
  jcCompile :: "string \<Rightarrow> 'd \<Rightarrow> string + ('d \<Rightarrow> string option)"
  jcDeployment :: "string \<Rightarrow> string + rawDeployment"
  jcDependencies :: "string \<Rightarrow> string + rawDependencies"
  jcDisabled :: "string \<Rightarrow> string + rawDisabled"

section \<open>Validation\<close>

fun hex_digit :: "char \<Rightarrow> 8 word option" where
  "hex_digit c =
     (if CHR ''0'' \<le> c \<and> c \<le> CHR ''9'' then Some (of_nat (of_char c - 48))
      else if CHR ''a'' \<le> c \<and> c \<le> CHR ''f'' then Some (of_nat (of_char c - 87))
      else if CHR ''A'' \<le> c \<and> c \<le> CHR ''F'' then Some (of_nat (of_char c - 55))
      else None)"

text \<open>\<^verbatim>\<open>hex.DecodeString\<close>: pairs of digits, with an error on a bad digit or an odd length.\<close>

fun hex_DecodeString :: "string \<Rightarrow> 8 word list option" where
  "hex_DecodeString [] = Some []"
| "hex_DecodeString [_] = None"
| "hex_DecodeString (a # b # cs) =
     (case (hex_digit a, hex_digit b, hex_DecodeString cs) of
        (Some x, Some y, Some bs) \<Rightarrow> Some ((16 * x + y) # bs)
      | _ \<Rightarrow> None)"

definition lpBurnAddress :: Address where "lpBurnAddress = 0xdEaD"

definition supportedEngines :: "16 word list" where "supportedEngines = [1]"

definition requireAddress :: "hex_codec \<Rightarrow> string \<Rightarrow> string \<Rightarrow> bool \<Rightarrow> string + unit" where
  "requireAddress hx name value nonZero =
     (if \<not> hxIsHexAddress hx value then Inl (name @ '' is not a valid address'')
      else if nonZero \<and> hxHexToAddress hx value = 0 then Inl (name @ '' is zero'')
      else Inr ())"

definition requireHash :: "hex_codec \<Rightarrow> string \<Rightarrow> string \<Rightarrow> string + unit" where
  "requireHash hx name value =
     (if length value \<noteq> 66 \<or> \<not> prefix ''0x'' value then Inl (name @ '' is not a non-zero 32-byte hash'')
      else case hex_DecodeString (drop 2 value) of
        None \<Rightarrow> Inl (name @ '' is not a non-zero 32-byte hash'')
      | Some decoded \<Rightarrow>
        if hxBytesToHash hx decoded = 0 then Inl (name @ '' is not a non-zero 32-byte hash'') else Inr ())"

text \<open>
  The loops over a map literal visit its entries in an unspecified order; the order below decides
  only which of several invalid fields is named.
\<close>

definition requireHashes :: "hex_codec \<Rightarrow> (string \<times> string) list \<Rightarrow> string + unit" where
  "requireHashes hx named = rfold (\<lambda>(name, value) _. requireHash hx name value) named ()"

definition requireAddresses :: "hex_codec \<Rightarrow> bool \<Rightarrow> (string \<times> string) list \<Rightarrow> string + unit" where
  "requireAddresses hx nonZero named = rfold (\<lambda>(name, value) _. requireAddress hx name value nonZero) named ()"

definition validateRawDeployment :: "hex_codec \<Rightarrow> rawDeployment \<Rightarrow> string + unit" where
  "validateRawDeployment hx raw =
     (if rwSchemaVersion raw \<noteq> 1 then Inl ''unsupported schema version''
      else if rwEnvironment raw \<notin> set [EnvironmentLocal, EnvironmentTestnet, EnvironmentProduction]
      then Inl ''unknown environment''
      else if rwEngineVersion raw \<notin> set supportedEngines then Inl ''unsupported engine version''
      else if \<not> rwGraduationEnabled raw then Inl ''graduation must be enabled''
      else if rwStartBlock raw = 0 \<and> rwEnvironment raw \<noteq> EnvironmentLocal
      then Inl ''start block zero is allowed only for local deployments''
      else
      rbind (requireAddress hx ''factory'' (rwFactory raw) True) (\<lambda>_.
      rbind (requireAddress hx ''curve implementation'' (rwCurveImplementation raw) True) (\<lambda>_.
      rbind (requireAddresses hx False
          [(''uniswap v2 factory'', rwUniswapV2Factory raw), (''weth'', rwWETH raw),
           (''lp burn address'', rwLPBurnAddress raw)]) (\<lambda>_.
      if hxHexToAddress hx (rwLPBurnAddress raw) \<noteq> lpBurnAddress then Inl ''lp burn address is not canonical''
      else requireHashes hx
          [(''pair init code'', rwPairInitCodeHash raw), (''deploy transaction'', rwDeployTransaction raw),
           (''launch factory bytecode'', rbLaunchFactory (rwBytecodeHashes raw)),
           (''bonding curve bytecode'', rbBondingCurveV1 (rwBytecodeHashes raw)),
           (''uniswap factory bytecode'', rbUniswapV2Factory (rwBytecodeHashes raw)),
           (''weth bytecode'', rbWETH (rwBytecodeHashes raw))]))))"

section \<open>Artifacts\<close>

definition in_file :: "string \<Rightarrow> string + 'a \<Rightarrow> registry_error + 'a" where
  "in_file filePath r = (case r of Inl err \<Rightarrow> Inl (ValidationError filePath err) | Inr v \<Rightarrow> Inr v)"

definition validateOnly :: "'d json_codec \<Rightarrow> string \<Rightarrow> string \<Rightarrow> ('d \<Rightarrow> string option) \<Rightarrow> registry_error + unit" where
  "validateOnly js filePath body schema =
     rbind (in_file filePath (jcDocument js body)) (\<lambda>document.
     case schema document of Some err \<Rightarrow> Inl (ValidationError filePath err) | None \<Rightarrow> Inr ())"

definition validateDependencies ::
    "hex_codec \<Rightarrow> 'd json_codec \<Rightarrow> string \<Rightarrow> string \<Rightarrow> ('d \<Rightarrow> string option) \<Rightarrow> registry_error + unit" where
  "validateDependencies hx js filePath body schema =
     rbind (validateOnly js filePath body schema) (\<lambda>_.
     rbind (in_file filePath (jcDependencies js body)) (\<lambda>raw.
     rbind (in_file filePath (requireAddresses hx True
         [(''weth'', rdWETH raw), (''uniswap v2 factory'', rdUniswapV2Factory raw)])) (\<lambda>_.
     rbind (if rdUniswapV2Router02 raw \<noteq> []
            then in_file filePath (requireAddress hx ''uniswap v2 router'' (rdUniswapV2Router02 raw) True)
            else Inr ()) (\<lambda>_.
     in_file filePath (requireHashes hx
         [(''pair init code'', rdPairInitCodeHash raw), (''weth bytecode'', rdBytecodeWETH raw),
          (''uniswap factory bytecode'', rdBytecodeUniswapV2Factory raw),
          (''uniswap pair bytecode'', rdBytecodeUniswapV2Pair raw)])))))"

definition deployment_of :: "hex_codec \<Rightarrow> rawDeployment \<Rightarrow> Deployment" where
  "deployment_of hx raw =
     \<lparr>dpChainID = rwChainID raw, dpDeploymentID = rwDeploymentID raw, dpName = rwName raw,
      dpEnvironment = rwEnvironment raw, dpFactory = hxHexToAddress hx (rwFactory raw),
      dpStartBlock = rwStartBlock raw, dpEngineVersion = rwEngineVersion raw,
      dpCurveImplementation = hxHexToAddress hx (rwCurveImplementation raw),
      dpUniV2Factory = hxHexToAddress hx (rwUniswapV2Factory raw), dpWETH = hxHexToAddress hx (rwWETH raw),
      dpPairInitCodeHash = hxHexToHash hx (rwPairInitCodeHash raw),
      dpLPBurnAddress = hxHexToAddress hx (rwLPBurnAddress raw),
      dpBytecodeHashes = \<lparr>bhLaunchFactory = hxHexToHash hx (rbLaunchFactory (rwBytecodeHashes raw)),
        bhBondingCurveV1 = hxHexToHash hx (rbBondingCurveV1 (rwBytecodeHashes raw)),
        bhUniswapV2Factory = hxHexToHash hx (rbUniswapV2Factory (rwBytecodeHashes raw)),
        bhWETH = hxHexToHash hx (rbWETH (rwBytecodeHashes raw))\<rparr>,
      dpDeployTransaction = hxHexToHash hx (rwDeployTransaction raw), dpExplorerBase = rwExplorerBase raw\<rparr>"

definition parseDeployment ::
    "hex_codec \<Rightarrow> 'd json_codec \<Rightarrow> string \<Rightarrow> string \<Rightarrow> ('d \<Rightarrow> string option) \<Rightarrow> registry_error + Deployment" where
  "parseDeployment hx js filePath body schema =
     rbind (validateOnly js filePath body schema) (\<lambda>_.
     rbind (in_file filePath (jcDeployment js body)) (\<lambda>raw.
     rbind (in_file filePath (validateRawDeployment hx raw)) (\<lambda>_.
     Inr (deployment_of hx raw))))"

definition addDisabled ::
    "'d json_codec \<Rightarrow> string \<Rightarrow> string \<Rightarrow> ('d \<Rightarrow> string option) \<Rightarrow> Registry \<Rightarrow> registry_error + Registry" where
  "addDisabled js filePath body schema r =
     rbind (validateOnly js filePath body schema) (\<lambda>_.
     rbind (in_file filePath (jcDisabled js body)) (\<lambda>marker.
     if map_of (rgDisabled r) (rsChainID marker) \<noteq> None
     then Inl (ValidationError filePath ''chain has multiple disabled markers'')
     else Inr (r\<lparr>rgDisabled := AList.update (rsChainID marker) (rsReason marker) (rgDisabled r)\<rparr>)))"

section \<open>File systems\<close>

type_synonym file_system = "(string \<times> (string + string)) list"

definition fs_ReadFile :: "file_system \<Rightarrow> string \<Rightarrow> string + string" where
  "fs_ReadFile fsys name = (case map_of fsys name of Some r \<Rightarrow> r | None \<Rightarrow> Inl ''file does not exist'')"

fun path_cons :: "char \<Rightarrow> string list \<Rightarrow> string list" where
  "path_cons c [] = [[c]]"
| "path_cons c (e # es) = (if c = CHR ''/'' then [] # e # es else (c # e) # es)"

fun path_elements :: "string \<Rightarrow> string list" where
  "path_elements [] = [[]]"
| "path_elements (c # cs) = path_cons c (path_elements cs)"

text \<open>
  \<^verbatim>\<open>fs.WalkDir\<close> visits a directory's entries in the order of their names, so the files come in
  the lexical order of their path elements.
\<close>

definition walk_order :: "file_system \<Rightarrow> string list" where
  "walk_order fsys = sort_key path_elements (remdups (map fst fsys))"

definition path_Ext :: "string \<Rightarrow> string" where
  "path_Ext p = (let base = last (path_elements p) in
     if CHR ''.'' \<in> set base then CHR ''.'' # rev (takeWhile (\<lambda>c. c \<noteq> CHR ''.'') (rev base)) else [])"

section \<open>Loading\<close>

definition deploymentSchemaPath :: string where "deploymentSchemaPath = ''deployment.schema.json''"
definition dependenciesSchemaPath :: string where "dependenciesSchemaPath = ''chain-dependencies.schema.json''"
definition disabledSchemaPath :: string where "disabledSchemaPath = ''chain-disabled.schema.json''"

record 'd compiledSchemas =
  coDeployment :: "'d \<Rightarrow> string option"
  coDependencies :: "'d \<Rightarrow> string option"
  coDisabled :: "'d \<Rightarrow> string option"

definition compileSchema :: "'d json_codec \<Rightarrow> file_system \<Rightarrow> string \<Rightarrow> registry_error + ('d \<Rightarrow> string option)" where
  "compileSchema js fsys schemaPath =
     rbind (in_file schemaPath (fs_ReadFile fsys schemaPath)) (\<lambda>body.
     rbind (in_file schemaPath (jcDocument js body)) (\<lambda>document.
     in_file schemaPath (jcCompile js schemaPath document)))"

definition compileSchemas :: "'d json_codec \<Rightarrow> file_system \<Rightarrow> registry_error + 'd compiledSchemas" where
  "compileSchemas js fsys =
     rbind (compileSchema js fsys deploymentSchemaPath) (\<lambda>deployment.
     rbind (compileSchema js fsys dependenciesSchemaPath) (\<lambda>dependencies.
     rbind (compileSchema js fsys disabledSchemaPath) (\<lambda>disabled.
     Inr \<lparr>coDeployment = deployment, coDependencies = dependencies, coDisabled = disabled\<rparr>)))"

text \<open>What the walk does with a file, by its path.\<close>

datatype artifact_kind = Ignored | DisabledMarker | Dependencies | Manifest

definition artifact_kind_of :: "string \<Rightarrow> artifact_kind" where
  "artifact_kind_of filePath =
     (if path_Ext filePath \<noteq> ''.json'' \<or> suffix ''.schema.json'' filePath then Ignored
      else if suffix ''.disabled.json'' filePath then DisabledMarker
      else if prefix ''config/'' filePath then Dependencies
      else Manifest)"

text \<open>The variables of the walk: the registry and the path each deployment ID came from.\<close>

record load_state =
  lsRegistry :: Registry
  lsIDs :: "(string \<times> string) list"

definition addDeployment :: "string \<Rightarrow> Deployment \<Rightarrow> load_state \<Rightarrow> registry_error + load_state" where
  "addDeployment filePath deployment s =
     (let key = (dpChainID deployment, dpDeploymentID deployment) in
      if map_of (lsIDs s) (dpDeploymentID deployment) \<noteq> None
      then Inl (ValidationError filePath ''deployment id duplicates'')
      else if map_of (rgDeployments (lsRegistry s)) key \<noteq> None
      then Inl (ValidationError filePath ''deployment key is duplicated'')
      else Inr \<lparr>lsRegistry = (lsRegistry s)\<lparr>rgDeployments := AList.update key deployment (rgDeployments (lsRegistry s))\<rparr>,
        lsIDs = AList.update (dpDeploymentID deployment) filePath (lsIDs s)\<rparr>)"

definition visitFile ::
    "hex_codec \<Rightarrow> 'd json_codec \<Rightarrow> 'd compiledSchemas \<Rightarrow> file_system \<Rightarrow> string \<Rightarrow> load_state \<Rightarrow> registry_error + load_state" where
  "visitFile hx js validators fsys filePath s =
     (if artifact_kind_of filePath = Ignored then Inr s
      else
      rbind (in_file filePath (fs_ReadFile fsys filePath)) (\<lambda>body.
      case artifact_kind_of filePath of
        DisabledMarker \<Rightarrow> rbind (addDisabled js filePath body (coDisabled validators) (lsRegistry s))
          (\<lambda>r. Inr (s\<lparr>lsRegistry := r\<rparr>))
      | Dependencies \<Rightarrow> rbind (validateDependencies hx js filePath body (coDependencies validators)) (\<lambda>_. Inr s)
      | _ \<Rightarrow> rbind (parseDeployment hx js filePath body (coDeployment validators))
          (\<lambda>deployment. addDeployment filePath deployment s)))"

definition emptyRegistry :: Registry where
  "emptyRegistry = \<lparr>rgDeployments = [], rgDisabled = []\<rparr>"

text \<open>
  The final loop over the deployments; which of several chains with a disabled marker is named is
  unspecified in the source.
\<close>

definition checkDisabled :: "Registry \<Rightarrow> registry_error + unit" where
  "checkDisabled r = rfold (\<lambda>(_, deployment) _.
     if map_of (rgDisabled r) (dpChainID deployment) \<noteq> None then Inl (DisabledConflict (dpChainID deployment))
     else Inr ()) (rgDeployments r) ()"

definition Load :: "hex_codec \<Rightarrow> 'd json_codec \<Rightarrow> file_system \<Rightarrow> registry_error + Registry" where
  "Load hx js fsys =
     rbind (compileSchemas js fsys) (\<lambda>validators.
     rbind (rfold (visitFile hx js validators fsys) (walk_order fsys)
         \<lparr>lsRegistry = emptyRegistry, lsIDs = []\<rparr>) (\<lambda>s.
     rbind (checkDisabled (lsRegistry s)) (\<lambda>_.
     Inr (lsRegistry s))))"

text \<open>
  \<open>embedded\<close> are the files of the embedded file system; a manifest given by path is read from the
  disk (\<open>readOS\<close>) and joins a copy of them.
\<close>

definition LoadEmbedded :: "hex_codec \<Rightarrow> 'd json_codec \<Rightarrow> file_system \<Rightarrow> registry_error + Registry" where
  "LoadEmbedded hx js embedded = Load hx js embedded"

definition is_space :: "char \<Rightarrow> bool" where
  "is_space c \<longleftrightarrow> c \<in> {CHR '' '', CHR 0x09, CHR 0x0A, CHR 0x0B, CHR 0x0C, CHR 0x0D}"

definition TrimSpace :: "string \<Rightarrow> string" where
  "TrimSpace s = rev (dropWhile is_space (rev (dropWhile is_space s)))"

definition copyFiles :: "file_system \<Rightarrow> registry_error + file_system" where
  "copyFiles fsys = rfold (\<lambda>filePath files. case fs_ReadFile fsys filePath of
       Inl err \<Rightarrow> Inl (ManifestUnreadable err)
     | Inr contents \<Rightarrow> Inr (AList.update filePath (Inr contents) files)) (walk_order fsys) []"

definition LoadEmbeddedWithManifest ::
    "hex_codec \<Rightarrow> 'd json_codec \<Rightarrow> (string \<Rightarrow> string + string) \<Rightarrow> file_system \<Rightarrow> string \<Rightarrow> registry_error + Registry" where
  "LoadEmbeddedWithManifest hx js readOS embedded manifestPath =
     (if TrimSpace manifestPath = [] then LoadEmbedded hx js embedded
      else case readOS (TrimSpace manifestPath) of
        Inl err \<Rightarrow> Inl (ManifestUnreadable err)
      | Inr body \<Rightarrow> rbind (copyFiles embedded) (\<lambda>files.
          Load hx js (AList.update ''e2e/deployment.json'' (Inr body) files)))"

section \<open>Selection\<close>

text \<open>A nil registry pointer is \<open>None\<close>.\<close>

definition Lookup :: "Registry option \<Rightarrow> 64 word \<Rightarrow> string \<Rightarrow> registry_error + Deployment" where
  "Lookup registry chainID deploymentID =
     (case registry of
        None \<Rightarrow> Inl (DeploymentNotFound chainID deploymentID)
      | Some r \<Rightarrow>
        case map_of (rgDisabled r) chainID of
          Some reason \<Rightarrow> Inl (DeploymentDisabled chainID reason)
        | None \<Rightarrow>
          case map_of (rgDeployments r) (chainID, deploymentID) of
            None \<Rightarrow> Inl (DeploymentNotFound chainID deploymentID)
          | Some deployment \<Rightarrow> Inr deployment)"

definition ReconcileConfig :: "64 word \<Rightarrow> 64 word option \<Rightarrow> Deployment \<Rightarrow> registry_error + unit" where
  "ReconcileConfig chainID indexerConfirmations deployment =
     (if chainID \<noteq> dpChainID deployment then Inl (ChainMismatch chainID (dpChainID deployment))
      else if indexerConfirmations \<noteq> None \<and> dpEnvironment deployment \<noteq> EnvironmentLocal
      then Inl (ConfirmationsNotAllowed (dpEnvironment deployment))
      else Inr ())"

definition Resolve :: "Registry option \<Rightarrow> 64 word \<Rightarrow> string \<Rightarrow> 64 word option \<Rightarrow> registry_error + Deployment" where
  "Resolve registry chainID deploymentID indexerConfirmations =
     rbind (Lookup registry chainID deploymentID) (\<lambda>deployment.
     rbind (ReconcileConfig chainID indexerConfirmations deployment) (\<lambda>_.
     Inr deployment))"

section \<open>The loaded registry\<close>

lemma in_file_Inr [result_iff]: "in_file p r = Inr v \<longleftrightarrow> r = Inr v"
  by (cases r) (auto simp: in_file_def)

definition dkey :: "Deployment \<Rightarrow> 64 word \<times> string" where
  "dkey d = (dpChainID d, dpDeploymentID d)"

text \<open>The deployment that a file of the walk contributes.\<close>

definition manifest_of :: "hex_codec \<Rightarrow> 'd json_codec \<Rightarrow> 'd compiledSchemas \<Rightarrow> file_system \<Rightarrow> string \<Rightarrow> Deployment set" where
  "manifest_of hx js validators fsys p = {d. artifact_kind_of p = Manifest \<and>
     (\<exists>body. fs_ReadFile fsys p = Inr body \<and> parseDeployment hx js p body (coDeployment validators) = Inr d)}"

definition loaded :: "load_state \<Rightarrow> Deployment set \<Rightarrow> bool" where
  "loaded s M \<longleftrightarrow> set (rgDeployments (lsRegistry s)) = (\<lambda>d. (dkey d, d)) ` M
     \<and> fst ` set (lsIDs s) = dpDeploymentID ` M \<and> inj_on dpDeploymentID M"

lemma addDeployment_loaded:
  assumes "loaded s M" "addDeployment p d s = Inr s'"
  shows "loaded s' (insert d M)"
proof -
  have new: "dpDeploymentID d \<notin> fst ` set (lsIDs s)" "dkey d \<notin> fst ` set (rgDeployments (lsRegistry s))"
    and s': "s' = \<lparr>lsRegistry = (lsRegistry s)\<lparr>rgDeployments := AList.update (dkey d) d (rgDeployments (lsRegistry s))\<rparr>,
        lsIDs = AList.update (dpDeploymentID d) p (lsIDs s)\<rparr>"
    using assms(2) by (auto simp: addDeployment_def Let_def dkey_def map_of_eq_None_iff split: if_splits)
  show ?thesis
    using assms(1) new unfolding s' loaded_def by (auto simp: update_fresh)
qed

lemma addDisabled_deployments:
  "addDisabled js p body schema r = Inr r' \<Longrightarrow> rgDeployments r' = rgDeployments r"
  by (auto simp: addDisabled_def result_iff)

lemma visitFile_loaded:
  assumes "loaded s M" "visitFile hx js v fsys p s = Inr s'"
  shows "loaded s' (M \<union> manifest_of hx js v fsys p)"
proof (cases "artifact_kind_of p")
  case Manifest
  then obtain body d where b: "fs_ReadFile fsys p = Inr body" "parseDeployment hx js p body (coDeployment v) = Inr d"
    "addDeployment p d s = Inr s'"
    using assms(2) by (auto simp: visitFile_def result_iff)
  then have "manifest_of hx js v fsys p = {d}" using Manifest by (auto simp: manifest_of_def)
  then show ?thesis using addDeployment_loaded[OF assms(1) b(3)] by simp
next
  case Ignored
  then show ?thesis using assms by (simp add: visitFile_def manifest_of_def)
next
  case Dependencies
  then have "s' = s" using assms(2) by (auto simp: visitFile_def result_iff)
  then show ?thesis using assms(1) Dependencies by (simp add: manifest_of_def)
next
  case DisabledMarker
  then obtain body r where "addDisabled js p body (coDisabled v) (lsRegistry s) = Inr r" "s' = s\<lparr>lsRegistry := r\<rparr>"
    using assms(2) by (auto simp: visitFile_def result_iff)
  then have "rgDeployments (lsRegistry s') = rgDeployments (lsRegistry s)" "lsIDs s' = lsIDs s"
    by (auto dest: addDisabled_deployments)
  then show ?thesis using assms(1) DisabledMarker by (simp add: manifest_of_def loaded_def)
qed

lemma walk_loaded:
  "rfold (visitFile hx js v fsys) ps s = Inr s' \<Longrightarrow> loaded s M \<Longrightarrow>
   loaded s' (M \<union> (\<Union>p \<in> set ps. manifest_of hx js v fsys p))"
proof (induction ps arbitrary: s M)
  case (Cons p ps)
  then obtain t where t: "visitFile hx js v fsys p s = Inr t" "rfold (visitFile hx js v fsys) ps t = Inr s'"
    by (auto simp: result_iff)
  show ?case using Cons.IH[OF t(2) visitFile_loaded[OF Cons.prems(2) t(1)]] by (simp add: Un_assoc)
qed simp

definition manifests :: "hex_codec \<Rightarrow> 'd json_codec \<Rightarrow> file_system \<Rightarrow> Deployment set" where
  "manifests hx js fsys = {d. \<exists>v p. compileSchemas js fsys = Inr v \<and> p \<in> fst ` set fsys \<and> d \<in> manifest_of hx js v fsys p}"

lemma set_walk_order [simp]: "set (walk_order fsys) = fst ` set fsys"
  by (simp add: walk_order_def)

lemma Load_loaded:
  assumes "Load hx js fsys = Inr r"
  shows "set (rgDeployments r) = (\<lambda>d. (dkey d, d)) ` manifests hx js fsys"
    and "inj_on dpDeploymentID (manifests hx js fsys)"
    and "d \<in> manifests hx js fsys \<Longrightarrow> map_of (rgDisabled r) (dpChainID d) = None"
proof -
  from assms obtain v s where v: "compileSchemas js fsys = Inr v"
    and w: "rfold (visitFile hx js v fsys) (walk_order fsys) \<lparr>lsRegistry = emptyRegistry, lsIDs = []\<rparr> = Inr s"
    and c: "checkDisabled r = Inr ()" and r: "r = lsRegistry s"
    by (auto simp: Load_def result_iff)
  have "loaded \<lparr>lsRegistry = emptyRegistry, lsIDs = []\<rparr> {}" by (simp add: loaded_def emptyRegistry_def)
  from walk_loaded[OF w this] have l: "loaded s (manifests hx js fsys)"
    using v by (simp add: manifests_def UNION_eq Bex_def)
  then show *: "set (rgDeployments r) = (\<lambda>d. (dkey d, d)) ` manifests hx js fsys"
    and "inj_on dpDeploymentID (manifests hx js fsys)" by (simp_all add: loaded_def r)
  show "map_of (rgDisabled r) (dpChainID d) = None" if "d \<in> manifests hx js fsys"
    using c * that unfolding checkDisabled_def case_prod_unfold by (auto simp: rfold_check result_iff)
qed

lemma map_of_keyed:
  assumes "set al = (\<lambda>d. (k d, d)) ` M" "inj_on k M"
  shows "map_of al x = Some d \<longleftrightarrow> d \<in> M \<and> k d = x"
proof
  assume "map_of al x = Some d"
  then show "d \<in> M \<and> k d = x" using map_of_SomeD[of al x d] assms(1) by auto
next
  assume d: "d \<in> M \<and> k d = x"
  then have "x \<in> fst ` set al" using assms(1) by force
  then obtain e where e: "map_of al x = Some e" by (metis map_of_eq_None_iff option.exhaust)
  then have "e \<in> M" "k e = x" using map_of_SomeD[of al x e] assms(1) by auto
  then show "map_of al x = Some d" using d e assms(2) by (simp add: inj_on_def)
qed

lemma Lookup_loaded:
  assumes "Load hx js fsys = Inr r"
  shows "Lookup (Some r) c i = Inr d \<longleftrightarrow> d \<in> manifests hx js fsys \<and> dkey d = (c, i)"
proof -
  note l = Load_loaded[OF assms]
  have "inj_on dkey (manifests hx js fsys)" using l(2) by (auto simp: inj_on_def dkey_def)
  then have "map_of (rgDeployments r) (c, i) = Some d \<longleftrightarrow> d \<in> manifests hx js fsys \<and> dkey d = (c, i)"
    by (rule map_of_keyed[OF l(1)])
  moreover have "Lookup (Some r) c i = Inr d \<longleftrightarrow>
      map_of (rgDisabled r) c = None \<and> map_of (rgDeployments r) (c, i) = Some d"
    by (auto simp: Lookup_def split: option.splits)
  ultimately show ?thesis using l(3)[of d] by (auto simp: dkey_def)
qed

text \<open>What review demands of a deployment, whatever file it came from.\<close>

definition reviewed :: "Deployment \<Rightarrow> bool" where
  "reviewed d \<longleftrightarrow> dpEngineVersion d = 1
     \<and> dpEnvironment d \<in> {EnvironmentLocal, EnvironmentTestnet, EnvironmentProduction}
     \<and> (dpStartBlock d = 0 \<longrightarrow> dpEnvironment d = EnvironmentLocal)
     \<and> dpFactory d \<noteq> 0 \<and> dpCurveImplementation d \<noteq> 0 \<and> dpLPBurnAddress d = 0xdEaD
     \<and> 0 \<notin> {dpPairInitCodeHash d, dpDeployTransaction d, bhLaunchFactory (dpBytecodeHashes d),
         bhBondingCurveV1 (dpBytecodeHashes d), bhUniswapV2Factory (dpBytecodeHashes d), bhWETH (dpBytecodeHashes d)}"

text \<open>go-ethereum documents \<open>HexToHash\<close> as the hash of the decoded bytes after the prefix.\<close>

definition hash_documented :: "hex_codec \<Rightarrow> bool" where
  "hash_documented hx \<longleftrightarrow>
     (\<forall>s bytes. hex_DecodeString s = Some bytes \<longrightarrow> hxHexToHash hx (''0x'' @ s) = hxBytesToHash hx bytes)"

lemma requireHash_nonzero:
  assumes "hash_documented hx" "requireHash hx name value = Inr u"
  shows "hxHexToHash hx value \<noteq> 0"
proof -
  from assms(2) obtain bytes where p: "prefix ''0x'' value" "hex_DecodeString (drop 2 value) = Some bytes"
    "hxBytesToHash hx bytes \<noteq> 0"
    by (auto simp: requireHash_def split: if_splits option.splits)
  then have "value = ''0x'' @ drop 2 value" by (auto simp: prefix_def)
  then show ?thesis using assms(1) p by (metis hash_documented_def)
qed

lemma requireAddress_Inr: "requireAddress hx name value nz = Inr u \<Longrightarrow> nz \<Longrightarrow> hxHexToAddress hx value \<noteq> 0"
  by (auto simp: requireAddress_def split: if_splits)

lemma validated_reviewed:
  assumes "hash_documented hx" "validateRawDeployment hx raw = Inr u"
  shows "reviewed (deployment_of hx raw)"
proof -
  from assms(2) have "hxHexToAddress hx (rwFactory raw) \<noteq> 0" "hxHexToAddress hx (rwCurveImplementation raw) \<noteq> 0"
    by (auto simp: validateRawDeployment_def result_iff dest: requireAddress_Inr)
  moreover from assms(2) have "\<forall>value \<in> {rwPairInitCodeHash raw, rwDeployTransaction raw,
      rbLaunchFactory (rwBytecodeHashes raw), rbBondingCurveV1 (rwBytecodeHashes raw),
      rbUniswapV2Factory (rwBytecodeHashes raw), rbWETH (rwBytecodeHashes raw)}. hxHexToHash hx value \<noteq> 0"
    by (auto simp: validateRawDeployment_def requireHashes_def result_iff dest: requireHash_nonzero[OF assms(1)])
  ultimately show ?thesis
    using assms(2) unfolding reviewed_def
    by (auto simp: validateRawDeployment_def deployment_of_def supportedEngines_def lpBurnAddress_def result_iff)
qed

lemma Lookup_reviewed:
  assumes "Load hx js fsys = Inr r" "hash_documented hx" "Lookup (Some r) chainID deploymentID = Inr d"
  shows "reviewed d"
proof -
  have "d \<in> manifests hx js fsys" using assms(3) by (simp add: Lookup_loaded[OF assms(1)])
  then show ?thesis using validated_reviewed[OF assms(2)]
    by (auto simp: manifests_def manifest_of_def parseDeployment_def result_iff)
qed

section \<open>A registry\<close>

fun bytes_word :: "8 word list \<Rightarrow> 'a::len word \<Rightarrow> 'a word" where
  "bytes_word [] acc = acc"
| "bytes_word (b # bs) acc = bytes_word bs (acc * 256 + ucast b)"

fun demo_hex_word :: "string \<Rightarrow> 'a::len word" where
  "demo_hex_word s = (case hex_DecodeString (drop 2 s) of Some bs \<Rightarrow> bytes_word bs 0 | None \<Rightarrow> 0)"

definition demo_hex :: hex_codec where
  "demo_hex = \<lparr>hxIsHexAddress = (\<lambda>s. length s = 42), hxHexToAddress = demo_hex_word, hxHexToHash = demo_hex_word,
     hxBytesToHash = (\<lambda>bs. bytes_word bs 0)\<rparr>"

definition demo_address :: string where "demo_address = ''0x000000000000000000000000000000000000dEaD''"

definition demo_hash :: string where
  "demo_hash = ''0x0000000000000000000000000000000000000000000000000000000000000001''"

definition demo_raw :: rawDeployment where
  "demo_raw = \<lparr>rwSchemaVersion = 1, rwDeploymentID = ''demo-v1'', rwName = ''Demo'', rwEnvironment = EnvironmentTestnet,
     rwChainID = 7, rwFactory = demo_address, rwStartBlock = 5, rwEngineVersion = 1,
     rwCurveImplementation = demo_address, rwUniswapV2Factory = demo_address, rwWETH = demo_address,
     rwPairInitCodeHash = demo_hash, rwLPBurnAddress = demo_address, rwExplorerBase = [],
     rwGraduationEnabled = True, rwDeployTransaction = demo_hash,
     rwBytecodeHashes = \<lparr>rbLaunchFactory = demo_hash, rbBondingCurveV1 = demo_hash,
       rbUniswapV2Factory = demo_hash, rbWETH = demo_hash\<rparr>\<rparr>"

definition demo_json :: "unit json_codec" where
  "demo_json = \<lparr>jcDocument = (\<lambda>_. Inr ()), jcCompile = (\<lambda>_ _. Inr (\<lambda>_. None)),
     jcDeployment = (\<lambda>_. Inr demo_raw), jcDependencies = (\<lambda>_. Inl ''none''),
     jcDisabled = (\<lambda>_. Inr \<lparr>rsChainID = 9, rsReason = ''sunset''\<rparr>)\<rparr>"

definition demo_files :: file_system where
  "demo_files = [(deploymentSchemaPath, Inr []), (dependenciesSchemaPath, Inr []), (disabledSchemaPath, Inr []),
     (''README.md'', Inr []), (''demo.json'', Inr []), (''old.disabled.json'', Inr [])]"

definition demo_registry :: Registry where
  "demo_registry = \<lparr>rgDeployments = [((7, ''demo-v1''), deployment_of demo_hex demo_raw)], rgDisabled = [(9, ''sunset'')]\<rparr>"

lemma demo_valid: "validateRawDeployment demo_hex demo_raw = Inr ()"
  by code_simp

lemmas schema_paths = deploymentSchemaPath_def dependenciesSchemaPath_def disabledSchemaPath_def

lemma demo_walk: "walk_order demo_files =
    [''README.md'', dependenciesSchemaPath, disabledSchemaPath, ''demo.json'', deploymentSchemaPath, ''old.disabled.json'']"
  by (simp add: walk_order_def demo_files_def schema_paths less_eq_char_simp less_char_simp)

lemma demo_kinds:
  "artifact_kind_of ''README.md'' = Ignored \<and> artifact_kind_of ''demo.json'' = Manifest
   \<and> artifact_kind_of ''old.disabled.json'' = DisabledMarker
   \<and> (\<forall>p \<in> {deploymentSchemaPath, dependenciesSchemaPath, disabledSchemaPath}. artifact_kind_of p = Ignored)"
  by (simp add: artifact_kind_of_def path_Ext_def schema_paths suffix_to_prefix)

lemma demo_lookup:
  "fs_ReadFile demo_files ''demo.json'' = Inr [] \<and> fs_ReadFile demo_files ''old.disabled.json'' = Inr []"
  "p \<in> {deploymentSchemaPath, dependenciesSchemaPath, disabledSchemaPath} \<Longrightarrow> fs_ReadFile demo_files p = Inr []"
  by (auto simp: fs_ReadFile_def demo_files_def schema_paths)

lemma demo_load: "Load demo_hex demo_json demo_files = Inr demo_registry"
proof -
  define v where "v = \<lparr>coDeployment = (\<lambda>_. None), coDependencies = (\<lambda>_. None), coDisabled = (\<lambda>_::unit. None :: string option)\<rparr>"
  have "compileSchemas demo_json demo_files = Inr v"
    by (simp add: compileSchemas_def compileSchema_def demo_lookup demo_json_def in_file_def v_def)
  moreover have "parseDeployment demo_hex demo_json p b (coDeployment v) = Inr (deployment_of demo_hex demo_raw)" for p b
    by (simp add: parseDeployment_def validateOnly_def demo_json_def in_file_def v_def demo_valid)
  moreover have "dpChainID (deployment_of demo_hex demo_raw) = 7" "dpDeploymentID (deployment_of demo_hex demo_raw) = ''demo-v1''"
    by (simp_all add: deployment_of_def demo_raw_def)
  moreover have "addDisabled demo_json p b (coDisabled v) r = Inr (r\<lparr>rgDisabled := [(9, ''sunset'')]\<rparr>)"
    if "rgDisabled r = []" for p b r
    using that by (simp add: addDisabled_def validateOnly_def demo_json_def in_file_def v_def)
  ultimately show ?thesis
    using demo_kinds
    by (simp add: Load_def demo_walk visitFile_def demo_lookup in_file_def addDeployment_def emptyRegistry_def
        checkDisabled_def demo_registry_def Let_def)
qed

lemma demo_documented: "hash_documented demo_hex"
  by (auto simp: hash_documented_def demo_hex_def)

section \<open>Properties\<close>

text \<open>
  C34: The registry offers exactly the reviewed manifests. When loading succeeds, looking up a chain
  and a deployment ID returns a deployment precisely if some manifest file of the file system
  parses to it with that chain and ID; a deployment ID belongs to one chain only; and start-up
  resolves the deployment that lookup returns unless a confirmation override is given for a
  deployment that is not local.
\<close>

theorem registry_exact:
  assumes "Load hx js fsys = Inr r"
  shows "(Lookup (Some r) chainID deploymentID = Inr d \<longleftrightarrow>
      (\<exists>schemas filePath body. compileSchemas js fsys = Inr schemas \<and> filePath \<in> fst ` set fsys
        \<and> artifact_kind_of filePath = Manifest \<and> fs_ReadFile fsys filePath = Inr body
        \<and> parseDeployment hx js filePath body (coDeployment schemas) = Inr d)
      \<and> dpChainID d = chainID \<and> dpDeploymentID d = deploymentID)
    \<and> (Lookup (Some r) chainID deploymentID = Inr d \<longrightarrow> Lookup (Some r) chainID' deploymentID = Inr d' \<longrightarrow>
        chainID = chainID' \<and> d = d')
    \<and> (Resolve (Some r) chainID deploymentID confirmations = Inr d \<longleftrightarrow>
        Lookup (Some r) chainID deploymentID = Inr d
        \<and> (confirmations = None \<or> dpEnvironment d = EnvironmentLocal))"
proof -
  have "Lookup (Some r) chainID deploymentID = Inr d \<longrightarrow> Lookup (Some r) chainID' deploymentID = Inr d' \<longrightarrow>
      chainID = chainID' \<and> d = d'"
    using Load_loaded(2)[OF assms] by (auto simp: Lookup_loaded[OF assms] dkey_def inj_on_def)
  moreover have "Resolve (Some r) chainID deploymentID confirmations = Inr d \<longleftrightarrow>
      Lookup (Some r) chainID deploymentID = Inr d \<and> (confirmations = None \<or> dpEnvironment d = EnvironmentLocal)"
    by (auto simp: Resolve_def ReconcileConfig_def result_iff Lookup_loaded[OF assms] dkey_def)
  moreover have "Lookup (Some r) chainID deploymentID = Inr d \<longleftrightarrow>
      (\<exists>schemas filePath body. compileSchemas js fsys = Inr schemas \<and> filePath \<in> fst ` set fsys
        \<and> artifact_kind_of filePath = Manifest \<and> fs_ReadFile fsys filePath = Inr body
        \<and> parseDeployment hx js filePath body (coDeployment schemas) = Inr d)
      \<and> dpChainID d = chainID \<and> dpDeploymentID d = deploymentID"
    unfolding Lookup_loaded[OF assms] manifests_def manifest_of_def dkey_def by blast
  ultimately show ?thesis by blast
qed

theorem registry_exact_witness:
  "Lookup (Some demo_registry) 7 ''demo-v1'' = Inr (deployment_of demo_hex demo_raw) \<and>
   Resolve (Some demo_registry) 7 ''demo-v1'' None = Inr (deployment_of demo_hex demo_raw) \<and>
   \<not> (\<exists>d. Resolve (Some demo_registry) 7 ''demo-v1'' (Some 3) = Inr d)"
proof -
  have l: "Lookup (Some demo_registry) 7 ''demo-v1'' = Inr (deployment_of demo_hex demo_raw)"
    by (simp add: Lookup_def demo_registry_def)
  have "dpEnvironment (deployment_of demo_hex demo_raw) = EnvironmentTestnet" by (simp add: deployment_of_def demo_raw_def)
  moreover have "Resolve (Some demo_registry) 7 ''demo-v1'' None = Inr (deployment_of demo_hex demo_raw)"
    using l registry_exact[OF demo_load, of 7 "''demo-v1''" "deployment_of demo_hex demo_raw" 7 _ None] by blast
  moreover have "Resolve (Some demo_registry) 7 ''demo-v1'' (Some 3) = Inr d \<Longrightarrow>
      d = deployment_of demo_hex demo_raw \<and> dpEnvironment d = EnvironmentLocal" for d
    using l registry_exact[OF demo_load, of 7 "''demo-v1''" d 7 _ "Some 3"] by simp
  ultimately show ?thesis using l by force
qed

text \<open>
  Nothing unreviewed is selectable. Every deployment a loaded registry returns has the supported
  engine version, a known environment, a start block unless it is local, non-zero factory and curve
  implementation, the canonical burn address and non-zero hashes, and its chain carries no disabled
  marker; a chain with a marker answers every lookup with the marker's reason.
\<close>

theorem registry_reviewed:
  assumes "Load hx js fsys = Inr r" "hash_documented hx"
  shows "(Lookup (Some r) chainID deploymentID = Inr d \<longrightarrow>
      reviewed d \<and> map_of (rgDisabled r) chainID = None)
    \<and> (map_of (rgDisabled r) chainID = Some reason \<longrightarrow>
        Lookup (Some r) chainID deploymentID = Inl (DeploymentDisabled chainID reason))"
  using Lookup_reviewed[OF assms] Load_loaded(3)[OF assms(1), of d]
  by (auto simp: Lookup_loaded[OF assms(1)] dkey_def) (simp add: Lookup_def)

theorem registry_reviewed_witness:
  "reviewed (deployment_of demo_hex demo_raw) \<and>
   Lookup (Some demo_registry) 9 ''demo-v1'' = Inl (DeploymentDisabled 9 ''sunset'')"
  using registry_reviewed[OF demo_load demo_documented, of 7 "''demo-v1''" "deployment_of demo_hex demo_raw"]
    registry_reviewed[OF demo_load demo_documented, of 9 "''demo-v1''" _ "''sunset''"]
  by (simp add: Lookup_def demo_registry_def)

end
