(* ===== verification/Chain_Verify.thy ===== *)
theory Chain_Verify
  imports Deployment_Registry Discovery_Complete Numeric_Codec
begin

text \<open>
  Start-up and launch verification (\<^verbatim>\<open>chain/verify.go\<close>) and the part of the indexer's entry point
  that orders it (\<^verbatim>\<open>cmd/indexer/main.go\<close>, \<open>initializeIndexerResources\<close>): the provider's chain ID, the
  bytecode of the deployed contracts, and the address of a launch's liquidity pair. Keccak-256 and
  the provider's answers are parameters.
\<close>

section \<open>Operations\<close>

type_synonym keccak = "8 word list \<Rightarrow> Hash"

definition address_bytes :: "Address \<Rightarrow> 8 word list" where
  "address_bytes a = be_bytes 20 (uint a)"

definition hash_bytes :: "Hash \<Rightarrow> 8 word list" where
  "hash_bytes h = be_bytes 32 (uint h)"

definition BytesToAddress :: "8 word list \<Rightarrow> Address" where
  "BytesToAddress b = word_of_int (be_value b)"

text \<open>A nil reader is \<open>None\<close>; a nil answer of the provider is \<open>Inr None\<close>.\<close>

definition VerifyRPCChainID :: "(chain_error + bigptr) option \<Rightarrow> 64 word \<Rightarrow> Deployment \<Rightarrow> chain_error + unit" where
  "VerifyRPCChainID reader configuredChainID deployment =
     (case reader of
        None \<Rightarrow> Inl (OtherChainError ''chain ID reader is nil'')
      | Some answer \<Rightarrow>
        if configuredChainID \<noteq> dpChainID deployment
        then Inl (ChainIDMismatch (unat configuredChainID) (unat (dpChainID deployment)) None)
        else rbind answer (\<lambda>actual.
          case actual of
            None \<Rightarrow> Inl (ChainIDMismatch (unat configuredChainID) (unat (dpChainID deployment)) None)
          | Some n \<Rightarrow>
            if n \<le> 0 \<or> n \<noteq> uint configuredChainID
            then Inl (ChainIDMismatch (unat configuredChainID) (unat (dpChainID deployment)) (Some n))
            else Inr ()))"

definition bytecodeChecks :: "Deployment \<Rightarrow> (string \<times> Address \<times> Hash) list" where
  "bytecodeChecks deployment =
     [(''Factory'', dpFactory deployment, bhLaunchFactory (dpBytecodeHashes deployment)),
      (''CurveImplementation'', dpCurveImplementation deployment, bhBondingCurveV1 (dpBytecodeHashes deployment)),
      (''WETH'', dpWETH deployment, bhWETH (dpBytecodeHashes deployment)),
      (''UniV2Factory'', dpUniV2Factory deployment, bhUniswapV2Factory (dpBytecodeHashes deployment))]"

definition checkBytecode ::
    "keccak \<Rightarrow> (Address \<Rightarrow> chain_error + 8 word list) \<Rightarrow> string \<times> Address \<times> Hash \<Rightarrow> chain_error + unit" where
  "checkBytecode keccak codeAt = (\<lambda>(name, address, expected).
     rbind (codeAt address) (\<lambda>code.
     if code = [] \<or> keccak code \<noteq> expected then Inl (BytecodeMismatch name address) else Inr ()))"

definition VerifyDeploymentBytecode ::
    "keccak \<Rightarrow> (Address \<Rightarrow> chain_error + 8 word list) \<Rightarrow> Deployment \<Rightarrow> chain_error + unit" where
  "VerifyDeploymentBytecode keccak codeAt deployment =
     rfold (\<lambda>check _. checkBytecode keccak codeAt check) (bytecodeChecks deployment) ()"

text \<open>Byte-wise comparison of two addresses is the order of the words.\<close>

definition PairAddress :: "keccak \<Rightarrow> Address \<Rightarrow> Address \<Rightarrow> Address \<Rightarrow> Hash \<Rightarrow> Address" where
  "PairAddress keccak factory token weth initCodeHash =
     (let (token0, token1) = (if token > weth then (weth, token) else (token, weth));
          salt = keccak (address_bytes token0 @ address_bytes token1);
          hash = keccak ([0xff] @ address_bytes factory @ hash_bytes salt @ hash_bytes initCodeHash)
      in BytesToAddress (drop 12 (hash_bytes hash)))"

definition getPairData :: "keccak \<Rightarrow> Address \<Rightarrow> Address \<Rightarrow> 8 word list" where
  "getPairData keccak token weth =
     take 4 (hash_bytes (keccak (map of_char ''getPair(address,address)'')))
     @ replicate 12 0 @ address_bytes token @ replicate 12 0 @ address_bytes weth"

type_synonym contract_caller = "Address \<Rightarrow> 8 word list \<Rightarrow> chain_error + 8 word list"

definition VerifyPairAddress ::
    "keccak \<Rightarrow> contract_caller \<Rightarrow> Address \<Rightarrow> Address \<Rightarrow> Address \<Rightarrow> Hash \<Rightarrow> chain_error + Address" where
  "VerifyPairAddress keccak caller factory token weth initCodeHash =
     (let expected = PairAddress keccak factory token weth initCodeHash in
      rbind (caller factory (getPairData keccak token weth)) (\<lambda>result.
      if length result \<noteq> 32 then Inl PairMismatch
      else if \<exists>value \<in> set (take 12 result). value \<noteq> 0 then Inl PairMismatch
      else let actual = BytesToAddress (drop 12 result) in
        if actual \<noteq> expected then Inl PairMismatch else Inr actual))"

definition VerifyLaunchPair ::
    "keccak \<Rightarrow> contract_caller \<Rightarrow> Address \<Rightarrow> Address \<Rightarrow> Hash \<Rightarrow> TokenLaunched \<Rightarrow> chain_error + unit" where
  "VerifyLaunchPair keccak caller factory weth initCodeHash launch =
     (if tlWETH launch \<noteq> weth then Inl PairMismatch
      else rbind (VerifyPairAddress keccak caller factory (tlToken launch) weth initCodeHash) (\<lambda>pair.
        if tlLPPair launch \<noteq> pair then Inl PairMismatch else Inr ()))"

section \<open>Start-up order\<close>

text \<open>
  What start-up did to the outside world, in order. \<open>openPool\<close> and \<open>acquireOwnership\<close> are the
  outcomes of the two callbacks.
\<close>

datatype startup_event = PoolOpened | OwnershipAcquired | PoolClosed

datatype startup_error = Verification chain_error | PoolFailed string | OwnershipFailed string

definition initializeIndexerResources ::
    "keccak \<Rightarrow> (chain_error + bigptr) option \<Rightarrow> (Address \<Rightarrow> chain_error + 8 word list) \<Rightarrow> 64 word \<Rightarrow> Deployment
     \<Rightarrow> string + 'p \<Rightarrow> string + 'o \<Rightarrow> (startup_error + 'p \<times> 'o) \<times> startup_event list" where
  "initializeIndexerResources keccak reader codeAt configuredChainID deployment openPool acquireOwnership =
     (case VerifyRPCChainID reader configuredChainID deployment of
        Inl err \<Rightarrow> (Inl (Verification err), [])
      | Inr _ \<Rightarrow>
        case VerifyDeploymentBytecode keccak codeAt deployment of
          Inl err \<Rightarrow> (Inl (Verification err), [])
        | Inr _ \<Rightarrow>
          case openPool of
            Inl err \<Rightarrow> (Inl (PoolFailed err), [])
          | Inr pool \<Rightarrow>
            case acquireOwnership of
              Inl err \<Rightarrow> (Inl (OwnershipFailed err), [PoolOpened, PoolClosed])
            | Inr owner \<Rightarrow> (Inr (pool, owner), [PoolOpened, OwnershipAcquired]))"

section \<open>Properties\<close>

lemma length_address_bytes [simp]: "length (address_bytes a) = 20"
  by (simp add: address_bytes_def)

lemma BytesToAddress_address_bytes [simp]: "BytesToAddress (address_bytes a) = a"
proof -
  have "uint a < 256 ^ 20" using uint_lt2p[of a] by simp
  then have "be_value (address_bytes a) = uint a" by (simp add: address_bytes_def be_value_be_bytes)
  then show ?thesis by (simp add: BytesToAddress_def)
qed

lemma address_bytes_BytesToAddress:
  assumes "length b = 20" shows "address_bytes (BytesToAddress b) = b"
proof -
  have "be_value b < 2 ^ 160" using be_value_bounds[of b] assms by simp
  then have "uint (BytesToAddress b) = be_value b"
    using be_value_bounds[of b] unfolding BytesToAddress_def by (subst uint_word_of_int) simp
  then show ?thesis using be_bytes_be_value[of b] assms by (simp add: address_bytes_def)
qed

text \<open>The ABI encoding of an address as the result of a call.\<close>

lemma padded_result_iff:
  "length r = 32 \<and> \<not> (\<exists>v \<in> set (take 12 r). v \<noteq> 0) \<and> BytesToAddress (drop 12 r) = a \<longleftrightarrow>
     r = replicate 12 (0::8 word) @ address_bytes a" (is "?l \<longleftrightarrow> ?r")
proof
  assume l: ?l
  have "take 12 r = replicate 12 0" using l by (intro replicate_eqI) auto
  moreover have "drop 12 r = address_bytes a" using l address_bytes_BytesToAddress[of "drop 12 r"] by auto
  ultimately show ?r by (metis append_take_drop_id)
qed simp

lemma VerifyPairAddress_Inr [result_iff]:
  "VerifyPairAddress keccak caller factory token weth h = Inr a \<longleftrightarrow>
     a = PairAddress keccak factory token weth h \<and>
     caller factory (getPairData keccak token weth) = Inr (replicate 12 0 @ address_bytes a)"
proof (cases "caller factory (getPairData keccak token weth)")
  case (Inr r)
  then show ?thesis using padded_result_iff[of r "PairAddress keccak factory token weth h"]
    by (auto simp: VerifyPairAddress_def Let_def)
qed (simp add: VerifyPairAddress_def)

lemma PairAddress_swap: "PairAddress keccak factory token weth h = PairAddress keccak factory weth token h"
  by (cases token weth rule: linorder_cases) (auto simp: PairAddress_def)

lemma VerifyLaunchPair_Inr [result_iff]:
  "VerifyLaunchPair keccak caller factory weth h launch = Inr u \<longleftrightarrow>
     tlWETH launch = weth \<and> tlLPPair launch = PairAddress keccak factory (tlToken launch) weth h
     \<and> caller factory (getPairData keccak (tlToken launch) weth) =
         Inr (replicate 12 0 @ address_bytes (tlLPPair launch))"
  by (auto simp: VerifyLaunchPair_def result_iff)

text \<open>
  A launch passes pair verification exactly when it names the configured WETH, its pair is the
  CREATE2 address of the token and WETH - the same for either order of the two - and the pair
  factory, asked with the canonical getPair call, answers with exactly the 32-byte encoding of that
  address; in particular a factory that has not created the pair, or that answers with a short,
  long or unpadded word, is never accepted.
\<close>

theorem VerifyLaunchPair_iff:
  "VerifyLaunchPair keccak caller factory weth h launch = Inr () \<longleftrightarrow>
     tlWETH launch = weth
     \<and> tlLPPair launch = PairAddress keccak factory (tlToken launch) weth h
     \<and> tlLPPair launch = PairAddress keccak factory weth (tlToken launch) h
     \<and> caller factory (getPairData keccak (tlToken launch) weth) =
         Inr (replicate 12 0 @ address_bytes (tlLPPair launch))"
  using PairAddress_swap[of keccak factory weth "tlToken launch" h] by (auto simp: result_iff)

lemma VerifyRPCChainID_Inr:
  "VerifyRPCChainID reader c d = Inr u \<longleftrightarrow> c \<noteq> 0 \<and> dpChainID d = c \<and> reader = Some (Inr (Some (uint c)))"
proof -
  have c: "uint c \<le> 0 \<longleftrightarrow> c = 0" by (metis uint_0_iff uint_ge_0 order.antisym order.refl)
  show ?thesis
  proof (cases reader)
    case (Some answer)
    then show ?thesis using c by (cases answer; cases "projr answer") (auto simp: VerifyRPCChainID_def)
  qed (simp add: VerifyRPCChainID_def)
qed

lemma VerifyDeploymentBytecode_Inr:
  "VerifyDeploymentBytecode keccak codeAt d = Inr u \<longleftrightarrow>
     (\<forall>(name, address, expected) \<in> set (bytecodeChecks d).
        \<exists>code. codeAt address = Inr code \<and> code \<noteq> [] \<and> keccak code = expected)"
proof -
  have "checkBytecode keccak codeAt x = Inr () \<longleftrightarrow> (case x of (name, address, expected) \<Rightarrow>
      \<exists>code. codeAt address = Inr code \<and> code \<noteq> [] \<and> keccak code = expected)" for x
    by (cases x) (auto simp: checkBytecode_def result_iff)
  then show ?thesis unfolding VerifyDeploymentBytecode_def rfold_check by simp
qed

text \<open>
  C35: The indexer touches the database only after the chain has been identified. Start-up succeeds
  exactly when the provider reports the configured, non-zero chain ID, which is the deployment's,
  each of the four contracts has non-empty code with the reviewed hash, and the pool and the
  ownership lock are obtained; before a successful verification nothing is opened, the pool is
  opened before ownership is acquired, and a start-up that fails holds no pool.
\<close>

theorem startup_verified:
  assumes "initializeIndexerResources keccak reader codeAt c d openPool acquireOwnership = (res, events)"
  shows "(res = Inr (p, w) \<longleftrightarrow>
      c \<noteq> 0 \<and> dpChainID d = c \<and> reader = Some (Inr (Some (uint c)))
      \<and> (\<forall>(address, expected) \<in> {(dpFactory d, bhLaunchFactory (dpBytecodeHashes d)),
            (dpCurveImplementation d, bhBondingCurveV1 (dpBytecodeHashes d)),
            (dpWETH d, bhWETH (dpBytecodeHashes d)), (dpUniV2Factory d, bhUniswapV2Factory (dpBytecodeHashes d))}.
          \<exists>code. codeAt address = Inr code \<and> code \<noteq> [] \<and> keccak code = expected)
      \<and> openPool = Inr p \<and> acquireOwnership = Inr w)
    \<and> (events \<noteq> [] \<longrightarrow> reader = Some (Inr (Some (uint c))) \<and> VerifyDeploymentBytecode keccak codeAt d = Inr ())
    \<and> (if is_ok res then events = [PoolOpened, OwnershipAcquired] else events \<in> {[], [PoolOpened, PoolClosed]})"
proof -
  have "(case VerifyDeploymentBytecode keccak codeAt d of Inl _ \<Rightarrow> False | Inr _ \<Rightarrow> True) \<longleftrightarrow>
      (\<forall>(address, expected) \<in> {(dpFactory d, bhLaunchFactory (dpBytecodeHashes d)),
            (dpCurveImplementation d, bhBondingCurveV1 (dpBytecodeHashes d)),
            (dpWETH d, bhWETH (dpBytecodeHashes d)), (dpUniV2Factory d, bhUniswapV2Factory (dpBytecodeHashes d))}.
          \<exists>code. codeAt address = Inr code \<and> code \<noteq> [] \<and> keccak code = expected)"
    using VerifyDeploymentBytecode_Inr[of keccak codeAt d]
    by (cases "VerifyDeploymentBytecode keccak codeAt d") (simp_all add: bytecodeChecks_def)
  then show ?thesis
    using assms VerifyRPCChainID_Inr[of reader c d]
    by (cases "VerifyRPCChainID reader c d"; cases "VerifyDeploymentBytecode keccak codeAt d"; cases openPool;
        cases acquireOwnership) (auto simp: initializeIndexerResources_def)
qed

definition demo_deployment :: Deployment where
  "demo_deployment = deployment_of demo_hex demo_raw"

theorem startup_verified_witness:
  "initializeIndexerResources (\<lambda>_. 1) (Some (Inr (Some 7))) (\<lambda>_. Inr [0x60]) 7 demo_deployment
     (Inr ''pool'') (Inr ''owner'') = (Inr (''pool'', ''owner''), [PoolOpened, OwnershipAcquired])"
proof -
  obtain res events where r: "initializeIndexerResources (\<lambda>_. 1) (Some (Inr (Some 7))) (\<lambda>_. Inr [0x60]) 7
      demo_deployment (Inr ''pool'') (Inr ''owner'') = (res :: startup_error + string \<times> string, events)" by fastforce
  have h: "demo_hex_word demo_hash = (1::256 word)" by code_simp
  have "dpChainID demo_deployment = 7" by (simp add: demo_deployment_def deployment_of_def demo_raw_def)
  moreover have "dpBytecodeHashes demo_deployment =
      \<lparr>bhLaunchFactory = 1, bhBondingCurveV1 = 1, bhUniswapV2Factory = 1, bhWETH = 1\<rparr>"
    using h by (simp add: demo_deployment_def deployment_of_def demo_raw_def demo_hex_def)
  ultimately show ?thesis
    using startup_verified[OF r, of "''pool''" "''owner''"] by (simp add: r)
qed

section \<open>Verified discovery\<close>

text \<open>How the indexer builds its discoverer.\<close>

definition indexerDiscoverer ::
    "keccak \<Rightarrow> contract_caller \<Rightarrow> log_source option \<Rightarrow> Decoder option \<Rightarrow> Deployment \<Rightarrow> 64 word \<Rightarrow> chain_error + Discoverer" where
  "indexerDiscoverer keccak caller source decoder deployment addressBatchSize =
     NewDiscovererWithPairVerification source decoder (dpFactory deployment) addressBatchSize
       (Some (VerifyLaunchPair keccak caller (dpUniV2Factory deployment) (dpWETH deployment)
         (dpPairInitCodeHash deployment)))"

definition verified_scan :: "(TokenLaunched \<Rightarrow> chain_error + unit) \<Rightarrow> Address set \<Rightarrow> launch_scan \<Rightarrow> bool" where
  "verified_scan verify known s \<longleftrightarrow> (\<forall>l \<in> set (scLaunches s). verify l = Inr ())
     \<and> set (emPairs (scEmitters s)) = known \<union> tlLPPair ` set (scLaunches s)"

lemma scanFactoryLog_verified:
  assumes "diVerifyLaunchPair d = Some verify" "verified_scan verify known s"
    "scanFactoryLog codec d log s = Inr s'"
  shows "verified_scan verify known s'"
proof -
  obtain decoded where dec: "Decode codec (diDecoder d) log (scEmitters s) = Inr decoded"
    using assms(3) by (auto simp: scanFactoryLog_def result_iff)
  show ?thesis
  proof (cases "\<exists>l. dlValue decoded = EvTokenLaunched l")
    case True
    then obtain l where "dlValue decoded = EvTokenLaunched l" by blast
    then show ?thesis using assms dec
      by (auto simp: scanFactoryLog_def verified_scan_def addLaunch_def Let_def result_iff)
  next
    case False
    then have "s' = s" using assms(3) dec by (cases "dlValue decoded") (simp_all add: scanFactoryLog_def)
    then show ?thesis using assms(2) by simp
  qed
qed

lemma Discover_verified:
  assumes "diVerifyLaunchPair d = Some verify" "Discover codec d f t known = Inr r"
  shows "(\<forall>l \<in> set (drLaunches r). verify l = Inr ())
    \<and> set (emPairs (drEmitters r)) = set (emPairs known) \<union> tlLPPair ` set (drLaunches r)"
proof -
  let ?s0 = "\<lparr>scLaunches = [], scEmitters = (copyEmitters known)\<lparr>emFactory := diFactory d\<rparr>, scNewByBlock = []\<rparr>"
  obtain logs scan where s: "rfold (scanFactoryLog codec d) logs ?s0 = Inr scan"
    "drLaunches r = scLaunches scan" "drEmitters r = scEmitters scan"
    using assms(2) by (auto simp: Discover_def Let_def result_iff split: if_splits)
  have "verified_scan verify (set (emPairs known)) scan"
    by (rule rfold_invariant[OF scanFactoryLog_verified[OF assms(1)] _ s(1)])
      (simp_all add: verified_scan_def copyEmitters_def)
  then show ?thesis by (simp add: verified_scan_def s)
qed

text \<open>
  C33: The indexer only follows genuine pairs. Every launch that a successful discovery of the
  indexer returns carries the deployment's WETH and the CREATE2 pair of its token, and the pairs it
  then watches are the ones it already knew and those of these launches, nothing else.
\<close>

theorem discovered_pairs_genuine:
  assumes "indexerDiscoverer keccak caller source decoder deployment size' = Inr d"
    and "Discover codec d f t known = Inr r"
  shows "(\<forall>l \<in> set (drLaunches r). tlWETH l = dpWETH deployment
      \<and> tlLPPair l = PairAddress keccak (dpUniV2Factory deployment) (tlToken l) (dpWETH deployment) (dpPairInitCodeHash deployment))
    \<and> set (emPairs (drEmitters r)) = set (emPairs known) \<union> tlLPPair ` set (drLaunches r)"
proof -
  have "diVerifyLaunchPair d = Some (VerifyLaunchPair keccak caller (dpUniV2Factory deployment) (dpWETH deployment)
      (dpPairInitCodeHash deployment))"
    using assms(1) by (auto simp: indexerDiscoverer_def NewDiscovererWithPairVerification_def result_iff)
  from Discover_verified[OF this assms(2)] show ?thesis
    by (simp add: result_iff)
qed

definition demo_verified :: "Deployment" where
  "demo_verified = demo_deployment\<lparr>dpFactory := 42, dpWETH := 2\<rparr>"

theorem discovered_pairs_genuine_witness:
  "\<exists>d r. indexerDiscoverer (\<lambda>_. 70) (\<lambda>_ _. Inr (replicate 12 0 @ address_bytes 70)) (Some (block_source demo_chain))
       (Some demo_decoder) demo_verified 10 = Inr d
     \<and> Discover launch_codec d 5 5 (emptyEmitters 0) = Inr r
     \<and> set (emPairs (drEmitters r)) = tlLPPair ` set (drLaunches r)"
proof -
  let ?v = "VerifyLaunchPair (\<lambda>_. 70) (\<lambda>_ _. Inr (replicate 12 0 @ address_bytes 70)) (dpUniV2Factory demo_verified) 2
    (dpPairInitCodeHash demo_verified)"
  have d: "indexerDiscoverer (\<lambda>_. 70) (\<lambda>_ _. Inr (replicate 12 0 @ address_bytes 70)) (Some (block_source demo_chain))
       (Some demo_decoder) demo_verified 10 = Inr (demo_discoverer\<lparr>diVerifyLaunchPair := Some ?v\<rparr>)"
    by (simp add: indexerDiscoverer_def NewDiscovererWithPairVerification_def NewDiscoverer_def demo_discoverer_def
        demo_verified_def)
  have "BytesToAddress (drop 12 (hash_bytes 70)) = 70" by code_simp
  then have "?v demo_launch = Inr ()"
    by (simp add: VerifyLaunchPair_Inr demo_launch_def PairAddress_def)
  then obtain r where r: "Discover launch_codec (demo_discoverer\<lparr>diVerifyLaunchPair := Some ?v\<rparr>) 5 5 (emptyEmitters 0) = Inr r"
    using demo_discover[of "Some ?v"] by blast
  show ?thesis
    using d r discovered_pairs_genuine[OF d r] by (auto simp: emptyEmitters_def)
qed

end
