(* ===== verification/Service_Config.thy ===== *)
theory Service_Config
  imports Chain_Verify Indexer_Engine
begin

text \<open>
  Process configuration (\<^verbatim>\<open>config/config.go\<close>) and how the indexer's entry point turns it into the
  settings of the engine (\<^verbatim>\<open>cmd/indexer/main.go\<close>). Environment values are ASCII strings. Parsing
  of URLs and durations is a parameter; unsigned numbers, listener addresses, the deployment-ID
  pattern and lists of origins are parsed here as the source and the standard library do.
  Durations are in nanoseconds.
\<close>

section \<open>Parsing\<close>

definition is_digit :: "char \<Rightarrow> bool" where
  "is_digit c \<longleftrightarrow> 48 \<le> (of_char c :: nat) \<and> (of_char c :: nat) \<le> 57"

definition digits_value :: "string \<Rightarrow> nat" where
  "digits_value s = foldl (\<lambda>n c. n * 10 + (of_char c - 48)) 0 s"

text \<open>\<^verbatim>\<open>strconv.ParseUint(s, 10, bits)\<close>; the two error values are not distinguished.\<close>

definition ParseUint :: "string \<Rightarrow> nat \<Rightarrow> nat option" where
  "ParseUint s bits = (if s = [] \<or> \<not> list_all is_digit s \<or> digits_value s \<ge> 2 ^ bits then None
     else Some (digits_value s))"

fun index_of :: "char \<Rightarrow> string \<Rightarrow> nat option" where
  "index_of c [] = None"
| "index_of c (x # xs) = (if x = c then Some 0 else map_option Suc (index_of c xs))"

definition last_index_of :: "char \<Rightarrow> string \<Rightarrow> nat option" where
  "last_index_of c s = map_option (\<lambda>i. length s - 1 - i) (index_of c (rev s))"

text \<open>\<^verbatim>\<open>net.SplitHostPort\<close>: host and port, brackets around the host allowed.\<close>

definition SplitHostPort :: "string \<Rightarrow> (string \<times> string) option" where
  "SplitHostPort hostport =
     (case last_index_of CHR '':'' hostport of
        None \<Rightarrow> None
      | Some i \<Rightarrow>
        if hd hostport = CHR ''['' then
          (case index_of CHR '']'' hostport of
             None \<Rightarrow> None
           | Some e \<Rightarrow>
             if e + 1 \<noteq> i \<or> CHR ''['' \<in> set (drop 1 hostport) \<or> CHR '']'' \<in> set (drop (e + 1) hostport) then None
             else Some (take (e - 1) (drop 1 hostport), drop (i + 1) hostport))
        else if CHR '':'' \<in> set (take i hostport) \<or> CHR ''['' \<in> set hostport \<or> CHR '']'' \<in> set hostport then None
        else Some (take i hostport, drop (i + 1) hostport))"

fun strings_Split :: "char \<Rightarrow> string \<Rightarrow> string list" where
  "strings_Split sep [] = [[]]"
| "strings_Split sep (c # cs) = (case strings_Split sep cs of
     [] \<Rightarrow> [[c]] | part # parts \<Rightarrow> if c = sep then [] # part # parts else (c # part) # parts)"

definition id_head :: "char \<Rightarrow> bool" where
  "id_head c \<longleftrightarrow> is_digit c \<or> (97 \<le> (of_char c :: nat) \<and> (of_char c :: nat) \<le> 122)"

definition id_tail :: "char \<Rightarrow> bool" where
  "id_tail c \<longleftrightarrow> id_head c \<or> c \<in> {CHR ''.'', CHR ''_'', CHR ''-''}"

definition deploymentIDPattern :: "string \<Rightarrow> bool" where
  "deploymentIDPattern s \<longleftrightarrow> (case s of [] \<Rightarrow> False
     | c # cs \<Rightarrow> id_head c \<and> list_all id_tail cs \<and> 2 \<le> length cs \<and> length cs \<le> 63)"

section \<open>Configuration\<close>

datatype config_reason = ErrInvalid | ErrMissing

datatype config_error = FieldError string config_reason

record url =
  urScheme :: string
  urHost :: string
  urPath :: string
  urRawQuery :: string
  urFragment :: string

record net_library =
  nlParseURL :: "string \<Rightarrow> url option"
  nlParseDuration :: "string \<Rightarrow> int option"

record Config =
  cfChainID :: "64 word"
  cfDeploymentID :: string
  cfRPCURL :: string
  cfDatabaseURL :: string
  cfPrivyAppID :: string
  cfPrivyVerificationKey :: string
  cfLogLevel :: string
  cfAPIAddr :: string
  cfAPIAllowedOrigins :: "string list"
  cfIndexerHealthAddr :: string
  cfIndexerChunkSize :: "64 word"
  cfIndexerReorgSearchDepth :: "64 word"
  cfIndexerReorgRecoveryMode :: bool
  cfIndexerLogAddressBatchSize :: "64 word"
  cfIndexerPollInterval :: int
  cfRPCTimeout :: int
  cfRPCMaxRetries :: "64 word"
  cfRPCRetryBackoff :: int
  cfIndexerWorkerID :: string
  cfIndexerConfirmations :: "64 word option"
  cfETHUSDSource :: string

definition invalidOrMissing :: "string \<Rightarrow> string \<Rightarrow> config_error" where
  "invalidOrMissing field value = FieldError field (if value = [] then ErrMissing else ErrInvalid)"

definition requiredPositiveUint64 :: "string \<Rightarrow> string \<Rightarrow> config_error + 64 word" where
  "requiredPositiveUint64 field value =
     (if value = [] then Inl (FieldError field ErrMissing)
      else case ParseUint value 64 of
        None \<Rightarrow> Inl (FieldError field ErrInvalid)
      | Some parsed \<Rightarrow> if parsed = 0 then Inl (FieldError field ErrInvalid) else Inr (of_nat parsed))"

definition optionalUint64 :: "string \<Rightarrow> string \<Rightarrow> config_error + 64 word option" where
  "optionalUint64 field value =
     (if value = [] then Inr None
      else case ParseUint value 64 of
        None \<Rightarrow> Inl (FieldError field ErrInvalid) | Some parsed \<Rightarrow> Inr (Some (of_nat parsed)))"

definition optionalBoundedUint64 ::
    "string \<Rightarrow> string \<Rightarrow> 64 word \<Rightarrow> 64 word \<Rightarrow> 64 word \<Rightarrow> config_error + 64 word" where
  "optionalBoundedUint64 field value defaultValue minValue maxValue =
     (if value = [] then Inr defaultValue
      else case ParseUint value 64 of
        None \<Rightarrow> Inl (FieldError field ErrInvalid)
      | Some parsed \<Rightarrow>
        if of_nat parsed < minValue \<or> of_nat parsed > maxValue then Inl (FieldError field ErrInvalid)
        else Inr (of_nat parsed))"

definition optionalPositiveDuration :: "net_library \<Rightarrow> string \<Rightarrow> string \<Rightarrow> int \<Rightarrow> config_error + int" where
  "optionalPositiveDuration lib field value defaultValue =
     (if value = [] then Inr defaultValue
      else case nlParseDuration lib value of
        None \<Rightarrow> Inl (FieldError field ErrInvalid)
      | Some parsed \<Rightarrow> if parsed \<le> 0 then Inl (FieldError field ErrInvalid) else Inr parsed)"

definition optionalRecoveryMode :: "string \<Rightarrow> config_error + bool" where
  "optionalRecoveryMode value =
     (if value = [] \<or> value = ''false'' then Inr False
      else if value = ''true'' then Inr True
      else Inl (FieldError ''INDEXER_REORG_RECOVERY_MODE'' ErrInvalid))"

definition validateURL :: "net_library \<Rightarrow> string \<Rightarrow> string \<Rightarrow> string list \<Rightarrow> config_error + unit" where
  "validateURL lib field value allowedSchemes =
     (if value = [] then Inl (FieldError field ErrMissing)
      else case nlParseURL lib value of
        None \<Rightarrow> Inl (FieldError field ErrInvalid)
      | Some parsed \<Rightarrow>
        if urHost parsed = [] then Inl (FieldError field ErrInvalid)
        else if urScheme parsed \<in> set allowedSchemes then Inr ()
        else Inl (FieldError field ErrInvalid))"

definition parseLogLevel :: "string \<Rightarrow> config_error + string" where
  "parseLogLevel value =
     (if value = [] then Inr ''info''
      else if value \<in> set [''debug'', ''info'', ''warn'', ''error''] then Inr value
      else Inl (FieldError ''LOG_LEVEL'' ErrInvalid))"

definition parseListenerAddr :: "string \<Rightarrow> string \<Rightarrow> string \<Rightarrow> config_error + string" where
  "parseListenerAddr field value0 defaultValue =
     (let value = (if value0 = [] then defaultValue else value0) in
      case SplitHostPort value of
        None \<Rightarrow> Inl (FieldError field ErrInvalid)
      | Some (host, port) \<Rightarrow>
        case ParseUint port 16 of
          None \<Rightarrow> Inl (FieldError field ErrInvalid)
        | Some parsedPort \<Rightarrow> if parsedPort = 0 then Inl (FieldError field ErrInvalid) else Inr value)"

definition parseAPIAddr :: "string \<Rightarrow> config_error + string" where
  "parseAPIAddr value = parseListenerAddr ''API_ADDR'' value '':8080''"

text \<open>One turn of the loop over the comma-separated origins; the map \<open>seen\<close> holds what \<open>out\<close> does.\<close>

definition addOrigin :: "net_library \<Rightarrow> string \<Rightarrow> string list \<Rightarrow> config_error + string list" where
  "addOrigin lib part out =
     (let origin = TrimSpace part; invalid = Inl (FieldError ''API_ALLOWED_ORIGINS'' ErrInvalid) in
      if origin = [] \<or> origin = ''*'' then invalid
      else case nlParseURL lib origin of
        None \<Rightarrow> invalid
      | Some u \<Rightarrow>
        if urScheme u = [] \<or> urHost u = [] \<or> urPath u \<noteq> [] \<or> urRawQuery u \<noteq> [] \<or> urFragment u \<noteq> [] then invalid
        else if urScheme u \<noteq> ''http'' \<and> urScheme u \<noteq> ''https'' then invalid
        else if origin \<in> set out then Inr out
        else Inr (out @ [origin]))"

definition parseOrigins :: "net_library \<Rightarrow> string \<Rightarrow> config_error + string list" where
  "parseOrigins lib value = (if value = [] then Inr [] else rfold (addOrigin lib) (strings_Split CHR '','' value) [])"
record environmentValues =
  evChainID :: string
  evDeploymentID :: string
  evRpcURL :: string
  evDatabaseURL :: string
  evPrivyAppID :: string
  evPrivyVerificationKey :: string
  evLogLevel :: string
  evApiAddr :: string
  evApiAllowedOrigins :: string
  evIndexerHealthAddr :: string
  evIndexerChunkSize :: string
  evIndexerReorgSearchDepth :: string
  evIndexerReorgRecoveryMode :: string
  evIndexerLogAddressBatchSize :: string
  evIndexerPollInterval :: string
  evRpcTimeout :: string
  evRpcMaxRetries :: string
  evRpcRetryBackoff :: string
  evIndexerWorkerID :: string
  evIndexerConfirmations :: string
  evEthUSDSource :: string

definition readEnvironment :: "(string \<Rightarrow> string) \<Rightarrow> environmentValues" where
  "readEnvironment getenv =
     \<lparr>evChainID = TrimSpace (getenv ''CHAIN_ID''),
      evDeploymentID = TrimSpace (getenv ''DEPLOYMENT_ID''),
      evRpcURL = TrimSpace (getenv ''RPC_URL''),
      evDatabaseURL = TrimSpace (getenv ''DATABASE_URL''),
      evPrivyAppID = TrimSpace (getenv ''PRIVY_APP_ID''),
      evPrivyVerificationKey = TrimSpace (getenv ''PRIVY_VERIFICATION_KEY''),
      evLogLevel = TrimSpace (getenv ''LOG_LEVEL''),
      evApiAddr = TrimSpace (getenv ''API_ADDR''),
      evApiAllowedOrigins = TrimSpace (getenv ''API_ALLOWED_ORIGINS''),
      evIndexerHealthAddr = TrimSpace (getenv ''INDEXER_HEALTH_ADDR''),
      evIndexerChunkSize = TrimSpace (getenv ''INDEXER_CHUNK_SIZE''),
      evIndexerReorgSearchDepth = TrimSpace (getenv ''INDEXER_REORG_SEARCH_DEPTH''),
      evIndexerReorgRecoveryMode = TrimSpace (getenv ''INDEXER_REORG_RECOVERY_MODE''),
      evIndexerLogAddressBatchSize = TrimSpace (getenv ''INDEXER_LOG_ADDRESS_BATCH_SIZE''),
      evIndexerPollInterval = TrimSpace (getenv ''INDEXER_POLL_INTERVAL''),
      evRpcTimeout = TrimSpace (getenv ''RPC_TIMEOUT''),
      evRpcMaxRetries = TrimSpace (getenv ''RPC_MAX_RETRIES''),
      evRpcRetryBackoff = TrimSpace (getenv ''RPC_RETRY_BACKOFF''),
      evIndexerWorkerID = TrimSpace (getenv ''INDEXER_WORKER_ID''),
      evIndexerConfirmations = TrimSpace (getenv ''INDEXER_CONFIRMATIONS''),
      evEthUSDSource = TrimSpace (getenv ''ETH_USD_SOURCE'')\<rparr>"

definition secondDuration :: int where "secondDuration = 10 ^ 9"

text \<open>The loader, with its checks in the order of the source. A nil lookup function is \<open>None\<close>.\<close>

definition config_Load :: "net_library \<Rightarrow> (string \<Rightarrow> string) option \<Rightarrow> config_error + Config" where
  "config_Load lib getenv =
     (case getenv of None \<Rightarrow> Inl (FieldError ''getenv'' ErrMissing) | Some env \<Rightarrow>
      let v = readEnvironment env in
      rbind (requiredPositiveUint64 ''CHAIN_ID'' (evChainID v)) (\<lambda>chainID.
      rbind (optionalBoundedUint64 ''INDEXER_LOG_ADDRESS_BATCH_SIZE'' (evIndexerLogAddressBatchSize v) 500 1 2000)
        (\<lambda>addressBatchSize.
      rbind (optionalPositiveDuration lib ''INDEXER_POLL_INTERVAL'' (evIndexerPollInterval v) secondDuration)
        (\<lambda>pollInterval.
      rbind (optionalPositiveDuration lib ''RPC_TIMEOUT'' (evRpcTimeout v) (10 * secondDuration)) (\<lambda>rpcTimeout.
      rbind (optionalBoundedUint64 ''RPC_MAX_RETRIES'' (evRpcMaxRetries v) 3 0 20) (\<lambda>rpcMaxRetries.
      rbind (optionalPositiveDuration lib ''RPC_RETRY_BACKOFF'' (evRpcRetryBackoff v) (secondDuration div 4))
        (\<lambda>rpcRetryBackoff.
      if \<not> deploymentIDPattern (evDeploymentID v) then Inl (invalidOrMissing ''DEPLOYMENT_ID'' (evDeploymentID v)) else
      rbind (validateURL lib ''RPC_URL'' (evRpcURL v) [''http'', ''https'']) (\<lambda>_.
      rbind (validateURL lib ''DATABASE_URL'' (evDatabaseURL v) [''postgres'', ''postgresql'']) (\<lambda>_.
      rbind (parseLogLevel (evLogLevel v)) (\<lambda>logLevel.
      rbind (parseAPIAddr (evApiAddr v)) (\<lambda>apiAddr.
      rbind (parseOrigins lib (evApiAllowedOrigins v)) (\<lambda>apiOrigins.
      rbind (parseListenerAddr ''INDEXER_HEALTH_ADDR'' (evIndexerHealthAddr v) '':8081'') (\<lambda>indexerHealthAddr.
      rbind (optionalBoundedUint64 ''INDEXER_CHUNK_SIZE'' (evIndexerChunkSize v) 100 1 10000) (\<lambda>chunkSize.
      rbind (optionalBoundedUint64 ''INDEXER_REORG_SEARCH_DEPTH'' (evIndexerReorgSearchDepth v) 128 1 100000)
        (\<lambda>reorgSearchDepth.
      rbind (optionalRecoveryMode (evIndexerReorgRecoveryMode v)) (\<lambda>reorgRecoveryMode.
      if reorgSearchDepth > 128 \<and> \<not> reorgRecoveryMode
      then Inl (FieldError ''INDEXER_REORG_RECOVERY_MODE'' ErrInvalid)
      else if reorgRecoveryMode \<and> reorgSearchDepth \<le> 128
      then Inl (FieldError ''INDEXER_REORG_SEARCH_DEPTH'' ErrInvalid) else
      rbind (optionalUint64 ''INDEXER_CONFIRMATIONS'' (evIndexerConfirmations v)) (\<lambda>confirmations.
      Inr \<lparr>cfChainID = chainID, cfDeploymentID = evDeploymentID v, cfRPCURL = evRpcURL v,
        cfDatabaseURL = evDatabaseURL v, cfPrivyAppID = evPrivyAppID v,
        cfPrivyVerificationKey = evPrivyVerificationKey v, cfLogLevel = logLevel, cfAPIAddr = apiAddr,
        cfAPIAllowedOrigins = apiOrigins, cfIndexerHealthAddr = indexerHealthAddr,
        cfIndexerChunkSize = chunkSize, cfIndexerReorgSearchDepth = reorgSearchDepth,
        cfIndexerReorgRecoveryMode = reorgRecoveryMode, cfIndexerLogAddressBatchSize = addressBatchSize,
        cfIndexerPollInterval = pollInterval, cfRPCTimeout = rpcTimeout, cfRPCMaxRetries = rpcMaxRetries,
        cfRPCRetryBackoff = rpcRetryBackoff, cfIndexerWorkerID = evIndexerWorkerID v,
        cfIndexerConfirmations = confirmations, cfETHUSDSource = evEthUSDSource v\<rparr>)))))))))))))))))"

definition LoadDatabase :: "net_library \<Rightarrow> (string \<Rightarrow> string) option \<Rightarrow> config_error + string" where
  "LoadDatabase lib getenv =
     (case getenv of None \<Rightarrow> Inl (FieldError ''getenv'' ErrMissing) | Some env \<Rightarrow>
      let databaseURL = TrimSpace (env ''DATABASE_URL'') in
      rbind (validateURL lib ''DATABASE_URL'' databaseURL [''postgres'', ''postgresql'']) (\<lambda>_. Inr databaseURL))"

definition RequireAPI :: "Config \<Rightarrow> config_error + unit" where
  "RequireAPI c =
     (if TrimSpace (cfPrivyAppID c) = [] then Inl (FieldError ''PRIVY_APP_ID'' ErrMissing)
      else if TrimSpace (cfPrivyVerificationKey c) = [] then Inl (FieldError ''PRIVY_VERIFICATION_KEY'' ErrMissing)
      else Inr ())"

definition RequireIndexer :: "Config \<Rightarrow> config_error + unit" where
  "RequireIndexer c = (if TrimSpace (cfIndexerWorkerID c) = [] then Inl (FieldError ''INDEXER_WORKER_ID'' ErrMissing)
     else Inr ())"

section \<open>Settings of the indexer\<close>

text \<open>The entry point converts the unsigned settings to the engine's signed ones.\<close>

definition indexerSettings :: "Config \<Rightarrow> Deployment \<Rightarrow> Settings" where
  "indexerSettings c deployment =
     \<lparr>seChainID = sint (cfChainID c), seDeploymentID = cfDeploymentID c, seFactory = dpFactory deployment,
      seStartBlock = sint (dpStartBlock deployment), seChunkSize = sint (cfIndexerChunkSize c),
      sePollInterval = cfIndexerPollInterval c, seReorgSearchDepth = unat (cfIndexerReorgSearchDepth c),
      seReorgRecoveryMode = cfIndexerReorgRecoveryMode c\<rparr>"

section \<open>What a loaded configuration satisfies\<close>

lemma requiredPositiveUint64_pos: "requiredPositiveUint64 field value = Inr n \<Longrightarrow> 0 < n"
proof -
  assume a: "requiredPositiveUint64 field value = Inr n"
  then have p: "digits_value value < 2 ^ 64" "digits_value value \<noteq> 0" "n = of_nat (digits_value value)"
    by (auto simp: requiredPositiveUint64_def ParseUint_def split: if_splits)
  then have "unat n = digits_value value" by (simp add: unat_of_nat take_bit_nat_eq_self)
  then show "0 < n" using p(2) by (metis unat_0 word_neq_0_conv)
qed

lemma optionalBoundedUint64_bounds:
  "optionalBoundedUint64 field value dflt lo hi = Inr n \<Longrightarrow> lo \<le> dflt \<Longrightarrow> dflt \<le> hi \<Longrightarrow> lo \<le> n \<and> n \<le> hi"
  by (auto simp: optionalBoundedUint64_def split: if_splits option.splits)

lemma optionalPositiveDuration_pos:
  "optionalPositiveDuration lib field value dflt = Inr n \<Longrightarrow> 0 < dflt \<Longrightarrow> 0 < n"
  by (auto simp: optionalPositiveDuration_def split: if_splits option.splits)

definition origin_ok :: "net_library \<Rightarrow> string \<Rightarrow> bool" where
  "origin_ok lib origin \<longleftrightarrow> (\<exists>u. nlParseURL lib origin = Some u \<and> urScheme u \<in> {''http'', ''https''} \<and> urHost u \<noteq> []
     \<and> urPath u = [] \<and> urRawQuery u = [] \<and> urFragment u = [])"

lemma addOrigin_ok:
  "addOrigin lib part out = Inr out' \<Longrightarrow> distinct out \<and> (\<forall>x \<in> set out. origin_ok lib x) \<Longrightarrow>
   distinct out' \<and> (\<forall>x \<in> set out'. origin_ok lib x)"
  by (auto simp: addOrigin_def origin_ok_def Let_def split: if_splits option.splits)

lemma parseOrigins_ok:
  assumes "parseOrigins lib value = Inr out"
  shows "distinct out \<and> (\<forall>x \<in> set out. origin_ok lib x)"
proof (cases "value = []")
  case False
  then have "rfold (addOrigin lib) (strings_Split CHR '','' value) [] = Inr out" using assms by (simp add: parseOrigins_def)
  from rfold_invariant[where P = "\<lambda>out. distinct out \<and> (\<forall>x \<in> set out. origin_ok lib x)", OF _ _ this]
  show ?thesis using addOrigin_ok by auto
qed (use assms in \<open>simp add: parseOrigins_def\<close>)

lemma config_Load_fields:
  assumes "config_Load lib (Some env) = Inr c"
  shows "requiredPositiveUint64 ''CHAIN_ID'' (TrimSpace (env ''CHAIN_ID'')) = Inr (cfChainID c)"
    "\<exists>value. optionalBoundedUint64 ''INDEXER_LOG_ADDRESS_BATCH_SIZE'' value 500 1 2000 = Inr (cfIndexerLogAddressBatchSize c)"
    "\<exists>value. optionalPositiveDuration lib ''INDEXER_POLL_INTERVAL'' value secondDuration = Inr (cfIndexerPollInterval c)"
    "\<exists>value. optionalPositiveDuration lib ''RPC_TIMEOUT'' value (10 * secondDuration) = Inr (cfRPCTimeout c)"
    "\<exists>value. optionalBoundedUint64 ''RPC_MAX_RETRIES'' value 3 0 20 = Inr (cfRPCMaxRetries c)"
    "\<exists>value. optionalPositiveDuration lib ''RPC_RETRY_BACKOFF'' value (secondDuration div 4) = Inr (cfRPCRetryBackoff c)"
    "deploymentIDPattern (cfDeploymentID c)"
    "validateURL lib ''RPC_URL'' (cfRPCURL c) [''http'', ''https''] = Inr ()"
    "validateURL lib ''DATABASE_URL'' (cfDatabaseURL c) [''postgres'', ''postgresql''] = Inr ()"
    "\<exists>value. parseOrigins lib value = Inr (cfAPIAllowedOrigins c)"
    "\<exists>value. optionalBoundedUint64 ''INDEXER_CHUNK_SIZE'' value 100 1 10000 = Inr (cfIndexerChunkSize c)"
    "\<exists>value. optionalBoundedUint64 ''INDEXER_REORG_SEARCH_DEPTH'' value 128 1 100000 = Inr (cfIndexerReorgSearchDepth c)"
    "cfIndexerReorgRecoveryMode c \<longleftrightarrow> 128 < cfIndexerReorgSearchDepth c"
    "\<exists>value. parseAPIAddr value = Inr (cfAPIAddr c)"
    "\<exists>value. parseListenerAddr ''INDEXER_HEALTH_ADDR'' value '':8081'' = Inr (cfIndexerHealthAddr c)"
  using assms unfolding config_Load_def Let_def option.case
  by (auto simp: result_iff readEnvironment_def split: if_splits)

lemma parseListenerAddr_port:
  "parseListenerAddr field value dflt = Inr listener \<Longrightarrow>
   \<exists>host port n. SplitHostPort listener = Some (host, port) \<and> ParseUint port 16 = Some n \<and> 0 < n \<and> n < 2 ^ 16"
  by (force simp: parseListenerAddr_def Let_def ParseUint_def split: option.splits if_splits)

lemma validateURL_Inr:
  "validateURL lib field value schemes = Inr u \<longleftrightarrow>
   value \<noteq> [] \<and> (\<exists>p. nlParseURL lib value = Some p \<and> urHost p \<noteq> [] \<and> urScheme p \<in> set schemes)"
  by (auto simp: validateURL_def split: option.splits)

text \<open>
  A configuration that loads is within every limit the processes rely on: a positive chain ID, a
  well-formed deployment ID, positive intervals, bounded chunk, batch, retry and search-depth values,
  recovery mode on exactly when the search depth exceeds the default, an HTTP provider and a
  PostgreSQL database with a host, listeners with a numeric non-zero port, and allowed origins that
  are bare HTTP origins without repetitions.
\<close>

theorem config_sound:
  assumes "config_Load lib getenv = Inr c"
  shows "0 < cfChainID c \<and> deploymentIDPattern (cfDeploymentID c)
    \<and> 1 \<le> cfIndexerChunkSize c \<and> cfIndexerChunkSize c \<le> 10000
    \<and> 1 \<le> cfIndexerLogAddressBatchSize c \<and> cfIndexerLogAddressBatchSize c \<le> 2000
    \<and> 1 \<le> cfIndexerReorgSearchDepth c \<and> cfIndexerReorgSearchDepth c \<le> 100000
    \<and> (cfIndexerReorgRecoveryMode c \<longleftrightarrow> 128 < cfIndexerReorgSearchDepth c)
    \<and> cfRPCMaxRetries c \<le> 20
    \<and> 0 < cfIndexerPollInterval c \<and> 0 < cfRPCTimeout c \<and> 0 < cfRPCRetryBackoff c
    \<and> (\<exists>u. nlParseURL lib (cfRPCURL c) = Some u \<and> urHost u \<noteq> [] \<and> urScheme u \<in> {''http'', ''https''})
    \<and> (\<exists>u. nlParseURL lib (cfDatabaseURL c) = Some u \<and> urHost u \<noteq> [] \<and> urScheme u \<in> {''postgres'', ''postgresql''})
    \<and> (\<forall>listener \<in> {cfAPIAddr c, cfIndexerHealthAddr c}. \<exists>host port n.
        SplitHostPort listener = Some (host, port) \<and> ParseUint port 16 = Some n \<and> 0 < n \<and> n < 2 ^ 16)
    \<and> distinct (cfAPIAllowedOrigins c) \<and> (\<forall>x \<in> set (cfAPIAllowedOrigins c). origin_ok lib x)"
proof -
  obtain env where "getenv = Some env" using assms by (cases getenv) (simp_all add: config_Load_def)
  note f = config_Load_fields[OF assms[unfolded this]]
  have "0 < cfChainID c" using f(1) by (rule requiredPositiveUint64_pos)
  moreover have "1 \<le> cfIndexerLogAddressBatchSize c \<and> cfIndexerLogAddressBatchSize c \<le> 2000"
    "cfRPCMaxRetries c \<le> 20" "1 \<le> cfIndexerChunkSize c \<and> cfIndexerChunkSize c \<le> 10000"
    "1 \<le> cfIndexerReorgSearchDepth c \<and> cfIndexerReorgSearchDepth c \<le> 100000"
    using f(2,5,11,12) optionalBoundedUint64_bounds by fastforce+
  moreover have "0 < cfIndexerPollInterval c" "0 < cfRPCTimeout c" "0 < cfRPCRetryBackoff c"
    using f(3,4,6) optionalPositiveDuration_pos by (force simp: secondDuration_def)+
  moreover have "\<forall>listener \<in> {cfAPIAddr c, cfIndexerHealthAddr c}. \<exists>host port n.
      SplitHostPort listener = Some (host, port) \<and> ParseUint port 16 = Some n \<and> 0 < n \<and> n < 2 ^ 16"
    using f(14,15) parseListenerAddr_port unfolding parseAPIAddr_def by blast
  moreover have "distinct (cfAPIAllowedOrigins c) \<and> (\<forall>x \<in> set (cfAPIAllowedOrigins c). origin_ok lib x)"
    using f(10) parseOrigins_ok by blast
  moreover have "(\<exists>u. nlParseURL lib (cfRPCURL c) = Some u \<and> urHost u \<noteq> [] \<and> urScheme u \<in> {''http'', ''https''})
    \<and> (\<exists>u. nlParseURL lib (cfDatabaseURL c) = Some u \<and> urHost u \<noteq> [] \<and> urScheme u \<in> {''postgres'', ''postgresql''})"
    using f(8,9) by (auto simp: validateURL_Inr)
  ultimately show ?thesis using f(7,13) by blast
qed

section \<open>A configuration\<close>

definition demo_net :: net_library where
  "demo_net = \<lparr>nlParseURL = (\<lambda>s. if s = ''http://rpc'' then Some \<lparr>urScheme = ''http'', urHost = ''rpc'', urPath = [],
       urRawQuery = [], urFragment = []\<rparr>
     else if s = ''postgres://db/launch'' then Some \<lparr>urScheme = ''postgres'', urHost = ''db'', urPath = ''/launch'',
       urRawQuery = [], urFragment = []\<rparr> else None), nlParseDuration = (\<lambda>_. None)\<rparr>"

definition demo_env :: "string \<Rightarrow> string" where
  "demo_env s = (if s = ''CHAIN_ID'' then '' 7 '' else if s = ''DEPLOYMENT_ID'' then ''demo-v1''
     else if s = ''RPC_URL'' then ''http://rpc'' else if s = ''DATABASE_URL'' then ''postgres://db/launch''
     else if s = ''INDEXER_WORKER_ID'' then ''w1'' else if s = ''API_ALLOWED_ORIGINS'' then ''http://rpc, http://rpc''
     else [])"

definition demo_config :: Config where
  "demo_config = \<lparr>cfChainID = 7, cfDeploymentID = ''demo-v1'', cfRPCURL = ''http://rpc'',
     cfDatabaseURL = ''postgres://db/launch'', cfPrivyAppID = [], cfPrivyVerificationKey = [],
     cfLogLevel = ''info'', cfAPIAddr = '':8080'', cfAPIAllowedOrigins = [''http://rpc''],
     cfIndexerHealthAddr = '':8081'', cfIndexerChunkSize = 100, cfIndexerReorgSearchDepth = 128,
     cfIndexerReorgRecoveryMode = False, cfIndexerLogAddressBatchSize = 500,
     cfIndexerPollInterval = 10 ^ 9, cfRPCTimeout = 10 ^ 10, cfRPCMaxRetries = 3,
     cfRPCRetryBackoff = 250000000, cfIndexerWorkerID = ''w1'',
     cfIndexerConfirmations = None, cfETHUSDSource = []\<rparr>"

lemma demo_trim: "TrimSpace [] = []" "TrimSpace '' 7 '' = ''7''" "TrimSpace ''demo-v1'' = ''demo-v1''"
  "TrimSpace ''http://rpc'' = ''http://rpc''" "TrimSpace ''postgres://db/launch'' = ''postgres://db/launch''"
  "TrimSpace ''w1'' = ''w1''" "TrimSpace ''http://rpc, http://rpc'' = ''http://rpc, http://rpc''"
  "TrimSpace '' http://rpc'' = ''http://rpc''"
  by (simp_all add: TrimSpace_def is_space_def)

lemma demo_config_load: "config_Load demo_net (Some demo_env) = Inr demo_config"
proof -
  have "ParseUint ''7'' 64 = Some 7" "ParseUint ''8080'' 16 = Some 8080" "ParseUint ''8081'' 16 = Some 8081"
    by (simp_all add: ParseUint_def is_digit_def digits_value_def)
  moreover have "SplitHostPort '':8080'' = Some ([], ''8080'')" "SplitHostPort '':8081'' = Some ([], ''8081'')"
    by (simp_all add: SplitHostPort_def last_index_of_def)
  moreover have "deploymentIDPattern ''demo-v1''"
    by (simp add: deploymentIDPattern_def id_head_def id_tail_def is_digit_def)
  moreover have "parseOrigins demo_net ''http://rpc, http://rpc'' = Inr [''http://rpc'']"
    by (simp add: parseOrigins_def addOrigin_def demo_trim demo_net_def Let_def)
  ultimately show ?thesis
    by (simp add: config_Load_def readEnvironment_def demo_env_def demo_trim requiredPositiveUint64_def
        optionalBoundedUint64_def optionalPositiveDuration_def optionalRecoveryMode_def optionalUint64_def
        validateURL_def parseLogLevel_def parseAPIAddr_def parseListenerAddr_def secondDuration_def demo_net_def
        demo_config_def Let_def)
qed

theorem config_sound_witness:
  "cfAPIAllowedOrigins demo_config = [''http://rpc''] \<and> origin_ok demo_net ''http://rpc'' \<and> cfIndexerChunkSize demo_config \<le> 10000"
  using config_sound[OF demo_config_load] by (simp add: demo_config_def)

section \<open>From the environment to a running engine\<close>

lemma sint_cases: "sint (n::64 word) = (if n < 2 ^ 63 then uint n else uint n - 2 ^ 64)"
proof -
  have "sint n = (uint n + 2 ^ 63) mod 2 ^ 64 - 2 ^ 63"
    by (simp add: sint_uint signed_take_bit_eq_take_bit_shift take_bit_eq_mod)
  moreover have "n < 2 ^ 63 \<longleftrightarrow> uint n < 2 ^ 63" by (simp add: word_less_def)
  moreover have "0 \<le> uint n" "uint n < 2 ^ 64" using uint_lt2p[of n] by simp_all
  moreover have "(uint n + 2 ^ 63) mod 2 ^ 64 = uint n + 2 ^ 63 - 2 ^ 64" if "\<not> uint n < 2 ^ 63"
    using that \<open>uint n < 2 ^ 64\<close> by (subst mod_pos_geq) (simp_all add: mod_pos_pos_trivial)
  ultimately show ?thesis by auto
qed

lemma sint_nonneg_iff: "0 \<le> sint (n::64 word) \<longleftrightarrow> n < 2 ^ 63"
  using uint_lt2p[of n] by (simp add: sint_cases)

text \<open>
  C36: A process that passes its start-up checks can run. For a configuration that loads and the
  deployment a loaded registry resolves for it, the engine accepts the settings unchanged exactly
  when the chain ID and the start block fit the engine's signed 64-bit heights, in which case none
  of them changes its value on conversion; and the discoverer is built and the engine version is
  the decoder's, so the limits the configuration and the engine enforce are the same.
\<close>

theorem configured_indexer_accepted:
  assumes "config_Load lib getenv = Inr c" "Load hx js fsys = Inr r" "hash_documented hx"
    and "Resolve (Some r) (cfChainID c) (cfDeploymentID c) (cfIndexerConfirmations c) = Inr d"
  shows "(is_ok (New (indexerSettings c d)) \<longleftrightarrow> cfChainID c < 2 ^ 63 \<and> dpStartBlock d < 2 ^ 63)
    \<and> (is_ok (New (indexerSettings c d)) \<longrightarrow> New (indexerSettings c d) = Inr (indexerSettings c d)
        \<and> seChainID (indexerSettings c d) = uint (dpChainID d)
        \<and> seStartBlock (indexerSettings c d) = uint (dpStartBlock d)
        \<and> seChunkSize (indexerSettings c d) = uint (cfIndexerChunkSize c))
    \<and> is_ok (indexerDiscoverer keccak caller (Some source) (Some decoder) d (cfIndexerLogAddressBatchSize c))
    \<and> NewDecoder readABI (dpEngineVersion d) = NewDecoder readABI 1"
proof -
  obtain env where "getenv = Some env" using assms(1) by (cases getenv) (simp_all add: config_Load_def)
  note f = config_Load_fields[OF assms(1)[unfolded this]]
  have chain: "0 < cfChainID c" using f(1) by (rule requiredPositiveUint64_pos)
  have b: "1 \<le> cfIndexerLogAddressBatchSize c \<and> cfIndexerLogAddressBatchSize c \<le> 2000"
    "1 \<le> cfIndexerChunkSize c \<and> cfIndexerChunkSize c \<le> 10000"
    "1 \<le> cfIndexerReorgSearchDepth c \<and> cfIndexerReorgSearchDepth c \<le> 100000"
    using f(2,11,12) optionalBoundedUint64_bounds by fastforce+
  have poll: "0 < cfIndexerPollInterval c"
    using f(3) optionalPositiveDuration_pos by (force simp: secondDuration_def)
  have id: "cfDeploymentID c \<noteq> []" using f(7) by (auto simp: deploymentIDPattern_def)
  have d: "Lookup (Some r) (cfChainID c) (cfDeploymentID c) = Inr d" "dpChainID d = cfChainID c"
    using assms(4) by (auto simp: Resolve_def ReconcileConfig_def result_iff split: if_splits)
  then have rev: "reviewed d" using Lookup_reviewed[OF assms(2,3)] by blast
  have depth: "1 \<le> unat (cfIndexerReorgSearchDepth c)" "unat (cfIndexerReorgSearchDepth c) \<le> 100000"
    "128 < cfIndexerReorgSearchDepth c \<longleftrightarrow> 128 < unat (cfIndexerReorgSearchDepth c)"
    using b(3) by (simp_all add: word_le_nat_alt word_less_nat_alt)
  have chunk: "cfIndexerChunkSize c < 2 ^ 63" using b(2) by (auto intro: le_less_trans)
  then have chunk': "sint (cfIndexerChunkSize c) = uint (cfIndexerChunkSize c)" "0 < uint (cfIndexerChunkSize c)"
    using b(2) by (simp_all add: sint_cases word_le_def)
  have chain': "0 < sint (cfChainID c) \<longleftrightarrow> cfChainID c < 2 ^ 63"
    using chain sint_nonneg_iff[of "cfChainID c"] signed_eq_0_iff[of "cfChainID c", where ?'a = int]
    by (metis less_le word_not_simps(1))
  have new: "New (indexerSettings c d) = (if cfChainID c < 2 ^ 63 \<and> dpStartBlock d < 2 ^ 63 then Inr (indexerSettings c d)
      else Inl (OtherError ''invalid indexer dependencies or settings''))"
    using id poll depth chunk' chain' sint_nonneg_iff[of "dpStartBlock d"] f(13)
    by (auto simp: New_def indexerSettings_def Let_def maxReorgSearchDepth_def defaultReorgSearchDepth_def not_le not_less)
  have "is_ok (indexerDiscoverer keccak caller (Some source) (Some decoder) d (cfIndexerLogAddressBatchSize c))"
    using rev b(1) le_less_trans[of "cfIndexerLogAddressBatchSize c" 2000 "2 ^ 63 - 1"]
    by (auto simp: indexerDiscoverer_def NewDiscovererWithPairVerification_def NewDiscoverer_def reviewed_def not_less)
  then show ?thesis
    using new rev chunk' d(2) by (auto simp: indexerSettings_def sint_cases reviewed_def)
qed

theorem configured_indexer_accepted_witness:
  "New (indexerSettings demo_config demo_deployment) = Inr (indexerSettings demo_config demo_deployment) \<and>
   seStartBlock (indexerSettings demo_config demo_deployment) = 5"
proof -
  have r: "Resolve (Some demo_registry) (cfChainID demo_config) (cfDeploymentID demo_config)
      (cfIndexerConfirmations demo_config) = Inr demo_deployment"
    by (simp add: Resolve_def Lookup_def ReconcileConfig_def demo_registry_def demo_config_def demo_deployment_def
        deployment_of_def demo_raw_def)
  have "dpStartBlock demo_deployment = 5" by (simp add: demo_deployment_def deployment_of_def demo_raw_def)
  then show ?thesis
    using configured_indexer_accepted[OF demo_config_load demo_load demo_documented r]
    by (simp add: demo_config_def)
qed

end
