(* ===== verification/Indexer_Health.thy ===== *)
theory Indexer_Health
  imports Indexer_Safety
begin

text \<open>
  The health surface of the indexer (\<^verbatim>\<open>indexer/health.go\<close>) and the exit code of the process
  (\<^verbatim>\<open>indexer/shutdown.go\<close>). The tracker's methods each run under its mutex, so a history of
  concurrent calls is a sequence of them. Times and lags are in seconds; the wall clock is an
  argument. The text of an error is not modelled beyond its string.
\<close>

section \<open>The tracker\<close>

record OperationalHealth =
  ohDirtyWork :: int
  ohLastReorgID :: int
  ohLastReorgDepth :: int
  ohLastReorgAt :: int
  ohPhaseCounts :: "(string \<times> int) list option"

record Health =
  hlDeploymentID :: string
  hlChainID :: int
  hlObserved :: int
  hlSafe :: int
  hlFinalized :: int
  hlObservedAt :: int
  hlSafeAt :: int
  hlFinalizedAt :: int
  hlObservedLag :: int
  hlSafeLag :: int
  hlFinalizedLag :: int
  hlOwnershipHeld :: bool
  hlRPCHealthy :: bool
  hlDirtyWork :: int
  hlLastReorgID :: int
  hlLastReorgDepth :: int
  hlLastReorgAt :: int
  hlPhaseCounts :: "(string \<times> int) list option"
  hlLastError :: string

text \<open>The errors handed to the tracker: their text, and whether they wrap the RPC sentinel.\<close>

record health_error =
  heText :: string
  heRPC :: bool

definition cloneCounts :: "(string \<times> int) list option \<Rightarrow> (string \<times> int) list option" where
  "cloneCounts source = map_option (\<lambda>m. fold (\<lambda>(key, value). AList.update key value) m []) source"

definition healthLag :: "int \<Rightarrow> int \<Rightarrow> int" where
  "healthLag now t = (if t = zero_time \<or> now < t then 0 else now - t)"

definition healthBlock :: "IndexedBlock option \<Rightarrow> int \<times> int" where
  "healthBlock point = (case point of None \<Rightarrow> (0, zero_time) | Some b \<Rightarrow> (ibBlockNumber b, ibBlockTime b))"

definition tracker_Set :: "Health \<Rightarrow> Health" where
  "tracker_Set snapshot = snapshot\<lparr>hlPhaseCounts := cloneCounts (hlPhaseCounts snapshot)\<rparr>"

definition tracker_Update :: "(Health \<Rightarrow> Health) \<Rightarrow> Health \<Rightarrow> Health" where
  "tracker_Update update h = (let s = update h in s\<lparr>hlPhaseCounts := cloneCounts (hlPhaseCounts s)\<rparr>)"

definition withLags :: "int \<Rightarrow> Health \<Rightarrow> Health" where
  "withLags now s = s\<lparr>hlObservedLag := healthLag now (hlObservedAt s), hlSafeLag := healthLag now (hlSafeAt s),
     hlFinalizedLag := healthLag now (hlFinalizedAt s)\<rparr>"

definition Committed :: "State \<Rightarrow> int \<Rightarrow> Health \<Rightarrow> Health" where
  "Committed state now = tracker_Update (\<lambda>snapshot.
     (withLags now (snapshot\<lparr>hlChainID := stChainID state, hlDeploymentID := stDeploymentID state,
        hlObserved := fst (healthBlock (stObserved state)), hlObservedAt := snd (healthBlock (stObserved state)),
        hlSafe := fst (healthBlock (stSafe state)), hlSafeAt := snd (healthBlock (stSafe state)),
        hlFinalized := fst (healthBlock (stFinalized state)), hlFinalizedAt := snd (healthBlock (stFinalized state))\<rparr>))
       \<lparr>hlRPCHealthy := True, hlLastError := []\<rparr>)"

definition Failed :: "health_error option \<Rightarrow> Health \<Rightarrow> Health" where
  "Failed err h = (case err of None \<Rightarrow> h
     | Some e \<Rightarrow> tracker_Update (\<lambda>snapshot. let s = snapshot\<lparr>hlLastError := heText e\<rparr> in
         if heRPC e then s\<lparr>hlRPCHealthy := False\<rparr> else s) h)"

definition tracker_OwnershipLost :: "health_error option \<Rightarrow> Health \<Rightarrow> Health" where
  "tracker_OwnershipLost err = tracker_Update (\<lambda>snapshot. let s = snapshot\<lparr>hlOwnershipHeld := False\<rparr> in
     case err of None \<Rightarrow> s | Some e \<Rightarrow> s\<lparr>hlLastError := heText e\<rparr>)"

definition Operational :: "OperationalHealth \<Rightarrow> Health \<Rightarrow> Health" where
  "Operational v = tracker_Update (\<lambda>snapshot. snapshot\<lparr>hlDirtyWork := ohDirtyWork v, hlLastReorgID := ohLastReorgID v,
     hlLastReorgDepth := ohLastReorgDepth v, hlLastReorgAt := ohLastReorgAt v,
     hlPhaseCounts := cloneCounts (ohPhaseCounts v)\<rparr>)"

definition Snapshot :: "int \<Rightarrow> Health \<Rightarrow> Health" where
  "Snapshot now h = (withLags now h)\<lparr>hlPhaseCounts := cloneCounts (hlPhaseCounts h)\<rparr>"

definition ready :: "Health \<Rightarrow> bool" where
  "ready s \<longleftrightarrow> hlChainID s > 0 \<and> hlOwnershipHeld s \<and> hlRPCHealthy s \<and> hlLastError s = [] \<and> hlObservedAt s \<noteq> zero_time"

text \<open>The status code and the body of the health endpoint.\<close>

definition HealthHandler :: "int \<Rightarrow> Health \<Rightarrow> int \<times> Health" where
  "HealthHandler now h = (let snapshot = Snapshot now h in (if \<not> ready snapshot then 503 else 200, snapshot))"

text \<open>The snapshot the entry point starts from.\<close>

definition initialHealth :: "int \<Rightarrow> string \<Rightarrow> Health" where
  "initialHealth chainID deploymentID = tracker_Set
     \<lparr>hlDeploymentID = deploymentID, hlChainID = chainID, hlObserved = 0, hlSafe = 0, hlFinalized = 0,
      hlObservedAt = zero_time, hlSafeAt = zero_time, hlFinalizedAt = zero_time, hlObservedLag = 0, hlSafeLag = 0,
      hlFinalizedLag = 0, hlOwnershipHeld = True, hlRPCHealthy = True, hlDirtyWork = 0, hlLastReorgID = 0,
      hlLastReorgDepth = 0, hlLastReorgAt = zero_time, hlPhaseCounts = None, hlLastError = []\<rparr>"

section \<open>Exit code\<close>

text \<open>An error is the list of the sentinels it wraps.\<close>

definition ExitCode :: "idx_error list option \<Rightarrow> int" where
  "ExitCode err = (case err of None \<Rightarrow> 0
     | Some wrapped \<Rightarrow>
       if CommitUnknown \<in> set wrapped \<or> OwnershipLost \<in> set wrapped then 1
       else if ContextDone \<in> set wrapped then 0 else 1)"

section \<open>Histories\<close>

datatype health_call =
    CallCommitted State int
  | CallFailed "health_error option"
  | CallOwnershipLost "health_error option"
  | CallOperational OperationalHealth

fun health_apply :: "health_call \<Rightarrow> Health \<Rightarrow> Health" where
  "health_apply (CallCommitted s now) = Committed s now"
| "health_apply (CallFailed err) = Failed err"
| "health_apply (CallOwnershipLost err) = tracker_OwnershipLost err"
| "health_apply (CallOperational v) = Operational v"

text \<open>The state of the last commit, if no failure was reported after it.\<close>

fun commit_status :: "health_call \<Rightarrow> State option \<Rightarrow> State option" where
  "commit_status (CallCommitted s _) _ = Some s"
| "commit_status (CallFailed (Some _)) _ = None"
| "commit_status _ acc = acc"

definition since_commit :: "health_call list \<Rightarrow> State option" where
  "since_commit calls = fold commit_status calls None"

definition lost :: "health_call list \<Rightarrow> bool" where
  "lost calls \<longleftrightarrow> (\<exists>err. CallOwnershipLost err \<in> set calls)"

fun call_text_ok :: "health_call \<Rightarrow> bool" where
  "call_text_ok (CallFailed (Some e)) = (heText e \<noteq> [])"
| "call_text_ok _ = True"

definition reports :: "Health \<Rightarrow> State \<Rightarrow> bool" where
  "reports h s \<longleftrightarrow> hlChainID h = stChainID s \<and> hlDeploymentID h = stDeploymentID s
     \<and> (hlObserved h, hlObservedAt h) = healthBlock (stObserved s)
     \<and> (hlSafe h, hlSafeAt h) = healthBlock (stSafe s)
     \<and> (hlFinalized h, hlFinalizedAt h) = healthBlock (stFinalized s)"

definition health_inv :: "health_call list \<Rightarrow> Health \<Rightarrow> bool" where
  "health_inv calls h \<longleftrightarrow> hlOwnershipHeld h = (\<not> lost calls) \<and>
     (\<not> lost calls \<longrightarrow> (case since_commit calls of
        Some s \<Rightarrow> hlRPCHealthy h \<and> hlLastError h = [] \<and> reports h s
      | None \<Rightarrow> hlLastError h \<noteq> [] \<or> hlObservedAt h = zero_time))"

lemmas tracker_defs = tracker_Update_def withLags_def Committed_def Failed_def tracker_OwnershipLost_def
  Operational_def Let_def

lemma lost_snoc: "lost (calls @ [c]) \<longleftrightarrow> lost calls \<or> (\<exists>err. c = CallOwnershipLost err)"
  by (auto simp: lost_def)

lemma health_inv_step:
  assumes "health_inv calls h" "call_text_ok c"
  shows "health_inv (calls @ [c]) (health_apply c h)"
proof (cases c)
  case (CallFailed err)
  then show ?thesis using assms by (cases err) (auto simp: health_inv_def lost_snoc since_commit_def tracker_defs)
next
  case (CallOwnershipLost err)
  then show ?thesis by (cases err) (auto simp: health_inv_def lost_snoc tracker_defs)
qed (use assms in \<open>auto simp: health_inv_def lost_snoc since_commit_def tracker_defs reports_def split: option.splits\<close>)

lemma health_inv_fold:
  "list_all call_text_ok calls \<Longrightarrow> health_inv calls (fold health_apply calls (initialHealth chainID deploymentID))"
proof (induction calls rule: rev_induct)
  case Nil
  then show ?case by (simp add: health_inv_def lost_def since_commit_def initialHealth_def tracker_Set_def)
next
  case (snoc c calls)
  then show ?case by (simp add: health_inv_step)
qed

section \<open>Properties\<close>

text \<open>
  Readiness never lies. After any sequence of tracker calls from start-up (in which reported
  errors have a text), the endpoint answers 200 exactly when ownership was never lost and the last
  commit was followed by no failure, was for a positive chain and had an observed block with a
  time; and then the chain, deployment, heights and block times it reports are those of that
  committed state. Lost ownership is final, and operational counters never affect readiness.
\<close>

theorem health_ready:
  assumes "list_all call_text_ok calls"
    and "HealthHandler now (fold health_apply calls (initialHealth chainID deploymentID)) = (code, body)"
  shows "(code = 200 \<longleftrightarrow> \<not> lost calls \<and> (\<exists>s. since_commit calls = Some s \<and> 0 < stChainID s
      \<and> snd (healthBlock (stObserved s)) \<noteq> zero_time))
    \<and> (code = 200 \<longrightarrow> reports body (the (since_commit calls)))
    \<and> (code = 200 \<or> code = 503)"
proof -
  let ?h = "fold health_apply calls (initialHealth chainID deploymentID)"
  have inv: "health_inv calls ?h" by (rule health_inv_fold[OF assms(1)])
  have body: "body = Snapshot now ?h" "code = (if ready ?h then 200 else 503)"
    using assms(2) by (auto simp: HealthHandler_def Let_def ready_def Snapshot_def withLags_def)
  have "ready ?h \<longleftrightarrow> \<not> lost calls \<and> (\<exists>s. since_commit calls = Some s \<and> 0 < stChainID s
      \<and> snd (healthBlock (stObserved s)) \<noteq> zero_time)"
    using inv by (cases "since_commit calls") (auto simp: health_inv_def ready_def reports_def prod_eq_iff)
  moreover have "reports body (the (since_commit calls))" if "ready ?h"
    using inv that by (cases "since_commit calls")
      (auto simp: health_inv_def ready_def reports_def body Snapshot_def withLags_def)
  ultimately show ?thesis by (simp add: body)
qed

definition demo_committed :: State where
  "demo_committed = \<lparr>stChainID = 7, stDeploymentID = ''demo-v1'', stObserved = Some \<lparr>ibChainID = 7, ibBlockNumber = 12,
     ibBlockHash = 1, ibParentHash = 2, ibBlockTime = 1700000000, ibFinalityStatus = ''observed''\<rparr>,
     stSafe = None, stFinalized = None\<rparr>"

theorem health_ready_witness:
  "fst (HealthHandler 1700000010 (fold health_apply
      [CallFailed (Some \<lparr>heText = ''rpc'', heRPC = True\<rparr>), CallCommitted demo_committed 1700000001]
      (initialHealth 7 ''demo-v1''))) = 200"
proof -
  let ?calls = "[CallFailed (Some \<lparr>heText = ''rpc'', heRPC = True\<rparr>), CallCommitted demo_committed 1700000001]"
  obtain code body where h: "HealthHandler 1700000010 (fold health_apply ?calls (initialHealth 7 ''demo-v1'')) = (code, body)"
    by fastforce
  then show ?thesis
    using health_ready[OF _ h] by (simp add: since_commit_def lost_def demo_committed_def healthBlock_def zero_time_def)
qed

end
