(* ===== verification/Quote_Service.thy ===== *)
theory Quote_Service
  imports Curve_Trading Chain_Types
begin

text \<open>
  The quote service (\<^verbatim>\<open>quote/service.go\<close>): it rebuilds the curve's parameters and state from what a
  reader returns and asks the curve engine. The reader is a parameter; of a token's detail only the
  fields the service uses are here. With an error the source also returns the half-filled result,
  which its caller discards.
\<close>

section \<open>The service\<close>

record Detail =
  dtTotalSupply :: bigptr
  dtCurveTokens :: bigptr
  dtLPTokens :: bigptr
  dtGraduationETH :: bigptr
  dtInitialVirtualETH :: bigptr
  dtInitialVirtualToken :: bigptr
  dtTradeFeeBPS :: "16 word"
  dtProtocolShareBPS :: "16 word"
  dtPhase :: string
  dtETHReserve :: bigptr
  dtTokenReserve :: bigptr
  dtReserveBlock :: int
  dtReserveHash :: Hash
  dtSnapshotBlock :: int
  dtFinality :: string

record QuoteState =
  qsDetail :: Detail
  qsProtocolFees :: bigptr
  qsCreatorFees :: bigptr

record Result =
  qrInput :: int
  qrOutput :: int
  qrProtocolFee :: int
  qrCreatorFee :: int
  qrRefund :: int
  qrGraduates :: bool
  qrNextVirtualETH :: bigptr
  qrNextVirtualToken :: bigptr
  qrAsOfBlock :: int
  qrFinality :: string
  qrReserveSourceBlock :: int
  qrReserveSourceHash :: Hash

datatype quote_error = ReadError string | CurveError curve_error | NilAmount

definition curve_result :: "curve_error + 'a \<Rightarrow> quote_error + 'a" where
  "curve_result r = map_sum CurveError id r"

definition emptyResult :: "Detail \<Rightarrow> int \<Rightarrow> Result" where
  "emptyResult d amount = \<lparr>qrInput = amount, qrOutput = 0, qrProtocolFee = 0, qrCreatorFee = 0, qrRefund = 0,
     qrGraduates = False, qrNextVirtualETH = None, qrNextVirtualToken = None, qrAsOfBlock = dtSnapshotBlock d,
     qrFinality = dtFinality d, qrReserveSourceBlock = dtReserveBlock d, qrReserveSourceHash = dtReserveHash d\<rparr>"

definition quoteParameters :: "Detail \<Rightarrow> curve_error + Parameters" where
  "quoteParameters d = NewParameters (dtTotalSupply d) (dtCurveTokens d) (dtLPTokens d) (dtGraduationETH d)
     (dtInitialVirtualETH d) (dtInitialVirtualToken d) (dtTradeFeeBPS d) (dtProtocolShareBPS d)"

definition quoteState :: "QuoteState \<Rightarrow> curve_error + State" where
  "quoteState st = NewState (if dtPhase (qsDetail st) = ''graduated'' then PhaseGraduated else PhaseCurve)
     (dtETHReserve (qsDetail st)) (dtTokenReserve (qsDetail st)) (qsProtocolFees st) (qsCreatorFees st)"

text \<open>Copying a nil amount panics in the source, here the error \<open>NilAmount\<close>.\<close>

definition Quote ::
    "(int \<Rightarrow> Address \<Rightarrow> string + QuoteState) \<Rightarrow> int \<Rightarrow> Address \<Rightarrow> bool \<Rightarrow> bigptr \<Rightarrow> quote_error + Result" where
  "Quote reader chainID address buy amount =
     rbind (map_sum ReadError id (reader chainID address)) (\<lambda>state.
     let d = qsDetail state in
     rbind (curve_result (quoteParameters d)) (\<lambda>p.
     rbind (curve_result (quoteState state)) (\<lambda>cs.
     case amount of None \<Rightarrow> Inl NilAmount | Some a \<Rightarrow>
     let result = emptyResult d a in
     if buy then
       rbind (curve_result (Buy cs p amount)) (\<lambda>q.
       Inr (result\<lparr>qrOutput := tokensOut q, qrProtocolFee := protocolFee q, qrCreatorFee := creatorFee q,
         qrRefund := refund q, qrGraduates := graduates q, qrNextVirtualETH := virtualETH (nextState q),
         qrNextVirtualToken := virtualToken (nextState q)\<rparr>))
     else
       rbind (curve_result (Sell cs p amount)) (\<lambda>q.
       Inr (result\<lparr>qrOutput := ethOut q, qrProtocolFee := sellProtocolFee q, qrCreatorFee := sellCreatorFee q,
         qrRefund := 0, qrNextVirtualETH := virtualETH (sellNextState q),
         qrNextVirtualToken := virtualToken (sellNextState q)\<rparr>)))))"

section \<open>Properties\<close>

text \<open>A stored row that describes a curve with parameters \<open>p\<close> in state \<open>s\<close>.\<close>

definition describes :: "QuoteState \<Rightarrow> Parameters \<Rightarrow> State \<Rightarrow> bool" where
  "describes st p s \<longleftrightarrow> (let d = qsDetail st in
     dtTotalSupply d = totalSupply p \<and> dtCurveTokens d = curveTokens p \<and> dtLPTokens d = lpTokens p
     \<and> dtGraduationETH d = graduationETH p \<and> dtInitialVirtualETH d = initialVirtualETH p
     \<and> dtInitialVirtualToken d = initialVirtualToken p \<and> dtTradeFeeBPS d = tradeFeeBPS p
     \<and> dtProtocolShareBPS d = protocolShareBPS p
     \<and> phase s = (if dtPhase d = ''graduated'' then PhaseGraduated else PhaseCurve)
     \<and> dtETHReserve d = virtualETH s \<and> dtTokenReserve d = virtualToken s
     \<and> qsProtocolFees st = protocolFees s \<and> qsCreatorFees st = creatorFees s)"

lemma NewState_complete:
  "state_uint256 s \<Longrightarrow> NewState (phase s) (virtualETH s) (virtualToken s) (protocolFees s) (creatorFees s) = Inr s"
  by (auto simp: NewState_def state_uint256_def is_uint256_iff copyUint256_def)

lemma curve_result_simps [simp]: "curve_result (Inr a) = Inr a" "curve_result (Inl e) = Inl (CurveError e)"
  by (simp_all add: curve_result_def)

lemma Quote_eq:
  assumes "reader chainID address = Inr st" "describes st p s" "valid_parameters p" "curve_inv p s"
  shows "Quote reader chainID address True (Some a) = rbind (curve_result (Buy s p (Some a))) (\<lambda>q.
       Inr ((emptyResult (qsDetail st) a)\<lparr>qrOutput := tokensOut q, qrProtocolFee := protocolFee q,
         qrCreatorFee := creatorFee q, qrRefund := refund q, qrGraduates := graduates q,
         qrNextVirtualETH := virtualETH (nextState q), qrNextVirtualToken := virtualToken (nextState q)\<rparr>))"
    and "Quote reader chainID address False (Some a) = rbind (curve_result (Sell s p (Some a))) (\<lambda>q.
       Inr ((emptyResult (qsDetail st) a)\<lparr>qrOutput := ethOut q, qrProtocolFee := sellProtocolFee q,
         qrCreatorFee := sellCreatorFee q, qrRefund := 0, qrNextVirtualETH := virtualETH (sellNextState q),
         qrNextVirtualToken := virtualToken (sellNextState q)\<rparr>))"
proof -
  have "quoteParameters (qsDetail st) = Inr p"
    using NewParameters_complete[OF assms(3)] assms(2) by (simp add: quoteParameters_def describes_def Let_def)
  moreover have "quoteState st = Inr s"
    using NewState_complete[of s] assms(2,4) by (simp add: quoteState_def describes_def Let_def curve_inv_def)
  ultimately show "Quote reader chainID address True (Some a) = rbind (curve_result (Buy s p (Some a))) (\<lambda>q.
       Inr ((emptyResult (qsDetail st) a)\<lparr>qrOutput := tokensOut q, qrProtocolFee := protocolFee q,
         qrCreatorFee := creatorFee q, qrRefund := refund q, qrGraduates := graduates q,
         qrNextVirtualETH := virtualETH (nextState q), qrNextVirtualToken := virtualToken (nextState q)\<rparr>))"
    "Quote reader chainID address False (Some a) = rbind (curve_result (Sell s p (Some a))) (\<lambda>q.
       Inr ((emptyResult (qsDetail st) a)\<lparr>qrOutput := ethOut q, qrProtocolFee := sellProtocolFee q,
         qrCreatorFee := sellCreatorFee q, qrRefund := 0, qrNextVirtualETH := virtualETH (sellNextState q),
         qrNextVirtualToken := virtualToken (sellNextState q)\<rparr>))"
    using assms(1) by (simp_all add: Quote_def)
qed

text \<open>
  A quote is the trade it announces. For a stored row that describes a curve within its
  invariant, a quote succeeds precisely when the trade would and fails with the trade's error; its
  amounts are the trade's, so that the input splits exactly into the reserve change, the two fees
  and the refund, the output is what leaves the reserve, and the announced next reserves, with the
  fees accumulated, are again a curve within its invariant.
\<close>

theorem quote_is_trade:
  assumes "reader chainID address = Inr st" "describes st p s" "valid_parameters p" "curve_inv p s"
    and "0 < a" "a \<le> maxUint256" "phase s = PhaseCurve"
  shows "(case (buy_spec p s a, Quote reader chainID address True (Some a)) of
      (Inr q, Inr r) \<Rightarrow> qrOutput r = tokensOut q \<and> qrGraduates r = graduates q
        \<and> the (qrNextVirtualToken r) = sT s - qrOutput r
        \<and> a = (the (qrNextVirtualETH r) - sE s) + qrProtocolFee r + qrCreatorFee r + qrRefund r
        \<and> curve_inv p (nextState q) \<and> virtualETH (nextState q) = qrNextVirtualETH r
        \<and> virtualToken (nextState q) = qrNextVirtualToken r \<and> qrReserveSourceBlock r = dtReserveBlock (qsDetail st)
    | (Inl e, Inl e') \<Rightarrow> e' = CurveError e | _ \<Rightarrow> False)
    \<and> (case (sell_spec p s a, Quote reader chainID address False (Some a)) of
      (Inr q, Inr r) \<Rightarrow> qrOutput r = ethOut q \<and> qrRefund r = 0 \<and> \<not> qrGraduates r
        \<and> the (qrNextVirtualToken r) = sT s + a
        \<and> sE s - the (qrNextVirtualETH r) = qrOutput r + qrProtocolFee r + qrCreatorFee r
        \<and> curve_inv p (sellNextState q) \<and> virtualETH (sellNextState q) = qrNextVirtualETH r
        \<and> virtualToken (sellNextState q) = qrNextVirtualToken r
    | (Inl e, Inl e') \<Rightarrow> e' = CurveError e | _ \<Rightarrow> False)"
proof -
  have b: "Buy s p (Some a) = buy_spec p s a" and l: "Sell s p (Some a) = sell_spec p s a"
    using Buy_eq_spec[OF assms(3,4,7,5,6)] Sell_eq_spec[OF assms(3,4,7,5,6)] by simp_all
  note quote = Quote_eq[of reader chainID address st p s a, OF assms(1-4)]
  show ?thesis
  proof
    show "case (buy_spec p s a, Quote reader chainID address True (Some a)) of
      (Inr q, Inr r) \<Rightarrow> qrOutput r = tokensOut q \<and> qrGraduates r = graduates q
        \<and> the (qrNextVirtualToken r) = sT s - qrOutput r
        \<and> a = (the (qrNextVirtualETH r) - sE s) + qrProtocolFee r + qrCreatorFee r + qrRefund r
        \<and> curve_inv p (nextState q) \<and> virtualETH (nextState q) = qrNextVirtualETH r
        \<and> virtualToken (nextState q) = qrNextVirtualToken r \<and> qrReserveSourceBlock r = dtReserveBlock (qsDetail st)
    | (Inl e, Inl e') \<Rightarrow> e' = CurveError e | _ \<Rightarrow> False"
    proof (cases "buy_spec p s a")
      case (Inr q)
      note f = Buy_success[OF assms(3,4) b[unfolded Inr]]
      show ?thesis using f(1,8,9,15) by (simp add: quote(1) b Inr emptyResult_def)
    qed (simp add: quote(1) b)
    show "case (sell_spec p s a, Quote reader chainID address False (Some a)) of
      (Inr q, Inr r) \<Rightarrow> qrOutput r = ethOut q \<and> qrRefund r = 0 \<and> \<not> qrGraduates r
        \<and> the (qrNextVirtualToken r) = sT s + a
        \<and> sE s - the (qrNextVirtualETH r) = qrOutput r + qrProtocolFee r + qrCreatorFee r
        \<and> curve_inv p (sellNextState q) \<and> virtualETH (sellNextState q) = qrNextVirtualETH r
        \<and> virtualToken (sellNextState q) = qrNextVirtualToken r
    | (Inl e, Inl e') \<Rightarrow> e' = CurveError e | _ \<Rightarrow> False"
    proof (cases "sell_spec p s a")
      case (Inr q)
      note f = Sell_success[OF assms(3,4) l[unfolded Inr]]
      show ?thesis using f(3,7,8,13) by (simp add: quote(2) l Inr emptyResult_def)
    qed (simp add: quote(2) l)
  qed
qed

definition demo_row :: QuoteState where
  "demo_row = \<lparr>qsDetail = \<lparr>dtTotalSupply = totalSupply v1_parameters, dtCurveTokens = curveTokens v1_parameters,
     dtLPTokens = lpTokens v1_parameters, dtGraduationETH = graduationETH v1_parameters,
     dtInitialVirtualETH = initialVirtualETH v1_parameters, dtInitialVirtualToken = initialVirtualToken v1_parameters,
     dtTradeFeeBPS = tradeFeeBPS v1_parameters, dtProtocolShareBPS = protocolShareBPS v1_parameters,
     dtPhase = ''curve'', dtETHReserve = initialVirtualETH v1_parameters,
     dtTokenReserve = initialVirtualToken v1_parameters, dtReserveBlock = 12, dtReserveHash = 1,
     dtSnapshotBlock = 12, dtFinality = ''observed''\<rparr>, qsProtocolFees = Some 0, qsCreatorFees = Some 0\<rparr>"

theorem quote_is_trade_witness:
  "\<exists>r. Quote (\<lambda>_ _. Inr demo_row) 7 60 True (Some 1000000000000000000) = Inr r
     \<and> qrOutput r = 441841004184100418410041841"
proof -
  have d: "describes demo_row v1_parameters (launch_state v1_parameters)"
    by (simp add: describes_def demo_row_def launch_state_def)
  have b: "buy_spec v1_parameters (launch_state v1_parameters) 1000000000000000000 =
     Inr \<lparr>ethGrossUsed = 1000000000000000000, tokensOut = 441841004184100418410041841,
       protocolFee = 5000000000000000, creatorFee = 5000000000000000, refund = 0,
       graduates = False, nextState = v1_mid_state\<rparr>"
    by (simp add: curve_eval v1_mid_state_def)
  have "phase (launch_state v1_parameters) = PhaseCurve" by (simp add: launch_state_def)
  from quote_is_trade[of "\<lambda>_ _. Inr demo_row" 7 60 demo_row, OF refl d v1_valid v1_launch_inv _ _ this,
      of 1000000000000000000]
  show ?thesis
    by (auto simp: b maxUint256_def split: sum.splits)
qed

end
