(* ===== verification/Market_Projections.thy ===== *)
theory Market_Projections
  imports Event_Router "HOL-Library.Product_Lexorder"
begin

text \<open>
  The market tables and the statements on them, for the store's parameter \<open>market_sql\<close>: holder
  balances, candles and reserves, written event by event while indexing
  (\<^verbatim>\<open>sqlc/projections.sql.go\<close>) and from scratch by the function \<^verbatim>\<open>rebuild_token_projections\<close> of the
  fourth migration, which reorg recovery calls for every affected token.

  A table is a map from its primary key. Timestamps are in seconds and the session's time zone is
  UTC. The quotient of two PostgreSQL numerics, truncated, is the parameter \<open>quo\<close>: numeric division
  rounds to a scale of its own before \<^verbatim>\<open>trunc\<close> is applied. Amounts and prices are taken to fit their
  columns; a statement whose value does not fit fails and its transaction with it. The view gives at
  most one row per event and token, so an insert never meets the same key twice.
\<close>

section \<open>Tables\<close>

record holder_row =
  hoBalance :: int
  hoFirstAcquired :: "int option"

datatype candle_interval = OneMinute | FiveMinutes | OneHour | OneDay

record candle_row =
  caOpen :: int
  caHigh :: int
  caLow :: int
  caClose :: int
  caEth :: int
  caToken :: int
  caCount :: int

record reserve_row =
  rvSource :: string
  rvEth :: int
  rvToken :: int
  rvBlock :: int
  rvTx :: Hash
  rvLog :: int

type_synonym holder_table = "int \<times> Address \<times> Address \<rightharpoonup> holder_row"
type_synonym candle_table = "int \<times> Address \<times> candle_interval \<times> int \<rightharpoonup> candle_row"
type_synonym reserve_table = "int \<times> Address \<rightharpoonup> reserve_row"

record market_tables =
  mtHolders :: holder_table
  mtCandles :: candle_table
  mtReserves :: reserve_table

type_synonym mdb = "market_tables db"

type_synonym position = "int \<times> int \<times> int"

definition position :: "EventCoordinates \<Rightarrow> position" where
  "position c = (ecBlockNumber c, ecTransactionIndex c, ecLogIndex c)"

section \<open>Holder balances\<close>

text \<open>The legs of a transfer; a mint has no sender's leg.\<close>

definition transfer_legs :: "Address \<Rightarrow> Address \<Rightarrow> int \<Rightarrow> (Address \<times> int) list" where
  "transfer_legs sender to value = (if sender \<noteq> 0 then [(sender, - value)] else []) @ [(to, value)]"

definition leg_sum :: "Address \<Rightarrow> (Address \<times> int) list \<Rightarrow> int" where
  "leg_sum holder legs = sum_list (map snd (filter (\<lambda>l. fst l = holder) legs))"

definition transfer_deltas :: "Address \<Rightarrow> Address \<Rightarrow> int \<Rightarrow> (Address \<times> int) list" where
  "transfer_deltas sender to value = (let legs = transfer_legs sender to value in
     map (\<lambda>holder. (holder, leg_sum holder legs)) (remdups (map fst legs)))"

definition coalesced :: "holder_row option \<Rightarrow> int" where
  "coalesced r = (case r of None \<Rightarrow> 0 | Some row \<Rightarrow> hoBalance row)"

definition holder_upsert :: "int \<Rightarrow> holder_row option \<Rightarrow> int \<Rightarrow> holder_row" where
  "holder_upsert block existing delta =
     (let balance = coalesced existing + delta in
      \<lparr>hoBalance = balance,
       hoFirstAcquired = (if balance = 0 then None
         else if coalesced existing = 0 then Some block else (case existing of None \<Rightarrow> None | Some row \<Rightarrow> hoFirstAcquired row))\<rparr>)"

definition sql_ApplyTransferProjection ::
    "int \<Rightarrow> Address \<Rightarrow> Address \<Rightarrow> int \<Rightarrow> Address \<Rightarrow> int \<Rightarrow> mdb \<Rightarrow> bool \<times> market_tables" where
  "sql_ApplyTransferProjection chainID token sender value to block d =
     (let m = dbMarket d; deltas = transfer_deltas sender to value;
          ok = (\<forall>(holder, delta) \<in> set deltas. 0 \<le> coalesced (mtHolders m (chainID, token, holder)) + delta)
      in if ok
         then (deltas \<noteq> [], m\<lparr>mtHolders := (\<lambda>(c, t, h). if c = chainID \<and> t = token then
             (case map_of deltas h of
                Some delta \<Rightarrow> Some (holder_upsert block (mtHolders m (c, t, h)) delta)
              | None \<Rightarrow> mtHolders m (c, t, h)) else mtHolders m (c, t, h))\<rparr>)
         else (False, m))"

text \<open>
  The rebuild: every leg with its position (\<open>raw_deltas\<close>), grouped per event and holder
  (\<open>event_delta\<close>), the running balance in the order of the chain (\<open>balance_after\<close>), and per holder the
  last running balance with the last block in which the balance became positive.
\<close>

type_synonym raw_delta = "Address \<times> position \<times> int"

definition raw_deltas :: "int \<Rightarrow> Address \<Rightarrow> ledger_event list \<Rightarrow> raw_delta list" where
  "raw_deltas chainID token events = concat (map (\<lambda>e. case lePayload e of
       LTransfer t sender to value \<Rightarrow>
         if ecChainID (leCoordinates e) = chainID \<and> t = token
         then map (\<lambda>(holder, delta). (holder, position (leCoordinates e), delta)) (transfer_legs sender to (the value))
         else []
     | _ \<Rightarrow> []) events)"

definition delta_sum :: "(raw_delta \<Rightarrow> bool) \<Rightarrow> raw_delta list \<Rightarrow> int" where
  "delta_sum P rows = sum_list (map (\<lambda>(h, p, delta). delta) (filter P rows))"

definition event_delta :: "Address \<Rightarrow> position \<Rightarrow> raw_delta list \<Rightarrow> int" where
  "event_delta holder p rows = delta_sum (\<lambda>(h, q, _). h = holder \<and> q = p) rows"

definition balance_after :: "Address \<Rightarrow> position \<Rightarrow> raw_delta list \<Rightarrow> int" where
  "balance_after holder p rows = delta_sum (\<lambda>(h, q, _). h = holder \<and> q \<le> p) rows"

definition holder_positions :: "Address \<Rightarrow> raw_delta list \<Rightarrow> position list" where
  "holder_positions holder rows = map (\<lambda>(h, p, _). p) (filter (\<lambda>(h, _, _). h = holder) rows)"

definition acquired_blocks :: "Address \<Rightarrow> raw_delta list \<Rightarrow> int list" where
  "acquired_blocks holder rows = map fst (filter (\<lambda>p.
     balance_after holder p rows - event_delta holder p rows = 0 \<and> 0 < balance_after holder p rows)
     (holder_positions holder rows))"

definition rebuilt_holder :: "raw_delta list \<Rightarrow> Address \<Rightarrow> holder_row option" where
  "rebuilt_holder rows holder =
     (if holder_positions holder rows = [] then None
      else let balance = balance_after holder (Max (set (holder_positions holder rows))) rows in
        Some \<lparr>hoBalance = balance,
          hoFirstAcquired = (if balance = 0 \<or> acquired_blocks holder rows = [] then None
            else Some (Max (set (acquired_blocks holder rows))))\<rparr>)"

section \<open>Candles\<close>

record market_row =
  mkPosition :: position
  mkTime :: int
  mkPrice :: "int option"
  mkEth :: int
  mkToken :: int

definition wad_price :: "(int \<Rightarrow> int \<Rightarrow> int) \<Rightarrow> int \<Rightarrow> int \<Rightarrow> int option" where
  "wad_price quo eth tokens = (if tokens = 0 then None else Some (quo (eth * 10 ^ 18) tokens))"

definition block_stored :: "EventCoordinates \<Rightarrow> 'm db \<Rightarrow> bool" where
  "block_stored c d = list_ex (\<lambda>b. ibChainID b = ecChainID c \<and> ibBlockNumber b = ecBlockNumber c) (dbBlocks d)"

text \<open>The lateral join of a swap: some sync of its pair earlier in the same transaction.\<close>

definition synced_before :: "EventCoordinates \<Rightarrow> Address \<Rightarrow> ledger_event list \<Rightarrow> bool" where
  "synced_before c pair events = list_ex (\<lambda>e. case lePayload e of
       LPoolSync p _ _ \<Rightarrow> p = pair \<and> ecChainID (leCoordinates e) = ecChainID c
         \<and> ecTxHash (leCoordinates e) = ecTxHash c \<and> ecLogIndex (leCoordinates e) < ecLogIndex c
     | _ \<Rightarrow> False) events"

text \<open>
  The rows that an event contributes to the view \<^verbatim>\<open>market_trades\<close>, with the token of each. Only the
  columns the candle statements read are kept.
\<close>

definition swap_rows ::
    "(int \<Rightarrow> int \<Rightarrow> int) \<Rightarrow> token_row list \<Rightarrow> EventCoordinates \<Rightarrow> Address \<Rightarrow> int \<Rightarrow> int \<Rightarrow> int \<Rightarrow> int
     \<Rightarrow> (Address \<times> market_row) list" where
  "swap_rows quo tokens c pair in0 in1 out0 out1 =
     map (\<lambda>r. let l = trLaunched r; token0 = (tlToken l < tlWETH l);
            eth = (if token0 then in1 + out1 else in0 + out0); amount = (if token0 then in0 + out0 else in1 + out1) in
          (tlToken l, \<lparr>mkPosition = position c, mkTime = ecBlockTime c, mkPrice = wad_price quo eth amount,
             mkEth = eth, mkToken = amount\<rparr>))
       (filter (\<lambda>r. trChainID r = ecChainID c \<and> tlLPPair (trLaunched r) = pair) tokens)"

definition event_market_rows :: "(int \<Rightarrow> int \<Rightarrow> int) \<Rightarrow> 'm db \<Rightarrow> ledger_event \<Rightarrow> (Address \<times> market_row) list" where
  "event_market_rows quo d e =
     (let c = leCoordinates e in
      if \<not> block_stored c d then []
      else case lePayload e of
        LTrade token _ _ gross _ amount _ _ _ _ \<Rightarrow>
          [(token, \<lparr>mkPosition = position c, mkTime = ecBlockTime c, mkPrice = wad_price quo (the gross) (the amount),
             mkEth = the gross, mkToken = the amount\<rparr>)]
      | LPoolSwap pair _ in0 in1 out0 out1 _ \<Rightarrow>
          if synced_before c pair (dbEvents d)
          then swap_rows quo (dbTokens d) c pair (the in0) (the in1) (the out0) (the out1) else []
      | _ \<Rightarrow> [])"

definition minute :: int where "minute = 60"
definition hour :: int where "hour = 3600"
definition day :: int where "day = 86400"

fun bucket_start :: "candle_interval \<Rightarrow> int \<Rightarrow> int" where
  "bucket_start OneMinute t = t - t mod minute"
| "bucket_start FiveMinutes t = (t - t mod hour) + ((t mod hour) div minute) div 5 * (5 * minute)"
| "bucket_start OneHour t = t - t mod hour"
| "bucket_start OneDay t = t - t mod day"

definition candle_upsert :: "int \<Rightarrow> market_row \<Rightarrow> candle_row option \<Rightarrow> candle_row" where
  "candle_upsert price row existing = (case existing of
       None \<Rightarrow> \<lparr>caOpen = price, caHigh = price, caLow = price, caClose = price, caEth = mkEth row,
         caToken = mkToken row, caCount = 1\<rparr>
     | Some c \<Rightarrow> c\<lparr>caHigh := max (caHigh c) price, caLow := min (caLow c) price, caClose := price,
         caEth := caEth c + mkEth row, caToken := caToken c + mkToken row, caCount := caCount c + 1\<rparr>)"

text \<open>One row of the view goes to its bucket in each of the four intervals.\<close>

definition candle_add :: "int \<Rightarrow> Address \<times> market_row \<Rightarrow> candle_table \<Rightarrow> candle_table" where
  "candle_add chainID tr table = (case mkPrice (snd tr) of
       None \<Rightarrow> table
     | Some price \<Rightarrow> (\<lambda>(c, t, i, start).
         if c = chainID \<and> t = fst tr \<and> start = bucket_start i (mkTime (snd tr))
         then Some (candle_upsert price (snd tr) (table (c, t, i, start))) else table (c, t, i, start)))"

definition has_identity :: "event_id \<Rightarrow> ledger_event \<Rightarrow> bool" where
  "has_identity i e \<longleftrightarrow> (ecChainID (leCoordinates e), ecTxHash (leCoordinates e), ecLogIndex (leCoordinates e)) = i"

definition sql_ApplyMarketTradeCandles :: "(int \<Rightarrow> int \<Rightarrow> int) \<Rightarrow> event_id \<Rightarrow> mdb \<Rightarrow> market_tables" where
  "sql_ApplyMarketTradeCandles quo i d =
     (let rows = concat (map (event_market_rows quo d) (filter (has_identity i) (dbEvents d)))
      in (dbMarket d)\<lparr>mtCandles := fold (candle_add (fst i)) rows (mtCandles (dbMarket d))\<rparr>)"

text \<open>The rebuild groups the rows of a token by bucket and orders each group by position.\<close>

definition token_market_rows :: "(int \<Rightarrow> int \<Rightarrow> int) \<Rightarrow> int \<Rightarrow> Address \<Rightarrow> 'm db \<Rightarrow> market_row list" where
  "token_market_rows quo chainID token d =
     map snd (filter (\<lambda>tr. fst tr = token \<and> mkPrice (snd tr) \<noteq> None)
       (concat (map (event_market_rows quo d) (filter (\<lambda>e. ecChainID (leCoordinates e) = chainID) (dbEvents d)))))"

definition rebuilt_candle :: "market_row list \<Rightarrow> candle_interval \<Rightarrow> int \<Rightarrow> candle_row option" where
  "rebuilt_candle rows i start =
     (let group = sort_key mkPosition (filter (\<lambda>r. bucket_start i (mkTime r) = start) rows);
          prices = map (\<lambda>r. the (mkPrice r)) group in
      if group = [] then None
      else Some \<lparr>caOpen = hd prices, caHigh = Max (set prices), caLow = Min (set prices), caClose = last prices,
        caEth = sum_list (map mkEth group), caToken = sum_list (map mkToken group), caCount = int (length group)\<rparr>)"

section \<open>Reserves\<close>

definition transaction_index_of :: "ledger_table \<Rightarrow> int \<Rightarrow> Hash \<Rightarrow> int \<Rightarrow> ledger_event list \<Rightarrow> int option" where
  "transaction_index_of table chainID tx log events =
     map_option (\<lambda>e. ecTransactionIndex (leCoordinates e)) (List.find (event_identity table chainID tx log) events)"

text \<open>The guard of both upserts: only an event later in the chain replaces the stored reserves.\<close>

definition later_reserve :: "EventCoordinates \<Rightarrow> reserve_row \<Rightarrow> ledger_event list \<Rightarrow> bool" where
  "later_reserve c row events \<longleftrightarrow>
     (rvBlock row,
      (case transaction_index_of (if rvSource row = ''curve'' then TTrades else TPoolSyncs) (ecChainID c) (rvTx row) (rvLog row) events
        of None \<Rightarrow> -1 | Some i \<Rightarrow> i),
      rvLog row) < position c"

definition reserve_row_of :: "string \<Rightarrow> int \<Rightarrow> int \<Rightarrow> EventCoordinates \<Rightarrow> reserve_row" where
  "reserve_row_of source eth tokens c = \<lparr>rvSource = source, rvEth = eth, rvToken = tokens, rvBlock = ecBlockNumber c,
     rvTx = ecTxHash c, rvLog = ecLogIndex c\<rparr>"

definition reserve_upsert :: "int \<times> Address \<Rightarrow> EventCoordinates \<Rightarrow> reserve_row \<Rightarrow> ledger_event list \<Rightarrow> reserve_table \<Rightarrow> reserve_table" where
  "reserve_upsert k c row events table = (case table k of
       None \<Rightarrow> table(k \<mapsto> row)
     | Some old \<Rightarrow> if later_reserve c old events then table(k \<mapsto> row) else table)"

definition trade_reserve :: "ledger_event list \<Rightarrow> ledger_event \<Rightarrow> reserve_table \<Rightarrow> reserve_table" where
  "trade_reserve events e table = (case lePayload e of
       LTrade token _ _ _ _ _ _ _ eth tokens \<Rightarrow>
         reserve_upsert (ecChainID (leCoordinates e), token) (leCoordinates e)
           (reserve_row_of ''curve'' (the eth) (the tokens) (leCoordinates e)) events table
     | _ \<Rightarrow> table)"

definition sql_ApplyTradeReserveProjection :: "event_id \<Rightarrow> mdb \<Rightarrow> market_tables" where
  "sql_ApplyTradeReserveProjection i d =
     (dbMarket d)\<lparr>mtReserves := fold (trade_reserve (dbEvents d))
        (filter (event_identity TTrades (fst i) (fst (snd i)) (snd (snd i))) (dbEvents d)) (mtReserves (dbMarket d))\<rparr>"

definition pair_reserve_row :: "token_row \<Rightarrow> int \<Rightarrow> int \<Rightarrow> EventCoordinates \<Rightarrow> reserve_row" where
  "pair_reserve_row r r0 r1 c = (let token0 = (tlToken (trLaunched r) < tlWETH (trLaunched r)) in
     reserve_row_of ''pair'' (if token0 then r1 else r0) (if token0 then r0 else r1) c)"

definition sync_reserve :: "ledger_event list \<Rightarrow> token_row list \<Rightarrow> ledger_event \<Rightarrow> reserve_table \<Rightarrow> reserve_table" where
  "sync_reserve events tokens e table = (case lePayload e of
       LPoolSync pair r0 r1 \<Rightarrow>
         fold (\<lambda>r. reserve_upsert (trChainID r, tlToken (trLaunched r)) (leCoordinates e)
             (pair_reserve_row r (the r0) (the r1) (leCoordinates e)) events)
           (filter (\<lambda>r. trChainID r = ecChainID (leCoordinates e) \<and> tlLPPair (trLaunched r) = pair
              \<and> trGraduation r \<noteq> None) tokens) table
     | _ \<Rightarrow> table)"

definition sql_ApplyPoolSyncReserveProjection :: "event_id \<Rightarrow> mdb \<Rightarrow> market_tables" where
  "sql_ApplyPoolSyncReserveProjection i d =
     (dbMarket d)\<lparr>mtReserves := fold (sync_reserve (dbEvents d) (dbTokens d))
        (filter (event_identity TPoolSyncs (fst i) (fst (snd i)) (snd (snd i))) (dbEvents d)) (mtReserves (dbMarket d))\<rparr>"

text \<open>The rebuild takes the last of the token's trades and, if it has graduated, its pair's syncs.\<close>

definition reserve_events :: "int \<Rightarrow> Address \<Rightarrow> 'm db \<Rightarrow> (position \<times> reserve_row) list" where
  "reserve_events chainID token d = concat (map (\<lambda>e. let c = leCoordinates e in
     if ecChainID c \<noteq> chainID then []
     else case lePayload e of
       LTrade t _ _ _ _ _ _ _ eth tokens \<Rightarrow>
         if t = token then [(position c, reserve_row_of ''curve'' (the eth) (the tokens) c)] else []
     | LPoolSync pair r0 r1 \<Rightarrow>
         map (\<lambda>r. (position c, pair_reserve_row r (the r0) (the r1) c))
           (filter (\<lambda>r. token_key chainID token r \<and> tlLPPair (trLaunched r) = pair \<and> trGraduation r \<noteq> None) (dbTokens d))
     | _ \<Rightarrow> []) (dbEvents d))"

definition rebuilt_reserve :: "(position \<times> reserve_row) list \<Rightarrow> reserve_row option" where
  "rebuilt_reserve rows = (if rows = [] then None else Some (snd (last (sort_key fst rows))))"

section \<open>The statements together\<close>

definition sql_rebuild_market :: "(int \<Rightarrow> int \<Rightarrow> int) \<Rightarrow> int \<Rightarrow> Address \<Rightarrow> mdb \<Rightarrow> market_tables" where
  "sql_rebuild_market quo chainID token d =
     (let m = dbMarket d; deltas = raw_deltas chainID token (dbEvents d); rows = token_market_rows quo chainID token d in
      m\<lparr>mtReserves := (mtReserves m)((chainID, token) := rebuilt_reserve (reserve_events chainID token d)),
        mtHolders := (\<lambda>(c, t, h). if c = chainID \<and> t = token then rebuilt_holder deltas h else mtHolders m (c, t, h)),
        mtCandles := (\<lambda>(c, t, i, start). if c = chainID \<and> t = token then rebuilt_candle rows i start
          else mtCandles m (c, t, i, start))\<rparr>)"

definition sql_clear_market :: "int \<Rightarrow> Address \<Rightarrow> mdb \<Rightarrow> market_tables" where
  "sql_clear_market chainID token d =
     (let m = dbMarket d in
      m\<lparr>mtReserves := (mtReserves m)((chainID, token) := None),
        mtHolders := (\<lambda>(c, t, h). if c = chainID \<and> t = token then None else mtHolders m (c, t, h)),
        mtCandles := (\<lambda>(c, t, i, start). if c = chainID \<and> t = token then None else mtCandles m (c, t, i, start))\<rparr>)"

text \<open>
  The statements on statistics tables do not touch the three tables above; in this instance they
  leave the component as it is.
\<close>

definition projection_sql :: "(int \<Rightarrow> int \<Rightarrow> int) \<Rightarrow> market_tables market_sql" where
  "projection_sql quo =
     \<lparr>sqlTradeReserve = sql_ApplyTradeReserveProjection, sqlPoolSyncReserve = sql_ApplyPoolSyncReserveProjection,
      sqlMarketTradeCandles = sql_ApplyMarketTradeCandles quo, sqlTransfer = sql_ApplyTransferProjection,
      sqlRebuild = sql_rebuild_market quo, sqlClearOrphan = sql_clear_market,
      sqlDeleteTokenStats = (\<lambda>_ _. dbMarket), sqlRecomputeTokenStats = (\<lambda>_ _. dbMarket),
      sqlClearProtocolDaily = (\<lambda>_. dbMarket), sqlRecomputeProtocolDaily = (\<lambda>_. dbMarket),
      sqlRecomputeProtocolStats = (\<lambda>_. dbMarket)\<rparr>"

end
