(* ===== verification/Projection_Exact.thy ===== *)
theory Projection_Exact
  imports Market_Projections
begin

text \<open>
  Incremental projection and rebuild agree: the holder and candle tables that ingestion maintains
  event by event are what the rebuild computes from the ledger, so a reorg that rebuilds the
  affected tokens leaves the tables of the remaining chain. For reserves they do not agree across a
  graduation.
\<close>

section \<open>Holder balances\<close>

lemma delta_sum_append [simp]: "delta_sum P (xs @ ys) = delta_sum P xs + delta_sum P ys"
  by (simp add: delta_sum_def)

lemma delta_sum_Nil [simp]: "delta_sum P [] = 0"
  by (simp add: delta_sum_def)

lemma delta_sum_none: "(\<And>r. r \<in> set rows \<Longrightarrow> \<not> P r) \<Longrightarrow> delta_sum P rows = 0"
  by (simp add: delta_sum_def)

lemma delta_sum_cong: "(\<And>r. r \<in> set rows \<Longrightarrow> P r = Q r) \<Longrightarrow> delta_sum P rows = delta_sum Q rows"
  unfolding delta_sum_def by (metis (mono_tags, lifting) filter_cong)

definition holder_total :: "Address \<Rightarrow> raw_delta list \<Rightarrow> int" where
  "holder_total holder rows = delta_sum (\<lambda>(h, _, _). h = holder) rows"

text \<open>A batch of legs at one position after all earlier ones.\<close>

definition placed :: "position \<Rightarrow> (Address \<times> int) list \<Rightarrow> raw_delta list" where
  "placed p legs = map (\<lambda>(h, delta). (h, p, delta)) legs"

definition all_before :: "position \<Rightarrow> raw_delta list \<Rightarrow> bool" where
  "all_before p rows \<longleftrightarrow> (\<forall>(h, q, delta) \<in> set rows. q < p)"

lemma delta_sum_placed:
  "delta_sum (\<lambda>(h, q, _). h = holder \<and> Q q) (placed p legs) = (if Q p then leg_sum holder legs else 0)"
proof (induction legs)
  case (Cons l legs)
  then show ?case by (cases l) (auto simp: placed_def delta_sum_def leg_sum_def)
qed (simp add: placed_def leg_sum_def)

lemma holder_total_placed: "holder_total holder (placed p legs) = leg_sum holder legs"
  using delta_sum_placed[of holder "\<lambda>_. True" p legs] by (simp add: holder_total_def)

lemma holder_total_append [simp]: "holder_total h (xs @ ys) = holder_total h xs + holder_total h ys"
  by (simp add: holder_total_def)

lemma positions_append: "holder_positions h (xs @ ys) = holder_positions h xs @ holder_positions h ys"
  by (simp add: holder_positions_def)

lemma positions_placed: "set (holder_positions h (placed p legs)) = (if h \<in> fst ` set legs then {p} else {})"
  by (force simp: holder_positions_def placed_def)

lemma positions_before: "all_before p rows \<Longrightarrow> q \<in> set (holder_positions h rows) \<Longrightarrow> q < p"
  by (auto simp: all_before_def holder_positions_def)

lemma balance_after_all:
  assumes "\<And>q. q \<in> set (holder_positions h rows) \<Longrightarrow> q \<le> p"
  shows "balance_after h p rows = holder_total h rows"
  unfolding balance_after_def holder_total_def
  by (rule delta_sum_cong) (use assms in \<open>force simp: holder_positions_def\<close>)

lemma coalesced_rebuilt: "coalesced (rebuilt_holder rows h) = holder_total h rows"
proof (cases "holder_positions h rows = []")
  case True
  then have "holder_total h rows = 0"
    unfolding holder_total_def by (intro delta_sum_none) (force simp: holder_positions_def filter_empty_conv)
  then show ?thesis using True by (simp add: rebuilt_holder_def coalesced_def)
next
  case False
  then show ?thesis by (simp add: rebuilt_holder_def coalesced_def Let_def balance_after_all)
qed

lemma before_unchanged:
  assumes "q < p"
  shows "balance_after h q (rows @ placed p legs) = balance_after h q rows"
    "event_delta h q (rows @ placed p legs) = event_delta h q rows"
  using assms delta_sum_placed[of h "\<lambda>x. x \<le> q" p legs] delta_sum_placed[of h "\<lambda>x. x = q" p legs]
  by (auto simp: balance_after_def event_delta_def not_le)

lemma at_position:
  assumes "all_before p rows"
  shows "balance_after h p (rows @ placed p legs) = holder_total h rows + leg_sum h legs"
    "event_delta h p (rows @ placed p legs) = leg_sum h legs"
proof -
  have "balance_after h p rows = holder_total h rows"
    by (rule balance_after_all) (use positions_before[OF assms] in \<open>force intro: less_imp_le\<close>)
  then show "balance_after h p (rows @ placed p legs) = holder_total h rows + leg_sum h legs"
    using delta_sum_placed[of h "\<lambda>x. x \<le> p" p legs] by (simp add: balance_after_def)
  have "event_delta h p rows = 0"
    unfolding event_delta_def by (rule delta_sum_none) (use assms in \<open>auto simp: all_before_def\<close>)
  then show "event_delta h p (rows @ placed p legs) = leg_sum h legs"
    using delta_sum_placed[of h "\<lambda>x. x = p" p legs] by (simp add: event_delta_def)
qed

lemma leg_sum_none: "h \<notin> fst ` set legs \<Longrightarrow> leg_sum h legs = 0"
  by (auto simp: leg_sum_def filter_empty_conv intro!: arg_cong[of _ "[]" sum_list, simplified])

lemma acquired_step:
  assumes "all_before p rows"
  shows "set (acquired_blocks h (rows @ placed p legs)) =
    set (acquired_blocks h rows) \<union> (if h \<in> fst ` set legs \<and> holder_total h rows = 0 \<and> 0 < leg_sum h legs then {fst p} else {})"
proof -
  let ?P = "\<lambda>rows q. balance_after h q rows - event_delta h q rows = 0 \<and> 0 < balance_after h q rows"
  have "{q \<in> set (holder_positions h rows). ?P (rows @ placed p legs) q} = {q \<in> set (holder_positions h rows). ?P rows q}"
    by (rule Collect_cong) (use positions_before[OF assms, of _ h] before_unchanged in \<open>metis (no_types, lifting)\<close>)
  moreover have "?P (rows @ placed p legs) p \<longleftrightarrow> holder_total h rows = 0 \<and> 0 < leg_sum h legs"
    using at_position[OF assms, of h legs] by auto
  ultimately show ?thesis
    by (auto simp: acquired_blocks_def positions_append positions_placed image_Un set_filter[symmetric] simp del: set_filter)
qed

lemma rebuilt_step:
  assumes before: "all_before p rows" and nonneg: "0 \<le> holder_total h rows" "0 \<le> holder_total h rows + leg_sum h legs"
  shows "rebuilt_holder (rows @ placed p legs) h =
    (if h \<in> fst ` set legs then Some (holder_upsert (fst p) (rebuilt_holder rows h) (leg_sum h legs)) else rebuilt_holder rows h)"
proof (cases "h \<in> fst ` set legs")
  case False
  then have "holder_positions h (placed p legs) = []" using positions_placed[of h p legs] by simp
  then have pos: "holder_positions h (rows @ placed p legs) = holder_positions h rows" by (simp add: positions_append)
  have "acquired_blocks h (rows @ placed p legs) = acquired_blocks h rows"
    unfolding acquired_blocks_def pos
    by (intro arg_cong[where f = "map fst"] filter_cong)
      (simp_all add: before_unchanged positions_before[OF before])
  moreover have "balance_after h (Max (set (holder_positions h rows))) (rows @ placed p legs) =
      balance_after h (Max (set (holder_positions h rows))) rows" if "holder_positions h rows \<noteq> []"
    using that positions_before[OF before, of "Max (set (holder_positions h rows))" h] by (simp add: before_unchanged)
  ultimately show ?thesis using False by (simp add: rebuilt_holder_def pos Let_def)
next
  case True
  have "Max (set (holder_positions h (rows @ placed p legs))) = p"
    using True positions_before[OF before, of _ h]
    by (intro Max_eqI) (auto simp: positions_append positions_placed intro: less_imp_le)
  moreover have "holder_positions h (rows @ placed p legs) \<noteq> []"
    using True positions_placed[of h p legs] by (auto simp: positions_append)
  ultimately have new: "rebuilt_holder (rows @ placed p legs) h =
      Some \<lparr>hoBalance = holder_total h rows + leg_sum h legs,
        hoFirstAcquired = (if holder_total h rows + leg_sum h legs = 0 \<or> acquired_blocks h (rows @ placed p legs) = [] then None
          else Some (Max (set (acquired_blocks h (rows @ placed p legs)))))\<rparr>"
    by (simp add: rebuilt_holder_def Let_def at_position[OF before])
  show ?thesis
  proof (cases "holder_total h rows = 0")
    case zero: True
    have "\<forall>b \<in> set (acquired_blocks h rows). b \<le> fst p"
      using positions_before[OF before, of _ h] by (force simp: acquired_blocks_def less_prod_def')
    then have "Max (set (acquired_blocks h (rows @ placed p legs))) = fst p" if "0 < leg_sum h legs"
      using that True zero by (intro Max_eqI) (auto simp: acquired_step[OF before])
    moreover have "acquired_blocks h (rows @ placed p legs) \<noteq> []" if "0 < leg_sum h legs"
      using that True zero acquired_step[OF before, of h legs] by auto
    ultimately show ?thesis
      using True zero nonneg new by (auto simp: holder_upsert_def coalesced_rebuilt Let_def)
  next
    case pos: False
    then have a: "set (acquired_blocks h (rows @ placed p legs)) = set (acquired_blocks h rows)"
      by (simp add: acquired_step[OF before])
    have r: "rebuilt_holder rows h = Some \<lparr>hoBalance = holder_total h rows,
        hoFirstAcquired = (if acquired_blocks h rows = [] then None else Some (Max (set (acquired_blocks h rows))))\<rparr>"
    proof -
      have ne: "holder_positions h rows \<noteq> []"
        using pos coalesced_rebuilt[of rows h] by (auto simp: rebuilt_holder_def coalesced_def)
      then have "balance_after h (Max (set (holder_positions h rows))) rows = holder_total h rows"
        by (simp add: balance_after_all)
      then show ?thesis using ne pos by (simp add: rebuilt_holder_def Let_def)
    qed
    have "acquired_blocks h (rows @ placed p legs) = [] \<longleftrightarrow> acquired_blocks h rows = []"
      using a by (metis set_empty)
    then show ?thesis
      using True pos new a r by (simp add: holder_upsert_def coalesced_def Let_def)
  qed
qed

section \<open>Candles\<close>

lemma insort_key_snoc: "f y \<le> f x \<Longrightarrow> insort_key f y (zs @ [x]) = insort_key f y zs @ [x]"
  by (induction zs) auto

lemma sort_key_snoc: "(\<And>y. y \<in> set xs \<Longrightarrow> f y \<le> f x) \<Longrightarrow> sort_key f (xs @ [x]) = sort_key f xs @ [x]"
  by (induction xs) (simp_all add: insort_key_snoc)

lemma rebuilt_candle_step:
  assumes "\<And>q. q \<in> set rows \<Longrightarrow> mkPosition q \<le> mkPosition r" "mkPrice r = Some price"
  shows "rebuilt_candle (rows @ [r]) i start =
    (if bucket_start i (mkTime r) = start then Some (candle_upsert price r (rebuilt_candle rows i start))
     else rebuilt_candle rows i start)"
proof (cases "bucket_start i (mkTime r) = start")
  case True
  let ?g = "sort_key mkPosition (filter (\<lambda>r. bucket_start i (mkTime r) = start) rows)"
  have "sort_key mkPosition (filter (\<lambda>r. bucket_start i (mkTime r) = start) (rows @ [r])) = ?g @ [r]"
    using True by (simp, intro sort_key_snoc) (auto intro: assms(1))
  moreover have "hd (map f ?g @ [y]) = hd (map f ?g)" "Max (insert y (f ` set ?g)) = max (Max (f ` set ?g)) y"
    "Min (insert y (f ` set ?g)) = min (Min (f ` set ?g)) y" if "?g \<noteq> []" for f :: "market_row \<Rightarrow> int" and y
    using that by (simp_all add: hd_append Max_insert2 max.commute min.commute del: set_sort)
  ultimately show ?thesis
    using True assms(2) unfolding rebuilt_candle_def Let_def
    by (cases "?g = []") (simp_all add: candle_upsert_def del: set_sort filter_append)
qed (simp add: rebuilt_candle_def)

definition priced :: "Address \<Rightarrow> (Address \<times> market_row) list \<Rightarrow> market_row list" where
  "priced token trs = map snd (filter (\<lambda>tr. fst tr = token \<and> mkPrice (snd tr) \<noteq> None) trs)"

lemma priced_append: "priced t (xs @ ys) = priced t xs @ priced t ys"
  by (simp add: priced_def)

lemma priced_single: "q \<in> set (priced t [tr]) \<Longrightarrow> q = snd tr"
  by (simp add: priced_def split: if_splits)

lemma candle_adds:
  assumes "\<And>tr. tr \<in> set new \<Longrightarrow> mkPosition (snd tr) = p"
    and "\<And>q. q \<in> set (priced t old) \<Longrightarrow> mkPosition q \<le> p"
    and "\<And>i s. table (c, t, i, s) = rebuilt_candle (priced t old) i s"
  shows "fold (candle_add c) new table (c, t, i, s) = rebuilt_candle (priced t (old @ new)) i s"
  using assms
proof (induction new arbitrary: old table)
  case (Cons tr new)
  have table: "candle_add c tr table (c, t, i, s) = rebuilt_candle (priced t (old @ [tr])) i s" for i s
  proof (cases "fst tr = t \<and> mkPrice (snd tr) \<noteq> None")
    case True
    then obtain price where price: "mkPrice (snd tr) = Some price" by auto
    have "rebuilt_candle (priced t old @ [snd tr]) i s = (if bucket_start i (mkTime (snd tr)) = s
        then Some (candle_upsert price (snd tr) (rebuilt_candle (priced t old) i s)) else rebuilt_candle (priced t old) i s)"
      using Cons.prems(1,2) price by (intro rebuilt_candle_step) auto
    then show ?thesis using True price Cons.prems(3) by (auto simp: candle_add_def priced_def)
  next
    case False
    then show ?thesis using Cons.prems(3) by (auto simp: candle_add_def priced_def split: option.splits)
  qed
  have "fold (candle_add c) new (candle_add c tr table) (c, t, i, s) = rebuilt_candle (priced t ((old @ [tr]) @ new)) i s"
  proof (rule Cons.IH)
    show "mkPosition q \<le> p" if "q \<in> set (priced t (old @ [tr]))" for q
      using that Cons.prems(1)[of tr] Cons.prems(2)[of q] priced_single[of q t tr] by (auto simp only: priced_append set_append Un_iff list.set_intros)
  qed (use Cons.prems(1) table in auto)
  then show ?case by simp
qed simp

lemma candle_add_other: "c' \<noteq> c \<Longrightarrow> fold (candle_add c) new table (c', t, i, s) = table (c', t, i, s)"
proof (induction new arbitrary: table)
  case (Cons tr new)
  then show ?case by (auto simp: candle_add_def split: option.splits)
qed simp

end
