(* ===== verification/Projection_Engine.thy ===== *)
theory Projection_Engine
  imports Projection_Exact Indexer_Recovery
begin

text \<open>
  The market tables under the two operations that write them: routing a chunk of logs, which
  projects event by event, and (in \<open>Projection_Recovery\<close>) the recovery transaction, which deletes above
  the common ancestor and rebuilds the affected tokens. Both leave the holder and candle tables that a
  rebuild of every token from the ledger would give.
\<close>

section \<open>Exact tables\<close>

text \<open>No holder is overdrawn in any state of the chain, that is, in any initial part of the ledger.\<close>

definition solvent :: "Address \<Rightarrow> raw_delta list \<Rightarrow> bool" where
  "solvent holder rows \<longleftrightarrow> (\<forall>S. (\<forall>p q. p \<le> q \<longrightarrow> S q \<longrightarrow> S p) \<longrightarrow> 0 \<le> delta_sum (\<lambda>(h, q, _). h = holder \<and> S q) rows)"

definition exact_token :: "(int \<Rightarrow> int \<Rightarrow> int) \<Rightarrow> int \<Rightarrow> Address \<Rightarrow> mdb \<Rightarrow> bool" where
  "exact_token quo c t d \<longleftrightarrow>
     (\<forall>h. mtHolders (dbMarket d) (c, t, h) = rebuilt_holder (raw_deltas c t (dbEvents d)) h
        \<and> solvent h (raw_deltas c t (dbEvents d)))
   \<and> (\<forall>i s. mtCandles (dbMarket d) (c, t, i, s) = rebuilt_candle (token_market_rows quo c t d) i s)"

definition exact :: "(int \<Rightarrow> int \<Rightarrow> int) \<Rightarrow> mdb \<Rightarrow> bool" where
  "exact quo d \<longleftrightarrow> (\<forall>c t. exact_token quo c t d)"

text \<open>
  An event that comes after all stored ones: later in the chain, later in its transaction, and, if it
  is a launch, before any swap on its pair.
\<close>

definition swap_on :: "Address \<Rightarrow> ledger_event \<Rightarrow> bool" where
  "swap_on pair e \<longleftrightarrow> (case lePayload e of LPoolSwap p _ _ _ _ _ _ \<Rightarrow> p = pair | _ \<Rightarrow> False)"

definition launches_pair :: "Address \<Rightarrow> ledger_event \<Rightarrow> bool" where
  "launches_pair pair e \<longleftrightarrow> (case lePayload e of LTokenLaunch l \<Rightarrow> tlLPPair l = pair | _ \<Rightarrow> False)"

definition follows :: "ledger_event set \<Rightarrow> ledger_event \<Rightarrow> bool" where
  "follows old e \<longleftrightarrow> (\<forall>x \<in> old. ecChainID (leCoordinates x) = ecChainID (leCoordinates e) \<longrightarrow>
     position (leCoordinates x) < position (leCoordinates e)
     \<and> (ecTxHash (leCoordinates x) = ecTxHash (leCoordinates e) \<longrightarrow> ecLogIndex (leCoordinates x) < ecLogIndex (leCoordinates e))
     \<and> (\<forall>pair. launches_pair pair e \<longrightarrow> \<not> swap_on pair x))"

lemma solvent_total: "solvent h rows \<Longrightarrow> 0 \<le> holder_total h rows"
  unfolding solvent_def holder_total_def by (drule spec[of _ "\<lambda>_. True"]) simp

lemma solvent_step:
  assumes "solvent h rows" "all_before p rows" "0 \<le> holder_total h rows + leg_sum h legs"
  shows "solvent h (rows @ placed p legs)"
  unfolding solvent_def
proof (intro allI impI)
  fix S :: "position \<Rightarrow> bool" assume S: "\<forall>p q. p \<le> q \<longrightarrow> S q \<longrightarrow> S p"
  have below: "S p \<Longrightarrow> q < p \<Longrightarrow> S q" for q using S less_imp_le by blast
  have "delta_sum (\<lambda>(h', q, _). h' = h \<and> S q) rows = holder_total h rows" if "S p"
    unfolding holder_total_def
    by (rule delta_sum_cong) (use assms(2) below[OF that] in \<open>fastforce simp: all_before_def\<close>)
  moreover have "0 \<le> delta_sum (\<lambda>(h', q, _). h' = h \<and> S q) rows" using assms(1) S by (simp add: solvent_def)
  ultimately show "0 \<le> delta_sum (\<lambda>(h', q, _). h' = h \<and> S q) (rows @ placed p legs)"
    using assms(3) delta_sum_placed[of h S p legs] by (cases "S p") simp_all
qed

section \<open>The view under a new event\<close>

definition chain_rows :: "(int \<Rightarrow> int \<Rightarrow> int) \<Rightarrow> int \<Rightarrow> 'm db \<Rightarrow> (Address \<times> market_row) list" where
  "chain_rows quo c d = concat (map (event_market_rows quo d) (filter (\<lambda>e. ecChainID (leCoordinates e) = c) (dbEvents d)))"

lemma token_rows_priced: "token_market_rows quo c t d = priced t (chain_rows quo c d)"
  by (simp add: token_market_rows_def priced_def chain_rows_def)

lemma event_rows_position: "tr \<in> set (event_market_rows quo d x) \<Longrightarrow> mkPosition (snd tr) = position (leCoordinates x)"
  by (auto simp: event_market_rows_def swap_rows_def Let_def split: if_splits ledger_payload.splits)

lemma synced_before_append:
  "synced_before c pair (es @ [e]) \<longleftrightarrow> synced_before c pair es \<or> (case lePayload e of
     LPoolSync p _ _ \<Rightarrow> p = pair \<and> ecChainID (leCoordinates e) = ecChainID c \<and> ecTxHash (leCoordinates e) = ecTxHash c
       \<and> ecLogIndex (leCoordinates e) < ecLogIndex c | _ \<Rightarrow> False)"
  by (auto simp: synced_before_def)

lemma synced_before_follows:
  assumes "follows (set es) e" "x \<in> set es"
  shows "synced_before (leCoordinates x) pair (es @ [e]) = synced_before (leCoordinates x) pair es"
  using assms by (auto simp: synced_before_append follows_def split: ledger_payload.splits)

definition same_swaps :: "(int \<Rightarrow> int \<Rightarrow> int) \<Rightarrow> 'm db \<Rightarrow> 'm db \<Rightarrow> ledger_event \<Rightarrow> bool" where
  "same_swaps quo d d' x \<longleftrightarrow> (\<forall>pair a0 a1 b0 b1. swap_on pair x \<longrightarrow>
     swap_rows quo (dbTokens d') (leCoordinates x) pair a0 a1 b0 b1 = swap_rows quo (dbTokens d) (leCoordinates x) pair a0 a1 b0 b1)"

lemma old_rows:
  assumes "follows (set (dbEvents d)) e" "x \<in> set (dbEvents d)" "dbEvents d' = dbEvents d @ [e]" "dbBlocks d' = dbBlocks d"
    "same_swaps quo d d' x"
  shows "event_market_rows quo d' x = event_market_rows quo d x"
  using assms(3-5) synced_before_follows[OF assms(1,2)]
  by (cases "lePayload x") (simp_all add: event_market_rows_def block_stored_def Let_def same_swaps_def swap_on_def)

lemma chain_rows_append:
  assumes "follows (set (dbEvents d)) e" "dbEvents d' = dbEvents d @ [e]" "dbBlocks d' = dbBlocks d"
    "\<And>x. x \<in> set (dbEvents d) \<Longrightarrow> same_swaps quo d d' x"
  shows "chain_rows quo c d' = chain_rows quo c d
    @ (if ecChainID (leCoordinates e) = c then event_market_rows quo d' e else [])"
proof -
  have "map (event_market_rows quo d') (filter (\<lambda>e. ecChainID (leCoordinates e) = c) (dbEvents d)) =
      map (event_market_rows quo d) (filter (\<lambda>e. ecChainID (leCoordinates e) = c) (dbEvents d))"
    by (rule map_cong) (auto intro: old_rows[OF assms(1) _ assms(2,3)] assms(4))
  then show ?thesis by (simp add: chain_rows_def assms(2) del: map_eq_conv)
qed

lemma chain_rows_before:
  assumes "follows (set (dbEvents d)) e" "q \<in> set (priced t (chain_rows quo (ecChainID (leCoordinates e)) d))"
  shows "mkPosition q \<le> position (leCoordinates e)"
proof -
  obtain tr x where x: "x \<in> set (dbEvents d)" "ecChainID (leCoordinates x) = ecChainID (leCoordinates e)"
    and "tr \<in> set (event_market_rows quo d x)" "q = snd tr"
    using assms(2) by (auto simp: priced_def chain_rows_def)
  then have "mkPosition q = position (leCoordinates x)" using event_rows_position by blast
  moreover have "position (leCoordinates x) < position (leCoordinates e)" using assms(1) x by (auto simp: follows_def)
  ultimately show ?thesis by simp
qed

text \<open>What a step must do to the tables so that they stay exact.\<close>

lemma step_exact:
  assumes "exact quo d" "follows (set (dbEvents d)) e"
    and d': "dbEvents d' = dbEvents d @ [e]" "dbBlocks d' = dbBlocks d" "\<And>x. x \<in> set (dbEvents d) \<Longrightarrow> same_swaps quo d d' x"
    and holders: "\<And>c t h. mtHolders (dbMarket d') (c, t, h) = rebuilt_holder (raw_deltas c t (dbEvents d')) h
      \<and> solvent h (raw_deltas c t (dbEvents d'))"
    and candles: "mtCandles (dbMarket d') =
      fold (candle_add (ecChainID (leCoordinates e))) (event_market_rows quo d' e) (mtCandles (dbMarket d))"
  shows "exact quo d'"
proof -
  have old: "mtCandles (dbMarket d) (c, t, i, s) = rebuilt_candle (priced t (chain_rows quo c d)) i s" for c t i s
    using assms(1) by (simp add: exact_def exact_token_def token_rows_priced)
  have "mtCandles (dbMarket d') (c, t, i, s) = rebuilt_candle (priced t (chain_rows quo c d')) i s" for c t i s
  proof (cases "ecChainID (leCoordinates e) = c")
    case True
    have "fold (candle_add c) (event_market_rows quo d' e) (mtCandles (dbMarket d)) (c, t, i, s) =
        rebuilt_candle (priced t (chain_rows quo c d @ event_market_rows quo d' e)) i s"
      using True old chain_rows_before[OF assms(2), of _ t quo]
      by (intro candle_adds[where p = "position (leCoordinates e)"]) (auto dest: event_rows_position)
    then show ?thesis using True candles chain_rows_append[OF assms(2) d', of c] by simp
  next
    case False
    then show ?thesis using candles old chain_rows_append[OF assms(2) d', of c] by (simp add: candle_add_other)
  qed
  then show ?thesis using holders by (simp add: exact_def exact_token_def token_rows_priced)
qed

section \<open>The statements keep the tables exact\<close>

definition is_transfer :: "ledger_event \<Rightarrow> bool" where
  "is_transfer e \<longleftrightarrow> table_of (lePayload e) = TTransfers"

definition is_market :: "ledger_event \<Rightarrow> bool" where
  "is_market e \<longleftrightarrow> table_of (lePayload e) \<in> {TTrades, TPoolSwaps}"

definition is_launch :: "ledger_event \<Rightarrow> bool" where
  "is_launch e \<longleftrightarrow> table_of (lePayload e) = TTokenLaunches"

lemma raw_deltas_append: "raw_deltas c t (es @ fs) = raw_deltas c t es @ raw_deltas c t fs"
  by (simp add: raw_deltas_def)

lemma raw_deltas_other: "\<not> is_transfer e \<Longrightarrow> raw_deltas c t [e] = []"
  by (cases "lePayload e") (simp_all add: raw_deltas_def is_transfer_def table_of_def)

lemma raw_deltas_transfer:
  "lePayload e = LTransfer token sender to value \<Longrightarrow> raw_deltas c t [e] =
     (if ecChainID (leCoordinates e) = c \<and> token = t
      then placed (position (leCoordinates e)) (transfer_legs sender to (the value)) else [])"
  by (simp add: raw_deltas_def placed_def)

lemma raw_deltas_before:
  assumes "follows (set es) e"
  shows "all_before (position (leCoordinates e)) (raw_deltas (ecChainID (leCoordinates e)) t es)"
  using assms by (fastforce simp: all_before_def raw_deltas_def follows_def split: ledger_payload.splits if_splits)

lemma market_rows_other: "\<not> is_market e \<Longrightarrow> event_market_rows quo d e = []"
  by (cases "lePayload e") (simp_all add: event_market_rows_def is_market_def table_of_def Let_def)

text \<open>States that differ in what the view and the two tables do not show.\<close>

definition same_view :: "mdb \<Rightarrow> mdb \<Rightarrow> bool" where
  "same_view d d' \<longleftrightarrow> dbEvents d' = dbEvents d \<and> dbBlocks d' = dbBlocks d
     \<and> mtHolders (dbMarket d') = mtHolders (dbMarket d) \<and> mtCandles (dbMarket d') = mtCandles (dbMarket d)
     \<and> map (\<lambda>r. (trChainID r, trLaunched r)) (dbTokens d') = map (\<lambda>r. (trChainID r, trLaunched r)) (dbTokens d)"

lemma swap_rows_view:
  assumes "map (\<lambda>r. (trChainID r, trLaunched r)) rs' = map (\<lambda>r. (trChainID r, trLaunched r)) rs"
  shows "swap_rows quo rs' c pair a0 a1 b0 b1 = swap_rows quo rs c pair a0 a1 b0 b1"
  using assms
proof (induction rs' arbitrary: rs)
  case (Cons r rs')
  then obtain q qs where "rs = q # qs" by (cases rs) auto
  then show ?case using Cons by (simp add: swap_rows_def)
qed (simp add: swap_rows_def)

lemma same_view_swaps: "same_view d d' \<Longrightarrow> same_swaps quo d d' x"
  unfolding same_view_def same_swaps_def by (intro allI impI swap_rows_view) simp

lemma same_view_refl [simp]: "same_view d d"
  by (simp add: same_view_def)

lemma same_view_trans: "same_view d d1 \<Longrightarrow> same_view d1 d2 \<Longrightarrow> same_view d d2"
  by (simp add: same_view_def)

lemma same_view_rows: "same_view d d' \<Longrightarrow> event_market_rows quo d' x = event_market_rows quo d x"
  using swap_rows_view[of "dbTokens d'" "dbTokens d" quo]
  by (cases "lePayload x") (simp_all add: event_market_rows_def block_stored_def same_view_def Let_def)

lemma same_view_exact: "same_view d d' \<Longrightarrow> exact quo d \<Longrightarrow> exact quo d'"
  using same_view_rows[of d d' quo]
  by (simp add: exact_def exact_token_def token_market_rows_def) (simp add: same_view_def cong: map_cong)

text \<open>An event has been inserted and not yet projected.\<close>

definition pending :: "(int \<Rightarrow> int \<Rightarrow> int) \<Rightarrow> ledger_event \<Rightarrow> mdb \<Rightarrow> bool" where
  "pending quo e d' \<longleftrightarrow> (\<exists>d. exact quo d \<and> follows (set (dbEvents d)) e \<and> same_view (d\<lparr>dbEvents := dbEvents d @ [e]\<rparr>) d')"

lemma pending_view: "pending quo e d \<Longrightarrow> same_view d d' \<Longrightarrow> pending quo e d'"
  unfolding pending_def by (meson same_view_trans)

lemma pendingE:
  assumes "pending quo e d'"
  obtains d where "exact quo d" "follows (set (dbEvents d)) e" "dbEvents d' = dbEvents d @ [e]" "dbBlocks d' = dbBlocks d"
    "mtHolders (dbMarket d') = mtHolders (dbMarket d)" "mtCandles (dbMarket d') = mtCandles (dbMarket d)" "\<And>x. same_swaps quo d d' x"
    "map (\<lambda>r. (trChainID r, trLaunched r)) (dbTokens d') = map (\<lambda>r. (trChainID r, trLaunched r)) (dbTokens d)"
proof -
  obtain d where d: "exact quo d" "follows (set (dbEvents d)) e" "same_view (d\<lparr>dbEvents := dbEvents d @ [e]\<rparr>) d'"
    using assms by (auto simp: pending_def)
  moreover have "same_swaps quo d d' x" for x using same_view_swaps[OF d(3), of quo x] by (simp add: same_swaps_def)
  ultimately show thesis using that[of d] by (simp add: same_view_def)
qed

lemma holders_kept:
  assumes "exact quo d" "\<not> is_transfer e"
  shows "mtHolders (dbMarket d) (c, t, h) = rebuilt_holder (raw_deltas c t (dbEvents d @ [e])) h
    \<and> solvent h (raw_deltas c t (dbEvents d @ [e]))"
  using assms by (simp add: exact_def exact_token_def raw_deltas_append raw_deltas_other)

lemma other_exact:
  assumes "pending quo e d" "\<not> is_transfer e" "\<not> is_market e"
  shows "exact quo d"
proof -
  obtain d0 where d: "exact quo d0" "follows (set (dbEvents d0)) e" "dbEvents d = dbEvents d0 @ [e]" "dbBlocks d = dbBlocks d0"
    "mtHolders (dbMarket d) = mtHolders (dbMarket d0)" "mtCandles (dbMarket d) = mtCandles (dbMarket d0)" "\<And>x. same_swaps quo d0 d x"
    using pendingE[OF assms(1)] by metis
  show ?thesis
    by (rule step_exact[OF d(1-4)]) (simp_all add: d holders_kept[OF d(1) assms(2)] market_rows_other[OF assms(3)])
qed

lemma candles_exact:
  assumes "pending quo e d" "\<not> is_transfer e"
  shows "exact quo (d\<lparr>dbMarket := sql_ApplyMarketTradeCandles quo (projectionIdentity (leCoordinates e)) d\<rparr>)"
proof -
  obtain d0 where d: "exact quo d0" "follows (set (dbEvents d0)) e" "dbEvents d = dbEvents d0 @ [e]" "dbBlocks d = dbBlocks d0"
    "mtHolders (dbMarket d) = mtHolders (dbMarket d0)" "mtCandles (dbMarket d) = mtCandles (dbMarket d0)" "\<And>x. same_swaps quo d0 d x"
    using pendingE[OF assms(1)] by metis
  let ?d = "d\<lparr>dbMarket := sql_ApplyMarketTradeCandles quo (projectionIdentity (leCoordinates e)) d\<rparr>"
  have "filter (has_identity (projectionIdentity (leCoordinates e))) (dbEvents d0) = []"
    using d(2) by (auto simp: filter_empty_conv has_identity_def projectionIdentity_def follows_def)
  then have f: "filter (has_identity (projectionIdentity (leCoordinates e))) (dbEvents d) = [e]"
    by (simp add: d(3) has_identity_def projectionIdentity_def)
  have m: "sql_ApplyMarketTradeCandles quo (projectionIdentity (leCoordinates e)) d = (dbMarket d)\<lparr>mtCandles :=
      fold (candle_add (ecChainID (leCoordinates e))) (event_market_rows quo d e) (mtCandles (dbMarket d0))\<rparr>"
    unfolding sql_ApplyMarketTradeCandles_def Let_def f by (simp add: projectionIdentity_def d(6))
  have r: "event_market_rows quo (d\<lparr>dbMarket := n\<rparr>) e = event_market_rows quo d e" for n
    by (cases "lePayload e") (simp_all add: event_market_rows_def block_stored_def Let_def)
  show ?thesis
  proof (rule step_exact[OF d(1,2)])
    show "same_swaps quo d0 ?d x" for x using d(7)[of x] by (simp add: same_swaps_def)
  qed (simp_all add: d(3-5) holders_kept[OF d(1) assms(2)] r m)
qed

lemma map_of_deltas:
  "map_of (transfer_deltas sender to v) h =
     (if h \<in> fst ` set (transfer_legs sender to v) then Some (leg_sum h (transfer_legs sender to v)) else None)"
proof -
  have "map_of (map (\<lambda>holder. (holder, f holder)) hs) h = (if h \<in> set hs then Some (f h) else None)" for hs and f :: "Address \<Rightarrow> int"
    by (induction hs) auto
  then show ?thesis by (simp add: transfer_deltas_def Let_def)
qed

lemma set_deltas:
  "(h, delta) \<in> set (transfer_deltas sender to v) \<longleftrightarrow>
     h \<in> fst ` set (transfer_legs sender to v) \<and> delta = leg_sum h (transfer_legs sender to v)"
  by (auto simp: transfer_deltas_def Let_def)

lemma transfer_exact:
  assumes "pending quo e d" "lePayload e = LTransfer token sender to (Some v)"
    and m: "sql_ApplyTransferProjection (ecChainID (leCoordinates e)) token sender v to (ecBlockNumber (leCoordinates e)) d = (True, m)"
  shows "exact quo (d\<lparr>dbMarket := m\<rparr>)"
proof -
  obtain d0 where d: "exact quo d0" "follows (set (dbEvents d0)) e" "dbEvents d = dbEvents d0 @ [e]" "dbBlocks d = dbBlocks d0"
    "mtHolders (dbMarket d) = mtHolders (dbMarket d0)" "mtCandles (dbMarket d) = mtCandles (dbMarket d0)" "\<And>x. same_swaps quo d0 d x"
    using pendingE[OF assms(1)] by metis
  let ?legs = "transfer_legs sender to v" and ?chain = "ecChainID (leCoordinates e)"
  let ?rows = "raw_deltas ?chain token (dbEvents d0)" and ?d = "d\<lparr>dbMarket := m\<rparr>"
  have old: "mtHolders (dbMarket d0) (c, t, h) = rebuilt_holder (raw_deltas c t (dbEvents d0)) h"
    "solvent h (raw_deltas c t (dbEvents d0))" for c t h
    using d(1) by (simp_all add: exact_def exact_token_def)
  have before: "all_before (position (leCoordinates e)) ?rows" by (rule raw_deltas_before[OF d(2)])
  have deltas: "\<forall>(h, delta) \<in> set (transfer_deltas sender to v). 0 \<le> coalesced (mtHolders (dbMarket d) (?chain, token, h)) + delta"
    and new: "m = (dbMarket d)\<lparr>mtHolders := (\<lambda>(c, t, h). if c = ?chain \<and> t = token then
             (case map_of (transfer_deltas sender to v) h of
                Some delta \<Rightarrow> Some (holder_upsert (ecBlockNumber (leCoordinates e)) (mtHolders (dbMarket d) (c, t, h)) delta)
              | None \<Rightarrow> mtHolders (dbMarket d) (c, t, h)) else mtHolders (dbMarket d) (c, t, h))\<rparr>"
    using m by (simp_all add: sql_ApplyTransferProjection_def Let_def split: if_splits)
  have nonneg: "0 \<le> holder_total h ?rows + leg_sum h ?legs" for h
  proof (cases "h \<in> fst ` set ?legs")
    case True
    then have "(h, leg_sum h ?legs) \<in> set (transfer_deltas sender to v)" by (simp add: set_deltas)
    then show ?thesis using deltas by (auto simp: d(5) old(1) coalesced_rebuilt)
  next
    case False
    then show ?thesis using solvent_total[OF old(2)] by (simp add: leg_sum_none)
  qed
  have rows: "raw_deltas c t (dbEvents d) = raw_deltas c t (dbEvents d0)
      @ (if ?chain = c \<and> token = t then placed (position (leCoordinates e)) ?legs else [])" for c t
    by (simp add: d(3) raw_deltas_append raw_deltas_transfer[OF assms(2)])
  show ?thesis
  proof (rule step_exact[OF d(1,2)])
    fix c t h
    have "mtHolders m (c, t, h) = rebuilt_holder (raw_deltas c t (dbEvents d)) h" if "?chain = c" "token = t"
      using that rebuilt_step[OF before solvent_total[OF old(2)] nonneg, of h]
      by (simp add: new rows d(5) old(1) map_of_deltas position_def)
    moreover have "solvent h (raw_deltas c t (dbEvents d))" if "?chain = c" "token = t"
      using that solvent_step[OF old(2) before nonneg, of h] by (simp add: rows)
    ultimately show "mtHolders (dbMarket ?d) (c, t, h) = rebuilt_holder (raw_deltas c t (dbEvents ?d)) h
        \<and> solvent h (raw_deltas c t (dbEvents ?d))"
      using old(1)[of c t h] old(2)[of h c t] by (cases "?chain = c \<and> token = t") (auto simp: rows new d(5))
  next
    show "same_swaps quo d0 ?d x" for x using d(7)[of x] by (simp add: same_swaps_def)
    have "\<not> is_market e" by (simp add: is_market_def table_of_def assms(2))
    then show "mtCandles (dbMarket ?d) = fold (candle_add ?chain) (event_market_rows quo ?d e) (mtCandles (dbMarket d0))"
      by (simp add: market_rows_other new d(6))
  qed (simp_all add: d(3,4))
qed

lemma launch_exact:
  assumes "pending quo e d" "is_launch e" "sql_ApplyTokenLaunchProjection (projectionIdentity (leCoordinates e)) d = Inr ((), d')"
  shows "exact quo d'"
proof -
  obtain d0 where d: "exact quo d0" "follows (set (dbEvents d0)) e" "dbEvents d = dbEvents d0 @ [e]" "dbBlocks d = dbBlocks d0"
    "mtHolders (dbMarket d) = mtHolders (dbMarket d0)" "mtCandles (dbMarket d) = mtCandles (dbMarket d0)" "\<And>x. same_swaps quo d0 d x"
    using pendingE[OF assms(1)] by metis
  obtain l where l: "lePayload e = LTokenLaunch l" using assms(2) by (cases "lePayload e") (auto simp: is_launch_def table_of_def)
  let ?i = "projectionIdentity (leCoordinates e)"
  have "List.find (event_identity TTokenLaunches (fst ?i) (fst (snd ?i)) (snd (snd ?i))) (dbEvents d0) = None"
    using d(2) by (auto simp: find_None_iff event_identity_def projectionIdentity_def follows_def)
  then have "List.find (event_identity TTokenLaunches (fst ?i) (fst (snd ?i)) (snd (snd ?i))) (dbEvents d) = Some e"
    using assms(2) unfolding d(3)
    by (simp add: find_append event_identity_def projectionIdentity_def is_launch_def)
  then have d': "d' = d \<or> d' = d\<lparr>dbTokens := dbTokens d @ [\<lparr>trChainID = ecChainID (leCoordinates e),
      trLaunch = leCoordinates e, trLaunched = l, trGraduation = None\<rparr>]\<rparr>"
    using assms(3) l by (auto simp: sql_ApplyTokenLaunchProjection_def split: if_splits)
  have o: "\<not> is_transfer e" "\<not> is_market e" using assms(2) by (auto simp: is_launch_def is_transfer_def is_market_def)
  have swaps: "same_swaps quo d0 d' x" if "x \<in> set (dbEvents d0)" for x
    using d' d(7)[of x] d(2) that by (auto simp: same_swaps_def swap_rows_def follows_def launches_pair_def l)
  show ?thesis
    by (rule step_exact[OF d(1,2) _ _ swaps])
      (use d' in \<open>auto simp: d holders_kept[OF d(1) o(1)] market_rows_other[OF o(2)]\<close>)
qed

section \<open>The ingest operations\<close>

definition awaited :: "(int \<Rightarrow> int \<Rightarrow> int) \<Rightarrow> ledger_event \<Rightarrow> mdb \<Rightarrow> bool" where
  "awaited quo e d \<longleftrightarrow> exact quo d \<and> (e \<in> set (dbEvents d) \<or> follows (set (dbEvents d)) e)"

definition still :: "(market_tables, 'a) io \<Rightarrow> bool" where
  "still m \<longleftrightarrow> (\<forall>d1. triple (\<lambda>d. d = d1) m (\<lambda>_. same_view d1))"

named_theorems still_rule \<open>operations that leave the view, holders and candles alone\<close>

lemma still_bind [still_rule]: "still m \<Longrightarrow> (\<And>a. still (f a)) \<Longrightarrow> still (iobind m f)"
  unfolding still_def triple_def iobind_eq_Inr by (metis same_view_trans)

lemma still_statement: "(\<And>d a d'. q d = Inr (a, d') \<Longrightarrow> same_view d d') \<Longrightarrow> still (statement env q)"
  by (auto simp: still_def intro!: triple_statement)

lemma same_view_mark_dirty [simp]: "same_view d (mark_dirty chainID token d)"
  by (simp add: same_view_def mark_dirty_def)

lemma same_view_fold: "(\<And>x d. same_view d (f x d)) \<Longrightarrow> same_view d (fold f xs d)"
proof (induction xs arbitrary: d)
  case (Cons x xs)
  then show ?case using same_view_trans[of d "f x d"] by simp
qed simp

lemma still_marks [still_rule]: "still (markTokenDirty env chainID token)" "still (markPairTokenDirty env chainID pair)"
  by (auto simp: markTokenDirty_def sql_MarkTokenDirty_def markPairTokenDirty_def sql_MarkPairTokenDirty_def
      intro!: still_statement same_view_fold)

lemma still_reserves:
  assumes "envMarket env = projection_sql quo"
  shows "still (market_statement env (sqlTradeReserve (envMarket env) i))" "still (market_statement env (sqlPoolSyncReserve (envMarket env) i))"
  unfolding market_statement_def
  by (auto intro!: still_statement simp: assms projection_sql_def same_view_def sql_ApplyTradeReserveProjection_def
      sql_ApplyPoolSyncReserveProjection_def)

lemma still_graduation [still_rule]: "still (statement env (sql_ApplyGraduationProjection i))"
  by (rule still_statement) (auto simp: sql_ApplyGraduationProjection_def same_view_def split: option.splits)

lemma still_exact: "still m \<Longrightarrow> triple (exact quo) m (\<lambda>_. exact quo)"
  unfolding still_def triple_def using same_view_exact[of _ _ quo] by blast

lemma still_pending: "still m \<Longrightarrow> triple (pending quo e) m (\<lambda>_. pending quo e)"
  unfolding still_def triple_def using pending_view[of quo e] by blast

lemma insert_pending:
  "triple (awaited quo e) (insertEvent env entity e) (\<lambda>ins d. if ins then pending quo e d else exact quo d)"
proof (rule triple_each)
  fix d0 assume r: "awaited quo e d0"
  have "pending quo e (d0\<lparr>dbEvents := dbEvents d0 @ [e]\<rparr>)" if "ledger_map d0 (event_key e) = None"
    using r that by (auto simp: awaited_def pending_def ledger_map_None)
  then show "triple (\<lambda>d. d = d0) (insertEvent env entity e) (\<lambda>ins d. if ins then pending quo e d else exact quo d)"
    using r by (intro triple_conseq[OF insertEvent_triple[of d0]]) (auto simp: awaited_def)
qed

lemma exact_next:
  assumes "triple (pending quo e) next (\<lambda>_. exact quo)"
  shows "triple (awaited quo e) (when_inserted (insertEvent env entity e) next) (\<lambda>_. exact quo)"
  unfolding when_inserted_def
proof (rule triple_bind[OF insert_pending])
  show "triple (\<lambda>d. if ins then pending quo e d else exact quo d)
      (if \<not> ins then ret False else iobind next (\<lambda>_. ret True)) (\<lambda>_. exact quo)" for ins
    using triple_bind[OF assms, of "\<lambda>_. ret True" "\<lambda>_. exact quo"] by (cases ins) (simp_all add: triple_ret)
qed

lemma lift_known:
  assumes "\<And>x. arg = Inr x \<Longrightarrow> x = e" "triple P (m e) Q"
  shows "triple P (iobind (lift_result arg) m) Q"
proof (cases arg)
  case (Inr x)
  then show ?thesis using assms by (simp add: triple_def iobind_def lift_result_def)
qed (simp add: triple_def iobind_def lift_result_def)

lemma exact_converted_next:
  assumes "\<And>x. arg = Inr x \<Longrightarrow> x = e" "triple (pending quo e) next (\<lambda>_. exact quo)"
  shows "triple (awaited quo e) (when_inserted (insertConverted env entity arg) next) (\<lambda>_. exact quo)"
  unfolding when_inserted_converted by (rule lift_known[OF assms(1)], assumption) (rule exact_next[OF assms(2)])

lemma exact_insert:
  assumes "\<not> is_transfer e" "\<not> is_market e"
  shows "triple (awaited quo e) (insertEvent env entity e) (\<lambda>_. exact quo)"
  by (rule triple_conseq[OF insert_pending]) (auto simp: other_exact[OF _ assms] split: if_splits)

lemma exact_converted:
  assumes "\<And>x. arg = Inr x \<Longrightarrow> x = e" "\<not> is_transfer e" "\<not> is_market e"
  shows "triple (awaited quo e) (insertConverted env entity arg) (\<lambda>_. exact quo)"
  unfolding insertConverted_def by (rule lift_known[OF assms(1)], assumption) (rule exact_insert[OF assms(2,3)])

lemma next_still:
  assumes "\<not> is_transfer e" "\<not> is_market e" "still next"
  shows "triple (pending quo e) next (\<lambda>_. exact quo)"
  by (rule triple_conseq[OF still_exact[OF assms(3)]]) (auto simp: other_exact[OF _ assms(1,2)])

lemma candles_next:
  assumes "envMarket env = projection_sql quo" "\<not> is_transfer e" "still next"
  shows "triple (pending quo e)
    (iobind (market_statement env (sqlMarketTradeCandles (envMarket env) (projectionIdentity (leCoordinates e)))) (\<lambda>_. next)) (\<lambda>_. exact quo)"
  by (rule triple_bind[where R = "\<lambda>_. exact quo"])
    (use still_exact[OF assms(3)] candles_exact[OF _ assms(2)] in \<open>auto simp: assms(1) projection_sql_def market_statement_def intro!: triple_statement\<close>)

lemma launch_next:
  assumes "is_launch e" "still next"
  shows "triple (pending quo e)
    (iobind (statement env (sql_ApplyTokenLaunchProjection (projectionIdentity (leCoordinates e)))) (\<lambda>_. next)) (\<lambda>_. exact quo)"
  by (rule triple_bind[where R = "\<lambda>_. exact quo"])
    (use still_exact[OF assms(2)] launch_exact[OF _ assms(1)] in \<open>auto intro!: triple_statement\<close>)

lemma transfer_next:
  assumes "envMarket env = projection_sql quo" "lePayload e = LTransfer token sender to value" "leCoordinates e = c" "still next"
  shows "triple (pending quo e)
    (iobind (lift_result (uint256 ''transfer value'' value)) (\<lambda>v.
        iobind (statement env (\<lambda>d. case sqlTransfer (envMarket env) (ecChainID c) token sender
              (case v of Some x \<Rightarrow> x | None \<Rightarrow> 0) to (ecBlockNumber c) d of
            (applied, m) \<Rightarrow> Inr (applied, d\<lparr>dbMarket := m\<rparr>))) (\<lambda>applied.
        if \<not> applied then raise (NegativeBalance token sender) else next))) (\<lambda>_. exact quo)"
proof (rule triple_bind[where R = "\<lambda>v d. pending quo e d \<and> v = value \<and> value \<noteq> None"])
  show "triple (\<lambda>d. pending quo e d \<and> v = value \<and> value \<noteq> None)
      (iobind (statement env (\<lambda>d. case sqlTransfer (envMarket env) (ecChainID c) token sender
              (case v of Some x \<Rightarrow> x | None \<Rightarrow> 0) to (ecBlockNumber c) d of
            (applied, m) \<Rightarrow> Inr (applied, d\<lparr>dbMarket := m\<rparr>))) (\<lambda>applied.
        if \<not> applied then raise (NegativeBalance token sender) else next)) (\<lambda>_. exact quo)" for v
  proof (rule triple_bind[where R = "\<lambda>applied d. applied \<longrightarrow> exact quo d"])
    show "triple (\<lambda>d. applied \<longrightarrow> exact quo d) (if \<not> applied then raise (NegativeBalance token sender) else next) (\<lambda>_. exact quo)" for applied
      using still_exact[OF assms(4)] by (cases applied) (auto intro: triple_raise)
  qed (rule triple_statement, use assms(2,3) transfer_exact in \<open>fastforce simp: assms(1) projection_sql_def split: prod.splits\<close>)
qed (auto intro!: triple_lift)

lemmas kind_defs = is_transfer_def is_market_def is_launch_def table_of_def

lemma Ingest_exact:
  assumes env: "envMarket env = projection_sql quo"
  shows
  "triple (awaited quo \<lparr>leCoordinates = c, lePayload = LTokenLaunch l\<rparr>) (IngestTokenLaunch env c l) (\<lambda>_. exact quo)"
  "triple (awaited quo \<lparr>leCoordinates = c, lePayload = LTransfer t f p v1\<rparr>) (IngestTransfer env c t f p v1) (\<lambda>_. exact quo)"
  "triple (awaited quo \<lparr>leCoordinates = c, lePayload = LTrade t r b v1 v2 v3 v4 v5 v6 v7\<rparr>)
     (IngestTrade env c t r b v1 v2 v3 v4 v5 v6 v7) (\<lambda>_. exact quo)"
  "triple (awaited quo \<lparr>leCoordinates = c, lePayload = LPoolSwap p s v1 v2 v3 v4 x\<rparr>)
     (IngestPoolSwap env c p s v1 v2 v3 v4 x) (\<lambda>_. exact quo)"
proof -
  let ?e = "\<lambda>p. \<lparr>leCoordinates = c, lePayload = p\<rparr>"
  show "triple (awaited quo (?e (LTokenLaunch l))) (IngestTokenLaunch env c l) (\<lambda>_. exact quo)"
    unfolding IngestTokenLaunch_def InsertTokenLaunch_def
    using launch_next[of "?e (LTokenLaunch l)", OF _ still_marks(1)]
    by (intro exact_converted_next) (auto simp: kind_defs dest: tokenLaunchParams_Inr)
  show "triple (awaited quo (?e (LTransfer t f p v1))) (IngestTransfer env c t f p v1) (\<lambda>_. exact quo)"
    unfolding IngestTransfer_def InsertTransfer_def
    by (rule exact_converted_next, (auto simp: params_defs rbind_eq_Inr)[1])
      (rule transfer_next[OF env], simp_all add: still_marks)
  have reserve: "triple (pending quo e) (iobind (market_statement env (sqlTradeReserve (envMarket env) i)) (\<lambda>_. m)) (\<lambda>_. exact quo)"
    if "triple (pending quo e) m (\<lambda>_. exact quo)" for e i m
    by (rule triple_bind[OF still_pending[OF still_reserves(1)[OF env]]]) (rule that)
  show "triple (awaited quo (?e (LTrade t r b v1 v2 v3 v4 v5 v6 v7)))
     (IngestTrade env c t r b v1 v2 v3 v4 v5 v6 v7) (\<lambda>_. exact quo)"
    unfolding IngestTrade_def InsertTrade_converted
    using candles_next[OF env, of "?e (LTrade t r b v1 v2 v3 v4 v5 v6 v7)", OF _ still_marks(1)]
    by (intro exact_converted_next reserve) (auto simp: kind_defs params_defs rbind_eq_Inr)
  show "triple (awaited quo (?e (LPoolSwap p s v1 v2 v3 v4 x))) (IngestPoolSwap env c p s v1 v2 v3 v4 x) (\<lambda>_. exact quo)"
    unfolding IngestPoolSwap_def InsertPoolSwap_def
    using candles_next[OF env, of "?e (LPoolSwap p s v1 v2 v3 v4 x)", OF _ still_marks(2)]
    by (intro exact_converted_next) (auto simp: kind_defs params_defs rbind_eq_Inr)
qed

lemma Ingest_exact_other:
  assumes env: "envMarket env = projection_sql quo"
  shows
  "triple (awaited quo \<lparr>leCoordinates = c, lePayload = LGraduation t p v1 v2 v3\<rparr>)
     (IngestGraduation env c t p v1 v2 v3) (\<lambda>_. exact quo)"
  "triple (awaited quo \<lparr>leCoordinates = c, lePayload = LPoolSync p v1 v2\<rparr>) (IngestPoolSync env c p v1 v2) (\<lambda>_. exact quo)"
  "triple (awaited quo \<lparr>leCoordinates = c, lePayload = LCreatorFeeClaim t p v1\<rparr>) (IngestCreatorFeeClaim env c t p v1) (\<lambda>_. exact quo)"
  "triple (awaited quo \<lparr>leCoordinates = c, lePayload = LProtocolFeeClaim t p v1\<rparr>) (IngestProtocolFeeClaim env c t p v1) (\<lambda>_. exact quo)"
  "triple (awaited quo \<lparr>leCoordinates = c, lePayload = LRefundCredit t p v1\<rparr>) (IngestRefundCredit env c t p v1) (\<lambda>_. exact quo)"
  "triple (awaited quo \<lparr>leCoordinates = c, lePayload = LRefundClaim t p v1\<rparr>) (IngestRefundClaim env c t p v1) (\<lambda>_. exact quo)"
  "triple (awaited quo \<lparr>leCoordinates = c, lePayload = LPoolMint p s v1 v2\<rparr>) (IngestPoolMint env c p s v1 v2) (\<lambda>_. exact quo)"
  "triple (awaited quo \<lparr>leCoordinates = c, lePayload = LPoolBurn p s v1 v2 x\<rparr>) (IngestPoolBurn env c p s v1 v2 x) (\<lambda>_. exact quo)"
  "triple (awaited quo \<lparr>leCoordinates = c, lePayload = LLaunchFeeClaim p v1\<rparr>) (IngestLaunchFeeClaim env c p v1) (\<lambda>_. exact quo)"
  "triple (awaited quo \<lparr>leCoordinates = c, lePayload = LLaunchPause b\<rparr>) (IngestLaunchPauseEvent env c b) (\<lambda>_. exact quo)"
  "triple (awaited quo \<lparr>leCoordinates = c, lePayload = LTradingPause b\<rparr>) (IngestTradingPauseEvent env c b) (\<lambda>_. exact quo)"
  "triple (awaited quo \<lparr>leCoordinates = c, lePayload = LEngineConfiguration n p b\<rparr>) (IngestEngineConfiguration env c n p b) (\<lambda>_. exact quo)"
  "triple (awaited quo \<lparr>leCoordinates = c, lePayload = LFutureDefaultsConfiguration h\<rparr>) (IngestFutureDefaultsConfiguration env c h) (\<lambda>_. exact quo)"
  "triple (awaited quo \<lparr>leCoordinates = c, lePayload = LFutureTreasuryConfiguration p s\<rparr>) (IngestFutureTreasuryConfiguration env c p s) (\<lambda>_. exact quo)"
  unfolding IngestGraduation_def InsertGraduation_def IngestPoolSync_def InsertPoolSync_def
    IngestCreatorFeeClaim_def InsertCreatorFeeClaim_def IngestProtocolFeeClaim_def InsertProtocolFeeClaim_def
    IngestRefundCredit_def InsertRefundCredit_def IngestRefundClaim_def InsertRefundClaim_def IngestPoolMint_def
    InsertPoolMint_def IngestPoolBurn_def InsertPoolBurn_def
    apply (rule exact_converted_next, (auto simp: params_defs rbind_eq_Inr)[1], rule next_still,
      (simp add: kind_defs)[1], (simp add: kind_defs)[1], (intro still_rule still_reserves[OF env])[1])+
  unfolding IngestLaunchFeeClaim_def InsertLaunchFeeClaim_def IngestLaunchPauseEvent_def InsertLaunchPause_event
    IngestTradingPauseEvent_def InsertTradingPauseEvent_def IngestEngineConfiguration_def InsertEngineConfiguration_def
    IngestFutureDefaultsConfiguration_def InsertFutureDefaultsConfiguration_def
    IngestFutureTreasuryConfiguration_def InsertFutureTreasuryConfiguration_def launchPauseParams_def
    tradingPauseParams_def engineConfigurationParams_def futureDefaultsConfigurationParams_def
    futureTreasuryConfigurationParams_def
    apply (rule exact_converted, (auto simp: params_defs rbind_eq_Inr kind_defs)[3])
  by (rule exact_insert, simp_all add: kind_defs)+

lemma router_apply_exact:
  assumes "envMarket env = projection_sql quo"
  shows "triple (awaited quo (ledger_event_of chainID blocks log)) (router_apply env chainID blocks log) (\<lambda>_. exact quo)"
  by (cases "dlValue log")
    (simp_all add: router_apply_def ledger_event_of_def payload_of_def Let_def Ingest_exact[OF assms] Ingest_exact_other[OF assms])

section \<open>Routing a chunk\<close>

fun in_order :: "ledger_event set \<Rightarrow> ledger_event list \<Rightarrow> bool" where
  "in_order old [] \<longleftrightarrow> True"
| "in_order old (e # es) \<longleftrightarrow> (e \<in> old \<or> follows old e) \<and> in_order (insert e old) es"

lemma triple_conj: "triple P m Q \<Longrightarrow> triple P m R \<Longrightarrow> triple P m (\<lambda>a d. Q a d \<and> R a d)"
  unfolding triple_def by blast

lemma stored_set: "stored e d d' \<Longrightarrow> set (dbEvents d') = insert e (set (dbEvents d))"
  by (auto simp: stored_def dest: ledger_map_SomeD split: if_splits)

lemma iter_exact:
  assumes "envMarket env = projection_sql quo" "in_order old (map (ledger_event_of chainID blocks) logs)"
  shows "triple (\<lambda>d. exact quo d \<and> set (dbEvents d) = old)
    (iter (\<lambda>log. iobind (router_apply env chainID blocks log) (\<lambda>_. ret ())) logs) (\<lambda>_. exact quo)"
  using assms(2)
proof (induction logs arbitrary: old)
  case Nil
  then show ?case by (simp add: triple_def ret_eq)
next
  case (Cons log logs)
  let ?e = "ledger_event_of chainID blocks log"
  have "triple (\<lambda>d. exact quo d \<and> set (dbEvents d) = old) (router_apply env chainID blocks log) (\<lambda>_. exact quo)"
    by (rule triple_conseq[OF router_apply_exact[OF assms(1)]]) (use Cons.prems in \<open>auto simp: awaited_def\<close>)
  moreover have "triple (\<lambda>d. exact quo d \<and> set (dbEvents d) = old) (router_apply env chainID blocks log)
      (\<lambda>_ d. set (dbEvents d) = insert ?e old)"
    by (rule triple_each, rule triple_conseq[OF router_apply_stored]) (auto dest: stored_set)
  ultimately have "triple (\<lambda>d. exact quo d \<and> set (dbEvents d) = old) (router_apply env chainID blocks log)
      (\<lambda>_ d. exact quo d \<and> set (dbEvents d) = insert ?e old)"
    by (rule triple_conj)
  then have "triple (\<lambda>d. exact quo d \<and> set (dbEvents d) = old) (iobind (router_apply env chainID blocks log) (\<lambda>_. ret ()))
      (\<lambda>_ d. exact quo d \<and> set (dbEvents d) = insert ?e old)"
    by (rule triple_bind) (auto intro: triple_ret)
  then show ?case unfolding iter.simps by (rule triple_bind) (rule Cons.IH, use Cons.prems in simp)
qed

lemma router_exact:
  assumes "envMarket env = projection_sql quo" "in_order old (map (ledger_event_of chainID blocks) logs)"
  shows "triple (\<lambda>d. exact quo d \<and> set (dbEvents d) = old) (router_Apply env chainID logs blocks identities) (\<lambda>_. exact quo)"
  unfolding router_Apply_def Let_def
  by (rule triple_bind[where R = "\<lambda>_ d. exact quo d \<and> set (dbEvents d) = old"])
    (auto intro!: triple_lift iter_exact[OF assms])

text \<open>Exact tables are a fixed point of the rebuild.\<close>

lemma exact_rebuild:
  assumes "exact quo d"
  shows "mtHolders (sql_rebuild_market quo c t d) = mtHolders (dbMarket d)"
    "mtCandles (sql_rebuild_market quo c t d) = mtCandles (dbMarket d)"
  using assms by (auto simp: sql_rebuild_market_def exact_def exact_token_def Let_def)

end
