(* ===== verification/Projection_Recovery.thy ===== *)
theory Projection_Recovery
  imports Projection_Engine Indexer_Safety
begin

text \<open>
  The market tables across a reorg: the recovery transaction deletes everything above the common
  ancestor and rebuilds the tokens that an event above it touched. The other tokens have lost
  nothing, so afterwards the tables are exact for the ledger that is left.
\<close>

section \<open>The rows of one token\<close>

definition token_event_rows :: "(int \<Rightarrow> int \<Rightarrow> int) \<Rightarrow> Address \<Rightarrow> 'm db \<Rightarrow> ledger_event \<Rightarrow> (Address \<times> market_row) list" where
  "token_event_rows quo t d x = filter (\<lambda>tr. fst tr = t) (event_market_rows quo d x)"

definition token_swap_rows where
  "token_swap_rows quo t rs c pair a0 a1 b0 b1 = filter (\<lambda>tr. fst tr = t) (swap_rows quo rs c pair a0 a1 b0 b1)"

lemma token_market_rows_by_event:
  "token_market_rows quo c t d = priced t (concat (map (token_event_rows quo t d) (filter (\<lambda>e. ecChainID (leCoordinates e) = c) (dbEvents d))))"
proof -
  have "priced t (concat (map f xs)) = priced t (concat (map (\<lambda>x. filter (\<lambda>tr. fst tr = t) (f x)) xs))"
    for f :: "ledger_event \<Rightarrow> (Address \<times> market_row) list" and xs
    by (induction xs) (auto simp: priced_append, auto simp: priced_def intro!: arg_cong[where f = "map snd"] filter_cong)
  then show ?thesis unfolding token_rows_priced chain_rows_def token_event_rows_def[abs_def] by blast
qed

lemma token_swap_rows_filter:
  "token_swap_rows quo t rs c pair a0 a1 b0 b1 = swap_rows quo (filter (token_key (ecChainID c) t) rs) c pair a0 a1 b0 b1"
  by (induction rs) (auto simp: token_swap_rows_def swap_rows_def token_key_def Let_def)

lemma token_event_rows_cases:
  "token_event_rows quo t d x = (let c = leCoordinates x in
     if \<not> block_stored c d then []
     else case lePayload x of
        LTrade token _ _ gross _ amount _ _ _ _ \<Rightarrow>
          if token = t then [(token, \<lparr>mkPosition = position c, mkTime = ecBlockTime c, mkPrice = wad_price quo (the gross) (the amount),
             mkEth = the gross, mkToken = the amount\<rparr>)] else []
      | LPoolSwap pair _ in0 in1 out0 out1 _ \<Rightarrow>
          if synced_before c pair (dbEvents d)
          then swap_rows quo (filter (token_key (ecChainID c) t) (dbTokens d)) c pair (the in0) (the in1) (the out0) (the out1) else []
      | _ \<Rightarrow> [])"
  by (cases "lePayload x")
    (simp_all add: token_event_rows_def event_market_rows_def Let_def token_swap_rows_filter[symmetric] token_swap_rows_def)

text \<open>Only the token's own row matters.\<close>

lemma token_market_rows_cong:
  assumes "dbEvents d' = dbEvents d" "dbBlocks d' = dbBlocks d" "filter (token_key c t) (dbTokens d') = filter (token_key c t) (dbTokens d)"
  shows "token_market_rows quo c t d' = token_market_rows quo c t d"
proof -
  have "token_event_rows quo t d' x = token_event_rows quo t d x" if "ecChainID (leCoordinates x) = c" for x
    using assms that by (cases "lePayload x") (simp_all add: token_event_rows_cases block_stored_def Let_def)
  then show ?thesis unfolding token_market_rows_by_event assms(1)
    by (intro arg_cong[where f = "\<lambda>x. priced t (concat x)"] map_cong) auto
qed

definition solvent_ledger :: "ledger_event list \<Rightarrow> bool" where
  "solvent_ledger events \<longleftrightarrow> (\<forall>c t h. solvent h (raw_deltas c t events))"

lemma exact_token_cong:
  assumes "dbEvents d' = dbEvents d" "dbBlocks d' = dbBlocks d" "filter (token_key c t) (dbTokens d') = filter (token_key c t) (dbTokens d)"
    "\<And>h. mtHolders (dbMarket d') (c, t, h) = mtHolders (dbMarket d) (c, t, h)"
    "\<And>i s. mtCandles (dbMarket d') (c, t, i, s) = mtCandles (dbMarket d) (c, t, i, s)"
  shows "exact_token quo c t d' = exact_token quo c t d"
  by (simp add: exact_token_def assms(1,4,5) token_market_rows_cong[OF assms(1-3)])

section \<open>Deleting above the ancestor\<close>

definition affected :: "int \<Rightarrow> int \<Rightarrow> Address \<Rightarrow> 'm db \<Rightarrow> bool" where
  "affected c a t d \<longleftrightarrow> (\<exists>x \<in> set (dbEvents d). event_above c a x \<and> (event_token (lePayload x) = Some t
     \<or> (\<exists>r \<in> set (dbTokens d). token_key c t r \<and> event_pair (lePayload x) = Some (tlLPPair (trLaunched r)))))"

lemma AffectedTokens_iff:
  "sql_AffectedTokensAbove c a d = Inr (ts, d') \<Longrightarrow> d' = d \<and> (t \<in> set ts \<longleftrightarrow> affected c a t d)"
  by (auto simp: sql_AffectedTokensAbove_def Let_def affected_def List.map_filter_def token_key_def image_iff; force)

lemma raw_deltas_unaffected:
  assumes "c' \<noteq> c \<or> \<not> affected c a t d"
  shows "raw_deltas c' t (dbEvents (rolled_back c a d)) = raw_deltas c' t (dbEvents d)"
proof -
  have "raw_deltas c' t [x] = []" if "x \<in> set (dbEvents d)" "event_above c a x" for x
    using that assms by (cases "lePayload x") (auto simp: raw_deltas_def event_above_def affected_def event_token_def)
  then have "raw_deltas c' t (filter (\<lambda>e. \<not> event_above c a e) es) = raw_deltas c' t es" if "set es \<subseteq> set (dbEvents d)" for es
    using that
  proof (induction es)
    case (Cons x es)
    then show ?case using raw_deltas_append[of c' t "[x]" es] raw_deltas_append[of c' t "[x]" "filter (\<lambda>e. \<not> event_above c a e) es"]
      by auto
  qed simp
  then show ?thesis by (simp add: rolled_back_def)
qed

lemma block_stored_kept:
  "\<not> event_above c a x \<Longrightarrow> block_stored (leCoordinates x) (rolled_back c a d) = block_stored (leCoordinates x) d"
  by (auto simp: block_stored_def rolled_back_def list_ex_iff event_above_def)

lemma synced_before_kept:
  assumes "\<And>y. y \<in> set (dbEvents d) \<Longrightarrow> event_above c a y \<Longrightarrow> ecChainID k = c \<Longrightarrow> event_pair (lePayload y) \<noteq> Some pair"
  shows "synced_before k pair (dbEvents (rolled_back c a d)) = synced_before k pair (dbEvents d)"
proof -
  let ?P = "\<lambda>e. case lePayload e of LPoolSync p _ _ \<Rightarrow> p = pair \<and> ecChainID (leCoordinates e) = ecChainID k
         \<and> ecTxHash (leCoordinates e) = ecTxHash k \<and> ecLogIndex (leCoordinates e) < ecLogIndex k | _ \<Rightarrow> False"
  have "\<not> event_above c a y" if "y \<in> set (dbEvents d)" "?P y" for y
    using assms[OF that(1)] that(2) by (auto simp: event_pair_def event_above_def split: ledger_payload.splits)
  then show ?thesis unfolding synced_before_def list_ex_iff rolled_back_def by auto
qed

lemma token_event_rows_kept:
  assumes "\<not> event_above c a x" "ecChainID (leCoordinates x) \<noteq> c \<or> \<not> affected c a t d"
  shows "token_event_rows quo t (rolled_back c a d) x = token_event_rows quo t d x"
proof (cases "lePayload x")
  case (LPoolSwap pair s i0 i1 o0 o1 to)
  let ?k = "leCoordinates x"
  let ?rs = "filter (token_key (ecChainID ?k) t) (dbTokens d)"
  have rs: "dbTokens (rolled_back c a d) = dbTokens d" by (simp add: rolled_back_def)
  show ?thesis
  proof (cases "\<exists>r \<in> set ?rs. tlLPPair (trLaunched r) = pair")
    case True
    have "synced_before ?k pair (dbEvents (rolled_back c a d)) = synced_before ?k pair (dbEvents d)"
      by (rule synced_before_kept) (use True assms(2) in \<open>auto simp: affected_def\<close>)
    then show ?thesis
      by (simp add: token_event_rows_cases LPoolSwap block_stored_kept[OF assms(1)] rs Let_def)
  next
    case False
    then have "swap_rows quo ?rs ?k pair (the i0) (the i1) (the o0) (the o1) = []"
      by (auto simp: swap_rows_def filter_empty_conv)
    then show ?thesis by (simp add: token_event_rows_cases LPoolSwap block_stored_kept[OF assms(1)] rs Let_def)
  qed
qed (simp_all add: token_event_rows_cases block_stored_kept[OF assms(1)] Let_def)

lemma token_event_rows_deleted:
  assumes "x \<in> set (dbEvents d)" "event_above c a x" "\<not> affected c a t d"
  shows "token_event_rows quo t d x = []"
proof (cases "lePayload x")
  case (LPoolSwap pair s i0 i1 o0 o1 to)
  then have "event_pair (lePayload x) = Some pair" by (simp add: event_pair_def)
  then have "tlLPPair (trLaunched r) \<noteq> pair" if "r \<in> set (dbTokens d)" "token_key (ecChainID (leCoordinates x)) t r" for r
    using assms that by (auto simp: affected_def event_above_def)
  then have "swap_rows quo (filter (token_key (ecChainID (leCoordinates x)) t) (dbTokens d)) (leCoordinates x) pair
      (the i0) (the i1) (the o0) (the o1) = []"
    by (auto simp: swap_rows_def filter_empty_conv)
  then show ?thesis by (simp add: token_event_rows_cases LPoolSwap Let_def)
qed (use assms in \<open>auto simp: token_event_rows_cases Let_def affected_def event_token_def\<close>)

lemma rows_unaffected:
  assumes "c' \<noteq> c \<or> \<not> affected c a t d"
  shows "token_market_rows quo c' t (rolled_back c a d) = token_market_rows quo c' t d"
proof -
  let ?on = "\<lambda>e. ecChainID (leCoordinates e) = c'" and ?kept = "\<lambda>e. \<not> event_above c a e"
  have "concat (map (token_event_rows quo t (rolled_back c a d)) (filter ?on (filter ?kept es))) =
      concat (map (token_event_rows quo t d) (filter ?on es))" if "set es \<subseteq> set (dbEvents d)" for es
    using that
  proof (induction es)
    case (Cons x es)
    have "event_above c a x \<Longrightarrow> ?on x \<Longrightarrow> token_event_rows quo t d x = []"
      using assms Cons.prems by (auto simp: event_above_def intro!: token_event_rows_deleted[of x d c a t])
    moreover have "?kept x \<Longrightarrow> ?on x \<Longrightarrow> token_event_rows quo t (rolled_back c a d) x = token_event_rows quo t d x"
      using assms by (intro token_event_rows_kept) auto
    ultimately show ?case using Cons by auto
  qed simp
  then show ?thesis by (simp add: token_market_rows_by_event rolled_back_def)
qed

lemma rolled_back_unaffected:
  assumes "exact_token quo c' t d" "c' \<noteq> c \<or> \<not> affected c a t d"
  shows "exact_token quo c' t (rolled_back c a d)"
proof -
  have "dbMarket (rolled_back c a d) = dbMarket d" by (simp add: rolled_back_def)
  then show ?thesis using assms(1)
    by (simp add: exact_token_def raw_deltas_unaffected[OF assms(2)] rows_unaffected[OF assms(2)])
qed

lemma solvent_rolled_back:
  assumes "solvent_ledger (dbEvents d)"
  shows "solvent_ledger (dbEvents (rolled_back c a d))"
  unfolding solvent_ledger_def solvent_def
proof (intro allI impI)
  fix c' t h and S :: "position \<Rightarrow> bool" assume S: "\<forall>p q. p \<le> q \<longrightarrow> S q \<longrightarrow> S p"
  let ?S = "\<lambda>q. S q \<and> (c' = c \<longrightarrow> fst q \<le> a)"
  have "delta_sum (\<lambda>(h', q, _). h' = h \<and> S q) (raw_deltas c' t (filter (\<lambda>e. \<not> event_above c a e) es)) =
      delta_sum (\<lambda>(h', q, _). h' = h \<and> ?S q) (raw_deltas c' t es)" for es
  proof (induction es)
    case (Cons x es)
    have "delta_sum (\<lambda>(h', q, _). h' = h \<and> ?S q) (raw_deltas c' t [x]) =
        (if event_above c a x then 0 else delta_sum (\<lambda>(h', q, _). h' = h \<and> S q) (raw_deltas c' t [x]))"
    proof (cases "is_transfer x")
      case True
      then obtain tk sd to v where "lePayload x = LTransfer tk sd to v" by (cases "lePayload x") (auto simp: kind_defs)
      then show ?thesis
        using delta_sum_placed[of h ?S "position (leCoordinates x)"] delta_sum_placed[of h S "position (leCoordinates x)"]
        by (auto simp: raw_deltas_transfer event_above_def position_def)
    qed (simp add: raw_deltas_other)
    note head = this
    have cons: "delta_sum P (raw_deltas c' t (x # ys)) = delta_sum P (raw_deltas c' t [x]) + delta_sum P (raw_deltas c' t ys)" for P ys
      using raw_deltas_append[of c' t "[x]" ys] by simp
    show ?case using Cons head
      by (cases "event_above c a x") (simp_all add: cons[of _ es] cons[of _ "filter (\<lambda>e. \<not> event_above c a e) es"])
  qed (simp add: raw_deltas_def)
  moreover have "0 \<le> delta_sum (\<lambda>(h', q, _). h' = h \<and> ?S q) (raw_deltas c' t (dbEvents d))"
  proof -
    have sol: "solvent h (raw_deltas c' t (dbEvents d))" using assms by (simp add: solvent_ledger_def)
    have down: "\<forall>p q. p \<le> q \<longrightarrow> ?S q \<longrightarrow> ?S p"
    proof (intro allI impI)
      fix p q :: position assume "p \<le> q" "?S q"
      moreover have "fst p \<le> fst q" using \<open>p \<le> q\<close> by (cases p; cases q) auto
      ultimately show "?S p" using S[rule_format, of p q] by (simp add: order_trans)
    qed
    show ?thesis using sol[unfolded solvent_def, THEN spec[of _ ?S]] down by (rule mp)
  qed
  ultimately show "0 \<le> delta_sum (\<lambda>(h', q, _). h' = h \<and> S q) (raw_deltas c' t (dbEvents (rolled_back c a d)))"
    by (simp add: rolled_back_def)
qed

section \<open>Rebuilding the affected tokens\<close>

definition launched_first :: "ledger_event list \<Rightarrow> bool" where
  "launched_first events \<longleftrightarrow> (\<forall>x \<in> set events. \<forall>t. event_token (lePayload x) = Some t \<longrightarrow>
     (\<exists>y \<in> set events. launch_event (ecChainID (leCoordinates x)) t y
        \<and> ecBlockNumber (leCoordinates y) \<le> ecBlockNumber (leCoordinates x)))"

lemma launched_first_rolled_back:
  assumes "launched_first (dbEvents d)"
  shows "launched_first (dbEvents (rolled_back c a d))"
  unfolding launched_first_def
proof (intro ballI allI impI)
  fix x t assume x: "x \<in> set (dbEvents (rolled_back c a d))" "event_token (lePayload x) = Some t"
  then obtain y where "y \<in> set (dbEvents d)" "launch_event (ecChainID (leCoordinates x)) t y"
      "ecBlockNumber (leCoordinates y) \<le> ecBlockNumber (leCoordinates x)"
    using assms by (auto simp: launched_first_def rolled_back_def)
  then show "\<exists>y \<in> set (dbEvents (rolled_back c a d)). launch_event (ecChainID (leCoordinates x)) t y
        \<and> ecBlockNumber (leCoordinates y) \<le> ecBlockNumber (leCoordinates x)"
    using x(1) by (intro bexI[of _ y]) (auto simp: rolled_back_def event_above_def launch_event_def)
qed

text \<open>Without a launch the token has no events of its own left.\<close>

lemma unlaunched_empty:
  assumes "launched_first (dbEvents d)" "\<not> list_ex (launch_event c t) (dbEvents d)" "filter (token_key c t) (dbTokens d) = []"
  shows "raw_deltas c t (dbEvents d) = []" "token_market_rows quo c t d = []"
proof -
  have none: "event_token (lePayload x) \<noteq> Some t" if "x \<in> set (dbEvents d)" "ecChainID (leCoordinates x) = c" for x
    using assms(1,2) that unfolding launched_first_def list_ex_iff by blast
  have "raw_deltas c t es = []" if "set es \<subseteq> set (dbEvents d)" for es
    using that
  proof (induction es)
    case (Cons x es)
    have "raw_deltas c t [x] = []"
      using none[of x] Cons.prems by (cases "lePayload x") (auto simp: raw_deltas_def event_token_def)
    then show ?case using Cons raw_deltas_append[of c t "[x]" es] by simp
  qed (simp add: raw_deltas_def)
  then show "raw_deltas c t (dbEvents d) = []" by simp
  have "token_event_rows quo t d x = []" if "x \<in> set (dbEvents d)" "ecChainID (leCoordinates x) = c" for x
    using none[OF that] assms(3) that(2)
    by (cases "lePayload x") (auto simp: token_event_rows_cases Let_def event_token_def swap_rows_def)
  then have "concat (map (token_event_rows quo t d) (filter (\<lambda>e. ecChainID (leCoordinates e) = c) (dbEvents d))) = []"
    by auto
  then show "token_market_rows quo c t d = []" by (simp add: token_market_rows_by_event priced_def)
qed

lemma rebuilt_empty [simp]: "rebuilt_holder [] h = None" "rebuilt_candle [] i s = None"
  by (simp_all add: rebuilt_holder_def holder_positions_def rebuilt_candle_def)

lemma Rebuild_exact:
  assumes "envMarket env = projection_sql quo" "launched_first (dbEvents d0)" "solvent_ledger (dbEvents d0)"
  shows "triple (\<lambda>d. d = d0) (RebuildTokenProjections env c t)
    (\<lambda>_ d. same_ledger d0 d \<and> exact_token quo c t d \<and> (\<forall>c' t'. (c', t') \<noteq> (c, t) \<longrightarrow> exact_token quo c' t' d = exact_token quo c' t' d0))"
    (is "triple _ _ (\<lambda>_. ?Q)")
proof -
  have other: "filter (\<lambda>r. \<not> token_key c t r \<and> token_key c' t' r) rs = filter (token_key c' t') rs" if "(c', t') \<noteq> (c, t)" for c' t' rs
    using that by (induction rs) (auto simp: token_key_def)
  have clear: "?Q d" if "\<not> list_ex (launch_event c t) (dbEvents d0)" "sql_ClearOrphanProjections (envMarket env) c t d0 = Inr ((), d)" for d
  proof -
    have d: "dbEvents d = dbEvents d0" "dbBlocks d = dbBlocks d0" "dbTokens d = filter (\<lambda>r. \<not> token_key c t r) (dbTokens d0)"
      "dbMarket d = sql_clear_market c t d0" "same_ledger d0 d"
      using that(2) by (auto simp: sql_ClearOrphanProjections_def assms(1) projection_sql_def same_ledger_def)
    have "filter (token_key c t) (dbTokens d) = []" by (auto simp: d(3) filter_empty_conv)
    then have "exact_token quo c t d"
      using unlaunched_empty[of d c t] assms(2,3) that(1)
      by (simp add: exact_token_def d sql_clear_market_def Let_def solvent_ledger_def) (metis d(1))
    moreover have "exact_token quo c' t' d = exact_token quo c' t' d0" if "(c', t') \<noteq> (c, t)" for c' t'
      using that by (intro exact_token_cong) (auto simp: d other sql_clear_market_def Let_def)
    ultimately show ?thesis using d(5) by blast
  qed
  have rebuild: "?Q d" if run: "sql_RebuildTokenProjections (envMarket env) c t d0 = Inr ((), d)" for d
  proof -
    obtain e l where e: "List.find (launch_event c t) (dbEvents d0) = Some e" "lePayload e = LTokenLaunch l"
      using run by (auto simp: sql_RebuildTokenProjections_def split: option.splits ledger_payload.splits)
    define row where "row = \<lparr>trChainID = c, trLaunch = leCoordinates e, trLaunched = l, trGraduation = latest_graduation c t d0\<rparr>"
    have "launch_event c t e" using e(1) by (auto simp: find_Some_iff)
    then have row: "token_key c t row" using e(2) by (simp add: row_def token_key_def launch_event_def event_token_def)
    have d: "dbEvents d = dbEvents d0" "dbBlocks d = dbBlocks d0"
      "dbTokens d = row # filter (\<lambda>r. \<not> token_key c t r) (dbTokens d0)" "same_ledger d0 d"
      "dbMarket d = sql_rebuild_market quo c t (d0\<lparr>dbTokens := dbTokens d\<rparr>)"
      using run e by (auto simp: sql_RebuildTokenProjections_def Let_def assms(1) projection_sql_def same_ledger_def mark_dirty_def row_def)
    have "token_market_rows quo c t d = token_market_rows quo c t (d0\<lparr>dbTokens := dbTokens d\<rparr>)"
      by (rule token_market_rows_cong) (simp_all add: d(1,2))
    then have "exact_token quo c t d"
      using assms(3) by (simp add: exact_token_def d(1,5) sql_rebuild_market_def Let_def solvent_ledger_def)
    moreover have "exact_token quo c' t' d = exact_token quo c' t' d0" if ne: "(c', t') \<noteq> (c, t)" for c' t'
    proof -
      have "\<not> token_key c' t' row" using ne row by (auto simp: token_key_def)
      then show ?thesis using ne by (intro exact_token_cong) (auto simp: d(1,2,5) d(3) other sql_rebuild_market_def Let_def)
    qed
    ultimately show ?thesis using d(4) by blast
  qed
  show ?thesis
    unfolding RebuildTokenProjections_def
  proof (rule triple_bind[where R = "\<lambda>ex d. d = d0 \<and> ex = list_ex (launch_event c t) (dbEvents d0)"])
    fix ex
    let ?R = "\<lambda>d. d = d0 \<and> ex = list_ex (launch_event c t) (dbEvents d0)"
    have "triple ?R (statement env (sql_ClearOrphanProjections (envMarket env) c t)) (\<lambda>_. ?Q)" if "\<not> ex"
      by (rule triple_statement, rule clear) (use that in auto)
    moreover have "triple ?R (statement env (sql_RebuildTokenProjections (envMarket env) c t)) (\<lambda>_. ?Q)"
      by (rule triple_statement, rule rebuild) auto
    ultimately show "triple ?R (if \<not> ex then statement env (sql_ClearOrphanProjections (envMarket env) c t)
        else statement env (sql_RebuildTokenProjections (envMarket env) c t)) (\<lambda>_. ?Q)" by (cases ex) simp_all
  qed (auto intro!: triple_statement simp: sql_HasCanonicalLaunch_def)
qed

definition fixTokens :: "market_tables db_env \<Rightarrow> int \<Rightarrow> Address \<Rightarrow> (market_tables, unit) io" where
  "fixTokens env c token = iobind (RebuildTokenProjections env c token) (\<lambda>_.
     iobind (DeleteTokenStats env c token) (\<lambda>_. RecomputeTokenStats env c token))"

lemma still_ret [still_rule]: "still (ret a)"
  by (simp add: still_def triple_def ret_eq)

lemma still_stats:
  assumes "envMarket env = projection_sql quo"
  shows "still (DeleteTokenStats env c t)" "still (RecomputeTokenStats env c t)" "still (RecomputeProtocolAggregates False env c)"
proof -
  have "still (market_statement env dbMarket)"
    unfolding market_statement_def by (rule still_statement) (auto simp: same_view_def)
  then show "still (DeleteTokenStats env c t)" "still (RecomputeTokenStats env c t)" "still (RecomputeProtocolAggregates False env c)"
    by (simp_all add: DeleteTokenStats_def RecomputeTokenStats_def RecomputeProtocolAggregates_def recomputeProtocolAggregates_def
        assms projection_sql_def still_bind)
qed

lemma still_WriteState: "still (WriteState env st)"
  unfolding WriteState_def UpsertSyncState_def
  by (cases "stObserved st")
    (auto intro!: still_rule still_statement simp: sql_UpsertSyncState_def same_view_def split: if_splits)

lemma still_CompleteReorg: "still (CompleteReorg env n)"
proof -
  have "same_view d d'" if "\<exists>rs. d' = d\<lparr>dbReorgs := rs\<rparr>" for d d' :: mdb using that by (auto simp: same_view_def)
  then show ?thesis unfolding still_def by (intro allI triple_conseq[OF CompleteReorg_frame]) blast+
qed

lemma same_view_exact_token: "same_view d d' \<Longrightarrow> exact_token quo c t d' = exact_token quo c t d"
  using same_view_rows[of d d' quo]
  by (simp add: exact_token_def token_market_rows_def) (simp add: same_view_def cong: map_cong)

text \<open>The tokens still to be rebuilt are the only ones whose tables may be stale.\<close>

definition stale_only :: "(int \<Rightarrow> int \<Rightarrow> int) \<Rightarrow> int \<Rightarrow> Address set \<Rightarrow> mdb \<Rightarrow> bool" where
  "stale_only quo c ts d \<longleftrightarrow> launched_first (dbEvents d) \<and> solvent_ledger (dbEvents d)
     \<and> (\<forall>c' t. \<not> (c' = c \<and> t \<in> ts) \<longrightarrow> exact_token quo c' t d)"

lemma still_stale_only: "still m \<Longrightarrow> triple (stale_only quo c ts) m (\<lambda>_. stale_only quo c ts)"
proof -
  have "stale_only quo c ts d'" if "same_view d d'" "stale_only quo c ts d" for d d'
    using that same_view_exact_token[OF that(1)] by (simp add: stale_only_def) (simp add: same_view_def)
  then show "still m \<Longrightarrow> triple (stale_only quo c ts) m (\<lambda>_. stale_only quo c ts)"
    unfolding still_def triple_def by blast
qed

lemma stale_only_mono: "stale_only quo c ts d \<Longrightarrow> ts \<subseteq> ts' \<Longrightarrow> stale_only quo c ts' d"
  unfolding stale_only_def by blast

lemma stale_only_rebuilt:
  assumes "stale_only quo c ts d0" "same_ledger d0 d" "exact_token quo c t d"
    "\<forall>c' t'. (c', t') \<noteq> (c, t) \<longrightarrow> exact_token quo c' t' d = exact_token quo c' t' d0"
  shows "stale_only quo c (ts - {t}) d"
proof -
  have "dbEvents d = dbEvents d0" using assms(2) by (simp add: same_ledger_def)
  moreover have "exact_token quo c' t' d" if "\<not> (c' = c \<and> t' \<in> ts - {t})" for c' t'
    using assms(1,3,4) that by (cases "(c', t') = (c, t)") (auto simp: stale_only_def)
  ultimately show ?thesis using assms(1) by (simp add: stale_only_def)
qed

lemma fixTokens_stale:
  assumes "envMarket env = projection_sql quo"
  shows "triple (stale_only quo c ts) (fixTokens env c t) (\<lambda>_. stale_only quo c (ts - {t}))"
  unfolding fixTokens_def
proof (rule triple_bind)
  show "triple (stale_only quo c ts) (RebuildTokenProjections env c t) (\<lambda>_. stale_only quo c (ts - {t}))"
  proof (rule triple_each)
    fix d0 assume s: "stale_only quo c ts d0"
    show "triple (\<lambda>d. d = d0) (RebuildTokenProjections env c t) (\<lambda>_. stale_only quo c (ts - {t}))"
      by (rule triple_conseq[OF Rebuild_exact[OF assms, of d0]])
        (use s stale_only_rebuilt[OF s] in \<open>auto simp: stale_only_def\<close>)
  qed
qed (intro still_stale_only still_rule still_stats[OF assms])

lemma iter_fixTokens:
  assumes "envMarket env = projection_sql quo"
  shows "triple (stale_only quo c (set ts)) (iter (fixTokens env c) ts) (\<lambda>_. exact quo)"
proof (induction ts)
  case Nil
  then show ?case by (auto simp: stale_only_def exact_def intro!: triple_ret)
next
  case (Cons t ts)
  have "triple (stale_only quo c (set (t # ts))) (fixTokens env c t) (\<lambda>_. stale_only quo c (set ts))"
    by (rule triple_conseq[OF fixTokens_stale[OF assms]]) (auto elim: stale_only_mono)
  then show ?case unfolding iter.simps by (rule triple_bind) (rule Cons.IH)
qed

lemma delete_stale_only:
  assumes "exact quo d" "launched_first (dbEvents d)" "\<And>t. t \<in> ts \<longleftrightarrow> affected c a t d"
  shows "stale_only quo c ts (rolled_back c a d)"
proof -
  have "solvent_ledger (dbEvents d)" using assms(1) by (simp add: exact_def exact_token_def solvent_ledger_def)
  then show ?thesis
    using assms rolled_back_unaffected[of quo _ _ d c a] launched_first_rolled_back solvent_rolled_back
    by (auto simp: stale_only_def exact_def)
qed

lemma recoverTx_exact:
  assumes env: "envMarket (egDb e) = projection_sql quo"
  shows "triple (\<lambda>d. exact quo d \<and> launched_first (dbEvents d)) (recoverTx e st cands reorgID) (\<lambda>_. exact quo)"
proof (rule triple_each)
  fix d0 assume d0: "exact quo d0 \<and> launched_first (dbEvents d0)"
  let ?env = "egDb e" and ?c = "seChainID (egSettings e)"
  have f: "triple (\<lambda>d. d = d0) (FindCommonAncestor ?env ?c cands) (\<lambda>_ d. d = d0)"
    by (rule triple_conseq[OF FindCommonAncestor_triple[of d0]]) auto
  have t: "triple (\<lambda>d. d = d0) (AffectedTokensAbove ?env ?c a)
      (\<lambda>ts d. d = d0 \<and> (\<forall>t. t \<in> set ts \<longleftrightarrow> affected ?c a t d0))" for a
    unfolding AffectedTokensAbove_def by (rule triple_statement) (use AffectedTokens_iff in blast)
  have del: "triple (\<lambda>d. d = d0 \<and> (\<forall>t. t \<in> set ts \<longleftrightarrow> affected ?c a t d0)) (DeleteCanonicalAbove ?env ?c a)
      (\<lambda>_. stale_only quo ?c (set ts))" for ts a
  proof (cases "\<forall>t. t \<in> set ts \<longleftrightarrow> affected ?c a t d0")
    case True
    then have "stale_only quo ?c (set ts) (rolled_back ?c a d0)" using d0 by (intro delete_stale_only) auto
    then show ?thesis by (intro triple_conseq[OF DeleteCanonicalAbove_triple[of d0]]) auto
  qed (rule triple_False, blast)
  have rest: "triple (exact quo) (iobind (RecomputeProtocolAggregates False ?env ?c) (\<lambda>_.
      iobind (WriteState ?env s) (\<lambda>_. CompleteReorg ?env reorgID))) (\<lambda>_. exact quo)" for s
    by (intro still_exact still_rule still_stats[OF env] still_WriteState still_CompleteReorg)
  show "triple (\<lambda>d. d = d0) (recoverTx e st cands reorgID) (\<lambda>_. exact quo)"
    unfolding recoverTx_def Let_def fixTokens_def[symmetric]
    by (rule triple_bind[OF f], rule triple_bind[OF t], rule triple_bind[OF del],
        rule triple_bind[OF iter_fixTokens[OF env]], rule rest)
qed

section \<open>Properties\<close>

text \<open>
  C7: incremental projection equals rebuilding. If the holder and candle tables are what the rebuild
  computes from the ledger, and the logs of a chunk come in the order of the chain after what is
  stored (or are stored already), then after routing the chunk they are what the rebuild computes
  from the longer ledger: every balance with the block of its first acquisition, and every candle of
  every interval. No holder is overdrawn in any initial part of the ledger, and rebuilding any token
  leaves both tables as they are.
\<close>

theorem projections_exact:
  assumes "envMarket env = projection_sql quo" "exact quo (wDb w)"
    and "in_order (set (dbEvents (wDb w))) (map (ledger_event_of chainID blocks) logs)"
    and "router_Apply env chainID logs blocks identities w = (Inr (), w')"
  shows "exact quo (wDb w')
    \<and> (\<forall>c t. mtHolders (sql_rebuild_market quo c t (wDb w')) = mtHolders (dbMarket (wDb w'))
        \<and> mtCandles (sql_rebuild_market quo c t (wDb w')) = mtCandles (dbMarket (wDb w')))"
proof -
  have "exact quo (wDb w')"
    using router_exact[OF assms(1,3)] assms(2,4) unfolding triple_def by blast
  then show ?thesis using exact_rebuild by blast
qed

text \<open>
  C10: recovery keeps the projections exact. If the tables are exact and every token event is at or
  after its token's launch, then after the recovery transaction, which deletes all events above the
  common ancestor and rebuilds only the tokens that such an event touched, the tables of all tokens
  are exact for the ledger that is left; no token that lost events is missed.
\<close>

theorem recovery_exact:
  assumes "envMarket (egDb e) = projection_sql quo" "exact quo (wDb w)" "launched_first (dbEvents (wDb w))"
    and "recoverTx e st candidates reorgID w = (Inr (), w')"
  shows "exact quo (wDb w')"
  using recoverTx_exact[OF assms(1), of st candidates reorgID] assms(2-4) unfolding triple_def by blast

definition demo_tables :: market_tables where
  "demo_tables = \<lparr>mtHolders = Map.empty, mtCandles = Map.empty, mtReserves = Map.empty\<rparr>"

definition demo_mdb :: mdb where
  "demo_mdb = \<lparr>dbBlocks = [], dbSync = [], dbEvents = [], dbTokens = [], dbDirty = [], dbDirtySeq = 0,
     dbReorgs = [], dbReorgSeq = 0, dbMarket = demo_tables\<rparr>"

definition demo_mworld :: "market_tables world" where
  "demo_mworld = \<lparr>wDb = demo_mdb, wTick = 0, wOwnerDead = None\<rparr>"

definition demo_menv :: "market_tables db_env" where
  "demo_menv = quiet_env (projection_sql (\<lambda>a b. a div b))"

definition demo_token :: TokenLaunched where
  "demo_token = \<lparr>tlToken = 60, tlCurve = 50, tlCreator = 3, tlLPPair = 80, tlWETH = 90, tlProtocolTreasury = 4,
     tlEngineVersion = 1, tlName = ''t'', tlSymbol = ''T'', tlTotalSupply = Some 1000, tlVirtualETH = Some 10,
     tlVirtualToken = Some 10, tlCurveTokens = Some 800, tlLPTokens = Some 200, tlGraduationETH = Some 5,
     tlLaunchFeePaid = Some 0, tlTradeFeeBPS = 100, tlProtocolShareBPS = 5000\<rparr>"

definition demo_log :: "64 word \<Rightarrow> Hash \<Rightarrow> 64 word \<Rightarrow> chain_event \<Rightarrow> DecodedLog" where
  "demo_log n tx i v = \<lparr>dlCoordinates = \<lparr>coBlockNumber = n, coBlockHash = 9, coTransactionIndex = 0,
     coTransactionHash = tx, coLogIndex = i\<rparr>, dlEmitter = 50, dlKind = EmitterCurve, dlName = [], dlValue = v\<rparr>"

definition demo_chunk :: "DecodedLog list" where
  "demo_chunk = [demo_log 5 7 0 (EvTokenLaunched demo_token), demo_log 5 7 1 (EvTransfer 60 0 70 (Some 1000)),
     demo_log 6 8 0 (EvTransfer 60 70 71 (Some 300)),
     demo_log 6 8 1 (EvTrade 60 71 True (Some 10) (Some 0) (Some 5) (Some 0) (Some 0) (Some 10) (Some 5))]"

lemma demo_exact: "exact quo demo_mdb"
  by (simp add: exact_def exact_token_def demo_mdb_def demo_tables_def raw_deltas_def token_market_rows_def rebuilt_empty
      solvent_def)

lemma demo_chunk_runs: "fst (router_Apply demo_menv 1 demo_chunk Map.empty [] demo_mworld) = Inr ()"
  by code_simp

lemma demo_chunk_order: "in_order {} (map (ledger_event_of 1 Map.empty) demo_chunk)"
  by (simp add: demo_chunk_def demo_log_def ledger_event_of_def payload_of_def eventCoordinates_def follows_def position_def
      int64_of_def int32_of_def launches_pair_def swap_on_def Let_def)

theorem projections_exact_witness:
  "exact (\<lambda>a b. a div b) (wDb (snd (router_Apply demo_menv 1 demo_chunk Map.empty [] demo_mworld)))"
  using projections_exact[of demo_menv "\<lambda>a b. a div b" demo_mworld 1 Map.empty demo_chunk "[]"
      "snd (router_Apply demo_menv 1 demo_chunk Map.empty [] demo_mworld)"] demo_exact demo_chunk_order demo_chunk_runs
  by (simp add: demo_menv_def quiet_env_def demo_mworld_def prod_eq_iff) (simp add: demo_mdb_def)

text \<open>A reorg that orphans a launch with its mint.\<close>

definition demo_launch_event :: ledger_event where
  "demo_launch_event = \<lparr>leCoordinates = demo_coordinates 6, lePayload = LTokenLaunch demo_token\<rparr>"

definition demo_mint :: ledger_event where
  "demo_mint = \<lparr>leCoordinates = (demo_coordinates 6)\<lparr>ecLogIndex := 1\<rparr>, lePayload = LTransfer 60 0 70 (Some 1000)\<rparr>"

definition demo_indexed :: "market_tables world" where
  "demo_indexed = demo_mworld\<lparr>wDb := demo_mdb\<lparr>dbBlocks := [demo_block 5 ''observed'', demo_block 6 ''observed''],
     dbEvents := [demo_launch_event, demo_mint],
     dbTokens := [\<lparr>trChainID = 1, trLaunch = demo_coordinates 6, trLaunched = demo_token, trGraduation = None\<rparr>],
     dbReorgs := [\<lparr>roID = 1, roRecord = \<lparr>rrChainID = 1, rrDeploymentID = ''demo-v1'', rrDetectedTipNumber = 6, rrDetectedTipHash = 77,
       rrCommonAncestorNumber = 5, rrCommonAncestorHash = 6, rrDepth = 1, rrDetectedAt = 0\<rparr>, roRecovered = False\<rparr>],
     dbMarket := demo_tables\<lparr>mtHolders := [(1, 60, 70) \<mapsto> \<lparr>hoBalance = 1000, hoFirstAcquired = Some 6\<rparr>]\<rparr>\<rparr>\<rparr>"

definition demo_reorg_engine :: "market_tables engine" where
  "demo_reorg_engine = \<lparr>egSettings = demo_settings, egOwned = False, egDb = demo_menv, egHeads = egHeads (demo_engine 9),
     egHeader = egHeader (demo_engine 9), egDiscover = egDiscover (demo_engine 9), egDecoder = egDecoder (demo_engine 9),
     egCodec = egCodec (demo_engine 9)\<rparr>"

definition demo_stored_state :: State where
  "demo_stored_state = \<lparr>stChainID = 1, stDeploymentID = ''demo-v1'', stObserved = Some (demo_block 6 ''observed''), stSafe = None, stFinalized = None\<rparr>"

lemma demo_indexed_exact: "exact quo (wDb demo_indexed)"
proof -
  let ?p = "(6, 0, 1) :: position" and ?legs = "[(70, 1000)] :: (Address \<times> int) list"
  have rows: "raw_deltas c t [demo_launch_event, demo_mint] = (if c = 1 \<and> t = 60 then [] @ placed ?p ?legs else [])" for c t
    by (auto simp: raw_deltas_def demo_launch_event_def demo_mint_def demo_coordinates_def transfer_legs_def placed_def position_def)
  have before: "all_before ?p []" by (simp add: all_before_def)
  have sum: "holder_total h [] = 0" "0 \<le> leg_sum h ?legs" for h by (simp_all add: holder_total_def leg_sum_def)
  have none: "solvent h []" for h by (simp add: solvent_def)
  have h: "rebuilt_holder ([] @ placed ?p ?legs) h = (if h = 70 then Some \<lparr>hoBalance = 1000, hoFirstAcquired = Some 6\<rparr> else None)" for h
    using rebuilt_step[OF before, of h ?legs] sum[of h] by (simp add: holder_upsert_def coalesced_def leg_sum_def)
  have s: "solvent h ([] @ placed ?p ?legs)" for h using solvent_step[OF none before, of h ?legs] sum[of h] by simp
  have "token_market_rows quo c t (wDb demo_indexed) = []" for c t
    by (simp add: token_market_rows_def demo_indexed_def event_market_rows_def demo_launch_event_def demo_mint_def Let_def)
  then show ?thesis
    using h s none by (auto simp: exact_def exact_token_def demo_indexed_def rows demo_tables_def simp del: append_Nil)
qed

lemma demo_recovers: "fst (recoverTx demo_reorg_engine demo_stored_state [6] 1 demo_indexed) = Inr ()"
  by (simp add: recoverTx_def demo_reorg_engine_def demo_settings_def demo_menv_def quiet_env_def demo_indexed_def demo_mworld_def
      demo_mdb_def FindCommonAncestor_def AffectedTokensAbove_def DeleteCanonicalAbove_def iobind_def statement_def
      sql_FindCommonAncestor_def demo_block_def sql_AffectedTokensAbove_def Let_def ret_eq demo_launch_event_def demo_mint_def
      demo_coordinates_def event_above_def List.map_filter_def event_token_def event_pair_def delete_order_def sql_DeleteAbove_def
      table_of_def demo_token_def RebuildTokenProjections_def sql_HasCanonicalLaunch_def sql_ClearOrphanProjections_def
      sql_DeleteIndexedBlocksAbove_def DeleteTokenStats_def RecomputeTokenStats_def market_statement_def
      RecomputeProtocolAggregates_def recomputeProtocolAggregates_def WriteState_def UpsertSyncState_def sql_UpsertSyncState_def
      demo_stored_state_def sync_check_def point_of_def point_not_ahead_def point_nonnegative_def deployment_id_valid_def lower_alnum_def
      CompleteReorg_def sql_CompleteIndexerReorg_def tick_def)

theorem recovery_exact_witness:
  "exact (\<lambda>a b. a div b) (wDb (snd (recoverTx demo_reorg_engine demo_stored_state [6] 1 demo_indexed)))"
proof -
  have "launched_first (dbEvents (wDb demo_indexed))"
    by (auto simp: launched_first_def demo_indexed_def demo_launch_event_def demo_mint_def demo_token_def demo_coordinates_def
        launch_event_def event_token_def table_of_def)
  then show ?thesis
    using recovery_exact[of demo_reorg_engine "\<lambda>a b. a div b" demo_indexed demo_stored_state "[6]" 1
        "snd (recoverTx demo_reorg_engine demo_stored_state [6] 1 demo_indexed)"] demo_recovers demo_indexed_exact
    by (simp add: demo_reorg_engine_def demo_menv_def quiet_env_def prod_eq_iff)
qed

section \<open>Reserves across a graduation\<close>

text \<open>
  A graduating trade emits the trade, then the pair's first sync, then the graduation. While the sync is
  projected its token is not graduated yet, so the sync is skipped and the curve's reserves stay;
  the rebuild of the same ledger, which sees the graduation first, takes the sync.
\<close>

definition demo_graduation :: "DecodedLog list" where
  "demo_graduation = [demo_log 5 7 0 (EvTokenLaunched demo_token),
     demo_log 6 8 0 (EvTrade 60 71 True (Some 10) (Some 0) (Some 5) (Some 0) (Some 0) (Some 10) (Some 5)),
     demo_log 6 8 1 (EvPoolSync 80 (Some 200) (Some 5)), demo_log 6 8 2 (EvGraduated 60 80 (Some 5) (Some 200) (Some 30))]"

definition demo_graduated :: mdb where
  "demo_graduated = wDb (snd (router_Apply demo_menv 1 demo_graduation Map.empty [] demo_mworld))"

theorem reserve_rebuild_differs:
  "fst (router_Apply demo_menv 1 demo_graduation Map.empty [] demo_mworld) = Inr ()
   \<and> map_option rvSource (mtReserves (dbMarket demo_graduated) (1, 60)) = Some ''curve''
   \<and> map_option rvSource (mtReserves (sql_rebuild_market (\<lambda>a b. a div b) 1 60 demo_graduated) (1, 60)) = Some ''pair''"
  by code_simp

end
