(* ===== verification/Text_Codec.thy ===== *)
theory Text_Codec
  imports Launch_Prelude
begin

text \<open>
  Text forms of numbers and bytes at the API boundary: decimal integers as \<^verbatim>\<open>strconv\<close> and
  \<^verbatim>\<open>math/big\<close> print and parse them, the canonical amounts of \<^verbatim>\<open>apiserver/quote_routes.go\<close>, and
  unpadded URL-safe base64. A byte string is a list of characters.
\<close>

section \<open>Decimal integers\<close>

definition is_decimal :: "char \<Rightarrow> bool" where
  "is_decimal c \<longleftrightarrow> 48 \<le> (of_char c :: nat) \<and> (of_char c :: nat) \<le> 57"

fun nat_digits :: "nat \<Rightarrow> string" where
  "nat_digits n = (if n < 10 then [char_of (48 + n)] else nat_digits (n div 10) @ [char_of (48 + n mod 10)])"

declare nat_digits.simps [simp del]

definition decimal_value :: "string \<Rightarrow> nat" where
  "decimal_value s = foldl (\<lambda>n c. n * 10 + (of_char c - 48)) 0 s"

text \<open>\<^verbatim>\<open>strconv.FormatInt(n, 10)\<close> and \<^verbatim>\<open>(*big.Int).String\<close>.\<close>

definition FormatInt :: "int \<Rightarrow> string" where
  "FormatInt n = (if n < 0 then CHR ''-'' # nat_digits (nat (- n)) else nat_digits (nat n))"

definition unsigned_decimal :: "string \<Rightarrow> nat option" where
  "unsigned_decimal s = (if s = [] \<or> \<not> list_all is_decimal s then None else Some (decimal_value s))"

text \<open>\<^verbatim>\<open>SetString(s, 10)\<close>: an optional sign and digits.\<close>

definition SetString :: "string \<Rightarrow> int option" where
  "SetString s = (case s of
     [] \<Rightarrow> None
   | c # r \<Rightarrow> if c = CHR ''-'' then map_option (\<lambda>n. - int n) (unsigned_decimal r)
       else if c = CHR ''+'' then map_option int (unsigned_decimal r) else map_option int (unsigned_decimal s))"

text \<open>\<^verbatim>\<open>strconv.ParseInt(s, 10, bits)\<close>; syntax and range errors are not distinguished.\<close>

definition ParseInt :: "nat \<Rightarrow> string \<Rightarrow> int option" where
  "ParseInt bits s = (case SetString s of
     None \<Rightarrow> None
   | Some n \<Rightarrow> if - (2 ^ (bits - 1)) \<le> n \<and> n < 2 ^ (bits - 1) then Some n else None)"

lemma of_digit: "d < 10 \<Longrightarrow> (of_char (char_of (48 + d) :: char) :: nat) = 48 + d"
  by simp

lemma is_decimal_digit [simp]: "(d :: nat) < 10 \<Longrightarrow> is_decimal (char_of (48 + d))"
  by (simp add: is_decimal_def)

lemma zero_digit: "(of_char (CHR ''0'') :: nat) = 48"
  by simp

lemma nat_digits_decimal: "list_all is_decimal (nat_digits n)"
proof (induction n rule: nat_digits.induct)
  case (1 n)
  then show ?case by (subst nat_digits.simps) simp
qed

lemma nat_digits_nonempty [simp]: "nat_digits n \<noteq> []"
  by (subst nat_digits.simps) simp

lemma decimal_value_append: "decimal_value (s @ [c]) = decimal_value s * 10 + (of_char c - 48)"
  by (simp add: decimal_value_def)

lemma decimal_value_digits [simp]: "decimal_value (nat_digits n) = n"
proof (induction n rule: nat_digits.induct)
  case (1 n)
  show ?case
  proof (cases "n < 10")
    case True
    then show ?thesis by (subst nat_digits.simps) (simp add: decimal_value_def)
  next
    case False
    then show ?thesis using 1 by (subst nat_digits.simps) (simp add: decimal_value_append)
  qed
qed

lemma unsigned_decimal_digits [simp]: "unsigned_decimal (nat_digits n) = Some n"
  by (simp add: unsigned_decimal_def nat_digits_decimal)

lemma digits_sign: "nat_digits n = c # r \<Longrightarrow> c \<noteq> CHR ''-'' \<and> c \<noteq> CHR ''+''"
  using nat_digits_decimal[of n] by (auto simp: is_decimal_def)

lemma SetString_FormatInt [simp]: "SetString (FormatInt n) = Some n"
proof (cases "n < 0")
  case True
  then show ?thesis by (simp add: FormatInt_def SetString_def)
next
  case False
  obtain c r where d: "nat_digits (nat n) = c # r" by (cases "nat_digits (nat n)") auto
  then show ?thesis using False digits_sign[OF d] unsigned_decimal_digits[of "nat n"]
    by (simp add: FormatInt_def SetString_def)
qed

lemma ParseInt_FormatInt [simp]: "- (2 ^ (b - 1)) \<le> n \<Longrightarrow> n < 2 ^ (b - 1) \<Longrightarrow> ParseInt b (FormatInt n) = Some n"
  by (simp add: ParseInt_def)

text \<open>A digit string without a leading zero is the printed form of its value.\<close>

definition canonical_digits :: "string \<Rightarrow> bool" where
  "canonical_digits s \<longleftrightarrow> s \<noteq> [] \<and> list_all is_decimal s \<and> (1 < length s \<longrightarrow> hd s \<noteq> CHR ''0'')"

lemma decimal_char: "is_decimal c \<Longrightarrow> char_of (48 + (of_char c - 48 :: nat)) = c"
  by (simp add: is_decimal_def)

lemma decimal_digit_less: "is_decimal c \<Longrightarrow> (of_char c - 48 :: nat) < 10"
  by (auto simp: is_decimal_def)

lemma decimal_value_pos:
  assumes "list_all is_decimal s" "s \<noteq> []" "hd s \<noteq> CHR ''0''"
  shows "0 < decimal_value s"
  using assms
proof (induction s rule: rev_induct)
  case (snoc c s)
  have "of_char c \<noteq> (48 :: nat)" if "s = []"
    using snoc.prems(3) that zero_digit by (metis append_Nil list.sel(1) of_char_eq_iff)
  then show ?case using snoc by (cases "s = []") (auto simp: decimal_value_append is_decimal_def decimal_value_def)
qed simp

lemma canonical_digits_value: "canonical_digits s \<Longrightarrow> nat_digits (decimal_value s) = s"
proof (induction s rule: rev_induct)
  case (snoc c s)
  have c: "is_decimal c" using snoc.prems by (simp add: canonical_digits_def)
  show ?case
  proof (cases "s = []")
    case True
    then show ?thesis using c decimal_char[OF c] decimal_digit_less[OF c]
      by (subst nat_digits.simps) (simp add: decimal_value_def)
  next
    case False
    then have s: "canonical_digits s" using snoc.prems by (auto simp: canonical_digits_def)
    have "hd s \<noteq> CHR ''0''" using snoc.prems False by (auto simp: canonical_digits_def Suc_lessI)
    then have "0 < decimal_value s" using s False by (intro decimal_value_pos) (auto simp: canonical_digits_def)
    then have "\<not> decimal_value (s @ [c]) < 10" "decimal_value (s @ [c]) div 10 = decimal_value s"
        "decimal_value (s @ [c]) mod 10 = of_char c - 48"
      using decimal_digit_less[OF c] by (auto simp: decimal_value_append)
    then show ?thesis using snoc.IH[OF s] decimal_char[OF c] by (subst nat_digits.simps) simp
  qed
qed (simp add: canonical_digits_def)

lemma canonical_nat_digits: "canonical_digits (nat_digits n)"
proof -
  have "hd (nat_digits n) \<noteq> CHR ''0''" if "0 < n" for n
    using that
  proof (induction n rule: nat_digits.induct)
    case (1 n)
    show ?case
    proof (cases "n < 10")
      case True
      then have "char_of (48 + n) \<noteq> (CHR ''0'')"
        using 1(2) of_digit[of n] zero_digit by (metis add_cancel_left_right less_numeral_extra(3))
      then show ?thesis using True by (subst nat_digits.simps) simp
    next
      case False
      then show ?thesis using 1 by (subst nat_digits.simps) (simp add: hd_append)
    qed
  qed
  moreover have "length (nat_digits 0) = 1" by (subst nat_digits.simps) simp
  ultimately show ?thesis by (cases "n = 0") (auto simp: canonical_digits_def nat_digits_decimal)
qed

lemma nat_digits_length: "n < 10 ^ k \<Longrightarrow> 0 < k \<Longrightarrow> length (nat_digits n) \<le> k"
proof (induction k arbitrary: n)
  case (Suc k)
  show ?case
  proof (cases "n < 10")
    case True
    then show ?thesis by (subst nat_digits.simps) simp
  next
    case False
    then have "k \<noteq> 0" using Suc.prems by (cases k) auto
    moreover have "n div 10 < 10 ^ k" using Suc.prems by (simp add: less_mult_imp_div_less mult.commute)
    ultimately show ?thesis using False Suc.IH[of "n div 10"] by (subst nat_digits.simps) simp
  qed
qed simp

section \<open>Canonical amounts\<close>

text \<open>The error is \<^verbatim>\<open>curve.ErrInvalidAmount\<close> for the field \<^verbatim>\<open>amount\<close>.\<close>

definition parseCanonicalUint256 :: "string \<Rightarrow> string + int" where
  "parseCanonicalUint256 s =
     (if s = [] \<or> length s > 78 \<or> (length s > 1 \<and> s ! 0 = CHR ''0'') \<or> s ! 0 = CHR ''-''
         \<or> list_ex (\<lambda>c. c \<in> set ''.+eE'') s
      then Inl ''amount''
      else case SetString s of
        None \<Rightarrow> Inl ''amount''
      | Some n \<Rightarrow> if n < 0 \<or> n \<ge> 2 ^ 256 then Inl ''amount'' else Inr n)"

lemma digits_plain: "list_all is_decimal s \<Longrightarrow> \<not> list_ex (\<lambda>c. c \<in> set ''.+eE'') s"
  by (induction s) (auto simp: is_decimal_def)

lemma uint256_digits: "n < 2 ^ 256 \<Longrightarrow> length (nat_digits n) \<le> 78"
proof -
  assume "n < 2 ^ 256"
  moreover have "(2 :: nat) ^ 256 \<le> 10 ^ 78" by simp
  ultimately have "n < 10 ^ 78" by linarith
  then show ?thesis by (rule nat_digits_length) simp
qed

lemma parseCanonicalUint256_Inr:
  "parseCanonicalUint256 s = Inr n \<longleftrightarrow> 0 \<le> n \<and> n < 2 ^ 256 \<and> s = FormatInt n"
proof
  assume p: "parseCanonicalUint256 s = Inr n"
  then have shape: "s \<noteq> []" "1 < length s \<longrightarrow> hd s \<noteq> CHR ''0''" "hd s \<noteq> CHR ''-''" "\<not> list_ex (\<lambda>c. c \<in> set ''.+eE'') s"
    and n: "SetString s = Some n" "0 \<le> n" "n < 2 ^ 256"
    by (auto simp: parseCanonicalUint256_def hd_conv_nth split: if_splits option.splits)
  obtain c r where s: "s = c # r" using shape(1) by (cases s) auto
  have "c \<noteq> CHR ''+''" using shape(4) s by auto
  then have "unsigned_decimal s = Some (nat n)"
    using n(1) s shape(3) by (auto simp: SetString_def)
  then have d: "list_all is_decimal s" "decimal_value s = nat n" by (auto simp: unsigned_decimal_def split: if_splits)
  then have "nat_digits (nat n) = s" using shape canonical_digits_value[of s] by (auto simp: canonical_digits_def)
  then show "0 \<le> n \<and> n < 2 ^ 256 \<and> s = FormatInt n" using n by (simp add: FormatInt_def)
next
  assume n: "0 \<le> n \<and> n < 2 ^ 256 \<and> s = FormatInt n"
  then have s: "s = nat_digits (nat n)" by (simp add: FormatInt_def)
  have "nat n < 2 ^ 256" using n by (simp add: nat_less_iff)
  then have "length s \<le> 78" unfolding s by (rule uint256_digits)
  moreover have "canonical_digits s" unfolding s by (rule canonical_nat_digits)
  moreover have "s \<noteq> []" "s ! 0 \<noteq> CHR ''-''" using nat_digits_decimal[of "nat n"] nat_digits_nonempty[of "nat n"]
    unfolding s[symmetric] by (cases s; auto simp: is_decimal_def)+
  moreover have "SetString s = Some n" using n by simp
  ultimately show "parseCanonicalUint256 s = Inr n"
    using n digits_plain[of s] by (auto simp: parseCanonicalUint256_def canonical_digits_def hd_conv_nth)
qed

section \<open>Unpadded URL-safe base64\<close>

definition b64_alphabet :: string where
  "b64_alphabet = ''ABCDEFGHIJKLMNOPQRSTUVWXYZabcdefghijklmnopqrstuvwxyz0123456789-_''"

definition b64_char :: "nat \<Rightarrow> char" where
  "b64_char n = b64_alphabet ! n"

definition b64_value :: "char \<Rightarrow> nat option" where
  "b64_value c = map_of (zip b64_alphabet [0..<64]) c"

text \<open>Three bytes are four sextets; a rest of one or two bytes fills the last sextet with zero bits.\<close>

fun b64_sextets :: "string \<Rightarrow> nat list" where
  "b64_sextets [] = []"
| "b64_sextets [a] = (let x = of_char a in [x div 4, (x mod 4) * 16])"
| "b64_sextets [a, b] = (let x = of_char a; y = of_char b in [x div 4, (x mod 4) * 16 + y div 16, (y mod 16) * 4])"
| "b64_sextets (a # b # c # r) = (let x = of_char a; y = of_char b; z = of_char c in
     [x div 4, (x mod 4) * 16 + y div 16, (y mod 16) * 4 + z div 64, z mod 64] @ b64_sextets r)"

definition b64_encode :: "string \<Rightarrow> string" where
  "b64_encode s = map b64_char (b64_sextets s)"

fun b64_bytes :: "bool \<Rightarrow> nat list \<Rightarrow> string option" where
  "b64_bytes strict [] = Some []"
| "b64_bytes strict [x] = None"
| "b64_bytes strict [x, y] = (if strict \<and> y mod 16 \<noteq> 0 then None else Some [char_of (x * 4 + y div 16)])"
| "b64_bytes strict [x, y, z] = (if strict \<and> z mod 4 \<noteq> 0 then None
     else Some [char_of (x * 4 + y div 16), char_of ((y mod 16) * 16 + z div 4)])"
| "b64_bytes strict (x # y # z # w # r) = map_option
     (\<lambda>s. char_of (x * 4 + y div 16) # char_of ((y mod 16) * 16 + z div 4) # char_of ((z mod 4) * 64 + w) # s)
     (b64_bytes strict r)"

text \<open>The decoder skips line breaks; strict decoding also requires the filling bits to be zero.\<close>

definition b64_decode :: "bool \<Rightarrow> string \<Rightarrow> string option" where
  "b64_decode strict s = Option.bind (those (map b64_value (filter (\<lambda>c. c \<notin> {CHR 0x0A, CHR 0x0D}) s))) (b64_bytes strict)"

lemma b64_value_char: "n < 64 \<Longrightarrow> b64_value (b64_char n) = Some n"
proof -
  assume n: "n < 64"
  have "\<forall>n \<in> set [0..<64]. b64_value (b64_char n) = Some n \<and> b64_char n \<notin> {CHR 0x0A, CHR 0x0D}" by code_simp
  then show ?thesis using n by auto
qed

lemma b64_char_visible: "n < 64 \<Longrightarrow> b64_char n \<notin> {CHR 0x0A, CHR 0x0D}"
proof -
  assume n: "n < 64"
  have "\<forall>n \<in> set [0..<64]. b64_char n \<notin> {CHR 0x0A, CHR 0x0D}" by code_simp
  then show ?thesis using n by auto
qed

lemma byte_less: "(of_char c :: nat) < 256"
  by simp

lemma sextet_less:
  assumes "x < 256" "y < 256" "z < (256 :: nat)"
  shows "x div 4 < 64" "x mod 4 * 16 < 64" "x mod 4 * 16 + y div 16 < 64" "y mod 16 * 4 < 64" "y mod 16 * 4 + z div 64 < 64"
proof -
  have "x mod 4 < 4" "y div 16 < 16" "y mod 16 < 16" "z div 64 < 4" using assms by (simp_all add: less_mult_imp_div_less)
  then show "x div 4 < 64" "x mod 4 * 16 < 64" "x mod 4 * 16 + y div 16 < 64" "y mod 16 * 4 < 64" "y mod 16 * 4 + z div 64 < 64"
    using assms by linarith+
qed

lemmas sextet_bytes = sextet_less[OF byte_less byte_less byte_less]

lemma byte_joined:
  assumes "y < 256" "z < (256 :: nat)"
  shows "x div 4 * 4 + (x mod 4 * 16 + y div 16) div 16 = x"
    "(x mod 4 * 16 + y div 16) mod 16 * 16 + (y mod 16 * 4 + z div 64) div 4 = y"
    "(x mod 4 * 16 + y div 16) mod 16 * 16 + y mod 16 * 4 div 4 = y"
    "(y mod 16 * 4 + z div 64) mod 4 * 64 + z mod 64 = z"
proof -
  have "y div 16 < 16" "z div 64 < 4" using assms by (simp_all add: less_mult_imp_div_less)
  then have "(x mod 4 * 16 + y div 16) div 16 = x mod 4" "(x mod 4 * 16 + y div 16) mod 16 = y div 16"
    "(y mod 16 * 4 + z div 64) div 4 = y mod 16" "(y mod 16 * 4 + z div 64) mod 4 = z div 64" by simp_all
  then show "x div 4 * 4 + (x mod 4 * 16 + y div 16) div 16 = x"
    "(x mod 4 * 16 + y div 16) mod 16 * 16 + (y mod 16 * 4 + z div 64) div 4 = y"
    "(x mod 4 * 16 + y div 16) mod 16 * 16 + y mod 16 * 4 div 4 = y"
    "(y mod 16 * 4 + z div 64) mod 4 * 64 + z mod 64 = z" by simp_all
qed

lemmas bytes_joined = byte_joined[OF byte_less byte_less]

lemma b64_sextets_bound: "list_all (\<lambda>x. x < 64) (b64_sextets s)"
  by (induction s rule: b64_sextets.induct) (simp_all add: Let_def sextet_bytes)

lemma b64_bytes_sextets: "b64_bytes strict (b64_sextets s) = Some s"
proof (induction s rule: b64_sextets.induct)
  case (3 a b)
  have "of_char b mod 16 * 4 mod 4 = (0 :: nat)" by simp
  then show ?case
    by (simp only: b64_sextets.simps b64_bytes.simps Let_def bytes_joined char_of_char) simp
next
  case (4 a b c r)
  then show ?case
    by (simp only: b64_sextets.simps b64_bytes.simps Let_def bytes_joined char_of_char append_Cons append_Nil) simp
qed (simp_all add: Let_def)

lemma b64_roundtrip: "b64_decode strict (b64_encode s) = Some s"
proof -
  have "filter (\<lambda>c. c \<notin> {CHR 0x0A, CHR 0x0D}) (b64_encode s) = b64_encode s"
    using b64_char_visible b64_sextets_bound[of s] by (auto simp: b64_encode_def filter_id_conv list_all_iff)
  moreover have "those (map b64_value (map b64_char xs)) = Some xs" if "\<forall>x \<in> set xs. x < 64" for xs
    using that by (induction xs) (auto simp: b64_value_char)
  then have "those (map b64_value (b64_encode s)) = Some (b64_sextets s)"
    unfolding b64_encode_def using b64_sextets_bound[of s] by (simp add: list_all_iff)
  ultimately show ?thesis by (simp add: b64_decode_def b64_bytes_sextets)
qed

end
