(* ===== verification/Page_Cursor.thy ===== *)
theory Page_Cursor
  imports Text_Codec Chain_Types
begin

text \<open>
  Opaque page cursors (\<^verbatim>\<open>pagination/cursor.go\<close>), the filter digest and the cursor keys of
  \<^verbatim>\<open>store/postgres/read_adapter.go\<close>, and the interface of a paged listing.

  The record \<open>read_library\<close> holds the functions these packages call: the address codec of
  go-ethereum, the JSON codec of a cursor, SHA-256 as hexadecimal digits, RFC 3339 times (in
  microseconds, the resolution of the database) and the case folding of Go and of PostgreSQL.
  \<open>library_laws\<close> names what is relied on.
\<close>

section \<open>Cursors\<close>

record Snapshot =
  snChainID :: int
  snBlockNumber :: int
  snBlockHash :: Hash

record Cursor =
  cuVersion :: int
  cuSnapshot :: Snapshot
  cuEndpoint :: string
  cuSort :: string
  cuFilters :: string
  cuDirection :: string
  cuKey :: "string list"

datatype read_error =
    InvalidCursor string
  | CursorInvalidated
  | SnapshotUnavailable string
  | TokenNotFound
  | ContextCanceled
  | ReadFailure string

record read_library =
  rlIsHexAddress :: "string \<Rightarrow> bool"
  rlHexToAddress :: "string \<Rightarrow> Address"
  rlAddressHex :: "Address \<Rightarrow> string"
  rlHashHex :: "Hash \<Rightarrow> string"
  rlMarshal :: "Cursor \<Rightarrow> string + string"
  rlDecode :: "string \<Rightarrow> string + Cursor \<times> string"
  rlAtEOF :: "string \<Rightarrow> bool"
  rlSha256Hex :: "string \<Rightarrow> string"
  rlFormatTime :: "int \<Rightarrow> string"
  rlParseTime :: "string \<Rightarrow> int option"
  rlToLower :: "string \<Rightarrow> string"
  rlTrimSpace :: "string \<Rightarrow> string"
  rlSqlLower :: "string \<Rightarrow> string"

definition CurrentVersion :: int where "CurrentVersion = 1"

definition ValidateShape :: "Cursor \<Rightarrow> read_error + unit" where
  "ValidateShape c =
     (if cuVersion c \<noteq> CurrentVersion \<or> snChainID (cuSnapshot c) \<le> 0 \<or> snBlockNumber (cuSnapshot c) < 0
         \<or> cuEndpoint c = [] \<or> cuSort c = [] \<or> cuDirection c = [] \<or> cuKey c = []
      then Inl (InvalidCursor ''unsupported shape'') else Inr ())"

definition Encode :: "read_library \<Rightarrow> Cursor \<Rightarrow> read_error + string" where
  "Encode lib c =
     rbind (ValidateShape c) (\<lambda>_.
     rbind (map_sum (\<lambda>e. ReadFailure (''encode cursor: '' @ e)) id (rlMarshal lib c)) (\<lambda>b.
     Inr (b64_encode b)))"

definition Decode :: "read_library \<Rightarrow> string \<Rightarrow> read_error + Cursor" where
  "Decode lib encoded =
     (if encoded = [] then Inl (InvalidCursor ''empty'')
      else case b64_decode True encoded of
        None \<Rightarrow> Inl (InvalidCursor ''base64'')
      | Some b \<Rightarrow>
        (case rlDecode lib b of
           Inl _ \<Rightarrow> Inl (InvalidCursor ''json'')
         | Inr (c, rest) \<Rightarrow>
           if \<not> rlAtEOF lib rest then Inl (InvalidCursor ''trailing data'')
           else rbind (ValidateShape c) (\<lambda>_. Inr c)))"

definition ValidateRequest ::
    "Cursor \<Rightarrow> string \<Rightarrow> string \<Rightarrow> string \<Rightarrow> string \<Rightarrow> Snapshot \<Rightarrow> read_error + unit" where
  "ValidateRequest c endpoint order filters direction snapshot =
     rbind (ValidateShape c) (\<lambda>_.
     if cuEndpoint c \<noteq> endpoint \<or> cuSort c \<noteq> order \<or> cuFilters c \<noteq> filters \<or> cuDirection c \<noteq> direction
     then Inl (InvalidCursor ''request changed'')
     else if snChainID (cuSnapshot c) \<noteq> snChainID snapshot \<or> snBlockNumber (cuSnapshot c) \<noteq> snBlockNumber snapshot
         \<or> snBlockHash (cuSnapshot c) \<noteq> snBlockHash snapshot
     then Inl CursorInvalidated
     else Inr ())"

section \<open>Filter digests and keys\<close>

text \<open>What is written to the hash: each part with its length in front.\<close>

definition filter_text :: "string list \<Rightarrow> string" where
  "filter_text parts = concat (map (\<lambda>part. FormatInt (int (length part)) @ '':'' @ part) parts)"

definition cursorFilter :: "read_library \<Rightarrow> string list \<Rightarrow> string" where
  "cursorFilter lib parts = rlSha256Hex lib (filter_text parts)"

definition tupleCursor :: "read_library \<Rightarrow> Cursor option \<Rightarrow> read_error + (int \<times> Address) option" where
  "tupleCursor lib cursor =
     (case cursor of
        None \<Rightarrow> Inr None
      | Some c \<Rightarrow>
        (case cuKey c of
           [number, address] \<Rightarrow>
             (case ParseInt 64 number of
                None \<Rightarrow> Inl (ReadFailure ''invalid tuple cursor'')
              | Some n \<Rightarrow>
                if n < 0 \<or> \<not> rlIsHexAddress lib address then Inl (ReadFailure ''invalid tuple cursor'')
                else Inr (Some (n, rlHexToAddress lib address)))
         | _ \<Rightarrow> Inl (ReadFailure ''invalid tuple cursor'')))"

definition metricCursor :: "read_library \<Rightarrow> Cursor option \<Rightarrow> read_error + (int \<times> Address) option" where
  "metricCursor lib cursor =
     (case cursor of
        None \<Rightarrow> Inr None
      | Some c \<Rightarrow>
        (case cuKey c of
           [metric, address] \<Rightarrow>
             if \<not> rlIsHexAddress lib address then Inl (ReadFailure ''invalid metric cursor'')
             else (case SetString metric of
                None \<Rightarrow> Inl (ReadFailure ''invalid metric cursor'')
              | Some n \<Rightarrow> if n < 0 then Inl (ReadFailure ''invalid metric cursor'')
                  else Inr (Some (n, rlHexToAddress lib address)))
         | _ \<Rightarrow> Inl (ReadFailure ''invalid metric cursor'')))"

section \<open>What the library promises\<close>

text \<open>
  An address printed by go-ethereum is read back as that address, and a time of the years 1 to 9999
  printed in the RFC 3339 layout as that time; addresses, digests and times are printed in ASCII.
  Decoding what was marshalled from a cursor of ASCII texts gives the cursor back and leaves nothing
  to read.
\<close>

definition ascii :: "string \<Rightarrow> bool" where
  "ascii s \<longleftrightarrow> list_all (\<lambda>c. (of_char c :: nat) < 128) s"

definition time_printable :: "int \<Rightarrow> bool" where
  "time_printable t \<longleftrightarrow> zero_time * 10 ^ 6 \<le> t \<and> t < 253402300800 * 10 ^ 6"

definition cursor_ascii :: "Cursor \<Rightarrow> bool" where
  "cursor_ascii c \<longleftrightarrow> ascii (cuEndpoint c) \<and> ascii (cuSort c) \<and> ascii (cuFilters c) \<and> ascii (cuDirection c)
     \<and> list_all ascii (cuKey c)"

definition library_laws :: "read_library \<Rightarrow> bool" where
  "library_laws lib \<longleftrightarrow>
     (\<forall>a. rlIsHexAddress lib (rlAddressHex lib a) \<and> rlHexToAddress lib (rlAddressHex lib a) = a \<and> ascii (rlAddressHex lib a))
     \<and> (\<forall>t. time_printable t \<longrightarrow> rlParseTime lib (rlFormatTime lib t) = Some t \<and> ascii (rlFormatTime lib t))
     \<and> (\<forall>s. ascii (rlSha256Hex lib s))
     \<and> (\<forall>c. ValidateShape c = Inr () \<and> cursor_ascii c \<longrightarrow> (\<exists>b rest. rlMarshal lib c = Inr b \<and> b \<noteq> []
          \<and> rlDecode lib b = Inr (c, rest) \<and> rlAtEOF lib rest))"

lemma library_address:
  assumes "library_laws lib"
  shows "rlIsHexAddress lib (rlAddressHex lib a)" "rlHexToAddress lib (rlAddressHex lib a) = a" "ascii (rlAddressHex lib a)"
  using assms by (auto simp: library_laws_def)

lemma library_time:
  assumes "library_laws lib" "time_printable t"
  shows "rlParseTime lib (rlFormatTime lib t) = Some t" "ascii (rlFormatTime lib t)"
  using assms by (auto simp: library_laws_def)

lemma ascii_cursorFilter: "library_laws lib \<Longrightarrow> ascii (cursorFilter lib parts)"
  by (auto simp: library_laws_def cursorFilter_def)

lemma ascii_append [simp]: "ascii (s @ t) \<longleftrightarrow> ascii s \<and> ascii t"
  by (simp add: ascii_def)

lemma ascii_decimal: "list_all is_decimal s \<Longrightarrow> ascii s"
  by (auto simp: ascii_def list_all_iff is_decimal_def)

lemma ascii_FormatInt [simp]: "ascii (FormatInt n)"
  using ascii_decimal[OF nat_digits_decimal[of "nat n"]] ascii_decimal[OF nat_digits_decimal[of "nat (- n)"]]
  by (auto simp: FormatInt_def) (simp add: ascii_def)

lemma b64_encode_empty [simp]: "b64_encode s = [] \<longleftrightarrow> s = []"
  by (cases s rule: b64_sextets.cases) (auto simp: b64_encode_def Let_def)

lemma ValidateShape_Inr:
  "ValidateShape c = Inr () \<longleftrightarrow> cuVersion c = CurrentVersion \<and> 0 < snChainID (cuSnapshot c)
     \<and> 0 \<le> snBlockNumber (cuSnapshot c) \<and> cuEndpoint c \<noteq> [] \<and> cuSort c \<noteq> [] \<and> cuDirection c \<noteq> [] \<and> cuKey c \<noteq> []"
  by (auto simp: ValidateShape_def)

lemma Encode_Decode:
  assumes "library_laws lib" "ValidateShape c = Inr ()" "cursor_ascii c"
  obtains s where "Encode lib c = Inr s" "s \<noteq> []" "Decode lib s = Inr c"
proof -
  obtain b rest where b: "rlMarshal lib c = Inr b" "b \<noteq> []" "rlDecode lib b = Inr (c, rest)" "rlAtEOF lib rest"
    using assms unfolding library_laws_def by blast
  show ?thesis
  proof (rule that)
    show "Encode lib c = Inr (b64_encode b)" using assms(2) b by (simp add: Encode_def)
    show "b64_encode b \<noteq> []" using b by simp
    show "Decode lib (b64_encode b) = Inr c" using assms(2) b by (simp add: Decode_def b64_roundtrip)
  qed
qed

lemma Decode_shape: "Decode lib s = Inr c \<Longrightarrow> ValidateShape c = Inr ()"
  by (auto simp: Decode_def result_iff split: if_splits option.splits sum.splits)

lemma ValidateRequest_Inr:
  "ValidateRequest c endpoint order filters direction snapshot = Inr () \<longleftrightarrow>
     ValidateShape c = Inr () \<and> cuEndpoint c = endpoint \<and> cuSort c = order \<and> cuFilters c = filters
     \<and> cuDirection c = direction \<and> cuSnapshot c = snapshot"
  by (cases "cuSnapshot c"; cases snapshot) (auto simp: ValidateRequest_def result_iff)

text \<open>Distinct filters are hashed from distinct texts.\<close>

lemma digits_before_colon:
  assumes "list_all is_decimal a" "list_all is_decimal b" "a @ CHR '':'' # x = b @ CHR '':'' # y"
  shows "a = b \<and> x = y"
  using assms
proof (induction a arbitrary: b)
  case Nil
  then show ?case by (cases b) (auto simp: is_decimal_def)
next
  case (Cons c a)
  then show ?case by (cases b) (auto simp: is_decimal_def)
qed

lemma filter_text_inject: "filter_text ps = filter_text qs \<longleftrightarrow> ps = qs"
proof
  show "filter_text ps = filter_text qs \<Longrightarrow> ps = qs"
  proof (induction ps arbitrary: qs)
    case Nil
    then show ?case by (cases qs) (auto simp: filter_text_def FormatInt_def)
  next
    case (Cons p ps)
    then obtain q rs where qs: "qs = q # rs" by (cases qs) (auto simp: filter_text_def FormatInt_def)
    have "nat_digits (length p) @ CHR '':'' # (p @ filter_text ps) = nat_digits (length q) @ CHR '':'' # (q @ filter_text rs)"
      using Cons.prems qs by (simp add: filter_text_def FormatInt_def)
    from digits_before_colon[OF nat_digits_decimal nat_digits_decimal this]
    have l: "nat_digits (length p) = nat_digits (length q)" and t: "p @ filter_text ps = q @ filter_text rs" by simp_all
    have "length p = length q" using arg_cong[where f = decimal_value, OF l] by simp
    then show ?case using t qs Cons.IH[of rs] by simp
  qed
qed simp

section \<open>Paged listings\<close>

text \<open>
  A client starts with the empty cursor and follows the cursor of each page until a page has none.
  Fuel bounds the number of requests; without enough of it there is no result.
\<close>

fun follow :: "nat \<Rightarrow> (string \<Rightarrow> 'e + 'r list \<times> string) \<Rightarrow> string \<Rightarrow> ('e + 'r list) option" where
  "follow 0 page c = None"
| "follow (Suc k) page c =
     (case page c of
        Inl e \<Rightarrow> Some (Inl e)
      | Inr (items, cursor) \<Rightarrow>
        if cursor = [] then Some (Inr items) else map_option (map_sum id ((@) items)) (follow k page cursor))"

text \<open>A full page ends with the cursor of its last row, a short one with none.\<close>

definition page_of :: "nat \<Rightarrow> ('r \<Rightarrow> 'i) \<Rightarrow> ('r \<Rightarrow> string) \<Rightarrow> 'r list \<Rightarrow> 'i list \<times> string" where
  "page_of n f token rows = (map f rows, if length rows = n then token (last rows) else [])"

text \<open>
  The contract of a list statement: without a key it returns the first rows of the listing, with a
  key the first of those past it; the listing is ordered by keys, and what is past is not before.
\<close>

locale keyset_listing =
  fixes fetch :: "'k option \<Rightarrow> int \<Rightarrow> 'r list"
    and key :: "'r \<Rightarrow> 'k"
    and past :: "'k \<Rightarrow> 'k \<Rightarrow> bool"
    and rows :: "'r list"
  assumes fetch_first: "fetch None n = take (nat n) rows"
    and fetch_next: "fetch (Some k) n = take (nat n) (filter (\<lambda>r. past k (key r)) rows)"
    and ordered: "distinct (map key rows) \<Longrightarrow> sorted_wrt (\<lambda>a b. past (key a) (key b)) rows"
    and past_strict: "past a b \<Longrightarrow> \<not> past b a"
begin

lemma fetch_after:
  assumes "distinct (map key rows)" "rows = us @ r # vs"
  shows "fetch (Some (key r)) n = take (nat n) vs"
proof -
  have "sorted_wrt (\<lambda>a b. past (key a) (key b)) (us @ r # vs)" using ordered assms by simp
  then have "filter (\<lambda>x. past (key r) (key x)) (us @ r # vs) = vs"
    using past_strict by (auto simp: sorted_wrt_append filter_empty_conv filter_id_conv)
  then show ?thesis using assms(2) by (simp add: fetch_next)
qed

text \<open>
  A client of such a statement serves pages of \<open>n\<close> rows: the first for the empty cursor, and for the
  cursor of a row the page that starts past the row's key.
\<close>

lemma follow_suffix:
  assumes "distinct (map key rows)" "0 < n"
    and "\<And>r. r \<in> set rows \<Longrightarrow> token r \<noteq> [] \<and> page (token r) = Inr (page_of n f token (fetch (Some (key r)) (int n)))"
    and "page c = Inr (page_of n f token (take n vs))" "rows = us @ vs" "length vs div n < k"
  shows "follow k page c = Some (Inr (map f vs))"
  using assms(4-6)
proof (induction k arbitrary: c us vs)
  case (Suc k)
  show ?case
  proof (cases "n \<le> length vs")
    case False
    then show ?thesis using Suc.prems(1) by (simp add: page_of_def)
  next
    case True
    define r where "r = vs ! (n - 1)"
    have split: "take n vs = take (n - 1) vs @ [r]"
      using take_Suc_conv_app_nth[of "n - 1" vs] True assms(2) by (simp add: r_def)
    have rows: "rows = (us @ take (n - 1) vs) @ r # drop n vs"
      using Suc.prems(2) split by (metis append_Cons append_Nil append_assoc append_take_drop_id)
    have "r \<in> set rows" using rows by simp
    then have r: "token r \<noteq> []" "page (token r) = Inr (page_of n f token (take n (drop n vs)))"
      using assms(3) fetch_after[OF assms(1) rows, of "int n"] by simp_all
    have "length vs div n = Suc (length (drop n vs) div n)"
      using True assms(2) by (simp add: le_div_geq)
    then have "follow k page (token r) = Some (Inr (map f (drop n vs)))"
      using Suc.IH[OF r(2), of "us @ take n vs"] Suc.prems(2,3) by simp
    moreover have "last (take n vs) = r" by (simp add: split)
    ultimately show ?thesis using Suc.prems(1) r(1) True
      by (simp add: page_of_def min_absorb2 map_append[symmetric] del: map_append)
  qed
qed simp

lemma follow_all:
  assumes "distinct (map key rows)" "0 < n"
    and "\<And>r. r \<in> set rows \<Longrightarrow> token r \<noteq> [] \<and> page (token r) = Inr (page_of n f token (fetch (Some (key r)) (int n)))"
    and "page [] = Inr (page_of n f token (fetch None (int n)))" "length rows div n < k"
  shows "follow k page [] = Some (Inr (map f rows))"
  using follow_suffix[OF assms(1-3), of "[]" rows "[]" k] assms(4,5) by (simp add: fetch_first)

end

text \<open>
  The two orders of the list statements: rows past the key, sorted, the first \<open>n\<close> of them. A missing
  key filters nothing.
\<close>

definition keyset_desc :: "('r \<Rightarrow> 'k :: linorder) \<Rightarrow> 'k option \<Rightarrow> int \<Rightarrow> 'r list \<Rightarrow> 'r list" where
  "keyset_desc key after n rows =
     take (nat n) (rev (sort_key key (filter (\<lambda>r. case after of None \<Rightarrow> True | Some k \<Rightarrow> key r < k) rows)))"

definition keyset_asc :: "('r \<Rightarrow> 'k :: linorder) \<Rightarrow> 'k option \<Rightarrow> int \<Rightarrow> 'r list \<Rightarrow> 'r list" where
  "keyset_asc key after n rows =
     take (nat n) (sort_key key (filter (\<lambda>r. case after of None \<Rightarrow> True | Some k \<Rightarrow> k < key r) rows))"

lemma sort_key_ascending:
  assumes "distinct (map key xs)"
  shows "sorted_wrt (\<lambda>a b. key a < (key b :: 'k :: linorder)) (sort_key key xs)"
proof -
  have "sorted (map key (sort_key key xs))" by simp
  moreover have "distinct (map key (sort_key key xs))"
    using assms by (simp add: distinct_map)
  ultimately have "sorted_wrt (<) (map key (sort_key key xs))" by (simp add: strict_sorted_iff)
  then show ?thesis by (simp add: sorted_wrt_map)
qed

interpretation descending: keyset_listing
    "\<lambda>after n. keyset_desc key after n xs" key "\<lambda>a b. b < a" "rev (sort_key key xs)"
  for key :: "'r \<Rightarrow> 'k :: linorder" and xs
proof unfold_locales
  show "keyset_desc key None n xs = take (nat n) (rev (sort_key key xs))" for n
    by (simp add: keyset_desc_def)
  show "keyset_desc key (Some k) n xs = take (nat n) (filter (\<lambda>r. key r < k) (rev (sort_key key xs)))" for k n
    by (simp add: keyset_desc_def rev_filter[symmetric] filter_sort)
  show "sorted_wrt (\<lambda>a b. key b < key a) (rev (sort_key key xs))" if "distinct (map key (rev (sort_key key xs)))"
    using that sort_key_ascending[of key xs] by (simp add: sorted_wrt_rev distinct_map)
qed simp

interpretation ascending: keyset_listing
    "\<lambda>after n. keyset_asc key after n xs" key "\<lambda>a b. a < b" "sort_key key xs"
  for key :: "'r \<Rightarrow> 'k :: linorder" and xs
proof unfold_locales
  show "keyset_asc key None n xs = take (nat n) (sort_key key xs)" for n
    by (simp add: keyset_asc_def)
  show "keyset_asc key (Some k) n xs = take (nat n) (filter (\<lambda>r. k < key r) (sort_key key xs))" for k n
    by (simp add: keyset_asc_def filter_sort)
  show "sorted_wrt (\<lambda>a b. key a < key b) (sort_key key xs)" if "distinct (map key (sort_key key xs))"
    using that sort_key_ascending[of key xs] by (simp add: distinct_map)
qed simp

end
