(* ===== verification/Read_Queries.thy ===== *)
theory Read_Queries
  imports Page_Cursor Market_Projections Numeric_Codec Quote_Service
begin

text \<open>
  The read side of the store: the statements of \<^verbatim>\<open>sqlc/read.sql.go\<close> and the readers of
  \<^verbatim>\<open>read_snapshot.go\<close>, \<^verbatim>\<open>read_adapter.go\<close> and \<^verbatim>\<open>public_reads.go\<close>. A reader runs in one read-only
  transaction at the repeatable-read level, so it is a function of one state of the tables.

  Tables the indexer writes are those of the ledger store; the tables that only readers enumerate are
  association lists from their primary keys. Texts are lists of characters. Block times are in
  seconds, times of candles and of the API in microseconds. Any statement may fail; a transaction
  runs each of its statements once, so failures are given by the statement's name.
\<close>

section \<open>Tables\<close>

record read_reserve =
  rrSource :: string
  rrEth :: int
  rrToken :: int
  rrBlock :: int
  rrHash :: Hash
  rrTime :: int

record stats_row =
  srSpotPrice :: int
  srMarketCap :: int
  srFDV :: int
  srLiquidity :: int
  srATHPrice :: int
  srATHAt :: int
  srVolume24h :: int
  srPriceChange :: int
  srHolderCount :: int

text \<open>
  Metadata and images are kept per launch: chain, token, transaction and log index. Rows from before
  the tenth migration are bound to no launch; no statement reads or writes them.
\<close>

type_synonym launch_key = "int \<times> Address \<times> Hash \<times> int"

record metadata_row =
  mdDescription :: "string option"
  mdImageURL :: "string option"
  mdXURL :: "string option"
  mdTelegramURL :: "string option"
  mdRevision :: int
  mdUpdatedAt :: int

record image_row =
  imContentType :: string
  imContent :: string
  imByteSize :: int
  imSHA256 :: string
  imRevision :: int
  imUpdatedAt :: int

record protocol_row =
  prVolume24h :: int
  prVolumeAllTime :: int
  prLaunches24h :: int
  prLaunchesAllTime :: int
  prTrades24h :: int
  prTradesAllTime :: int
  prGraduations24h :: int
  prGraduationsAllTime :: int
  prUpdatedAt :: int

record daily_row =
  dyVolume :: int
  dyLaunches :: int
  dyTrades :: int
  dyGraduations :: int

record read_tables =
  rtReserves :: "((int \<times> Address) \<times> read_reserve) list"
  rtHolders :: "((int \<times> Address \<times> Address) \<times> holder_row) list"
  rtCandles :: "((int \<times> Address \<times> string \<times> int) \<times> candle_row) list"
  rtStats :: "((int \<times> Address) \<times> stats_row) list"
  rtMetadata :: "(launch_key \<times> metadata_row) list"
  rtImages :: "(launch_key \<times> image_row) list"
  rtProtocol :: "(int \<times> protocol_row) list"
  rtDaily :: "((int \<times> int) \<times> daily_row) list"

type_synonym rdb = "read_tables db"

record read_env =
  rePool :: bool
  reBegin :: "idx_error option"
  reFails :: "string \<Rightarrow> idx_error option"
  reContext :: "read_error option"
  reQuo :: "int \<Rightarrow> int \<Rightarrow> int"
  reNumeric :: "int \<Rightarrow> Numeric"

definition micros :: "int \<Rightarrow> int" where "micros t = t * 10 ^ 6"

definition db_error :: "idx_error \<Rightarrow> read_error" where
  "db_error e = (if e = ContextDone then ContextCanceled else ReadFailure ''query'')"

definition run_query :: "read_env \<Rightarrow> string \<Rightarrow> 'a \<Rightarrow> read_error + 'a" where
  "run_query env name rows = (case reFails env name of Some e \<Rightarrow> Inl (db_error e) | None \<Rightarrow> Inr rows)"

section \<open>Numerics\<close>

definition numericBigWithExponent :: "Numeric \<Rightarrow> bool \<Rightarrow> string + int" where
  "numericBigWithExponent v exact =
     (case (nuValid v, nuInt v) of
        (True, Some n) \<Rightarrow>
          if nuExp v > 0 then Inr (n * 10 ^ nat (nuExp v))
          else if nuExp v = 0 then Inr n
          else let divisor = 10 ^ nat (- nuExp v) in
            if exact \<and> n - big_Quo n divisor * divisor \<noteq> 0 then Inl ''numeric value is fractional''
            else Inr (big_Quo n divisor)
      | _ \<Rightarrow> Inr 0)"

definition numericBig :: "Numeric \<Rightarrow> int" where
  "numericBig v = (case numericBigWithExponent v False of Inl _ \<Rightarrow> 0 | Inr n \<Rightarrow> n)"

definition numericBigExact :: "Numeric \<Rightarrow> string + int" where
  "numericBigExact v =
     (if \<not> nuValid v \<or> nuInt v = None then Inl ''numeric value is null''
      else if nuNaN v \<or> nuInfinityModifier v \<noteq> Finite then Inl ''numeric value is not finite''
      else numericBigWithExponent v True)"

text \<open>The candle reader takes the coefficient of a numeric and not its exponent.\<close>

definition candleNumeric :: "Numeric \<Rightarrow> int" where
  "candleNumeric v = (case nuInt v of None \<Rightarrow> 0 | Some n \<Rightarrow> n)"

definition null_numeric :: Numeric where
  "null_numeric = \<lparr>nuInt = None, nuExp = 0, nuNaN = False, nuInfinityModifier = Finite, nuValid = False\<rparr>"

definition numeric_column :: "read_env \<Rightarrow> int option \<Rightarrow> Numeric" where
  "numeric_column env v = (case v of None \<Rightarrow> null_numeric | Some n \<Rightarrow> reNumeric env n)"

text \<open>The driver returns a finite numeric that stands for the stored integer, in whatever scale.\<close>

definition numeric_stands_for :: "Numeric \<Rightarrow> int \<Rightarrow> bool" where
  "numeric_stands_for v n \<longleftrightarrow> nuValid v \<and> \<not> nuNaN v \<and> nuInfinityModifier v = Finite
     \<and> (case nuInt v of None \<Rightarrow> False | Some i \<Rightarrow>
          if 0 \<le> nuExp v then n = i * 10 ^ nat (nuExp v) else i = n * 10 ^ nat (- nuExp v))"

section \<open>Snapshots\<close>

record ReadSnapshot =
  readIdentity :: Snapshot
  readState :: SyncState

definition readSnapshotWatermarkError :: "idx_error \<Rightarrow> read_error" where
  "readSnapshotWatermarkError e = (if e = NoRows then SnapshotUnavailable ''sync state is not initialized''
     else if e = ContextDone then ContextCanceled else ReadFailure ''read snapshot watermark'')"

text \<open>
  The three observed columns are set together by a check of the table, here one optional triple, so
  the source's error for a half-set triple does not arise.
\<close>

definition observedIdentity :: "SyncState \<Rightarrow> read_error + Snapshot" where
  "observedIdentity state =
     (case syObserved state of
        None \<Rightarrow> Inl (SnapshotUnavailable ''no observed canonical block'')
      | Some (number, hash, at) \<Rightarrow>
          if number < 0 then Inl (ReadFailure ''snapshot has negative observed block number'')
          else Inr \<lparr>snChainID = syChainID state, snBlockNumber = number, snBlockHash = hash\<rparr>)"

definition readSyncState :: "read_env \<Rightarrow> int \<Rightarrow> string \<Rightarrow> rdb \<Rightarrow> read_error + SyncState" where
  "readSyncState env chainID deploymentID d =
     (case (case reFails env ''GetSyncState'' of Some e \<Rightarrow> Inl e | None \<Rightarrow> sql_GetSyncState chainID deploymentID d) of
        Inl e \<Rightarrow> Inl (readSnapshotWatermarkError e)
      | Inr (state, _) \<Rightarrow> Inr state)"

definition withReadSnapshotBeginner ::
    "read_env \<Rightarrow> int \<Rightarrow> string \<Rightarrow> rdb \<Rightarrow> (ReadSnapshot \<Rightarrow> read_error + 'a) \<Rightarrow> read_error + 'a" where
  "withReadSnapshotBeginner env chainID deploymentID d fn =
     (if \<not> rePool env then Inl (ReadFailure ''read snapshot requires pool'')
      else case reBegin env of
        Some e \<Rightarrow> Inl (db_error e)
      | None \<Rightarrow>
        rbind (readSyncState env chainID deploymentID d) (\<lambda>state.
        rbind (observedIdentity state) (\<lambda>identity.
        rbind (fn \<lparr>readIdentity = identity, readState = state\<rparr>) (\<lambda>out.
        case reContext env of Some e \<Rightarrow> Inl e | None \<Rightarrow> Inr out))))"

definition finality :: "SyncState \<Rightarrow> int \<Rightarrow> string" where
  "finality state block =
     (if (case syFinalized state of None \<Rightarrow> False | Some (n, _) \<Rightarrow> block \<le> n) then ''finalized''
      else if (case sySafe state of None \<Rightarrow> False | Some (n, _) \<Rightarrow> block \<le> n) then ''safe''
      else ''provisional'')"

definition sql_TokenExists :: "int \<Rightarrow> Address \<Rightarrow> rdb \<Rightarrow> bool" where
  "sql_TokenExists chainID token d = list_ex (\<lambda>r. trChainID r = chainID \<and> tlToken (trLaunched r) = token) (dbTokens d)"

record 'r Page =
  pgItems :: "'r list"
  pgSnapshot :: Snapshot
  pgNextCursor :: string
  pgFinality :: string

definition page_cursor :: "Snapshot \<Rightarrow> string \<Rightarrow> string \<Rightarrow> string \<Rightarrow> string list \<Rightarrow> Cursor" where
  "page_cursor snapshot endpoint order filters key = \<lparr>cuVersion = CurrentVersion, cuSnapshot = snapshot,
     cuEndpoint = endpoint, cuSort = order, cuFilters = filters, cuDirection = ''next'', cuKey = key\<rparr>"

text \<open>\<^verbatim>\<open>NextCursor, _ = pagination.Encode(c)\<close>: an encoding error leaves the cursor empty.\<close>

definition encoded_or_empty :: "read_library \<Rightarrow> Cursor \<Rightarrow> string" where
  "encoded_or_empty lib c = (case Encode lib c of Inl _ \<Rightarrow> [] | Inr s \<Rightarrow> s)"

section \<open>Token cards\<close>

record Summary =
  smAddress :: Address
  smName :: string
  smSymbol :: string
  smPhase :: string
  smLaunchTime :: int
  smLaunchBlock :: int
  smTotalSupply :: int
  smMarketCapETH :: int
  smVolume24hETH :: int
  smHolderCount :: int

definition token_phase :: "token_row \<Rightarrow> string" where
  "token_phase r = (if trGraduation r = None then ''curve'' else ''graduated'')"

definition token_row_key :: "token_row \<Rightarrow> int \<times> Address" where
  "token_row_key r = (trChainID r, tlToken (trLaunched r))"

text \<open>\<^verbatim>\<open>LIKE\<close>: a percent sign stands for any text, an underscore for one character, a backslash quotes.\<close>

fun sql_like :: "string \<Rightarrow> string \<Rightarrow> bool" where
  "sql_like [] s = (s = [])"
| "sql_like (p # ps) [] = (p = CHR ''%'' \<and> sql_like ps [])"
| "sql_like (p # ps) (c # cs) =
     (if p = CHR ''%'' then sql_like ps (c # cs) \<or> sql_like (p # ps) cs
      else if p = CHR ''_'' then sql_like ps cs
      else if p = CHR 0x5C then (case ps of [] \<Rightarrow> False | q # qs \<Rightarrow> q = c \<and> sql_like qs cs)
      else p = c \<and> sql_like ps cs)"

definition hex_char :: "nat \<Rightarrow> char" where
  "hex_char n = ''0123456789abcdef'' ! n"

definition address_hex :: "Address \<Rightarrow> string" where
  "address_hex a = map (\<lambda>i. hex_char (unat a div 16 ^ i mod 16)) (rev [0..<40])"

definition search_matches :: "read_library \<Rightarrow> string \<Rightarrow> TokenLaunched \<Rightarrow> bool" where
  "search_matches lib search l \<longleftrightarrow>
     search = []
     \<or> sql_like (rlSqlLower lib search @ ''%'') (rlSqlLower lib (tlName l))
     \<or> sql_like (rlSqlLower lib search @ ''%'') (rlSqlLower lib (tlSymbol l))
     \<or> address_hex (tlToken l) = rlSqlLower lib (if take 2 search = ''0x'' then drop 2 search else search)"

text \<open>One row of the join with the statistics, as \<^verbatim>\<open>reflectCard\<close> reads it.\<close>

definition reflectCard :: "rdb \<Rightarrow> token_row \<Rightarrow> Summary" where
  "reflectCard d r =
     (let l = trLaunched r; s = map_of (rtStats (dbMarket d)) (token_row_key r);
          column = (\<lambda>f. case s of None \<Rightarrow> 0 | Some row \<Rightarrow> f row) in
      \<lparr>smAddress = tlToken l, smName = tlName l, smSymbol = tlSymbol l, smPhase = token_phase r,
       smLaunchTime = micros (ecBlockTime (trLaunch r)), smLaunchBlock = ecBlockNumber (trLaunch r),
       smTotalSupply = the (tlTotalSupply l), smMarketCapETH = column srMarketCap,
       smVolume24hETH = column srVolume24h, smHolderCount = column srHolderCount\<rparr>)"

definition token_cards :: "read_library \<Rightarrow> int \<Rightarrow> string \<Rightarrow> string \<Rightarrow> rdb \<Rightarrow> Summary list" where
  "token_cards lib chainID tokenPhase search d = map (reflectCard d)
     (filter (\<lambda>r. trChainID r = chainID \<and> token_phase r = tokenPhase \<and> search_matches lib search (trLaunched r)) (dbTokens d))"

definition card_block_key :: "Summary \<Rightarrow> int \<times> Address" where
  "card_block_key s = (smLaunchBlock s, smAddress s)"

definition card_market_key :: "Summary \<Rightarrow> int \<times> Address" where
  "card_market_key s = (smMarketCapETH s, smAddress s)"

definition card_volume_key :: "Summary \<Rightarrow> int \<times> Address" where
  "card_volume_key s = (smVolume24hETH s, smAddress s)"

definition sql_ListTokenCardsNewest ::
    "read_library \<Rightarrow> int \<Rightarrow> string \<Rightarrow> string \<Rightarrow> (int \<times> Address) option \<Rightarrow> int \<Rightarrow> rdb \<Rightarrow> Summary list" where
  "sql_ListTokenCardsNewest lib chainID tokenPhase search after pageSize d =
     keyset_desc card_block_key after pageSize (token_cards lib chainID tokenPhase search d)"

definition sql_ListTokenCardsOldest ::
    "read_library \<Rightarrow> int \<Rightarrow> string \<Rightarrow> string \<Rightarrow> (int \<times> Address) option \<Rightarrow> int \<Rightarrow> rdb \<Rightarrow> Summary list" where
  "sql_ListTokenCardsOldest lib chainID tokenPhase search after pageSize d =
     keyset_asc card_block_key after pageSize (token_cards lib chainID tokenPhase search d)"

definition sql_ListTokenCardsMarketCap ::
    "read_library \<Rightarrow> int \<Rightarrow> string \<Rightarrow> string \<Rightarrow> (int \<times> Address) option \<Rightarrow> int \<Rightarrow> rdb \<Rightarrow> Summary list" where
  "sql_ListTokenCardsMarketCap lib chainID tokenPhase search after pageSize d =
     keyset_desc card_market_key after pageSize (token_cards lib chainID tokenPhase search d)"

definition sql_ListTokenCardsVolume ::
    "read_library \<Rightarrow> int \<Rightarrow> string \<Rightarrow> string \<Rightarrow> (int \<times> Address) option \<Rightarrow> int \<Rightarrow> rdb \<Rightarrow> Summary list" where
  "sql_ListTokenCardsVolume lib chainID tokenPhase search after pageSize d =
     keyset_desc card_volume_key after pageSize (token_cards lib chainID tokenPhase search d)"

record ListQuery =
  lqChainID :: int
  lqPhase :: string
  lqSearch :: string
  lqSort :: string
  lqCursor :: "Cursor option"
  lqLimit :: int

text \<open>The key of a card's cursor, by sort.\<close>

definition card_key :: "read_library \<Rightarrow> string \<Rightarrow> Summary \<Rightarrow> string list" where
  "card_key lib order s =
     (if order = ''market_cap'' then [FormatInt (smMarketCapETH s), rlAddressHex lib (smAddress s)]
      else if order = ''volume_24h'' then [FormatInt (smVolume24hETH s), rlAddressHex lib (smAddress s)]
      else [FormatInt (smLaunchBlock s), rlAddressHex lib (smAddress s)])"

definition read_cards :: "read_library \<Rightarrow> read_env \<Rightarrow> int \<Rightarrow> ListQuery \<Rightarrow> string \<Rightarrow> rdb \<Rightarrow> read_error + Summary list" where
  "read_cards lib env chainID q search d =
     (if lqSort q = ''newest'' then
        rbind (tupleCursor lib (lqCursor q)) (\<lambda>after.
        run_query env ''ListTokenCardsNewest'' (sql_ListTokenCardsNewest lib chainID (lqPhase q) search after (lqLimit q) d))
      else if lqSort q = ''oldest'' then
        rbind (tupleCursor lib (lqCursor q)) (\<lambda>after.
        run_query env ''ListTokenCardsOldest'' (sql_ListTokenCardsOldest lib chainID (lqPhase q) search after (lqLimit q) d))
      else
        rbind (metricCursor lib (lqCursor q)) (\<lambda>after.
        if lqSort q = ''market_cap''
        then run_query env ''ListTokenCardsMarketCap'' (sql_ListTokenCardsMarketCap lib chainID (lqPhase q) search after (lqLimit q) d)
        else run_query env ''ListTokenCardsVolume'' (sql_ListTokenCardsVolume lib chainID (lqPhase q) search after (lqLimit q) d)))"

definition ReadTokenCards ::
    "read_library \<Rightarrow> read_env \<Rightarrow> int \<Rightarrow> string \<Rightarrow> ListQuery \<Rightarrow> rdb \<Rightarrow> read_error + Summary Page" where
  "ReadTokenCards lib env chainID deploymentID q d =
     (if lqLimit q < 1 \<or> 100 < lqLimit q then Inl (ReadFailure ''token page size must be between 1 and 100'')
      else if lqPhase q \<notin> {''curve'', ''graduated''} then Inl (ReadFailure ''unsupported token phase'')
      else if lqSort q \<notin> {''newest'', ''oldest'', ''market_cap'', ''volume_24h''} then Inl (ReadFailure ''unsupported token sort'')
      else withReadSnapshotBeginner env chainID deploymentID d (\<lambda>snapshot.
        let search = rlToLower lib (rlTrimSpace lib (lqSearch q)); filters = cursorFilter lib [lqPhase q, search] in
        rbind (case lqCursor q of None \<Rightarrow> Inr ()
               | Some c \<Rightarrow> ValidateRequest c ''tokens'' (lqSort q) filters ''next'' (readIdentity snapshot)) (\<lambda>_.
        rbind (read_cards lib env chainID q search d) (\<lambda>cards.
        rbind (if int (length cards) = lqLimit q
               then Encode lib (page_cursor (readIdentity snapshot) ''tokens'' (lqSort q) filters (card_key lib (lqSort q) (last cards)))
               else Inr []) (\<lambda>cursor.
        Inr \<lparr>pgItems = cards, pgSnapshot = readIdentity snapshot, pgNextCursor = cursor,
          pgFinality = finality (readState snapshot) (snBlockNumber (readIdentity snapshot))\<rparr>)))))"

definition ReadTokenCardsNewest ::
    "read_library \<Rightarrow> read_env \<Rightarrow> int \<Rightarrow> string \<Rightarrow> ListQuery \<Rightarrow> rdb \<Rightarrow> read_error + Summary Page" where
  "ReadTokenCardsNewest lib env chainID deploymentID q d =
     ReadTokenCards lib env chainID deploymentID (q\<lparr>lqSort := ''newest''\<rparr>) d"

section \<open>Trades\<close>

text \<open>A row of the view \<^verbatim>\<open>market_trades\<close>, as the list statement selects it.\<close>

record market_trade =
  vtSource :: string
  vtTraderHex :: string
  vtBuy :: bool
  vtExecution :: "int option"
  vtSpot :: "int option"
  vtEth :: int
  vtToken :: int
  vtBlock :: int
  vtTransaction :: int
  vtTxHash :: Hash
  vtLog :: int
  vtTime :: int
  vtFinality :: string

definition trade_position :: "market_trade \<Rightarrow> int \<times> int \<times> int" where
  "trade_position v = (vtBlock v, vtTransaction v, vtLog v)"

definition event_block :: "EventCoordinates \<Rightarrow> 'm db \<Rightarrow> IndexedBlock option" where
  "event_block c d = List.find (\<lambda>b. ibChainID b = ecChainID c \<and> ibBlockNumber b = ecBlockNumber c) (dbBlocks d)"

text \<open>The last sync of the pair before a swap in its transaction.\<close>

definition earlier_syncs :: "EventCoordinates \<Rightarrow> Address \<Rightarrow> ledger_event list \<Rightarrow> (int \<times> int \<times> int) list" where
  "earlier_syncs c pair events = concat (map (\<lambda>e. case lePayload e of
       LPoolSync p r0 r1 \<Rightarrow>
         if p = pair \<and> ecChainID (leCoordinates e) = ecChainID c \<and> ecTxHash (leCoordinates e) = ecTxHash c
            \<and> ecLogIndex (leCoordinates e) < ecLogIndex c
         then [(ecLogIndex (leCoordinates e), the r0, the r1)] else []
     | _ \<Rightarrow> []) events)"

definition trade_of :: "EventCoordinates \<Rightarrow> string \<Rightarrow> string \<Rightarrow> string \<Rightarrow> bool \<Rightarrow> int option \<Rightarrow> int option \<Rightarrow> int \<Rightarrow> int \<Rightarrow> market_trade" where
  "trade_of c status source trader buy execution spot eth amount =
     \<lparr>vtSource = source, vtTraderHex = trader, vtBuy = buy, vtExecution = execution, vtSpot = spot, vtEth = eth,
      vtToken = amount, vtBlock = ecBlockNumber c, vtTransaction = ecTransactionIndex c, vtTxHash = ecTxHash c,
      vtLog = ecLogIndex c, vtTime = micros (ecBlockTime c), vtFinality = status\<rparr>"

definition swap_trades ::
    "(int \<Rightarrow> int \<Rightarrow> int) \<Rightarrow> token_row list \<Rightarrow> EventCoordinates \<Rightarrow> string \<Rightarrow> Address \<Rightarrow> int \<Rightarrow> int \<Rightarrow> int \<Rightarrow> int \<Rightarrow> int \<times> int
     \<Rightarrow> (Address \<times> market_trade) list" where
  "swap_trades quo tokens c status pair in0 in1 out0 out1 reserves =
     map (\<lambda>r. let l = trLaunched r; token0 = (tlToken l < tlWETH l);
            eth = (if token0 then in1 + out1 else in0 + out0); amount = (if token0 then in0 + out0 else in1 + out1);
            reth = (if token0 then snd reserves else fst reserves); rtok = (if token0 then fst reserves else snd reserves) in
          (tlToken l, trade_of c status ''dex'' [] (if token0 then 0 < out0 else 0 < out1) (wad_price quo eth amount)
             (wad_price quo reth rtok) eth amount))
       (filter (\<lambda>r. trChainID r = ecChainID c \<and> tlLPPair (trLaunched r) = pair) tokens)"

definition event_trades :: "(int \<Rightarrow> int \<Rightarrow> int) \<Rightarrow> 'm db \<Rightarrow> ledger_event \<Rightarrow> (Address \<times> market_trade) list" where
  "event_trades quo d e =
     (let c = leCoordinates e in
      case event_block c d of
        None \<Rightarrow> []
      | Some b \<Rightarrow>
        (case lePayload e of
           LTrade token trader buy gross _ amount _ _ neweth newtoken \<Rightarrow>
             [(token, trade_of c (ibFinalityStatus b) ''curve'' (address_hex trader) buy
                (wad_price quo (the gross) (the amount)) (wad_price quo (the neweth) (the newtoken)) (the gross) (the amount))]
         | LPoolSwap pair _ in0 in1 out0 out1 _ \<Rightarrow>
             (case earlier_syncs c pair (dbEvents d) of
                [] \<Rightarrow> []
              | s # ss \<Rightarrow> swap_trades quo (dbTokens d) c (ibFinalityStatus b) pair (the in0) (the in1) (the out0) (the out1)
                  (snd (last (sort_key fst (s # ss)))))
         | _ \<Rightarrow> []))"

definition token_trades :: "(int \<Rightarrow> int \<Rightarrow> int) \<Rightarrow> int \<Rightarrow> Address \<Rightarrow> 'm db \<Rightarrow> market_trade list" where
  "token_trades quo chainID token d = map snd (filter (\<lambda>tv. fst tv = token)
     (concat (map (event_trades quo d) (filter (\<lambda>e. ecChainID (leCoordinates e) = chainID) (dbEvents d)))))"

definition sql_ListMarketTrades ::
    "(int \<Rightarrow> int \<Rightarrow> int) \<Rightarrow> int \<Rightarrow> Address \<Rightarrow> (int \<times> int \<times> int) option \<Rightarrow> int \<Rightarrow> 'm db \<Rightarrow> market_trade list" where
  "sql_ListMarketTrades quo chainID token after pageSize d =
     keyset_desc trade_position after pageSize (token_trades quo chainID token d)"

record Trade =
  tdSource :: string
  tdTrader :: "Address option"
  tdBuy :: bool
  tdExecutionPrice :: int
  tdSpotPrice :: int
  tdETHVolume :: int
  tdTokenVolume :: int
  tdBlockNumber :: int
  tdTransactionIndex :: int
  tdTxHash :: Hash
  tdLogIndex :: int
  tdTime :: int
  tdFinality :: string

definition read_trade :: "read_library \<Rightarrow> read_env \<Rightarrow> market_trade \<Rightarrow> Trade" where
  "read_trade lib env v = \<lparr>tdSource = vtSource v,
     tdTrader = (if vtTraderHex v \<noteq> [] then Some (rlHexToAddress lib (''0x'' @ vtTraderHex v)) else None),
     tdBuy = vtBuy v, tdExecutionPrice = numericBig (numeric_column env (vtExecution v)),
     tdSpotPrice = numericBig (numeric_column env (vtSpot v)), tdETHVolume = vtEth v, tdTokenVolume = vtToken v,
     tdBlockNumber = vtBlock v, tdTransactionIndex = vtTransaction v, tdTxHash = vtTxHash v, tdLogIndex = vtLog v,
     tdTime = vtTime v, tdFinality = vtFinality v\<rparr>"

record MarketQuery =
  mqChainID :: int
  mqToken :: Address
  mqLimit :: int
  mqCursor :: "Cursor option"

definition require_token :: "read_env \<Rightarrow> int \<Rightarrow> Address \<Rightarrow> rdb \<Rightarrow> read_error + unit" where
  "require_token env chainID token d =
     rbind (run_query env ''TokenExists'' (sql_TokenExists chainID token d)) (\<lambda>exists.
     if exists then Inr () else Inl TokenNotFound)"

definition trade_after :: "Cursor \<Rightarrow> read_error + int \<times> int \<times> int" where
  "trade_after c =
     (case cuKey c of
        [b, tx, li] \<Rightarrow>
          (case (ParseInt 64 b, ParseInt 32 tx, ParseInt 32 li) of
             (Some b, Some tx, Some li) \<Rightarrow> Inr (b, tx, li)
           | _ \<Rightarrow> Inl (InvalidCursor []))
      | _ \<Rightarrow> Inl (InvalidCursor []))"

definition trade_key :: "Trade \<Rightarrow> string list" where
  "trade_key v = [FormatInt (tdBlockNumber v), FormatInt (tdTransactionIndex v), FormatInt (tdLogIndex v)]"

text \<open>A cursor, when there is one, is checked against the request before its key is read.\<close>

definition cursor_position :: "Cursor option \<Rightarrow> (Cursor \<Rightarrow> read_error + unit) \<Rightarrow> (Cursor \<Rightarrow> read_error + 'k) \<Rightarrow> read_error + 'k option" where
  "cursor_position cursor validate parse =
     (case cursor of
        None \<Rightarrow> Inr None
      | Some c \<Rightarrow> rbind (validate c) (\<lambda>_. rbind (parse c) (\<lambda>k. Inr (Some k))))"

definition ListTrades :: "read_library \<Rightarrow> read_env \<Rightarrow> string \<Rightarrow> MarketQuery \<Rightarrow> rdb \<Rightarrow> read_error + Trade Page" where
  "ListTrades lib env deploymentID q d =
     (if mqLimit q < 1 \<or> 100 < mqLimit q then Inl (ReadFailure ''trade page size must be between 1 and 100'')
      else withReadSnapshotBeginner env (mqChainID q) deploymentID d (\<lambda>s.
        let filters = cursorFilter lib [rlAddressHex lib (mqToken q)] in
        rbind (require_token env (mqChainID q) (mqToken q) d) (\<lambda>_.
        rbind (cursor_position (mqCursor q)
            (\<lambda>c. ValidateRequest c ''trades'' ''newest'' filters ''next'' (readIdentity s)) trade_after) (\<lambda>after.
        rbind (run_query env ''ListMarketTrades'' (sql_ListMarketTrades (reQuo env) (mqChainID q) (mqToken q) after (mqLimit q) d)) (\<lambda>rows.
        let items = map (read_trade lib env) rows in
        Inr \<lparr>pgItems = items, pgSnapshot = readIdentity s,
          pgNextCursor = (if int (length items) = mqLimit q
            then encoded_or_empty lib (page_cursor (readIdentity s) ''trades'' ''newest'' filters (trade_key (last items))) else []),
          pgFinality = finality (readState s) (snBlockNumber (readIdentity s))\<rparr>)))))"

section \<open>Holders\<close>

definition dead_address :: Address where "dead_address = 0xdead"

text \<open>The joined row of the token gives the two contract addresses that are not holders.\<close>

definition token_holders :: "int \<Rightarrow> Address \<Rightarrow> rdb \<Rightarrow> (Address \<times> holder_row) list" where
  "token_holders chainID token d = concat (map (\<lambda>((c, t, h), row).
       if c = chainID \<and> t = token \<and> 0 < hoBalance row \<and> h \<noteq> 0 \<and> h \<noteq> dead_address
          \<and> list_ex (\<lambda>r. token_row_key r = (c, t) \<and> h \<noteq> tlCurve (trLaunched r) \<and> h \<noteq> tlLPPair (trLaunched r)) (dbTokens d)
       then [(h, row)] else []) (rtHolders (dbMarket d)))"

definition holder_key :: "Address \<times> holder_row \<Rightarrow> int \<times> Address" where
  "holder_key hr = (hoBalance (snd hr), fst hr)"

definition sql_ListTokenHolders :: "int \<Rightarrow> Address \<Rightarrow> (int \<times> Address) option \<Rightarrow> int \<Rightarrow> rdb \<Rightarrow> (Address \<times> holder_row) list" where
  "sql_ListTokenHolders chainID token after pageSize d = keyset_desc holder_key after pageSize (token_holders chainID token d)"

record Balance =
  blAddress :: Address
  blBalance :: int
  blFirstAcquiredBlock :: int

definition read_balance :: "Address \<times> holder_row \<Rightarrow> Balance" where
  "read_balance hr = \<lparr>blAddress = fst hr, blBalance = hoBalance (snd hr),
     blFirstAcquiredBlock = (case hoFirstAcquired (snd hr) of None \<Rightarrow> 0 | Some n \<Rightarrow> n)\<rparr>"

definition holder_after :: "read_library \<Rightarrow> Cursor \<Rightarrow> read_error + int \<times> Address" where
  "holder_after lib c =
     (case cuKey c of
        [amount, holder] \<Rightarrow>
          if \<not> rlIsHexAddress lib holder then Inl (InvalidCursor [])
          else (case SetString amount of
             None \<Rightarrow> Inl (InvalidCursor [])
           | Some n \<Rightarrow> if n < 0 then Inl (InvalidCursor []) else Inr (n, rlHexToAddress lib holder))
      | _ \<Rightarrow> Inl (InvalidCursor []))"

definition balance_key :: "read_library \<Rightarrow> Balance \<Rightarrow> string list" where
  "balance_key lib v = [FormatInt (blBalance v), rlAddressHex lib (blAddress v)]"

definition ListHolders :: "read_library \<Rightarrow> read_env \<Rightarrow> string \<Rightarrow> MarketQuery \<Rightarrow> rdb \<Rightarrow> read_error + Balance Page" where
  "ListHolders lib env deploymentID q d =
     (if mqLimit q < 1 \<or> 100 < mqLimit q then Inl (ReadFailure ''holder page size must be between 1 and 100'')
      else withReadSnapshotBeginner env (mqChainID q) deploymentID d (\<lambda>s.
        let filters = cursorFilter lib [rlAddressHex lib (mqToken q)] in
        rbind (require_token env (mqChainID q) (mqToken q) d) (\<lambda>_.
        rbind (cursor_position (mqCursor q)
            (\<lambda>c. ValidateRequest c ''holders'' ''balance'' filters ''next'' (readIdentity s)) (holder_after lib)) (\<lambda>after.
        rbind (run_query env ''ListTokenHolders'' (sql_ListTokenHolders (mqChainID q) (mqToken q) after (mqLimit q) d)) (\<lambda>rows.
        let items = map read_balance rows in
        Inr \<lparr>pgItems = items, pgSnapshot = readIdentity s,
          pgNextCursor = (if int (length items) = mqLimit q
            then encoded_or_empty lib (page_cursor (readIdentity s) ''holders'' ''balance'' filters (balance_key lib (last items))) else []),
          pgFinality = finality (readState s) (snBlockNumber (readIdentity s))\<rparr>)))))"

section \<open>Candles\<close>

record CandleView =
  cvStart :: int
  cvOpen :: int
  cvHigh :: int
  cvLow :: int
  cvClose :: int
  cvETHVolume :: int
  cvTokenVolume :: int
  cvTradeCount :: int

record CandleQuery =
  cqChainID :: int
  cqToken :: Address
  cqInterval :: string
  cqFrom :: int
  cqTo :: int
  cqLimit :: int
  cqCursor :: "Cursor option"

definition candles_between :: "int \<Rightarrow> Address \<Rightarrow> string \<Rightarrow> int \<Rightarrow> int \<Rightarrow> rdb \<Rightarrow> (int \<times> candle_row) list" where
  "candles_between chainID token interval fromTime toTime d = concat (map (\<lambda>((c, t, i, start), row).
       if c = chainID \<and> t = token \<and> i = interval \<and> fromTime \<le> start \<and> start < toTime then [(start, row)] else [])
     (rtCandles (dbMarket d)))"

definition sql_ListStoredCandles ::
    "int \<Rightarrow> Address \<Rightarrow> string \<Rightarrow> int \<Rightarrow> int \<Rightarrow> int option \<Rightarrow> int \<Rightarrow> rdb \<Rightarrow> (int \<times> candle_row) list" where
  "sql_ListStoredCandles chainID token interval fromTime toTime after pageSize d =
     keyset_asc fst after pageSize (candles_between chainID token interval fromTime toTime d)"

definition stored_candle :: "int \<times> candle_row \<Rightarrow> CandleView" where
  "stored_candle sc = (let c = snd sc in \<lparr>cvStart = fst sc, cvOpen = caOpen c, cvHigh = caHigh c, cvLow = caLow c,
     cvClose = caClose c, cvETHVolume = caEth c, cvTokenVolume = caToken c, cvTradeCount = caCount c\<rparr>)"

text \<open>The group of a candle: a quarter of its day, or its day.\<close>

definition candle_group :: "string \<Rightarrow> int \<Rightarrow> int" where
  "candle_group target t =
     (if target = ''6h'' then (t - t mod micros day) + ((t mod micros day) div micros hour) div 6 * (6 * micros hour)
      else t - t mod micros day)"

definition aggregate_candles :: "(int \<times> candle_row) list \<Rightarrow> int \<times> candle_row" where
  "aggregate_candles members =
     (let ordered = sort_key fst members; rows = map snd ordered in
      (fst (hd ordered),
       \<lparr>caOpen = caOpen (hd rows), caHigh = Max (set (map caHigh rows)), caLow = Min (set (map caLow rows)),
        caClose = caClose (last rows), caEth = sum_list (map caEth rows), caToken = sum_list (map caToken rows),
        caCount = sum_list (map caCount rows)\<rparr>))"

definition sql_ListCandlesAggregated ::
    "int \<Rightarrow> Address \<Rightarrow> string \<Rightarrow> int \<Rightarrow> int \<Rightarrow> string \<Rightarrow> int \<Rightarrow> rdb \<Rightarrow> (int \<times> candle_row) list" where
  "sql_ListCandlesAggregated chainID token source fromTime toTime target pageSize d =
     (let rows = candles_between chainID token source fromTime toTime d;
          groups = remdups (map (\<lambda>sc. candle_group target (fst sc)) rows) in
      take (nat pageSize) (sort_key fst
        (map (\<lambda>g. aggregate_candles (filter (\<lambda>sc. candle_group target (fst sc) = g) rows)) groups)))"

definition aggregated_candle :: "read_env \<Rightarrow> int \<times> candle_row \<Rightarrow> CandleView" where
  "aggregated_candle env sc = (let c = snd sc; n = (\<lambda>v. candleNumeric (reNumeric env v)) in
     \<lparr>cvStart = fst sc, cvOpen = n (caOpen c), cvHigh = n (caHigh c), cvLow = n (caLow c), cvClose = n (caClose c),
      cvETHVolume = n (caEth c), cvTokenVolume = n (caToken c), cvTradeCount = caCount c\<rparr>)"

definition candle_filters :: "read_library \<Rightarrow> CandleQuery \<Rightarrow> string" where
  "candle_filters lib q = cursorFilter lib [rlAddressHex lib (cqToken q), rlFormatTime lib (cqFrom q), rlFormatTime lib (cqTo q)]"

definition candle_after :: "read_library \<Rightarrow> Cursor \<Rightarrow> read_error + int" where
  "candle_after lib c =
     (case cuKey c of
        [at] \<Rightarrow> (case rlParseTime lib at of None \<Rightarrow> Inl (InvalidCursor []) | Some t \<Rightarrow> Inr t)
      | _ \<Rightarrow> Inl (InvalidCursor []))"

definition candle_page :: "read_library \<Rightarrow> CandleQuery \<Rightarrow> ReadSnapshot \<Rightarrow> CandleView list \<Rightarrow> CandleView Page" where
  "candle_page lib q s items = \<lparr>pgItems = items, pgSnapshot = readIdentity s,
     pgNextCursor = (if int (length items) = cqLimit q
       then encoded_or_empty lib (page_cursor (readIdentity s) ''candles'' (cqInterval q) (candle_filters lib q)
              [rlFormatTime lib (cvStart (last items))]) else []),
     pgFinality = finality (readState s) (snBlockNumber (readIdentity s))\<rparr>"

definition ReadAggregatedCandles ::
    "read_library \<Rightarrow> read_env \<Rightarrow> int \<Rightarrow> string \<Rightarrow> CandleQuery \<Rightarrow> rdb \<Rightarrow> read_error + CandleView Page" where
  "ReadAggregatedCandles lib env chainID deploymentID q d =
     (if cqLimit q < 1 \<or> 100 < cqLimit q then Inl (ReadFailure ''candle page size must be between 1 and 100'')
      else if cqInterval q \<noteq> ''6h'' \<and> cqInterval q \<noteq> ''all'' then Inl (ReadFailure ''unsupported candle interval'')
      else withReadSnapshotBeginner env chainID deploymentID d (\<lambda>s.
        rbind (require_token env chainID (cqToken q) d) (\<lambda>_.
        rbind (cursor_position (cqCursor q)
            (\<lambda>c. ValidateRequest c ''candles'' (cqInterval q) (candle_filters lib q) ''next'' (readIdentity s)) (candle_after lib)) (\<lambda>after.
        let fromTime = (case after of None \<Rightarrow> cqFrom q | Some t \<Rightarrow> t + 1);
            source = (if cqInterval q = ''all'' then ''1d'' else ''1h'') in
        rbind (run_query env ''ListCandlesAggregated''
            (sql_ListCandlesAggregated chainID (cqToken q) source fromTime (cqTo q) (cqInterval q) (cqLimit q) d)) (\<lambda>rows.
        Inr (candle_page lib q s (map (aggregated_candle env) rows)))))))"

definition CandleReader_List ::
    "read_library \<Rightarrow> read_env \<Rightarrow> string \<Rightarrow> CandleQuery \<Rightarrow> rdb \<Rightarrow> read_error + CandleView Page" where
  "CandleReader_List lib env deploymentID q d =
     (if cqInterval q \<in> {''1m'', ''5m'', ''1h'', ''1d''} then
        if cqLimit q < 1 \<or> 100 < cqLimit q then Inl (ReadFailure ''candle page size must be between 1 and 100'')
        else withReadSnapshotBeginner env (cqChainID q) deploymentID d (\<lambda>s.
          rbind (require_token env (cqChainID q) (cqToken q) d) (\<lambda>_.
          rbind (cursor_position (cqCursor q)
              (\<lambda>c. ValidateRequest c ''candles'' (cqInterval q) (candle_filters lib q) ''next'' (readIdentity s)) (candle_after lib)) (\<lambda>after.
          rbind (run_query env ''ListStoredCandles''
              (sql_ListStoredCandles (cqChainID q) (cqToken q) (cqInterval q) (cqFrom q) (cqTo q) after (cqLimit q) d)) (\<lambda>rows.
          Inr (candle_page lib q s (map stored_candle rows))))))
      else ReadAggregatedCandles lib env (cqChainID q) deploymentID q d)"

section \<open>Single rows\<close>

record TokenDetail = Summary +
  tkCurve :: Address
  tkPair :: Address
  tkWETH :: Address
  tkCreator :: Address
  tkProtocolTreasury :: Address
  tkEngineVersion :: "16 word"
  tkInitialVirtualETH :: int
  tkInitialVirtualToken :: int
  tkCurveTokens :: int
  tkLPTokens :: int
  tkGraduationETH :: int
  tkTradeFeeBPS :: "16 word"
  tkProtocolShareBPS :: "16 word"
  tkReserveSource :: string
  tkETHReserve :: int
  tkTokenReserve :: int
  tkRealCurveETH :: int
  tkGraduationProgressBPS :: int
  tkReserveBlock :: int
  tkReserveHash :: Hash
  tkDescription :: string
  tkImageURL :: string
  tkXURL :: string
  tkTelegramURL :: string
  tkSpotPriceETH :: int
  tkFDVETH :: int
  tkLiquidityETH :: int
  tkATHPriceETH :: int
  tkATHAt :: int
  tkPriceChange24hBPS :: int
  tkSnapshot :: Snapshot
  tkFinality :: string

text \<open>A token without a reserve row stands at its launch.\<close>

definition token_reserve :: "rdb \<Rightarrow> token_row \<Rightarrow> read_reserve" where
  "token_reserve d r = (case map_of (rtReserves (dbMarket d)) (token_row_key r) of
       Some reserve \<Rightarrow> reserve
     | None \<Rightarrow> \<lparr>rrSource = ''curve'', rrEth = the (tlVirtualETH (trLaunched r)), rrToken = the (tlVirtualToken (trLaunched r)),
         rrBlock = ecBlockNumber (trLaunch r), rrHash = ecBlockHash (trLaunch r), rrTime = ecBlockTime (trLaunch r)\<rparr>)"

definition real_curve_eth :: "rdb \<Rightarrow> token_row \<Rightarrow> int" where
  "real_curve_eth d r = (let l = trLaunched r in
     if token_phase r = ''graduated'' then the (tlGraduationETH l)
     else max (rrEth (token_reserve d r) - the (tlVirtualETH l)) 0)"

definition graduation_progress_bps :: "(int \<Rightarrow> int \<Rightarrow> int) \<Rightarrow> rdb \<Rightarrow> token_row \<Rightarrow> int" where
  "graduation_progress_bps quo d r = (let l = trLaunched r in
     if token_phase r = ''graduated'' then 10000
     else if the (tlGraduationETH l) = 0 then 0
     else min 10000 (quo (max (rrEth (token_reserve d r) - the (tlVirtualETH l)) 0 * 10000) (the (tlGraduationETH l))))"

text \<open>The metadata row of the token's own launch.\<close>

definition token_metadata :: "rdb \<Rightarrow> token_row \<Rightarrow> metadata_row option" where
  "token_metadata d r = map_of (rtMetadata (dbMarket d))
     (trChainID r, tlToken (trLaunched r), ecTxHash (trLaunch r), ecLogIndex (trLaunch r))"

definition find_token :: "int \<Rightarrow> Address \<Rightarrow> rdb \<Rightarrow> token_row option" where
  "find_token chainID token d = List.find (\<lambda>r. token_row_key r = (chainID, token)) (dbTokens d)"

definition metadata_text :: "(metadata_row \<Rightarrow> string option) \<Rightarrow> metadata_row option \<Rightarrow> string" where
  "metadata_text f m = (case Option.bind m f of None \<Rightarrow> [] | Some s \<Rightarrow> s)"

definition detail_of :: "read_env \<Rightarrow> rdb \<Rightarrow> ReadSnapshot \<Rightarrow> token_row \<Rightarrow> TokenDetail" where
  "detail_of env d s r =
     (let l = trLaunched r; v = token_reserve d r; m = token_metadata d r; st = map_of (rtStats (dbMarket d)) (token_row_key r);
          column = (\<lambda>f. case st of None \<Rightarrow> 0 | Some row \<Rightarrow> f row) in
      Summary.extend (reflectCard d r)
      (TokenDetail.fields (tlCurve l) (tlLPPair l) (tlWETH l) (tlCreator l) (tlProtocolTreasury l) (tlEngineVersion l)
        (the (tlVirtualETH l)) (the (tlVirtualToken l)) (the (tlCurveTokens l)) (the (tlLPTokens l)) (the (tlGraduationETH l))
        (tlTradeFeeBPS l) (tlProtocolShareBPS l) (rrSource v) (rrEth v) (rrToken v)
        (numericBig (reNumeric env (real_curve_eth d r))) (graduation_progress_bps (reQuo env) d r) (rrBlock v) (rrHash v)
        (metadata_text mdDescription m) (metadata_text mdImageURL m) (metadata_text mdXURL m) (metadata_text mdTelegramURL m)
        (column srSpotPrice) (column srFDV) (column srLiquidity) (column srATHPrice)
        (case st of None \<Rightarrow> micros (ecBlockTime (trLaunch r)) | Some row \<Rightarrow> srATHAt row) (column srPriceChange)
        (readIdentity s) (finality (readState s) (snBlockNumber (readIdentity s)))))"

definition TokenReader_Get ::
    "read_env \<Rightarrow> string \<Rightarrow> int \<Rightarrow> Address \<Rightarrow> rdb \<Rightarrow> read_error + TokenDetail" where
  "TokenReader_Get env deploymentID chainID token d =
     withReadSnapshotBeginner env chainID deploymentID d (\<lambda>s.
       rbind (run_query env ''GetTokenDetail'' (find_token chainID token d)) (\<lambda>row.
       case row of None \<Rightarrow> Inl TokenNotFound | Some r \<Rightarrow> Inr (detail_of env d s r)))"

text \<open>Fees of the trades less what was claimed, not below zero.\<close>

definition event_sum :: "(ledger_payload \<Rightarrow> int) \<Rightarrow> int \<Rightarrow> rdb \<Rightarrow> int" where
  "event_sum f chainID d = sum_list (map (\<lambda>e. f (lePayload e)) (filter (\<lambda>e. ecChainID (leCoordinates e) = chainID) (dbEvents d)))"

definition protocol_fee_open :: "int \<Rightarrow> Address \<Rightarrow> rdb \<Rightarrow> int" where
  "protocol_fee_open chainID token d = max 0
     (event_sum (\<lambda>p. case p of LTrade t _ _ _ _ _ fee _ _ _ \<Rightarrow> if t = token then the fee else 0 | _ \<Rightarrow> 0) chainID d
      - event_sum (\<lambda>p. case p of LProtocolFeeClaim t _ amount \<Rightarrow> if t = token then the amount else 0 | _ \<Rightarrow> 0) chainID d)"

definition creator_fee_open :: "int \<Rightarrow> Address \<Rightarrow> rdb \<Rightarrow> int" where
  "creator_fee_open chainID token d = max 0
     (event_sum (\<lambda>p. case p of LTrade t _ _ _ _ _ _ fee _ _ \<Rightarrow> if t = token then the fee else 0 | _ \<Rightarrow> 0) chainID d
      - event_sum (\<lambda>p. case p of LCreatorFeeClaim t _ amount \<Rightarrow> if t = token then the amount else 0 | _ \<Rightarrow> 0) chainID d)"

definition quote_row :: "read_env \<Rightarrow> rdb \<Rightarrow> ReadSnapshot \<Rightarrow> token_row \<Rightarrow> QuoteState" where
  "quote_row env d s r = (let l = trLaunched r; v = token_reserve d r in
     \<lparr>qsDetail = \<lparr>dtTotalSupply = tlTotalSupply l, dtCurveTokens = tlCurveTokens l, dtLPTokens = tlLPTokens l,
        dtGraduationETH = tlGraduationETH l, dtInitialVirtualETH = tlVirtualETH l, dtInitialVirtualToken = tlVirtualToken l,
        dtTradeFeeBPS = tlTradeFeeBPS l, dtProtocolShareBPS = tlProtocolShareBPS l, dtPhase = token_phase r,
        dtETHReserve = Some (rrEth v), dtTokenReserve = Some (rrToken v), dtReserveBlock = rrBlock v,
        dtReserveHash = rrHash v, dtSnapshotBlock = snBlockNumber (readIdentity s),
        dtFinality = finality (readState s) (snBlockNumber (readIdentity s))\<rparr>,
      qsProtocolFees = Some (numericBig (reNumeric env (protocol_fee_open (fst (token_row_key r)) (snd (token_row_key r)) d))),
      qsCreatorFees = Some (numericBig (reNumeric env (creator_fee_open (fst (token_row_key r)) (snd (token_row_key r)) d)))\<rparr>)"

definition ReadQuoteState :: "read_env \<Rightarrow> string \<Rightarrow> int \<Rightarrow> Address \<Rightarrow> rdb \<Rightarrow> read_error + QuoteState" where
  "ReadQuoteState env deploymentID chainID token d =
     withReadSnapshotBeginner env chainID deploymentID d (\<lambda>s.
       rbind (run_query env ''GetTokenQuoteState'' (find_token chainID token d)) (\<lambda>row.
       case row of None \<Rightarrow> Inl TokenNotFound | Some r \<Rightarrow> Inr (quote_row env d s r)))"

section \<open>Protocol statistics\<close>

record Protocol =
  psRow :: protocol_row
  psSnapshot :: Snapshot
  psFinality :: string

text \<open>Without a row the counters and the update time are Go's zero values.\<close>

definition empty_protocol :: protocol_row where
  "empty_protocol = \<lparr>prVolume24h = 0, prVolumeAllTime = 0, prLaunches24h = 0, prLaunchesAllTime = 0, prTrades24h = 0,
     prTradesAllTime = 0, prGraduations24h = 0, prGraduationsAllTime = 0, prUpdatedAt = micros zero_time\<rparr>"

definition ReadProtocol :: "read_env \<Rightarrow> string \<Rightarrow> int \<Rightarrow> rdb \<Rightarrow> read_error + Protocol" where
  "ReadProtocol env deploymentID chainID d =
     withReadSnapshotBeginner env chainID deploymentID d (\<lambda>s.
       rbind (run_query env ''GetProtocolStats'' (map_of (rtProtocol (dbMarket d)) chainID)) (\<lambda>row.
       Inr \<lparr>psRow = (case row of None \<Rightarrow> empty_protocol | Some r \<Rightarrow> r), psSnapshot = readIdentity s,
         psFinality = finality (readState s) (snBlockNumber (readIdentity s))\<rparr>))"

text \<open>Days are counted from the epoch; a time's day is the floor of its quotient.\<close>

definition day_of :: "int \<Rightarrow> int" where "day_of t = t div micros day"

definition sql_ListProtocolDaily :: "int \<Rightarrow> int \<Rightarrow> int \<Rightarrow> int \<Rightarrow> rdb \<Rightarrow> (int \<times> daily_row) list" where
  "sql_ListProtocolDaily chainID fromDay toDay pageSize d =
     keyset_asc fst None pageSize (concat (map (\<lambda>((c, dy), row).
       if c = chainID \<and> fromDay \<le> dy \<and> dy \<le> toDay then [(dy, row)] else []) (rtDaily (dbMarket d))))"

record DailyPage =
  dpItems :: "(int \<times> daily_row) list"
  dpSnapshot :: Snapshot
  dpFinality :: string

definition ReadProtocolDaily :: "read_env \<Rightarrow> string \<Rightarrow> int \<Rightarrow> int \<Rightarrow> int \<Rightarrow> int \<Rightarrow> rdb \<Rightarrow> read_error + DailyPage" where
  "ReadProtocolDaily env deploymentID chainID fromTime toTime limit d =
     (if limit < 1 \<or> 366 < limit then Inl (ReadFailure ''protocol daily page size must be between 1 and 366'')
      else let f = day_of fromTime; t = day_of toTime in
      if f * micros day = micros zero_time \<or> t * micros day = micros zero_time \<or> t < f \<or> 366 < t - f
      then Inl (ReadFailure ''protocol daily range must be 1 to 366 days'')
      else withReadSnapshotBeginner env chainID deploymentID d (\<lambda>s.
        rbind (run_query env ''ListProtocolDaily'' (sql_ListProtocolDaily chainID f t limit d)) (\<lambda>rows.
        Inr \<lparr>dpItems = rows, dpSnapshot = readIdentity s,
          dpFinality = finality (readState s) (snBlockNumber (readIdentity s))\<rparr>)))"

end
