(* ===== verification/Read_Routes.thy ===== *)
theory Read_Routes
  imports Read_Queries
begin

text \<open>
  The public read routes of the HTTP server (\<^verbatim>\<open>apiserver/public_routes.go\<close>, \<^verbatim>\<open>token_routes.go\<close>,
  \<^verbatim>\<open>candle_routes.go\<close>, \<^verbatim>\<open>quote_routes.go\<close>) on the readers of the store: how a request becomes a query,
  how errors become problem responses, and how results are printed. A handler is a function of the
  library, the database environment, the request and one state of the tables. The current time is an
  argument where a handler reads the clock.
\<close>

section \<open>Problems\<close>

record problem =
  pbType :: string
  pbTitle :: string
  pbStatus :: int
  pbDetail :: string
  pbInstance :: string

datatype api_error = ApiProblem problem | HumaError int string | PassedOn read_error

definition StatusText :: "int \<Rightarrow> string" where
  "StatusText status =
     (if status = 400 then ''Bad Request'' else if status = 401 then ''Unauthorized'' else if status = 403 then ''Forbidden''
      else if status = 412 then ''Precondition Failed'' else if status = 413 then ''Request Entity Too Large''
      else if status = 415 then ''Unsupported Media Type'' else if status = 429 then ''Too Many Requests'' else if status = 404 then ''Not Found'' else if status = 409 then ''Conflict''
      else if status = 422 then ''Unprocessable Entity'' else if status = 500 then ''Internal Server Error''
      else if status = 503 then ''Service Unavailable'' else [])"

definition apiProblem :: "int \<Rightarrow> string \<Rightarrow> string \<Rightarrow> api_error" where
  "apiProblem status code detail = ApiProblem \<lparr>pbType = ''urn:launchpad:problem:'' @ code, pbTitle = StatusText status,
     pbStatus = status, pbDetail = detail, pbInstance = []\<rparr>"

definition apiRequestProblem :: "string \<Rightarrow> int \<Rightarrow> string \<Rightarrow> string \<Rightarrow> api_error" where
  "apiRequestProblem requestID status code detail = ApiProblem \<lparr>pbType = ''urn:launchpad:problem:'' @ code,
     pbTitle = StatusText status, pbStatus = status, pbDetail = detail,
     pbInstance = (if requestID \<noteq> [] then ''urn:launchpad:request:'' @ requestID else [])\<rparr>"

definition mapReadError :: "string \<Rightarrow> read_error \<Rightarrow> api_error" where
  "mapReadError requestID e = (case e of
       SnapshotUnavailable _ \<Rightarrow> apiProblem 503 ''snapshot_unavailable'' ''Canonical read snapshot is not available yet''
     | TokenNotFound \<Rightarrow> apiProblem 404 ''token_not_found'' ''Token not found''
     | CursorInvalidated \<Rightarrow> apiProblem 409 ''cursor_invalidated'' ''Cursor snapshot is no longer canonical''
     | InvalidCursor _ \<Rightarrow> apiProblem 400 ''invalid_cursor'' ''Cursor is invalid''
     | ContextCanceled \<Rightarrow> PassedOn ContextCanceled
     | ReadFailure _ \<Rightarrow> apiRequestProblem requestID 500 ''internal_error'' ''Request failed'')"

section \<open>Requests\<close>

text \<open>The parts of a server that every route has: the library, the database, the chain and the request id.\<close>

record server =
  svLib :: read_library
  svEnv :: read_env
  svChainID :: int
  svDeploymentID :: string
  svRequestID :: string

definition parse_address :: "read_library \<Rightarrow> string \<Rightarrow> api_error + Address" where
  "parse_address lib v = (if \<not> rlIsHexAddress lib v then Inl (HumaError 400 ''invalid token address'')
     else Inr (rlHexToAddress lib v))"

definition parse_cursor :: "read_library \<Rightarrow> string \<Rightarrow> api_error + Cursor option" where
  "parse_cursor lib v =
     (if v = [] then Inr None
      else case Decode lib v of
        Inl _ \<Rightarrow> Inl (apiProblem 400 ''invalid_cursor'' ''Cursor is invalid'')
      | Inr c \<Rightarrow> Inr (Some c))"

definition page_limit :: "int \<Rightarrow> int" where
  "page_limit limit = (if limit = 0 then 20 else limit)"

record pageInput =
  piToken :: string
  piCursor :: string
  piLimit :: int

record snapshotDTO =
  sdChainID :: int
  sdBlockNumber :: int
  sdBlockHash :: string
  sdFinality :: string

definition snapDTO :: "read_library \<Rightarrow> Snapshot \<Rightarrow> string \<Rightarrow> snapshotDTO" where
  "snapDTO lib s f = \<lparr>sdChainID = snChainID s, sdBlockNumber = snBlockNumber s,
     sdBlockHash = rlHashHex lib (snBlockHash s), sdFinality = f\<rparr>"

definition decimal :: "bigptr \<Rightarrow> string" where
  "decimal v = (case v of None \<Rightarrow> ''0'' | Some n \<Rightarrow> FormatInt n)"

record 'i pageBody =
  bdSnapshot :: snapshotDTO
  bdItems :: "'i list"
  bdNextCursor :: string

definition page_body :: "read_library \<Rightarrow> ('r \<Rightarrow> 'i) \<Rightarrow> 'r Page \<Rightarrow> 'i pageBody" where
  "page_body lib f p = \<lparr>bdSnapshot = snapDTO lib (pgSnapshot p) (pgFinality p), bdItems = map f (pgItems p),
     bdNextCursor = pgNextCursor p\<rparr>"

section \<open>Trades and holders\<close>

record tradeDTO =
  tjSource :: string
  tjTrader :: "string option"
  tjSide :: string
  tjExecutionPrice :: string
  tjSpotPrice :: string
  tjETHVolume :: string
  tjTokenVolume :: string
  tjBlockNumber :: int
  tjTransactionIndex :: int
  tjTxHash :: string
  tjLogIndex :: int
  tjTime :: string
  tjFinality :: string

definition trade_dto :: "read_library \<Rightarrow> Trade \<Rightarrow> tradeDTO" where
  "trade_dto lib v = \<lparr>tjSource = tdSource v, tjTrader = map_option (rlAddressHex lib) (tdTrader v),
     tjSide = (if tdBuy v then ''buy'' else ''sell''), tjExecutionPrice = decimal (Some (tdExecutionPrice v)),
     tjSpotPrice = decimal (Some (tdSpotPrice v)), tjETHVolume = decimal (Some (tdETHVolume v)),
     tjTokenVolume = decimal (Some (tdTokenVolume v)), tjBlockNumber = tdBlockNumber v,
     tjTransactionIndex = tdTransactionIndex v, tjTxHash = rlHashHex lib (tdTxHash v), tjLogIndex = tdLogIndex v,
     tjTime = rlFormatTime lib (tdTime v), tjFinality = tdFinality v\<rparr>"

definition trades_route :: "server \<Rightarrow> pageInput \<Rightarrow> rdb \<Rightarrow> api_error + tradeDTO pageBody" where
  "trades_route sv i d =
     rbind (parse_address (svLib sv) (piToken i)) (\<lambda>a.
     rbind (parse_cursor (svLib sv) (piCursor i)) (\<lambda>cur.
     map_sum (mapReadError (svRequestID sv)) (page_body (svLib sv) (trade_dto (svLib sv)))
       (ListTrades (svLib sv) (svEnv sv) (svDeploymentID sv)
         \<lparr>mqChainID = svChainID sv, mqToken = a, mqLimit = page_limit (piLimit i), mqCursor = cur\<rparr> d)))"

record holderDTO =
  hjAddress :: string
  hjBalance :: string
  hjFirstAcquiredBlock :: int

definition holder_dto :: "read_library \<Rightarrow> Balance \<Rightarrow> holderDTO" where
  "holder_dto lib v = \<lparr>hjAddress = rlAddressHex lib (blAddress v), hjBalance = decimal (Some (blBalance v)),
     hjFirstAcquiredBlock = blFirstAcquiredBlock v\<rparr>"

definition holders_route :: "server \<Rightarrow> pageInput \<Rightarrow> rdb \<Rightarrow> api_error + holderDTO pageBody" where
  "holders_route sv i d =
     rbind (parse_address (svLib sv) (piToken i)) (\<lambda>a.
     rbind (parse_cursor (svLib sv) (piCursor i)) (\<lambda>cur.
     map_sum (mapReadError (svRequestID sv)) (page_body (svLib sv) (holder_dto (svLib sv)))
       (ListHolders (svLib sv) (svEnv sv) (svDeploymentID sv)
         \<lparr>mqChainID = svChainID sv, mqToken = a, mqLimit = page_limit (piLimit i), mqCursor = cur\<rparr> d)))"

section \<open>Tokens\<close>

record tokenListInput =
  tiPhase :: string
  tiQuery :: string
  tiSort :: string
  tiCursor :: string
  tiLimit :: int

record tokenDTO =
  kjAddress :: string
  kjName :: string
  kjSymbol :: string
  kjPhase :: string
  kjLaunchTime :: string
  kjLaunchBlock :: int
  kjTotalSupply :: string
  kjMarketCapETH :: string
  kjVolume24hETH :: string
  kjHolderCount :: int

text \<open>Launch times are printed with six fractional digits; \<open>printMicros\<close> is that layout.\<close>

definition token_dto :: "(int \<Rightarrow> string) \<Rightarrow> read_library \<Rightarrow> Summary \<Rightarrow> tokenDTO" where
  "token_dto printMicros lib v = \<lparr>kjAddress = rlAddressHex lib (smAddress v), kjName = smName v, kjSymbol = smSymbol v,
     kjPhase = smPhase v, kjLaunchTime = printMicros (smLaunchTime v), kjLaunchBlock = smLaunchBlock v,
     kjTotalSupply = decimal (Some (smTotalSupply v)), kjMarketCapETH = decimal (Some (smMarketCapETH v)),
     kjVolume24hETH = decimal (Some (smVolume24hETH v)), kjHolderCount = smHolderCount v\<rparr>"

text \<open>The defaults of the two selections.\<close>

definition input_phase :: "tokenListInput \<Rightarrow> string" where
  "input_phase i = (if tiPhase i = [] then ''curve'' else tiPhase i)"

definition input_sort :: "tokenListInput \<Rightarrow> string" where
  "input_sort i = (if tiSort i = [] then ''newest'' else tiSort i)"

definition tokens_route :: "(int \<Rightarrow> string) \<Rightarrow> server \<Rightarrow> tokenListInput \<Rightarrow> rdb \<Rightarrow> api_error + tokenDTO pageBody" where
  "tokens_route printMicros sv i d =
     (if page_limit (tiLimit i) < 1 \<or> 100 < page_limit (tiLimit i) then Inl (HumaError 400 ''limit must be between 1 and 100'')
      else if input_phase i \<notin> {''curve'', ''graduated''} then Inl (apiProblem 400 ''invalid_phase'' ''Unsupported token phase'')
      else if input_sort i \<notin> {''newest'', ''oldest'', ''market_cap'', ''volume_24h''}
      then Inl (apiProblem 400 ''invalid_sort'' ''Unsupported token sort'')
      else rbind (parse_cursor (svLib sv) (tiCursor i)) (\<lambda>cur.
        map_sum (mapReadError (svRequestID sv)) (page_body (svLib sv) (token_dto printMicros (svLib sv)))
          (ReadTokenCards (svLib sv) (svEnv sv) (svChainID sv) (svDeploymentID sv)
            \<lparr>lqChainID = svChainID sv, lqPhase = input_phase i, lqSearch = tiQuery i, lqSort = input_sort i, lqCursor = cur,
             lqLimit = page_limit (tiLimit i)\<rparr> d)))"

section \<open>Candles\<close>

record candleInput =
  ciToken :: string
  ciInterval :: string
  ciFrom :: string
  ciTo :: string
  ciLimit :: int
  ciCursor :: string

record candleDTO =
  cjStart :: string
  cjOpen :: string
  cjHigh :: string
  cjLow :: string
  cjClose :: string
  cjETHVolume :: string
  cjTokenVolume :: string
  cjTradeCount :: int

definition candle_dto :: "read_library \<Rightarrow> CandleView \<Rightarrow> candleDTO" where
  "candle_dto lib v = \<lparr>cjStart = rlFormatTime lib (cvStart v), cjOpen = decimal (Some (cvOpen v)),
     cjHigh = decimal (Some (cvHigh v)), cjLow = decimal (Some (cvLow v)), cjClose = decimal (Some (cvClose v)),
     cjETHVolume = decimal (Some (cvETHVolume v)), cjTokenVolume = decimal (Some (cvTokenVolume v)),
     cjTradeCount = cvTradeCount v\<rparr>"

definition parse_time :: "read_library \<Rightarrow> string \<Rightarrow> string \<Rightarrow> int \<Rightarrow> api_error + int" where
  "parse_time lib field v fallback =
     (if v = [] then Inr fallback
      else case rlParseTime lib v of None \<Rightarrow> Inl (HumaError 400 (''invalid '' @ field)) | Some t \<Rightarrow> Inr t)"

definition candles_route :: "int \<Rightarrow> server \<Rightarrow> candleInput \<Rightarrow> rdb \<Rightarrow> api_error + candleDTO pageBody" where
  "candles_route now sv i d =
     rbind (parse_address (svLib sv) (ciToken i)) (\<lambda>a.
     let interval = (if ciInterval i = [] then ''1h'' else ciInterval i) in
     if interval \<notin> {''1m'', ''5m'', ''1h'', ''1d'', ''6h'', ''all''} then Inl (HumaError 400 ''unsupported interval'')
     else
     rbind (parse_time (svLib sv) ''from'' (ciFrom i) (micros zero_time)) (\<lambda>fromTime.
     rbind (parse_time (svLib sv) ''to'' (ciTo i) now) (\<lambda>toTime.
     rbind (parse_cursor (svLib sv) (ciCursor i)) (\<lambda>cur.
     map_sum (mapReadError (svRequestID sv)) (page_body (svLib sv) (candle_dto (svLib sv)))
       (CandleReader_List (svLib sv) (svEnv sv) (svDeploymentID sv)
         \<lparr>cqChainID = svChainID sv, cqToken = a, cqInterval = interval, cqFrom = fromTime, cqTo = toTime,
          cqLimit = page_limit (ciLimit i), cqCursor = cur\<rparr> d)))))"

end
