(* ===== verification/Read_Paging.thy ===== *)
theory Read_Paging
  imports Read_Routes
begin

text \<open>
  Following cursors: a client that requests the first page and then the page of each returned cursor
  receives every row of the listing once and in order, for the trades, holders, token and stored
  candle routes; pages of different snapshots never mix; and the ways in which the aggregated candle
  listing departs from this.
\<close>

section \<open>A database that answers\<close>

text \<open>No statement fails and the deployment has an observed block.\<close>

definition serves :: "read_env \<Rightarrow> int \<Rightarrow> string \<Rightarrow> rdb \<Rightarrow> ReadSnapshot \<Rightarrow> bool" where
  "serves env chainID deploymentID d s \<longleftrightarrow> rePool env \<and> reBegin env = None \<and> (\<forall>name. reFails env name = None)
     \<and> reContext env = None \<and> 0 < chainID \<and> sql_GetSyncState chainID deploymentID d = Inr (readState s, d)
     \<and> observedIdentity (readState s) = Inr (readIdentity s)"

lemma serves_read: "serves env chainID deploymentID d s \<Longrightarrow> withReadSnapshotBeginner env chainID deploymentID d fn = fn s"
  by (cases s; cases "fn s") (auto simp: serves_def withReadSnapshotBeginner_def readSyncState_def)

lemma serves_query: "serves env chainID deploymentID d s \<Longrightarrow> run_query env name x = Inr x"
  by (simp add: serves_def run_query_def)

lemma serves_identity:
  "serves env chainID deploymentID d s \<Longrightarrow> 0 < snChainID (readIdentity s) \<and> 0 \<le> snBlockNumber (readIdentity s)"
proof -
  assume "serves env chainID deploymentID d s"
  then have "observedIdentity (readState s) = Inr (readIdentity s)" "syChainID (readState s) = chainID" "0 < chainID"
    by (auto simp: serves_def sql_GetSyncState_def sync_key_def find_Some_iff split: option.splits)
  then show ?thesis
    by (cases "readIdentity s") (auto simp: observedIdentity_def split: option.splits prod.splits if_splits)
qed

lemma serves_token:
  "serves env chainID deploymentID d s \<Longrightarrow> sql_TokenExists chainID token d \<Longrightarrow> require_token env chainID token d = Inr ()"
  by (simp add: require_token_def serves_query)

text \<open>The cursor of a page is read back by the next request and accepted.\<close>

lemma page_cursor_accepted:
  assumes "library_laws lib" "serves env chainID deploymentID d s"
    and "endpoint \<noteq> []" "order \<noteq> []" "key \<noteq> []" "ascii endpoint" "ascii order" "list_all ascii key" "ascii filters"
  defines "c \<equiv> page_cursor (readIdentity s) endpoint order filters key"
  shows "Encode lib c = Inr (encoded_or_empty lib c)" "encoded_or_empty lib c \<noteq> []"
    "parse_cursor lib (encoded_or_empty lib c) = Inr (Some c)"
    "ValidateRequest c endpoint order filters ''next'' (readIdentity s) = Inr ()"
proof -
  have shape: "ValidateShape c = Inr ()"
    using assms(3-5) serves_identity[OF assms(2)] by (simp add: ValidateShape_Inr c_def page_cursor_def)
  have "cursor_ascii c" using assms(6-9) by (simp add: cursor_ascii_def c_def page_cursor_def ascii_def)
  from Encode_Decode[OF assms(1) shape this]
  obtain t where t: "Encode lib c = Inr t" "t \<noteq> []" "Decode lib t = Inr c" by blast
  then show "Encode lib c = Inr (encoded_or_empty lib c)" "encoded_or_empty lib c \<noteq> []"
    "parse_cursor lib (encoded_or_empty lib c) = Inr (Some c)"
    by (simp_all add: encoded_or_empty_def parse_cursor_def)
  show "ValidateRequest c endpoint order filters ''next'' (readIdentity s) = Inr ()"
    using shape by (simp add: ValidateRequest_Inr) (simp add: c_def page_cursor_def)
qed

text \<open>What a client keeps of a response.\<close>

definition listing :: "'e + 'i pageBody \<Rightarrow> 'e + 'i list \<times> string" where
  "listing r = map_sum id (\<lambda>b. (bdItems b, bdNextCursor b)) r"

lemma listing_simps [simp]: "listing (Inl e) = Inl e" "listing (Inr b) = Inr (bdItems b, bdNextCursor b)"
  by (simp_all add: listing_def)

definition limit_ok :: "int \<Rightarrow> bool" where
  "limit_ok limit \<longleftrightarrow> 1 \<le> page_limit limit \<and> page_limit limit \<le> 100"

section \<open>Trades\<close>

definition trade_fits :: "market_trade \<Rightarrow> bool" where
  "trade_fits v \<longleftrightarrow> - (2 ^ 63) \<le> vtBlock v \<and> vtBlock v < 2 ^ 63 \<and> - (2 ^ 31) \<le> vtTransaction v
     \<and> vtTransaction v < 2 ^ 31 \<and> - (2 ^ 31) \<le> vtLog v \<and> vtLog v < 2 ^ 31"

lemma trade_after_key:
  "trade_fits v \<Longrightarrow> cuKey c = trade_key (read_trade lib env v) \<Longrightarrow> trade_after c = Inr (trade_position v)"
  by (simp add: trade_after_def trade_key_def read_trade_def trade_fits_def trade_position_def)

definition trade_cursor :: "read_library \<Rightarrow> read_env \<Rightarrow> ReadSnapshot \<Rightarrow> Address \<Rightarrow> market_trade \<Rightarrow> Cursor" where
  "trade_cursor lib env s a v = page_cursor (readIdentity s) ''trades'' ''newest''
     (cursorFilter lib [rlAddressHex lib a]) (trade_key (read_trade lib env v))"

lemma ListTrades_serves:
  assumes "serves env chainID deploymentID d s" "sql_TokenExists chainID a d" "1 \<le> limit" "limit \<le> 100"
    and "cursor_position cur (\<lambda>c. ValidateRequest c ''trades'' ''newest'' (cursorFilter lib [rlAddressHex lib a]) ''next''
      (readIdentity s)) trade_after = Inr after"
  shows "ListTrades lib env deploymentID \<lparr>mqChainID = chainID, mqToken = a, mqLimit = limit, mqCursor = cur\<rparr> d =
    (let rows = sql_ListMarketTrades (reQuo env) chainID a after limit d in
     Inr \<lparr>pgItems = map (read_trade lib env) rows, pgSnapshot = readIdentity s,
       pgNextCursor = (if int (length rows) = limit then encoded_or_empty lib (trade_cursor lib env s a (last rows)) else []),
       pgFinality = finality (readState s) (snBlockNumber (readIdentity s))\<rparr>)"
proof -
  have "last (map (read_trade lib env) rows) = read_trade lib env (last rows)" if "int (length rows) = limit" for rows
    using that assms(3) by (intro last_map) auto
  then show ?thesis using assms
    by (simp add: ListTrades_def serves_read[OF assms(1)] serves_query[OF assms(1)] serves_token[OF assms(1)] Let_def trade_cursor_def)
qed

lemma trades_page:
  assumes "serves (svEnv sv) (svChainID sv) (svDeploymentID sv) d s" "sql_TokenExists (svChainID sv) a d"
    and "parse_address (svLib sv) (piToken i) = Inr a" "limit_ok (piLimit i)"
    and "parse_cursor (svLib sv) c = Inr cur"
    and "cursor_position cur (\<lambda>c. ValidateRequest c ''trades'' ''newest'' (cursorFilter (svLib sv) [rlAddressHex (svLib sv) a]) ''next''
      (readIdentity s)) trade_after = Inr after"
  shows "listing (trades_route sv (i\<lparr>piCursor := c\<rparr>) d) =
    Inr (page_of (nat (page_limit (piLimit i))) (\<lambda>v. trade_dto (svLib sv) (read_trade (svLib sv) (svEnv sv) v))
      (\<lambda>v. encoded_or_empty (svLib sv) (trade_cursor (svLib sv) (svEnv sv) s a v))
      (sql_ListMarketTrades (reQuo (svEnv sv)) (svChainID sv) a after (int (nat (page_limit (piLimit i)))) d))"
proof -
  have l: "1 \<le> page_limit (piLimit i)" "page_limit (piLimit i) \<le> 100" using assms(4) by (simp_all add: limit_ok_def)
  show ?thesis using ListTrades_serves[OF assms(1,2) l assms(6)] assms(3,5) l
    by (simp add: trades_route_def page_body_def page_of_def Let_def nat_eq_iff2 comp_def)
qed

interpretation trades: keyset_listing "\<lambda>after n. sql_ListMarketTrades quo chainID token after n d" trade_position
    "\<lambda>a b. b < a" "rev (sort_key trade_position (token_trades quo chainID token d))"
  for quo chainID token and d :: "'m db"
  unfolding sql_ListMarketTrades_def by (rule descending.keyset_listing_axioms)

lemma trades_followed:
  assumes lib: "library_laws (svLib sv)" and db: "serves (svEnv sv) (svChainID sv) (svDeploymentID sv) d s"
    and token: "sql_TokenExists (svChainID sv) a d" "parse_address (svLib sv) (piToken i) = Inr a" and limit: "limit_ok (piLimit i)"
  defines "all \<equiv> token_trades (reQuo (svEnv sv)) (svChainID sv) a d"
  assumes keys: "distinct (map trade_position all)" "\<forall>v \<in> set all. trade_fits v"
    and fuel: "length all div nat (page_limit (piLimit i)) < k"
  shows "follow k (\<lambda>c. listing (trades_route sv (i\<lparr>piCursor := c\<rparr>) d)) [] = Some (Inr
    (map (\<lambda>v. trade_dto (svLib sv) (read_trade (svLib sv) (svEnv sv) v)) (rev (sort_key trade_position all))))"
proof (unfold all_def, rule trades.follow_all)
  show "distinct (map trade_position (rev (sort_key trade_position (token_trades (reQuo (svEnv sv)) (svChainID sv) a d))))"
    using keys(1) by (simp add: all_def distinct_map)
  show "0 < nat (page_limit (piLimit i))" using limit by (simp add: limit_ok_def)
  show "length (rev (sort_key trade_position (token_trades (reQuo (svEnv sv)) (svChainID sv) a d))) div nat (page_limit (piLimit i)) < k"
    using fuel by (simp add: all_def)
  show "listing (trades_route sv (i\<lparr>piCursor := []\<rparr>) d) =
    Inr (page_of (nat (page_limit (piLimit i))) (\<lambda>v. trade_dto (svLib sv) (read_trade (svLib sv) (svEnv sv) v))
      (\<lambda>v. encoded_or_empty (svLib sv) (trade_cursor (svLib sv) (svEnv sv) s a v))
      (sql_ListMarketTrades (reQuo (svEnv sv)) (svChainID sv) a None (int (nat (page_limit (piLimit i)))) d))"
    by (rule trades_page[OF db token limit, where cur = None]) (simp_all add: parse_cursor_def cursor_position_def)
next
  fix v assume "v \<in> set (rev (sort_key trade_position (token_trades (reQuo (svEnv sv)) (svChainID sv) a d)))"
  then have v: "trade_fits v" using keys(2) by (simp add: all_def)
  note c = page_cursor_accepted[where endpoint = "''trades''" and order = "''newest''" and key = "trade_key (read_trade (svLib sv) (svEnv sv) v)"
      and filters = "cursorFilter (svLib sv) [rlAddressHex (svLib sv) a]", OF lib db, folded trade_cursor_def]
  have t: "encoded_or_empty (svLib sv) (trade_cursor (svLib sv) (svEnv sv) s a v) \<noteq> []"
    "parse_cursor (svLib sv) (encoded_or_empty (svLib sv) (trade_cursor (svLib sv) (svEnv sv) s a v)) =
       Inr (Some (trade_cursor (svLib sv) (svEnv sv) s a v))"
    "ValidateRequest (trade_cursor (svLib sv) (svEnv sv) s a v) ''trades'' ''newest''
       (cursorFilter (svLib sv) [rlAddressHex (svLib sv) a]) ''next'' (readIdentity s) = Inr ()"
    by (rule c(2-4), simp_all add: trade_key_def ascii_cursorFilter[OF lib], simp_all add: ascii_def)+
  have "trade_after (trade_cursor (svLib sv) (svEnv sv) s a v) = Inr (trade_position v)"
    by (rule trade_after_key[OF v]) (simp add: trade_cursor_def page_cursor_def)
  then show "encoded_or_empty (svLib sv) (trade_cursor (svLib sv) (svEnv sv) s a v) \<noteq> [] \<and>
      listing (trades_route sv (i\<lparr>piCursor := encoded_or_empty (svLib sv) (trade_cursor (svLib sv) (svEnv sv) s a v)\<rparr>) d) =
      Inr (page_of (nat (page_limit (piLimit i))) (\<lambda>v. trade_dto (svLib sv) (read_trade (svLib sv) (svEnv sv) v))
        (\<lambda>v. encoded_or_empty (svLib sv) (trade_cursor (svLib sv) (svEnv sv) s a v))
        (sql_ListMarketTrades (reQuo (svEnv sv)) (svChainID sv) a (Some (trade_position v)) (int (nat (page_limit (piLimit i)))) d))"
    using t by (intro conjI trades_page[OF db token limit t(2)]) (simp_all add: cursor_position_def)
qed

section \<open>Holders\<close>

text \<open>A listed holder has a positive balance, so its key is read back.\<close>

lemma token_holders_positive: "hr \<in> set (token_holders chainID token d) \<Longrightarrow> 0 < hoBalance (snd hr)"
  by (auto simp: token_holders_def split: if_splits)

lemma holder_after_key:
  assumes "library_laws lib" "0 < hoBalance (snd hr)" "cuKey c = balance_key lib (read_balance hr)"
  shows "holder_after lib c = Inr (holder_key hr)"
  using assms(2,3) library_address[OF assms(1)]
  by (simp add: holder_after_def balance_key_def read_balance_def holder_key_def)

definition holder_cursor :: "read_library \<Rightarrow> ReadSnapshot \<Rightarrow> Address \<Rightarrow> Address \<times> holder_row \<Rightarrow> Cursor" where
  "holder_cursor lib s a hr = page_cursor (readIdentity s) ''holders'' ''balance''
     (cursorFilter lib [rlAddressHex lib a]) (balance_key lib (read_balance hr))"

lemma ListHolders_serves:
  assumes "serves env chainID deploymentID d s" "sql_TokenExists chainID a d" "1 \<le> limit" "limit \<le> 100"
    and "cursor_position cur (\<lambda>c. ValidateRequest c ''holders'' ''balance'' (cursorFilter lib [rlAddressHex lib a]) ''next''
      (readIdentity s)) (holder_after lib) = Inr after"
  shows "ListHolders lib env deploymentID \<lparr>mqChainID = chainID, mqToken = a, mqLimit = limit, mqCursor = cur\<rparr> d =
    (let rows = sql_ListTokenHolders chainID a after limit d in
     Inr \<lparr>pgItems = map read_balance rows, pgSnapshot = readIdentity s,
       pgNextCursor = (if int (length rows) = limit then encoded_or_empty lib (holder_cursor lib s a (last rows)) else []),
       pgFinality = finality (readState s) (snBlockNumber (readIdentity s))\<rparr>)"
proof -
  have "last (map read_balance rows) = read_balance (last rows)" if "int (length rows) = limit" for rows
    using that assms(3) by (intro last_map) auto
  then show ?thesis using assms
    by (simp add: ListHolders_def serves_read[OF assms(1)] serves_query[OF assms(1)] serves_token[OF assms(1)] Let_def holder_cursor_def)
qed

lemma holders_page:
  assumes "serves (svEnv sv) (svChainID sv) (svDeploymentID sv) d s" "sql_TokenExists (svChainID sv) a d"
    and "parse_address (svLib sv) (piToken i) = Inr a" "limit_ok (piLimit i)"
    and "parse_cursor (svLib sv) c = Inr cur"
    and "cursor_position cur (\<lambda>c. ValidateRequest c ''holders'' ''balance'' (cursorFilter (svLib sv) [rlAddressHex (svLib sv) a]) ''next''
      (readIdentity s)) (holder_after (svLib sv)) = Inr after"
  shows "listing (holders_route sv (i\<lparr>piCursor := c\<rparr>) d) =
    Inr (page_of (nat (page_limit (piLimit i))) (\<lambda>hr. holder_dto (svLib sv) (read_balance hr))
      (\<lambda>hr. encoded_or_empty (svLib sv) (holder_cursor (svLib sv) s a hr))
      (sql_ListTokenHolders (svChainID sv) a after (int (nat (page_limit (piLimit i)))) d))"
proof -
  have l: "1 \<le> page_limit (piLimit i)" "page_limit (piLimit i) \<le> 100" using assms(4) by (simp_all add: limit_ok_def)
  show ?thesis using ListHolders_serves[OF assms(1,2) l assms(6)] assms(3,5) l
    by (simp add: holders_route_def page_body_def page_of_def Let_def nat_eq_iff2 comp_def)
qed

interpretation holders: keyset_listing "\<lambda>after n. sql_ListTokenHolders chainID token after n d" holder_key
    "\<lambda>a b. b < a" "rev (sort_key holder_key (token_holders chainID token d))"
  for chainID token d
  unfolding sql_ListTokenHolders_def by (rule descending.keyset_listing_axioms)

text \<open>The primary key makes the holders of a token distinct.\<close>

lemma token_holders_distinct:
  assumes "distinct (map fst (rtHolders (dbMarket d)))"
  shows "distinct (map holder_key (token_holders chainID token d))"
proof -
  have "distinct (map fst (concat (map (\<lambda>((c, t, h), row).
      if c = chainID \<and> t = token \<and> P c t h row then [(h, row)] else []) xs)))"
    if "distinct (map fst xs)" for P and xs :: "((int \<times> Address \<times> Address) \<times> holder_row) list"
    using that
  proof (induction xs)
    case (Cons x xs)
    obtain c t h row where x: "x = ((c, t, h), row)" by (metis prod.exhaust)
    show ?case using Cons by (auto simp: x image_iff split: if_splits)
  qed simp
  from this[OF assms] have "distinct (map fst (token_holders chainID token d))"
    unfolding token_holders_def by (simp add: case_prod_unfold conj_assoc)
  then have "distinct (map snd (map holder_key (token_holders chainID token d)))"
    by (simp add: holder_key_def comp_def)
  then show ?thesis by (metis distinct_map)
qed

lemma holders_followed:
  assumes lib: "library_laws (svLib sv)" and db: "serves (svEnv sv) (svChainID sv) (svDeploymentID sv) d s"
    and token: "sql_TokenExists (svChainID sv) a d" "parse_address (svLib sv) (piToken i) = Inr a" and limit: "limit_ok (piLimit i)"
    and keys: "distinct (map fst (rtHolders (dbMarket d)))"
    and fuel: "length (token_holders (svChainID sv) a d) div nat (page_limit (piLimit i)) < k"
  shows "follow k (\<lambda>c. listing (holders_route sv (i\<lparr>piCursor := c\<rparr>) d)) [] = Some (Inr
    (map (\<lambda>hr. holder_dto (svLib sv) (read_balance hr)) (rev (sort_key holder_key (token_holders (svChainID sv) a d)))))"
proof (rule holders.follow_all)
  show "distinct (map holder_key (rev (sort_key holder_key (token_holders (svChainID sv) a d))))"
    using token_holders_distinct[OF keys] by (simp add: distinct_map)
  show "0 < nat (page_limit (piLimit i))" using limit by (simp add: limit_ok_def)
  show "length (rev (sort_key holder_key (token_holders (svChainID sv) a d))) div nat (page_limit (piLimit i)) < k"
    using fuel by simp
  show "listing (holders_route sv (i\<lparr>piCursor := []\<rparr>) d) =
    Inr (page_of (nat (page_limit (piLimit i))) (\<lambda>hr. holder_dto (svLib sv) (read_balance hr))
      (\<lambda>hr. encoded_or_empty (svLib sv) (holder_cursor (svLib sv) s a hr))
      (sql_ListTokenHolders (svChainID sv) a None (int (nat (page_limit (piLimit i)))) d))"
    by (rule holders_page[OF db token limit, where cur = None]) (simp_all add: parse_cursor_def cursor_position_def)
next
  fix hr assume "hr \<in> set (rev (sort_key holder_key (token_holders (svChainID sv) a d)))"
  then have hr: "0 < hoBalance (snd hr)" using token_holders_positive by simp
  note c = page_cursor_accepted[where endpoint = "''holders''" and order = "''balance''" and key = "balance_key (svLib sv) (read_balance hr)"
      and filters = "cursorFilter (svLib sv) [rlAddressHex (svLib sv) a]", OF lib db, folded holder_cursor_def]
  have t: "encoded_or_empty (svLib sv) (holder_cursor (svLib sv) s a hr) \<noteq> []"
    "parse_cursor (svLib sv) (encoded_or_empty (svLib sv) (holder_cursor (svLib sv) s a hr)) =
       Inr (Some (holder_cursor (svLib sv) s a hr))"
    "ValidateRequest (holder_cursor (svLib sv) s a hr) ''holders'' ''balance''
       (cursorFilter (svLib sv) [rlAddressHex (svLib sv) a]) ''next'' (readIdentity s) = Inr ()"
    by (rule c(2-4), simp_all add: balance_key_def ascii_cursorFilter[OF lib] library_address[OF lib], simp_all add: ascii_def)+
  have "holder_after (svLib sv) (holder_cursor (svLib sv) s a hr) = Inr (holder_key hr)"
    by (rule holder_after_key[OF lib hr]) (simp add: holder_cursor_def page_cursor_def)
  then show "encoded_or_empty (svLib sv) (holder_cursor (svLib sv) s a hr) \<noteq> [] \<and>
      listing (holders_route sv (i\<lparr>piCursor := encoded_or_empty (svLib sv) (holder_cursor (svLib sv) s a hr)\<rparr>) d) =
      Inr (page_of (nat (page_limit (piLimit i))) (\<lambda>hr. holder_dto (svLib sv) (read_balance hr))
        (\<lambda>hr. encoded_or_empty (svLib sv) (holder_cursor (svLib sv) s a hr))
        (sql_ListTokenHolders (svChainID sv) a (Some (holder_key hr)) (int (nat (page_limit (piLimit i)))) d))"
    using t by (intro conjI holders_page[OF db token limit t(2)]) (simp_all add: cursor_position_def)
qed

section \<open>Tokens\<close>

text \<open>The statement of a sort, its key, and the listing it pages through.\<close>

definition card_statement ::
    "read_library \<Rightarrow> string \<Rightarrow> int \<Rightarrow> string \<Rightarrow> string \<Rightarrow> (int \<times> Address) option \<Rightarrow> int \<Rightarrow> rdb \<Rightarrow> Summary list" where
  "card_statement lib order =
     (if order = ''newest'' then sql_ListTokenCardsNewest lib else if order = ''oldest'' then sql_ListTokenCardsOldest lib
      else if order = ''market_cap'' then sql_ListTokenCardsMarketCap lib else sql_ListTokenCardsVolume lib)"

definition card_sort_key :: "string \<Rightarrow> Summary \<Rightarrow> int \<times> Address" where
  "card_sort_key order = (if order = ''market_cap'' then card_market_key else if order = ''volume_24h'' then card_volume_key
     else card_block_key)"

definition ordered_cards :: "string \<Rightarrow> Summary list \<Rightarrow> Summary list" where
  "ordered_cards order cards = (if order = ''oldest'' then sort_key (card_sort_key order) cards
     else rev (sort_key (card_sort_key order) cards))"

definition card_sorts :: "string list" where
  "card_sorts = [''newest'', ''oldest'', ''market_cap'', ''volume_24h'']"

definition card_past :: "string \<Rightarrow> int \<times> Address \<Rightarrow> int \<times> Address \<Rightarrow> bool" where
  "card_past order a b = (if order = ''oldest'' then a < b else b < a)"

lemma card_statement_eq:
  "order \<in> set card_sorts \<Longrightarrow> card_statement lib order chainID ph search after n d =
     (if order = ''oldest'' then keyset_asc else keyset_desc) (card_sort_key order) after n (token_cards lib chainID ph search d)"
  by (auto simp: card_sorts_def card_statement_def card_sort_key_def sql_ListTokenCardsNewest_def sql_ListTokenCardsOldest_def
      sql_ListTokenCardsMarketCap_def sql_ListTokenCardsVolume_def)

interpretation cards: keyset_listing
    "\<lambda>after n. card_statement lib (if order \<in> set card_sorts then order else ''newest'') chainID ph search after n d"
    "card_sort_key (if order \<in> set card_sorts then order else ''newest'')"
    "card_past (if order \<in> set card_sorts then order else ''newest'')"
    "ordered_cards (if order \<in> set card_sorts then order else ''newest'') (token_cards lib chainID ph search d)"
  for lib order chainID ph search d
proof -
  have "keyset_listing (\<lambda>after n. card_statement lib order chainID ph search after n d) (card_sort_key order)
      (card_past order) (ordered_cards order (token_cards lib chainID ph search d))" if "order \<in> set card_sorts" for order
  proof (cases "order = ''oldest''")
    case True
    then have "card_past order = (\<lambda>a b. a < b)" by (simp add: card_past_def fun_eq_iff)
    moreover have "(\<lambda>after n. card_statement lib order chainID ph search after n d) =
        (\<lambda>after n. keyset_asc (card_sort_key order) after n (token_cards lib chainID ph search d))"
      unfolding card_statement_eq[OF that] using True by simp
    moreover have "ordered_cards order (token_cards lib chainID ph search d) =
        sort_key (card_sort_key order) (token_cards lib chainID ph search d)"
      using True by (simp add: ordered_cards_def)
    ultimately show ?thesis
      using ascending.keyset_listing_axioms[of "card_sort_key order" "token_cards lib chainID ph search d"] by simp
  next
    case False
    then have "card_past order = (\<lambda>a b. b < a)" by (simp add: card_past_def fun_eq_iff)
    moreover have "(\<lambda>after n. card_statement lib order chainID ph search after n d) =
        (\<lambda>after n. keyset_desc (card_sort_key order) after n (token_cards lib chainID ph search d))"
      unfolding card_statement_eq[OF that] using False by simp
    moreover have "ordered_cards order (token_cards lib chainID ph search d) =
        rev (sort_key (card_sort_key order) (token_cards lib chainID ph search d))"
      using False by (simp add: ordered_cards_def)
    ultimately show ?thesis
      using descending.keyset_listing_axioms[of "card_sort_key order" "token_cards lib chainID ph search d"] by simp
  qed
  then show "keyset_listing (\<lambda>after n. card_statement lib (if order \<in> set card_sorts then order else ''newest'') chainID ph search after n d)
      (card_sort_key (if order \<in> set card_sorts then order else ''newest''))
      (card_past (if order \<in> set card_sorts then order else ''newest''))
      (ordered_cards (if order \<in> set card_sorts then order else ''newest'') (token_cards lib chainID ph search d))"
    by (simp add: card_sorts_def)
qed

definition card_fits :: "Summary \<Rightarrow> bool" where
  "card_fits s \<longleftrightarrow> 0 \<le> smLaunchBlock s \<and> smLaunchBlock s < 2 ^ 63 \<and> 0 \<le> smMarketCapETH s \<and> 0 \<le> smVolume24hETH s"

definition card_position :: "read_library \<Rightarrow> string \<Rightarrow> Cursor option \<Rightarrow> read_error + (int \<times> Address) option" where
  "card_position lib order cur = (if order \<in> {''newest'', ''oldest''} then tupleCursor lib cur else metricCursor lib cur)"

lemma card_position_key:
  assumes "library_laws lib" "card_fits v" "order \<in> set card_sorts" "cuKey c = card_key lib order v"
  shows "card_position lib order (Some c) = Inr (Some (card_sort_key order v))"
  using assms(2-4) library_address[OF assms(1)]
  by (auto simp: card_position_def tupleCursor_def metricCursor_def card_key_def card_sort_key_def card_sorts_def
      card_fits_def card_block_key_def card_market_key_def card_volume_key_def)

definition card_cursor :: "read_library \<Rightarrow> ReadSnapshot \<Rightarrow> string \<Rightarrow> string \<Rightarrow> Summary \<Rightarrow> Cursor" where
  "card_cursor lib s order filters v = page_cursor (readIdentity s) ''tokens'' order filters (card_key lib order v)"

lemma read_cards_serves:
  assumes "serves env chainID deploymentID d s" "lqSort q \<in> set card_sorts"
  shows "read_cards lib env chainID q search d = rbind (card_position lib (lqSort q) (lqCursor q)) (\<lambda>after.
    Inr (card_statement lib (lqSort q) chainID (lqPhase q) search after (lqLimit q) d))"
  using assms(2) by (auto simp: read_cards_def card_sorts_def card_position_def card_statement_def serves_query[OF assms(1)])

definition search_text :: "read_library \<Rightarrow> string \<Rightarrow> string" where
  "search_text lib q = rlToLower lib (rlTrimSpace lib q)"

definition card_filters :: "read_library \<Rightarrow> string \<Rightarrow> string \<Rightarrow> string" where
  "card_filters lib ph q = cursorFilter lib [ph, search_text lib q]"

lemma card_cursor_accepted:
  assumes "library_laws lib" "serves env chainID deploymentID d s" "order \<in> set card_sorts"
  shows "Encode lib (card_cursor lib s order (card_filters lib ph q) v) = Inr (encoded_or_empty lib (card_cursor lib s order (card_filters lib ph q) v))"
    "encoded_or_empty lib (card_cursor lib s order (card_filters lib ph q) v) \<noteq> []"
    "parse_cursor lib (encoded_or_empty lib (card_cursor lib s order (card_filters lib ph q) v)) = Inr (Some (card_cursor lib s order (card_filters lib ph q) v))"
    "ValidateRequest (card_cursor lib s order (card_filters lib ph q) v) ''tokens'' order (card_filters lib ph q) ''next'' (readIdentity s) = Inr ()"
proof -
  have o: "order \<noteq> []" "ascii order" using assms(3) by (auto simp: card_sorts_def ascii_def)
  have k: "card_key lib order v \<noteq> []" "list_all ascii (card_key lib order v)"
    using library_address[OF assms(1)] by (simp_all add: card_key_def)
  have f: "ascii (card_filters lib ph q)" using ascii_cursorFilter[OF assms(1)] by (simp add: card_filters_def)
  have e: "''tokens'' \<noteq> []" "ascii ''tokens''" by (simp_all add: ascii_def)
  show "Encode lib (card_cursor lib s order (card_filters lib ph q) v) = Inr (encoded_or_empty lib (card_cursor lib s order (card_filters lib ph q) v))"
    "encoded_or_empty lib (card_cursor lib s order (card_filters lib ph q) v) \<noteq> []"
    "parse_cursor lib (encoded_or_empty lib (card_cursor lib s order (card_filters lib ph q) v)) = Inr (Some (card_cursor lib s order (card_filters lib ph q) v))"
    "ValidateRequest (card_cursor lib s order (card_filters lib ph q) v) ''tokens'' order (card_filters lib ph q) ''next'' (readIdentity s) = Inr ()"
    unfolding card_cursor_def using page_cursor_accepted[OF assms(1,2) e(1) o(1) k(1) e(2) o(2) k(2) f] by blast+
qed

lemma ReadTokenCards_serves:
  assumes "library_laws lib" "serves env chainID deploymentID d s"
    and "lqSort q \<in> set card_sorts" "lqPhase q \<in> {''curve'', ''graduated''}" "1 \<le> lqLimit q" "lqLimit q \<le> 100"
    and "case lqCursor q of None \<Rightarrow> True
      | Some c \<Rightarrow> ValidateRequest c ''tokens'' (lqSort q) (card_filters lib (lqPhase q) (lqSearch q)) ''next'' (readIdentity s) = Inr ()"
    and "card_position lib (lqSort q) (lqCursor q) = Inr after"
  shows "ReadTokenCards lib env chainID deploymentID q d =
    (let rows = card_statement lib (lqSort q) chainID (lqPhase q) (search_text lib (lqSearch q)) after (lqLimit q) d in
     Inr \<lparr>pgItems = rows, pgSnapshot = readIdentity s,
       pgNextCursor = (if int (length rows) = lqLimit q
         then encoded_or_empty lib (card_cursor lib s (lqSort q) (card_filters lib (lqPhase q) (lqSearch q)) (last rows)) else []),
       pgFinality = finality (readState s) (snBlockNumber (readIdentity s))\<rparr>)"
proof -
  have v: "(case lqCursor q of None \<Rightarrow> Inr ()
      | Some c \<Rightarrow> ValidateRequest c ''tokens'' (lqSort q) (card_filters lib (lqPhase q) (lqSearch q)) ''next'' (readIdentity s)) = Inr ()"
    using assms(7) by (auto split: option.splits)
  have g: "\<not> (lqLimit q < 1 \<or> 100 < lqLimit q)" "\<not> lqPhase q \<notin> {''curve'', ''graduated''}"
    "\<not> lqSort q \<notin> {''newest'', ''oldest'', ''market_cap'', ''volume_24h''}"
    using assms(3-6) by (auto simp: card_sorts_def)
  show ?thesis
    unfolding ReadTokenCards_def if_not_P[OF g(1)] if_not_P[OF g(2)] if_not_P[OF g(3)] serves_read[OF assms(2)] Let_def
      search_text_def[symmetric] card_filters_def[symmetric] v rbind_Inr read_cards_serves[OF assms(2,3)] assms(8)
      card_cursor_def[symmetric] card_cursor_accepted(1)[OF assms(1-3)]
    by simp
qed

lemma input_cursor_irrelevant [simp]:
  "input_phase (i\<lparr>tiCursor := c\<rparr>) = input_phase i" "input_sort (i\<lparr>tiCursor := c\<rparr>) = input_sort i"
  by (simp_all add: input_phase_def input_sort_def)

text \<open>The rows the token route lists, and their cursors.\<close>

definition listed_cards :: "server \<Rightarrow> tokenListInput \<Rightarrow> rdb \<Rightarrow> Summary list" where
  "listed_cards sv i d = token_cards (svLib sv) (svChainID sv) (input_phase i) (search_text (svLib sv) (tiQuery i)) d"

definition input_cursor :: "server \<Rightarrow> tokenListInput \<Rightarrow> ReadSnapshot \<Rightarrow> Summary \<Rightarrow> Cursor" where
  "input_cursor sv i s v = card_cursor (svLib sv) s (input_sort i) (card_filters (svLib sv) (input_phase i) (tiQuery i)) v"

lemma tokens_page:
  assumes "library_laws (svLib sv)" "serves (svEnv sv) (svChainID sv) (svDeploymentID sv) d s"
    and i: "input_sort i \<in> set card_sorts" "input_phase i \<in> {''curve'', ''graduated''}" "limit_ok (tiLimit i)"
    and cur: "parse_cursor (svLib sv) c = Inr cur"
    and valid: "case cur of None \<Rightarrow> True | Some c \<Rightarrow> ValidateRequest c ''tokens'' (input_sort i)
      (card_filters (svLib sv) (input_phase i) (tiQuery i)) ''next'' (readIdentity s) = Inr ()"
    and after: "card_position (svLib sv) (input_sort i) cur = Inr after"
  shows "listing (tokens_route printMicros sv (i\<lparr>tiCursor := c\<rparr>) d) =
    Inr (page_of (nat (page_limit (tiLimit i))) (token_dto printMicros (svLib sv))
      (\<lambda>v. encoded_or_empty (svLib sv) (input_cursor sv i s v))
      (card_statement (svLib sv) (input_sort i) (svChainID sv) (input_phase i) (search_text (svLib sv) (tiQuery i)) after
        (int (nat (page_limit (tiLimit i)))) d))"
proof -
  have l: "1 \<le> page_limit (tiLimit i)" "page_limit (tiLimit i) \<le> 100" using i(3) by (simp_all add: limit_ok_def)
  let ?q = "\<lparr>lqChainID = svChainID sv, lqPhase = input_phase i, lqSearch = tiQuery i, lqSort = input_sort i, lqCursor = cur,
    lqLimit = page_limit (tiLimit i)\<rparr>"
  have r: "ReadTokenCards (svLib sv) (svEnv sv) (svChainID sv) (svDeploymentID sv) ?q d =
      (let rows = card_statement (svLib sv) (input_sort i) (svChainID sv) (input_phase i) (search_text (svLib sv) (tiQuery i)) after (page_limit (tiLimit i)) d in
       Inr \<lparr>pgItems = rows, pgSnapshot = readIdentity s,
         pgNextCursor = (if int (length rows) = page_limit (tiLimit i) then encoded_or_empty (svLib sv) (input_cursor sv i s (last rows)) else []),
         pgFinality = finality (readState s) (snBlockNumber (readIdentity s))\<rparr>)"
    using l by (subst ReadTokenCards_serves[OF assms(1,2), of _ after])
      (simp_all only: i valid after ListQuery.simps input_cursor_def)
  have g: "\<not> (page_limit (tiLimit i) < 1 \<or> 100 < page_limit (tiLimit i))"
    "\<not> input_phase i \<notin> {''curve'', ''graduated''}" "\<not> input_sort i \<notin> {''newest'', ''oldest'', ''market_cap'', ''volume_24h''}"
    using l i by (auto simp: card_sorts_def)
  have n: "(int k = page_limit (tiLimit i)) = (k = nat (page_limit (tiLimit i)))" for k using l by auto
  have "tokens_route printMicros sv (i\<lparr>tiCursor := c\<rparr>) d =
      map_sum (mapReadError (svRequestID sv)) (page_body (svLib sv) (token_dto printMicros (svLib sv)))
        (ReadTokenCards (svLib sv) (svEnv sv) (svChainID sv) (svDeploymentID sv) ?q d)"
    unfolding tokens_route_def using g cur by simp
  then show ?thesis using l by (simp add: r Let_def page_body_def page_of_def n)
qed

text \<open>The primary key makes the cards distinct.\<close>

lemma token_cards_distinct:
  assumes "distinct (map token_row_key (dbTokens d))"
  shows "distinct (map (card_sort_key order) (token_cards lib chainID ph search d))"
proof -
  have "distinct (map (\<lambda>r. tlToken (trLaunched r)) (filter (\<lambda>r. trChainID r = chainID \<and> P r) rows))"
    if "distinct (map token_row_key rows)" for P and rows :: "token_row list"
    using that by (auto simp: distinct_map inj_on_def token_row_key_def)
  from this[OF assms] have "distinct (map smAddress (token_cards lib chainID ph search d))"
    by (simp add: token_cards_def reflectCard_def Let_def comp_def)
  moreover have "snd (card_sort_key order v) = smAddress v" for v
    by (simp add: card_sort_key_def card_block_key_def card_market_key_def card_volume_key_def)
  ultimately have "distinct (map snd (map (card_sort_key order) (token_cards lib chainID ph search d)))"
    by (simp add: comp_def)
  then show ?thesis by (metis distinct_map)
qed

lemma ordered_cards_simps [simp]:
  "set (ordered_cards order cards) = set cards" "length (ordered_cards order cards) = length cards"
  "distinct (map f (ordered_cards order cards)) \<longleftrightarrow> distinct (map f cards)"
  by (auto simp: ordered_cards_def distinct_map)

lemma tokens_followed:
  assumes lib: "library_laws (svLib sv)" and db: "serves (svEnv sv) (svChainID sv) (svDeploymentID sv) d s"
    and i: "input_sort i \<in> set card_sorts" "input_phase i \<in> {''curve'', ''graduated''}" "limit_ok (tiLimit i)"
    and keys: "distinct (map token_row_key (dbTokens d))" "\<forall>v \<in> set (listed_cards sv i d). card_fits v"
    and fuel: "length (listed_cards sv i d) div nat (page_limit (tiLimit i)) < k"
  shows "follow k (\<lambda>c. listing (tokens_route printMicros sv (i\<lparr>tiCursor := c\<rparr>) d)) [] = Some (Inr
    (map (token_dto printMicros (svLib sv)) (ordered_cards (input_sort i) (listed_cards sv i d))))"
proof -
  note all = cards.follow_all[where lib = "svLib sv" and order = "input_sort i" and chainID = "svChainID sv" and ph = "input_phase i"
      and search = "search_text (svLib sv) (tiQuery i)" and d = d, unfolded if_P[OF i(1)], folded listed_cards_def]
  show ?thesis
  proof (rule all)
    show "distinct (map (card_sort_key (input_sort i)) (ordered_cards (input_sort i) (listed_cards sv i d)))"
      using token_cards_distinct[OF keys(1)] by (simp add: listed_cards_def)
    show "0 < nat (page_limit (tiLimit i))" using i(3) by (simp add: limit_ok_def)
    show "length (ordered_cards (input_sort i) (listed_cards sv i d)) div nat (page_limit (tiLimit i)) < k" using fuel by simp
    show "listing (tokens_route printMicros sv (i\<lparr>tiCursor := []\<rparr>) d) =
      Inr (page_of (nat (page_limit (tiLimit i))) (token_dto printMicros (svLib sv))
        (\<lambda>v. encoded_or_empty (svLib sv) (input_cursor sv i s v))
        (card_statement (svLib sv) (input_sort i) (svChainID sv) (input_phase i) (search_text (svLib sv) (tiQuery i)) None
          (int (nat (page_limit (tiLimit i)))) d))"
      by (rule tokens_page[OF lib db i, where cur = None])
        (simp_all add: parse_cursor_def card_position_def tupleCursor_def metricCursor_def)
  next
    fix v assume "v \<in> set (ordered_cards (input_sort i) (listed_cards sv i d))"
    then have v: "card_fits v" using keys(2) by simp
    note t = card_cursor_accepted(2-4)[OF lib db i(1), where ph = "input_phase i" and q = "tiQuery i" and v = v, folded input_cursor_def]
    have "card_position (svLib sv) (input_sort i) (Some (input_cursor sv i s v)) = Inr (Some (card_sort_key (input_sort i) v))"
      by (rule card_position_key[OF lib v i(1)]) (simp add: input_cursor_def card_cursor_def page_cursor_def)
    then show "encoded_or_empty (svLib sv) (input_cursor sv i s v) \<noteq> [] \<and>
        listing (tokens_route printMicros sv (i\<lparr>tiCursor := encoded_or_empty (svLib sv) (input_cursor sv i s v)\<rparr>) d) =
        Inr (page_of (nat (page_limit (tiLimit i))) (token_dto printMicros (svLib sv))
          (\<lambda>v. encoded_or_empty (svLib sv) (input_cursor sv i s v))
          (card_statement (svLib sv) (input_sort i) (svChainID sv) (input_phase i) (search_text (svLib sv) (tiQuery i))
            (Some (card_sort_key (input_sort i) v)) (int (nat (page_limit (tiLimit i)))) d))"
      using t by (intro conjI tokens_page[OF lib db i t(2)]) simp_all
  qed
qed

section \<open>Stored candles\<close>

definition stored_intervals :: "string list" where
  "stored_intervals = [''1m'', ''5m'', ''1h'', ''1d'']"

definition candle_cursor :: "read_library \<Rightarrow> CandleQuery \<Rightarrow> ReadSnapshot \<Rightarrow> int \<times> candle_row \<Rightarrow> Cursor" where
  "candle_cursor lib q s sc = page_cursor (readIdentity s) ''candles'' (cqInterval q) (candle_filters lib q) [rlFormatTime lib (fst sc)]"

interpretation stored_candles: keyset_listing
    "\<lambda>after n. sql_ListStoredCandles chainID token interval fromTime toTime after n d" fst
    "\<lambda>a b. a < b" "sort_key fst (candles_between chainID token interval fromTime toTime d)"
  for chainID token interval fromTime toTime d
  unfolding sql_ListStoredCandles_def by (rule ascending.keyset_listing_axioms)

lemma candles_between_distinct:
  assumes "distinct (map fst (rtCandles (dbMarket d)))"
  shows "distinct (map fst (candles_between chainID token interval fromTime toTime d))"
proof -
  have "distinct (map fst (concat (map (\<lambda>((c, t, i, start), row).
      if c = chainID \<and> t = token \<and> i = interval \<and> fromTime \<le> start \<and> start < toTime then [(start, row)] else []) xs)))"
    if "distinct (map fst xs)" for xs :: "((int \<times> Address \<times> string \<times> int) \<times> candle_row) list"
    using that
  proof (induction xs)
    case (Cons x xs)
    obtain c t i start row where x: "x = ((c, t, i, start), row)" by (metis prod.exhaust)
    show ?case using Cons by (auto simp: x image_iff split: if_splits)
  qed simp
  from this[OF assms] show ?thesis by (simp add: candles_between_def)
qed

text \<open>The query the candle route makes of its input at a given time.\<close>

definition candle_query :: "int \<Rightarrow> server \<Rightarrow> candleInput \<Rightarrow> Address \<Rightarrow> CandleQuery" where
  "candle_query now sv i a = \<lparr>cqChainID = svChainID sv, cqToken = a,
     cqInterval = (if ciInterval i = [] then ''1h'' else ciInterval i),
     cqFrom = (if ciFrom i = [] then micros zero_time else the (rlParseTime (svLib sv) (ciFrom i))),
     cqTo = (if ciTo i = [] then now else the (rlParseTime (svLib sv) (ciTo i))),
     cqLimit = page_limit (ciLimit i), cqCursor = None\<rparr>"

definition candle_input_ok :: "server \<Rightarrow> candleInput \<Rightarrow> bool" where
  "candle_input_ok sv i \<longleftrightarrow> limit_ok (ciLimit i)
     \<and> (ciFrom i = [] \<or> rlParseTime (svLib sv) (ciFrom i) \<noteq> None) \<and> (ciTo i = [] \<or> rlParseTime (svLib sv) (ciTo i) \<noteq> None)"

lemma candles_route_query:
  assumes "candle_input_ok sv i" "parse_address (svLib sv) (ciToken i) = Inr a" "parse_cursor (svLib sv) c = Inr cur"
    and "cqInterval (candle_query now sv i a) \<in> set (''6h'' # ''all'' # stored_intervals)"
  shows "candles_route now sv (i\<lparr>ciCursor := c\<rparr>) d = map_sum (mapReadError (svRequestID sv)) (page_body (svLib sv) (candle_dto (svLib sv)))
    (CandleReader_List (svLib sv) (svEnv sv) (svDeploymentID sv) ((candle_query now sv i a)\<lparr>cqCursor := cur\<rparr>) d)"
  using assms by (auto simp: candles_route_def candle_input_ok_def parse_time_def candle_query_def stored_intervals_def Let_def)

lemma stored_candles_page:
  fixes now :: int
  assumes "serves (svEnv sv) (svChainID sv) (svDeploymentID sv) d s" "sql_TokenExists (svChainID sv) a d"
    and "parse_address (svLib sv) (ciToken i) = Inr a" "candle_input_ok sv i"
    and "parse_cursor (svLib sv) c = Inr cur"
  defines "q \<equiv> candle_query now sv i a"
  assumes "cqInterval q \<in> set stored_intervals"
    and "cursor_position cur (\<lambda>c. ValidateRequest c ''candles'' (cqInterval q) (candle_filters (svLib sv) q) ''next''
      (readIdentity s)) (candle_after (svLib sv)) = Inr after"
  shows "listing (candles_route now sv (i\<lparr>ciCursor := c\<rparr>) d) =
    Inr (page_of (nat (page_limit (ciLimit i))) (\<lambda>sc. candle_dto (svLib sv) (stored_candle sc))
      (\<lambda>sc. encoded_or_empty (svLib sv) (candle_cursor (svLib sv) q s sc))
      (sql_ListStoredCandles (svChainID sv) a (cqInterval q) (cqFrom q) (cqTo q) after (int (nat (page_limit (ciLimit i)))) d))"
proof -
  let ?lib = "svLib sv" and ?n = "page_limit (ciLimit i)"
  have l: "1 \<le> ?n" "?n \<le> 100" using assms(4) by (simp_all add: limit_ok_def candle_input_ok_def)
  have n: "(int k = ?n) = (k = nat ?n)" for k using l by auto
  have q: "cqChainID q = svChainID sv" "cqToken q = a" "cqLimit q = ?n" by (simp_all add: q_def candle_query_def)
  define rows where "rows = sql_ListStoredCandles (svChainID sv) a (cqInterval q) (cqFrom q) (cqTo q) after ?n d"
  have f: "candle_filters ?lib (q\<lparr>cqCursor := cur\<rparr>) = candle_filters ?lib q" by (simp add: candle_filters_def)
  have "CandleReader_List ?lib (svEnv sv) (svDeploymentID sv) (q\<lparr>cqCursor := cur\<rparr>) d =
      Inr (candle_page ?lib (q\<lparr>cqCursor := cur\<rparr>) s (map stored_candle rows))"
    using assms(7,8) l q by (simp add: CandleReader_List_def stored_intervals_def serves_read[OF assms(1)] serves_query[OF assms(1)]
        serves_token[OF assms(1,2)] f rows_def)
  moreover have "last (map stored_candle rows) = stored_candle (last rows)" if "length rows = nat ?n"
    using that l by (intro last_map) auto
  moreover have "cqInterval q \<in> set (''6h'' # ''all'' # stored_intervals)" using assms(7) by simp
  ultimately show ?thesis
    using candles_route_query[OF assms(4,3,5), where now = now, folded q_def] l
    by (simp add: candle_page_def page_body_def page_of_def n q f rows_def[symmetric] candle_cursor_def stored_candle_def Let_def)
qed

text \<open>The candle times a printed cursor can carry.\<close>

definition candles_printable :: "rdb \<Rightarrow> bool" where
  "candles_printable d \<longleftrightarrow> (\<forall>((c, t, i, start), row) \<in> set (rtCandles (dbMarket d)). time_printable start)"

lemma candles_between_printable:
  "candles_printable d \<Longrightarrow> sc \<in> set (candles_between chainID token interval fromTime toTime d) \<Longrightarrow> time_printable (fst sc)"
  by (fastforce simp: candles_printable_def candles_between_def split: if_splits)

lemma candle_cursor_accepted:
  assumes lib: "library_laws lib" and db: "serves env chainID deploymentID d s"
    and q: "cqInterval q \<in> set (''6h'' # ''all'' # stored_intervals)" and sc: "time_printable (fst sc)"
  shows "encoded_or_empty lib (candle_cursor lib q s sc) \<noteq> []"
    "parse_cursor lib (encoded_or_empty lib (candle_cursor lib q s sc)) = Inr (Some (candle_cursor lib q s sc))"
    "ValidateRequest (candle_cursor lib q s sc) ''candles'' (cqInterval q) (candle_filters lib q) ''next'' (readIdentity s) = Inr ()"
    "candle_after lib (candle_cursor lib q s sc) = Inr (fst sc)"
proof -
  have o: "cqInterval q \<noteq> []" "ascii (cqInterval q)" using q by (auto simp: stored_intervals_def ascii_def)
  have k: "[rlFormatTime lib (fst sc)] \<noteq> []" "list_all ascii [rlFormatTime lib (fst sc)]"
    using library_time[OF lib sc] by simp_all
  have f: "ascii (candle_filters lib q)" using ascii_cursorFilter[OF lib] by (simp add: candle_filters_def)
  have e: "''candles'' \<noteq> []" "ascii ''candles''" by (simp_all add: ascii_def)
  show "encoded_or_empty lib (candle_cursor lib q s sc) \<noteq> []"
    "parse_cursor lib (encoded_or_empty lib (candle_cursor lib q s sc)) = Inr (Some (candle_cursor lib q s sc))"
    "ValidateRequest (candle_cursor lib q s sc) ''candles'' (cqInterval q) (candle_filters lib q) ''next'' (readIdentity s) = Inr ()"
    unfolding candle_cursor_def using page_cursor_accepted[OF lib db e(1) o(1) k(1) e(2) o(2) k(2) f] by blast+
  show "candle_after lib (candle_cursor lib q s sc) = Inr (fst sc)"
    using library_time[OF lib sc] by (simp add: candle_after_def candle_cursor_def page_cursor_def)
qed

lemma candles_followed:
  fixes now :: int
  assumes lib: "library_laws (svLib sv)" and db: "serves (svEnv sv) (svChainID sv) (svDeploymentID sv) d s"
    and token: "sql_TokenExists (svChainID sv) a d" "parse_address (svLib sv) (ciToken i) = Inr a" and input: "candle_input_ok sv i"
  defines "q \<equiv> candle_query now sv i a"
  defines "all \<equiv> candles_between (svChainID sv) a (cqInterval q) (cqFrom q) (cqTo q) d"
  assumes interval: "cqInterval q \<in> set stored_intervals"
    and keys: "distinct (map fst (rtCandles (dbMarket d)))" "candles_printable d"
    and fuel: "length all div nat (page_limit (ciLimit i)) < k"
  shows "follow k (\<lambda>c. listing (candles_route now sv (i\<lparr>ciCursor := c\<rparr>) d)) [] = Some (Inr
    (map (\<lambda>sc. candle_dto (svLib sv) (stored_candle sc)) (sort_key fst all)))"
proof (unfold all_def, rule stored_candles.follow_all)
  let ?rows = "sort_key fst (candles_between (svChainID sv) a (cqInterval q) (cqFrom q) (cqTo q) d)"
  have iv: "cqInterval q \<in> set (''6h'' # ''all'' # stored_intervals)" using interval by simp
  note page = stored_candles_page[OF db token input, where now = now, folded q_def]
  show "distinct (map fst ?rows)" using candles_between_distinct[OF keys(1)] by (simp add: distinct_map)
  show "0 < nat (page_limit (ciLimit i))" using input by (simp add: candle_input_ok_def limit_ok_def)
  show "length ?rows div nat (page_limit (ciLimit i)) < k" using fuel by (simp add: all_def)
  show "listing (candles_route now sv (i\<lparr>ciCursor := []\<rparr>) d) =
    Inr (page_of (nat (page_limit (ciLimit i))) (\<lambda>sc. candle_dto (svLib sv) (stored_candle sc))
      (\<lambda>sc. encoded_or_empty (svLib sv) (candle_cursor (svLib sv) q s sc))
      (sql_ListStoredCandles (svChainID sv) a (cqInterval q) (cqFrom q) (cqTo q) None (int (nat (page_limit (ciLimit i)))) d))"
    by (rule page[where cur = None]) (simp_all add: parse_cursor_def cursor_position_def interval)
  fix sc assume "sc \<in> set ?rows"
  then have "time_printable (fst sc)" using candles_between_printable[OF keys(2)] by simp
  note t = candle_cursor_accepted[OF lib db iv this]
  show "encoded_or_empty (svLib sv) (candle_cursor (svLib sv) q s sc) \<noteq> [] \<and>
      listing (candles_route now sv (i\<lparr>ciCursor := encoded_or_empty (svLib sv) (candle_cursor (svLib sv) q s sc)\<rparr>) d) =
      Inr (page_of (nat (page_limit (ciLimit i))) (\<lambda>sc. candle_dto (svLib sv) (stored_candle sc))
        (\<lambda>sc. encoded_or_empty (svLib sv) (candle_cursor (svLib sv) q s sc))
        (sql_ListStoredCandles (svChainID sv) a (cqInterval q) (cqFrom q) (cqTo q) (Some (fst sc)) (int (nat (page_limit (ciLimit i)))) d))"
    using t by (intro conjI page[OF t(2) interval]) (simp_all add: cursor_position_def)
qed

section \<open>Aggregated candles\<close>

lemma aggregated_page:
  fixes now :: int
  assumes "serves (svEnv sv) (svChainID sv) (svDeploymentID sv) d s" "sql_TokenExists (svChainID sv) a d"
    and "parse_address (svLib sv) (ciToken i) = Inr a" "candle_input_ok sv i"
    and "parse_cursor (svLib sv) c = Inr cur"
  defines "q \<equiv> candle_query now sv i a"
  assumes "cqInterval q \<in> {''6h'', ''all''}"
    and "cursor_position cur (\<lambda>c. ValidateRequest c ''candles'' (cqInterval q) (candle_filters (svLib sv) q) ''next''
      (readIdentity s)) (candle_after (svLib sv)) = Inr after"
  shows "listing (candles_route now sv (i\<lparr>ciCursor := c\<rparr>) d) =
    Inr (page_of (nat (page_limit (ciLimit i))) (\<lambda>sc. candle_dto (svLib sv) (aggregated_candle (svEnv sv) sc))
      (\<lambda>sc. encoded_or_empty (svLib sv) (candle_cursor (svLib sv) q s sc))
      (sql_ListCandlesAggregated (svChainID sv) a (if cqInterval q = ''all'' then ''1d'' else ''1h'')
        (case after of None \<Rightarrow> cqFrom q | Some t \<Rightarrow> t + 1) (cqTo q) (cqInterval q) (int (nat (page_limit (ciLimit i)))) d))"
proof -
  let ?lib = "svLib sv" and ?n = "page_limit (ciLimit i)"
  have l: "1 \<le> ?n" "?n \<le> 100" using assms(4) by (simp_all add: limit_ok_def candle_input_ok_def)
  have n: "(int k = ?n) = (k = nat ?n)" for k using l by auto
  have q: "cqChainID q = svChainID sv" "cqToken q = a" "cqLimit q = ?n" by (simp_all add: q_def candle_query_def)
  define rows where "rows = sql_ListCandlesAggregated (svChainID sv) a (if cqInterval q = ''all'' then ''1d'' else ''1h'')
        (case after of None \<Rightarrow> cqFrom q | Some t \<Rightarrow> t + 1) (cqTo q) (cqInterval q) ?n d"
  have f: "candle_filters ?lib (q\<lparr>cqCursor := cur\<rparr>) = candle_filters ?lib q" by (simp add: candle_filters_def)
  have g: "\<not> cqInterval q \<in> {''1m'', ''5m'', ''1h'', ''1d''}" "\<not> (cqInterval q \<noteq> ''6h'' \<and> cqInterval q \<noteq> ''all'')"
    using assms(7) by auto
  have "CandleReader_List ?lib (svEnv sv) (svDeploymentID sv) (q\<lparr>cqCursor := cur\<rparr>) d =
      Inr (candle_page ?lib (q\<lparr>cqCursor := cur\<rparr>) s (map (aggregated_candle (svEnv sv)) rows))"
    using assms(8) l q g unfolding CandleReader_List_def ReadAggregatedCandles_def rows_def
    by (simp add: serves_read[OF assms(1)] serves_query[OF assms(1)] serves_token[OF assms(1,2)] f Let_def split: option.split)
  moreover have "cvStart (last (map (aggregated_candle (svEnv sv)) rows)) = fst (last rows)" if "length rows = nat ?n"
    using that l by (subst last_map) (auto simp: aggregated_candle_def Let_def)
  moreover have "cqInterval q \<in> set (''6h'' # ''all'' # stored_intervals)" using assms(7) by auto
  ultimately show ?thesis
    using candles_route_query[OF assms(4,3,5), where now = now, folded q_def] l
    by (simp add: candle_page_def page_body_def page_of_def n q f rows_def[symmetric] candle_cursor_def comp_def)
qed

text \<open>Within one group, the rows from a later time on are one aggregate again.\<close>

lemma remdups_constant: "xs \<noteq> [] \<Longrightarrow> \<forall>x \<in> set xs. f x = g \<Longrightarrow> remdups (map f xs) = [g]"
proof (induction xs)
  case (Cons x xs)
  then show ?case by (cases "xs = []") (auto simp: image_iff)
qed simp

lemma aggregated_single:
  assumes "\<forall>sc \<in> set (candles_between chainID a source fromTime toTime d). candle_group target (fst sc) = g"
  shows "sql_ListCandlesAggregated chainID a source fromTime toTime target 1 d =
    (let rows = candles_between chainID a source fromTime toTime d in if rows = [] then [] else [aggregate_candles rows])"
proof (cases "candles_between chainID a source fromTime toTime d = []")
  case False
  then have "remdups (map (\<lambda>sc. candle_group target (fst sc)) (candles_between chainID a source fromTime toTime d)) = [g]"
    using assms by (intro remdups_constant)
  moreover have "filter (\<lambda>sc. candle_group target (fst sc) = g) (candles_between chainID a source fromTime toTime d) =
      candles_between chainID a source fromTime toTime d"
    using assms by (simp add: filter_id_conv)
  ultimately show ?thesis using False by (simp add: sql_ListCandlesAggregated_def Let_def)
qed (simp add: sql_ListCandlesAggregated_def)

lemma candles_between_later:
  "fromTime \<le> t \<Longrightarrow> candles_between chainID a source t toTime d =
     filter (\<lambda>sc. t \<le> fst sc) (candles_between chainID a source fromTime toTime d)"
  unfolding candles_between_def by (induction "rtCandles (dbMarket d)" arbitrary: d) (auto simp: filter_concat comp_def intro!: arg_cong[where f = concat])

lemma aggregate_sorted: "sort_key fst xs = sort_key fst ys \<Longrightarrow> aggregate_candles xs = aggregate_candles ys"
  by (simp add: aggregate_candles_def)

lemma aggregate_start: "xs \<noteq> [] \<Longrightarrow> sorted (map fst xs) \<Longrightarrow> fst (aggregate_candles xs) = fst (hd xs)"
  by (simp add: aggregate_candles_def Let_def sorted_sort_id sort_key_id_if_sorted)

lemma later_suffix:
  assumes "sorted_wrt (\<lambda>a b. fst a < (fst b :: int)) (us @ v # ws)"
  shows "filter (\<lambda>sc. fst v + 1 \<le> fst sc) (us @ v # ws) = ws"
proof -
  have "\<forall>x \<in> set us. fst x < fst v" "\<forall>x \<in> set ws. fst v < fst x" using assms by (simp_all add: sorted_wrt_append)
  then have "filter (\<lambda>sc. fst v + 1 \<le> fst sc) us = []" "filter (\<lambda>sc. fst v + 1 \<le> fst sc) ws = ws"
    by (force simp: filter_empty_conv, force simp: filter_id_conv)
  then show ?thesis by simp
qed

lemma six_hour_followed:
  fixes now :: int
  assumes lib: "library_laws (svLib sv)" and db: "serves (svEnv sv) (svChainID sv) (svDeploymentID sv) d s"
    and token: "sql_TokenExists (svChainID sv) a d" "parse_address (svLib sv) (ciToken i) = Inr a" and input: "candle_input_ok sv i"
    and one: "page_limit (ciLimit i) = 1"
  defines "q \<equiv> candle_query now sv i a"
  defines "rows \<equiv> candles_between (svChainID sv) a ''1h'' (cqFrom q) (cqTo q) d"
  defines "xs \<equiv> sort_key fst rows"
  assumes interval: "cqInterval q = ''6h''" and keys: "distinct (map fst (rtCandles (dbMarket d)))" "candles_printable d"
    and g: "\<forall>sc \<in> set rows. candle_group ''6h'' (fst sc) = g"
    and vs: "xs = us @ vs" and cur: "parse_cursor (svLib sv) c = Inr cur"
    and after: "cursor_position cur (\<lambda>c. ValidateRequest c ''candles'' ''6h'' (candle_filters (svLib sv) q) ''next''
      (readIdentity s)) (candle_after (svLib sv)) = Inr after"
    and start: "cqFrom q \<le> (case after of None \<Rightarrow> cqFrom q | Some t \<Rightarrow> t + 1)"
    and rest: "filter (\<lambda>sc. (case after of None \<Rightarrow> cqFrom q | Some t \<Rightarrow> t + 1) \<le> fst sc) xs = vs"
    and fuel: "length vs < k"
  shows "follow k (\<lambda>c. listing (candles_route now sv (i\<lparr>ciCursor := c\<rparr>) d)) c = Some (Inr
    (map (\<lambda>j. candle_dto (svLib sv) (aggregated_candle (svEnv sv) (aggregate_candles (drop j vs)))) [0..<length vs]))"
  using vs cur after start rest fuel
proof (induction k arbitrary: c cur after us vs)
  case (Suc k)
  let ?from = "case after of None \<Rightarrow> cqFrom q | Some t \<Rightarrow> t + 1"
  have rows': "candles_between (svChainID sv) a ''1h'' ?from (cqTo q) d = filter (\<lambda>sc. ?from \<le> fst sc) rows"
    unfolding rows_def by (rule candles_between_later) (rule Suc.prems(4))
  have sortv: "sort_key fst (filter (\<lambda>sc. ?from \<le> fst sc) rows) = vs"
    using Suc.prems(5) by (simp add: xs_def filter_sort[symmetric])
  have strict: "sorted_wrt (\<lambda>a b. fst a < fst b) xs"
    unfolding xs_def rows_def by (rule sort_key_ascending) (rule candles_between_distinct[OF keys(1)])
  have sorted: "sorted (map fst vs)" using sortv by (metis sorted_sort_key)
  have "\<forall>sc \<in> set (candles_between (svChainID sv) a ''1h'' ?from (cqTo q) d). candle_group ''6h'' (fst sc) = g"
    using g rows' by simp
  note single = aggregated_single[OF this, unfolded rows']
  have page: "listing (candles_route now sv (i\<lparr>ciCursor := c\<rparr>) d) =
      Inr (page_of 1 (\<lambda>sc. candle_dto (svLib sv) (aggregated_candle (svEnv sv) sc))
        (\<lambda>sc. encoded_or_empty (svLib sv) (candle_cursor (svLib sv) q s sc)) (if vs = [] then [] else [aggregate_candles vs]))"
  proof -
    have "aggregate_candles (filter (\<lambda>sc. ?from \<le> fst sc) rows) = aggregate_candles vs"
      using sortv sorted by (intro aggregate_sorted) (simp add: sort_key_id_if_sorted)
    moreover have "filter (\<lambda>sc. ?from \<le> fst sc) rows = [] \<longleftrightarrow> vs = []"
      using sortv by (metis length_0_conv length_sort)
    moreover have "cqInterval q \<in> {''6h'', ''all''}" using interval by simp
    ultimately show ?thesis
      using aggregated_page[OF db token input Suc.prems(2), where now = now and after = after, folded q_def] Suc.prems(3) one single interval
      by (simp add: Let_def)
  qed
  show ?case
  proof (cases vs)
    case Nil
    then show ?thesis using page by (simp add: page_of_def)
  next
    case (Cons sc ws)
    have split: "xs = us @ sc # ws" using Suc.prems(1) Cons by simp
    have start: "fst (aggregate_candles vs) = fst sc" using aggregate_start[OF _ sorted] Cons by simp
    have "sc \<in> set rows" using split by (metis in_set_conv_decomp set_sort xs_def)
    then have t: "time_printable (fst sc)" "cqFrom q \<le> fst sc"
      using candles_between_printable[OF keys(2), of sc] by (auto simp: rows_def candles_between_def split: if_splits)
    have iv: "cqInterval q \<in> set (''6h'' # ''all'' # stored_intervals)" using interval by simp
    note cc = candle_cursor_accepted[OF lib db iv, of "aggregate_candles vs", unfolded start, OF t(1)]
    have "filter (\<lambda>x. fst sc + 1 \<le> fst x) xs = ws"
      using later_suffix[of us sc ws] strict split by simp
    then have "follow k (\<lambda>c. listing (candles_route now sv (i\<lparr>ciCursor := c\<rparr>) d))
        (encoded_or_empty (svLib sv) (candle_cursor (svLib sv) q s (aggregate_candles vs))) = Some (Inr
        (map (\<lambda>j. candle_dto (svLib sv) (aggregated_candle (svEnv sv) (aggregate_candles (drop j ws)))) [0..<length ws]))"
      using Suc.IH[of "us @ [sc]" ws _ "Some (candle_cursor (svLib sv) q s (aggregate_candles vs))" "Some (fst sc)"]
        split cc t(2) interval Suc.prems(6) Cons by (simp add: cursor_position_def)
    moreover have "[0..<length vs] = 0 # map Suc [0..<length ws]"
      using Cons by (simp add: upt_conv_Cons map_Suc_upt del: upt_Suc)
    ultimately show ?thesis using page cc(1) Cons by (simp add: page_of_def comp_def del: upt_Suc)
  qed
qed simp

end
