(* ===== verification/Quote_Routes.thy ===== *)
theory Quote_Routes
  imports Read_Paging
begin

text \<open>
  The quote route (\<^verbatim>\<open>apiserver/quote_routes.go\<close>) over the reader of the quote state, and the remaining
  public routes: token detail, protocol statistics and their daily listing. What the quote state reads
  from the ledger is compared with the curve replayed from its events.
\<close>

section \<open>The quote route\<close>

record quoteInput =
  qiToken :: string
  qiSide :: string
  qiAmount :: string

record quoteBody =
  qbInput :: string
  qbOutput :: string
  qbProtocolFee :: string
  qbCreatorFee :: string
  qbRefund :: string
  qbGraduates :: bool
  qbNextVirtualETH :: string
  qbNextVirtualToken :: string
  qbAsOfBlock :: int
  qbFinality :: string
  qbReserveSourceBlock :: int
  qbReserveSourceHash :: string
  qbInformational :: bool

text \<open>The message of a read error, by which the quote service passes it on.\<close>

definition read_error_text :: "read_error \<Rightarrow> string" where
  "read_error_text e = (case e of
       TokenNotFound \<Rightarrow> ''token not found''
     | SnapshotUnavailable m \<Rightarrow> ''canonical read snapshot is not available: '' @ m
     | InvalidCursor m \<Rightarrow> ''invalid cursor: '' @ m
     | CursorInvalidated \<Rightarrow> ''cursor snapshot is no longer canonical''
     | ContextCanceled \<Rightarrow> ''context canceled''
     | ReadFailure m \<Rightarrow> ''read: '' @ m)"

definition quote_reader :: "server \<Rightarrow> rdb \<Rightarrow> int \<Rightarrow> Address \<Rightarrow> string + QuoteState" where
  "quote_reader sv d chainID a = map_sum read_error_text id (ReadQuoteState (svEnv sv) (svDeploymentID sv) chainID a d)"

definition quote_problem :: "string \<Rightarrow> quote_error \<Rightarrow> api_error" where
  "quote_problem requestID e =
     (if e = ReadError ''token not found'' then apiProblem 404 ''token_not_found'' ''Token not found''
      else if (case e of CurveError (ErrWrongPhase _ _) \<Rightarrow> True | _ \<Rightarrow> False) then apiProblem 409 ''wrong_phase'' ''Token is not in curve phase''
      else if (case e of CurveError (ErrOversell _ _) \<Rightarrow> True | _ \<Rightarrow> False) then apiProblem 422 ''oversell'' ''Sell amount exceeds sold supply''
      else if e = CurveError ErrZeroInput then apiProblem 400 ''zero_input'' ''Amount must be greater than zero''
      else if e = CurveError ErrZeroOutput then apiProblem 422 ''zero_output'' ''Quote output is zero''
      else apiRequestProblem requestID 500 ''quote_failed'' ''Quote could not be computed'')"

definition quote_body :: "read_library \<Rightarrow> Result \<Rightarrow> quoteBody" where
  "quote_body lib q = \<lparr>qbInput = decimal (Some (qrInput q)), qbOutput = decimal (Some (qrOutput q)),
     qbProtocolFee = decimal (Some (qrProtocolFee q)), qbCreatorFee = decimal (Some (qrCreatorFee q)),
     qbRefund = decimal (Some (qrRefund q)), qbGraduates = qrGraduates q,
     qbNextVirtualETH = decimal (qrNextVirtualETH q), qbNextVirtualToken = decimal (qrNextVirtualToken q),
     qbAsOfBlock = qrAsOfBlock q, qbFinality = qrFinality q, qbReserveSourceBlock = qrReserveSourceBlock q,
     qbReserveSourceHash = rlHashHex lib (qrReserveSourceHash q), qbInformational = True\<rparr>"

definition quote_route :: "server \<Rightarrow> quoteInput \<Rightarrow> rdb \<Rightarrow> api_error + quoteBody" where
  "quote_route sv i d =
     rbind (parse_address (svLib sv) (qiToken i)) (\<lambda>a.
     case parseCanonicalUint256 (qiAmount i) of
       Inl _ \<Rightarrow> Inl (HumaError 400 ''amount must be a canonical uint256'')
     | Inr n \<Rightarrow>
       if qiSide i \<noteq> ''buy'' \<and> qiSide i \<noteq> ''sell'' then Inl (HumaError 400 ''side must be buy or sell'')
       else map_sum (quote_problem (svRequestID sv)) (quote_body (svLib sv))
         (Quote (quote_reader sv d) (svChainID sv) a (qiSide i = ''buy'') (Some n)))"

section \<open>Detail and statistics\<close>

record tokenDetailDTO =
  djSnapshot :: snapshotDTO
  djCard :: tokenDTO
  djCurve :: string
  djPair :: string
  djWETH :: string
  djCreator :: string
  djProtocolTreasury :: string
  djEngineVersion :: "16 word"
  djAmounts :: "(string \<times> string) list"
  djTradeFeeBPS :: "16 word"
  djProtocolShareBPS :: "16 word"
  djReserveSource :: string
  djGraduationProgressBPS :: int
  djReserveBlock :: int
  djReserveHash :: string
  djTexts :: "string list"
  djATHAt :: string
  djPriceChange24hBPS :: int

text \<open>Decimal amounts are listed by the JSON name of their field.\<close>

definition detail_amounts :: "TokenDetail \<Rightarrow> (string \<times> string) list" where
  "detail_amounts v = map (\<lambda>(name, n). (name, decimal (Some n)))
     [(''total_supply'', smTotalSupply v), (''initial_virtual_eth'', tkInitialVirtualETH v),
      (''initial_virtual_token'', tkInitialVirtualToken v), (''curve_tokens'', tkCurveTokens v), (''lp_tokens'', tkLPTokens v),
      (''graduation_eth'', tkGraduationETH v), (''eth_reserve'', tkETHReserve v), (''token_reserve'', tkTokenReserve v),
      (''real_curve_eth'', tkRealCurveETH v), (''spot_price_eth'', tkSpotPriceETH v), (''market_cap_eth'', smMarketCapETH v),
      (''fdv_eth'', tkFDVETH v), (''liquidity_eth'', tkLiquidityETH v), (''ath_price_eth'', tkATHPriceETH v),
      (''volume_24h_eth'', smVolume24hETH v)]"

definition detail_dto :: "(int \<Rightarrow> string) \<Rightarrow> read_library \<Rightarrow> TokenDetail \<Rightarrow> tokenDetailDTO" where
  "detail_dto printMicros lib v = \<lparr>djSnapshot = snapDTO lib (tkSnapshot v) (tkFinality v),
     djCard = token_dto printMicros lib (Summary.truncate v), djCurve = rlAddressHex lib (tkCurve v), djPair = rlAddressHex lib (tkPair v),
     djWETH = rlAddressHex lib (tkWETH v), djCreator = rlAddressHex lib (tkCreator v),
     djProtocolTreasury = rlAddressHex lib (tkProtocolTreasury v), djEngineVersion = tkEngineVersion v,
     djAmounts = detail_amounts v, djTradeFeeBPS = tkTradeFeeBPS v, djProtocolShareBPS = tkProtocolShareBPS v,
     djReserveSource = tkReserveSource v, djGraduationProgressBPS = tkGraduationProgressBPS v, djReserveBlock = tkReserveBlock v,
     djReserveHash = rlHashHex lib (tkReserveHash v),
     djTexts = [tkDescription v, tkImageURL v, tkXURL v, tkTelegramURL v], djATHAt = rlFormatTime lib (tkATHAt v),
     djPriceChange24hBPS = tkPriceChange24hBPS v\<rparr>"

definition detail_route :: "(int \<Rightarrow> string) \<Rightarrow> server \<Rightarrow> string \<Rightarrow> rdb \<Rightarrow> api_error + tokenDetailDTO" where
  "detail_route printMicros sv token d =
     rbind (parse_address (svLib sv) token) (\<lambda>a.
     map_sum (mapReadError (svRequestID sv)) (detail_dto printMicros (svLib sv))
       (TokenReader_Get (svEnv sv) (svDeploymentID sv) (svChainID sv) a d))"

record protocolDTO =
  pjSnapshot :: snapshotDTO
  pjVolume24h :: string
  pjVolumeAllTime :: string
  pjLaunches24h :: int
  pjLaunchesAllTime :: int
  pjTrades24h :: int
  pjTradesAllTime :: int
  pjGraduations24h :: int
  pjGraduationsAllTime :: int
  pjUpdatedAt :: string

definition protocol_route :: "server \<Rightarrow> rdb \<Rightarrow> api_error + protocolDTO" where
  "protocol_route sv d = map_sum (mapReadError (svRequestID sv)) (\<lambda>v. let r = psRow v in
     \<lparr>pjSnapshot = snapDTO (svLib sv) (psSnapshot v) (psFinality v), pjVolume24h = decimal (Some (prVolume24h r)),
      pjVolumeAllTime = decimal (Some (prVolumeAllTime r)), pjLaunches24h = prLaunches24h r, pjLaunchesAllTime = prLaunchesAllTime r,
      pjTrades24h = prTrades24h r, pjTradesAllTime = prTradesAllTime r, pjGraduations24h = prGraduations24h r,
      pjGraduationsAllTime = prGraduationsAllTime r, pjUpdatedAt = rlFormatTime (svLib sv) (prUpdatedAt r)\<rparr>)
     (ReadProtocol (svEnv sv) (svDeploymentID sv) (svChainID sv) d)"

text \<open>Dates are read and printed in the layout of a day; \<open>parseDay\<close> and \<open>printDay\<close> are that layout.\<close>

definition dailyRange :: "(string \<Rightarrow> int option) \<Rightarrow> int \<Rightarrow> string \<Rightarrow> string \<Rightarrow> string + int \<times> int" where
  "dailyRange parseDay now fromValue toValue =
     rbind (if fromValue = [] then Inr (day_of now - 29)
            else case parseDay fromValue of None \<Rightarrow> Inl ''from must be an ISO date (YYYY-MM-DD)'' | Some t \<Rightarrow> Inr t) (\<lambda>f.
     rbind (if toValue = [] then Inr (day_of now)
            else case parseDay toValue of None \<Rightarrow> Inl ''to must be an ISO date (YYYY-MM-DD)'' | Some t \<Rightarrow> Inr t) (\<lambda>t.
     if t < f \<or> 365 < t - f then Inl ''date range must be ordered and no longer than 366 days'' else Inr (f, t)))"

record protocolDailyBody =
  ljSnapshot :: snapshotDTO
  ljItems :: "(string \<times> string \<times> int \<times> int \<times> int) list"

definition protocolDaily_route ::
    "(string \<Rightarrow> int option) \<Rightarrow> (int \<Rightarrow> string) \<Rightarrow> int \<Rightarrow> server \<Rightarrow> string \<Rightarrow> string \<Rightarrow> int \<Rightarrow> rdb \<Rightarrow> api_error + protocolDailyBody" where
  "protocolDaily_route parseDay printDay now sv fromValue toValue limit d =
     rbind (map_sum (\<lambda>e. apiProblem 400 ''invalid_range'' e) id (dailyRange parseDay now fromValue toValue)) (\<lambda>(f, t).
     map_sum (mapReadError (svRequestID sv)) (\<lambda>v. \<lparr>ljSnapshot = snapDTO (svLib sv) (dpSnapshot v) (dpFinality v),
         ljItems = map (\<lambda>(dy, r). (printDay dy, decimal (Some (dyVolume r)), dyLaunches r, dyTrades r, dyGraduations r)) (dpItems v)\<rparr>)
       (ReadProtocolDaily (svEnv sv) (svDeploymentID sv) (svChainID sv) (f * micros day) (t * micros day)
         (if limit = 0 then 366 else limit) d))"

section \<open>The curve replayed from its events\<close>

text \<open>What one stored event of the token does to the state of its curve.\<close>

definition replay_payload :: "Address \<Rightarrow> ledger_payload \<Rightarrow> Curve_Math.State \<Rightarrow> Curve_Math.State" where
  "replay_payload token p s = (case p of
       LTrade t _ _ _ _ _ pfee cfee neweth newtoken \<Rightarrow> if t = token then
         s\<lparr>virtualETH := neweth, virtualToken := newtoken, protocolFees := Some (sPF s + the pfee),
           creatorFees := Some (sCF s + the cfee)\<rparr> else s
     | LProtocolFeeClaim t _ amount \<Rightarrow> if t = token then s\<lparr>protocolFees := Some (sPF s - the amount)\<rparr> else s
     | LCreatorFeeClaim t _ amount \<Rightarrow> if t = token then s\<lparr>creatorFees := Some (sCF s - the amount)\<rparr> else s
     | _ \<Rightarrow> s)"

definition chain_payloads :: "int \<Rightarrow> rdb \<Rightarrow> ledger_payload list" where
  "chain_payloads chainID d = map lePayload (filter (\<lambda>e. ecChainID (leCoordinates e) = chainID) (dbEvents d))"

definition replayed :: "int \<Rightarrow> Address \<Rightarrow> Parameters \<Rightarrow> rdb \<Rightarrow> Curve_Math.State" where
  "replayed chainID token p d = fold (replay_payload token) (chain_payloads chainID d) (launch_state p)"

text \<open>The reserves of the last trade, which the reserve row of a curve token holds.\<close>

definition traded_reserves :: "Address \<Rightarrow> ledger_payload \<Rightarrow> (bigptr \<times> bigptr) option \<Rightarrow> (bigptr \<times> bigptr) option" where
  "traded_reserves token p r = (case p of
       LTrade t _ _ _ _ _ _ _ neweth newtoken \<Rightarrow> if t = token then Some (neweth, newtoken) else r
     | _ \<Rightarrow> r)"

definition reserve_current :: "rdb \<Rightarrow> token_row \<Rightarrow> bool" where
  "reserve_current d r \<longleftrightarrow>
     map_option (\<lambda>v. (Some (rrEth v), Some (rrToken v))) (map_of (rtReserves (dbMarket d)) (token_row_key r))
     = fold (traded_reserves (tlToken (trLaunched r))) (chain_payloads (trChainID r) d) None"

definition launched_with :: "Parameters \<Rightarrow> TokenLaunched \<Rightarrow> bool" where
  "launched_with p l \<longleftrightarrow> tlTotalSupply l = totalSupply p \<and> tlCurveTokens l = curveTokens p \<and> tlLPTokens l = lpTokens p
     \<and> tlGraduationETH l = graduationETH p \<and> tlVirtualETH l = initialVirtualETH p \<and> tlVirtualToken l = initialVirtualToken p
     \<and> tlTradeFeeBPS l = tradeFeeBPS p \<and> tlProtocolShareBPS l = protocolShareBPS p"

lemma replay_phase: "phase (fold (replay_payload token) ps s) = phase s"
proof (induction ps arbitrary: s)
  case (Cons x ps)
  have "phase (replay_payload token x s) = phase s" by (simp add: replay_payload_def split: ledger_payload.split)
  then show ?case using Cons.IH by simp
qed simp

definition payload_sum :: "(ledger_payload \<Rightarrow> int) \<Rightarrow> ledger_payload list \<Rightarrow> int" where
  "payload_sum f ps = sum_list (map f ps)"

lemma payload_sum_simps [simp]: "payload_sum f [] = 0" "payload_sum f (x # ps) = f x + payload_sum f ps"
  by (simp_all add: payload_sum_def)

lemma event_sum_payloads: "event_sum f chainID d = payload_sum f (chain_payloads chainID d)"
  by (simp add: event_sum_def payload_sum_def chain_payloads_def comp_def)

lemma replay_fees:
  "sPF (fold (replay_payload token) ps s) = sPF s
     + payload_sum (\<lambda>p. case p of LTrade t _ _ _ _ _ fee _ _ _ \<Rightarrow> if t = token then the fee else 0 | _ \<Rightarrow> 0) ps
     - payload_sum (\<lambda>p. case p of LProtocolFeeClaim t _ amount \<Rightarrow> if t = token then the amount else 0 | _ \<Rightarrow> 0) ps"
  "sCF (fold (replay_payload token) ps s) = sCF s
     + payload_sum (\<lambda>p. case p of LTrade t _ _ _ _ _ _ fee _ _ \<Rightarrow> if t = token then the fee else 0 | _ \<Rightarrow> 0) ps
     - payload_sum (\<lambda>p. case p of LCreatorFeeClaim t _ amount \<Rightarrow> if t = token then the amount else 0 | _ \<Rightarrow> 0) ps"
  by (induction ps arbitrary: s) (simp_all add: replay_payload_def split: ledger_payload.split)

lemma traded_reserves_replay:
  "fold (traded_reserves token) ps (Some (virtualETH s, virtualToken s)) =
     Some (virtualETH (fold (replay_payload token) ps s), virtualToken (fold (replay_payload token) ps s))"
proof (induction ps arbitrary: s)
  case (Cons x ps)
  have "traded_reserves token x (Some (virtualETH s, virtualToken s)) =
      Some (virtualETH (replay_payload token x s), virtualToken (replay_payload token x s))"
    by (simp add: replay_payload_def traded_reserves_def split: ledger_payload.split)
  then show ?case using Cons.IH by simp
qed simp

lemma traded_reserves_start:
  "fold (traded_reserves token) ps r = (case fold (traded_reserves token) ps None of None \<Rightarrow> r | Some k \<Rightarrow> Some k)"
proof (induction ps rule: rev_induct)
  case (snoc x ps)
  then show ?case by (cases "fold (traded_reserves token) ps None")
      (auto simp: traded_reserves_def split: ledger_payload.split)
qed simp

lemma replay_reserves:
  "Some (virtualETH (fold (replay_payload token) ps s), virtualToken (fold (replay_payload token) ps s)) =
     (case fold (traded_reserves token) ps None of None \<Rightarrow> Some (virtualETH s, virtualToken s) | Some k \<Rightarrow> Some k)"
  using traded_reserves_replay[of token ps s] traded_reserves_start[of token ps "Some (virtualETH s, virtualToken s)"] by simp

section \<open>Numerics in any scale\<close>

lemma big_Quo_mult: "0 < k \<Longrightarrow> big_Quo (n * k) k = n"
  by (auto simp: big_Quo_def signed_divide_int_def abs_mult sgn_mult) (auto simp: sgn_if)

lemma numericBigWithExponent_exact: "numeric_stands_for v n \<Longrightarrow> numericBigWithExponent v exact = Inr n"
  by (auto simp: numeric_stands_for_def numericBigWithExponent_def Let_def big_Quo_mult split: option.splits if_splits)

lemma numericBig_exact: "numeric_stands_for v n \<Longrightarrow> numericBig v = n"
  by (simp add: numericBig_def numericBigWithExponent_exact)

lemma candleNumeric_exact:
  assumes "numeric_stands_for v n"
  shows "candleNumeric v = n \<longleftrightarrow> n = 0 \<or> nuExp v = 0"
proof -
  have "(10 :: int) ^ k = 1 \<longleftrightarrow> k = 0" for k using power_inject_exp[of "10 :: int" k 0] by simp
  then show ?thesis using assms by (auto simp: numeric_stands_for_def candleNumeric_def split: option.splits if_splits)
qed

section \<open>The quote state\<close>

lemma quote_row_describes:
  assumes "\<forall>n. numeric_stands_for (reNumeric env n) n" "trGraduation r = None" "launched_with p (trLaunched r)"
    and "valid_parameters p" "reserve_current d r" "curve_inv p (replayed (trChainID r) (tlToken (trLaunched r)) p d)"
  shows "describes (quote_row env d s r) p (replayed (trChainID r) (tlToken (trLaunched r)) p d)"
proof -
  let ?t = "tlToken (trLaunched r)"
  let ?s = "replayed (trChainID r) ?t p d"
  have u: "state_uint256 ?s" using assms(6) by (simp add: curve_inv_def)
  then have ge: "0 \<le> sPF ?s" "0 \<le> sCF ?s" by (auto simp: state_uint256_def is_uint256_iff)
  have l: "sPF (launch_state p) = 0" "sCF (launch_state p) = 0" by (simp_all add: launch_state_def)
  note f = replay_fees[of ?t "chain_payloads (trChainID r) d" "launch_state p", folded replayed_def, unfolded l add_0]
  have fees: "protocol_fee_open (trChainID r) ?t d = sPF ?s" "creator_fee_open (trChainID r) ?t d = sCF ?s"
    unfolding protocol_fee_open_def creator_fee_open_def event_sum_payloads f[symmetric] using ge by simp_all
  have v: "initialVirtualETH p = Some (pE0 p)" "initialVirtualToken p = Some (pT0 p)"
    using valid_parameters_facts(12)[OF assms(4)] by (auto simp: params_uint256_def is_uint256_iff)
  have "Some (virtualETH ?s, virtualToken ?s) = Some (Some (rrEth (token_reserve d r)), Some (rrToken (token_reserve d r)))"
    using assms(3,5) v
      replay_reserves[of ?t "chain_payloads (trChainID r) d" "launch_state p"]
    by (auto simp: replayed_def token_reserve_def reserve_current_def launched_with_def split: option.splits)
  then show ?thesis
    using assms(1-3) u fees by (auto simp: describes_def quote_row_def Let_def launched_with_def token_phase_def token_row_key_def
        numericBig_exact replayed_def replay_phase PhaseCurve_def state_uint256_def is_uint256_iff)
qed

lemma ReadQuoteState_serves:
  assumes "serves env chainID deploymentID d s" "find_token chainID a d = Some r"
  shows "ReadQuoteState env deploymentID chainID a d = Inr (quote_row env d s r)"
  using assms by (simp add: ReadQuoteState_def serves_read[OF assms(1)] serves_query[OF assms(1)])

lemma find_token_key: "find_token chainID a d = Some r \<Longrightarrow> trChainID r = chainID \<and> tlToken (trLaunched r) = a"
  by (auto simp: find_token_def find_Some_iff token_row_key_def)

text \<open>A token whose stored launch, events and reserves describe a curve within its invariant.\<close>

definition quotable :: "read_env \<Rightarrow> int \<Rightarrow> Address \<Rightarrow> Parameters \<Rightarrow> rdb \<Rightarrow> bool" where
  "quotable env chainID a p d \<longleftrightarrow> (\<forall>n. numeric_stands_for (reNumeric env n) n) \<and> valid_parameters p
     \<and> (case find_token chainID a d of None \<Rightarrow> False | Some r \<Rightarrow>
          trGraduation r = None \<and> launched_with p (trLaunched r) \<and> reserve_current d r)
     \<and> curve_inv p (replayed chainID a p d)"

lemma quotable_reader:
  assumes "serves (svEnv sv) (svChainID sv) (svDeploymentID sv) d s" "quotable (svEnv sv) (svChainID sv) a p d"
  obtains st where "quote_reader sv d (svChainID sv) a = Inr st" "describes st p (replayed (svChainID sv) a p d)"
    "valid_parameters p" "curve_inv p (replayed (svChainID sv) a p d)" "phase (replayed (svChainID sv) a p d) = PhaseCurve"
    "dtSnapshotBlock (qsDetail st) = snBlockNumber (readIdentity s)"
proof -
  obtain r where r: "find_token (svChainID sv) a d = Some r" "trGraduation r = None" "launched_with p (trLaunched r)" "reserve_current d r"
    and p: "\<forall>n. numeric_stands_for (reNumeric (svEnv sv) n) n" "valid_parameters p" "curve_inv p (replayed (svChainID sv) a p d)"
    using assms(2) by (auto simp: quotable_def split: option.splits)
  have k: "trChainID r = svChainID sv" "tlToken (trLaunched r) = a" using find_token_key[OF r(1)] by simp_all
  show ?thesis
  proof (rule that)
    show "quote_reader sv d (svChainID sv) a = Inr (quote_row (svEnv sv) d s r)"
      using ReadQuoteState_serves[OF assms(1) r(1)] by (simp add: quote_reader_def)
    show "describes (quote_row (svEnv sv) d s r) p (replayed (svChainID sv) a p d)"
      using quote_row_describes[OF p(1) r(2,3) p(2) r(4), unfolded k, OF p(3)] .
    show "phase (replayed (svChainID sv) a p d) = PhaseCurve" by (simp add: replayed_def replay_phase)
    show "dtSnapshotBlock (qsDetail (quote_row (svEnv sv) d s r)) = snBlockNumber (readIdentity s)"
      by (simp add: quote_row_def Let_def)
  qed (rule p)+
qed

end
