(* ===== verification/Read_Properties.thy ===== *)
theory Read_Properties
  imports Quote_Routes
begin

text \<open>
  The properties of the read routes, with a concrete library and database on which their hypotheses
  hold.
\<close>

section \<open>A concrete library and database\<close>

text \<open>Cursors as length-prefixed texts, addresses and times as decimal numbers.\<close>

fun netstrings :: "nat \<Rightarrow> string \<Rightarrow> string list option" where
  "netstrings 0 s = None"
| "netstrings (Suc k) s =
     (if s = [] then Some []
      else case (unsigned_decimal (takeWhile is_decimal s), dropWhile is_decimal s) of
        (Some n, c # rest) \<Rightarrow> if c = CHR '':'' \<and> n \<le> length rest
          then map_option ((#) (take n rest)) (netstrings k (drop n rest)) else None
      | _ \<Rightarrow> None)"

definition demo_marshal :: "Cursor \<Rightarrow> string + string" where
  "demo_marshal c = Inr (filter_text ([FormatInt (cuVersion c), FormatInt (snChainID (cuSnapshot c)),
     FormatInt (snBlockNumber (cuSnapshot c)), FormatInt (uint (snBlockHash (cuSnapshot c))), cuEndpoint c, cuSort c,
     cuFilters c, cuDirection c] @ cuKey c))"

definition demo_decode :: "string \<Rightarrow> string + Cursor \<times> string" where
  "demo_decode b = (case netstrings (Suc (length b)) b of
       Some (v # ch # n # h # e # ord # f # dir # key) \<Rightarrow>
         Inr (\<lparr>cuVersion = the (SetString v), cuSnapshot = \<lparr>snChainID = the (SetString ch), snBlockNumber = the (SetString n),
                snBlockHash = word_of_int (the (SetString h))\<rparr>,
               cuEndpoint = e, cuSort = ord, cuFilters = f, cuDirection = dir, cuKey = key\<rparr>, [])
     | _ \<Rightarrow> Inl ''json'')"

definition demo_lib :: read_library where
  "demo_lib = \<lparr>rlIsHexAddress = (\<lambda>s. SetString s \<noteq> None), rlHexToAddress = (\<lambda>s. word_of_int (the (SetString s))),
     rlAddressHex = (\<lambda>a. FormatInt (uint a)), rlHashHex = (\<lambda>h. FormatInt (uint h)), rlMarshal = demo_marshal,
     rlDecode = demo_decode, rlAtEOF = (\<lambda>s. s = []), rlSha256Hex = filter (\<lambda>c. (of_char c :: nat) < 128),
     rlFormatTime = FormatInt, rlParseTime = SetString, rlToLower = id, rlTrimSpace = id, rlSqlLower = id\<rparr>"

lemma netstrings_filter_text: "length ps < k \<Longrightarrow> netstrings k (filter_text ps) = Some ps"
proof (induction ps arbitrary: k)
  case Nil
  then show ?case by (cases k) (auto simp: filter_text_def)
next
  case (Cons p ps)
  then obtain j where k: "k = Suc j" "length ps < j" by (cases k) auto
  have eq: "filter_text (p # ps) = nat_digits (length p) @ CHR '':'' # (p @ filter_text ps)"
    by (simp add: filter_text_def FormatInt_def)
  have d: "\<forall>c \<in> set (nat_digits (length p)). is_decimal c" using nat_digits_decimal[of "length p"] by (simp add: list_all_iff)
  have "\<not> is_decimal (CHR '':'')" by (simp add: is_decimal_def)
  then have "takeWhile is_decimal (filter_text (p # ps)) = nat_digits (length p)"
    "dropWhile is_decimal (filter_text (p # ps)) = CHR '':'' # (p @ filter_text ps)"
    using d by (simp_all add: eq takeWhile_append2 dropWhile_append2)
  moreover have "filter_text (p # ps) \<noteq> []" by (simp add: eq)
  ultimately show ?case using Cons.IH[OF k(2)] by (simp add: k(1))
qed

lemma filter_text_length: "length ps \<le> length (filter_text ps)"
  by (induction ps) (auto simp: filter_text_def)

lemma demo_lib_laws: "library_laws demo_lib"
proof -
  have "demo_decode (filter_text ps) = (case ps of
       (v # ch # n # h # e # ord # f # dir # key) \<Rightarrow>
         Inr (\<lparr>cuVersion = the (SetString v), cuSnapshot = \<lparr>snChainID = the (SetString ch), snBlockNumber = the (SetString n),
                snBlockHash = word_of_int (the (SetString h))\<rparr>,
               cuEndpoint = e, cuSort = ord, cuFilters = f, cuDirection = dir, cuKey = key\<rparr>, [])
     | _ \<Rightarrow> Inl ''json'')" for ps
    using filter_text_length[of ps] by (simp add: demo_decode_def netstrings_filter_text del: netstrings.simps)
  then have "\<exists>b. demo_marshal c = Inr b \<and> b \<noteq> [] \<and> demo_decode b = Inr (c, [])" for c
    by (simp add: demo_marshal_def) (simp add: filter_text_def FormatInt_def)
  then show ?thesis
    by (auto simp: library_laws_def demo_lib_def ascii_FormatInt) (auto simp: ascii_def list_all_iff)
qed

definition demo_env :: read_env where
  "demo_env = \<lparr>rePool = True, reBegin = None, reFails = (\<lambda>_. None), reContext = None, reQuo = (div),
     reNumeric = (\<lambda>n. \<lparr>nuInt = Some n, nuExp = 0, nuNaN = False, nuInfinityModifier = Finite, nuValid = True\<rparr>)\<rparr>"

definition demo_server :: server where
  "demo_server = \<lparr>svLib = demo_lib, svEnv = demo_env, svChainID = 1, svDeploymentID = ''demo'', svRequestID = ''r1''\<rparr>"

definition demo_coordinates :: "int \<Rightarrow> EventCoordinates" where
  "demo_coordinates n = \<lparr>ecChainID = 1, ecBlockNumber = n, ecBlockHash = 5, ecBlockTime = 100, ecTransactionIndex = 0,
     ecTxHash = word_of_int n, ecLogIndex = 2\<rparr>"

definition demo_token_row :: "Address \<Rightarrow> int \<Rightarrow> token_row" where
  "demo_token_row token n = \<lparr>trChainID = 1, trLaunch = demo_coordinates n,
     trLaunched = \<lparr>tlToken = token, tlCurve = 8, tlCreator = 9, tlLPPair = 10, tlWETH = 11, tlProtocolTreasury = 12,
       tlEngineVersion = 1, tlName = ''a'', tlSymbol = ''b'', tlTotalSupply = Some 100, tlVirtualETH = Some 5,
       tlVirtualToken = Some 50, tlCurveTokens = Some 40, tlLPTokens = Some 10, tlGraduationETH = Some 20,
       tlLaunchFeePaid = Some 0, tlTradeFeeBPS = 100, tlProtocolShareBPS = 5000\<rparr>, trGraduation = None\<rparr>"

definition demo_trade :: "int \<Rightarrow> ledger_event" where
  "demo_trade n = \<lparr>leCoordinates = demo_coordinates n,
     lePayload = LTrade 7 20 True (Some 6) (Some 0) (Some 3) (Some 0) (Some 0) (Some 11) (Some 47)\<rparr>"

definition demo_block :: "int \<Rightarrow> IndexedBlock" where
  "demo_block n = \<lparr>ibChainID = 1, ibBlockNumber = n, ibBlockHash = 5, ibParentHash = 4, ibBlockTime = 100,
     ibFinalityStatus = ''safe''\<rparr>"

definition demo_state :: SyncState where
  "demo_state = \<lparr>syChainID = 1, syDeploymentID = ''demo'', syObserved = Some (9, 5, 100), sySafe = Some (4, 5, 100), syFinalized = None\<rparr>"

definition demo_candle :: candle_row where
  "demo_candle = \<lparr>caOpen = 2, caHigh = 3, caLow = 1, caClose = 2, caEth = 10, caToken = 5, caCount = 1\<rparr>"

definition demo_db :: rdb where
  "demo_db = \<lparr>dbBlocks = [demo_block 3, demo_block 4], dbSync = [demo_state], dbEvents = [demo_trade 3, demo_trade 4],
     dbTokens = [demo_token_row 7 1, demo_token_row 6 2], dbDirty = [], dbDirtySeq = 0, dbReorgs = [], dbReorgSeq = 0,
     dbMarket = \<lparr>rtReserves = [], rtHolders = [((1, 7, 21), \<lparr>hoBalance = 4, hoFirstAcquired = Some 3\<rparr>),
         ((1, 7, 22), \<lparr>hoBalance = 9, hoFirstAcquired = Some 4\<rparr>)],
       rtCandles = [((1, 7, ''1h'', 0), demo_candle), ((1, 7, ''1h'', 3600000000), demo_candle),
         ((1, 7, ''1h'', 7200000000), demo_candle)],
       rtStats = [], rtMetadata = [], rtImages = [], rtProtocol = [], rtDaily = []\<rparr>\<rparr>"

definition demo_snapshot :: ReadSnapshot where
  "demo_snapshot = \<lparr>readIdentity = \<lparr>snChainID = 1, snBlockNumber = 9, snBlockHash = 5\<rparr>, readState = demo_state\<rparr>"

lemmas demo_defs = demo_server_def demo_env_def demo_db_def demo_state_def demo_snapshot_def

lemma demo_serves: "serves demo_env 1 ''demo'' demo_db demo_snapshot"
  by (simp add: serves_def demo_defs sql_GetSyncState_def sync_key_def observedIdentity_def)

lemma demo_token: "sql_TokenExists 1 7 demo_db"
  by (simp add: sql_TokenExists_def demo_db_def demo_token_row_def)

lemma demo_address: "parse_address demo_lib (FormatInt 7) = Inr 7"
  by (simp add: parse_address_def demo_lib_def)

lemma demo_server_fields [simp]:
  "svLib demo_server = demo_lib" "svEnv demo_server = demo_env" "svChainID demo_server = 1"
  "svDeploymentID demo_server = ''demo''" "svRequestID demo_server = ''r1''"
  by (simp_all add: demo_server_def)

section \<open>Complete listings\<close>

text \<open>
  C18: Following the cursors of the token listing returns every token of the phase that matches the
  search exactly once, in the order of the sort: for each of the four sorts and any page size, a client
  that starts without a cursor and sends back each returned cursor receives, over an unchanged
  database, the whole sorted listing, and needs no more requests than there are full pages and one.
\<close>

theorem token_pages_complete:
  assumes "library_laws (svLib sv)" "serves (svEnv sv) (svChainID sv) (svDeploymentID sv) d s"
    and "input_sort i \<in> set card_sorts" "input_phase i \<in> {''curve'', ''graduated''}" "limit_ok (tiLimit i)"
    and "distinct (map token_row_key (dbTokens d))" "\<forall>v \<in> set (listed_cards sv i d). card_fits v"
    and "length (listed_cards sv i d) div nat (page_limit (tiLimit i)) < k"
  shows "follow k (\<lambda>c. listing (tokens_route printMicros sv (i\<lparr>tiCursor := c\<rparr>) d)) [] = Some (Inr
    (map (token_dto printMicros (svLib sv)) (ordered_cards (input_sort i) (listed_cards sv i d))))"
  by (rule tokens_followed[OF assms])

definition demo_tokens_input :: tokenListInput where
  "demo_tokens_input = \<lparr>tiPhase = [], tiQuery = [], tiSort = ''oldest'', tiCursor = [], tiLimit = 1\<rparr>"

lemma demo_listed: "listed_cards demo_server demo_tokens_input demo_db =
    [reflectCard demo_db (demo_token_row 7 1), reflectCard demo_db (demo_token_row 6 2)]"
  by (simp add: listed_cards_def token_cards_def demo_tokens_input_def input_phase_def search_text_def demo_lib_def
      search_matches_def demo_db_def demo_token_row_def token_phase_def)

lemma token_pages_complete_witness:
  "follow 3 (\<lambda>c. listing (tokens_route FormatInt demo_server (demo_tokens_input\<lparr>tiCursor := c\<rparr>) demo_db)) [] = Some (Inr
    (map (token_dto FormatInt demo_lib) [reflectCard demo_db (demo_token_row 7 1), reflectCard demo_db (demo_token_row 6 2)]))"
proof -
  have c: "card_fits (reflectCard demo_db (demo_token_row t n))" if "n \<in> {1, 2}" for t n
    using that by (auto simp: card_fits_def reflectCard_def Let_def demo_token_row_def demo_coordinates_def demo_db_def)
  have o: "ordered_cards ''oldest'' [reflectCard demo_db (demo_token_row 7 1), reflectCard demo_db (demo_token_row 6 2)] =
      [reflectCard demo_db (demo_token_row 7 1), reflectCard demo_db (demo_token_row 6 2)]"
    by (simp add: ordered_cards_def card_sort_key_def card_block_key_def reflectCard_def Let_def demo_token_row_def demo_coordinates_def)
  have k: "distinct (map token_row_key (dbTokens demo_db))"
    by (simp add: demo_db_def token_row_key_def demo_token_row_def)
  have s: "input_sort demo_tokens_input = ''oldest''" "input_phase demo_tokens_input = ''curve''" "limit_ok (tiLimit demo_tokens_input)"
      "page_limit (tiLimit demo_tokens_input) = 1"
    by (simp_all add: demo_tokens_input_def input_sort_def input_phase_def limit_ok_def page_limit_def)
  show ?thesis
    using token_pages_complete[of demo_server demo_db demo_snapshot demo_tokens_input 3 FormatInt]
    by (simp add: demo_lib_laws demo_serves s demo_listed c k o card_sorts_def)
qed

text \<open>
  C27: Following the cursors of a token's trades returns every trade of the token exactly once, newest
  first, and following those of its holders every holder with a balance, largest first; the token's own
  curve and pair and the burn addresses are not among them.
\<close>

theorem market_pages_complete:
  assumes "library_laws (svLib sv)" "serves (svEnv sv) (svChainID sv) (svDeploymentID sv) d s"
    and "sql_TokenExists (svChainID sv) a d" "parse_address (svLib sv) (piToken i) = Inr a" "limit_ok (piLimit i)"
    and "distinct (map trade_position (token_trades (reQuo (svEnv sv)) (svChainID sv) a d))"
    and "\<forall>v \<in> set (token_trades (reQuo (svEnv sv)) (svChainID sv) a d). trade_fits v"
    and "distinct (map fst (rtHolders (dbMarket d)))"
    and "length (token_trades (reQuo (svEnv sv)) (svChainID sv) a d) div nat (page_limit (piLimit i)) < k"
    and "length (token_holders (svChainID sv) a d) div nat (page_limit (piLimit i)) < k"
  shows "follow k (\<lambda>c. listing (trades_route sv (i\<lparr>piCursor := c\<rparr>) d)) [] = Some (Inr
      (map (\<lambda>v. trade_dto (svLib sv) (read_trade (svLib sv) (svEnv sv) v))
        (rev (sort_key trade_position (token_trades (reQuo (svEnv sv)) (svChainID sv) a d)))))
    \<and> follow k (\<lambda>c. listing (holders_route sv (i\<lparr>piCursor := c\<rparr>) d)) [] = Some (Inr
      (map (\<lambda>hr. holder_dto (svLib sv) (read_balance hr)) (rev (sort_key holder_key (token_holders (svChainID sv) a d)))))"
  using trades_followed[OF assms(1-7,9)] holders_followed[OF assms(1-5,8,10)] by blast

definition demo_page_input :: pageInput where
  "demo_page_input = \<lparr>piToken = FormatInt 7, piCursor = [], piLimit = 1\<rparr>"

definition demo_view :: "int \<Rightarrow> market_trade" where
  "demo_view n = trade_of (demo_coordinates n) ''safe'' ''curve'' (address_hex 20) True (Some (2 * 10 ^ 18)) (Some (11 * 10 ^ 18 div 47)) 6 3"

lemma demo_token_trades: "token_trades (div) 1 7 demo_db = [demo_view 3, demo_view 4]"
  by (simp add: token_trades_def event_trades_def event_block_def demo_db_def demo_trade_def demo_coordinates_def demo_block_def
      demo_view_def wad_price_def)

lemma demo_token_holders: "token_holders 1 7 demo_db =
    [(21, \<lparr>hoBalance = 4, hoFirstAcquired = Some 3\<rparr>), (22, \<lparr>hoBalance = 9, hoFirstAcquired = Some 4\<rparr>)]"
  by (simp add: token_holders_def demo_db_def dead_address_def demo_token_row_def token_row_key_def)

lemma market_pages_complete_witness:
  "follow 3 (\<lambda>c. listing (trades_route demo_server (demo_page_input\<lparr>piCursor := c\<rparr>) demo_db)) [] = Some (Inr
      (map (\<lambda>v. trade_dto demo_lib (read_trade demo_lib demo_env v)) [demo_view 4, demo_view 3]))
    \<and> follow 3 (\<lambda>c. listing (holders_route demo_server (demo_page_input\<lparr>piCursor := c\<rparr>) demo_db)) [] = Some (Inr
      (map (\<lambda>hr. holder_dto demo_lib (read_balance hr))
        [(22, \<lparr>hoBalance = 9, hoFirstAcquired = Some 4\<rparr>), (21, \<lparr>hoBalance = 4, hoFirstAcquired = Some 3\<rparr>)]))"
proof -
  have p: "trade_position (demo_view n) = (n, 0, 2)" for n
    by (simp add: trade_position_def demo_view_def trade_of_def demo_coordinates_def)
  have f: "trade_fits (demo_view 3)" "trade_fits (demo_view 4)"
    by (simp_all add: trade_fits_def demo_view_def trade_of_def demo_coordinates_def)
  have q: "reQuo demo_env = (div)" by (simp add: demo_env_def)
  have i: "parse_address demo_lib (piToken demo_page_input) = Inr 7" "limit_ok (piLimit demo_page_input)"
      "page_limit (piLimit demo_page_input) = 1"
    by (simp_all add: demo_page_input_def demo_address limit_ok_def page_limit_def)
  have h: "distinct (map fst (rtHolders (dbMarket demo_db)))" by (simp add: demo_db_def)
  show ?thesis
    using market_pages_complete[of demo_server demo_db demo_snapshot 7 demo_page_input 3]
    by (simp add: demo_lib_laws demo_serves demo_token i q demo_token_trades demo_token_holders p f h holder_key_def)
qed

text \<open>
  Following the cursors of a stored candle listing (one minute, five minutes, an hour, a day)
  returns every candle of the token in the requested window exactly once, oldest first.
\<close>

theorem candle_pages_complete:
  assumes "library_laws (svLib sv)" "serves (svEnv sv) (svChainID sv) (svDeploymentID sv) d s"
    and "sql_TokenExists (svChainID sv) a d" "parse_address (svLib sv) (ciToken i) = Inr a" "candle_input_ok sv i"
    and "cqInterval (candle_query now sv i a) \<in> set stored_intervals"
    and "distinct (map fst (rtCandles (dbMarket d)))" "candles_printable d"
    and "all = candles_between (svChainID sv) a (cqInterval (candle_query now sv i a)) (cqFrom (candle_query now sv i a))
      (cqTo (candle_query now sv i a)) d"
    and "length all div nat (page_limit (ciLimit i)) < k"
  shows "follow k (\<lambda>c. listing (candles_route now sv (i\<lparr>ciCursor := c\<rparr>) d)) [] = Some (Inr
    (map (\<lambda>sc. candle_dto (svLib sv) (stored_candle sc)) (sort_key fst all)))"
  using candles_followed[OF assms(1-8)] assms(9,10) by simp

definition demo_candle_input :: "string \<Rightarrow> candleInput" where
  "demo_candle_input interval = \<lparr>ciToken = FormatInt 7, ciInterval = interval, ciFrom = [], ciTo = [], ciLimit = 1, ciCursor = []\<rparr>"

definition demo_now :: int where "demo_now = 36000000000"

lemma demo_candle_query: "candle_query demo_now demo_server (demo_candle_input interval) 7 = \<lparr>cqChainID = 1, cqToken = 7,
    cqInterval = (if interval = [] then ''1h'' else interval), cqFrom = micros zero_time, cqTo = demo_now, cqLimit = 1, cqCursor = None\<rparr>"
  by (simp add: candle_query_def demo_candle_input_def page_limit_def)

lemma demo_candles_between: "candles_between 1 7 ''1h'' (micros zero_time) demo_now demo_db =
    [(0, demo_candle), (3600000000, demo_candle), (7200000000, demo_candle)]"
  by (simp add: candles_between_def demo_db_def micros_def zero_time_def demo_now_def)

lemma demo_candle_input_ok: "candle_input_ok demo_server (demo_candle_input interval)"
    "parse_address demo_lib (ciToken (demo_candle_input interval)) = Inr 7" "page_limit (ciLimit (demo_candle_input interval)) = 1"
  by (simp_all add: candle_input_ok_def demo_candle_input_def limit_ok_def page_limit_def demo_address)

lemma demo_candle_table: "distinct (map fst (rtCandles (dbMarket demo_db)))" "candles_printable demo_db"
  by (simp_all add: demo_db_def candles_printable_def time_printable_def zero_time_def)

lemma candle_pages_complete_witness:
  "follow 4 (\<lambda>c. listing (candles_route demo_now demo_server ((demo_candle_input [])\<lparr>ciCursor := c\<rparr>) demo_db)) [] = Some (Inr
    (map (\<lambda>sc. candle_dto demo_lib (stored_candle sc)) [(0, demo_candle), (3600000000, demo_candle), (7200000000, demo_candle)]))"
  using candle_pages_complete[of demo_server demo_db demo_snapshot 7 "demo_candle_input []" demo_now _ 4, OF _ _ _ _ _ _ _ _ refl]
  by (simp add: demo_lib_laws demo_serves demo_token demo_candle_input_ok demo_candle_query demo_candles_between demo_candle_table
      stored_intervals_def)



section \<open>Snapshots\<close>

lemma encoded_decodes:
  assumes "library_laws lib" "encoded_or_empty lib c \<noteq> []" "cursor_ascii c"
  shows "parse_cursor lib (encoded_or_empty lib c) = Inr (Some c)"
proof -
  have "ValidateShape c = Inr ()" using assms(2) by (auto simp: encoded_or_empty_def Encode_def result_iff split: sum.splits)
  from Encode_Decode[OF assms(1) this assms(3)]
  obtain t where "Encode lib c = Inr t" "t \<noteq> []" "Decode lib t = Inr c" by blast
  then show ?thesis by (simp add: encoded_or_empty_def parse_cursor_def)
qed

lemma cursor_position_Inr: "cursor_position (Some c) validate parse = Inr k \<Longrightarrow> validate c = Inr ()"
  by (auto simp: cursor_position_def result_iff)

text \<open>A page belongs to the snapshot of the cursor it was requested with, and so does the cursor it returns.\<close>

lemma snapshot_read:
  assumes "withReadSnapshotBeginner env chainID deploymentID d fn = Inr p"
  obtains s where "fn s = Inr p"
  using assms by (auto simp: withReadSnapshotBeginner_def result_iff split: if_splits option.splits)

lemma ListTrades_snapshot:
  assumes "library_laws lib" "ListTrades lib env deploymentID q d = Inr p"
  shows "mqCursor q = Some c \<Longrightarrow> cuSnapshot c = pgSnapshot p"
    and "pgNextCursor p \<noteq> [] \<Longrightarrow> \<exists>c. parse_cursor lib (pgNextCursor p) = Inr (Some c) \<and> cuSnapshot c = pgSnapshot p"
proof -
  let ?f = "cursorFilter lib [rlAddressHex lib (mqToken q)]"
  have "\<exists>(s :: ReadSnapshot) rows after. cursor_position (mqCursor q) (\<lambda>c. ValidateRequest c ''trades'' ''newest'' ?f ''next'' (readIdentity s)) trade_after = Inr after
    \<and> p = \<lparr>pgItems = rows, pgSnapshot = readIdentity s, pgNextCursor = (if int (length rows) = mqLimit q
      then encoded_or_empty lib (page_cursor (readIdentity s) ''trades'' ''newest'' ?f (trade_key (last rows))) else []),
      pgFinality = finality (readState s) (snBlockNumber (readIdentity s))\<rparr>"
    using assms(2) unfolding ListTrades_def Let_def if_Inl_eq_Inr
    by (elim conjE snapshot_read) (simp only: rbind_eq_Inr sum.inject, elim exE conjE, intro exI conjI, assumption, rule sym, assumption)
  then obtain s :: ReadSnapshot and rows after where c: "cursor_position (mqCursor q) (\<lambda>c. ValidateRequest c ''trades'' ''newest'' ?f ''next'' (readIdentity s)) trade_after = Inr after"
    and p: "p = \<lparr>pgItems = rows, pgSnapshot = readIdentity s, pgNextCursor = (if int (length rows) = mqLimit q
      then encoded_or_empty lib (page_cursor (readIdentity s) ''trades'' ''newest'' ?f (trade_key (last rows))) else []),
      pgFinality = finality (readState s) (snBlockNumber (readIdentity s))\<rparr>" by blast
  show "mqCursor q = Some c \<Longrightarrow> cuSnapshot c = pgSnapshot p"
    using c p by (auto simp: ValidateRequest_Inr dest: cursor_position_Inr)
  show "\<exists>c. parse_cursor lib (pgNextCursor p) = Inr (Some c) \<and> cuSnapshot c = pgSnapshot p" if "pgNextCursor p \<noteq> []"
    using that p encoded_decodes[OF assms(1)] ascii_cursorFilter[OF assms(1)]
    by (auto simp: cursor_ascii_def page_cursor_def trade_key_def ascii_def[of "''trades''"] ascii_def[of "''newest''"] ascii_def[of "''next''"] split: if_splits)
qed

lemma ListHolders_snapshot:
  assumes "library_laws lib" "ListHolders lib env deploymentID q d = Inr p"
  shows "mqCursor q = Some c \<Longrightarrow> cuSnapshot c = pgSnapshot p"
    and "pgNextCursor p \<noteq> [] \<Longrightarrow> \<exists>c. parse_cursor lib (pgNextCursor p) = Inr (Some c) \<and> cuSnapshot c = pgSnapshot p"
proof -
  let ?f = "cursorFilter lib [rlAddressHex lib (mqToken q)]"
  have "\<exists>(s :: ReadSnapshot) rows after. cursor_position (mqCursor q) (\<lambda>c. ValidateRequest c ''holders'' ''balance'' ?f ''next'' (readIdentity s)) (holder_after lib) = Inr after
    \<and> p = \<lparr>pgItems = rows, pgSnapshot = readIdentity s, pgNextCursor = (if int (length rows) = mqLimit q
      then encoded_or_empty lib (page_cursor (readIdentity s) ''holders'' ''balance'' ?f (balance_key lib (last rows))) else []),
      pgFinality = finality (readState s) (snBlockNumber (readIdentity s))\<rparr>"
    using assms(2) unfolding ListHolders_def Let_def if_Inl_eq_Inr
    by (elim conjE snapshot_read) (simp only: rbind_eq_Inr sum.inject, elim exE conjE, intro exI conjI, assumption, rule sym, assumption)
  then obtain s :: ReadSnapshot and rows after where c: "cursor_position (mqCursor q) (\<lambda>c. ValidateRequest c ''holders'' ''balance'' ?f ''next'' (readIdentity s)) (holder_after lib) = Inr after"
    and p: "p = \<lparr>pgItems = rows, pgSnapshot = readIdentity s, pgNextCursor = (if int (length rows) = mqLimit q
      then encoded_or_empty lib (page_cursor (readIdentity s) ''holders'' ''balance'' ?f (balance_key lib (last rows))) else []),
      pgFinality = finality (readState s) (snBlockNumber (readIdentity s))\<rparr>" by blast
  show "mqCursor q = Some c \<Longrightarrow> cuSnapshot c = pgSnapshot p"
    using c p by (auto simp: ValidateRequest_Inr dest: cursor_position_Inr)
  show "\<exists>c. parse_cursor lib (pgNextCursor p) = Inr (Some c) \<and> cuSnapshot c = pgSnapshot p" if "pgNextCursor p \<noteq> []"
    using that p encoded_decodes[OF assms(1)] ascii_cursorFilter[OF assms(1)] library_address[OF assms(1)]
    by (auto simp: cursor_ascii_def page_cursor_def balance_key_def ascii_def[of "''holders''"] ascii_def[of "''balance''"] ascii_def[of "''next''"] split: if_splits)
qed

lemma ReadTokenCards_snapshot:
  assumes "library_laws lib" "ReadTokenCards lib env chainID deploymentID q d = Inr p"
  shows "lqCursor q = Some c \<Longrightarrow> cuSnapshot c = pgSnapshot p"
    and "pgNextCursor p \<noteq> [] \<Longrightarrow> \<exists>c. parse_cursor lib (pgNextCursor p) = Inr (Some c) \<and> cuSnapshot c = pgSnapshot p"
proof -
  define f where "f = cursorFilter lib [lqPhase q, rlToLower lib (rlTrimSpace lib (lqSearch q))]"
  obtain s :: ReadSnapshot and cards where p: "pgSnapshot p = readIdentity s" "pgNextCursor p \<noteq> [] \<Longrightarrow>
      Encode lib (page_cursor (readIdentity s) ''tokens'' (lqSort q) f (card_key lib (lqSort q) (last cards))) = Inr (pgNextCursor p)"
    and c: "\<And>c. lqCursor q = Some c \<Longrightarrow> ValidateRequest c ''tokens'' (lqSort q) f ''next'' (readIdentity s) = Inr ()"
    and o: "lqSort q \<in> set card_sorts"
    using assms(2) by (auto simp: ReadTokenCards_def Let_def result_iff f_def card_sorts_def split: if_splits option.splits elim!: snapshot_read)
  show "lqCursor q = Some c \<Longrightarrow> cuSnapshot c = pgSnapshot p" using c p(1) by (auto simp: ValidateRequest_Inr)
  show "\<exists>c. parse_cursor lib (pgNextCursor p) = Inr (Some c) \<and> cuSnapshot c = pgSnapshot p" if n: "pgNextCursor p \<noteq> []"
  proof -
    let ?c = "page_cursor (readIdentity s) ''tokens'' (lqSort q) f (card_key lib (lqSort q) (last cards))"
    have "cursor_ascii ?c" using o ascii_cursorFilter[OF assms(1)] library_address[OF assms(1)]
      by (auto simp: cursor_ascii_def page_cursor_def card_key_def card_sorts_def f_def ascii_def[of "_ # _"] ascii_def[of "[]"])
    moreover have "encoded_or_empty lib ?c = pgNextCursor p" using p(2)[OF n] by (simp add: encoded_or_empty_def)
    ultimately have "parse_cursor lib (pgNextCursor p) = Inr (Some ?c)" using encoded_decodes[OF assms(1), of ?c] n by simp
    then show ?thesis using p(1) by (intro exI[of _ ?c]) (simp add: page_cursor_def)
  qed
qed

definition same_snapshot :: "'a pageBody \<Rightarrow> 'b pageBody \<Rightarrow> bool" where
  "same_snapshot b b' \<longleftrightarrow> sdChainID (bdSnapshot b') = sdChainID (bdSnapshot b)
     \<and> sdBlockNumber (bdSnapshot b') = sdBlockNumber (bdSnapshot b) \<and> sdBlockHash (bdSnapshot b') = sdBlockHash (bdSnapshot b)"

lemma page_body_snapshot:
  "pgSnapshot p = pgSnapshot p' \<Longrightarrow> same_snapshot (page_body lib f p) (page_body lib g p')"
  by (simp add: same_snapshot_def page_body_def snapDTO_def)

lemma map_sum_Inr: "map_sum f g r = Inr y \<longleftrightarrow> (\<exists>x. r = Inr x \<and> y = g x)"
  by (cases r) auto

lemma bdNextCursor_page_body [simp]: "bdNextCursor (page_body lib f p) = pgNextCursor p"
  by (simp add: page_body_def)

text \<open>
  C23: Pages of different chain states never mix. Whatever the database contains at the two requests, a
  page obtained with the cursor of an earlier page shows the same chain, block number and block hash as
  that page; after the indexer has moved on, or after a reorg, the cursor is refused instead. This
  holds for the trade, holder and token listings.
\<close>

theorem pages_never_mix:
  assumes "library_laws (svLib sv)" "svLib sv' = svLib sv"
  shows "(trades_route sv i d = Inr b \<and> bdNextCursor b \<noteq> [] \<and> trades_route sv' (i'\<lparr>piCursor := bdNextCursor b\<rparr>) d' = Inr b'
      \<longrightarrow> same_snapshot b b')
    \<and> (holders_route sv i d = Inr h \<and> bdNextCursor h \<noteq> [] \<and> holders_route sv' (i'\<lparr>piCursor := bdNextCursor h\<rparr>) d' = Inr h'
      \<longrightarrow> same_snapshot h h')
    \<and> (tokens_route pm sv j d = Inr t \<and> bdNextCursor t \<noteq> [] \<and> tokens_route pm sv' (j'\<lparr>tiCursor := bdNextCursor t\<rparr>) d' = Inr t'
      \<longrightarrow> same_snapshot t t')"
proof (intro conjI impI, goal_cases)
  case 1
  then obtain q q' p p' where p: "ListTrades (svLib sv) (svEnv sv) (svDeploymentID sv) q d = Inr p"
      "b = page_body (svLib sv) (trade_dto (svLib sv)) p"
    and p': "ListTrades (svLib sv) (svEnv sv') (svDeploymentID sv') q' d' = Inr p'"
      "b' = page_body (svLib sv) (trade_dto (svLib sv)) p'" "parse_cursor (svLib sv) (pgNextCursor p) = Inr (mqCursor q')"
    by (auto simp: trades_route_def result_iff map_sum_Inr assms(2))
  then have "pgSnapshot p = pgSnapshot p'"
    using ListTrades_snapshot(2)[OF assms(1) p(1)] ListTrades_snapshot(1)[OF assms(1) p'(1)] 1 by fastforce
  then show ?case using p p' by (simp add: page_body_snapshot)
next
  case 2
  then obtain q q' p p' where p: "ListHolders (svLib sv) (svEnv sv) (svDeploymentID sv) q d = Inr p"
      "h = page_body (svLib sv) (holder_dto (svLib sv)) p"
    and p': "ListHolders (svLib sv) (svEnv sv') (svDeploymentID sv') q' d' = Inr p'"
      "h' = page_body (svLib sv) (holder_dto (svLib sv)) p'" "parse_cursor (svLib sv) (pgNextCursor p) = Inr (mqCursor q')"
    by (auto simp: holders_route_def result_iff map_sum_Inr assms(2))
  then have "pgSnapshot p = pgSnapshot p'"
    using ListHolders_snapshot(2)[OF assms(1) p(1)] ListHolders_snapshot(1)[OF assms(1) p'(1)] 2 by fastforce
  then show ?case using p p' by (simp add: page_body_snapshot)
next
  case 3
  then obtain q q' p p' where p: "ReadTokenCards (svLib sv) (svEnv sv) (svChainID sv) (svDeploymentID sv) q d = Inr p"
      "t = page_body (svLib sv) (token_dto pm (svLib sv)) p"
    and p': "ReadTokenCards (svLib sv) (svEnv sv') (svChainID sv') (svDeploymentID sv') q' d' = Inr p'"
      "t' = page_body (svLib sv) (token_dto pm (svLib sv)) p'" "parse_cursor (svLib sv) (pgNextCursor p) = Inr (lqCursor q')"
    unfolding tokens_route_def if_Inl_eq_Inr by (auto simp: result_iff map_sum_Inr assms(2))
  then have "pgSnapshot p = pgSnapshot p'"
    using ReadTokenCards_snapshot(2)[OF assms(1) p(1)] ReadTokenCards_snapshot(1)[OF assms(1) p'(1)] 3 by fastforce
  then show ?case using p p' by (simp add: page_body_snapshot)
qed

lemma pages_never_mix_witness:
  "\<exists>b b'. trades_route demo_server (demo_page_input\<lparr>piCursor := []\<rparr>) demo_db = Inr b
     \<and> trades_route demo_server (demo_page_input\<lparr>piCursor := bdNextCursor b\<rparr>) demo_db = Inr b' \<and> same_snapshot b b'"
proof -
  note page = trades_page[of demo_server demo_db demo_snapshot 7 demo_page_input]
  have f: "trade_fits (demo_view 4)" "trade_position (demo_view n) = (n, 0, 2)" for n
    by (simp_all add: trade_fits_def trade_position_def demo_view_def trade_of_def demo_coordinates_def)
  have q: "reQuo demo_env = (div)" by (simp add: demo_env_def)
  have i: "parse_address demo_lib (piToken demo_page_input) = Inr 7" "limit_ok (piLimit demo_page_input)"
      "page_limit (piLimit demo_page_input) = 1"
    by (simp_all add: demo_page_input_def demo_address limit_ok_def page_limit_def)
  let ?c = "trade_cursor demo_lib demo_env demo_snapshot 7 (demo_view 4)"
  have "sql_ListMarketTrades (div) 1 7 None 1 demo_db = [demo_view 4]"
    by (simp add: sql_ListMarketTrades_def keyset_desc_def demo_token_trades f)
  then have "listing (trades_route demo_server (demo_page_input\<lparr>piCursor := []\<rparr>) demo_db) =
      Inr ([trade_dto demo_lib (read_trade demo_lib demo_env (demo_view 4))], encoded_or_empty demo_lib ?c)"
    using page[of "[]" None None] by (simp add: demo_serves demo_token i q parse_cursor_def cursor_position_def page_of_def)
  then obtain b where b: "trades_route demo_server (demo_page_input\<lparr>piCursor := []\<rparr>) demo_db = Inr b"
    and n: "bdNextCursor b = encoded_or_empty demo_lib ?c" by (auto simp: listing_def map_sum_Inr)
  note c = page_cursor_accepted[where endpoint = "''trades''" and order = "''newest''" and key = "trade_key (read_trade demo_lib demo_env (demo_view 4))"
      and filters = "cursorFilter demo_lib [rlAddressHex demo_lib 7]", OF demo_lib_laws demo_serves, folded trade_cursor_def]
  have t: "encoded_or_empty demo_lib ?c \<noteq> []" "parse_cursor demo_lib (encoded_or_empty demo_lib ?c) = Inr (Some ?c)"
    "ValidateRequest ?c ''trades'' ''newest'' (cursorFilter demo_lib [rlAddressHex demo_lib 7]) ''next'' (readIdentity demo_snapshot) = Inr ()"
    by (rule c(2-4), simp_all add: trade_key_def ascii_cursorFilter[OF demo_lib_laws], simp_all add: ascii_def)+
  have "trade_after ?c = Inr (trade_position (demo_view 4))"
    by (rule trade_after_key[OF f(1)]) (simp add: trade_cursor_def page_cursor_def)
  then obtain b' where b': "trades_route demo_server (demo_page_input\<lparr>piCursor := bdNextCursor b\<rparr>) demo_db = Inr b'"
    using page[of "encoded_or_empty demo_lib ?c" "Some ?c" "Some (trade_position (demo_view 4))"] t n
    by (auto simp: demo_serves demo_token i q cursor_position_def listing_def map_sum_Inr)
  then show ?thesis
    using pages_never_mix[of demo_server demo_server "demo_page_input\<lparr>piCursor := []\<rparr>" demo_db b "demo_page_input" demo_db b'] demo_lib_laws b n t
    by auto
qed

section \<open>The default end of the candle window\<close>



section \<open>Quotes and numbers\<close>


definition demo_curve_row :: token_row where
  "demo_curve_row = \<lparr>trChainID = 1, trLaunch = demo_coordinates 1,
     trLaunched = \<lparr>tlToken = 7, tlCurve = 8, tlCreator = 9, tlLPPair = 10, tlWETH = 11, tlProtocolTreasury = 12,
       tlEngineVersion = 1, tlName = ''a'', tlSymbol = ''b'', tlTotalSupply = totalSupply v1_parameters,
       tlVirtualETH = initialVirtualETH v1_parameters, tlVirtualToken = initialVirtualToken v1_parameters,
       tlCurveTokens = curveTokens v1_parameters, tlLPTokens = lpTokens v1_parameters, tlGraduationETH = graduationETH v1_parameters,
       tlLaunchFeePaid = Some 0, tlTradeFeeBPS = tradeFeeBPS v1_parameters, tlProtocolShareBPS = protocolShareBPS v1_parameters\<rparr>,
     trGraduation = None\<rparr>"

definition demo_curve_db :: rdb where
  "demo_curve_db = demo_db\<lparr>dbTokens := [demo_curve_row], dbEvents :=
     [\<lparr>leCoordinates = demo_coordinates 3, lePayload = LTrade 7 20 True (Some 1000000000000000000) (Some 0)
        (Some 441841004184100418410041841) (Some 5000000000000000) (Some 5000000000000000) (virtualETH v1_mid_state) (virtualToken v1_mid_state)\<rparr>],
     dbMarket := (dbMarket demo_db)\<lparr>rtReserves := [((1, 7), \<lparr>rrSource = ''curve'', rrEth = 2390000000000000000,
       rrToken = 624825662482566248256624826, rrBlock = 3, rrHash = 5, rrTime = 100\<rparr>)]\<rparr>\<rparr>"

lemma demo_replayed: "replayed 1 7 v1_parameters demo_curve_db = v1_mid_state"
  by (simp add: replayed_def chain_payloads_def demo_curve_db_def demo_coordinates_def replay_payload_def launch_state_def v1_mid_state_def)

lemma demo_quotable: "quotable demo_env 1 7 v1_parameters demo_curve_db"
proof -
  have "find_token 1 7 demo_curve_db = Some demo_curve_row"
    by (simp add: find_token_def demo_curve_db_def demo_curve_row_def token_row_key_def)
  moreover have "reserve_current demo_curve_db demo_curve_row"
    by (simp add: reserve_current_def demo_curve_db_def demo_curve_row_def token_row_key_def chain_payloads_def demo_coordinates_def
        traded_reserves_def v1_mid_state_def)
  moreover have "launched_with v1_parameters (trLaunched demo_curve_row)" "trGraduation demo_curve_row = None"
    by (simp_all add: launched_with_def demo_curve_row_def)
  ultimately show ?thesis
    by (simp add: quotable_def demo_replayed v1_mid_inv v1_valid numeric_stands_for_def demo_env_def)
qed

definition demo_quote_input :: quoteInput where
  "demo_quote_input = \<lparr>qiToken = FormatInt 7, qiSide = ''sell'', qiAmount = FormatInt 1000000000000000000000000\<rparr>"


text \<open>
  Reading numbers back from the database. A numeric that stands for an integer, in whatever scale
  the driver returns it, is read exactly by the two numeric readers of the public routes; the reader of
  the aggregated candles ignores the exponent and is exact only for zero and for scale zero.
\<close>

theorem numeric_readers:
  assumes "numeric_stands_for v n"
  shows "numericBig v = n \<and> numericBigExact v = Inr n \<and> (candleNumeric v = n \<longleftrightarrow> n = 0 \<or> nuExp v = 0)"
proof -
  have "numericBigExact v = numericBigWithExponent v True"
    using assms by (auto simp: numericBigExact_def numeric_stands_for_def split: option.splits)
  then show ?thesis
    using numericBig_exact[OF assms] numericBigWithExponent_exact[OF assms] candleNumeric_exact[OF assms] by simp
qed

definition one_ether :: Numeric where
  "one_ether = \<lparr>nuInt = Some 1, nuExp = 18, nuNaN = False, nuInfinityModifier = Finite, nuValid = True\<rparr>"

lemma numeric_readers_witness:
  "numericBig one_ether = 10 ^ 18 \<and> numericBigExact one_ether = Inr (10 ^ 18) \<and> candleNumeric one_ether \<noteq> 10 ^ 18"
  using numeric_readers[of one_ether "10 ^ 18"] by (simp add: numeric_stands_for_def one_ether_def)

text \<open>
  The amount of a quote request is accepted exactly when it is the decimal form of an unsigned
  256-bit integer, without sign, leading zeros, exponent or point; so two different texts are never
  the same amount.
\<close>

theorem canonical_amount:
  "parseCanonicalUint256 s = Inr n \<longleftrightarrow> 0 \<le> n \<and> n < 2 ^ 256 \<and> s = FormatInt n"
  by (rule parseCanonicalUint256_Inr)

end
