(* ===== verification/Json_Text.thy ===== *)
theory Json_Text
  imports Text_Codec
begin

text \<open>
  What the backend uses of Go's \<^verbatim>\<open>strings\<close>, \<^verbatim>\<open>unicode/utf8\<close> and \<^verbatim>\<open>encoding/json\<close>: white space and
  splitting, the well-formed encodings of UTF-8, and the JSON reader with its replacement of malformed
  text in strings, numbers kept as text and the nesting limit. A printer is shown to be undone by it.
\<close>

section \<open>Strings\<close>

text \<open>The encodings of the white-space characters of Unicode, which \<^verbatim>\<open>strings.TrimSpace\<close> removes.\<close>

definition space_runes :: "string list" where
  "space_runes = map (\<lambda>c. [c]) [CHR 0x09, CHR 0x0A, CHR 0x0B, CHR 0x0C, CHR 0x0D, CHR 0x20]
     @ [[CHR 0xC2, CHR 0x85], [CHR 0xC2, CHR 0xA0], [CHR 0xE1, CHR 0x9A, CHR 0x80], [CHR 0xE2, CHR 0x81, CHR 0x9F],
        [CHR 0xE3, CHR 0x80, CHR 0x80]]
     @ map (\<lambda>c. [CHR 0xE2, CHR 0x80, c])
         ([CHR 0x80, CHR 0x81, CHR 0x82, CHR 0x83, CHR 0x84, CHR 0x85, CHR 0x86, CHR 0x87, CHR 0x88, CHR 0x89, CHR 0x8A]
          @ [CHR 0xA8, CHR 0xA9, CHR 0xAF])"

text \<open>The number of bytes at the front that form one of the given words.\<close>

definition front_width :: "string list \<Rightarrow> string \<Rightarrow> nat" where
  "front_width ws s = (case find (\<lambda>w. take (length w) s = w) ws of None \<Rightarrow> 0 | Some w \<Rightarrow> length w)"

fun trim_front :: "string list \<Rightarrow> string \<Rightarrow> string" where
  "trim_front ws s = (if s = [] \<or> front_width ws s = 0 then s else trim_front ws (drop (front_width ws s) s))"

declare trim_front.simps [simp del]

definition TrimSpace :: "string \<Rightarrow> string" where
  "TrimSpace s = rev (trim_front (map rev space_runes) (rev (trim_front space_runes s)))"

text \<open>\<^verbatim>\<open>strings.Split\<close> at a one-character separator.\<close>

fun split_at :: "char \<Rightarrow> string \<Rightarrow> string list" where
  "split_at d [] = [[]]"
| "split_at d (c # s) = (if c = d then [] # split_at d s
     else case split_at d s of [] \<Rightarrow> [[c]] | w # ws \<Rightarrow> (c # w) # ws)"

fun join_at :: "char \<Rightarrow> string list \<Rightarrow> string" where
  "join_at d [] = []"
| "join_at d [w] = w"
| "join_at d (w # v # ws) = w @ d # join_at d (v # ws)"

lemma split_at_nonempty [simp]: "split_at d s \<noteq> []"
  by (induction s) (auto split: list.splits)

lemma join_split: "join_at d (split_at d s) = s"
proof (induction s)
  case (Cons c s)
  obtain w ws where "split_at d s = w # ws" using split_at_nonempty[of d s] by (cases "split_at d s") auto
  then show ?case using Cons by (cases ws) auto
qed simp

lemma split_parts: "w \<in> set (split_at d s) \<Longrightarrow> d \<notin> set w"
  by (induction s arbitrary: w) (auto split: list.splits if_splits)

lemma split_word: "d \<notin> set w \<Longrightarrow> split_at d w = [w]"
  by (induction w) auto

lemma split_append: "d \<notin> set w \<Longrightarrow> split_at d (w @ d # s) = w # split_at d s"
  by (induction w) auto

lemma split_join: "ws \<noteq> [] \<Longrightarrow> \<forall>w \<in> set ws. d \<notin> set w \<Longrightarrow> split_at d (join_at d ws) = ws"
  by (induction d ws rule: join_at.induct) (auto simp: split_word split_append)

definition visible :: "char \<Rightarrow> bool" where
  "visible c \<longleftrightarrow> 0x20 < (of_char c :: nat) \<and> (of_char c :: nat) < 0x80"

text \<open>Text of visible characters is left alone.\<close>

definition no_space :: "string \<Rightarrow> bool" where
  "no_space s \<longleftrightarrow> list_all visible s"

lemma space_runes_invisible:
  "list_all (\<lambda>w. w \<noteq> [] \<and> \<not> visible (hd w)) space_runes" "list_all (\<lambda>w. w \<noteq> [] \<and> \<not> visible (hd w)) (map rev space_runes)"
  by code_simp+

lemma front_width_visible:
  assumes "list_all (\<lambda>w. w \<noteq> [] \<and> \<not> visible (hd w)) ws" "visible c"
  shows "front_width ws (c # s) = 0"
proof -
  have "find (\<lambda>w. take (length w) (c # s) = w) ws = None"
    unfolding find_None_iff
  proof
    assume "\<exists>w. w \<in> set ws \<and> take (length w) (c # s) = w"
    then obtain w where w: "w \<in> set ws" "take (length w) (c # s) = w" by blast
    have "w \<noteq> [] \<and> \<not> visible (hd w)" using assms(1) w(1) by (auto simp: list_all_iff)
    then show False using w(2) assms(2) by (cases w) auto
  qed
  then show ?thesis by (simp add: front_width_def)
qed

lemmas visible_front = space_runes_invisible[THEN front_width_visible]

lemma TrimSpace_visible: "no_space s \<Longrightarrow> TrimSpace s = s"
proof -
  assume s: "no_space s"
  have a: "trim_front space_runes s = s"
    using s by (cases s) (auto simp: no_space_def trim_front.simps visible_front)
  have "no_space (rev s)" using s by (simp add: no_space_def)
  then have "trim_front (map rev space_runes) (rev s) = rev s"
    by (cases "rev s") (auto simp: no_space_def trim_front.simps visible_front)
  then show ?thesis by (simp add: TrimSpace_def a)
qed

section \<open>UTF-8\<close>

definition byte_between :: "nat \<Rightarrow> nat \<Rightarrow> char \<Rightarrow> bool" where
  "byte_between a b c \<longleftrightarrow> a \<le> of_char c \<and> of_char c \<le> b"

text \<open>
  The length that the first byte announces, the range of the byte after it, and the width of a
  well-formed encoding at the front, 0 when there is none.
\<close>

definition lead_width :: "char \<Rightarrow> nat" where
  "lead_width a =
     (if byte_between 0 0x7F a then 1 else if byte_between 0xC2 0xDF a then 2
      else if byte_between 0xE0 0xEF a then 3 else if byte_between 0xF0 0xF4 a then 4 else 0)"

definition second_byte :: "char \<Rightarrow> char \<Rightarrow> bool" where
  "second_byte a =
     (if a = CHR 0xE0 then byte_between 0xA0 0xBF else if a = CHR 0xED then byte_between 0x80 0x9F
      else if a = CHR 0xF0 then byte_between 0x90 0xBF else if a = CHR 0xF4 then byte_between 0x80 0x8F
      else byte_between 0x80 0xBF)"

definition tail_bytes :: "char \<Rightarrow> string \<Rightarrow> bool" where
  "tail_bytes a t \<longleftrightarrow> t = [] \<or> second_byte a (hd t) \<and> list_all (byte_between 0x80 0xBF) (tl t)"

definition utf8_width :: "string \<Rightarrow> nat" where
  "utf8_width s =
     (case s of
        [] \<Rightarrow> 0
      | a # r \<Rightarrow>
        let n = lead_width a in
        if length s < n \<or> \<not> tail_bytes a (take (n - 1) r) then 0 else n)"

fun ValidString :: "string \<Rightarrow> bool" where
  "ValidString s = (if s = [] then True else if utf8_width s = 0 then False else ValidString (drop (utf8_width s) s))"

declare ValidString.simps [simp del]

definition encode_rune :: "nat \<Rightarrow> string" where
  "encode_rune n =
     (if n < 0x80 then [char_of n]
      else if n < 0x800 then [char_of (0xC0 + n div 64), char_of (0x80 + n mod 64)]
      else if n < 0x10000 then [char_of (0xE0 + n div 4096), char_of (0x80 + n div 64 mod 64), char_of (0x80 + n mod 64)]
      else [char_of (0xF0 + n div 262144), char_of (0x80 + n div 4096 mod 64), char_of (0x80 + n div 64 mod 64),
            char_of (0x80 + n mod 64)])"

definition replacement :: string where
  "replacement = [CHR 0xEF, CHR 0xBF, CHR 0xBD]"

section \<open>JSON values\<close>

datatype json =
    JNull
  | JBool bool
  | JNumber string
  | JString string
  | JArray "json list"
  | JObject "(string \<times> json) list"

definition json_space :: "char \<Rightarrow> bool" where
  "json_space c \<longleftrightarrow> c \<in> {CHR 0x20, CHR 0x09, CHR 0x0D, CHR 0x0A}"

definition skip_space :: "string \<Rightarrow> string" where
  "skip_space s = dropWhile json_space s"

text \<open>Four hexadecimal digits after a backslash and \<^verbatim>\<open>u\<close>.\<close>

definition hex_value :: "char \<Rightarrow> nat option" where
  "hex_value c = map_of (zip ''0123456789abcdefABCDEF'' ([0..<16] @ [10..<16])) c"

fun four_hex :: "string \<Rightarrow> (nat \<times> string) option" where
  "four_hex (a # b # c # d # r) =
     (case (hex_value a, hex_value b, hex_value c, hex_value d) of
        (Some w, Some x, Some y, Some z) \<Rightarrow> Some (w * 4096 + x * 256 + y * 16 + z, r)
      | _ \<Rightarrow> None)"
| "four_hex _ = None"

text \<open>A surrogate pair is one character; half of one is replaced.\<close>

definition unicode_escape :: "string \<Rightarrow> (string \<times> string) option" where
  "unicode_escape s =
     (case four_hex s of
        None \<Rightarrow> None
      | Some (n, r) \<Rightarrow>
        if n < 0xD800 \<or> 0xE000 \<le> n then Some (encode_rune n, r)
        else case r of
          b # u # r' \<Rightarrow>
            if b = CHR 0x5C \<and> u = CHR ''u''
            then (case four_hex r' of
                    None \<Rightarrow> Some (replacement, r)
                  | Some (m, r'') \<Rightarrow>
                    if n < 0xDC00 \<and> 0xDC00 \<le> m \<and> m < 0xE000
                    then Some (encode_rune (0x10000 + (n - 0xD800) * 1024 + (m - 0xDC00)), r'') else Some (replacement, r))
            else Some (replacement, r)
        | _ \<Rightarrow> Some (replacement, r))"

definition escape_table :: "(char \<times> char) list" where
  "escape_table = [(CHR 0x22, CHR 0x22), (CHR 0x5C, CHR 0x5C), (CHR ''/'', CHR ''/''), (CHR ''b'', CHR 0x08),
     (CHR ''f'', CHR 0x0C), (CHR ''n'', CHR 0x0A), (CHR ''r'', CHR 0x0D), (CHR ''t'', CHR 0x09)]"

fun string_escape :: "string \<Rightarrow> (string \<times> string) option" where
  "string_escape [] = None"
| "string_escape (c # r) = (if c = CHR ''u'' then unicode_escape r
     else map_option (\<lambda>d. ([d], r)) (map_of escape_table c))"

lemma four_hex_shorter: "four_hex s = Some (n, r) \<Longrightarrow> length r < length s"
  by (cases s rule: four_hex.cases) (auto split: option.splits)

lemma unicode_escape_shorter: "unicode_escape s = Some (t, r) \<Longrightarrow> length r < length s"
  by (auto simp: unicode_escape_def dest!: four_hex_shorter split: option.splits if_splits list.splits)

lemma string_escape_shorter: "string_escape s = Some (t, r) \<Longrightarrow> length r < length s"
  by (cases s) (auto dest: unicode_escape_shorter split: if_splits)

text \<open>The text of a string after its opening quote, decoded, and what follows the closing quote.\<close>

function (sequential) scan_string :: "string \<Rightarrow> (string \<times> string) option" where
  "scan_string [] = None"
| "scan_string (c # s) =
     (if c = CHR 0x22 then Some ([], s)
      else if c = CHR 0x5C
      then (case string_escape s of
              None \<Rightarrow> None
            | Some (t, r) \<Rightarrow> map_option (\<lambda>(u, rest). (t @ u, rest)) (scan_string r))
      else if (of_char c :: nat) < 0x20 then None
      else if utf8_width (c # s) = 0 then map_option (\<lambda>(u, rest). (replacement @ u, rest)) (scan_string s)
      else map_option (\<lambda>(u, rest). (take (utf8_width (c # s)) (c # s) @ u, rest))
        (scan_string (drop (utf8_width (c # s)) (c # s))))"
  by pat_completeness auto
termination by (relation "measure length") (auto dest: string_escape_shorter)

text \<open>A number by the grammar, as its text.\<close>

definition digits_front :: "string \<Rightarrow> string \<times> string" where
  "digits_front s = (takeWhile is_decimal s, dropWhile is_decimal s)"

definition scan_sign :: "string \<Rightarrow> string \<times> string" where
  "scan_sign s = (case s of [] \<Rightarrow> ([], s) | c # r \<Rightarrow> if c = CHR ''-'' then ([c], r) else ([], s))"

definition scan_whole :: "string \<Rightarrow> (string \<times> string) option" where
  "scan_whole s = (case s of
     [] \<Rightarrow> None
   | c # r \<Rightarrow> if c = CHR ''0'' then Some ([c], r) else if is_decimal c then Some (digits_front s) else None)"

definition scan_fraction :: "string \<Rightarrow> (string \<times> string) option" where
  "scan_fraction s = (case s of
     [] \<Rightarrow> Some ([], s)
   | c # r \<Rightarrow> if c = CHR ''.'' then (let (d, t) = digits_front r in if d = [] then None else Some (c # d, t)) else Some ([], s))"

definition scan_exponent :: "string \<Rightarrow> (string \<times> string) option" where
  "scan_exponent s = (case s of
     [] \<Rightarrow> Some ([], s)
   | c # r \<Rightarrow>
     if c = CHR ''e'' \<or> c = CHR ''E''
     then (let (g, r') = (case r of [] \<Rightarrow> ([], r) | x # y \<Rightarrow> if x = CHR ''+'' \<or> x = CHR ''-'' then ([x], y) else ([], r));
               (d, t) = digits_front r' in
           if d = [] then None else Some (c # g @ d, t))
     else Some ([], s))"

definition scan_number :: "string \<Rightarrow> (string \<times> string) option" where
  "scan_number s =
     (case scan_sign s of (a, s1) \<Rightarrow>
        (case scan_whole s1 of
           None \<Rightarrow> None
         | Some (b, s2) \<Rightarrow>
           (case scan_fraction s2 of
              None \<Rightarrow> None
            | Some (c, s3) \<Rightarrow> map_option (\<lambda>(d, r). (a @ b @ c @ d, r)) (scan_exponent s3))))"

definition isValidNumber :: "string \<Rightarrow> bool" where
  "isValidNumber s \<longleftrightarrow> (case scan_number s of Some (_, []) \<Rightarrow> True | _ \<Rightarrow> False)"

definition scan_literal :: "string \<Rightarrow> (json \<times> string) option" where
  "scan_literal s =
     (if take 4 s = ''null'' then Some (JNull, drop 4 s)
      else if take 4 s = ''true'' then Some (JBool True, drop 4 s)
      else if take 5 s = ''false'' then Some (JBool False, drop 5 s) else None)"

lemma skip_space_length: "length (skip_space s) \<le> length s"
  by (simp add: skip_space_def length_dropWhile_le)

text \<open>
  Values, the elements of an array after its opening bracket and the members of an object after its
  opening brace. The comparisons of lengths always hold, since what is read is not empty; they make
  the recursion evidently finite.
\<close>

function (sequential) parse_value :: "string \<Rightarrow> (json \<times> string) option"
  and parse_elements :: "string \<Rightarrow> (json list \<times> string) option"
  and parse_members :: "string \<Rightarrow> ((string \<times> json) list \<times> string) option" where
  "parse_value s =
     (case skip_space s of
        [] \<Rightarrow> None
      | c # r \<Rightarrow>
        if c = CHR 0x22 then map_option (\<lambda>(t, rest). (JString t, rest)) (scan_string r)
        else if c = CHR ''['' then
          (if take 1 (skip_space r) = '']'' then Some (JArray [], drop 1 (skip_space r))
           else if length r < length s then map_option (\<lambda>(vs, rest). (JArray vs, rest)) (parse_elements r) else None)
        else if c = CHR ''{'' then
          (if take 1 (skip_space r) = ''}'' then Some (JObject [], drop 1 (skip_space r))
           else if length r < length s then map_option (\<lambda>(ms, rest). (JObject ms, rest)) (parse_members r) else None)
        else if c = CHR ''-'' \<or> is_decimal c then map_option (\<lambda>(t, rest). (JNumber t, rest)) (scan_number (c # r))
        else scan_literal (c # r))"
| "parse_elements s =
     (case parse_value s of
        None \<Rightarrow> None
      | Some (v, r) \<Rightarrow>
        (case skip_space r of
           [] \<Rightarrow> None
         | c # rest \<Rightarrow>
           if c = CHR '']'' then Some ([v], rest)
           else if c = CHR '','' \<and> length rest < length s
           then map_option (\<lambda>(vs, rest'). (v # vs, rest')) (parse_elements rest) else None))"
| "parse_members s =
     (case skip_space s of
        [] \<Rightarrow> None
      | q # r0 \<Rightarrow>
        if q \<noteq> CHR 0x22 then None
        else case scan_string r0 of
          None \<Rightarrow> None
        | Some (k, r) \<Rightarrow>
          (case skip_space r of
             [] \<Rightarrow> None
           | colon # r1 \<Rightarrow>
             if colon \<noteq> CHR '':'' \<or> \<not> length r1 < length s then None
             else case parse_value r1 of
               None \<Rightarrow> None
             | Some (v, r2) \<Rightarrow>
               (case skip_space r2 of
                  [] \<Rightarrow> None
                | c # rest \<Rightarrow>
                  if c = CHR ''}'' then Some ([(k, v)], rest)
                  else if c = CHR '','' \<and> length rest < length s
                  then map_option (\<lambda>(ms, rest'). ((k, v) # ms, rest')) (parse_members rest) else None)))"
  by pat_completeness auto
termination
  by (relation "measure (\<lambda>x. case x of Inl s \<Rightarrow> 2 * length s | Inr (Inl s) \<Rightarrow> 2 * length s + 1 | Inr (Inr s) \<Rightarrow> 2 * length s + 1)")
    auto

declare parse_value.simps [simp del] parse_elements.simps [simp del] parse_members.simps [simp del]

fun json_depth :: "json \<Rightarrow> nat" where
  "json_depth (JArray vs) = Suc (foldr max (map json_depth vs) 0)"
| "json_depth (JObject ms) = Suc (foldr max (map (\<lambda>m. json_depth (snd m)) ms) 0)"
| "json_depth _ = 0"

text \<open>One document: a value, white space, and no more than ten thousand levels.\<close>

definition parse_document :: "string \<Rightarrow> json option" where
  "parse_document s =
     (case parse_value s of
        None \<Rightarrow> None
      | Some (v, r) \<Rightarrow> if skip_space r = [] \<and> json_depth v \<le> 10000 then Some v else None)"

section \<open>Printing\<close>

definition hex_digit :: "nat \<Rightarrow> char" where
  "hex_digit n = ''0123456789abcdef'' ! n"

definition json_char :: "char \<Rightarrow> string" where
  "json_char c =
     (if c = CHR 0x22 \<or> c = CHR 0x5C then [CHR 0x5C, c]
      else if (of_char c :: nat) < 0x20
      then [CHR 0x5C, CHR ''u'', CHR ''0'', CHR ''0'', hex_digit (of_char c div 16), hex_digit (of_char c mod 16)]
      else [c])"

definition json_string :: "string \<Rightarrow> string" where
  "json_string s = [CHR 0x22] @ concat (map json_char s) @ [CHR 0x22]"

fun json_text :: "json \<Rightarrow> string" where
  "json_text JNull = ''null''"
| "json_text (JBool b) = (if b then ''true'' else ''false'')"
| "json_text (JNumber t) = t"
| "json_text (JString s) = json_string s"
| "json_text (JArray vs) = ''['' @ join_at (CHR '','') (map json_text vs) @ '']''"
| "json_text (JObject ms) = ''{'' @ join_at (CHR '','') (map (\<lambda>m. json_string (fst m) @ '':'' @ json_text (snd m)) ms) @ ''}''"

text \<open>Values whose strings are UTF-8 and whose numbers follow the grammar.\<close>

fun json_ok :: "json \<Rightarrow> bool" where
  "json_ok (JNumber t) \<longleftrightarrow> isValidNumber t"
| "json_ok (JString s) \<longleftrightarrow> ValidString s"
| "json_ok (JArray vs) \<longleftrightarrow> list_all json_ok vs"
| "json_ok (JObject ms) \<longleftrightarrow> list_all (\<lambda>m. ValidString (fst m) \<and> json_ok (snd m)) ms"
| "json_ok _ \<longleftrightarrow> True"

subsection \<open>Strings are read back\<close>

lemma hex_value_digit: "n < 16 \<Longrightarrow> hex_value (hex_digit n) = Some n"
proof -
  assume n: "n < 16"
  have "\<forall>n \<in> set [0..<16]. hex_value (hex_digit n) = Some n" by code_simp
  then show ?thesis using n by auto
qed

lemma hex_value_zero: "hex_value (CHR ''0'') = Some 0"
  by code_simp

lemma byte_between_high: "byte_between m n c \<Longrightarrow> 0x80 \<le> m \<Longrightarrow> 0x80 \<le> (of_char c :: nat)"
  by (auto simp: byte_between_def)

lemma tail_bytes_high: "tail_bytes a t \<Longrightarrow> c \<in> set t \<Longrightarrow> 0x80 \<le> (of_char c :: nat)"
  by (cases t) (auto simp: tail_bytes_def second_byte_def list_all_iff dest: byte_between_high split: if_splits)

lemma lead_width_one: "lead_width a = Suc 0 \<longleftrightarrow> (of_char a :: nat) < 0x80"
  by (auto simp: lead_width_def byte_between_def)

lemma utf8_width_length: "utf8_width s \<le> length s"
  by (cases s) (auto simp: utf8_width_def Let_def)

lemma utf8_width_ascii: "(of_char a :: nat) < 0x80 \<Longrightarrow> utf8_width (a # r) = 1"
  by (simp add: utf8_width_def lead_width_one[THEN iffD2] tail_bytes_def)

lemma utf8_width_prefix: "0 < utf8_width s \<Longrightarrow> utf8_width (take (utf8_width s) s @ x) = utf8_width s"
proof (cases s)
  case (Cons a r)
  assume w: "0 < utf8_width s"
  then have n: "utf8_width s = lead_width a" "length r \<ge> lead_width a - 1" "tail_bytes a (take (lead_width a - 1) r)" "0 < lead_width a"
    using Cons by (auto simp: utf8_width_def Let_def split: if_splits)
  then show ?thesis using Cons by (auto simp: utf8_width_def Let_def take_Cons' min_def)
qed (simp add: utf8_width_def)

lemma utf8_width_high:
  assumes "0 < utf8_width (a # r)" "0x80 \<le> (of_char a :: nat)" "c \<in> set (take (utf8_width (a # r)) (a # r))"
  shows "0x80 \<le> (of_char c :: nat)"
  using assms tail_bytes_high[of a "take (lead_width a - 1) r" c]
  by (auto simp: utf8_width_def Let_def take_Cons' split: if_splits)

lemma json_char_high: "\<forall>c \<in> set s. 0x80 \<le> (of_char c :: nat) \<Longrightarrow> concat (map json_char s) = s"
  by (induction s) (auto simp: json_char_def)

lemma scan_char_ascii:
  assumes "(of_char c :: nat) < 0x80"
  shows "scan_string (json_char c @ s) = map_option (\<lambda>(u, rest). (c # u, rest)) (scan_string s)"
proof -
  consider "c = CHR 0x22 \<or> c = CHR 0x5C" | "c \<noteq> CHR 0x22" "c \<noteq> CHR 0x5C" "(of_char c :: nat) < 0x20"
    | "c \<noteq> CHR 0x22" "c \<noteq> CHR 0x5C" "0x20 \<le> (of_char c :: nat)" by linarith
  then show ?thesis
  proof cases
    case 1
    then have "map_of escape_table c = Some c" "c \<noteq> CHR ''u''" by (auto simp: escape_table_def)
    then show ?thesis using 1 by (auto simp: json_char_def)
  next
    case 2
    have "of_char c div 16 < (16 :: nat)" "of_char c mod 16 < (16 :: nat)" using 2(3) by auto
    then have "four_hex (CHR ''0'' # CHR ''0'' # hex_digit (of_char c div 16) # hex_digit (of_char c mod 16) # s)
        = Some (of_char c, s)"
      by (simp add: hex_value_digit hex_value_zero)
    moreover have "encode_rune (of_char c) = [c]" using assms by (simp add: encode_rune_def)
    ultimately have "unicode_escape (CHR ''0'' # CHR ''0'' # hex_digit (of_char c div 16) # hex_digit (of_char c mod 16) # s)
        = Some ([c], s)"
      using 2(3) by (simp add: unicode_escape_def)
    then show ?thesis using 2 by (simp add: json_char_def)
  next
    case 3
    then show ?thesis using assms by (simp add: json_char_def utf8_width_ascii[OF assms])
  qed
qed

lemma scan_string_text: "ValidString s \<Longrightarrow> scan_string (concat (map json_char s) @ CHR 0x22 # rest) = Some (s, rest)"
proof (induction s rule: ValidString.induct)
  case (1 s)
  show ?case
  proof (cases s)
    case Nil
    then show ?thesis by simp
  next
    case (Cons a r)
    then have w: "0 < utf8_width s" "ValidString (drop (utf8_width s) s)"
      using 1(2) by (subst (asm) ValidString.simps, simp split: if_splits)+
    note IH = 1(1)[OF _ _ w(2)]
    let ?n = "utf8_width s" and ?t = "concat (map json_char (drop (utf8_width s) s)) @ CHR 0x22 # rest"
    show ?thesis
    proof (cases "(of_char a :: nat) < 0x80")
      case True
      then show ?thesis using IH w Cons scan_char_ascii[OF True] by (simp add: utf8_width_ascii)
    next
      case False
      then have high: "\<forall>c \<in> set (take ?n s). 0x80 \<le> (of_char c :: nat)" using utf8_width_high[of a r] w(1) Cons by auto
      have "s = take ?n s @ drop ?n s" by simp
      then have whole: "concat (map json_char s) @ CHR 0x22 # rest = take ?n s @ ?t"
        using json_char_high[OF high] by (metis append_assoc concat_append map_append)
      have front: "take ?n s @ ?t = a # (take (?n - 1) r @ ?t)" using w(1) Cons by (simp add: take_Cons')
      have width: "utf8_width (a # (take (?n - 1) r @ ?t)) = ?n" using utf8_width_prefix[OF w(1), of ?t] unfolding front .
      have n: "length (take ?n s) = ?n" using utf8_width_length[of s] by simp
      have "a \<noteq> CHR 0x22" "a \<noteq> CHR 0x5C" "\<not> (of_char a :: nat) < 0x20" using False by auto
      then have "scan_string (take ?n s @ ?t) = map_option (\<lambda>(u, rest). (take ?n (take ?n s @ ?t) @ u, rest)) (scan_string (drop ?n (take ?n s @ ?t)))"
        unfolding front using width w(1) by simp
      also have "\<dots> = Some (s, rest)" using IH w n Cons by simp
      finally show ?thesis using whole by simp
    qed
  qed
qed

lemma ValidString_ascii: "list_all (\<lambda>c. (of_char c :: nat) < 0x80) s \<Longrightarrow> ValidString s"
  by (induction s) (simp_all add: ValidString.simps[of "[]"] ValidString.simps[of "c # t" for c t] utf8_width_ascii)

subsection \<open>Numbers are read back\<close>

definition delimited :: "string \<Rightarrow> bool" where
  "delimited s \<longleftrightarrow> s = [] \<or> hd s \<in> {CHR '','', CHR '']'', CHR ''}''}"

lemma delimited_front:
  assumes "delimited (c # s)" shows "\<not> is_decimal c" "c \<noteq> CHR ''.''" "c \<noteq> CHR ''e''" "c \<noteq> CHR ''E''" "c \<noteq> CHR ''+''" "c \<noteq> CHR ''-''"
  using assms by (auto simp: delimited_def is_decimal_def)

lemma digits_front_append: "delimited rest \<Longrightarrow> digits_front (s @ rest) = (fst (digits_front s), snd (digits_front s) @ rest)"
proof -
  assume d: "delimited rest"
  have "takeWhile is_decimal rest = []" "dropWhile is_decimal rest = rest"
    using d by (cases rest; simp add: delimited_front)+
  then show ?thesis by (induction s) (auto simp: digits_front_def)
qed

lemma scan_whole_append:
  "delimited rest \<Longrightarrow> scan_whole s = Some (u, r) \<Longrightarrow> scan_whole (s @ rest) = Some (u, r @ rest)"
  by (cases s) (auto simp: scan_whole_def digits_front_append[of rest "c # t" for c t, simplified] split: if_splits)

lemma scan_fraction_append:
  "delimited rest \<Longrightarrow> scan_fraction s = Some (u, r) \<Longrightarrow> scan_fraction (s @ rest) = Some (u, r @ rest)"
  by (cases s; cases rest) (auto simp: scan_fraction_def Let_def digits_front_append delimited_front split: if_splits prod.splits)

lemma digits_front_Nil [simp]: "digits_front [] = ([], [])"
  by (simp add: digits_front_def)

lemma scan_exponent_append:
  assumes "delimited rest" "scan_exponent s = Some (u, r)"
  shows "scan_exponent (s @ rest) = Some (u, r @ rest)"
proof (cases s)
  case Nil
  then show ?thesis using assms by (cases rest) (auto simp: scan_exponent_def delimited_front)
next
  case (Cons c t)
  then show ?thesis using assms(2) digits_front_append[OF assms(1)]
    by (cases t) (auto simp: scan_exponent_def Let_def digits_front_append[OF assms(1), of "x # y" for x y, simplified] split: if_splits prod.splits)
qed

lemma scan_sign_append: "s \<noteq> [] \<Longrightarrow> scan_sign s = (u, r) \<Longrightarrow> scan_sign (s @ rest) = (u, r @ rest)"
  by (cases s) (auto simp: scan_sign_def split: if_splits)

lemma scan_number_append:
  assumes "delimited rest" "scan_number s = Some (u, r)"
  shows "scan_number (s @ rest) = Some (u, r @ rest)"
proof -
  obtain a s1 b s2 c s3 d where p: "scan_sign s = (a, s1)" "scan_whole s1 = Some (b, s2)" "scan_fraction s2 = Some (c, s3)"
      "scan_exponent s3 = Some (d, r)" "u = a @ b @ c @ d"
    using assms(2) by (auto simp: scan_number_def split: prod.splits option.splits)
  have "s \<noteq> []" using p(1,2) by (auto simp: scan_sign_def scan_whole_def)
  then show ?thesis
    using scan_sign_append[OF _ p(1), of rest] scan_whole_append[OF assms(1) p(2)] scan_fraction_append[OF assms(1) p(3)]
      scan_exponent_append[OF assms(1) p(4)] p(5) by (simp add: scan_number_def)
qed

lemma scan_pieces:
  "digits_front s = (u, r) \<Longrightarrow> s = u @ r" "scan_sign s = (u, r) \<Longrightarrow> s = u @ r"
  "scan_whole s = Some (u, r) \<Longrightarrow> s = u @ r" "scan_fraction s = Some (u, r) \<Longrightarrow> s = u @ r"
  by (auto simp: digits_front_def scan_sign_def scan_whole_def scan_fraction_def Let_def split: list.splits if_splits)

lemma scan_exponent_piece: "scan_exponent s = Some (u, r) \<Longrightarrow> s = u @ r"
  by (auto simp: scan_exponent_def Let_def dest: scan_pieces(1) split: list.splits if_splits prod.splits)

lemma scan_number_piece: "scan_number s = Some (u, r) \<Longrightarrow> s = u @ r"
  by (auto simp: scan_number_def dest!: scan_pieces scan_exponent_piece split: prod.splits option.splits)

lemma scan_number_text: "isValidNumber t \<Longrightarrow> delimited rest \<Longrightarrow> scan_number (t @ rest) = Some (t, rest)"
  using scan_number_append[of rest t] scan_number_piece[of t]
  by (auto simp: isValidNumber_def split: option.splits prod.splits list.splits)

lemma number_front: "isValidNumber t \<Longrightarrow> \<exists>c r. t = c # r \<and> (c = CHR ''-'' \<or> is_decimal c)"
  by (auto simp: isValidNumber_def scan_number_def scan_sign_def scan_whole_def is_decimal_def split: list.splits option.splits if_splits)

subsection \<open>Values are read back\<close>

lemma skip_space_front: "\<not> json_space c \<Longrightarrow> skip_space (c # s) = c # s"
  by (simp add: skip_space_def)

lemma json_text_front: "json_ok v \<Longrightarrow> \<exists>c r. json_text v = c # r \<and> \<not> json_space c \<and> c \<noteq> CHR '']'' \<and> c \<noteq> CHR ''}''"
  by (cases v) (auto simp: json_string_def json_space_def is_decimal_def dest!: number_front)

lemma parse_value_number: "isValidNumber t \<Longrightarrow> delimited rest \<Longrightarrow> parse_value (t @ rest) = Some (JNumber t, rest)"
proof -
  assume t: "isValidNumber t" "delimited rest"
  obtain c r where c: "t = c # r" "c = CHR ''-'' \<or> is_decimal c" using number_front[OF t(1)] by blast
  then have "\<not> json_space c" "c \<noteq> CHR 0x22" "c \<noteq> CHR ''[''" "c \<noteq> CHR ''{''" by (auto simp: is_decimal_def json_space_def)
  then show ?thesis using c scan_number_text[OF t] by (simp add: parse_value.simps[of "c # _"] skip_space_front)
qed

lemma join_at_Cons: "ws \<noteq> [] \<Longrightarrow> join_at d (w # ws) = w @ d # join_at d ws"
  by (cases ws) auto

lemma parse_elements_text:
  assumes "\<And>v rest. v \<in> set vs \<Longrightarrow> delimited rest \<Longrightarrow> parse_value (json_text v @ rest) = Some (v, rest)" "vs \<noteq> []"
  shows "parse_elements (join_at (CHR '','') (map json_text vs) @ CHR '']'' # rest) = Some (vs, rest)"
  using assms
proof (induction vs)
  case (Cons v vs)
  show ?case
  proof (cases "vs = []")
    case True
    have "parse_value (json_text v @ CHR '']'' # rest) = Some (v, CHR '']'' # rest)"
      using Cons.prems by (simp add: delimited_def)
    then show ?thesis using True by (simp add: parse_elements.simps[of "json_text v @ _"] skip_space_front json_space_def)
  next
    case False
    let ?r = "join_at (CHR '','') (map json_text vs) @ CHR '']'' # rest"
    have "parse_value (json_text v @ CHR '','' # ?r) = Some (v, CHR '','' # ?r)"
      using Cons.prems by (simp add: delimited_def)
    then show ?thesis using False Cons
      by (simp add: join_at_Cons parse_elements.simps[of "json_text v @ _"] skip_space_front json_space_def)
  qed
qed simp

lemma parse_members_text:
  assumes "\<And>m rest. m \<in> set ms \<Longrightarrow> delimited rest \<Longrightarrow> parse_value (json_text (snd m) @ rest) = Some (snd m, rest)"
    "\<forall>m \<in> set ms. ValidString (fst m)" "ms \<noteq> []"
  shows "parse_members (join_at (CHR '','') (map (\<lambda>m. json_string (fst m) @ '':'' @ json_text (snd m)) ms) @ CHR ''}'' # rest)
    = Some (ms, rest)"
  using assms
proof (induction ms)
  case (Cons m ms)
  have key: "scan_string (concat (map json_char (fst m)) @ CHR 0x22 # r) = Some (fst m, r)" for r
    using Cons.prems by (simp add: scan_string_text)
  let ?pm = "\<lambda>r. parse_members (json_string (fst m) @ '':'' @ json_text (snd m) @ r)"
  have step: "?pm r = (case skip_space r of [] \<Rightarrow> None | c # rest \<Rightarrow>
       if c = CHR ''}'' then Some ([m], rest)
       else if c = CHR '','' then map_option (\<lambda>(ms, rest'). (m # ms, rest')) (parse_members rest) else None)"
    if "delimited r" for r
  proof -
    have "length (tl (skip_space r)) < length r" if "skip_space r \<noteq> []"
      using skip_space_length[of r] that by (cases "skip_space r") simp_all
    then show ?thesis using Cons.prems(1)[of m r] \<open>delimited r\<close> key
      by (auto simp: parse_members.simps[of "CHR 0x22 # _"] json_string_def skip_space_front json_space_def split: list.splits)
  qed
  show ?case
  proof (cases "ms = []")
    case True
    then show ?thesis using step[of "CHR ''}'' # rest"] by (simp add: skip_space_front json_space_def delimited_def)
  next
    case False
    let ?r = "join_at (CHR '','') (map (\<lambda>m. json_string (fst m) @ '':'' @ json_text (snd m)) ms) @ CHR ''}'' # rest"
    have "parse_members ?r = Some (ms, rest)" using False Cons by simp
    then show ?thesis using False step[of "CHR '','' # ?r"]
      by (simp add: join_at_Cons skip_space_front json_space_def delimited_def)
  qed
qed simp

theorem parse_value_text: "json_ok v \<Longrightarrow> delimited rest \<Longrightarrow> parse_value (json_text v @ rest) = Some (v, rest)"
proof (induction v arbitrary: rest)
  case JNull
  then show ?case by (simp add: parse_value.simps skip_space_front json_space_def scan_literal_def is_decimal_def)
next
  case (JBool b)
  then show ?case by (simp add: parse_value.simps skip_space_front json_space_def scan_literal_def is_decimal_def)
next
  case (JNumber t)
  then show ?case by (simp add: parse_value_number)
next
  case (JString s)
  then show ?case by (simp add: parse_value.simps[of "_ # _"] skip_space_front json_space_def json_string_def scan_string_text)
next
  case (JArray vs)
  show ?case
  proof (cases vs)
    case Nil
    then show ?thesis by (simp add: parse_value.simps skip_space_front json_space_def)
  next
    case (Cons v ws)
    obtain c r where c: "json_text v = c # r" "\<not> json_space c" "c \<noteq> CHR '']''"
      using json_text_front[of v] JArray.prems Cons by auto
    have e: "parse_elements (join_at (CHR '','') (map json_text vs) @ CHR '']'' # rest) = Some (vs, rest)"
      using JArray Cons by (intro parse_elements_text) (auto simp: list_all_iff)
    have "take 1 (skip_space (join_at (CHR '','') (map json_text vs) @ CHR '']'' # rest)) \<noteq> '']''"
      using c Cons by (cases ws) (simp_all add: skip_space_front)
    then show ?thesis using e by (simp add: parse_value.simps[of "_ # _"] skip_space_front json_space_def)
  qed
next
  case (JObject ms)
  show ?case
  proof (cases ms)
    case Nil
    then show ?thesis by (simp add: parse_value.simps skip_space_front json_space_def)
  next
    case (Cons m ns)
    let ?t = "join_at (CHR '','') (map (\<lambda>m. json_string (fst m) @ '':'' @ json_text (snd m)) ms) @ CHR ''}'' # rest"
    have v: "parse_value (json_text (snd m) @ r) = Some (snd m, r)" if "m \<in> set ms" "delimited r" for m r
      using JObject.IH[of m "snd m" r] JObject.prems(1) that by (cases m) (auto simp: list_all_iff)
    have e: "parse_members ?t = Some (ms, rest)"
      using v JObject.prems(1) Cons by (intro parse_members_text) (auto simp: list_all_iff)
    have "take 1 (skip_space ?t) \<noteq> ''}''"
      using Cons by (cases ns) (simp_all add: json_string_def skip_space_front json_space_def)
    then show ?thesis using e by (simp add: parse_value.simps[of "_ # _"] skip_space_front json_space_def)
  qed
qed

theorem parse_document_text: "json_ok v \<Longrightarrow> json_depth v \<le> 10000 \<Longrightarrow> parse_document (json_text v) = Some v"
  using parse_value_text[of v "[]"] by (simp add: parse_document_def delimited_def skip_space_def)

end
