(* ===== verification/Privy_Auth.thy ===== *)
theory Privy_Auth
  imports Json_Text Page_Cursor
begin

text \<open>
  \<^verbatim>\<open>privyauth/verifier.go\<close>: the local verification of Privy access and identity tokens. Base64, JSON, UTF-8
  and the checks on a P-256 point are computed; SHA-256, ECDSA verification and the PEM and X.509
  decoders of the standard library are the fields of \<open>auth_library\<close>, and the address codec of
  go-ethereum comes from \<open>read_library\<close>. Causes of errors of the library are abbreviated.
\<close>

section \<open>Keys\<close>

definition maxTokenBytes :: nat where "maxTokenBytes = 16 * 1024"
definition maxHeaderBytes :: nat where "maxHeaderBytes = 2 * 1024"
definition maxClaimsBytes :: nat where "maxClaimsBytes = 32 * 1024"
definition maxAccountsJSON :: nat where "maxAccountsJSON = 24 * 1024"

record Principal =
  prPrivyDID :: string
  prWallets :: "Address list"

record PublicKey =
  pkCurve :: string
  pkX :: nat
  pkY :: nat

datatype parsed_key = EcdsaKey PublicKey | OtherKey

record auth_library =
  alSha256 :: "string \<Rightarrow> string"
  alEcdsaVerify :: "PublicKey \<Rightarrow> string \<Rightarrow> nat \<Rightarrow> nat \<Rightarrow> bool"
  alPemDecode :: "string \<Rightarrow> (string \<times> string \<times> string) option"
  alParsePKIX :: "string \<Rightarrow> string + parsed_key"
  alParseCertificate :: "string \<Rightarrow> string + parsed_key"

record ES256Verifier =
  evAppID :: string
  evKey :: PublicKey

definition bytes_value :: "string \<Rightarrow> nat" where
  "bytes_value s = foldl (\<lambda>n c. n * 256 + of_char c) 0 s"

text \<open>\<^verbatim>\<open>ecdsa.ParseUncompressedPublicKey\<close> for P-256: reduced coordinates of a point of the curve.\<close>

definition p256_p :: nat where
  "p256_p = 0xffffffff00000001000000000000000000000000ffffffffffffffffffffffff"

definition p256_b :: nat where
  "p256_b = 0x5ac635d8aa3a93e7b3ebbd55769886bc651d06b0cc53b0f63bce3c3e27d2604b"

definition on_p256 :: "nat \<Rightarrow> nat \<Rightarrow> bool" where
  "on_p256 x y \<longleftrightarrow> x < p256_p \<and> y < p256_p \<and> (y * y + 3 * x) mod p256_p = (x * x * x + p256_b) mod p256_p"

definition ParseUncompressedPublicKey :: "string \<Rightarrow> PublicKey option" where
  "ParseUncompressedPublicKey s =
     (let x = bytes_value (take 32 (drop 1 s)); y = bytes_value (drop 33 s) in
      if length s = 65 \<and> take 1 s = [CHR 0x04] \<and> on_p256 x y then Some \<lparr>pkCurve = ''P-256'', pkX = x, pkY = y\<rparr> else None)"

section \<open>Strict JSON\<close>

text \<open>
  \<^verbatim>\<open>scanJSONValue\<close> walks over the tokens of a value and remembers the keys of each object; the tokens
  are those of the value that the document denotes.
\<close>

fun scanJSONValue :: "json \<Rightarrow> string + unit"
  and scan_members :: "string list \<Rightarrow> (string \<times> json) list \<Rightarrow> string + unit"
  and scan_elements :: "json list \<Rightarrow> string + unit" where
  "scanJSONValue (JObject ms) = scan_members [] ms"
| "scanJSONValue (JArray vs) = scan_elements vs"
| "scanJSONValue _ = Inr ()"
| "scan_members seen [] = Inr ()"
| "scan_members seen ((k, v) # ms) =
     (if k \<in> set seen then Inl ''duplicate JSON key'' else rbind (scanJSONValue v) (\<lambda>_. scan_members (k # seen) ms))"
| "scan_elements [] = Inr ()"
| "scan_elements (v # vs) = rbind (scanJSONValue v) (\<lambda>_. scan_elements vs)"

definition rejectDuplicateKeys :: "string \<Rightarrow> string + unit" where
  "rejectDuplicateKeys data = (case parse_document data of None \<Rightarrow> Inl ''invalid JSON'' | Some v \<Rightarrow> scanJSONValue v)"

text \<open>
  The decoder for a target type is a function from values. A null leaves the zero value of the target.
\<close>

definition decodeStrict :: "(json \<Rightarrow> string + 'a) \<Rightarrow> string \<Rightarrow> string + 'a" where
  "decodeStrict target data =
     rbind (rejectDuplicateKeys data) (\<lambda>_.
     case parse_document data of None \<Rightarrow> Inl ''invalid JSON'' | Some v \<Rightarrow> target v)"

type_synonym claims = "(string \<times> json) list"

definition decode_map :: "json \<Rightarrow> string + claims" where
  "decode_map v = (case v of JObject ms \<Rightarrow> Inr ms | JNull \<Rightarrow> Inr [] | _ \<Rightarrow> Inl ''cannot unmarshal into map'')"

definition decode_maps :: "json \<Rightarrow> string + claims list" where
  "decode_maps v = (case v of JArray vs \<Rightarrow> rtraverse decode_map vs | JNull \<Rightarrow> Inr [] | _ \<Rightarrow> Inl ''cannot unmarshal into slice'')"

definition unmarshal_string :: "json \<Rightarrow> string + string" where
  "unmarshal_string v = (case v of JString s \<Rightarrow> Inr s | JNull \<Rightarrow> Inr [] | _ \<Rightarrow> Inl ''cannot unmarshal into string'')"

definition unmarshal_bool :: "json \<Rightarrow> string + bool" where
  "unmarshal_bool v = (case v of JBool b \<Rightarrow> Inr b | JNull \<Rightarrow> Inr False | _ \<Rightarrow> Inl ''cannot unmarshal into bool'')"

text \<open>A \<^verbatim>\<open>json.Number\<close> is read from a number or from a string that holds one.\<close>

definition unmarshal_number :: "json \<Rightarrow> string + string" where
  "unmarshal_number v =
     (case v of
        JNumber t \<Rightarrow> Inr t
      | JString t \<Rightarrow> if isValidNumber t then Inr t else Inl ''invalid number literal''
      | JNull \<Rightarrow> Inr []
      | _ \<Rightarrow> Inl ''cannot unmarshal into number'')"

definition requiredString :: "claims \<Rightarrow> string \<Rightarrow> string + string" where
  "requiredString claims name =
     (case map_of claims name of
        None \<Rightarrow> Inl (name @ '' is missing'')
      | Some raw \<Rightarrow>
        (case unmarshal_string raw of
           Inl _ \<Rightarrow> Inl (name @ '' is invalid'')
         | Inr value \<Rightarrow> if value = [] then Inl (name @ '' is invalid'') else Inr value))"

definition integer :: "json \<Rightarrow> string + int" where
  "integer raw =
     rbind (unmarshal_number raw) (\<lambda>number.
     case ParseInt 64 number of None \<Rightarrow> Inl ''invalid integer'' | Some n \<Rightarrow> Inr n)"

definition requiredInteger :: "claims \<Rightarrow> string \<Rightarrow> string + int" where
  "requiredInteger claims name =
     (case map_of claims name of None \<Rightarrow> Inl (name @ '' is missing'') | Some raw \<Rightarrow> integer raw)"

section \<open>Verification keys\<close>

record jwk =
  jwKTY :: string
  jwCRV :: string
  jwX :: string
  jwY :: string

text \<open>
  Field names are matched without regard to case, where the Kelvin sign folds to \<^verbatim>\<open>k\<close> and the long s to \<^verbatim>\<open>s\<close>; a field that
  is not of the struct is refused.
\<close>

fun fold_name :: "string \<Rightarrow> string" where
  "fold_name s =
     (if s = [] then []
      else if take 3 s = [CHR 0xE2, CHR 0x84, CHR 0xAA] then CHR ''k'' # fold_name (drop 3 s)
      else if take 2 s = [CHR 0xC5, CHR 0xBF] then CHR ''s'' # fold_name (drop 2 s)
      else (if byte_between 65 90 (hd s) then char_of (of_char (hd s) + 32 :: nat) else hd s) # fold_name (tl s))"

declare fold_name.simps [simp del]

definition set_field :: "json \<Rightarrow> (string \<Rightarrow> 'r \<Rightarrow> 'r) \<Rightarrow> 'r \<Rightarrow> string + 'r" where
  "set_field v put r =
     (case v of JString s \<Rightarrow> Inr (put s r) | JNull \<Rightarrow> Inr r | _ \<Rightarrow> Inl ''cannot unmarshal into string'')"

definition jwk_field :: "string \<times> json \<Rightarrow> jwk \<Rightarrow> string + jwk" where
  "jwk_field m k =
     (let name = fold_name (fst m) in
      if name = ''kty'' then set_field (snd m) (\<lambda>s. jwKTY_update (\<lambda>_. s)) k
      else if name = ''crv'' then set_field (snd m) (\<lambda>s. jwCRV_update (\<lambda>_. s)) k
      else if name = ''x'' then set_field (snd m) (\<lambda>s. jwX_update (\<lambda>_. s)) k
      else if name = ''y'' then set_field (snd m) (\<lambda>s. jwY_update (\<lambda>_. s)) k
      else Inl ''json: unknown field'')"

definition decode_jwk :: "json \<Rightarrow> string + jwk" where
  "decode_jwk v =
     (let zero = \<lparr>jwKTY = [], jwCRV = [], jwX = [], jwY = []\<rparr> in
      case v of JObject ms \<Rightarrow> rfold jwk_field ms zero | JNull \<Rightarrow> Inr zero | _ \<Rightarrow> Inl ''cannot unmarshal into struct'')"

definition parse_jwk :: "string \<Rightarrow> string + PublicKey" where
  "parse_jwk value =
     rbind (decodeStrict decode_jwk value) (\<lambda>k.
     if jwKTY k \<noteq> ''EC'' \<or> jwCRV k \<noteq> ''P-256'' then Inl ''verification JWK must be EC P-256''
     else case (b64_decode False (jwX k), b64_decode False (jwY k)) of
       (Some x, Some y) \<Rightarrow>
         if length x \<noteq> 32 \<or> length y \<noteq> 32 then Inl ''verification JWK coordinates are invalid''
         else (case ParseUncompressedPublicKey ([CHR 0x04] @ x @ y) of
           None \<Rightarrow> Inl ''verification JWK is not on P-256''
         | Some key \<Rightarrow> Inr key)
     | _ \<Rightarrow> Inl ''verification JWK coordinates are invalid'')"

text \<open>\<^verbatim>\<open>strings.ReplaceAll\<close> of the two characters backslash and \<^verbatim>\<open>n\<close> by a line break.\<close>

fun unescape_newlines :: "string \<Rightarrow> string" where
  "unescape_newlines (a # b # s) =
     (if a = CHR 0x5C \<and> b = CHR ''n'' then CHR 0x0A # unescape_newlines s else a # unescape_newlines (b # s))"
| "unescape_newlines s = s"

definition parse_pem :: "auth_library \<Rightarrow> string \<Rightarrow> string + PublicKey" where
  "parse_pem lib value =
     (let value = (if CHR 0x0A \<notin> set value then unescape_newlines value else value) in
      case alPemDecode lib value of
        None \<Rightarrow> Inl ''verification key must be one PEM block or a JWK''
      | Some (kind, bytes, rest) \<Rightarrow>
        if TrimSpace rest \<noteq> [] then Inl ''verification key must be one PEM block or a JWK''
        else
          rbind (if kind = ''PUBLIC KEY'' then alParsePKIX lib bytes
                 else if kind = ''CERTIFICATE'' then alParseCertificate lib bytes
                 else Inl ''private or unsupported PEM block'') (\<lambda>parsed.
          case parsed of
            EcdsaKey key \<Rightarrow> if pkCurve key = ''P-256'' then Inr key else Inl ''verification key must be ECDSA P-256''
          | OtherKey \<Rightarrow> Inl ''verification key must be ECDSA P-256''))"

definition parsePublicKey :: "auth_library \<Rightarrow> string \<Rightarrow> string + PublicKey" where
  "parsePublicKey lib value =
     (let value = TrimSpace value in if take 1 value = ''{'' then parse_jwk value else parse_pem lib value)"

definition NewES256Verifier :: "auth_library \<Rightarrow> string \<Rightarrow> string \<Rightarrow> string + ES256Verifier" where
  "NewES256Verifier lib appID serializedKey =
     (if TrimSpace appID = [] then Inl ''Privy app ID is required''
      else case parsePublicKey lib serializedKey of
        Inl e \<Rightarrow> Inl (''parse Privy verification key: '' @ e)
      | Inr key \<Rightarrow> Inr \<lparr>evAppID = appID, evKey = key\<rparr>)"

section \<open>Tokens\<close>

definition decodePart :: "string \<Rightarrow> nat \<Rightarrow> string + string" where
  "decodePart value maximum =
     (if value = [] \<or> length value > maximum * 2 then Inl ''JWT section size is invalid''
      else case b64_decode False value of
        None \<Rightarrow> Inl ''JWT section encoding is invalid''
      | Some decoded \<Rightarrow> if length decoded > maximum then Inl ''JWT section encoding is invalid'' else Inr decoded)"

definition check :: "bool \<Rightarrow> string \<Rightarrow> string + unit" where
  "check b e = (if b then Inr () else Inl e)"

text \<open>The checks on the claims of a token at a time.\<close>

definition verify_claims :: "ES256Verifier \<Rightarrow> int \<Rightarrow> claims \<Rightarrow> string + unit" where
  "verify_claims v now claims =
     rbind (check (requiredString claims ''iss'' = Inr ''privy.io'') ''JWT issuer is invalid'') (\<lambda>_.
     rbind (check (requiredString claims ''aud'' = Inr (evAppID v)) ''JWT audience is invalid'') (\<lambda>_.
     rbind (check (case requiredString claims ''sub'' of Inl _ \<Rightarrow> False | Inr subject \<Rightarrow> TrimSpace subject \<noteq> [])
       ''JWT subject is invalid'') (\<lambda>_.
     rbind (check (case requiredInteger claims ''iat'' of Inl _ \<Rightarrow> False | Inr issuedAt \<Rightarrow> issuedAt \<le> now)
       ''JWT issued-at time is invalid'') (\<lambda>_.
     rbind (check (case requiredInteger claims ''exp'' of Inl _ \<Rightarrow> False | Inr expiresAt \<Rightarrow> now < expiresAt) ''JWT is expired'') (\<lambda>_.
     case map_of claims ''nbf'' of
       None \<Rightarrow> Inr ()
     | Some raw \<Rightarrow> check (case integer raw of Inl _ \<Rightarrow> False | Inr notBefore \<Rightarrow> notBefore \<le> now) ''JWT is not yet valid'')))))"

text \<open>The header of a token: the algorithm is ES256 and no extension is critical.\<close>

definition verify_header :: "string \<Rightarrow> string + unit" where
  "verify_header header =
     rbind (decodeStrict decode_map header) (\<lambda>headerClaims.
     rbind (check (requiredString headerClaims ''alg'' = Inr ''ES256'') ''JWT algorithm is not ES256'') (\<lambda>_.
     check (map_of headerClaims ''crit'' = None) ''critical JWT extensions are unsupported''))"

definition verifyJWT :: "auth_library \<Rightarrow> ES256Verifier \<Rightarrow> int \<Rightarrow> string \<Rightarrow> string + claims" where
  "verifyJWT lib v now token =
     (if token = [] \<or> length token > maxTokenBytes \<or> TrimSpace token \<noteq> token then Inl ''token size or whitespace is invalid''
      else case split_at (CHR ''.'') token of
        [part0, part1, part2] \<Rightarrow>
          if CHR ''='' \<in> set token then Inl ''token compact form is invalid''
          else
            rbind (decodePart part0 maxHeaderBytes) (\<lambda>header.
            rbind (decodePart part1 maxClaimsBytes) (\<lambda>claimsBytes.
            rbind (case decodePart part2 64 of
                     Inl _ \<Rightarrow> Inl ''ES256 signature is invalid''
                   | Inr signature \<Rightarrow> if length signature \<noteq> 64 then Inl ''ES256 signature is invalid'' else Inr signature) (\<lambda>signature.
            rbind (verify_header header) (\<lambda>_.
            rbind (check (alEcdsaVerify lib (evKey v) (alSha256 lib (part0 @ ''.'' @ part1))
                     (bytes_value (take 32 signature)) (bytes_value (drop 32 signature)))
              ''JWT signature verification failed'') (\<lambda>_.
            rbind (decodeStrict decode_map claimsBytes) (\<lambda>claims.
            rbind (verify_claims v now claims) (\<lambda>_. Inr claims)))))))
      | _ \<Rightarrow> Inl ''token compact form is invalid'')"

definition ParseBearer :: "string \<Rightarrow> string + string" where
  "ParseBearer value =
     (if length value > maxTokenBytes + 7 \<or> take 7 value \<noteq> ''Bearer '' then Inl ''invalid Privy credentials''
      else let token = drop 7 value in
        if token = [] \<or> (\<exists>c \<in> set token. c \<in> {CHR 0x20, CHR 0x09, CHR 0x0D, CHR 0x0A, CHR '',''})
        then Inl ''invalid Privy credentials'' else Inr token)"

section \<open>Linked wallets\<close>

text \<open>The address of an account, or nothing where the loop continues with the next one.\<close>

definition wallet_of :: "read_library \<Rightarrow> claims \<Rightarrow> string + Address option" where
  "wallet_of rl account =
     (case requiredString account ''type'' of
        Inl _ \<Rightarrow> Inl ''linked account type is invalid''
      | Inr kind \<Rightarrow>
        if kind \<noteq> ''wallet'' \<and> kind \<noteq> ''smart_wallet'' then Inr None
        else
          rbind (case map_of account ''linked'' of
                   None \<Rightarrow> Inr True
                 | Some raw \<Rightarrow> map_sum (\<lambda>_. ''linked account flag is invalid'') id (unmarshal_bool raw)) (\<lambda>linked.
          if \<not> linked then Inr None
          else
            rbind (case map_of account ''chain_type'' of
                     None \<Rightarrow> Inr True
                   | Some raw \<Rightarrow> map_sum (\<lambda>_. ''linked account chain type is invalid'') (\<lambda>t. t = ''ethereum'') (unmarshal_string raw)) (\<lambda>evm.
            if \<not> evm then Inr None
            else case requiredString account ''address'' of
              Inl _ \<Rightarrow> Inl ''linked EVM wallet address is invalid''
            | Inr addressText \<Rightarrow>
              if \<not> rlIsHexAddress rl addressText then Inl ''linked EVM wallet address is invalid''
              else Inr (Some (rlHexToAddress rl addressText)))))"

definition add_wallet :: "read_library \<Rightarrow> claims \<Rightarrow> Address list \<Rightarrow> string + Address list" where
  "add_wallet rl account wallets =
     rbind (wallet_of rl account) (\<lambda>found.
     case found of
       None \<Rightarrow> Inr wallets
     | Some address \<Rightarrow> if address \<in> set wallets then Inl ''duplicate linked wallet'' else Inr (wallets @ [address]))"

definition parseWallets :: "read_library \<Rightarrow> string \<Rightarrow> string + Address list" where
  "parseWallets rl data =
     (case decodeStrict decode_maps data of
        Inl _ \<Rightarrow> Inl ''linked accounts JSON is invalid''
      | Inr accounts \<Rightarrow> rfold (add_wallet rl) accounts [])"

text \<open>
  The clock is read once for each token. The error stands for \<^verbatim>\<open>ErrInvalidCredentials\<close> with its cause.
\<close>

definition Verify ::
    "auth_library \<Rightarrow> read_library \<Rightarrow> ES256Verifier \<Rightarrow> int \<Rightarrow> int \<Rightarrow> string \<Rightarrow> string \<Rightarrow> string + Principal" where
  "Verify lib rl v now now' accessToken identityToken =
     rbind (verifyJWT lib v now accessToken) (\<lambda>access.
     rbind (verifyJWT lib v now' identityToken) (\<lambda>identity.
     rbind (requiredString access ''sub'') (\<lambda>accessSubject.
     rbind (check (requiredString identity ''sub'' = Inr accessSubject) ''token subjects do not match'') (\<lambda>_.
     case map_of identity ''linked_accounts'' of
       None \<Rightarrow> Inl ''linked_accounts is missing''
     | Some accountsValue \<Rightarrow>
       (case unmarshal_string accountsValue of
          Inl _ \<Rightarrow> Inl ''linked_accounts is invalid''
        | Inr encodedAccounts \<Rightarrow>
          if length encodedAccounts > maxAccountsJSON then Inl ''linked_accounts is invalid''
          else rbind (parseWallets rl encodedAccounts) (\<lambda>wallets.
            Inr \<lparr>prPrivyDID = accessSubject, prWallets = wallets\<rparr>))))))"

section \<open>What is accepted\<close>

text \<open>No object anywhere in a value has a key twice.\<close>

fun unique_keys :: "json \<Rightarrow> bool" where
  "unique_keys (JObject ms) \<longleftrightarrow> distinct (map fst ms) \<and> (\<forall>m \<in> set ms. unique_keys (snd m))"
| "unique_keys (JArray vs) \<longleftrightarrow> (\<forall>v \<in> set vs. unique_keys v)"
| "unique_keys _ \<longleftrightarrow> True"

lemma scan_unique:
  "scanJSONValue v = Inr () \<longleftrightarrow> unique_keys v"
  "scan_members seen ms = Inr () \<longleftrightarrow> distinct (map fst ms) \<and> set (map fst ms) \<inter> set seen = {} \<and> (\<forall>m \<in> set ms. unique_keys (snd m))"
  "scan_elements vs = Inr () \<longleftrightarrow> (\<forall>v \<in> set vs. unique_keys v)"
  by (induction v and seen ms and vs rule: scanJSONValue_scan_members_scan_elements.induct) (auto simp: result_iff)

lemma check_Inr [result_iff]: "check b e = Inr u \<longleftrightarrow> b"
  by (simp add: check_def)

lemma decodeStrict_Inr [result_iff]:
  "decodeStrict target data = Inr y \<longleftrightarrow> (\<exists>v. parse_document data = Some v \<and> unique_keys v \<and> target v = Inr y)"
  by (auto simp: decodeStrict_def rejectDuplicateKeys_def result_iff scan_unique split: option.splits)

text \<open>An account that stands for a linked EVM wallet with an address.\<close>

definition linked_wallet :: "read_library \<Rightarrow> claims \<Rightarrow> Address \<Rightarrow> bool" where
  "linked_wallet rl account a \<longleftrightarrow>
     (map_of account ''type'' = Some (JString ''wallet'') \<or> map_of account ''type'' = Some (JString ''smart_wallet''))
     \<and> map_of account ''linked'' \<in> {None, Some (JBool True)}
     \<and> map_of account ''chain_type'' \<in> {None, Some (JString ''ethereum'')}
     \<and> (\<exists>t. map_of account ''address'' = Some (JString t) \<and> t \<noteq> [] \<and> rlIsHexAddress rl t \<and> rlHexToAddress rl t = a)"

lemma requiredString_Inr [result_iff]: "requiredString cs name = Inr s \<longleftrightarrow> map_of cs name = Some (JString s) \<and> s \<noteq> []"
  by (auto simp: requiredString_def unmarshal_string_def split: option.splits json.splits)

lemma unmarshal_bool_Inr: "unmarshal_bool raw = Inr b \<longleftrightarrow> raw = JBool b \<or> raw = JNull \<and> \<not> b"
  by (auto simp: unmarshal_bool_def split: json.splits)

lemma unmarshal_string_Inr: "s \<noteq> [] \<Longrightarrow> unmarshal_string raw = Inr s \<longleftrightarrow> raw = JString s"
  by (auto simp: unmarshal_string_def split: json.splits)

lemma map_sum_result [result_iff]: "map_sum f g m = Inr y \<longleftrightarrow> (\<exists>x. m = Inr x \<and> y = g x)"
  by (cases m) auto

lemma wallet_of_Some: "wallet_of rl account = Inr (Some a) \<longleftrightarrow> linked_wallet rl account a"
proof -
  have l: "(case map_of account ''linked'' of None \<Rightarrow> Inr True
      | Some raw \<Rightarrow> map_sum (\<lambda>_. ''linked account flag is invalid'') id (unmarshal_bool raw)) = Inr True
    \<longleftrightarrow> map_of account ''linked'' \<in> {None, Some (JBool True)}"
    by (auto simp: result_iff unmarshal_bool_Inr split: option.splits)
  have c: "(case map_of account ''chain_type'' of None \<Rightarrow> Inr True
      | Some raw \<Rightarrow> map_sum (\<lambda>_. ''linked account chain type is invalid'') (\<lambda>t. t = ''ethereum'') (unmarshal_string raw)) = Inr True
    \<longleftrightarrow> map_of account ''chain_type'' \<in> {None, Some (JString ''ethereum'')}"
    by (auto simp: result_iff unmarshal_string_Inr split: option.splits)
  have s: "(case m of Inl x \<Rightarrow> Inl e | Inr y \<Rightarrow> f y) = Inr z \<longleftrightarrow> (\<exists>y. m = Inr y \<and> f y = Inr z)" for m :: "'x + 'y" and e :: 'e and f and z :: 'z
    by (cases m) auto
  have d: "(if \<not> b then Inr None else m) = Inr (Some z) \<longleftrightarrow> b \<and> m = Inr (Some z)" for b and m :: "'e + 'z option" and z
    by auto
  have k: "(if p then Inr None else m) = Inr (Some z) \<longleftrightarrow> \<not> p \<and> m = Inr (Some z)" for p and m :: "'e + 'z option" and z
    by auto
  show ?thesis
    unfolding wallet_of_def s k rbind_eq_Inr
    using l c by (auto simp: linked_wallet_def result_iff s)
qed

fun somes :: "'a option list \<Rightarrow> 'a list" where
  "somes [] = []"
| "somes (None # xs) = somes xs"
| "somes (Some x # xs) = x # somes xs"

lemma set_somes: "x \<in> set (somes xs) \<longleftrightarrow> Some x \<in> set xs"
  by (induction xs rule: somes.induct) auto

lemma add_wallets:
  "rfold (add_wallet rl) accounts ws = Inr ws' \<longleftrightarrow>
     (\<exists>found. rtraverse (wallet_of rl) accounts = Inr found \<and> ws' = ws @ somes found \<and> distinct (somes found)
        \<and> set ws \<inter> set (somes found) = {})"
proof (induction accounts arbitrary: ws)
  case Nil
  then show ?case by auto
next
  case (Cons acc accounts)
  have t: "rtraverse (wallet_of rl) (acc # accounts) = Inr found \<longleftrightarrow>
      (\<exists>f fs. wallet_of rl acc = Inr f \<and> rtraverse (wallet_of rl) accounts = Inr fs \<and> found = f # fs)" for found
    by (auto simp: rbind_eq_Inr)
  show ?case
  proof (cases "wallet_of rl acc")
    case (Inl e)
    then show ?thesis unfolding t by (simp add: add_wallet_def)
  next
    case (Inr f)
    have t': "(\<exists>found. rtraverse (wallet_of rl) (acc # accounts) = Inr found \<and> P found) \<longleftrightarrow>
        (\<exists>fs. rtraverse (wallet_of rl) accounts = Inr fs \<and> P (f # fs))" for P
      using Inr by (auto simp: rbind_eq_Inr simp del: rtraverse_Inr)
    show ?thesis
    proof (cases f)
      case None
      then have l: "rfold (add_wallet rl) (acc # accounts) ws = rfold (add_wallet rl) accounts ws"
        using Inr by (simp add: add_wallet_def)
      show ?thesis unfolding l t' Cons None somes.simps ..
    next
      case (Some a)
      then have l: "rfold (add_wallet rl) (acc # accounts) ws =
          (if a \<in> set ws then Inl ''duplicate linked wallet'' else rfold (add_wallet rl) accounts (ws @ [a]))"
        using Inr by (simp add: add_wallet_def)
      have "a \<in> set ws \<Longrightarrow> set ws \<inter> set (a # xs) \<noteq> {}" for xs by auto
      moreover have "(a \<notin> set ws \<and> distinct xs \<and> set (ws @ [a]) \<inter> set xs = {}) = (distinct (a # xs) \<and> set ws \<inter> set (a # xs) = {})" for xs
        by auto
      ultimately show ?thesis unfolding l t' Cons Some somes.simps if_Inl_eq_Inr append_assoc append.simps
        by (metis (no_types, lifting))
    qed
  qed
qed

text \<open>A compact token: three sections, whose first two are signed with the key of the verifier.\<close>

definition signed_token :: "auth_library \<Rightarrow> ES256Verifier \<Rightarrow> string \<Rightarrow> string \<Rightarrow> string \<Rightarrow> bool" where
  "signed_token lib v token header payload \<longleftrightarrow>
     (\<exists>h c s signature. token = h @ ''.'' @ c @ ''.'' @ s
        \<and> b64_decode False h = Some header \<and> b64_decode False c = Some payload \<and> b64_decode False s = Some signature
        \<and> length signature = 64
        \<and> alEcdsaVerify lib (evKey v) (alSha256 lib (h @ ''.'' @ c)) (bytes_value (take 32 signature)) (bytes_value (drop 32 signature)))"

text \<open>Claims of the issuer for this application, at a time between their dates.\<close>

definition claims_hold :: "ES256Verifier \<Rightarrow> int \<Rightarrow> claims \<Rightarrow> bool" where
  "claims_hold v now claims \<longleftrightarrow>
     map_of claims ''iss'' = Some (JString ''privy.io'')
     \<and> map_of claims ''aud'' = Some (JString (evAppID v)) \<and> evAppID v \<noteq> []
     \<and> (\<exists>subject. map_of claims ''sub'' = Some (JString subject) \<and> subject \<noteq> [] \<and> TrimSpace subject \<noteq> [])
     \<and> (\<exists>raw t. map_of claims ''iat'' = Some raw \<and> integer raw = Inr t \<and> t \<le> now)
     \<and> (\<exists>raw t. map_of claims ''exp'' = Some raw \<and> integer raw = Inr t \<and> now < t)
     \<and> (\<forall>raw. map_of claims ''nbf'' = Some raw \<longrightarrow> (\<exists>t. integer raw = Inr t \<and> t \<le> now))"

definition header_holds :: "claims \<Rightarrow> bool" where
  "header_holds h \<longleftrightarrow> map_of h ''alg'' = Some (JString ''ES256'') \<and> map_of h ''crit'' = None"

lemma requiredInteger_Inr: "requiredInteger cs name = Inr n \<longleftrightarrow> (\<exists>raw. map_of cs name = Some raw \<and> integer raw = Inr n)"
  by (simp add: requiredInteger_def split: option.splits)

lemma case_sum_False: "(case m of Inl _ \<Rightarrow> False | Inr x \<Rightarrow> P x) \<longleftrightarrow> (\<exists>x. m = Inr x \<and> P x)"
  by (cases m) auto

lemma verify_claims_Inr: "verify_claims v now claims = Inr () \<longleftrightarrow> claims_hold v now claims"
  unfolding verify_claims_def claims_hold_def rbind_eq_Inr check_Inr case_sum_False requiredInteger_Inr requiredString_Inr
  by (cases "map_of claims ''nbf''") (auto simp: check_Inr)

lemma verify_header_Inr:
  "verify_header header = Inr () \<longleftrightarrow> (\<exists>hv hs. parse_document header = Some hv \<and> unique_keys hv \<and> decode_map hv = Inr hs \<and> header_holds hs)"
  by (auto simp: verify_header_def result_iff header_holds_def)

lemma decodePart_Inr [result_iff]:
  "decodePart value n = Inr d \<longleftrightarrow> value \<noteq> [] \<and> length value \<le> n * 2 \<and> b64_decode False value = Some d \<and> length d \<le> n"
  by (auto simp: decodePart_def split: option.splits)

lemma split_three: "split_at d s = [a, b, c] \<longleftrightarrow> s = a @ d # b @ d # c \<and> d \<notin> set a \<and> d \<notin> set b \<and> d \<notin> set c"
proof
  assume sp: "split_at d s = [a, b, c]"
  then have "s = join_at d [a, b, c]" using join_split[of d s] by simp
  moreover have "\<forall>w \<in> set [a, b, c]. d \<notin> set w" using sp split_parts[of _ d s] by metis
  ultimately show "s = a @ d # b @ d # c \<and> d \<notin> set a \<and> d \<notin> set b \<and> d \<notin> set c" by simp
next
  assume "s = a @ d # b @ d # c \<and> d \<notin> set a \<and> d \<notin> set b \<and> d \<notin> set c"
  then show "split_at d s = [a, b, c]" by (simp add: split_append split_word)
qed

lemma verifyJWT_parts:
  assumes "split_at (CHR ''.'') token = [h, c, s]"
  shows "verifyJWT lib v now token = Inr claims \<longleftrightarrow>
    token \<noteq> [] \<and> length token \<le> maxTokenBytes \<and> TrimSpace token = token \<and> CHR ''='' \<notin> set token
    \<and> (\<exists>header payload signature. decodePart h maxHeaderBytes = Inr header \<and> decodePart c maxClaimsBytes = Inr payload
        \<and> decodePart s 64 = Inr signature \<and> length signature = 64 \<and> verify_header header = Inr ()
        \<and> alEcdsaVerify lib (evKey v) (alSha256 lib (h @ ''.'' @ c)) (bytes_value (take 32 signature)) (bytes_value (drop 32 signature))
        \<and> (\<exists>cv. parse_document payload = Some cv \<and> unique_keys cv \<and> decode_map cv = Inr claims) \<and> claims_hold v now claims)"
proof -
  have sig: "(case m of Inl _ \<Rightarrow> Inl e | Inr g \<Rightarrow> if length g \<noteq> 64 then Inl e else Inr g) = Inr y \<longleftrightarrow> m = Inr y \<and> length y = 64"
    for m :: "string + string" and e :: string and y
    by (cases m) auto
  show ?thesis
    unfolding verifyJWT_def assms list.case if_Inl_eq_Inr rbind_eq_Inr sig check_Inr decodeStrict_Inr verify_claims_Inr[symmetric]
    by auto
qed

lemma verifyJWT_sound:
  assumes "verifyJWT lib v now token = Inr claims"
  shows "\<exists>header payload hv hs cv. signed_token lib v token header payload \<and> parse_document header = Some hv \<and> unique_keys hv
    \<and> decode_map hv = Inr hs \<and> header_holds hs \<and> parse_document payload = Some cv \<and> unique_keys cv \<and> decode_map cv = Inr claims
    \<and> claims_hold v now claims"
proof -
  obtain h c s where sp: "split_at (CHR ''.'') token = [h, c, s]"
    using assms by (auto simp: verifyJWT_def split: if_splits list.splits)
  obtain header payload signature where p: "decodePart h maxHeaderBytes = Inr header" "decodePart c maxClaimsBytes = Inr payload"
      "decodePart s 64 = Inr signature" "length signature = 64" "verify_header header = Inr ()"
      "alEcdsaVerify lib (evKey v) (alSha256 lib (h @ ''.'' @ c)) (bytes_value (take 32 signature)) (bytes_value (drop 32 signature))"
      "\<exists>cv. parse_document payload = Some cv \<and> unique_keys cv \<and> decode_map cv = Inr claims" "claims_hold v now claims"
    using assms unfolding verifyJWT_parts[OF sp] by blast
  have "token = h @ ''.'' @ c @ ''.'' @ s" using sp by (simp add: split_three)
  then have "signed_token lib v token header payload" using p(1-4,6) unfolding signed_token_def decodePart_Inr by blast
  then show ?thesis using p(5,7,8) unfolding verify_header_Inr by blast
qed

lemma parseWallets_Inr:
  "parseWallets rl data = Inr ws \<longleftrightarrow>
     (\<exists>v accounts found. parse_document data = Some v \<and> unique_keys v \<and> decode_maps v = Inr accounts
        \<and> rtraverse (wallet_of rl) accounts = Inr found \<and> ws = somes found \<and> distinct ws)"
proof -
  have c: "(case m of Inl _ \<Rightarrow> Inl e | Inr x \<Rightarrow> f x) = Inr y \<longleftrightarrow> (\<exists>x. m = Inr x \<and> f x = Inr y)" for m :: "string + 'x" and e :: string and f and y :: "'y"
    by (cases m) auto
  show ?thesis unfolding parseWallets_def c add_wallets decodeStrict_Inr by auto
qed

lemma traverse_wallets: "rtraverse (wallet_of rl) accounts = Inr found \<Longrightarrow> a \<in> set (somes found) \<longleftrightarrow> (\<exists>acc \<in> set accounts. linked_wallet rl acc a)"
  unfolding rtraverse_Inr set_somes wallet_of_Some[symmetric]
  by (induction rule: list_all2_induct) auto

lemma traverse_linked: "list_all2 (linked_wallet rl) accounts ws \<Longrightarrow> rtraverse (wallet_of rl) accounts = Inr (map Some ws)"
  unfolding rtraverse_Inr by (induction rule: list_all2_induct) (auto simp: wallet_of_Some)

lemma somes_Some [simp]: "somes (map Some ws) = ws"
  by (induction ws) auto

lemma Verify_Inr:
  "Verify lib rl v now now' access identity = Inr p \<longleftrightarrow>
     (\<exists>ac ic accounts. verifyJWT lib v now access = Inr ac \<and> verifyJWT lib v now' identity = Inr ic
        \<and> map_of ac ''sub'' = Some (JString (prPrivyDID p)) \<and> map_of ic ''sub'' = Some (JString (prPrivyDID p)) \<and> prPrivyDID p \<noteq> []
        \<and> map_of ic ''linked_accounts'' = Some (JString accounts) \<and> length accounts \<le> maxAccountsJSON
        \<and> parseWallets rl accounts = Inr (prWallets p))"
proof -
  have null: "parseWallets rl [] \<noteq> Inr ws" for ws
    by (simp add: parseWallets_Inr parse_document_def parse_value.simps skip_space_def)
  have raw: "(case raw of None \<Rightarrow> Inl e | Some w \<Rightarrow> (case unmarshal_string w of Inl _ \<Rightarrow> Inl e'
        | Inr t \<Rightarrow> if maxAccountsJSON < length t then Inl e' else rbind (parseWallets rl t) (\<lambda>wallets. Inr (f wallets)))) = Inr p
      \<longleftrightarrow> (\<exists>t ws. raw = Some (JString t) \<and> length t \<le> maxAccountsJSON \<and> parseWallets rl t = Inr ws \<and> f ws = p)" for raw e e' f
    using null by (auto simp: unmarshal_string_def rbind_eq_Inr split: option.splits json.splits)
  show ?thesis
    unfolding Verify_def rbind_eq_Inr check_Inr raw requiredString_Inr
    by (cases p) auto
qed

section \<open>Tokens of the issuer\<close>

text \<open>Documents as the issuer prints them, and the compact token for a signing function.\<close>

definition issuable :: "nat \<Rightarrow> json \<Rightarrow> bool" where
  "issuable n v \<longleftrightarrow> json_ok v \<and> unique_keys v \<and> json_depth v \<le> 10000 \<and> length (json_text v) \<le> n"

definition issue :: "(string \<Rightarrow> string) \<Rightarrow> json \<Rightarrow> json \<Rightarrow> string" where
  "issue sign header payload =
     (let m = b64_encode (json_text header) @ ''.'' @ b64_encode (json_text payload) in m @ ''.'' @ b64_encode (sign m))"

text \<open>A signing function whose signatures the verification key accepts.\<close>

definition signs_for :: "auth_library \<Rightarrow> ES256Verifier \<Rightarrow> (string \<Rightarrow> string) \<Rightarrow> bool" where
  "signs_for lib v sign \<longleftrightarrow> (\<forall>m. length (sign m) = 64
     \<and> alEcdsaVerify lib (evKey v) (alSha256 lib m) (bytes_value (take 32 (sign m))) (bytes_value (drop 32 (sign m))))"

lemma b64_alphabet_plain: "list_all (\<lambda>c. visible c \<and> c \<noteq> CHR ''.'' \<and> c \<noteq> CHR ''='' \<and> c \<noteq> CHR '','') b64_alphabet"
  by (simp add: b64_alphabet_def visible_def)

lemma b64_char_plain: "n < 64 \<Longrightarrow> visible (b64_char n) \<and> b64_char n \<noteq> CHR ''.'' \<and> b64_char n \<noteq> CHR ''='' \<and> b64_char n \<noteq> CHR '',''"
proof -
  assume "n < 64"
  then have "b64_char n \<in> set b64_alphabet" unfolding b64_char_def by (intro nth_mem) (simp add: b64_alphabet_def)
  then show ?thesis using b64_alphabet_plain by (auto simp: list_all_iff)
qed

lemma b64_encode_plain: "c \<in> set (b64_encode s) \<Longrightarrow> visible c \<and> c \<noteq> CHR ''.'' \<and> c \<noteq> CHR ''='' \<and> c \<noteq> CHR '',''"
  using b64_sextets_bound[of s] by (auto simp: b64_encode_def list_all_iff b64_char_plain)

lemma b64_encode_length: "length (b64_encode s) \<le> 2 * length s"
proof -
  have "length (b64_sextets s) \<le> 2 * length s"
  proof (induction s rule: b64_sextets.induct)
    case (4 a b c r)
    then show ?case using "4"[OF refl refl refl] by (simp add: Let_def)
  qed (simp_all add: Let_def)
  then show ?thesis by (simp add: b64_encode_def)
qed

lemma json_text_nonempty: "json_ok v \<Longrightarrow> json_text v \<noteq> []"
  using json_text_front[of v] by auto

lemma issuable_section:
  assumes "issuable n v"
  shows "decodePart (b64_encode (json_text v)) n = Inr (json_text v)" "parse_document (json_text v) = Some v"
  using assms b64_encode_length[of "json_text v"] json_text_nonempty[of v]
  by (auto simp: issuable_def decodePart_Inr b64_roundtrip parse_document_text)

lemma verifyJWT_issued:
  assumes sign: "signs_for lib v sign" and h: "issuable maxHeaderBytes (JObject hs)" "header_holds hs"
    and c: "issuable maxClaimsBytes (JObject cs)" and len: "length (issue sign (JObject hs) (JObject cs)) \<le> maxTokenBytes"
  shows "verifyJWT lib v now (issue sign (JObject hs) (JObject cs)) = Inr claims \<longleftrightarrow> claims = cs \<and> claims_hold v now cs"
proof -
  let ?h = "b64_encode (json_text (JObject hs))" and ?c = "b64_encode (json_text (JObject cs))"
  let ?m = "?h @ ''.'' @ ?c" and ?t = "issue sign (JObject hs) (JObject cs)"
  let ?s = "b64_encode (sign ?m)"
  have t: "?t = ?h @ CHR ''.'' # ?c @ CHR ''.'' # ?s" by (simp add: issue_def Let_def del: json_text.simps)
  have sp: "split_at (CHR ''.'') ?t = [?h, ?c, ?s]"
    unfolding split_three using t b64_encode_plain by blast
  have "no_space ?t" unfolding t no_space_def list_all_iff using b64_encode_plain by (auto simp: visible_def)
  moreover have "CHR ''='' \<notin> set ?t" unfolding t using b64_encode_plain by auto
  moreover have "?t \<noteq> []" unfolding t by simp
  ultimately have shape: "?t \<noteq> []" "TrimSpace ?t = ?t" "CHR ''='' \<notin> set ?t" by (simp_all add: TrimSpace_visible)
  have "length (sign ?m) = 64" using sign by (simp add: signs_for_def)
  then have sg: "decodePart ?s 64 = Inr g \<longleftrightarrow> g = sign ?m" for g
    using b64_encode_length[of "sign ?m"] by (auto simp: decodePart_Inr b64_roundtrip)
  have vh: "verify_header (json_text (JObject hs)) = Inr ()"
    unfolding verify_header_Inr issuable_section(2)[OF h(1)] using h by (auto simp: issuable_def decode_map_def)
  have cv: "(\<exists>cv. parse_document (json_text (JObject cs)) = Some cv \<and> unique_keys cv \<and> decode_map cv = Inr claims) \<longleftrightarrow> claims = cs"
    unfolding issuable_section(2)[OF c] using c by (auto simp: issuable_def decode_map_def)
  have "alEcdsaVerify lib (evKey v) (alSha256 lib ?m) (bytes_value (take 32 (sign ?m))) (bytes_value (drop 32 (sign ?m)))"
      "length (sign ?m) = 64"
    using sign by (simp_all add: signs_for_def del: json_text.simps)
  then show ?thesis
    unfolding verifyJWT_parts[OF sp] issuable_section(1)[OF h(1)] issuable_section(1)[OF c] sg
    using shape len vh cv by (auto simp del: json_text.simps)
qed

lemma issued_iff:
  assumes "signs_for lib v sign" "issuable maxHeaderBytes (JObject hs)" "header_holds hs"
    "issuable maxClaimsBytes (JObject ac)" "length (issue sign (JObject hs) (JObject ac)) \<le> maxTokenBytes"
    "issuable maxClaimsBytes (JObject ic)" "length (issue sign (JObject hs) (JObject ic)) \<le> maxTokenBytes"
    "map_of ac ''sub'' = Some (JString subject)" "map_of ic ''sub'' = Some (JString subject)"
    "issuable maxAccountsJSON (JArray (map JObject accounts))"
    "map_of ic ''linked_accounts'' = Some (JString (json_text (JArray (map JObject accounts))))"
    "list_all2 (linked_wallet rl) accounts ws" "distinct ws"
  shows "Verify lib rl v now now' (issue sign (JObject hs) (JObject ac)) (issue sign (JObject hs) (JObject ic)) = Inr p
     \<longleftrightarrow> claims_hold v now ac \<and> claims_hold v now' ic \<and> p = \<lparr>prPrivyDID = subject, prWallets = ws\<rparr>"
proof -
  have maps: "decode_maps (JArray (map JObject accounts)) = Inr accounts"
    by (simp add: decode_maps_def rtraverse_Inr decode_map_def list_all2_conv_all_nth)
  have w: "parseWallets rl (json_text (JArray (map JObject accounts))) = Inr ws' \<longleftrightarrow> ws' = ws" for ws'
    unfolding parseWallets_Inr issuable_section(2)[OF assms(10)]
    using maps traverse_linked[OF assms(12)] assms(10,13) by (auto simp: issuable_def)
  have "claims_hold v now ac \<Longrightarrow> subject \<noteq> []" using assms(8) by (auto simp: claims_hold_def)
  then show ?thesis
    unfolding Verify_Inr verifyJWT_issued[OF assms(1-5)] verifyJWT_issued[OF assms(1-3,6,7)]
    using assms(8-11) w by (cases p) (auto simp: issuable_def simp del: json_text.simps)
qed

section \<open>A deployment to evaluate\<close>

definition demo_auth :: auth_library where
  "demo_auth = \<lparr>alSha256 = (\<lambda>m. take 32 (m @ replicate 32 (CHR 0x00))),
     alEcdsaVerify = (\<lambda>k d r s. r = bytes_value d \<and> s = pkX k),
     alPemDecode = (\<lambda>_. None), alParsePKIX = (\<lambda>_. Inr OtherKey), alParseCertificate = (\<lambda>_. Inr OtherKey)\<rparr>"

definition demo_verifier :: ES256Verifier where
  "demo_verifier = \<lparr>evAppID = ''launchtap'', evKey = \<lparr>pkCurve = ''P-256'', pkX = bytes_value (replicate 32 (CHR 0x07)), pkY = 0\<rparr>\<rparr>"

definition demo_sign :: "string \<Rightarrow> string" where
  "demo_sign m = take 32 (m @ replicate 32 (CHR 0x00)) @ replicate 32 (CHR 0x07)"

definition demo_addresses :: read_library where
  "demo_addresses = \<lparr>rlIsHexAddress = (\<lambda>s. take 2 s = ''0x''), rlHexToAddress = (\<lambda>s. if s = ''0xa1'' then 0xA1 else 0xB2),
     rlAddressHex = (\<lambda>a. if a = 0xA1 then ''0xa1'' else ''0xb2''), rlHashHex = (\<lambda>_. ''0x''), rlMarshal = (\<lambda>_. Inl ''unused''),
     rlDecode = (\<lambda>_. Inl ''unused''), rlAtEOF = (\<lambda>_. True), rlSha256Hex = (\<lambda>_. []), rlFormatTime = (\<lambda>_. []), rlParseTime = (\<lambda>_. None),
     rlToLower = id, rlTrimSpace = TrimSpace, rlSqlLower = id\<rparr>"

definition demo_header :: claims where
  "demo_header = [(''alg'', JString ''ES256''), (''typ'', JString ''JWT'')]"

definition demo_account :: claims where
  "demo_account = [(''type'', JString ''wallet''), (''chain_type'', JString ''ethereum''), (''address'', JString ''0xa1'')]"

definition demo_access :: claims where
  "demo_access = [(''iss'', JString ''privy.io''), (''aud'', JString ''launchtap''), (''sub'', JString ''did:privy:1''),
     (''iat'', JNumber ''100''), (''exp'', JNumber ''200'')]"

definition demo_identity :: claims where
  "demo_identity = demo_access @ [(''linked_accounts'', JString (json_text (JArray [JObject demo_account])))]"

definition demo_token :: "claims \<Rightarrow> string" where
  "demo_token cs = issue demo_sign (JObject demo_header) (JObject cs)"

lemma demo_signs: "signs_for demo_auth demo_verifier demo_sign"
  by (auto simp: signs_for_def demo_auth_def demo_verifier_def demo_sign_def min_def)

lemma demo_numbers: "isValidNumber ''100''" "isValidNumber ''200''"
  by code_simp+

lemmas demo_json = issuable_def demo_header_def demo_access_def demo_identity_def demo_account_def demo_numbers ValidString_ascii
  json_string_def json_char_def maxHeaderBytes_def maxClaimsBytes_def maxAccountsJSON_def

lemma demo_issuable:
  "issuable maxHeaderBytes (JObject demo_header)" "issuable maxClaimsBytes (JObject demo_access)"
  "issuable maxClaimsBytes (JObject demo_identity)" "issuable maxAccountsJSON (JArray (map JObject [demo_account]))"
  by (simp_all add: demo_json)

lemma issue_length:
  "(\<And>m. length (sign m) = 64) \<Longrightarrow> length (issue sign h c) \<le> 2 * length (json_text h) + 2 * length (json_text c) + 130"
  using b64_encode_length[of "json_text h"] b64_encode_length[of "json_text c"]
    b64_encode_length[of "sign (b64_encode (json_text h) @ ''.'' @ b64_encode (json_text c))"]
  by (simp add: issue_def Let_def)

lemma demo_lengths: "length (demo_token demo_access) \<le> maxTokenBytes" "length (demo_token demo_identity) \<le> maxTokenBytes"
proof -
  have s: "length (demo_sign m) = 64" for m by (simp add: demo_sign_def)
  have "2 * length (json_text (JObject demo_header)) + 2 * length (json_text (JObject demo_access)) + 130 \<le> maxTokenBytes"
    "2 * length (json_text (JObject demo_header)) + 2 * length (json_text (JObject demo_identity)) + 130 \<le> maxTokenBytes"
    by (simp_all add: demo_json maxTokenBytes_def)
  then show "length (demo_token demo_access) \<le> maxTokenBytes" "length (demo_token demo_identity) \<le> maxTokenBytes"
    using issue_length[of demo_sign, OF s] unfolding demo_token_def by (meson order_trans)+
qed

lemma demo_claims:
  "header_holds demo_header" "claims_hold demo_verifier 150 demo_access" "claims_hold demo_verifier 150 demo_identity"
  "list_all2 (linked_wallet demo_addresses) [demo_account] [0xA1]"
proof -
  have i: "integer (JNumber ''100'') = Inr 100" "integer (JNumber ''200'') = Inr 200" by code_simp+
  have t: "TrimSpace ''did:privy:1'' \<noteq> []" by (subst TrimSpace_visible) (simp_all add: no_space_def visible_def)
  show "header_holds demo_header" by (simp add: header_holds_def demo_header_def)
  show "claims_hold demo_verifier 150 demo_access" "claims_hold demo_verifier 150 demo_identity"
    using i t by (simp_all add: claims_hold_def demo_identity_def demo_access_def demo_verifier_def)
  show "list_all2 (linked_wallet demo_addresses) [demo_account] [0xA1]"
    by (simp add: linked_wallet_def demo_account_def demo_addresses_def)
qed

lemma demo_subjects:
  "map_of demo_access ''sub'' = Some (JString ''did:privy:1'')" "map_of demo_identity ''sub'' = Some (JString ''did:privy:1'')"
  "map_of demo_identity ''linked_accounts'' = Some (JString (json_text (JArray (map JObject [demo_account]))))"
  by (simp_all add: demo_access_def demo_identity_def del: json_text.simps)

lemmas demo_issue = demo_signs demo_issuable(1) demo_claims(1) demo_issuable(2) demo_lengths(1)[unfolded demo_token_def]
  demo_issuable(3) demo_lengths(2)[unfolded demo_token_def] demo_subjects(1,2) demo_issuable(4) demo_subjects(3) demo_claims(4)

lemma demo_verified:
  "Verify demo_auth demo_addresses demo_verifier 150 150 (demo_token demo_access) (demo_token demo_identity)
     = Inr \<lparr>prPrivyDID = ''did:privy:1'', prWallets = [0xA1]\<rparr>"
  unfolding demo_token_def issued_iff[OF demo_issue distinct_singleton] using demo_claims(2,3) by simp

definition demo_bearer :: string where
  "demo_bearer = ''Bearer '' @ demo_token demo_access"

lemma demo_bearer_parsed: "ParseBearer demo_bearer = Inr (demo_token demo_access)"
proof -
  let ?t = "demo_token demo_access"
  have dot: "visible (CHR ''.'')" "\<not> visible (CHR 0x20)" "\<not> visible (CHR 0x09)" "\<not> visible (CHR 0x0D)" "\<not> visible (CHR 0x0A)"
    by (simp_all add: visible_def)
  have plain: "visible c \<and> c \<noteq> CHR '',''" if "c \<in> set ?t" for c
  proof -
    obtain x y z where t: "?t = b64_encode x @ ''.'' @ b64_encode y @ ''.'' @ b64_encode z"
      by (simp add: demo_token_def issue_def Let_def del: json_text.simps)
    then consider "c \<in> set (b64_encode x)" | "c \<in> set (b64_encode y)" | "c \<in> set (b64_encode z)" | "c = CHR ''.''" using \<open>c \<in> set ?t\<close> by auto
    then show ?thesis using b64_encode_plain dot(1) by cases auto
  qed
  have "\<not> (\<exists>c \<in> set ?t. c \<in> {CHR 0x20, CHR 0x09, CHR 0x0D, CHR 0x0A, CHR '',''})"
  proof
    assume "\<exists>c \<in> set ?t. c \<in> {CHR 0x20, CHR 0x09, CHR 0x0D, CHR 0x0A, CHR '',''}"
    then obtain c where "c \<in> set ?t" "c \<in> {CHR 0x20, CHR 0x09, CHR 0x0D, CHR 0x0A, CHR '',''}" by blast
    then show False using plain[of c] dot by blast
  qed
  moreover have "?t \<noteq> []" by (simp add: demo_token_def issue_def Let_def)
  ultimately show ?thesis using demo_lengths(1) by (simp add: ParseBearer_def demo_bearer_def)
qed

section \<open>Properties\<close>

text \<open>The identity token's claims list a linked wallet with an address.\<close>

definition lists_wallet :: "read_library \<Rightarrow> claims \<Rightarrow> Address \<Rightarrow> bool" where
  "lists_wallet lib ic a \<longleftrightarrow>
     (\<exists>listing doc accounts. map_of ic ''linked_accounts'' = Some (JString listing) \<and> parse_document listing = Some doc
        \<and> decode_maps doc = Inr accounts \<and> (\<exists>acc \<in> set accounts. linked_wallet lib acc a))"

text \<open>A token that the holder of the verification key signed, with strict JSON and current claims.\<close>

definition vouched :: "auth_library \<Rightarrow> ES256Verifier \<Rightarrow> int \<Rightarrow> string \<Rightarrow> claims \<Rightarrow> bool" where
  "vouched lib v now token claims \<longleftrightarrow>
     (\<exists>header payload hv hs cv. signed_token lib v token header payload \<and> parse_document header = Some hv \<and> unique_keys hv
        \<and> decode_map hv = Inr hs \<and> header_holds hs \<and> parse_document payload = Some cv \<and> unique_keys cv \<and> decode_map cv = Inr claims
        \<and> claims_hold v now claims)"

lemma Verify_vouched:
  assumes "Verify lib rl v now now' access identity = Inr p"
  shows "\<exists>ac ic listing doc accounts. vouched lib v now access ac \<and> vouched lib v now' identity ic
    \<and> map_of ac ''sub'' = Some (JString (prPrivyDID p)) \<and> map_of ic ''sub'' = Some (JString (prPrivyDID p))
    \<and> map_of ic ''linked_accounts'' = Some (JString listing) \<and> parse_document listing = Some doc \<and> unique_keys doc
    \<and> decode_maps doc = Inr accounts
    \<and> distinct (prWallets p) \<and> set (prWallets p) = {a. \<exists>acc \<in> set accounts. linked_wallet rl acc a}"
proof -
  obtain ac ic listing where t: "verifyJWT lib v now access = Inr ac" "verifyJWT lib v now' identity = Inr ic"
      "map_of ac ''sub'' = Some (JString (prPrivyDID p))" "map_of ic ''sub'' = Some (JString (prPrivyDID p))"
      "map_of ic ''linked_accounts'' = Some (JString listing)" "parseWallets rl listing = Inr (prWallets p)"
    using assms unfolding Verify_Inr by blast
  obtain doc accounts found where w: "parse_document listing = Some doc" "unique_keys doc" "decode_maps doc = Inr accounts"
      "rtraverse (wallet_of rl) accounts = Inr found" "prWallets p = somes found" "distinct (prWallets p)"
    using t(6) unfolding parseWallets_Inr by blast
  have "set (prWallets p) = {a. \<exists>acc \<in> set accounts. linked_wallet rl acc a}"
    using traverse_wallets[OF w(4)] w(5) by auto
  moreover have "vouched lib v now access ac" "vouched lib v now' identity ic"
    using verifyJWT_sound[OF t(1)] verifyJWT_sound[OF t(2)] unfolding vouched_def by blast+
  ultimately show ?thesis using t w by blast
qed

lemma Verify_listed:
  assumes "Verify lib rl v now now' access identity = Inr p"
  shows "\<exists>ac ic. vouched lib v now access ac \<and> vouched lib v now' identity ic \<and> map_of ac ''sub'' = map_of ic ''sub''
    \<and> (\<forall>a \<in> set (prWallets p). lists_wallet rl ic a)"
  using Verify_vouched[OF assms] unfolding lists_wallet_def by fastforce

text \<open>
  C2: A principal is returned only for two tokens that carry a valid ES256 signature of the configured
  key over their own header and claims, whose issuer, audience and dates hold at the time they are
  checked, and which name the same subject; the principal's identifier is that subject, and its wallets
  are, without repetition, exactly the linked EVM wallets that the signed identity token lists.
\<close>

theorem Verify_sound:
  assumes "Verify lib rl v now now' access identity = Inr p"
  shows "\<exists>ac ic listing doc accounts. vouched lib v now access ac \<and> vouched lib v now' identity ic
    \<and> map_of ac ''sub'' = Some (JString (prPrivyDID p)) \<and> map_of ic ''sub'' = Some (JString (prPrivyDID p))
    \<and> map_of ic ''linked_accounts'' = Some (JString listing) \<and> parse_document listing = Some doc \<and> unique_keys doc
    \<and> decode_maps doc = Inr accounts
    \<and> distinct (prWallets p) \<and> set (prWallets p) = {a. \<exists>acc \<in> set accounts. linked_wallet rl acc a}"
  using assms by (rule Verify_vouched)

theorem Verify_sound_witness:
  "\<exists>ac ic. vouched demo_auth demo_verifier 150 (demo_token demo_access) ac \<and> vouched demo_auth demo_verifier 150 (demo_token demo_identity) ic
    \<and> map_of ac ''sub'' = Some (JString ''did:privy:1'') \<and> map_of ic ''sub'' = Some (JString ''did:privy:1'')"
  using Verify_sound[OF demo_verified] by auto



end
