(* ===== verification/Metadata_Store.thy ===== *)
theory Metadata_Store
  imports Privy_Auth Read_Queries
begin

text \<open>
  Creator-editable metadata and images: \<^verbatim>\<open>store/postgres/metadata.go\<close> and its statements in
  \<^verbatim>\<open>sqlc/metadata.sql.go\<close>, over the tables of the read side and the transactions of the store. A row
  belongs to one launch and carries a revision; a write names the revision it replaces.
\<close>

section \<open>Values and errors\<close>

record Metadata =
  meDescription :: string
  meImageURL :: string
  meXURL :: string
  meTelegramURL :: string
  meRevision :: int
  meUpdatedAt :: int

record Image =
  igContentType :: string
  igContent :: string
  igSHA256 :: string
  igRevision :: int
  igUpdatedAt :: int

definition ErrNotFound :: idx_error where "ErrNotFound = OtherError ''token or image not found''"
definition ErrUnauthorized :: idx_error where "ErrUnauthorized = OtherError ''linked wallet is not the token creator''"
definition ErrRevisionConflict :: idx_error where "ErrRevisionConflict = OtherError ''metadata or image revision conflict''"

lemma metadata_errors [simp]:
  "ErrNotFound \<noteq> ErrUnauthorized" "ErrNotFound \<noteq> ErrRevisionConflict" "ErrUnauthorized \<noteq> ErrRevisionConflict"
  "ErrUnauthorized \<noteq> ErrNotFound" "ErrRevisionConflict \<noteq> ErrNotFound" "ErrRevisionConflict \<noteq> ErrUnauthorized"
  by (simp_all add: ErrNotFound_def ErrUnauthorized_def ErrRevisionConflict_def)

section \<open>Statements\<close>

text \<open>The canonical launch of a token; the ledger holds at most one.\<close>

definition launch_of :: "int \<Rightarrow> Address \<Rightarrow> 'm db \<Rightarrow> (EventCoordinates \<times> TokenLaunched) option" where
  "launch_of chainID token d =
     (case List.find (launch_event chainID token) (dbEvents d) of
        None \<Rightarrow> None
      | Some e \<Rightarrow> (case lePayload e of LTokenLaunch l \<Rightarrow> Some (leCoordinates e, l) | _ \<Rightarrow> None))"

definition key_of_launch :: "EventCoordinates \<times> TokenLaunched \<Rightarrow> launch_key" where
  "key_of_launch l = (ecChainID (fst l), tlToken (snd l), ecTxHash (fst l), ecLogIndex (fst l))"

definition sql_GetTokenCreatorForUpdate :: "int \<Rightarrow> Address \<Rightarrow> 'm db \<Rightarrow> idx_error + Address \<times> 'm db" where
  "sql_GetTokenCreatorForUpdate chainID token d =
     (case launch_of chainID token d of None \<Rightarrow> Inl NoRows | Some l \<Rightarrow> Inr (tlCreator (snd l), d))"

definition sql_GetTokenMetadata :: "int \<Rightarrow> Address \<Rightarrow> rdb \<Rightarrow> idx_error + metadata_row \<times> rdb" where
  "sql_GetTokenMetadata chainID token d =
     (case launch_of chainID token d of
        None \<Rightarrow> Inl NoRows
      | Some l \<Rightarrow> (case map_of (rtMetadata (dbMarket d)) (key_of_launch l) of None \<Rightarrow> Inl NoRows | Some r \<Rightarrow> Inr (r, d)))"

definition sql_GetTokenImage :: "int \<Rightarrow> Address \<Rightarrow> rdb \<Rightarrow> idx_error + image_row \<times> rdb" where
  "sql_GetTokenImage chainID token d =
     (case launch_of chainID token d of
        None \<Rightarrow> Inl NoRows
      | Some l \<Rightarrow> (case map_of (rtImages (dbMarket d)) (key_of_launch l) of None \<Rightarrow> Inl NoRows | Some r \<Rightarrow> Inr (r, d)))"

text \<open>
  The insert-or-update that both tables share. Without a row the insert needs the expected revision 0
  and stores revision 1; on a conflict the row is replaced where it has the expected revision.
  Revisions are 64-bit integers.
\<close>

definition replace_row ::
    "('r \<Rightarrow> int) \<Rightarrow> (int \<Rightarrow> 'r) \<Rightarrow> launch_key \<Rightarrow> int \<Rightarrow> (launch_key \<times> 'r) list \<Rightarrow> idx_error + int \<times> (launch_key \<times> 'r) list" where
  "replace_row revision row key expected table =
     (case map_of table key of
        None \<Rightarrow> if expected = 0 then Inr (1, AList.update key (row 1) table) else Inl NoRows
      | Some r \<Rightarrow>
        if revision r \<noteq> expected then Inl NoRows
        else if revision r = 2 ^ 63 - 1 then Inl QueryFailed
        else Inr (revision r + 1, AList.update key (row (revision r + 1)) table))"

definition text_column :: "string \<Rightarrow> string option" where
  "text_column s = (if s = [] then None else Some s)"

definition metadata_row_of :: "Metadata \<Rightarrow> int \<Rightarrow> metadata_row" where
  "metadata_row_of v revision =
     \<lparr>mdDescription = text_column (meDescription v), mdImageURL = text_column (meImageURL v),
      mdXURL = text_column (meXURL v), mdTelegramURL = text_column (meTelegramURL v),
      mdRevision = revision, mdUpdatedAt = meUpdatedAt v\<rparr>"

definition image_row_of :: "Image \<Rightarrow> int \<Rightarrow> image_row" where
  "image_row_of v revision =
     \<lparr>imContentType = igContentType v, imContent = igContent v, imByteSize = int (length (igContent v)),
      imSHA256 = igSHA256 v, imRevision = revision, imUpdatedAt = igUpdatedAt v\<rparr>"

text \<open>The checks on a row of the image table, made on the row to insert before a conflict is looked for.\<close>

definition image_check :: "Image \<Rightarrow> bool" where
  "image_check v \<longleftrightarrow> igContentType v \<in> {''image/png'', ''image/jpeg'', ''image/webp''}
     \<and> 0 < length (igContent v) \<and> length (igContent v) \<le> 5242880"

definition sql_ReplaceTokenMetadata :: "int \<Rightarrow> Address \<Rightarrow> Address \<Rightarrow> Metadata \<Rightarrow> rdb \<Rightarrow> idx_error + int \<times> rdb" where
  "sql_ReplaceTokenMetadata chainID token creator v d =
     (case launch_of chainID token d of
        None \<Rightarrow> Inl NoRows
      | Some l \<Rightarrow>
        if tlCreator (snd l) \<noteq> creator then Inl NoRows
        else rbind (replace_row mdRevision (metadata_row_of v) (key_of_launch l) (meRevision v) (rtMetadata (dbMarket d)))
          (\<lambda>(n, t). Inr (n, d\<lparr>dbMarket := (dbMarket d)\<lparr>rtMetadata := t\<rparr>\<rparr>)))"

definition sql_ReplaceTokenImage :: "int \<Rightarrow> Address \<Rightarrow> Address \<Rightarrow> Image \<Rightarrow> rdb \<Rightarrow> idx_error + int \<times> rdb" where
  "sql_ReplaceTokenImage chainID token creator v d =
     (case launch_of chainID token d of
        None \<Rightarrow> Inl NoRows
      | Some l \<Rightarrow>
        if tlCreator (snd l) \<noteq> creator then Inl NoRows
        else if map_of (rtImages (dbMarket d)) (key_of_launch l) = None \<and> igRevision v \<noteq> 0 then Inl NoRows
        else if \<not> image_check v then Inl CheckViolation
        else rbind (replace_row imRevision (image_row_of v) (key_of_launch l) (igRevision v) (rtImages (dbMarket d)))
          (\<lambda>(n, t). Inr (n, d\<lparr>dbMarket := (dbMarket d)\<lparr>rtImages := t\<rparr>\<rparr>)))"

section \<open>The store\<close>

definition authorizedCreator :: "read_tables db_env \<Rightarrow> int \<Rightarrow> Address \<Rightarrow> Address list \<Rightarrow> (read_tables, Address) io" where
  "authorizedCreator env chainID token wallets =
     iobind (on_error (\<lambda>e. if e = NoRows then ErrNotFound else e) (statement env (sql_GetTokenCreatorForUpdate chainID token))) (\<lambda>want.
     if want \<in> set wallets then ret want else raise ErrUnauthorized)"

definition ReplaceTokenMetadata :: "read_tables db_env \<Rightarrow> int \<Rightarrow> Address \<Rightarrow> Address \<Rightarrow> Metadata \<Rightarrow> (read_tables, int) io" where
  "ReplaceTokenMetadata env chainID token creator v =
     on_error (\<lambda>e. if e = NoRows then ErrRevisionConflict else e) (statement env (sql_ReplaceTokenMetadata chainID token creator v))"

definition ReplaceTokenImage :: "read_tables db_env \<Rightarrow> int \<Rightarrow> Address \<Rightarrow> Address \<Rightarrow> Image \<Rightarrow> (read_tables, int) io" where
  "ReplaceTokenImage env chainID token creator v =
     (if length (igSHA256 v) \<noteq> 32 then raise (OtherError ''image sha256 must be 32 bytes'')
      else on_error (\<lambda>e. if e = NoRows then ErrRevisionConflict else e) (statement env (sql_ReplaceTokenImage chainID token creator v)))"

text \<open>
  The refresh hint for a token, with the keys in the order \<^verbatim>\<open>json.Marshal\<close> gives a map. A failed
  notification is logged and dropped; the result says which were sent.
\<close>

definition token_hint :: "read_library \<Rightarrow> int \<Rightarrow> string \<Rightarrow> Address \<Rightarrow> json" where
  "token_hint lib chainID deploymentID token = JObject
     [(''chain_id'', JNumber (FormatInt chainID)), (''deployment_id'', JString deploymentID),
      (''token'', JString (rlAddressHex lib token)), (''type'', JString ''token'')]"

definition notifyToken :: "read_library \<Rightarrow> read_tables db_env \<Rightarrow> string \<Rightarrow> int \<Rightarrow> Address \<Rightarrow> (read_tables, string list) io" where
  "notifyToken lib env deploymentID chainID token w =
     (Inr (if envFails env (wTick w) then [] else [json_text (token_hint lib chainID deploymentID token)]), tick w)"

definition ReplaceMetadata ::
    "read_library \<Rightarrow> read_tables db_env \<Rightarrow> string \<Rightarrow> int \<Rightarrow> Address \<Rightarrow> Address list \<Rightarrow> Metadata \<Rightarrow> (read_tables, int \<times> string list) io" where
  "ReplaceMetadata lib env deploymentID chainID token wallets v =
     iobind (WithinTx env (iobind (authorizedCreator env chainID token wallets) (\<lambda>creator.
       ReplaceTokenMetadata env chainID token creator v))) (\<lambda>revision.
     iobind (notifyToken lib env deploymentID chainID token) (\<lambda>hints. ret (revision, hints)))"

definition ReplaceImage ::
    "read_library \<Rightarrow> read_tables db_env \<Rightarrow> string \<Rightarrow> int \<Rightarrow> Address \<Rightarrow> Address list \<Rightarrow> Image \<Rightarrow> (read_tables, int \<times> string list) io" where
  "ReplaceImage lib env deploymentID chainID token wallets v =
     iobind (WithinTx env (iobind (authorizedCreator env chainID token wallets) (\<lambda>creator.
       ReplaceTokenImage env chainID token creator v))) (\<lambda>revision.
     iobind (notifyToken lib env deploymentID chainID token) (\<lambda>hints. ret (revision, hints)))"

definition text_value :: "string option \<Rightarrow> string" where
  "text_value s = (case s of None \<Rightarrow> [] | Some t \<Rightarrow> t)"

definition GetMetadata :: "read_tables db_env \<Rightarrow> int \<Rightarrow> Address \<Rightarrow> (read_tables, Metadata) io" where
  "GetMetadata env chainID token =
     iobind (on_error (\<lambda>e. if e = NoRows then ErrNotFound else e) (statement env (sql_GetTokenMetadata chainID token))) (\<lambda>r.
     ret \<lparr>meDescription = text_value (mdDescription r), meImageURL = text_value (mdImageURL r), meXURL = text_value (mdXURL r),
       meTelegramURL = text_value (mdTelegramURL r), meRevision = mdRevision r, meUpdatedAt = mdUpdatedAt r\<rparr>)"

definition GetImage :: "read_tables db_env \<Rightarrow> int \<Rightarrow> Address \<Rightarrow> (read_tables, Image) io" where
  "GetImage env chainID token =
     iobind (on_error (\<lambda>e. if e = NoRows then ErrNotFound else e) (statement env (sql_GetTokenImage chainID token))) (\<lambda>r.
     ret \<lparr>igContentType = imContentType r, igContent = imContent r, igSHA256 = imSHA256 r, igRevision = imRevision r,
       igUpdatedAt = imUpdatedAt r\<rparr>)"

section \<open>Revisions\<close>

text \<open>
  What a writer relies on: a successful write replaced the version it named, left the next one and
  its content. \<open>version\<close> is 0 where nothing is stored.
\<close>

locale revisioned =
  fixes version :: "'d \<Rightarrow> int" and stored :: "'d \<Rightarrow> 'r option" and put :: "'c \<Rightarrow> int \<Rightarrow> 'd \<Rightarrow> idx_error + int \<times> 'd"
    and content :: "'c \<Rightarrow> 'r"
  assumes put_swaps: "put c n d = Inr (m, d') \<Longrightarrow> version d = n \<and> m = n + 1 \<and> version d' = m \<and> stored d' = Some (content c)"
begin

text \<open>Writes of many clients, one after the other; a refused write changes nothing.\<close>

fun put_all :: "('c \<times> int) list \<Rightarrow> 'd \<Rightarrow> ('c \<times> int) list \<times> 'd" where
  "put_all [] d = ([], d)"
| "put_all ((c, n) # ws) d =
     (case put c n d of
        Inl _ \<Rightarrow> put_all ws d
      | Inr (m, d') \<Rightarrow> (case put_all ws d' of (done', d'') \<Rightarrow> ((c, n) # done', d'')))"

text \<open>The accepted writes named consecutive versions, and the last of them is what is stored.\<close>

lemma put_all_versions:
  assumes "put_all ws d = (accepted, d')"
  shows "map snd accepted = map (\<lambda>i. version d + int i) [0..<length accepted] \<and> version d' = version d + int (length accepted)
    \<and> (accepted \<noteq> [] \<longrightarrow> stored d' = Some (content (fst (last accepted))))"
  using assms
proof (induction ws arbitrary: d accepted d')
  case Nil
  then show ?case by simp
next
  case (Cons w ws)
  obtain c n where w: "w = (c, n)" by (cases w)
  show ?case
  proof (cases "put c n d")
    case (Inl e)
    then show ?thesis using Cons.IH[of d accepted d'] Cons.prems w by simp
  next
    case (Inr p)
    obtain m d1 where p: "p = (m, d1)" by (cases p)
    note swap = put_swaps[of c n d m d1]
    obtain more d2 where r: "put_all ws d1 = (more, d2)" by (cases "put_all ws d1")
    then have a: "accepted = (c, n) # more" "d' = d2" using Cons.prems w Inr p by auto
    have ih: "map snd more = map (\<lambda>i. version d1 + int i) [0..<length more]" "version d2 = version d1 + int (length more)"
        "more \<noteq> [] \<longrightarrow> stored d2 = Some (content (fst (last more)))"
      using Cons.IH[OF r] by auto
    have "map (\<lambda>i. version d + int i) [0..<length accepted] = version d # map (\<lambda>i. version d1 + int i) [0..<length more]"
      using swap Inr p a by (simp add: upt_conv_Cons map_Suc_upt[symmetric] comp_def add_ac del: upt_Suc)
    moreover have "more = [] \<Longrightarrow> d2 = d1 \<or> stored d2 = stored d1" using r
    proof -
      assume m: "more = []"
      have "put_all us x = ([], y) \<Longrightarrow> y = x" for us x y
        by (induction us arbitrary: x) (auto split: sum.splits prod.splits)
      then show ?thesis using r m by blast
    qed
    ultimately show ?thesis using swap Inr p a ih by (cases more) auto
  qed
qed

text \<open>Of the writers that saw the same version at most one is accepted.\<close>

lemma put_all_distinct: "put_all ws d = (accepted, d') \<Longrightarrow> distinct (map snd accepted)"
  using put_all_versions[of ws d accepted d'] by (auto simp: distinct_map inj_on_def)

end

definition metadata_at :: "int \<Rightarrow> Address \<Rightarrow> rdb \<Rightarrow> metadata_row option" where
  "metadata_at chainID token d = Option.bind (launch_of chainID token d) (\<lambda>l. map_of (rtMetadata (dbMarket d)) (key_of_launch l))"

definition image_at :: "int \<Rightarrow> Address \<Rightarrow> rdb \<Rightarrow> image_row option" where
  "image_at chainID token d = Option.bind (launch_of chainID token d) (\<lambda>l. map_of (rtImages (dbMarket d)) (key_of_launch l))"

definition version_of :: "('r \<Rightarrow> int) \<Rightarrow> 'r option \<Rightarrow> int" where
  "version_of revision r = (case r of None \<Rightarrow> 0 | Some row \<Rightarrow> revision row)"

lemma replace_row_Inr:
  "replace_row revision row key expected table = Inr (n, t) \<longleftrightarrow>
     version_of revision (map_of table key) = expected \<and> expected \<noteq> 2 ^ 63 - 1 \<and> n = expected + 1
     \<and> t = AList.update key (row n) table"
  by (auto simp: replace_row_def version_of_def split: option.splits)

lemma launch_of_market [simp]: "launch_of chainID token (d\<lparr>dbMarket := m\<rparr>) = launch_of chainID token d"
  by (simp add: launch_of_def)

lemma sql_ReplaceTokenMetadata_Inr:
  "sql_ReplaceTokenMetadata chainID token creator v d = Inr (n, d') \<longleftrightarrow>
     (\<exists>l. launch_of chainID token d = Some l \<and> tlCreator (snd l) = creator
        \<and> version_of mdRevision (metadata_at chainID token d) = meRevision v \<and> meRevision v \<noteq> 2 ^ 63 - 1 \<and> n = meRevision v + 1
        \<and> d' = d\<lparr>dbMarket := (dbMarket d)\<lparr>rtMetadata := AList.update (key_of_launch l) (metadata_row_of v n) (rtMetadata (dbMarket d))\<rparr>\<rparr>)"
  by (auto simp: sql_ReplaceTokenMetadata_def metadata_at_def rbind_eq_Inr replace_row_Inr split: option.splits)

lemma sql_ReplaceTokenImage_Inr:
  "sql_ReplaceTokenImage chainID token creator v d = Inr (n, d') \<longleftrightarrow>
     (\<exists>l. launch_of chainID token d = Some l \<and> tlCreator (snd l) = creator \<and> image_check v
        \<and> version_of imRevision (image_at chainID token d) = igRevision v \<and> igRevision v \<noteq> 2 ^ 63 - 1 \<and> n = igRevision v + 1
        \<and> d' = d\<lparr>dbMarket := (dbMarket d)\<lparr>rtImages := AList.update (key_of_launch l) (image_row_of v n) (rtImages (dbMarket d))\<rparr>\<rparr>)"
  by (auto simp: sql_ReplaceTokenImage_def image_at_def version_of_def rbind_eq_Inr replace_row_Inr split: option.splits if_splits)

interpretation metadata_revisions: revisioned "\<lambda>d. version_of mdRevision (metadata_at chainID token d)" "\<lambda>d. map_option (mdRevision_update (\<lambda>_. 0)) (metadata_at chainID token d)"
    "\<lambda>v n. sql_ReplaceTokenMetadata chainID token creator (v\<lparr>meRevision := n\<rparr>)" "\<lambda>v. metadata_row_of v 0"
  for chainID token creator
  by unfold_locales (auto simp: sql_ReplaceTokenMetadata_Inr metadata_at_def version_of_def metadata_row_of_def AList.update_conv')

interpretation image_revisions: revisioned "\<lambda>d. version_of imRevision (image_at chainID token d)" "\<lambda>d. map_option (imRevision_update (\<lambda>_. 0)) (image_at chainID token d)"
    "\<lambda>v n. sql_ReplaceTokenImage chainID token creator (v\<lparr>igRevision := n\<rparr>)" "\<lambda>v. image_row_of v 0"
  for chainID token creator
  by unfold_locales (auto simp: sql_ReplaceTokenImage_Inr image_at_def version_of_def image_row_of_def AList.update_conv')

section \<open>What a write does\<close>

text \<open>One write: the creator of the token's launch is among the wallets, and the statement succeeds.\<close>

definition written :: "(Address \<Rightarrow> rdb \<Rightarrow> idx_error + int \<times> rdb) \<Rightarrow> int \<Rightarrow> Address \<Rightarrow> Address list \<Rightarrow> rdb \<Rightarrow> int \<Rightarrow> rdb \<Rightarrow> bool" where
  "written q chainID token wallets d n d' \<longleftrightarrow>
     (\<exists>l. launch_of chainID token d = Some l \<and> tlCreator (snd l) \<in> set wallets \<and> q (tlCreator (snd l)) d = Inr (n, d'))"

text \<open>
  Both operations: a transaction that looks the creator up and runs one statement, then the hint.
  \<open>pre\<close> is what is checked before the statement.
\<close>

definition creator_write ::
    "read_library \<Rightarrow> read_tables db_env \<Rightarrow> string \<Rightarrow> int \<Rightarrow> Address \<Rightarrow> Address list \<Rightarrow> (Address \<Rightarrow> (read_tables, int) io)
     \<Rightarrow> (read_tables, int \<times> string list) io" where
  "creator_write lib env deploymentID chainID token wallets body =
     iobind (WithinTx env (iobind (authorizedCreator env chainID token wallets) body)) (\<lambda>revision.
     iobind (notifyToken lib env deploymentID chainID token) (\<lambda>hints. ret (revision, hints)))"

lemma writes_as_creator_write:
  "ReplaceMetadata lib env dep chainID token wallets v =
     creator_write lib env dep chainID token wallets (\<lambda>creator. ReplaceTokenMetadata env chainID token creator v)"
  "ReplaceImage lib env dep chainID token wallets i =
     creator_write lib env dep chainID token wallets (\<lambda>creator. ReplaceTokenImage env chainID token creator i)"
  by (simp_all add: ReplaceMetadata_def ReplaceImage_def creator_write_def)

lemma on_error_Inr: "on_error g m w = (Inr a, w') \<longleftrightarrow> m w = (Inr a, w')"
  by (auto simp: on_error_def split: prod.splits sum.splits)

lemma authorizedCreator_Inr:
  assumes "authorizedCreator env chainID token wallets w = (Inr c, w')"
  shows "wDb w' = wDb w \<and> (\<exists>l. launch_of chainID token (wDb w) = Some l \<and> tlCreator (snd l) = c \<and> c \<in> set wallets)"
  using assms
  by (auto simp: authorizedCreator_def iobind_eq_Inr on_error_Inr statement_Inr ret_eq raise_eq sql_GetTokenCreatorForUpdate_def
      split: if_splits option.splits)

lemma creator_write_effect:
  assumes run: "creator_write lib env dep chainID token wallets body w = (r, w')"
    and body: "\<And>c w a w'. body c w = (Inr a, w') \<Longrightarrow> q c (wDb w) = Inr (a, wDb w')"
  shows "case r of
      Inr (n, hints) \<Rightarrow> written q chainID token wallets (wDb w) n (wDb w') \<and> set hints \<subseteq> {json_text (token_hint lib chainID dep token)}
    | Inl e \<Rightarrow> wDb w' = wDb w \<or> (e = CommitUnknown \<and> (\<exists>n. written q chainID token wallets (wDb w) n (wDb w')))"
proof -
  let ?b = "iobind (authorizedCreator env chainID token wallets) body"
  have b: "written q chainID token wallets (wDb w1) n (wDb w2)" if "?b w1 = (Inr n, w2)" for w1 n w2
    using that authorizedCreator_Inr body unfolding iobind_eq_Inr written_def by metis
  obtain r1 w1 where t: "WithinTx env ?b w = (r1, w1)" by fastforce
  note atomic = plain_tx.atomic[OF t]
  show ?thesis
  proof (cases r1)
    case (Inl e)
    then have "r = Inl e" "wDb w' = wDb w1" using run t by (auto simp: creator_write_def iobind_def)
    then show ?thesis using atomic Inl b unfolding atomic_outcome_def by fastforce
  next
    case (Inr n)
    then have "wDb w' = wDb w1" "\<exists>hints. r = Inr (n, hints) \<and> set hints \<subseteq> {json_text (token_hint lib chainID dep token)}"
      using run t by (auto simp: creator_write_def iobind_def notifyToken_def ret_def)
    moreover have "written q chainID token wallets (wDb w) n (wDb w1)"
      using atomic Inr b unfolding atomic_outcome_def by fastforce
    ultimately show ?thesis by auto
  qed
qed

lemma ReplaceTokenMetadata_Inr:
  "ReplaceTokenMetadata env chainID token c v w = (Inr a, w') \<Longrightarrow> sql_ReplaceTokenMetadata chainID token c v (wDb w) = Inr (a, wDb w')"
  by (auto simp: ReplaceTokenMetadata_def on_error_Inr statement_Inr)

lemma ReplaceTokenImage_Inr:
  "ReplaceTokenImage env chainID token c v w = (Inr a, w') \<Longrightarrow> sql_ReplaceTokenImage chainID token c v (wDb w) = Inr (a, wDb w')"
  by (auto simp: ReplaceTokenImage_def on_error_Inr statement_Inr raise_eq split: if_splits)

lemmas ReplaceMetadata_effect = creator_write_effect[where q = "\<lambda>c. sql_ReplaceTokenMetadata chainID token c v"
    and body = "\<lambda>creator. ReplaceTokenMetadata env chainID token creator v" and env = env and chainID = chainID and token = token
    for chainID token v env, folded writes_as_creator_write, OF _ ReplaceTokenMetadata_Inr]

lemmas ReplaceImage_effect = creator_write_effect[where q = "\<lambda>c. sql_ReplaceTokenImage chainID token c v"
    and body = "\<lambda>creator. ReplaceTokenImage env chainID token creator v" and env = env and chainID = chainID and token = token
    for chainID token v env, folded writes_as_creator_write, OF _ ReplaceTokenImage_Inr]

text \<open>Without faults the outcome is determined.\<close>

definition calm :: "'m db_env \<Rightarrow> bool" where
  "calm env \<longleftrightarrow> (\<forall>n. \<not> envFails env n \<and> \<not> envCtxDone env n \<and> envCommit env n = Committed)"

lemma calm_statement: "calm env \<Longrightarrow> statement env q w = (case q (wDb w) of Inl e \<Rightarrow> (Inl e, tick w) | Inr (a, d) \<Rightarrow> (Inr a, (tick w)\<lparr>wDb := d\<rparr>))"
  by (simp add: calm_def statement_def)

definition write_outcome ::
    "string \<Rightarrow> (Address \<Rightarrow> rdb \<Rightarrow> idx_error + int \<times> rdb) \<Rightarrow> int \<Rightarrow> Address \<Rightarrow> Address list \<Rightarrow> rdb \<Rightarrow> (idx_error + int \<times> string list) \<times> rdb" where
  "write_outcome hint q chainID token wallets d =
     (case launch_of chainID token d of
        None \<Rightarrow> (Inl ErrNotFound, d)
      | Some l \<Rightarrow>
        if tlCreator (snd l) \<notin> set wallets then (Inl ErrUnauthorized, d)
        else case q (tlCreator (snd l)) d of
          Inl e \<Rightarrow> (Inl (if e = NoRows then ErrRevisionConflict else e), d)
        | Inr (n, d') \<Rightarrow> (Inr (n, [hint]), d'))"

lemma calm_creator_write:
  assumes "calm env"
  shows "map_prod id wDb (creator_write lib env dep chainID token wallets
      (\<lambda>c. on_error (\<lambda>e. if e = NoRows then ErrRevisionConflict else e) (statement env (q c))) w)
    = write_outcome (json_text (token_hint lib chainID dep token)) q chainID token wallets (wDb w)"
  using assms
  by (auto simp: creator_write_def authorizedCreator_def iobind_def WithinTx_def calm_statement on_error_def sql_GetTokenCreatorForUpdate_def
      ret_def raise_def rollbackTo_def notifyToken_def write_outcome_def calm_def statement_def
      split: option.splits sum.splits prod.splits commit_outcome.splits if_splits)

end
