(* ===== verification/Metadata_Routes.thy ===== *)
theory Metadata_Routes
  imports Metadata_Store Read_Routes
begin

text \<open>
  \<^verbatim>\<open>apiserver/metadata_routes.go\<close>: the routes that read and replace a token's metadata and image, their
  validation, authentication and the write limiter. A handler acts on the tables, the limiter and the
  refresh hints sent so far; the readings of the clock come with the request.
\<close>

section \<open>The write limiter\<close>

definition maxSubjectLimiterEntries :: nat where "maxSubjectLimiterEntries = 10000"

record subjectWindow =
  swStart :: int
  swCount :: int

record SubjectLimiter =
  slEntries :: "(string \<times> subjectWindow) list"
  slMaximum :: int
  slWindow :: int

definition NewSubjectLimiter :: "int \<Rightarrow> int \<Rightarrow> SubjectLimiter" where
  "NewSubjectLimiter maximum window = \<lparr>slEntries = [], slMaximum = maximum, slWindow = window\<rparr>"

text \<open>
  Times are in nanoseconds; the zero time is the start of an entry that is absent. The entries are
  those of a map, so a subject occurs once.
\<close>

definition zero_nanos :: int where "zero_nanos = zero_time * 10 ^ 9"

definition entry_of :: "string \<Rightarrow> (string \<times> subjectWindow) list \<Rightarrow> subjectWindow" where
  "entry_of subject entries = (case map_of entries subject of None \<Rightarrow> \<lparr>swStart = zero_nanos, swCount = 0\<rparr> | Some e \<Rightarrow> e)"

definition Allow :: "string \<Rightarrow> int \<Rightarrow> SubjectLimiter \<Rightarrow> bool \<times> SubjectLimiter" where
  "Allow subject now l =
     (let entry = entry_of subject (slEntries l); exists = map_of (slEntries l) subject \<noteq> None;
          full = \<not> exists \<and> length (slEntries l) \<ge> maxSubjectLimiterEntries;
          kept = (if full then filter (\<lambda>e. now - swStart (snd e) < slWindow l) (slEntries l) else slEntries l) in
      if full \<and> length kept \<ge> maxSubjectLimiterEntries then (False, l\<lparr>slEntries := kept\<rparr>)
      else if swStart entry = zero_nanos \<or> now - swStart entry \<ge> slWindow l
      then (True, l\<lparr>slEntries := AList.update subject \<lparr>swStart = now, swCount = 1\<rparr> kept\<rparr>)
      else if swCount entry \<ge> slMaximum l then (False, l\<lparr>slEntries := kept\<rparr>)
      else (True, l\<lparr>slEntries := AList.update subject (entry\<lparr>swCount := swCount entry + 1\<rparr>) kept\<rparr>))"

section \<open>Validation\<close>

record metadataBody =
  mbDescription :: string
  mbXURL :: string
  mbTelegramURL :: string

record parsed_url =
  puScheme :: string
  puHost :: string
  puUser :: bool

definition invalid_metadata :: "string \<Rightarrow> api_error" where
  "invalid_metadata detail = apiProblem 422 ''invalid_metadata'' detail"

definition validate_link :: "(string \<Rightarrow> parsed_url option) \<Rightarrow> string \<times> string \<Rightarrow> api_error + unit" where
  "validate_link parse entry =
     (case entry of (name, value) \<Rightarrow>
        if value = [] then Inr ()
        else if length value > 2048 then Inl (invalid_metadata (name @ '' must be at most 2048 bytes''))
        else case parse value of
          None \<Rightarrow> Inl (invalid_metadata (name @ '' must be an HTTPS URL''))
        | Some u \<Rightarrow> if puScheme u \<noteq> ''https'' \<or> puHost u = [] \<or> puUser u then Inl (invalid_metadata (name @ '' must be an HTTPS URL'')) else Inr ())"

text \<open>The two links are visited in the order of a map iteration, which the flag decides.\<close>

definition validateMetadata :: "(string \<Rightarrow> parsed_url option) \<Rightarrow> bool \<Rightarrow> metadataBody \<Rightarrow> api_error + unit" where
  "validateMetadata parse telegramFirst v =
     (if \<not> ValidString (mbDescription v) \<or> length (mbDescription v) > 2000
      then Inl (invalid_metadata ''Description must be valid UTF-8 and at most 2000 bytes'')
      else let links = [(''x_url'', mbXURL v), (''telegram_url'', mbTelegramURL v)] in
        rfold (\<lambda>entry _. validate_link parse entry) (if telegramFirst then rev links else links) ())"

definition maxImageBytes :: nat where "maxImageBytes = 5 * 2 ^ 20"

definition detectImage :: "string \<Rightarrow> api_error + string" where
  "detectImage content =
     (if content = [] \<or> length content > maxImageBytes
      then Inl (apiProblem 413 ''invalid_image'' ''Image must be between 1 byte and 5 MiB'')
      else if length content \<ge> 8 \<and> take 8 content = [CHR 0x89, CHR 0x50, CHR 0x4E, CHR 0x47, CHR 0x0D, CHR 0x0A, CHR 0x1A, CHR 0x0A]
      then Inr ''image/png''
      else if length content \<ge> 3 \<and> content ! 0 = CHR 0xFF \<and> content ! 1 = CHR 0xD8 \<and> content ! 2 = CHR 0xFF
      then Inr ''image/jpeg''
      else if length content \<ge> 12 \<and> take 4 content = ''RIFF'' \<and> take 4 (drop 8 content) = ''WEBP''
      then Inr ''image/webp''
      else Inl (apiProblem 415 ''invalid_image'' ''Only PNG, JPEG, and WebP images are accepted''))"

definition unquote :: "string \<Rightarrow> string" where
  "unquote s = (if length s \<ge> 2 \<and> s ! 0 = CHR 0x22 \<and> last s = CHR 0x22 then butlast (tl s) else s)"

definition parseRevision :: "string \<Rightarrow> api_error + int" where
  "parseRevision value =
     (case ParseInt 64 (unquote (TrimSpace value)) of
        None \<Rightarrow> Inl (apiProblem 400 ''invalid_revision'' ''If-Match must contain a non-negative integer revision'')
      | Some revision \<Rightarrow>
        if revision < 0 then Inl (apiProblem 400 ''invalid_revision'' ''If-Match must contain a non-negative integer revision'')
        else Inr revision)"

definition revisionETag :: "int \<Rightarrow> string" where
  "revisionETag revision = [CHR 0x22] @ FormatInt revision @ [CHR 0x22]"

definition matchesETag :: "string \<Rightarrow> string \<Rightarrow> bool" where
  "matchesETag header wanted \<longleftrightarrow>
     list_ex (\<lambda>part. let v = TrimSpace part in
       v = ''*'' \<or> v = wanted \<or> (if take 2 v = ''W/'' then drop 2 v else v) = wanted) (split_at (CHR '','') header)"

section \<open>Requests\<close>

record metadataWriteInput =
  mwToken :: string
  mwAuthorization :: string
  mwIdentityToken :: string
  mwIfMatch :: string
  mwBody :: metadataBody

record imageWriteInput =
  iwToken :: string
  iwAuthorization :: string
  iwIdentityToken :: string
  iwIfMatch :: string
  iwContentType :: string
  iwRawBody :: string

record revisionOutput =
  roETag :: string
  roRevision :: int
  roImageURL :: string

record metadataReadOutput =
  mrETag :: string
  mrDescription :: string
  mrImageURL :: string
  mrXURL :: string
  mrTelegramURL :: string
  mrRevision :: int

record imageOutput =
  ioStatus :: int
  ioContentType :: string
  ioContentLength :: int
  ioETag :: string
  ioRevision :: int
  ioNoSniff :: string
  ioBody :: string

text \<open>
  The routes: the server with its libraries, the verifier and the store, which may be missing, and the
  failures of the database. The readings of the clock: seconds for the two tokens, nanoseconds for the
  limiter, microseconds for the row.
\<close>

record write_server =
  wsServer :: server
  wsAuth :: auth_library
  wsVerifier :: "ES256Verifier option"
  wsStore :: bool
  wsDb :: "read_tables db_env"
  wsParseURL :: "string \<Rightarrow> parsed_url option"
  wsTelegramFirst :: bool

record clock =
  ckAccess :: int
  ckIdentity :: int
  ckLimiter :: int
  ckUpdated :: int

record write_state =
  stWorld :: "read_tables world"
  stLimiter :: SubjectLimiter
  stHints :: "string list"

definition mapMetadataError :: "string \<Rightarrow> idx_error \<Rightarrow> api_error" where
  "mapMetadataError requestID e =
     (if e = ErrNotFound then apiProblem 404 ''token_not_found'' ''Token or image not found''
      else if e = ErrUnauthorized then apiProblem 403 ''creator_required'' ''A verified creator wallet is required''
      else if e = ErrRevisionConflict then apiProblem 412 ''revision_conflict'' ''Resource revision changed''
      else apiRequestProblem requestID 500 ''internal_error'' ''Request failed'')"

definition internal_error :: "write_server \<Rightarrow> api_error" where
  "internal_error ws = apiRequestProblem (svRequestID (wsServer ws)) 500 ''internal_error'' ''Request failed''"

definition authentication_failed :: api_error where
  "authentication_failed = apiProblem 401 ''authentication_failed'' ''Authentication failed''"

definition authenticate :: "write_server \<Rightarrow> clock \<Rightarrow> string \<Rightarrow> string \<Rightarrow> SubjectLimiter \<Rightarrow> (api_error + Principal) \<times> SubjectLimiter" where
  "authenticate ws ck authorization identity l =
     (case wsVerifier ws of
        None \<Rightarrow> (Inl (internal_error ws), l)
      | Some v \<Rightarrow>
        if \<not> wsStore ws then (Inl (internal_error ws), l)
        else case ParseBearer authorization of
          Inl _ \<Rightarrow> (Inl authentication_failed, l)
        | Inr access \<Rightarrow>
          (case Verify (wsAuth ws) (svLib (wsServer ws)) v (ckAccess ck) (ckIdentity ck) access identity of
             Inl _ \<Rightarrow> (Inl authentication_failed, l)
           | Inr person \<Rightarrow>
             (case Allow (prPrivyDID person) (ckLimiter ck) l of
                (False, l') \<Rightarrow> (Inl (apiProblem 429 ''rate_limited'' ''Write rate limit exceeded''), l')
              | (True, l') \<Rightarrow> (Inr person, l'))))"

definition image_url :: "write_server \<Rightarrow> Address \<Rightarrow> string" where
  "image_url ws token = ''/v1/tokens/'' @ rlAddressHex (svLib (wsServer ws)) token @ ''/image''"

text \<open>What both writes do with the outcome of the store.\<close>

definition store_write ::
    "write_server \<Rightarrow> Address \<Rightarrow> (read_tables, int \<times> string list) io \<Rightarrow> write_state \<Rightarrow> (api_error + revisionOutput) \<times> write_state" where
  "store_write ws token op st =
     (case op (stWorld st) of
        (Inl e, w) \<Rightarrow> (Inl (mapMetadataError (svRequestID (wsServer ws)) e), st\<lparr>stWorld := w\<rparr>)
      | (Inr (revision, hints), w) \<Rightarrow>
          (Inr \<lparr>roETag = revisionETag revision, roRevision = revision, roImageURL = image_url ws token\<rparr>,
           st\<lparr>stWorld := w, stHints := stHints st @ hints\<rparr>))"

definition replaceMetadata :: "write_server \<Rightarrow> clock \<Rightarrow> metadataWriteInput \<Rightarrow> write_state \<Rightarrow> (api_error + revisionOutput) \<times> write_state" where
  "replaceMetadata ws ck i st =
     (case parse_address (svLib (wsServer ws)) (mwToken i) of
        Inl e \<Rightarrow> (Inl e, st)
      | Inr token \<Rightarrow>
        (case authenticate ws ck (mwAuthorization i) (mwIdentityToken i) (stLimiter st) of
           (Inl e, l) \<Rightarrow> (Inl e, st\<lparr>stLimiter := l\<rparr>)
         | (Inr person, l) \<Rightarrow>
           (case rbind (parseRevision (mwIfMatch i)) (\<lambda>revision.
                   rbind (validateMetadata (wsParseURL ws) (wsTelegramFirst ws) (mwBody i)) (\<lambda>_. Inr revision)) of
              Inl e \<Rightarrow> (Inl e, st\<lparr>stLimiter := l\<rparr>)
            | Inr revision \<Rightarrow>
              store_write ws token
                (ReplaceMetadata (svLib (wsServer ws)) (wsDb ws) (svDeploymentID (wsServer ws)) (svChainID (wsServer ws)) token
                   (prWallets person)
                   \<lparr>meDescription = mbDescription (mwBody i), meImageURL = image_url ws token, meXURL = mbXURL (mwBody i),
                    meTelegramURL = mbTelegramURL (mwBody i), meRevision = revision, meUpdatedAt = ckUpdated ck\<rparr>)
                (st\<lparr>stLimiter := l\<rparr>))))"

definition declared_type :: "read_library \<Rightarrow> string \<Rightarrow> string" where
  "declared_type lib contentType = rlToLower lib (TrimSpace (hd (split_at (CHR '';'') contentType)))"

definition replaceImage :: "write_server \<Rightarrow> clock \<Rightarrow> imageWriteInput \<Rightarrow> write_state \<Rightarrow> (api_error + revisionOutput) \<times> write_state" where
  "replaceImage ws ck i st =
     (case parse_address (svLib (wsServer ws)) (iwToken i) of
        Inl e \<Rightarrow> (Inl e, st)
      | Inr token \<Rightarrow>
        (case authenticate ws ck (iwAuthorization i) (iwIdentityToken i) (stLimiter st) of
           (Inl e, l) \<Rightarrow> (Inl e, st\<lparr>stLimiter := l\<rparr>)
         | (Inr person, l) \<Rightarrow>
           (case rbind (parseRevision (iwIfMatch i)) (\<lambda>revision.
                   rbind (detectImage (iwRawBody i)) (\<lambda>detected.
                   if declared_type (svLib (wsServer ws)) (iwContentType i) \<noteq> detected
                   then Inl (apiProblem 415 ''image_type_mismatch'' ''Declared and detected image types differ'')
                   else Inr (revision, detected))) of
              Inl e \<Rightarrow> (Inl e, st\<lparr>stLimiter := l\<rparr>)
            | Inr (revision, detected) \<Rightarrow>
              store_write ws token
                (ReplaceImage (svLib (wsServer ws)) (wsDb ws) (svDeploymentID (wsServer ws)) (svChainID (wsServer ws)) token
                   (prWallets person)
                   \<lparr>igContentType = detected, igContent = iwRawBody i, igSHA256 = alSha256 (wsAuth ws) (iwRawBody i),
                    igRevision = revision, igUpdatedAt = ckUpdated ck\<rparr>)
                (st\<lparr>stLimiter := l\<rparr>))))"

definition getMetadata :: "write_server \<Rightarrow> string \<Rightarrow> write_state \<Rightarrow> (api_error + metadataReadOutput) \<times> write_state" where
  "getMetadata ws address st =
     (case parse_address (svLib (wsServer ws)) address of
        Inl e \<Rightarrow> (Inl e, st)
      | Inr token \<Rightarrow>
        if \<not> wsStore ws then (Inl (internal_error ws), st)
        else case GetMetadata (wsDb ws) (svChainID (wsServer ws)) token (stWorld st) of
          (Inl e, w) \<Rightarrow> (Inl (mapMetadataError (svRequestID (wsServer ws)) e), st\<lparr>stWorld := w\<rparr>)
        | (Inr v, w) \<Rightarrow>
          (Inr \<lparr>mrETag = revisionETag (meRevision v), mrDescription = meDescription v, mrImageURL = meImageURL v, mrXURL = meXURL v,
             mrTelegramURL = meTelegramURL v, mrRevision = meRevision v\<rparr>, st\<lparr>stWorld := w\<rparr>))"

text \<open>\<^verbatim>\<open>hex.EncodeToString\<close>.\<close>

definition hex_bytes :: "string \<Rightarrow> string" where
  "hex_bytes s = concat (map (\<lambda>c. [hex_char (of_char c div 16), hex_char (of_char c mod 16)]) s)"

definition image_etag :: "string \<Rightarrow> string" where
  "image_etag sha = [CHR 0x22] @ ''sha256-'' @ hex_bytes sha @ [CHR 0x22]"

text \<open>The image route has no check for a missing store: the call on a nil interface panics, the result None.\<close>

definition getImage :: "write_server \<Rightarrow> string \<Rightarrow> string \<Rightarrow> write_state \<Rightarrow> ((api_error + imageOutput) \<times> write_state) option" where
  "getImage ws address ifNoneMatch st =
     (case parse_address (svLib (wsServer ws)) address of
        Inl e \<Rightarrow> Some (Inl e, st)
      | Inr token \<Rightarrow>
        if \<not> wsStore ws then None
        else case GetImage (wsDb ws) (svChainID (wsServer ws)) token (stWorld st) of
          (Inl e, w) \<Rightarrow> Some (Inl (mapMetadataError (svRequestID (wsServer ws)) e), st\<lparr>stWorld := w\<rparr>)
        | (Inr v, w) \<Rightarrow>
          let etag = image_etag (igSHA256 v) in
          Some (Inr (if matchesETag ifNoneMatch etag
             then \<lparr>ioStatus = 304, ioContentType = [], ioContentLength = 0, ioETag = etag, ioRevision = igRevision v,
                   ioNoSniff = ''nosniff'', ioBody = []\<rparr>
             else \<lparr>ioStatus = 200, ioContentType = igContentType v, ioContentLength = int (length (igContent v)), ioETag = etag,
                   ioRevision = igRevision v, ioNoSniff = ''nosniff'', ioBody = igContent v\<rparr>), st\<lparr>stWorld := w\<rparr>))"

section \<open>Requests in sequence\<close>

datatype metadata_request =
    PutMetadata metadataWriteInput
  | PutImage imageWriteInput
  | ReadMetadata string
  | ReadImage string string

datatype metadata_reply = Revised "api_error + revisionOutput" | Metadata_read "api_error + metadataReadOutput" | Image_read "(api_error + imageOutput) option"

definition handle :: "write_server \<Rightarrow> clock \<Rightarrow> metadata_request \<Rightarrow> write_state \<Rightarrow> metadata_reply \<times> write_state" where
  "handle ws ck r st =
     (case r of
        PutMetadata i \<Rightarrow> map_prod Revised id (replaceMetadata ws ck i st)
      | PutImage i \<Rightarrow> map_prod Revised id (replaceImage ws ck i st)
      | ReadMetadata a \<Rightarrow> map_prod Metadata_read id (getMetadata ws a st)
      | ReadImage a e \<Rightarrow> (case getImage ws a e st of None \<Rightarrow> (Image_read None, st) | Some (reply, st') \<Rightarrow> (Image_read (Some reply), st')))"

fun serve :: "write_server \<Rightarrow> (clock \<times> metadata_request) list \<Rightarrow> write_state \<Rightarrow> (metadata_request \<times> metadata_reply) list \<times> write_state" where
  "serve ws [] st = ([], st)"
| "serve ws ((ck, r) # rs) st =
     (case handle ws ck r st of (reply, st') \<Rightarrow> (case serve ws rs st' of (log, st'') \<Rightarrow> ((r, reply) # log, st'')))"

text \<open>The tables of a state, and the headers that every write carries.\<close>

abbreviation tables :: "write_state \<Rightarrow> rdb" where
  "tables st \<equiv> world.wDb (stWorld st)"

definition creator_request :: "write_server \<Rightarrow> clock \<Rightarrow> string \<Rightarrow> string \<Rightarrow> Address \<Rightarrow> rdb \<Rightarrow> bool" where
  "creator_request ws ck authorization identity token d \<longleftrightarrow>
     (\<exists>v access p l. wsVerifier ws = Some v \<and> ParseBearer authorization = Inr access
        \<and> Verify (wsAuth ws) (svLib (wsServer ws)) v (ckAccess ck) (ckIdentity ck) access identity = Inr p
        \<and> launch_of (svChainID (wsServer ws)) token d = Some l \<and> tlCreator (snd l) \<in> set (prWallets p))"

lemma authenticate_Inr:
  assumes "authenticate ws ck authorization identity l = (Inr p, l')"
  shows "\<exists>v access. wsVerifier ws = Some v \<and> wsStore ws \<and> ParseBearer authorization = Inr access
    \<and> Verify (wsAuth ws) (svLib (wsServer ws)) v (ckAccess ck) (ckIdentity ck) access identity = Inr p
    \<and> Allow (prPrivyDID p) (ckLimiter ck) l = (True, l')"
  using assms by (auto simp: authenticate_def split: option.splits sum.splits if_splits prod.splits bool.splits)

text \<open>
  A write at its core: a principal was authenticated, and the store's operation ran with its wallets.
  \<open>metadata_value\<close> and \<open>image_value\<close> are what a request asks to be stored.
\<close>

definition metadata_value :: "write_server \<Rightarrow> clock \<Rightarrow> metadataWriteInput \<Rightarrow> Address \<Rightarrow> int \<Rightarrow> Metadata" where
  "metadata_value ws ck i token revision =
     \<lparr>meDescription = mbDescription (mwBody i), meImageURL = image_url ws token, meXURL = mbXURL (mwBody i),
      meTelegramURL = mbTelegramURL (mwBody i), meRevision = revision, meUpdatedAt = ckUpdated ck\<rparr>"

definition image_value :: "write_server \<Rightarrow> clock \<Rightarrow> imageWriteInput \<Rightarrow> string \<Rightarrow> int \<Rightarrow> Image" where
  "image_value ws ck i detected revision =
     \<lparr>igContentType = detected, igContent = iwRawBody i, igSHA256 = alSha256 (wsAuth ws) (iwRawBody i),
      igRevision = revision, igUpdatedAt = ckUpdated ck\<rparr>"

text \<open>How a write may change the tables: not at all, or by one authorised statement; a reply of success means the latter.\<close>

definition write_effect ::
    "write_server \<Rightarrow> clock \<Rightarrow> string \<Rightarrow> string \<Rightarrow> Address \<Rightarrow> (Address \<Rightarrow> rdb \<Rightarrow> idx_error + int \<times> rdb)
     \<Rightarrow> write_state \<Rightarrow> api_error + revisionOutput \<Rightarrow> write_state \<Rightarrow> bool" where
  "write_effect ws ck authorization identity token q st reply st' \<longleftrightarrow>
     (tables st' = tables st \<and> \<not> is_ok reply)
     \<or> creator_request ws ck authorization identity token (tables st)
       \<and> (\<exists>l n. launch_of (svChainID (wsServer ws)) token (tables st) = Some l \<and> q (tlCreator (snd l)) (tables st) = Inr (n, tables st')
            \<and> (\<forall>out. reply = Inr out \<longrightarrow> roRevision out = n \<and> roETag out = revisionETag n))"

lemma store_write_effect:
  assumes run: "store_write ws token op st = (reply, st')" and auth: "authenticate ws ck authorization identity l0 = (Inr p, l1)"
    and op: "\<And>w r w'. op w = (r, w') \<Longrightarrow> case r of
      Inr (n, hints) \<Rightarrow> written q (svChainID (wsServer ws)) token (prWallets p) (world.wDb w) n (world.wDb w') \<and> set hints \<subseteq> H
    | Inl e \<Rightarrow> world.wDb w' = world.wDb w \<or> (e = CommitUnknown \<and> (\<exists>n. written q (svChainID (wsServer ws)) token (prWallets p) (world.wDb w) n (world.wDb w')))"
  shows "write_effect ws ck authorization identity token q st reply st'"
proof -
  obtain v access where a: "wsVerifier ws = Some v" "ParseBearer authorization = Inr access"
      "Verify (wsAuth ws) (svLib (wsServer ws)) v (ckAccess ck) (ckIdentity ck) access identity = Inr p"
    using authenticate_Inr[OF auth] by blast
  have w: "creator_request ws ck authorization identity token d
      \<and> (\<exists>l. launch_of (svChainID (wsServer ws)) token d = Some l \<and> q (tlCreator (snd l)) d = Inr (n, d'))"
    if "written q (svChainID (wsServer ws)) token (prWallets p) d n d'" for d n d'
    using that a unfolding written_def creator_request_def by blast
  obtain r w' where r: "op (stWorld st) = (r, w')" by fastforce
  show ?thesis
  proof (cases r)
    case (Inl e)
    then have s: "st' = st\<lparr>stWorld := w'\<rparr>" "\<not> is_ok reply" using run r by (auto simp: store_write_def)
    show ?thesis using op[OF r] Inl s w unfolding write_effect_def by (fastforce simp: is_ok_iff)
  next
    case (Inr nh)
    obtain n hints where nh: "nh = (n, hints)" by (cases nh)
    then have s: "tables st' = world.wDb w'" "reply = Inr \<lparr>roETag = revisionETag n, roRevision = n, roImageURL = image_url ws token\<rparr>"
      using run r Inr by (auto simp: store_write_def)
    show ?thesis using op[OF r] Inr nh s w unfolding write_effect_def by fastforce
  qed
qed

lemma replaceMetadata_effect:
  assumes run: "replaceMetadata ws ck i st = (reply, st')"
  shows "(tables st' = tables st \<and> \<not> is_ok reply) \<or>
    (\<exists>token revision. parse_address (svLib (wsServer ws)) (mwToken i) = Inr token \<and> parseRevision (mwIfMatch i) = Inr revision
      \<and> write_effect ws ck (mwAuthorization i) (mwIdentityToken i) token
          (\<lambda>c. sql_ReplaceTokenMetadata (svChainID (wsServer ws)) token c (metadata_value ws ck i token revision)) st reply st')"
proof -
  obtain auth l where a: "authenticate ws ck (mwAuthorization i) (mwIdentityToken i) (stLimiter st) = (auth, l)" by fastforce
  let ?check = "rbind (parseRevision (mwIfMatch i)) (\<lambda>revision.
      rbind (validateMetadata (wsParseURL ws) (wsTelegramFirst ws) (mwBody i)) (\<lambda>_. Inr revision))"
  show ?thesis
  proof (cases "is_ok (parse_address (svLib (wsServer ws)) (mwToken i)) \<and> is_ok auth \<and> is_ok ?check")
    case False
    then show ?thesis using run a
      by (auto simp: replaceMetadata_def is_ok_def split: sum.splits)
  next
    case True
    then obtain token p revision where t: "parse_address (svLib (wsServer ws)) (mwToken i) = Inr token" "auth = Inr p" "?check = Inr revision"
      by (auto simp: is_ok_iff)
    have rev: "parseRevision (mwIfMatch i) = Inr revision" using t(3) by (auto simp: rbind_eq_Inr)
    have s: "store_write ws token (ReplaceMetadata (svLib (wsServer ws)) (wsDb ws) (svDeploymentID (wsServer ws)) (svChainID (wsServer ws)) token
        (prWallets p) (metadata_value ws ck i token revision)) (st\<lparr>stLimiter := l\<rparr>) = (reply, st')"
      using run a t by (simp add: replaceMetadata_def metadata_value_def)
    have "write_effect ws ck (mwAuthorization i) (mwIdentityToken i) token
        (\<lambda>c. sql_ReplaceTokenMetadata (svChainID (wsServer ws)) token c (metadata_value ws ck i token revision)) (st\<lparr>stLimiter := l\<rparr>) reply st'"
      by (rule store_write_effect[OF s a[unfolded t(2)] ReplaceMetadata_effect])
    then show ?thesis using t(1) rev by (auto simp: write_effect_def)
  qed
qed

lemma replaceImage_effect:
  assumes run: "replaceImage ws ck i st = (reply, st')"
  shows "(tables st' = tables st \<and> \<not> is_ok reply) \<or>
    (\<exists>token revision detected. parse_address (svLib (wsServer ws)) (iwToken i) = Inr token \<and> parseRevision (iwIfMatch i) = Inr revision
      \<and> detectImage (iwRawBody i) = Inr detected \<and> declared_type (svLib (wsServer ws)) (iwContentType i) = detected
      \<and> write_effect ws ck (iwAuthorization i) (iwIdentityToken i) token
          (\<lambda>c. sql_ReplaceTokenImage (svChainID (wsServer ws)) token c (image_value ws ck i detected revision)) st reply st')"
proof -
  obtain auth l where a: "authenticate ws ck (iwAuthorization i) (iwIdentityToken i) (stLimiter st) = (auth, l)" by fastforce
  let ?check = "rbind (parseRevision (iwIfMatch i)) (\<lambda>revision. rbind (detectImage (iwRawBody i)) (\<lambda>detected.
      if declared_type (svLib (wsServer ws)) (iwContentType i) \<noteq> detected
      then Inl (apiProblem 415 ''image_type_mismatch'' ''Declared and detected image types differ'') else Inr (revision, detected)))"
  show ?thesis
  proof (cases "is_ok (parse_address (svLib (wsServer ws)) (iwToken i)) \<and> is_ok auth \<and> is_ok ?check")
    case False
    then show ?thesis using run a
      by (auto simp: replaceImage_def is_ok_def split: sum.splits)
  next
    case True
    then obtain token p revision detected where t: "parse_address (svLib (wsServer ws)) (iwToken i) = Inr token" "auth = Inr p"
        "?check = Inr (revision, detected)"
      by (auto simp: is_ok_iff)
    have c: "parseRevision (iwIfMatch i) = Inr revision" "detectImage (iwRawBody i) = Inr detected"
        "declared_type (svLib (wsServer ws)) (iwContentType i) = detected"
      using t(3) by (auto simp: rbind_eq_Inr split: if_splits)
    have s: "store_write ws token (ReplaceImage (svLib (wsServer ws)) (wsDb ws) (svDeploymentID (wsServer ws)) (svChainID (wsServer ws)) token
        (prWallets p) (image_value ws ck i detected revision)) (st\<lparr>stLimiter := l\<rparr>) = (reply, st')"
      using run a t by (simp add: replaceImage_def image_value_def)
    have "write_effect ws ck (iwAuthorization i) (iwIdentityToken i) token
        (\<lambda>c. sql_ReplaceTokenImage (svChainID (wsServer ws)) token c (image_value ws ck i detected revision)) (st\<lparr>stLimiter := l\<rparr>) reply st'"
      by (rule store_write_effect[OF s a[unfolded t(2)] ReplaceImage_effect])
    then show ?thesis using t(1) c by (auto simp: write_effect_def)
  qed
qed

lemma reads_keep_tables:
  "getMetadata ws a st = (r, st') \<Longrightarrow> tables st' = tables st" "getImage ws a e st = Some (r', st') \<Longrightarrow> tables st' = tables st"
  by (auto simp: getMetadata_def getImage_def GetMetadata_def GetImage_def iobind_def on_error_def statement_def ret_def Let_def
      sql_GetTokenMetadata_def sql_GetTokenImage_def
      split: sum.splits if_splits option.splits prod.splits)

text \<open>The row that a write touches is the one of the token's canonical launch.\<close>

lemma launch_of_key:
  assumes "launch_of chainID token d = Some l"
  shows "ecChainID (fst l) = chainID" "tlToken (snd l) = token" "key_of_launch l = (chainID, token, ecTxHash (fst l), ecLogIndex (fst l))"
proof -
  obtain e t where e: "List.find (launch_event chainID token) (dbEvents d) = Some e" "lePayload e = LTokenLaunch t" "l = (leCoordinates e, t)"
    using assms by (auto simp: launch_of_def split: option.splits ledger_payload.splits)
  have "launch_event chainID token e" using e(1) by (auto simp: find_Some_iff)
  then show "ecChainID (fst l) = chainID" "tlToken (snd l) = token" using e by (auto simp: launch_event_def event_token_def)
  then show "key_of_launch l = (chainID, token, ecTxHash (fst l), ecLogIndex (fst l))" by (simp add: key_of_launch_def)
qed

text \<open>Two states of the tables that agree except in the row of one launch.\<close>

definition same_but_row :: "launch_key \<Rightarrow> rdb \<Rightarrow> rdb \<Rightarrow> bool" where
  "same_but_row k d d' \<longleftrightarrow>
     d' = d\<lparr>dbMarket := (dbMarket d)\<lparr>rtMetadata := rtMetadata (dbMarket d'), rtImages := rtImages (dbMarket d')\<rparr>\<rparr>
     \<and> (\<forall>k'. k' \<noteq> k \<longrightarrow> map_of (rtMetadata (dbMarket d')) k' = map_of (rtMetadata (dbMarket d)) k'
          \<and> map_of (rtImages (dbMarket d')) k' = map_of (rtImages (dbMarket d)) k')"

lemma replaced_row:
  "sql_ReplaceTokenMetadata chainID token c v d = Inr (n, d') \<Longrightarrow> launch_of chainID token d = Some l \<Longrightarrow> same_but_row (key_of_launch l) d d'"
  "sql_ReplaceTokenImage chainID token c i d = Inr (n, d') \<Longrightarrow> launch_of chainID token d = Some l \<Longrightarrow> same_but_row (key_of_launch l) d d'"
  by (auto simp: sql_ReplaceTokenMetadata_Inr sql_ReplaceTokenImage_Inr same_but_row_def AList.update_conv')

end
