(* ===== verification/Metadata_Access.thy ===== *)
theory Metadata_Access
  imports Metadata_Routes
begin

text \<open>
  What the metadata routes guarantee: who can change a token's metadata and image, that no accepted
  write is overwritten by a client that has not seen it, that what was written is what is served, and
  how many writes a subject gets through the limiter.
\<close>

section \<open>Versions over a sequence of requests\<close>

abbreviation metadata_version :: "int \<Rightarrow> Address \<Rightarrow> rdb \<Rightarrow> int" where
  "metadata_version chainID token d \<equiv> version_of mdRevision (metadata_at chainID token d)"

abbreviation image_version :: "int \<Rightarrow> Address \<Rightarrow> rdb \<Rightarrow> int" where
  "image_version chainID token d \<equiv> version_of imRevision (image_at chainID token d)"

text \<open>The accepted writes of a log for one token: the revision each named and the one it returned.\<close>

definition named_revision :: "read_library \<Rightarrow> Address \<Rightarrow> string \<Rightarrow> string \<Rightarrow> metadata_reply \<Rightarrow> (int \<times> int) list" where
  "named_revision lib token address ifMatch reply =
     (case (parse_address lib address, parseRevision ifMatch, reply) of
        (Inr t, Inr n, Revised (Inr out)) \<Rightarrow> if t = token then [(n, roRevision out)] else []
      | _ \<Rightarrow> [])"

definition accepted_metadata :: "read_library \<Rightarrow> Address \<Rightarrow> (metadata_request \<times> metadata_reply) list \<Rightarrow> (int \<times> int) list" where
  "accepted_metadata lib token log = concat (map (\<lambda>(r, reply). case r of
     PutMetadata i \<Rightarrow> named_revision lib token (mwToken i) (mwIfMatch i) reply | _ \<Rightarrow> []) log)"

definition accepted_images :: "read_library \<Rightarrow> Address \<Rightarrow> (metadata_request \<times> metadata_reply) list \<Rightarrow> (int \<times> int) list" where
  "accepted_images lib token log = concat (map (\<lambda>(r, reply). case r of
     PutImage i \<Rightarrow> named_revision lib token (iwToken i) (iwIfMatch i) reply | _ \<Rightarrow> []) log)"

lemma key_other: "launch_of chainID t d = Some l \<Longrightarrow> launch_of chainID token d = Some l' \<Longrightarrow> t \<noteq> token \<Longrightarrow> key_of_launch l' \<noteq> key_of_launch l"
  by (simp add: launch_of_key(3))

lemma metadata_statement_versions:
  assumes "sql_ReplaceTokenMetadata chainID t c v d = Inr (n, d')"
  shows "image_version chainID token d' = image_version chainID token d"
    "metadata_version chainID token d' = (if t = token then n else metadata_version chainID token d)"
    "metadata_version chainID t d = meRevision v" "n = meRevision v + 1"
  using assms key_other[of chainID t d _ token]
  by (auto simp: sql_ReplaceTokenMetadata_Inr metadata_at_def image_at_def version_of_def AList.update_conv' metadata_row_of_def
      split: option.splits Option.bind_splits)

lemma image_statement_versions:
  assumes "sql_ReplaceTokenImage chainID t c v d = Inr (n, d')"
  shows "metadata_version chainID token d' = metadata_version chainID token d"
    "image_version chainID token d' = (if t = token then n else image_version chainID token d)"
    "image_version chainID t d = igRevision v" "n = igRevision v + 1"
  using assms key_other[of chainID t d _ token]
  by (auto simp: sql_ReplaceTokenImage_Inr metadata_at_def image_at_def version_of_def AList.update_conv' image_row_of_def
      split: option.splits Option.bind_splits)

lemma handle_keeps_or_writes:
  assumes "handle ws ck r st = (reply, st')"
  shows "(tables st' = tables st \<and> (\<forall>out. reply \<noteq> Revised (Inr out)))
    \<or> (\<exists>i t n. r = PutMetadata i \<and> parse_address (svLib (wsServer ws)) (mwToken i) = Inr t \<and> parseRevision (mwIfMatch i) = Inr n
        \<and> (\<exists>rep. reply = Revised rep \<and> write_effect ws ck (mwAuthorization i) (mwIdentityToken i) t
             (\<lambda>c. sql_ReplaceTokenMetadata (svChainID (wsServer ws)) t c (metadata_value ws ck i t n)) st rep st'))
    \<or> (\<exists>i t n ty. r = PutImage i \<and> parse_address (svLib (wsServer ws)) (iwToken i) = Inr t \<and> parseRevision (iwIfMatch i) = Inr n
        \<and> detectImage (iwRawBody i) = Inr ty
        \<and> (\<exists>rep. reply = Revised rep \<and> write_effect ws ck (iwAuthorization i) (iwIdentityToken i) t
             (\<lambda>c. sql_ReplaceTokenImage (svChainID (wsServer ws)) t c (image_value ws ck i ty n)) st rep st'))"
proof (cases r)
  case (PutMetadata i)
  obtain rep where "replaceMetadata ws ck i st = (rep, st')" "reply = Revised rep"
    using assms PutMetadata by (cases "replaceMetadata ws ck i st") (auto simp: handle_def)
  then show ?thesis using replaceMetadata_effect[of ws ck i st rep st'] PutMetadata by (auto simp: is_ok_iff)
next
  case (PutImage i)
  obtain rep where "replaceImage ws ck i st = (rep, st')" "reply = Revised rep"
    using assms PutImage by (cases "replaceImage ws ck i st") (auto simp: handle_def)
  then show ?thesis using replaceImage_effect[of ws ck i st rep st'] PutImage by (auto simp: is_ok_iff)
next
  case (ReadMetadata a)
  obtain o1 st1 where x: "getMetadata ws a st = (o1, st1)" by (cases "getMetadata ws a st")
  have "st' = st1" "reply = Metadata_read o1" using assms ReadMetadata x by (simp_all add: handle_def)
  then show ?thesis using reads_keep_tables(1)[OF x] by simp
next
  case (ReadImage a e)
  show ?thesis
  proof (cases "getImage ws a e st")
    case None
    then show ?thesis using assms ReadImage by (auto simp: handle_def)
  next
    case (Some x)
    obtain o1 st1 where x: "x = (o1, st1)" by (cases x)
    have "st' = st1" "reply = Image_read (Some o1)" using assms ReadImage Some x by (simp_all add: handle_def)
    then show ?thesis using reads_keep_tables(2)[of ws a e st o1 st1] Some x by simp
  qed
qed

lemma handle_versions:
  fixes token :: Address
  assumes "handle ws ck r st = (reply, st')"
  defines "mv \<equiv> \<lambda>s. metadata_version (svChainID (wsServer ws)) token (tables s)"
    and "iv \<equiv> \<lambda>s. image_version (svChainID (wsServer ws)) token (tables s)"
  shows "mv st \<le> mv st' \<and> iv st \<le> iv st'
    \<and> (\<forall>a \<in> set (accepted_metadata (svLib (wsServer ws)) token [(r, reply)]). fst a = mv st \<and> snd a = fst a + 1 \<and> mv st' = snd a)
    \<and> (\<forall>a \<in> set (accepted_images (svLib (wsServer ws)) token [(r, reply)]). fst a = iv st \<and> snd a = fst a + 1 \<and> iv st' = snd a)"
proof -
  from handle_keeps_or_writes[OF assms(1)] consider
    (keep) "tables st' = tables st" "\<forall>out. reply \<noteq> Revised (Inr out)"
  | (meta) i t n rep where "r = PutMetadata i" "parse_address (svLib (wsServer ws)) (mwToken i) = Inr t" "parseRevision (mwIfMatch i) = Inr n"
      "reply = Revised rep" "write_effect ws ck (mwAuthorization i) (mwIdentityToken i) t
         (\<lambda>c. sql_ReplaceTokenMetadata (svChainID (wsServer ws)) t c (metadata_value ws ck i t n)) st rep st'"
  | (img) i t n ty rep where "r = PutImage i" "parse_address (svLib (wsServer ws)) (iwToken i) = Inr t" "parseRevision (iwIfMatch i) = Inr n"
      "reply = Revised rep" "write_effect ws ck (iwAuthorization i) (iwIdentityToken i) t
         (\<lambda>c. sql_ReplaceTokenImage (svChainID (wsServer ws)) t c (image_value ws ck i ty n)) st rep st'"
    by blast
  then show ?thesis
  proof cases
    case keep
    then show ?thesis
      by (auto simp: mv_def iv_def accepted_metadata_def accepted_images_def named_revision_def
          split: metadata_request.splits sum.splits metadata_reply.splits)
  next
    case meta
    have v: "image_version (svChainID (wsServer ws)) token (tables st') = image_version (svChainID (wsServer ws)) token (tables st)"
        "metadata_version (svChainID (wsServer ws)) token (tables st') = (if t = token then n + 1 else metadata_version (svChainID (wsServer ws)) token (tables st))"
        "metadata_version (svChainID (wsServer ws)) t (tables st) = n" "m = n + 1"
      if "sql_ReplaceTokenMetadata (svChainID (wsServer ws)) t c (metadata_value ws ck i t n) (tables st) = Inr (m, tables st')" for c m
      using metadata_statement_versions[OF that] by (simp_all add: metadata_value_def)
    consider "tables st' = tables st" "\<not> is_ok rep"
      | c m where "sql_ReplaceTokenMetadata (svChainID (wsServer ws)) t c (metadata_value ws ck i t n) (tables st) = Inr (m, tables st')"
          "\<forall>out. rep = Inr out \<longrightarrow> roRevision out = m"
      using meta(5) unfolding write_effect_def by blast
    then show ?thesis
    proof cases
      case 1
      then show ?thesis using meta(1-4)
        by (auto simp: mv_def iv_def accepted_metadata_def accepted_images_def named_revision_def is_ok_def split: sum.splits)
    next
      case 2
      note w = v[OF 2(1)]
      show ?thesis using meta(1-4) 2(2) w
        by (cases rep; cases "t = token") (simp_all add: mv_def iv_def accepted_metadata_def accepted_images_def named_revision_def)
    qed
  next
    case img
    have v: "metadata_version (svChainID (wsServer ws)) token (tables st') = metadata_version (svChainID (wsServer ws)) token (tables st)"
        "image_version (svChainID (wsServer ws)) token (tables st') = (if t = token then n + 1 else image_version (svChainID (wsServer ws)) token (tables st))"
        "image_version (svChainID (wsServer ws)) t (tables st) = n" "m = n + 1"
      if "sql_ReplaceTokenImage (svChainID (wsServer ws)) t c (image_value ws ck i ty n) (tables st) = Inr (m, tables st')" for c m
      using image_statement_versions[OF that] by (simp_all add: image_value_def)
    consider "tables st' = tables st" "\<not> is_ok rep"
      | c m where "sql_ReplaceTokenImage (svChainID (wsServer ws)) t c (image_value ws ck i ty n) (tables st) = Inr (m, tables st')"
          "\<forall>out. rep = Inr out \<longrightarrow> roRevision out = m"
      using img(5) unfolding write_effect_def by blast
    then show ?thesis
    proof cases
      case 1
      then show ?thesis using img(1-4)
        by (auto simp: mv_def iv_def accepted_metadata_def accepted_images_def named_revision_def is_ok_def split: sum.splits)
    next
      case 2
      note w = v[OF 2(1)]
      show ?thesis using img(1-4) 2(2) w
        by (cases rep; cases "t = token") (simp_all add: mv_def iv_def accepted_metadata_def accepted_images_def named_revision_def)
    qed
  qed
qed

lemma accepted_Cons:
  "accepted_metadata lib token (x # log) = accepted_metadata lib token [x] @ accepted_metadata lib token log"
  "accepted_images lib token (x # log) = accepted_images lib token [x] @ accepted_images lib token log"
  by (simp_all add: accepted_metadata_def accepted_images_def)

lemma accepted_single: "length (accepted_metadata lib token [x]) \<le> 1" "length (accepted_images lib token [x]) \<le> 1"
  by (auto simp: accepted_metadata_def accepted_images_def named_revision_def split: prod.splits metadata_request.splits sum.splits metadata_reply.splits)

lemma serve_versions:
  fixes token :: Address
  assumes "serve ws rs st = (log, st')"
  defines "mv \<equiv> \<lambda>s. metadata_version (svChainID (wsServer ws)) token (tables s)"
    and "iv \<equiv> \<lambda>s. image_version (svChainID (wsServer ws)) token (tables s)"
    and "ams \<equiv> accepted_metadata (svLib (wsServer ws)) token log" and "ais \<equiv> accepted_images (svLib (wsServer ws)) token log"
  shows "mv st \<le> mv st' \<and> iv st \<le> iv st'
    \<and> (\<forall>a \<in> set ams. mv st \<le> fst a \<and> snd a = fst a + 1) \<and> sorted_wrt (\<lambda>a b. snd a \<le> fst b) ams
    \<and> (\<forall>a \<in> set ais. iv st \<le> fst a \<and> snd a = fst a + 1) \<and> sorted_wrt (\<lambda>a b. snd a \<le> fst b) ais"
  using assms(1) unfolding ams_def ais_def
proof (induction rs arbitrary: st log)
  case Nil
  then show ?case by (simp add: accepted_metadata_def accepted_images_def mv_def iv_def)
next
  case (Cons x rs)
  obtain ck r where x: "x = (ck, r)" by (cases x)
  obtain reply st1 where h: "handle ws ck r st = (reply, st1)" by (cases "handle ws ck r st")
  obtain log1 where s: "serve ws rs st1 = (log1, st')" "log = (r, reply) # log1"
    using Cons.prems x h by (auto split: prod.splits)
  have one: "mv st \<le> mv st1 \<and> iv st \<le> iv st1
    \<and> (\<forall>a \<in> set (accepted_metadata (svLib (wsServer ws)) token [(r, reply)]). fst a = mv st \<and> snd a = fst a + 1 \<and> mv st1 = snd a)
    \<and> (\<forall>a \<in> set (accepted_images (svLib (wsServer ws)) token [(r, reply)]). fst a = iv st \<and> snd a = fst a + 1 \<and> iv st1 = snd a)"
    unfolding mv_def iv_def by (rule handle_versions[OF h])
  note rest = Cons.IH[OF s(1)]
  have sorted: "sorted_wrt (\<lambda>a b. snd a \<le> fst b) (xs @ ys)"
    if "length xs \<le> 1" "\<forall>a \<in> set xs. (v :: int) = snd a" "\<forall>b \<in> set ys. v \<le> fst b" "sorted_wrt (\<lambda>a b. snd a \<le> fst b) ys"
    for xs ys :: "(int \<times> int) list" and v
    using that by (cases xs) auto
  show ?case unfolding s(2) accepted_Cons[of _ _ "(r, reply)" log1] set_append
  proof (intro conjI)
    show "mv st \<le> mv st'" "iv st \<le> iv st'" using one rest by linarith+
    show "\<forall>a\<in>set (accepted_metadata (svLib (wsServer ws)) token [(r, reply)]) \<union> set (accepted_metadata (svLib (wsServer ws)) token log1).
        mv st \<le> fst a \<and> snd a = fst a + 1"
      using one rest by fastforce
    show "\<forall>a\<in>set (accepted_images (svLib (wsServer ws)) token [(r, reply)]) \<union> set (accepted_images (svLib (wsServer ws)) token log1).
        iv st \<le> fst a \<and> snd a = fst a + 1"
      using one rest by fastforce
    show "sorted_wrt (\<lambda>a b. snd a \<le> fst b) (accepted_metadata (svLib (wsServer ws)) token [(r, reply)] @ accepted_metadata (svLib (wsServer ws)) token log1)"
      using one rest by (intro sorted[where v = "mv st1"] accepted_single) auto
    show "sorted_wrt (\<lambda>a b. snd a \<le> fst b) (accepted_images (svLib (wsServer ws)) token [(r, reply)] @ accepted_images (svLib (wsServer ws)) token log1)"
      using one rest by (intro sorted[where v = "iv st1"] accepted_single) auto
  qed
qed

section \<open>What is served after a write\<close>

lemma revision_visible: "no_space (revisionETag n)"
proof -
  have "list_all visible (nat_digits k)" for k using nat_digits_decimal[of k] by (auto simp: list_all_iff is_decimal_def visible_def)
  then show ?thesis by (simp add: no_space_def revisionETag_def FormatInt_def) (simp add: visible_def)
qed

lemma unquote_revisionETag: "unquote (revisionETag n) = FormatInt n"
  by (simp add: unquote_def revisionETag_def)

text \<open>A returned entity tag names its revision when it is sent back.\<close>

lemma parseRevision_ETag: "0 \<le> n \<Longrightarrow> n < 2 ^ 63 \<Longrightarrow> parseRevision (revisionETag n) = Inr n"
  by (simp add: parseRevision_def TrimSpace_visible[OF revision_visible] unquote_revisionETag)

lemma parseRevision_bounds: "parseRevision s = Inr n \<Longrightarrow> 0 \<le> n \<and> n < 2 ^ 63"
  by (auto simp: parseRevision_def ParseInt_def split: option.splits if_splits)

lemma hex_bytes_plain: "c \<in> set (hex_bytes s) \<Longrightarrow> visible c \<and> c \<noteq> CHR '',''"
proof -
  have h: "visible (hex_char n) \<and> hex_char n \<noteq> CHR '',''" if "n < 16" for n
  proof -
    have "hex_char n \<in> set ''0123456789abcdef''" unfolding hex_char_def using that by (intro nth_mem) simp
    then show ?thesis by (auto simp: visible_def)
  qed
  assume "c \<in> set (hex_bytes s)"
  then show ?thesis using h by (auto simp: hex_bytes_def less_mult_imp_div_less)
qed

lemma image_etag_matches: "matchesETag (image_etag sha) (image_etag sha)"
proof -
  have "CHR '','' \<notin> set (image_etag sha)" "no_space (image_etag sha)"
    using hex_bytes_plain[of _ sha] by (auto simp: image_etag_def no_space_def list_all_iff visible_def)
  then show ?thesis by (simp add: matchesETag_def split_word TrimSpace_visible)
qed

lemma GetMetadata_calm:
  assumes "\<not> envFails env (wTick w)" "metadata_at chainID token (world.wDb w) = Some r"
  shows "GetMetadata env chainID token w = (Inr \<lparr>meDescription = text_value (mdDescription r), meImageURL = text_value (mdImageURL r),
     meXURL = text_value (mdXURL r), meTelegramURL = text_value (mdTelegramURL r), meRevision = mdRevision r, meUpdatedAt = mdUpdatedAt r\<rparr>, tick w)"
  using assms
  by (auto simp: GetMetadata_def iobind_def on_error_def statement_def sql_GetTokenMetadata_def metadata_at_def ret_def tick_def
      split: option.splits Option.bind_splits)

lemma GetImage_calm:
  assumes "\<not> envFails env (wTick w)" "image_at chainID token (world.wDb w) = Some r"
  shows "GetImage env chainID token w = (Inr \<lparr>igContentType = imContentType r, igContent = imContent r, igSHA256 = imSHA256 r,
     igRevision = imRevision r, igUpdatedAt = imUpdatedAt r\<rparr>, tick w)"
  using assms
  by (auto simp: GetImage_def iobind_def on_error_def statement_def sql_GetTokenImage_def image_at_def ret_def tick_def
      split: option.splits Option.bind_splits)

lemma text_column_value [simp]: "text_value (text_column s) = s"
  by (simp add: text_column_def text_value_def)

lemma metadata_statement_row:
  "sql_ReplaceTokenMetadata chainID token c v d = Inr (n, d') \<Longrightarrow> metadata_at chainID token d' = Some (metadata_row_of v n)"
  by (auto simp: sql_ReplaceTokenMetadata_Inr metadata_at_def AList.update_conv')

lemma image_statement_row:
  "sql_ReplaceTokenImage chainID token c v d = Inr (n, d') \<Longrightarrow> image_at chainID token d' = Some (image_row_of v n)"
  by (auto simp: sql_ReplaceTokenImage_Inr image_at_def AList.update_conv')

section \<open>Who can write\<close>

fun write_headers :: "metadata_request \<Rightarrow> (string \<times> string \<times> string) option" where
  "write_headers (PutMetadata i) = Some (mwToken i, mwAuthorization i, mwIdentityToken i)"
| "write_headers (PutImage i) = Some (iwToken i, iwAuthorization i, iwIdentityToken i)"
| "write_headers _ = None"

lemma creator_request_vouched:
  assumes "creator_request ws ck authorization identity token d"
  shows "\<exists>v access ac ic l. wsVerifier ws = Some v \<and> ParseBearer authorization = Inr access
    \<and> vouched (wsAuth ws) v (ckAccess ck) access ac \<and> vouched (wsAuth ws) v (ckIdentity ck) identity ic
    \<and> map_of ac ''sub'' = map_of ic ''sub'' \<and> launch_of (svChainID (wsServer ws)) token d = Some l
    \<and> lists_wallet (svLib (wsServer ws)) ic (tlCreator (snd l))"
  using assms Verify_listed unfolding creator_request_def by blast

lemma change_authorized:
  assumes "handle ws ck r st = (reply, st')" "tables st' \<noteq> tables st"
  shows "\<exists>address authorization identity token l. write_headers r = Some (address, authorization, identity)
    \<and> parse_address (svLib (wsServer ws)) address = Inr token \<and> launch_of (svChainID (wsServer ws)) token (tables st) = Some l
    \<and> creator_request ws ck authorization identity token (tables st) \<and> same_but_row (key_of_launch l) (tables st) (tables st')"
  using handle_keeps_or_writes[OF assms(1)] assms(2) replaced_row unfolding write_effect_def by fastforce

section \<open>A deployment to evaluate\<close>

definition demo_launched :: ledger_event where
  "demo_launched = \<lparr>leCoordinates = \<lparr>ecChainID = 1, ecBlockNumber = 3, ecBlockHash = 5, ecBlockTime = 100, ecTransactionIndex = 0,
       ecTxHash = 8, ecLogIndex = 2\<rparr>,
     lePayload = LTokenLaunch \<lparr>tlToken = 0xB2, tlCurve = 1, tlCreator = 0xA1, tlLPPair = 2, tlWETH = 3, tlProtocolTreasury = 4,
       tlEngineVersion = 1, tlName = ''N'', tlSymbol = ''S'', tlTotalSupply = Some 1, tlVirtualETH = Some 1, tlVirtualToken = Some 1,
       tlCurveTokens = Some 1, tlLPTokens = Some 1, tlGraduationETH = Some 1, tlLaunchFeePaid = Some 0, tlTradeFeeBPS = 0,
       tlProtocolShareBPS = 0\<rparr>\<rparr>"

definition demo_tables :: rdb where
  "demo_tables = \<lparr>dbBlocks = [], dbSync = [], dbEvents = [demo_launched], dbTokens = [], dbDirty = [], dbDirtySeq = 0, dbReorgs = [],
     dbReorgSeq = 0, dbMarket = \<lparr>rtReserves = [], rtHolders = [], rtCandles = [], rtStats = [], rtMetadata = [], rtImages = [],
       rtProtocol = [], rtDaily = []\<rparr>\<rparr>"

definition demo_market_sql :: "read_tables market_sql" where
  "demo_market_sql = \<lparr>sqlTradeReserve = (\<lambda>_ d. dbMarket d), sqlPoolSyncReserve = (\<lambda>_ d. dbMarket d), sqlMarketTradeCandles = (\<lambda>_ d. dbMarket d),
     sqlTransfer = (\<lambda>_ _ _ _ _ _ d. (True, dbMarket d)), sqlRebuild = (\<lambda>_ _ d. dbMarket d), sqlClearOrphan = (\<lambda>_ _ d. dbMarket d),
     sqlDeleteTokenStats = (\<lambda>_ _ d. dbMarket d), sqlRecomputeTokenStats = (\<lambda>_ _ d. dbMarket d), sqlClearProtocolDaily = (\<lambda>_ d. dbMarket d),
     sqlRecomputeProtocolDaily = (\<lambda>_ d. dbMarket d), sqlRecomputeProtocolStats = (\<lambda>_ d. dbMarket d)\<rparr>"

definition demo_calm :: "read_tables db_env" where
  "demo_calm = \<lparr>envFails = (\<lambda>_. False), envCtxDone = (\<lambda>_. False), envCommit = (\<lambda>_. Committed), envConnClosed = (\<lambda>_. False),
     envNow = (\<lambda>_. 0), envMarket = demo_market_sql\<rparr>"

definition demo_read_env :: read_env where
  "demo_read_env = \<lparr>rePool = True, reBegin = None, reFails = (\<lambda>_. None), reContext = None, reQuo = (div),
     reNumeric = (\<lambda>n. \<lparr>nuInt = Some n, nuExp = 0, nuNaN = False, nuInfinityModifier = Finite, nuValid = True\<rparr>)\<rparr>"

definition demo_ws :: write_server where
  "demo_ws = \<lparr>wsServer = \<lparr>svLib = demo_addresses, svEnv = demo_read_env, svChainID = 1, svDeploymentID = ''demo'', svRequestID = ''r''\<rparr>,
     wsAuth = demo_auth, wsVerifier = Some demo_verifier, wsStore = True,
     wsDb = demo_calm, wsParseURL = (\<lambda>_. None), wsTelegramFirst = False\<rparr>"

definition demo_clock :: clock where
  "demo_clock = \<lparr>ckAccess = 150, ckIdentity = 150, ckLimiter = 0, ckUpdated = 7\<rparr>"

definition demo_put :: "string \<Rightarrow> metadataWriteInput" where
  "demo_put ifMatch = \<lparr>mwToken = ''0xb2'', mwAuthorization = demo_bearer, mwIdentityToken = demo_token demo_identity,
     mwIfMatch = ifMatch, mwBody = \<lparr>mbDescription = ''hello'', mbXURL = [], mbTelegramURL = []\<rparr>\<rparr>"

definition demo_jpeg :: string where
  "demo_jpeg = [CHR 0xFF, CHR 0xD8, CHR 0xFF, CHR 0xE0]"

definition demo_put_image :: imageWriteInput where
  "demo_put_image = \<lparr>iwToken = ''0xb2'', iwAuthorization = demo_bearer, iwIdentityToken = demo_token demo_identity, iwIfMatch = ''0'',
     iwContentType = ''image/jpeg'', iwRawBody = demo_jpeg\<rparr>"

definition demo_st :: write_state where
  "demo_st = \<lparr>stWorld = \<lparr>wDb = demo_tables, wTick = 0, wOwnerDead = None\<rparr>, stLimiter = NewSubjectLimiter 30 60000000000, stHints = []\<rparr>"

lemma demo_authenticated:
  "authenticate demo_ws demo_clock demo_bearer (demo_token demo_identity) (NewSubjectLimiter 30 60000000000)
     = (Inr \<lparr>prPrivyDID = ''did:privy:1'', prWallets = [0xA1]\<rparr>,
        \<lparr>slEntries = [(''did:privy:1'', \<lparr>swStart = 0, swCount = 1\<rparr>)], slMaximum = 30, slWindow = 60000000000\<rparr>)"
  by (simp add: authenticate_def demo_ws_def demo_clock_def demo_bearer_parsed demo_verified Allow_def Let_def NewSubjectLimiter_def
      entry_of_def maxSubjectLimiterEntries_def)

definition demo_limiter :: "int \<Rightarrow> SubjectLimiter" where
  "demo_limiter n = \<lparr>slEntries = [(''did:privy:1'', \<lparr>swStart = 0, swCount = n\<rparr>)], slMaximum = 30, slWindow = 60000000000\<rparr>"

definition demo_row :: metadata_row where
  "demo_row = \<lparr>mdDescription = Some ''hello'', mdImageURL = Some ''/v1/tokens/0xb2/image'', mdXURL = None, mdTelegramURL = None,
     mdRevision = 1, mdUpdatedAt = 7\<rparr>"

definition demo_written :: rdb where
  "demo_written = demo_tables\<lparr>dbMarket := (dbMarket demo_tables)\<lparr>rtMetadata := [((1, 0xB2, 8, 2), demo_row)]\<rparr>\<rparr>"

definition demo_st1 :: write_state where
  "demo_st1 = \<lparr>stWorld = \<lparr>wDb = demo_written, wTick = 5, wOwnerDead = None\<rparr>, stLimiter = demo_limiter 1,
     stHints = [json_text (token_hint demo_addresses 1 ''demo'' 0xB2)]\<rparr>"

lemma demo_zero: "parseRevision ''0'' = Inr 0"
  by code_simp

lemma demo_body_valid: "validateMetadata (\<lambda>_. None) False \<lparr>mbDescription = ''hello'', mbXURL = [], mbTelegramURL = []\<rparr> = Inr ()"
  by (simp add: validateMetadata_def validate_link_def ValidString_ascii)

lemma demo_launch_of: "launch_of 1 0xB2 demo_tables = Some (leCoordinates demo_launched, case lePayload demo_launched of LTokenLaunch l \<Rightarrow> l)"
  by (simp add: launch_of_def demo_tables_def demo_launched_def launch_event_def table_of_def event_token_def)

lemma demo_token_parsed: "parse_address demo_addresses ''0xb2'' = Inr 0xB2"
  by (simp add: parse_address_def demo_addresses_def)

lemma demo_hex: "rlAddressHex demo_addresses 0xB2 = ''0xb2''"
  by (simp add: demo_addresses_def)

lemma demo_first: "handle demo_ws demo_clock (PutMetadata (demo_put ''0'')) demo_st =
    (Revised (Inr \<lparr>roETag = revisionETag 1, roRevision = 1, roImageURL = ''/v1/tokens/0xb2/image''\<rparr>), demo_st1)"
proof -
  have env: "envFails demo_calm = (\<lambda>_. False)" "envCtxDone demo_calm = (\<lambda>_. False)" "envCommit demo_calm = (\<lambda>_. Committed)"
    by (simp_all add: demo_calm_def)
  have ws: "wsServer demo_ws = \<lparr>svLib = demo_addresses, svEnv = demo_read_env, svChainID = 1, svDeploymentID = ''demo'', svRequestID = ''r''\<rparr>"
      "wsDb demo_ws = demo_calm" "wsParseURL demo_ws = (\<lambda>_. None)" "wsTelegramFirst demo_ws = False"
    by (simp_all add: demo_ws_def)
  let ?v = "\<lparr>meDescription = ''hello'', meImageURL = ''/v1/tokens/0xb2/image'', meXURL = [], meTelegramURL = [], meRevision = 0, meUpdatedAt = 7\<rparr>"
  have creator: "tlCreator (case lePayload demo_launched of LTokenLaunch l \<Rightarrow> l) = 0xA1" by (simp add: demo_launched_def)
  have a: "authorizedCreator demo_calm 1 0xB2 [0xA1] w = (Inr 0xA1, tick w)" if "world.wDb w = demo_tables" for w
    using that by (cases w) (simp add: authorizedCreator_def iobind_def on_error_def statement_def env sql_GetTokenCreatorForUpdate_def demo_launch_of creator ret_def tick_def)
  have sql: "sql_ReplaceTokenMetadata 1 0xB2 0xA1 ?v demo_tables = Inr (1, demo_written)"
    by (simp add: sql_ReplaceTokenMetadata_def demo_launch_of creator replace_row_def)
       (simp add: demo_launched_def demo_written_def demo_tables_def demo_row_def metadata_row_of_def text_column_def key_of_launch_def)
  have r: "ReplaceTokenMetadata demo_calm 1 0xB2 0xA1 ?v w = (Inr 1, (tick w)\<lparr>wDb := demo_written\<rparr>)" if "world.wDb w = demo_tables" for w
    using that by (simp add: ReplaceTokenMetadata_def on_error_def statement_def env sql)
  have op: "ReplaceMetadata demo_addresses demo_calm ''demo'' 1 0xB2 [0xA1] ?v \<lparr>wDb = demo_tables, wTick = 0, wOwnerDead = None\<rparr>
    = (Inr (1, [json_text (token_hint demo_addresses 1 ''demo'' 0xB2)]), \<lparr>wDb = demo_written, wTick = 5, wOwnerDead = None\<rparr>)"
    by (simp add: ReplaceMetadata_def iobind_def WithinTx_def a r env notifyToken_def ret_def tick_def)
  have ck: "ckUpdated demo_clock = 7" by (simp add: demo_clock_def)
  have url: "image_url demo_ws 0xB2 = ''/v1/tokens/0xb2/image''" by (simp add: image_url_def ws demo_hex)
  show ?thesis
    by (simp add: handle_def replaceMetadata_def demo_put_def ws demo_token_parsed demo_st_def demo_authenticated demo_zero demo_body_valid
        store_write_def url ck op demo_st1_def demo_limiter_def)
qed

lemma demo_changes: "tables demo_st1 \<noteq> tables demo_st"
  by (simp add: demo_st1_def demo_st_def demo_written_def demo_tables_def)

section \<open>Accepted writes\<close>

lemma store_write_Inr:
  "store_write ws token op st = (Inr out, st') \<Longrightarrow> roImageURL out = image_url ws token"
  by (auto simp: store_write_def split: prod.splits sum.splits)

lemma accepted_store:
  "replaceMetadata ws ck i st = (Inr out, st') \<Longrightarrow>
     wsStore ws \<and> (\<forall>t. parse_address (svLib (wsServer ws)) (mwToken i) = Inr t \<longrightarrow> roImageURL out = image_url ws t)"
  "replaceImage ws ck j st = (Inr out, st') \<Longrightarrow>
     wsStore ws \<and> (\<forall>t. parse_address (svLib (wsServer ws)) (iwToken j) = Inr t \<longrightarrow> roImageURL out = image_url ws t)"
  by (auto simp: replaceMetadata_def replaceImage_def split: sum.splits prod.splits dest!: store_write_Inr authenticate_Inr)

lemma accepted_metadata_row:
  assumes "replaceMetadata ws ck i st = (Inr out, st')"
  shows "\<exists>t n. parse_address (svLib (wsServer ws)) (mwToken i) = Inr t \<and> wsStore ws \<and> 0 \<le> n \<and> n < 2 ^ 63
    \<and> out = \<lparr>roETag = revisionETag n, roRevision = n, roImageURL = image_url ws t\<rparr>
    \<and> metadata_at (svChainID (wsServer ws)) t (tables st') = Some (metadata_row_of (metadata_value ws ck i t (n - 1)) n)"
proof -
  obtain t m where t: "parse_address (svLib (wsServer ws)) (mwToken i) = Inr t" "parseRevision (mwIfMatch i) = Inr m"
      "write_effect ws ck (mwAuthorization i) (mwIdentityToken i) t
         (\<lambda>c. sql_ReplaceTokenMetadata (svChainID (wsServer ws)) t c (metadata_value ws ck i t m)) st (Inr out) st'"
    using replaceMetadata_effect[OF assms] by auto
  obtain c n where q: "sql_ReplaceTokenMetadata (svChainID (wsServer ws)) t c (metadata_value ws ck i t m) (tables st) = Inr (n, tables st')"
      "roRevision out = n" "roETag out = revisionETag n"
    using t(3) by (auto simp: write_effect_def)
  have "n = m + 1" "m \<noteq> 2 ^ 63 - 1" using q(1) by (auto simp: sql_ReplaceTokenMetadata_Inr metadata_value_def)
  then show ?thesis using t(1) accepted_store(1)[OF assms] q(2,3) metadata_statement_row[OF q(1)] parseRevision_bounds[OF t(2)]
    by (intro exI[of _ t] exI[of _ n]) auto
qed

lemma accepted_image_row:
  assumes "replaceImage ws ck i st = (Inr out, st')"
  shows "\<exists>t n ty. parse_address (svLib (wsServer ws)) (iwToken i) = Inr t \<and> wsStore ws \<and> 0 \<le> n \<and> n < 2 ^ 63
    \<and> detectImage (iwRawBody i) = Inr ty
    \<and> out = \<lparr>roETag = revisionETag n, roRevision = n, roImageURL = image_url ws t\<rparr>
    \<and> image_at (svChainID (wsServer ws)) t (tables st') = Some (image_row_of (image_value ws ck i ty (n - 1)) n)"
proof -
  obtain t m ty where t: "parse_address (svLib (wsServer ws)) (iwToken i) = Inr t" "parseRevision (iwIfMatch i) = Inr m"
      "detectImage (iwRawBody i) = Inr ty"
      "write_effect ws ck (iwAuthorization i) (iwIdentityToken i) t
         (\<lambda>c. sql_ReplaceTokenImage (svChainID (wsServer ws)) t c (image_value ws ck i ty m)) st (Inr out) st'"
    using replaceImage_effect[OF assms] by auto
  obtain c n where q: "sql_ReplaceTokenImage (svChainID (wsServer ws)) t c (image_value ws ck i ty m) (tables st) = Inr (n, tables st')"
      "roRevision out = n" "roETag out = revisionETag n"
    using t(4) by (auto simp: write_effect_def)
  have "n = m + 1" "m \<noteq> 2 ^ 63 - 1" using q(1) by (auto simp: sql_ReplaceTokenImage_Inr image_value_def)
  then show ?thesis using t(1,3) accepted_store(2)[OF assms] q(2,3) image_statement_row[OF q(1)] parseRevision_bounds[OF t(2)]
    by (intro exI[of _ t] exI[of _ n] exI[of _ ty]) auto
qed

section \<open>Properties\<close>

text \<open>
  C5: a request changes the tables only when it is a write whose bearer token and identity token are
  both vouched for by the verifier and have the same subject, and whose identity token lists a linked
  wallet that is the creator of the token's canonical launch; then nothing changes but the metadata
  and image row of that launch.
\<close>

theorem metadata_authorized:
  assumes "handle ws ck r st = (reply, st')" "tables st' \<noteq> tables st"
  shows "\<exists>address authorization identity token l v access ac ic.
    write_headers r = Some (address, authorization, identity)
    \<and> parse_address (svLib (wsServer ws)) address = Inr token
    \<and> launch_of (svChainID (wsServer ws)) token (tables st) = Some l
    \<and> wsVerifier ws = Some v \<and> ParseBearer authorization = Inr access
    \<and> vouched (wsAuth ws) v (ckAccess ck) access ac \<and> vouched (wsAuth ws) v (ckIdentity ck) identity ic
    \<and> map_of ac ''sub'' = map_of ic ''sub''
    \<and> lists_wallet (svLib (wsServer ws)) ic (tlCreator (snd l))
    \<and> same_but_row (key_of_launch l) (tables st) (tables st')"
proof -
  obtain address authorization identity token l where c: "write_headers r = Some (address, authorization, identity)"
      "parse_address (svLib (wsServer ws)) address = Inr token" "launch_of (svChainID (wsServer ws)) token (tables st) = Some l"
      "creator_request ws ck authorization identity token (tables st)" "same_but_row (key_of_launch l) (tables st) (tables st')"
    using change_authorized[OF assms] by blast
  obtain v access ac ic l' where v: "wsVerifier ws = Some v" "ParseBearer authorization = Inr access"
      "vouched (wsAuth ws) v (ckAccess ck) access ac" "vouched (wsAuth ws) v (ckIdentity ck) identity ic"
      "map_of ac ''sub'' = map_of ic ''sub''" "launch_of (svChainID (wsServer ws)) token (tables st) = Some l'"
      "lists_wallet (svLib (wsServer ws)) ic (tlCreator (snd l'))"
    using creator_request_vouched[OF c(4)] by blast
  have "l' = l" using v(6) c(3) by simp
  then show ?thesis using c v by blast
qed

theorem metadata_authorized_witness:
  "handle demo_ws demo_clock (PutMetadata (demo_put ''0'')) demo_st
     = (Revised (Inr \<lparr>roETag = revisionETag 1, roRevision = 1, roImageURL = ''/v1/tokens/0xb2/image''\<rparr>), demo_st1)
   \<and> tables demo_st1 \<noteq> tables demo_st
   \<and> (\<exists>l. launch_of 1 0xB2 demo_tables = Some l \<and> same_but_row (key_of_launch l) demo_tables demo_written)"
proof -
  obtain address authorization identity token l where c: "write_headers (PutMetadata (demo_put ''0'')) = Some (address, authorization, identity)"
      "parse_address (svLib (wsServer demo_ws)) address = Inr token"
      "launch_of (svChainID (wsServer demo_ws)) token (tables demo_st) = Some l" "same_but_row (key_of_launch l) (tables demo_st) (tables demo_st1)"
    using metadata_authorized[OF demo_first demo_changes] by blast
  have "token = 0xB2" using c(1,2) demo_token_parsed by (simp add: demo_put_def demo_ws_def)
  then show ?thesis using c(3,4) demo_first demo_changes by (simp add: demo_ws_def demo_st_def demo_st1_def)
qed

text \<open>
  C4: whatever requests arrive in whatever order, the accepted writes of a token's metadata form a
  chain: each named a revision no older than the one an earlier accepted write returned, and returned
  the next one. So of the clients that saw the same revision at most one is accepted, and an accepted
  write never replaces one that its client had not seen. The same holds for the image.
\<close>

theorem no_lost_update:
  assumes "serve ws rs st = (log, st')"
  shows "sorted_wrt (\<lambda>a b. snd a \<le> fst b) (accepted_metadata (svLib (wsServer ws)) token log)
    \<and> (\<forall>a \<in> set (accepted_metadata (svLib (wsServer ws)) token log).
         metadata_version (svChainID (wsServer ws)) token (tables st) \<le> fst a \<and> snd a = fst a + 1)
    \<and> sorted_wrt (\<lambda>a b. snd a \<le> fst b) (accepted_images (svLib (wsServer ws)) token log)
    \<and> (\<forall>a \<in> set (accepted_images (svLib (wsServer ws)) token log).
         image_version (svChainID (wsServer ws)) token (tables st) \<le> fst a \<and> snd a = fst a + 1)"
  using serve_versions[OF assms, of token] by blast

text \<open>Two clients write at revision 0: only the first is accepted.\<close>

theorem no_lost_update_witness:
  "accepted_metadata demo_addresses 0xB2
     (fst (serve demo_ws [(demo_clock, PutMetadata (demo_put ''0'')), (demo_clock, PutMetadata (demo_put ''0''))] demo_st)) = [(0, 1)]"
proof -
  obtain reply st2 where h: "handle demo_ws demo_clock (PutMetadata (demo_put ''0'')) demo_st1 = (reply, st2)" by fastforce
  let ?log = "[(PutMetadata (demo_put ''0''), Revised (Inr \<lparr>roETag = revisionETag 1, roRevision = 1, roImageURL = ''/v1/tokens/0xb2/image''\<rparr>)),
      (PutMetadata (demo_put ''0''), reply)]"
  have s: "serve demo_ws [(demo_clock, PutMetadata (demo_put ''0'')), (demo_clock, PutMetadata (demo_put ''0''))] demo_st = (?log, st2)"
    by (simp add: demo_first h)
  have lib: "svLib (wsServer demo_ws) = demo_addresses" by (simp add: demo_ws_def)
  have a: "accepted_metadata demo_addresses 0xB2 ?log = (0, 1) # named_revision demo_addresses 0xB2 ''0xb2'' ''0'' reply"
    by (simp add: accepted_metadata_def named_revision_def demo_put_def demo_token_parsed demo_zero)
  have "fst x = 0" if "x \<in> set (named_revision demo_addresses 0xB2 ''0xb2'' ''0'' reply)" for x
    using that by (auto simp: named_revision_def demo_token_parsed demo_zero split: metadata_reply.splits sum.splits)
  then have "named_revision demo_addresses 0xB2 ''0xb2'' ''0'' reply = []"
    using no_lost_update[OF s, of "0xB2"] unfolding lib a by (cases "named_revision demo_addresses 0xB2 ''0xb2'' ''0'' reply") fastforce+
  then show ?thesis using s a by simp
qed

text \<open>
  C17: after an accepted write, and as long as no other write intervenes and the database answers, a
  read returns what was written under the entity tag of the returned revision, and that tag sent back
  in If-Match names that revision. For an image the content is served byte for byte with the detected
  type, and a request that already has its tag is answered 304 with no body.
\<close>

theorem written_is_served:
  assumes "handle ws ck r st = (Revised (Inr out), st1)" "\<not> envFails (wsDb ws) (wTick (stWorld st1))"
  shows "parseRevision (roETag out) = Inr (roRevision out) \<and>
    (case r of
       PutMetadata i \<Rightarrow> fst (handle ws ck' (ReadMetadata (mwToken i)) st1) = Metadata_read (Inr
         \<lparr>mrETag = roETag out, mrDescription = mbDescription (mwBody i), mrImageURL = roImageURL out, mrXURL = mbXURL (mwBody i),
          mrTelegramURL = mbTelegramURL (mwBody i), mrRevision = roRevision out\<rparr>)
     | PutImage i \<Rightarrow> (\<exists>ty. detectImage (iwRawBody i) = Inr ty \<and>
         (let tag = image_etag (alSha256 (wsAuth ws) (iwRawBody i)) in
          (\<forall>ifNoneMatch. \<not> matchesETag ifNoneMatch tag \<longrightarrow> fst (handle ws ck' (ReadImage (iwToken i) ifNoneMatch) st1) = Image_read (Some (Inr
            \<lparr>ioStatus = 200, ioContentType = ty, ioContentLength = int (length (iwRawBody i)), ioETag = tag, ioRevision = roRevision out,
             ioNoSniff = ''nosniff'', ioBody = iwRawBody i\<rparr>)))
          \<and> fst (handle ws ck' (ReadImage (iwToken i) tag) st1) = Image_read (Some (Inr
            \<lparr>ioStatus = 304, ioContentType = [], ioContentLength = 0, ioETag = tag, ioRevision = roRevision out,
             ioNoSniff = ''nosniff'', ioBody = []\<rparr>))))
     | _ \<Rightarrow> False)"
proof (cases r)
  case (PutMetadata i)
  have w: "replaceMetadata ws ck i st = (Inr out, st1)" using assms(1) PutMetadata
    by (cases "replaceMetadata ws ck i st") (simp add: handle_def)
  from accepted_metadata_row[OF w] obtain t n where a: "parse_address (svLib (wsServer ws)) (mwToken i) = Inr t" "wsStore ws" "0 \<le> n" "n < 2 ^ 63"
      "out = \<lparr>roETag = revisionETag n, roRevision = n, roImageURL = image_url ws t\<rparr>"
      "metadata_at (svChainID (wsServer ws)) t (tables st1) = Some (metadata_row_of (metadata_value ws ck i t (n - 1)) n)"
    by blast
  then show ?thesis using PutMetadata parseRevision_ETag[OF a(3,4)] GetMetadata_calm[OF assms(2) a(6)]
    by (simp add: handle_def getMetadata_def metadata_row_of_def metadata_value_def)
next
  case (PutImage i)
  have w: "replaceImage ws ck i st = (Inr out, st1)" using assms(1) PutImage
    by (cases "replaceImage ws ck i st") (simp add: handle_def)
  from accepted_image_row[OF w] obtain t n ty where a: "parse_address (svLib (wsServer ws)) (iwToken i) = Inr t" "wsStore ws" "0 \<le> n" "n < 2 ^ 63"
      "detectImage (iwRawBody i) = Inr ty" "out = \<lparr>roETag = revisionETag n, roRevision = n, roImageURL = image_url ws t\<rparr>"
      "image_at (svChainID (wsServer ws)) t (tables st1) = Some (image_row_of (image_value ws ck i ty (n - 1)) n)"
    by blast
  then show ?thesis using PutImage parseRevision_ETag[OF a(3,4)] GetImage_calm[OF assms(2) a(7)]
    by (simp add: handle_def getImage_def image_row_of_def image_value_def Let_def image_etag_matches)
next
  case (ReadMetadata a)
  then show ?thesis using assms(1) by (cases "getMetadata ws a st") (simp add: handle_def)
next
  case (ReadImage a e)
  then show ?thesis using assms(1) by (cases "getImage ws a e st") (auto simp: handle_def)
qed

theorem written_is_served_witness:
  "handle demo_ws demo_clock (PutMetadata (demo_put ''0'')) demo_st
     = (Revised (Inr \<lparr>roETag = revisionETag 1, roRevision = 1, roImageURL = ''/v1/tokens/0xb2/image''\<rparr>), demo_st1)
   \<and> fst (handle demo_ws demo_clock (ReadMetadata ''0xb2'') demo_st1) = Metadata_read (Inr
       \<lparr>mrETag = revisionETag 1, mrDescription = ''hello'', mrImageURL = ''/v1/tokens/0xb2/image'', mrXURL = [], mrTelegramURL = [],
        mrRevision = 1\<rparr>)"
proof -
  have "\<not> envFails (wsDb demo_ws) (wTick (stWorld demo_st1))" by (simp add: demo_ws_def demo_calm_def)
  from written_is_served[OF demo_first this, of demo_clock] show ?thesis using demo_first by (simp add: demo_put_def)
qed

end
