(* ===== verification/Write_Limiter.thy ===== *)
theory Write_Limiter
  imports Metadata_Routes
begin

text \<open>
  What the fixed windows of the write limiter of \<^verbatim>\<open>apiserver/metadata_routes.go\<close> allow: over any span as
  long as a window a subject gets at most two windows' worth of writes, and the table of subjects is
  bounded.
\<close>

section \<open>One call\<close>

definition limiter_ok :: "SubjectLimiter \<Rightarrow> bool" where
  "limiter_ok l \<longleftrightarrow> distinct (map fst (slEntries l)) \<and> length (slEntries l) \<le> maxSubjectLimiterEntries"

lemma map_of_filter_key:
  "distinct (map fst xs) \<Longrightarrow> map_of (filter (\<lambda>e. P (snd e)) xs) k = (case map_of xs k of None \<Rightarrow> None | Some v \<Rightarrow> if P v then Some v else None)"
proof (induction xs)
  case (Cons x xs)
  then have "fst x = k \<Longrightarrow> map_of xs k = None" by (metis distinct.simps(2) list.simps(9) map_of_eq_None_iff set_map)
  then show ?case using Cons by (cases x) (auto split: option.splits)
qed simp

text \<open>What a call at a time does to the entry of a subject, as the caller and as another.\<close>

lemma Allow_settings: "Allow x now l = (b, l') \<Longrightarrow> slWindow l' = slWindow l \<and> slMaximum l' = slMaximum l"
  by (auto simp: Allow_def Let_def split: if_splits)

lemma Allow_other:
  assumes "Allow x now l = (b, l')" "distinct (map fst (slEntries l))" "s \<noteq> x"
  shows "map_of (slEntries l') s = map_of (slEntries l) s
    \<or> (\<exists>e. map_of (slEntries l) s = Some e \<and> now - swStart e \<ge> slWindow l \<and> map_of (slEntries l') s = None)"
  using assms map_of_filter_key[OF assms(2), of "\<lambda>e. now - swStart e < slWindow l" s]
  by (auto simp: Allow_def Let_def AList.update_conv' split: if_splits option.splits)

lemma Allow_self:
  assumes "Allow x now l = (b, l')" "distinct (map fst (slEntries l))" "\<And>e. map_of (slEntries l) x = Some e \<Longrightarrow> swStart e \<noteq> zero_nanos"
  shows "if b
    then map_of (slEntries l') x = Some \<lparr>swStart = now, swCount = 1\<rparr>
        \<and> (case map_of (slEntries l) x of None \<Rightarrow> True | Some e \<Rightarrow> now - swStart e \<ge> slWindow l)
      \<or> (\<exists>e. map_of (slEntries l) x = Some e \<and> now - swStart e < slWindow l \<and> swCount e < slMaximum l
            \<and> map_of (slEntries l') x = Some (e\<lparr>swCount := swCount e + 1\<rparr>))
    else map_of (slEntries l') x = map_of (slEntries l) x"
  using assms map_of_filter_key[OF assms(2), of "\<lambda>e. now - swStart e < slWindow l" x]
  by (auto simp: Allow_def Let_def entry_of_def AList.update_conv' split: if_splits option.splits)

lemma Allow_ok:
  assumes "Allow x now l = (b, l')" "limiter_ok l"
  shows "limiter_ok l'"
proof -
  have len: "length (AList.update k v xs) = length xs + (if k \<in> fst ` set xs then 0 else 1)" for k v and xs :: "(string \<times> subjectWindow) list"
    by (induction xs) auto
  define full where "full \<longleftrightarrow> map_of (slEntries l) x = None \<and> maxSubjectLimiterEntries \<le> length (slEntries l)"
  define kept where "kept = (if full then filter (\<lambda>e. now - swStart (snd e) < slWindow l) (slEntries l) else slEntries l)"
  have k: "distinct (map fst kept)" "length kept \<le> maxSubjectLimiterEntries"
    using assms(2) order_trans[OF length_filter_le, of "slEntries l"]
    by (auto simp: kept_def limiter_ok_def distinct_map_filter)
  have run: "slEntries l' = kept \<or> (\<exists>v. slEntries l' = AList.update x v kept) \<and> \<not> (full \<and> maxSubjectLimiterEntries \<le> length kept)"
    using assms(1) unfolding Allow_def Let_def full_def[symmetric] kept_def[symmetric] by (auto simp: full_def kept_def split: if_splits)
  have "x \<in> fst ` set kept" if "\<not> full" "maxSubjectLimiterEntries \<le> length kept"
    using that by (auto simp: full_def kept_def map_of_eq_None_iff)
  then show ?thesis using k run distinct_update[OF k(1)] by (auto simp: limiter_ok_def len not_le Suc_le_eq le_less)
qed

section \<open>Many calls\<close>

text \<open>The calls that were admitted, with their times.\<close>

fun admitted :: "(string \<times> int) list \<Rightarrow> SubjectLimiter \<Rightarrow> (string \<times> int) list \<times> SubjectLimiter" where
  "admitted [] l = ([], l)"
| "admitted ((x, now) # cs) l =
     (case Allow x now l of (b, l') \<Rightarrow> (case admitted cs l' of (as, l'') \<Rightarrow> ((if b then [(x, now)] else []) @ as, l'')))"

definition admitted_between :: "string \<Rightarrow> int \<Rightarrow> int \<Rightarrow> (string \<times> int) list \<Rightarrow> int" where
  "admitted_between s a b as = int (length (filter (\<lambda>c. fst c = s \<and> a \<le> snd c \<and> snd c < b) as))"

text \<open>
  How many more calls of a subject can be admitted before the end of a span, from its entry and the time
  of the last call. A window that starts inside the span is its last one.
\<close>

definition budget :: "int \<Rightarrow> int \<Rightarrow> int \<Rightarrow> int \<Rightarrow> subjectWindow option \<Rightarrow> int" where
  "budget m w t now e =
     (if now < t then 2 * m
      else if t + w \<le> now then 0
      else case e of
        None \<Rightarrow> m
      | Some v \<Rightarrow> if t \<le> swStart v then m - swCount v else 2 * m - swCount v)"

definition entry_ok :: "int \<Rightarrow> int \<Rightarrow> subjectWindow option \<Rightarrow> bool" where
  "entry_ok m now e \<longleftrightarrow> (case e of None \<Rightarrow> True | Some v \<Rightarrow> 1 \<le> swCount v \<and> swCount v \<le> m \<and> zero_nanos < swStart v \<and> swStart v \<le> now)"

lemma Allow_budget:
  assumes run: "Allow x now l = (b, l')" "distinct (map fst (slEntries l))"
    and e: "entry_ok m before (map_of (slEntries l) s)" and m: "m = max 1 (slMaximum l)" and w: "0 < slWindow l"
    and now: "before \<le> now" "zero_nanos < now"
  shows "entry_ok m now (map_of (slEntries l') s)
    \<and> (if b \<and> x = s \<and> t \<le> now \<and> now < t + slWindow l then 1 else 0) + budget m (slWindow l) t now (map_of (slEntries l') s)
      \<le> budget m (slWindow l) t before (map_of (slEntries l) s)"
proof -
  have "\<And>v. x = s \<Longrightarrow> map_of (slEntries l) x = Some v \<Longrightarrow> swStart v \<noteq> zero_nanos" using e by (auto simp: entry_ok_def)
  then show ?thesis
    using Allow_other[OF run, of s] Allow_self[OF run] e m w now
    by (cases "x = s"; cases b; cases "map_of (slEntries l) s") (auto simp: entry_ok_def budget_def split: if_splits)
qed

lemma admitted_budget:
  assumes "admitted cs l = (as, l')" "limiter_ok l" "m = max 1 (slMaximum l)" "0 < slWindow l"
    "entry_ok m before (map_of (slEntries l) s)" "sorted (before # map snd cs)" "\<forall>c \<in> set cs. zero_nanos < snd c"
  shows "limiter_ok l' \<and> admitted_between s t (t + slWindow l) as \<le> budget m (slWindow l) t before (map_of (slEntries l) s)"
  using assms
proof (induction cs arbitrary: l as before)
  case Nil
  then show ?case by (auto simp: admitted_between_def budget_def entry_ok_def split: option.splits)
next
  case (Cons c cs)
  obtain x now where c: "c = (x, now)" by (cases c)
  obtain b l1 where a: "Allow x now l = (b, l1)" by (cases "Allow x now l")
  obtain more where r: "admitted cs l1 = (more, l')" "as = (if b then [(x, now)] else []) @ more"
    using Cons.prems(1) c a by (auto split: prod.splits)
  have d: "distinct (map fst (slEntries l))" using Cons.prems(2) by (simp add: limiter_ok_def)
  have one': "entry_ok m now (map_of (slEntries l1) s)"
      "(if b \<and> x = s \<and> t \<le> now \<and> now < t + slWindow l then 1 else 0) + budget m (slWindow l) t now (map_of (slEntries l1) s)
        \<le> budget m (slWindow l) t before (map_of (slEntries l) s)"
    using Allow_budget[OF a d Cons.prems(5,3,4)] Cons.prems(6,7) c by auto
  have w: "slWindow l1 = slWindow l" "slMaximum l1 = slMaximum l" using Allow_settings[OF a] by auto
  have ih: "limiter_ok l' \<and> admitted_between s t (t + slWindow l1) more \<le> budget m (slWindow l1) t now (map_of (slEntries l1) s)"
    using Cons.IH[OF r(1) Allow_ok[OF a Cons.prems(2)] _ _ one'(1)] Cons.prems(3,4,6,7) c w by simp
  have "admitted_between s t (t + slWindow l) as =
      (if b \<and> x = s \<and> t \<le> now \<and> now < t + slWindow l then 1 else 0) + admitted_between s t (t + slWindow l) more"
    unfolding r(2) by (auto simp: admitted_between_def)
  then show ?case using ih one' w by simp
qed

text \<open>
  C28: Over any run of calls at non-decreasing times, a new limiter admits of each subject at most twice
  its maximum (or two calls, for a maximum below one) within any span as long as its window, and keeps
  at most ten thousand subjects, each once: thirty a minute as configured means at most sixty in any
  sixty seconds.
\<close>

theorem limiter_bounds:
  assumes "admitted cs (NewSubjectLimiter maximum window) = (as, l')" "0 < window"
    "sorted (map snd cs)" "\<forall>c \<in> set cs. zero_nanos < snd c"
  shows "admitted_between s t (t + window) as \<le> 2 * max 1 maximum
    \<and> length (slEntries l') \<le> maxSubjectLimiterEntries \<and> distinct (map fst (slEntries l'))"
proof -
  let ?l = "NewSubjectLimiter maximum window"
  have l: "limiter_ok ?l" "entry_ok (max 1 maximum) zero_nanos (map_of (slEntries ?l) s)"
    by (simp_all add: NewSubjectLimiter_def limiter_ok_def entry_ok_def)
  have "sorted (zero_nanos # map snd cs)" using assms(3,4) by force
  from admitted_budget[OF assms(1) l(1) refl _ _ this assms(4), of s t]
  have "limiter_ok l'" "admitted_between s t (t + window) as \<le> budget (max 1 maximum) window t zero_nanos (map_of (slEntries ?l) s)"
    using l assms(2) by (auto simp: NewSubjectLimiter_def)
  moreover have "budget (max 1 maximum) window t zero_nanos (map_of (slEntries ?l) s) \<le> 2 * max 1 maximum"
    by (auto simp: budget_def NewSubjectLimiter_def)
  ultimately show ?thesis by (auto simp: limiter_ok_def)
qed

theorem limiter_bounds_witness:
  "snd (admitted [(''a'', 5), (''a'', 14), (''a'', 15), (''a'', 16)] (NewSubjectLimiter 1 10)) =
     \<lparr>slEntries = [(''a'', \<lparr>swStart = 15, swCount = 1\<rparr>)], slMaximum = 1, slWindow = 10\<rparr>
   \<and> admitted_between ''a'' 5 15 (fst (admitted [(''a'', 5), (''a'', 14), (''a'', 15), (''a'', 16)] (NewSubjectLimiter 1 10))) \<le> 2"
proof -
  have z: "zero_nanos < 0" by (simp add: zero_nanos_def zero_time_def)
  have r: "admitted [(''a'', 5), (''a'', 14), (''a'', 15), (''a'', 16)] (NewSubjectLimiter 1 10) =
      ([(''a'', 5), (''a'', 15)], \<lparr>slEntries = [(''a'', \<lparr>swStart = 15, swCount = 1\<rparr>)], slMaximum = 1, slWindow = 10\<rparr>)"
    by code_simp
  show ?thesis using limiter_bounds[OF r, of "''a''" 5] z r by (simp add: zero_nanos_def zero_time_def)
qed

end
