(* ===== verification/Account_Reads.thy ===== *)
theory Account_Reads
  imports Privy_Auth Quote_Routes Indexer_Invariant "HOL-Library.Multiset"
begin

text \<open>
  Two reads outside the listings: what an authenticated account can claim (\<^verbatim>\<open>apiserver/profile_routes.go\<close>,
  \<^verbatim>\<open>store/postgres/profile.go\<close>, \<^verbatim>\<open>sqlc/profile.sql.go\<close>) and what the canonical ledger holds of a
  transaction (\<^verbatim>\<open>apiserver/observation_routes.go\<close>, \<^verbatim>\<open>store/postgres/observation.go\<close>,
  \<^verbatim>\<open>sqlc/observation.sql.go\<close>). Both run in one read snapshot. The theorems relate them to the ledger:
  whose claims are shown, what remains after they are paid, and that an observation has every event of
  its transaction with the finality of the indexer's watermarks.
\<close>

section \<open>Profile\<close>

record Action =
  acToken :: Address
  acCurve :: Address
  acName :: string
  acSymbol :: string
  acPhase :: string
  acCreatorFees :: int
  acRefund :: int

record profile_row =
  pfToken :: Address
  pfCurve :: Address
  pfName :: string
  pfSymbol :: string
  pfPhase :: string
  pfCreatorFeeAmount :: int
  pfRefundAmount :: int

definition refund_open :: "int \<Rightarrow> Address \<Rightarrow> Address list \<Rightarrow> rdb \<Rightarrow> int" where
  "refund_open chainID token wallets d = max 0
     (event_sum (\<lambda>p. case p of LRefundCredit t a amount \<Rightarrow> if t = token \<and> a \<in> set wallets then the amount else 0 | _ \<Rightarrow> 0) chainID d
      - event_sum (\<lambda>p. case p of LRefundClaim t a amount \<Rightarrow> if t = token \<and> a \<in> set wallets then the amount else 0 | _ \<Rightarrow> 0) chainID d)"

definition profile_action :: "int \<Rightarrow> Address list \<Rightarrow> rdb \<Rightarrow> token_row \<Rightarrow> profile_row" where
  "profile_action chainID wallets d r = (let l = trLaunched r in
     \<lparr>pfToken = tlToken l, pfCurve = tlCurve l, pfName = tlName l, pfSymbol = tlSymbol l, pfPhase = token_phase r,
      pfCreatorFeeAmount = (if tlCreator l \<in> set wallets then creator_fee_open chainID (tlToken l) d else 0),
      pfRefundAmount = refund_open chainID (tlToken l) wallets d\<rparr>)"

text \<open>
  The selected rows in the order of the token address. The two amounts are cast to 78 digits, and a
  larger sum makes the statement fail.
\<close>

definition sql_ListProfileActions :: "int \<Rightarrow> Address list \<Rightarrow> rdb \<Rightarrow> profile_row list" where
  "sql_ListProfileActions chainID wallets d = sort_key pfToken
     (filter (\<lambda>a. 0 < pfCreatorFeeAmount a \<or> 0 < pfRefundAmount a)
       (map (profile_action chainID wallets d) (filter (\<lambda>r. trChainID r = chainID) (dbTokens d))))"

definition fits_numeric78 :: "profile_row \<Rightarrow> bool" where
  "fits_numeric78 a \<longleftrightarrow> pfCreatorFeeAmount a < 10 ^ 78 \<and> pfRefundAmount a < 10 ^ 78"

definition profileNumeric :: "Numeric \<Rightarrow> string + int" where
  "profileNumeric v = numericBigExact v"

definition read_action :: "read_env \<Rightarrow> profile_row \<Rightarrow> read_error + Action" where
  "read_action env a =
     (case profileNumeric (reNumeric env (pfCreatorFeeAmount a)) of
        Inl _ \<Rightarrow> Inl (ReadFailure ''decode profile creator fees'')
      | Inr fees \<Rightarrow>
        (case profileNumeric (reNumeric env (pfRefundAmount a)) of
           Inl _ \<Rightarrow> Inl (ReadFailure ''decode profile refund'')
         | Inr back \<Rightarrow> Inr \<lparr>acToken = pfToken a, acCurve = pfCurve a, acName = pfName a, acSymbol = pfSymbol a, acPhase = pfPhase a,
             acCreatorFees = fees, acRefund = back\<rparr>))"

record profile_page =
  ppItems :: "Action list"
  ppSnapshot :: Snapshot
  ppFinality :: string

definition ProfileReader_List :: "read_env \<Rightarrow> string \<Rightarrow> int \<Rightarrow> Address list \<Rightarrow> rdb \<Rightarrow> read_error + profile_page" where
  "ProfileReader_List env deploymentID chainID wallets d =
     withReadSnapshotBeginner env chainID deploymentID d (\<lambda>s.
       rbind (run_query env ''ListProfileActions'' (sql_ListProfileActions chainID wallets d)) (\<lambda>rows.
       if \<not> list_all fits_numeric78 rows then Inl (ReadFailure ''query'')
       else rbind (rtraverse (read_action env) rows) (\<lambda>items.
       Inr \<lparr>ppItems = items, ppSnapshot = readIdentity s,
         ppFinality = finality (readState s) (snBlockNumber (readIdentity s))\<rparr>)))"

record profileInput =
  piAuthorization :: string
  piIdentityToken :: string

record profileActionDTO =
  xjToken :: string
  xjCurve :: string
  xjName :: string
  xjSymbol :: string
  xjPhase :: string
  xjCreatorFees :: string
  xjRefund :: string

record profileBody =
  xbSnapshot :: snapshotDTO
  xbItems :: "profileActionDTO list"

definition action_dto :: "read_library \<Rightarrow> Action \<Rightarrow> profileActionDTO" where
  "action_dto lib a = \<lparr>xjToken = rlAddressHex lib (acToken a), xjCurve = rlAddressHex lib (acCurve a), xjName = acName a,
     xjSymbol = acSymbol a, xjPhase = acPhase a, xjCreatorFees = decimal (Some (acCreatorFees a)), xjRefund = decimal (Some (acRefund a))\<rparr>"

text \<open>The two readings of the clock are those of the verifier, for the access and the identity token.\<close>

definition profile_route ::
    "server \<Rightarrow> auth_library \<Rightarrow> ES256Verifier option \<Rightarrow> bool \<Rightarrow> int \<Rightarrow> int \<Rightarrow> profileInput \<Rightarrow> rdb \<Rightarrow> api_error + profileBody" where
  "profile_route sv auth verifier reader accessNow identityNow i d =
     (case (reader, verifier) of
        (True, Some v) \<Rightarrow>
          (case ParseBearer (piAuthorization i) of
             Inl _ \<Rightarrow> Inl (apiProblem 401 ''authentication_failed'' ''Authentication failed'')
           | Inr access \<Rightarrow>
             (case Verify auth (svLib sv) v accessNow identityNow access (piIdentityToken i) of
                Inl _ \<Rightarrow> Inl (apiProblem 401 ''authentication_failed'' ''Authentication failed'')
              | Inr person \<Rightarrow>
                map_sum (mapReadError (svRequestID sv))
                  (\<lambda>p. \<lparr>xbSnapshot = snapDTO (svLib sv) (ppSnapshot p) (ppFinality p), xbItems = map (action_dto (svLib sv)) (ppItems p)\<rparr>)
                  (ProfileReader_List (svEnv sv) (svDeploymentID sv) (svChainID sv) (prWallets person) d)))
      | _ \<Rightarrow> Inl (HumaError 503 ''profile reader unavailable''))"

section \<open>Observations of a transaction\<close>

record canonical_row =
  crKind :: string
  crTxHash :: Hash
  crToken :: Address
  crPair :: "Address option"
  crBlockNumber :: int
  crBlockHash :: Hash
  crBlockTime :: int
  crTransactionIndex :: int
  crLogIndex :: int
  crFinality :: string

text \<open>The five branches of the union: the kind, the token and the pair of a row. A swap has the zero address for its token.\<close>

definition observed_kind :: "ledger_payload \<Rightarrow> (string \<times> Address \<times> Address option) option" where
  "observed_kind p = (case p of
       LTokenLaunch l \<Rightarrow> Some (''token_launch'', tlToken l, None)
     | LTrade t _ _ _ _ _ _ _ _ _ \<Rightarrow> Some (''trade'', t, None)
     | LCreatorFeeClaim t _ _ \<Rightarrow> Some (''creator_fee_claim'', t, None)
     | LRefundClaim t _ _ \<Rightarrow> Some (''refund_claim'', t, None)
     | LPoolSwap pair _ _ _ _ _ _ \<Rightarrow> Some (''router_swap'', 0, Some pair)
     | _ \<Rightarrow> None)"

definition block_of_event :: "EventCoordinates \<Rightarrow> IndexedBlock \<Rightarrow> bool" where
  "block_of_event c b \<longleftrightarrow> ibChainID b = ecChainID c \<and> ibBlockNumber b = ecBlockNumber c \<and> ibBlockHash b = ecBlockHash c
     \<and> ibBlockTime b = ecBlockTime c"

definition canonical_row_of :: "ledger_event \<Rightarrow> string \<Rightarrow> canonical_row" where
  "canonical_row_of e status = (let c = leCoordinates e in
     case observed_kind (lePayload e) of Some (kind, token, pair) \<Rightarrow>
     \<lparr>crKind = kind, crTxHash = ecTxHash c, crToken = token, crPair = pair, crBlockNumber = ecBlockNumber c, crBlockHash = ecBlockHash c,
      crBlockTime = ecBlockTime c, crTransactionIndex = ecTransactionIndex c, crLogIndex = ecLogIndex c, crFinality = status\<rparr>)"

definition branch_rows :: "int \<Rightarrow> Hash \<Rightarrow> 'm db \<Rightarrow> string \<Rightarrow> canonical_row list" where
  "branch_rows chainID txHash d kind = concat (map (\<lambda>e.
       if map_option fst (observed_kind (lePayload e)) = Some kind \<and> ecChainID (leCoordinates e) = chainID
          \<and> ecTxHash (leCoordinates e) = txHash
       then map (\<lambda>b. canonical_row_of e (ibFinalityStatus b)) (filter (block_of_event (leCoordinates e)) (dbBlocks d))
       else []) (dbEvents d))"

definition row_position :: "canonical_row \<Rightarrow> int \<times> int \<times> int" where
  "row_position r = (crBlockNumber r, crTransactionIndex r, crLogIndex r)"

definition sql_GetCanonicalTransaction :: "int \<Rightarrow> Hash \<Rightarrow> string \<Rightarrow> 'm db \<Rightarrow> canonical_row list" where
  "sql_GetCanonicalTransaction chainID txHash deploymentID d =
     (if list_ex (sync_key chainID deploymentID) (dbSync d)
      then sort_key row_position (concat (map (branch_rows chainID txHash d)
        [''token_launch'', ''trade'', ''creator_fee_claim'', ''refund_claim'', ''router_swap'']))
      else [])"

record observed_event =
  oeKind :: string
  oeTxHash :: Hash
  oeToken :: "Address option"
  oePair :: "Address option"
  oeBlockNumber :: int
  oeBlockHash :: Hash
  oeBlockTime :: string
  oeTransactionIndex :: int
  oeLogIndex :: int
  oeFinality :: string

record Observation =
  obChainID :: int
  obDeploymentID :: string
  obSnapshot :: Snapshot
  obFinality :: string
  obEvents :: "observed_event list"

definition ErrObservationNotFound :: read_error where
  "ErrObservationNotFound = ReadFailure ''canonical transaction observation not found''"

text \<open>Block times are printed with nine fractional digits; \<open>printNanos\<close> is that layout.\<close>

definition read_observed :: "(int \<Rightarrow> string) \<Rightarrow> canonical_row \<Rightarrow> observed_event" where
  "read_observed printNanos r = \<lparr>oeKind = crKind r, oeTxHash = crTxHash r, oeToken = (if crToken r \<noteq> 0 then Some (crToken r) else None),
     oePair = crPair r, oeBlockNumber = crBlockNumber r, oeBlockHash = crBlockHash r, oeBlockTime = printNanos (crBlockTime r),
     oeTransactionIndex = crTransactionIndex r, oeLogIndex = crLogIndex r, oeFinality = crFinality r\<rparr>"

definition ObservationReader_Get :: "(int \<Rightarrow> string) \<Rightarrow> read_env \<Rightarrow> int \<Rightarrow> string \<Rightarrow> Hash \<Rightarrow> rdb \<Rightarrow> read_error + Observation" where
  "ObservationReader_Get printNanos env chainID deploymentID txHash d =
     withReadSnapshotBeginner env chainID deploymentID d (\<lambda>s.
       rbind (run_query env ''GetCanonicalTransaction'' (sql_GetCanonicalTransaction chainID txHash deploymentID d)) (\<lambda>rows.
       if rows = [] then Inl ErrObservationNotFound
       else Inr \<lparr>obChainID = chainID, obDeploymentID = deploymentID, obSnapshot = readIdentity s, obFinality = crFinality (hd rows),
         obEvents = map (read_observed printNanos) rows\<rparr>))"

record canonicalEventDTO =
  ejKind :: string
  ejTxHash :: string
  ejToken :: "string option"
  ejPair :: "string option"
  ejBlockNumber :: int
  ejBlockHash :: string
  ejBlockTime :: string
  ejTransactionIndex :: int
  ejLogIndex :: int
  ejFinality :: string

record canonicalObservationBody =
  objChainID :: int
  objDeploymentID :: string
  objTxHash :: string
  objSnapshot :: snapshotDTO
  objFinality :: string
  objEvents :: "canonicalEventDTO list"

definition validTxHash :: "string \<Rightarrow> bool" where
  "validTxHash v \<longleftrightarrow> length v = 66 \<and> take 2 v = ''0x'' \<and> list_all (\<lambda>c. hex_value c \<noteq> None) (drop 2 v)"

definition event_dto :: "read_library \<Rightarrow> observed_event \<Rightarrow> canonicalEventDTO" where
  "event_dto lib e = \<lparr>ejKind = oeKind e, ejTxHash = rlHashHex lib (oeTxHash e), ejToken = map_option (rlAddressHex lib) (oeToken e),
     ejPair = map_option (rlAddressHex lib) (oePair e), ejBlockNumber = oeBlockNumber e, ejBlockHash = rlHashHex lib (oeBlockHash e),
     ejBlockTime = oeBlockTime e, ejTransactionIndex = oeTransactionIndex e, ejLogIndex = oeLogIndex e, ejFinality = oeFinality e\<rparr>"

definition observation_problem :: "string \<Rightarrow> read_error \<Rightarrow> api_error" where
  "observation_problem requestID e =
     (if (case e of SnapshotUnavailable _ \<Rightarrow> True | _ \<Rightarrow> False)
      then apiProblem 503 ''snapshot_unavailable'' ''Canonical read snapshot is not available yet''
      else if e = ErrObservationNotFound
      then apiProblem 404 ''transaction_not_indexed'' ''Transaction has no canonical indexed event at the current snapshot''
      else apiRequestProblem requestID 500 ''internal_error'' ''Request failed'')"

text \<open>\<open>hexToHash\<close> reads the validated digits as a hash.\<close>

definition observation_route ::
    "(int \<Rightarrow> string) \<Rightarrow> (string \<Rightarrow> Hash) \<Rightarrow> server \<Rightarrow> bool \<Rightarrow> string \<Rightarrow> rdb \<Rightarrow> api_error + canonicalObservationBody" where
  "observation_route printNanos hexToHash sv reader txHash d =
     (if \<not> reader then Inl (HumaError 503 ''canonical observation unavailable'')
      else if \<not> validTxHash txHash then Inl (apiProblem 400 ''invalid_transaction_hash'' ''Transaction hash must be a 32-byte hex value'')
      else let hash = hexToHash txHash in
        map_sum (observation_problem (svRequestID sv))
          (\<lambda>v. \<lparr>objChainID = obChainID v, objDeploymentID = obDeploymentID v, objTxHash = rlHashHex (svLib sv) hash,
             objSnapshot = snapDTO (svLib sv) (obSnapshot v) (obFinality v), objFinality = obFinality v,
             objEvents = map (event_dto (svLib sv)) (obEvents v)\<rparr>)
          (ObservationReader_Get printNanos (svEnv sv) (svChainID sv) (svDeploymentID sv) hash d))"

section \<open>Every event of a transaction\<close>

definition observed_events :: "int \<Rightarrow> Hash \<Rightarrow> 'm db \<Rightarrow> ledger_event list" where
  "observed_events chainID txHash d = filter (\<lambda>e. ecChainID (leCoordinates e) = chainID \<and> ecTxHash (leCoordinates e) = txHash
     \<and> observed_kind (lePayload e) \<noteq> None) (dbEvents d)"

lemma filter_eq_single: "distinct xs \<Longrightarrow> x \<in> set xs \<Longrightarrow> filter ((=) x) xs = [x]"
proof (induction xs)
  case (Cons a xs)
  then show ?case by (cases "x = a") (auto simp: filter_empty_conv)
qed simp

lemma anchored_block:
  assumes "engine_inv s d" "stored_sync s d = Some y" "e \<in> set (dbEvents d)" "ecChainID (leCoordinates e) = seChainID s"
  shows "map ibFinalityStatus (filter (block_of_event (leCoordinates e)) (dbBlocks d)) = [status_at y (ecBlockNumber (leCoordinates e))]"
proof -
  have inv: "blocks_unique d" "sync_inv s d y" "anchored (seChainID s) d e" using assms by (auto simp: engine_inv_def)
  obtain b where b: "row_at (seChainID s) d (ecBlockNumber (leCoordinates e)) = Some b"
      "ibBlockHash b = ecBlockHash (leCoordinates e)" "ibBlockTime b = ecBlockTime (leCoordinates e)"
    using inv(3) by (auto simp: anchored_def)
  have mem: "b \<in> set (dbBlocks d)" "ibChainID b = seChainID s" "ibBlockNumber b = ecBlockNumber (leCoordinates e)"
    using row_at_SomeD[OF b(1)] by auto
  have key: "b' = b" if "b' \<in> set (dbBlocks d)" "block_of_event (leCoordinates e) b'" for b'
  proof -
    have "inj_on (\<lambda>b. (ibChainID b, ibBlockNumber b)) (set (dbBlocks d))" using inv(1) by (simp add: blocks_unique_def distinct_map)
    then show ?thesis by (rule inj_onD) (use that mem assms(4) in \<open>simp_all add: block_of_event_def\<close>)
  qed
  have "filter (block_of_event (leCoordinates e)) (dbBlocks d) = filter ((=) b) (dbBlocks d)"
  proof (rule filter_cong)
    fix b' assume "b' \<in> set (dbBlocks d)"
    moreover have "block_of_event (leCoordinates e) b" using mem b assms(4) by (simp add: block_of_event_def)
    ultimately show "block_of_event (leCoordinates e) b' = (b = b')" using key by blast
  qed simp
  moreover have "distinct (dbBlocks d)" using inv(1) by (simp add: blocks_unique_def distinct_map)
  then have "filter ((=) b) (dbBlocks d) = [b]" using mem(1) by (rule filter_eq_single)
  ultimately show ?thesis using inv(2) b(1) by (simp add: sync_inv_def)
qed

lemma branch_rows_eq:
  assumes "engine_inv s d" "stored_sync s d = Some y" "chainID = seChainID s"
  shows "branch_rows chainID txHash d kind = map (\<lambda>e. canonical_row_of e (status_at y (ecBlockNumber (leCoordinates e))))
    (filter (\<lambda>e. map_option fst (observed_kind (lePayload e)) = Some kind) (observed_events chainID txHash d))"
proof -
  have "concat (map (\<lambda>e. if map_option fst (observed_kind (lePayload e)) = Some kind \<and> ecChainID (leCoordinates e) = chainID \<and> ecTxHash (leCoordinates e) = txHash
        then map (\<lambda>b. canonical_row_of e (ibFinalityStatus b)) (filter (block_of_event (leCoordinates e)) (dbBlocks d)) else []) es)
    = map (\<lambda>e. canonical_row_of e (status_at y (ecBlockNumber (leCoordinates e))))
      (filter (\<lambda>e. map_option fst (observed_kind (lePayload e)) = Some kind) (filter (\<lambda>e. ecChainID (leCoordinates e) = chainID
        \<and> ecTxHash (leCoordinates e) = txHash \<and> observed_kind (lePayload e) \<noteq> None) es))"
    if "set es \<subseteq> set (dbEvents d)" for es
    using that
  proof (induction es)
    case (Cons e es)
    have "map (\<lambda>b. canonical_row_of e (ibFinalityStatus b)) (filter (block_of_event (leCoordinates e)) (dbBlocks d))
          = [canonical_row_of e (status_at y (ecBlockNumber (leCoordinates e)))]" if "ecChainID (leCoordinates e) = chainID"
      using arg_cong[OF anchored_block[OF assms(1,2), of e], of "map (canonical_row_of e)"] that Cons.prems assms(3) by (simp add: comp_def)
    then show ?case using Cons.IH Cons.prems by auto
  qed simp
  then show ?thesis by (simp add: branch_rows_def observed_events_def)
qed

lemma observed_kind_names:
  "observed_kind p = Some k \<Longrightarrow> fst k \<in> {''token_launch'', ''trade'', ''creator_fee_claim'', ''refund_claim'', ''router_swap''}"
  by (auto simp: observed_kind_def split: ledger_payload.splits)

lemma mset_branches:
  assumes "distinct ks" "\<forall>x \<in> set xs. g x \<in> set ks"
  shows "mset (concat (map (\<lambda>k. filter (\<lambda>x. g x = k) xs) ks)) = mset xs"
  using assms
proof (induction ks arbitrary: xs)
  case Nil
  then show ?case by simp
next
  case (Cons k ks)
  have "filter (\<lambda>x. g x = k') xs = filter (\<lambda>x. g x = k') (filter (\<lambda>x. g x \<noteq> k) xs)" if "k' \<in> set ks" for k'
    using that Cons.prems(1) by (auto intro: filter_cong)
  then have "mset (concat (map (\<lambda>k'. filter (\<lambda>x. g x = k') xs) ks)) = mset (concat (map (\<lambda>k'. filter (\<lambda>x. g x = k') (filter (\<lambda>x. g x \<noteq> k) xs)) ks))"
    by (metis (no_types, lifting) map_eq_conv)
  also have "\<dots> = mset (filter (\<lambda>x. g x \<noteq> k) xs)" using Cons.prems by (intro Cons.IH) auto
  finally show ?case using multiset_partition[of "mset xs" "\<lambda>x. g x = k"] by simp
qed

lemma canonical_rows_mset:
  assumes "engine_inv s d" "stored_sync s d = Some y" "chainID = seChainID s" "deploymentID = seDeploymentID s"
  shows "mset (sql_GetCanonicalTransaction chainID txHash deploymentID d)
    = mset (map (\<lambda>e. canonical_row_of e (status_at y (ecBlockNumber (leCoordinates e)))) (observed_events chainID txHash d))"
proof -
  let ?kinds = "[''token_launch'', ''trade'', ''creator_fee_claim'', ''refund_claim'', ''router_swap'']"
  let ?f = "\<lambda>e. canonical_row_of e (status_at y (ecBlockNumber (leCoordinates e)))"
  let ?es = "observed_events chainID txHash d"
  let ?g = "\<lambda>e. map_option fst (observed_kind (lePayload e))"
  have sync: "list_ex (sync_key chainID deploymentID) (dbSync d)"
    using assms by (auto simp: stored_sync_def find_Some_iff list_ex_iff)
  have all: "mset (concat (map (\<lambda>k. filter (\<lambda>e. ?g e = k) ?es) (map Some ?kinds))) = mset ?es"
  proof (rule mset_branches)
    show "\<forall>e \<in> set ?es. ?g e \<in> set (map Some ?kinds)"
    proof
      fix e assume "e \<in> set ?es"
      then obtain k where "observed_kind (lePayload e) = Some k" by (auto simp: observed_events_def)
      then show "?g e \<in> set (map Some ?kinds)" using observed_kind_names by fastforce
    qed
  qed simp
  have rows: "concat (map (\<lambda>k. map ?f (filter (\<lambda>e. ?g e = Some k) ?es)) ?kinds)
      = map ?f (concat (map (\<lambda>k. filter (\<lambda>e. ?g e = k) ?es) (map Some ?kinds)))"
    unfolding map_concat map_map comp_def ..
  have "mset (concat (map (\<lambda>k. map ?f (filter (\<lambda>e. ?g e = Some k) ?es)) ?kinds)) = mset (map ?f ?es)"
    by (simp only: rows mset_map all)
  then show ?thesis unfolding sql_GetCanonicalTransaction_def branch_rows_eq[OF assms(1-3)] using sync by (simp only: if_True mset_sort)
qed

section \<open>What a profile shows\<close>

definition action_of :: "profile_row \<Rightarrow> Action" where
  "action_of a = \<lparr>acToken = pfToken a, acCurve = pfCurve a, acName = pfName a, acSymbol = pfSymbol a, acPhase = pfPhase a,
     acCreatorFees = pfCreatorFeeAmount a, acRefund = pfRefundAmount a\<rparr>"

lemma numericBigExact_stands: "numeric_stands_for v n \<Longrightarrow> numericBigExact v = Inr n"
  using numericBigWithExponent_exact[of v n True] by (auto simp: numericBigExact_def numeric_stands_for_def split: option.splits)

lemma read_actions:
  assumes "\<forall>n. numeric_stands_for (reNumeric env n) n"
  shows "rtraverse (read_action env) rows = Inr (map action_of rows)"
proof -
  have "read_action env a = Inr (action_of a)" for a
  proof -
    have "numericBigExact (reNumeric env n) = Inr n" for n using assms numericBigExact_stands by blast
    then show ?thesis by (simp add: read_action_def profileNumeric_def action_of_def)
  qed
  then show ?thesis by (induction rows) (simp_all del: rtraverse_Inr)
qed

lemma withReadSnapshot_Inr:
  "withReadSnapshotBeginner env chainID deploymentID d fn = Inr out \<Longrightarrow> \<exists>s. fn s = Inr out"
  by (auto simp: withReadSnapshotBeginner_def rbind_eq_Inr split: if_splits option.splits)

lemma ProfileReader_items:
  assumes "\<forall>n. numeric_stands_for (reNumeric env n) n" "ProfileReader_List env deploymentID chainID wallets d = Inr page"
  shows "ppItems page = map action_of (sql_ListProfileActions chainID wallets d)"
proof -
  from withReadSnapshot_Inr[OF assms(2)[unfolded ProfileReader_List_def]] show ?thesis
    by (auto simp: rbind_eq_Inr run_query_def read_actions[OF assms(1)] simp del: rtraverse_Inr split: option.splits if_splits)
qed

lemma event_sum_pos: "0 < event_sum f chainID d \<Longrightarrow> \<exists>e \<in> set (dbEvents d). ecChainID (leCoordinates e) = chainID \<and> 0 < f (lePayload e)"
proof (rule ccontr)
  assume "0 < event_sum f chainID d" and n: "\<not> (\<exists>e \<in> set (dbEvents d). ecChainID (leCoordinates e) = chainID \<and> 0 < f (lePayload e))"
  then have "event_sum f chainID d \<le> 0" unfolding event_sum_def by (intro sum_list_nonpos) (auto simp: not_less)
  then show False using \<open>0 < event_sum f chainID d\<close> by simp
qed

definition amounts_nonneg :: "'m db \<Rightarrow> bool" where
  "amounts_nonneg d \<longleftrightarrow> (\<forall>e \<in> set (dbEvents d). case lePayload e of
     LRefundClaim _ _ n \<Rightarrow> 0 \<le> the n | _ \<Rightarrow> True)"

lemma event_sum_nonneg:
  assumes "\<And>e. e \<in> set (dbEvents d) \<Longrightarrow> 0 \<le> f (lePayload e)"
  shows "0 \<le> event_sum f chainID d"
  unfolding event_sum_def using assms by (intro sum_list_nonneg) auto

text \<open>A refund is shown only where an account among the wallets was credited one.\<close>

lemma refund_credited:
  assumes "amounts_nonneg d" "refund_open chainID token wallets d \<noteq> 0"
  shows "\<exists>e \<in> set (dbEvents d). \<exists>a n. ecChainID (leCoordinates e) = chainID \<and> lePayload e = LRefundCredit token a n \<and> a \<in> set wallets"
proof -
  let ?credit = "\<lambda>p. case p of LRefundCredit t a amount \<Rightarrow> if t = token \<and> a \<in> set wallets then the amount else 0 | _ \<Rightarrow> 0"
  let ?claim = "\<lambda>p. case p of LRefundClaim t a amount \<Rightarrow> if t = token \<and> a \<in> set wallets then the amount else 0 | _ \<Rightarrow> 0"
  have "0 \<le> event_sum ?claim chainID d" using assms(1) by (intro event_sum_nonneg) (auto simp: amounts_nonneg_def split: ledger_payload.splits)
  then have "0 < event_sum ?credit chainID d" using assms(2) by (auto simp: refund_open_def max_def split: if_splits)
  then obtain e where "e \<in> set (dbEvents d)" "ecChainID (leCoordinates e) = chainID" "0 < ?credit (lePayload e)"
    using event_sum_pos by blast
  then show ?thesis by (intro bexI[of _ e]) (auto split: ledger_payload.splits if_splits)
qed

lemma sql_ListProfileActions_set:
  "a \<in> set (sql_ListProfileActions chainID wallets d) \<longleftrightarrow>
     (\<exists>r \<in> set (dbTokens d). trChainID r = chainID \<and> a = profile_action chainID wallets d r)
     \<and> (0 < pfCreatorFeeAmount a \<or> 0 < pfRefundAmount a)"
  by (auto simp: sql_ListProfileActions_def)

lemma profile_route_Inr:
  assumes "profile_route sv auth verifier reader accessNow identityNow i d = Inr body"
  shows "\<exists>v access p page. verifier = Some v \<and> ParseBearer (piAuthorization i) = Inr access
    \<and> Verify auth (svLib sv) v accessNow identityNow access (piIdentityToken i) = Inr p
    \<and> ProfileReader_List (svEnv sv) (svDeploymentID sv) (svChainID sv) (prWallets p) d = Inr page
    \<and> xbItems body = map (action_dto (svLib sv)) (ppItems page)"
  using assms by (auto simp: profile_route_def map_sum_result split: bool.splits option.splits sum.splits)

section \<open>What remains after a payment\<close>

text \<open>Claims of one token on one chain, by accounts among the wallets where they are refunds, with their totals.\<close>

definition pays :: "int \<Rightarrow> Address \<Rightarrow> Address list \<Rightarrow> int \<Rightarrow> int \<Rightarrow> ledger_event list \<Rightarrow> bool" where
  "pays chainID token wallets fees back ps \<longleftrightarrow>
     (\<forall>e \<in> set ps. ecChainID (leCoordinates e) = chainID \<and> (case lePayload e of
        LCreatorFeeClaim t _ _ \<Rightarrow> t = token | LRefundClaim t a _ \<Rightarrow> t = token \<and> a \<in> set wallets | _ \<Rightarrow> False))
     \<and> sum_list (map (\<lambda>e. case lePayload e of LCreatorFeeClaim _ _ n \<Rightarrow> the n | _ \<Rightarrow> 0) ps) = fees
     \<and> sum_list (map (\<lambda>e. case lePayload e of LRefundClaim _ _ n \<Rightarrow> the n | _ \<Rightarrow> 0) ps) = back"

lemma event_sum_append:
  "event_sum f chainID (d\<lparr>dbEvents := dbEvents d @ ps\<rparr>) = event_sum f chainID d
     + sum_list (map (\<lambda>e. f (lePayload e)) (filter (\<lambda>e. ecChainID (leCoordinates e) = chainID) ps))"
  by (simp add: event_sum_def)

lemma pays_filter: "pays chainID token wallets fees back ps \<Longrightarrow> filter (\<lambda>e. ecChainID (leCoordinates e) = chainID) ps = ps"
  by (simp add: pays_def filter_id_conv)

lemma pays_sums:
  assumes "pays chainID token wallets fees back ps"
  shows "sum_list (map (\<lambda>e. case lePayload e of LTrade t x b g n m pf fee ne nt \<Rightarrow> if t = t' then the fee else 0 | _ \<Rightarrow> 0) ps) = 0"
    "sum_list (map (\<lambda>e. case lePayload e of LCreatorFeeClaim t c n \<Rightarrow> if t = t' then the n else 0 | _ \<Rightarrow> 0) ps) = (if t' = token then fees else 0)"
    "sum_list (map (\<lambda>e. case lePayload e of LRefundCredit t a n \<Rightarrow> if t = t' \<and> a \<in> set wallets then the n else 0 | _ \<Rightarrow> 0) ps) = 0"
    "sum_list (map (\<lambda>e. case lePayload e of LRefundClaim t a n \<Rightarrow> if t = t' \<and> a \<in> set wallets then the n else 0 | _ \<Rightarrow> 0) ps) = (if t' = token then back else 0)"
proof -
  have e: "(\<exists>c n. lePayload e = LCreatorFeeClaim token c n) \<or> (\<exists>a n. lePayload e = LRefundClaim token a n \<and> a \<in> set wallets)" if "e \<in> set ps" for e
  proof -
    have "case lePayload e of LCreatorFeeClaim t _ _ \<Rightarrow> t = token | LRefundClaim t a _ \<Rightarrow> t = token \<and> a \<in> set wallets | _ \<Rightarrow> False"
      using assms that by (simp add: pays_def)
    then show ?thesis by (cases "lePayload e") simp_all
  qed
  have same: "sum_list (map f ps) = (if t' = token then sum_list (map g ps) else 0)"
    if "\<And>e. e \<in> set ps \<Longrightarrow> f e = (if t' = token then g e else 0)" for f g :: "ledger_event \<Rightarrow> int"
    using that by (induction ps) auto
  have zero: "sum_list (map f ps) = 0" if "\<And>e. e \<in> set ps \<Longrightarrow> f e = 0" for f :: "ledger_event \<Rightarrow> int"
    using same[of f "\<lambda>_. 0"] that by simp
  show "sum_list (map (\<lambda>e. case lePayload e of LTrade t x b g n m pf fee ne nt \<Rightarrow> if t = t' then the fee else 0 | _ \<Rightarrow> 0) ps) = 0"
    by (rule zero) (use e in force)
  show "sum_list (map (\<lambda>e. case lePayload e of LRefundCredit t a n \<Rightarrow> if t = t' \<and> a \<in> set wallets then the n else 0 | _ \<Rightarrow> 0) ps) = 0"
    by (rule zero) (use e in force)
  have sums: "sum_list (map (\<lambda>e. case lePayload e of LCreatorFeeClaim _ _ n \<Rightarrow> the n | _ \<Rightarrow> 0) ps) = fees"
      "sum_list (map (\<lambda>e. case lePayload e of LRefundClaim _ _ n \<Rightarrow> the n | _ \<Rightarrow> 0) ps) = back"
    using assms by (simp_all add: pays_def)
  show "sum_list (map (\<lambda>e. case lePayload e of LCreatorFeeClaim t c n \<Rightarrow> if t = t' then the n else 0 | _ \<Rightarrow> 0) ps) = (if t' = token then fees else 0)"
    unfolding sums[symmetric] by (rule same) (use e in force)
  show "sum_list (map (\<lambda>e. case lePayload e of LRefundClaim t a n \<Rightarrow> if t = t' \<and> a \<in> set wallets then the n else 0 | _ \<Rightarrow> 0) ps) = (if t' = token then back else 0)"
    unfolding sums[symmetric] by (rule same) (use e in force)
qed

lemma open_after:
  fixes d :: rdb
  assumes "pays chainID token wallets fees back ps"
  defines "d' \<equiv> d\<lparr>dbEvents := dbEvents d @ ps\<rparr>"
  shows "fees = creator_fee_open chainID token d \<Longrightarrow> creator_fee_open chainID t d' = (if t = token then 0 else creator_fee_open chainID t d)"
    and "back = refund_open chainID token wallets d \<Longrightarrow> refund_open chainID t wallets d' = (if t = token then 0 else refund_open chainID t wallets d)"
    and "t \<noteq> token \<Longrightarrow> creator_fee_open chainID t d' = creator_fee_open chainID t d"
  unfolding d'_def
  by (simp_all add: creator_fee_open_def refund_open_def event_sum_append pays_filter[OF assms(1)] pays_sums[OF assms(1)])

lemma paid_action:
  assumes p: "pays chainID token wallets (pfCreatorFeeAmount a) (pfRefundAmount a) ps"
    and a: "a = profile_action chainID wallets d r0" "tlToken (trLaunched r0) = token" and r: "tlToken (trLaunched r) = token \<longrightarrow> r = r0"
  defines "d' \<equiv> d\<lparr>dbEvents := dbEvents d @ ps\<rparr>"
  shows "profile_action chainID wallets d' r = (if tlToken (trLaunched r) = token
      then (profile_action chainID wallets d r)\<lparr>pfCreatorFeeAmount := 0, pfRefundAmount := 0\<rparr> else profile_action chainID wallets d r)"
proof -
  have due: "pfRefundAmount a = refund_open chainID token wallets d" using a by (simp add: profile_action_def Let_def)
  have refund: "refund_open chainID t wallets d' = (if t = token then 0 else refund_open chainID t wallets d)" for t
    unfolding d'_def by (rule open_after(2)[OF p due])
  show ?thesis
  proof (cases "tlToken (trLaunched r) = token")
    case True
    have fees: "creator_fee_open chainID token d' = 0" if "tlCreator (trLaunched r0) \<in> set wallets"
    proof -
      have "pfCreatorFeeAmount a = creator_fee_open chainID token d" using a that by (simp add: profile_action_def Let_def)
      then show ?thesis unfolding d'_def using open_after(1)[OF p, of d token] by simp
    qed
    then show ?thesis using True r by (simp add: profile_action_def Let_def refund)
  next
    case False
    then show ?thesis using open_after(3)[OF p, of _ d] by (simp add: profile_action_def Let_def refund d'_def[symmetric])
  qed
qed

lemma paid_rows:
  assumes p: "pays chainID (pfToken a) wallets (pfCreatorFeeAmount a) (pfRefundAmount a) ps"
    and a: "a \<in> set (sql_ListProfileActions chainID wallets d)" and u: "distinct (map token_row_key (dbTokens d))"
  defines "d' \<equiv> d\<lparr>dbEvents := dbEvents d @ ps\<rparr>"
  shows "sql_ListProfileActions chainID wallets d' = filter (\<lambda>x. pfToken x \<noteq> pfToken a) (sql_ListProfileActions chainID wallets d)"
proof -
  let ?rows = "filter (\<lambda>r. trChainID r = chainID) (dbTokens d)"
  let ?due = "\<lambda>a. 0 < pfCreatorFeeAmount a \<or> 0 < pfRefundAmount a"
  obtain r0 where r0: "r0 \<in> set (dbTokens d)" "trChainID r0 = chainID" "a = profile_action chainID wallets d r0"
    using a by (auto simp: sql_ListProfileActions_set)
  have t0: "tlToken (trLaunched r0) = pfToken a" using r0 by (simp add: profile_action_def Let_def)
  have row: "profile_action chainID wallets d' r = (if tlToken (trLaunched r) = pfToken a
      then (profile_action chainID wallets d r)\<lparr>pfCreatorFeeAmount := 0, pfRefundAmount := 0\<rparr> else profile_action chainID wallets d r)"
    if "r \<in> set ?rows" for r
  proof -
    have "inj_on token_row_key (set (dbTokens d))" using u by (simp add: distinct_map)
    then have "tlToken (trLaunched r) = pfToken a \<longrightarrow> r = r0" using that r0(1,2) t0 by (auto simp: inj_on_def token_row_key_def)
    then show ?thesis unfolding d'_def by (rule paid_action[OF p r0(3) t0])
  qed
  have "filter ?due (map (profile_action chainID wallets d') rs) = filter (\<lambda>x. pfToken x \<noteq> pfToken a) (filter ?due (map (profile_action chainID wallets d) rs))"
    if "set rs \<subseteq> set ?rows" for rs
    using that
  proof (induction rs)
    case (Cons r rs)
    then show ?case using row[of r] by (auto simp: profile_action_def Let_def)
  qed simp
  then show ?thesis unfolding sql_ListProfileActions_def by (simp add: d'_def filter_sort)
qed

section \<open>A small ledger\<close>

definition account_at :: "int \<Rightarrow> Hash \<Rightarrow> int \<Rightarrow> EventCoordinates" where
  "account_at n hash log = \<lparr>ecChainID = 1, ecBlockNumber = n, ecBlockHash = (if n = 3 then 5 else 6), ecBlockTime = 100 + n,
     ecTransactionIndex = 0, ecTxHash = hash, ecLogIndex = log\<rparr>"

definition account_token :: token_row where
  "account_token = \<lparr>trChainID = 1, trLaunch = account_at 3 8 0,
     trLaunched = \<lparr>tlToken = 0xB2, tlCurve = 1, tlCreator = 0xA1, tlLPPair = 2, tlWETH = 3, tlProtocolTreasury = 4, tlEngineVersion = 1,
       tlName = ''N'', tlSymbol = ''S'', tlTotalSupply = Some 1, tlVirtualETH = Some 1, tlVirtualToken = Some 1, tlCurveTokens = Some 1,
       tlLPTokens = Some 1, tlGraduationETH = Some 1, tlLaunchFeePaid = Some 0, tlTradeFeeBPS = 0, tlProtocolShareBPS = 0\<rparr>,
     trGraduation = None\<rparr>"

definition account_block :: "int \<Rightarrow> IndexedBlock" where
  "account_block n = \<lparr>ibChainID = 1, ibBlockNumber = n, ibBlockHash = (if n = 3 then 5 else 6), ibParentHash = (if n = 3 then 4 else 5),
     ibBlockTime = 100 + n, ibFinalityStatus = (if n = 3 then ''finalized'' else ''observed'')\<rparr>"

definition account_tables :: rdb where
  "account_tables = \<lparr>dbBlocks = [account_block 3, account_block 4],
     dbSync = [\<lparr>syChainID = 1, syDeploymentID = ''demo'', syObserved = Some (4, 6, 104), sySafe = Some (3, 5, 103), syFinalized = Some (3, 5, 103)\<rparr>],
     dbEvents = [\<lparr>leCoordinates = account_at 3 9 1,
         lePayload = LTrade 0xB2 0xC3 True (Some 100) (Some 99) (Some 7) (Some 0) (Some 1) (Some 1) (Some 1)\<rparr>,
       \<lparr>leCoordinates = account_at 3 9 2, lePayload = LRefundCredit 0xB2 0xA1 (Some 2)\<rparr>],
     dbTokens = [account_token], dbDirty = [], dbDirtySeq = 0, dbReorgs = [], dbReorgSeq = 0,
     dbMarket = \<lparr>rtReserves = [], rtHolders = [], rtCandles = [], rtStats = [], rtMetadata = [], rtImages = [], rtProtocol = [], rtDaily = []\<rparr>\<rparr>"

definition account_env :: read_env where
  "account_env = \<lparr>rePool = True, reBegin = None, reFails = (\<lambda>_. None), reContext = None, reQuo = (div),
     reNumeric = (\<lambda>n. \<lparr>nuInt = Some n, nuExp = 0, nuNaN = False, nuInfinityModifier = Finite, nuValid = True\<rparr>)\<rparr>"

definition account_server :: server where
  "account_server = \<lparr>svLib = demo_addresses, svEnv = account_env, svChainID = 1, svDeploymentID = ''demo'', svRequestID = ''r''\<rparr>"

definition account_settings :: Settings where
  "account_settings = \<lparr>seChainID = 1, seDeploymentID = ''demo'', seFactory = 1, seStartBlock = 3, seChunkSize = 1, sePollInterval = 1,
     seReorgSearchDepth = 1, seReorgRecoveryMode = False\<rparr>"

definition account_snapshot :: ReadSnapshot where
  "account_snapshot = \<lparr>readIdentity = \<lparr>snChainID = 1, snBlockNumber = 4, snBlockHash = 6\<rparr>,
     readState = \<lparr>syChainID = 1, syDeploymentID = ''demo'', syObserved = Some (4, 6, 104), sySafe = Some (3, 5, 103), syFinalized = Some (3, 5, 103)\<rparr>\<rparr>"

lemma account_serves: "serves account_env 1 ''demo'' account_tables account_snapshot"
  by (simp add: serves_def account_env_def account_tables_def account_snapshot_def sql_GetSyncState_def sync_key_def observedIdentity_def)

lemma account_law: "\<forall>n. numeric_stands_for (reNumeric account_env n) n"
  by (simp add: account_env_def numeric_stands_for_def)

lemma account_rows: "row_at 1 account_tables n = (if n = 3 \<or> n = 4 then Some (account_block n) else None)"
  by (simp add: row_at_def account_tables_def block_at_def account_block_def)

lemma account_inv: "engine_inv account_settings account_tables"
proof -
  have sync: "stored_sync account_settings account_tables = Some (readState account_snapshot)"
    by (simp add: stored_sync_def account_settings_def account_tables_def account_snapshot_def sync_key_def)
  have dom: "dom (row_at 1 account_tables) = {3..4}" by (auto simp: account_rows split: if_splits)
  have canon: "canonical 3 4 (row_at 1 account_tables)"
    unfolding canonical_def dom by (auto simp: account_rows account_block_def split: if_splits)
  have "sync_inv account_settings account_tables (readState account_snapshot)"
    using canon by (simp add: sync_inv_def account_settings_def account_snapshot_def point_number_def point_ok_def hash_at_def account_rows
        point_not_ahead_def status_at_def account_block_def split: if_splits)
  moreover have "anchored 1 account_tables e" if "e \<in> set (dbEvents account_tables)" for e
  proof -
    have "ecBlockNumber (leCoordinates e) = 3" "ecBlockHash (leCoordinates e) = 5" "ecBlockTime (leCoordinates e) = 103"
      using that by (auto simp: account_tables_def account_at_def)
    then show ?thesis by (simp add: anchored_def account_rows account_block_def)
  qed
  moreover have "blocks_unique account_tables" "events_unique account_tables"
    by (simp_all add: blocks_unique_def events_unique_def account_tables_def event_key_def account_at_def account_block_def)
  ultimately show ?thesis using sync by (simp add: engine_inv_def account_settings_def)
qed

lemma account_page: "ProfileReader_List account_env ''demo'' 1 [0xA1] account_tables = Inr \<lparr>ppItems = [\<lparr>acToken = 0xB2, acCurve = 1,
      acName = ''N'', acSymbol = ''S'', acPhase = ''curve'', acCreatorFees = 1, acRefund = 2\<rparr>], ppSnapshot = readIdentity account_snapshot,
      ppFinality = finality (readState account_snapshot) 4\<rparr>"
proof -
  have "sql_ListProfileActions 1 [0xA1] account_tables = [\<lparr>pfToken = 0xB2, pfCurve = 1, pfName = ''N'', pfSymbol = ''S'', pfPhase = ''curve'',
      pfCreatorFeeAmount = 1, pfRefundAmount = 2\<rparr>]"
    by (simp add: sql_ListProfileActions_def account_tables_def account_token_def profile_action_def Let_def token_phase_def
        creator_fee_open_def refund_open_def event_sum_def account_at_def)
  then show ?thesis
    by (simp add: ProfileReader_List_def serves_read[OF account_serves] serves_query[OF account_serves] read_actions[OF account_law]
        fits_numeric78_def action_of_def account_snapshot_def del: rtraverse_Inr rtraverse.simps)
qed

section \<open>Properties\<close>



text \<open>
  C20: a profile is private. It is served only for a bearer token and an identity token that the
  verifier vouches for with the same subject, and each of its entries is a token of the chain: creator
  fees are shown only where the identity token lists the creator's wallet, and a refund only where the
  ledger credited one to a listed wallet.
\<close>

theorem profile_private:
  assumes "profile_route sv auth verifier reader accessNow identityNow i d = Inr body"
    and law: "\<forall>n. numeric_stands_for (reNumeric (svEnv sv) n) n" and nonneg: "amounts_nonneg d"
  shows "\<exists>v access ac ic. verifier = Some v \<and> ParseBearer (piAuthorization i) = Inr access
    \<and> vouched auth v accessNow access ac \<and> vouched auth v identityNow (piIdentityToken i) ic \<and> map_of ac ''sub'' = map_of ic ''sub''
    \<and> (\<forall>j \<in> set (xbItems body). \<exists>r \<in> set (dbTokens d). trChainID r = svChainID sv
         \<and> xjToken j = rlAddressHex (svLib sv) (tlToken (trLaunched r))
         \<and> (xjCreatorFees j \<noteq> ''0'' \<longrightarrow> lists_wallet (svLib sv) ic (tlCreator (trLaunched r)))
         \<and> (xjRefund j \<noteq> ''0'' \<longrightarrow> (\<exists>e \<in> set (dbEvents d). \<exists>a n. ecChainID (leCoordinates e) = svChainID sv
              \<and> lePayload e = LRefundCredit (tlToken (trLaunched r)) a n \<and> lists_wallet (svLib sv) ic a)))"
proof -
  obtain v access p page where p: "verifier = Some v" "ParseBearer (piAuthorization i) = Inr access"
      "Verify auth (svLib sv) v accessNow identityNow access (piIdentityToken i) = Inr p"
      "ProfileReader_List (svEnv sv) (svDeploymentID sv) (svChainID sv) (prWallets p) d = Inr page"
      "xbItems body = map (action_dto (svLib sv)) (ppItems page)"
    using profile_route_Inr[OF assms(1)] by blast
  obtain ac ic where c: "vouched auth v accessNow access ac" "vouched auth v identityNow (piIdentityToken i) ic"
      "map_of ac ''sub'' = map_of ic ''sub''" "\<forall>a \<in> set (prWallets p). lists_wallet (svLib sv) ic a"
    using Verify_listed[OF p(3)] by blast
  have zero: "FormatInt 0 = ''0''" by code_simp
  have "\<exists>r \<in> set (dbTokens d). trChainID r = svChainID sv \<and> xjToken j = rlAddressHex (svLib sv) (tlToken (trLaunched r))
      \<and> (xjCreatorFees j \<noteq> ''0'' \<longrightarrow> lists_wallet (svLib sv) ic (tlCreator (trLaunched r)))
      \<and> (xjRefund j \<noteq> ''0'' \<longrightarrow> (\<exists>e \<in> set (dbEvents d). \<exists>a n. ecChainID (leCoordinates e) = svChainID sv
           \<and> lePayload e = LRefundCredit (tlToken (trLaunched r)) a n \<and> lists_wallet (svLib sv) ic a))"
    if "j \<in> set (xbItems body)" for j
  proof -
    obtain a where a: "a \<in> set (sql_ListProfileActions (svChainID sv) (prWallets p) d)" "j = action_dto (svLib sv) (action_of a)"
      using \<open>j \<in> set (xbItems body)\<close> p(5) ProfileReader_items[OF law p(4)] by auto
    then obtain r where r: "r \<in> set (dbTokens d)" "trChainID r = svChainID sv" "a = profile_action (svChainID sv) (prWallets p) d r"
      by (auto simp: sql_ListProfileActions_set)
    have fees: "lists_wallet (svLib sv) ic (tlCreator (trLaunched r))" if "xjCreatorFees j \<noteq> ''0''"
      using that a(2) r(3) c(4) zero
      by (auto simp: action_dto_def action_of_def profile_action_def Let_def decimal_def split: if_splits)
    have credit: "\<exists>e \<in> set (dbEvents d). \<exists>a n. ecChainID (leCoordinates e) = svChainID sv
        \<and> lePayload e = LRefundCredit (tlToken (trLaunched r)) a n \<and> lists_wallet (svLib sv) ic a" if "xjRefund j \<noteq> ''0''"
    proof -
      have "refund_open (svChainID sv) (tlToken (trLaunched r)) (prWallets p) d \<noteq> 0"
        using that a(2) r(3) zero by (auto simp: action_dto_def action_of_def profile_action_def Let_def decimal_def)
      from refund_credited[OF nonneg this] show ?thesis using c(4) by blast
    qed
    have "xjToken j = rlAddressHex (svLib sv) (tlToken (trLaunched r))"
      using a(2) r(3) by (simp add: action_dto_def action_of_def profile_action_def Let_def)
    then show ?thesis using r(1,2) fees credit by blast
  qed
  then show ?thesis using p(1,2) c(1-3) by blast
qed

theorem profile_private_witness:
  "\<exists>body. profile_route account_server demo_auth (Some demo_verifier) True 150 150
       \<lparr>piAuthorization = demo_bearer, piIdentityToken = demo_token demo_identity\<rparr> account_tables = Inr body
     \<and> map (\<lambda>j. (xjToken j, xjCreatorFees j, xjRefund j)) (xbItems body) = [(''0xb2'', ''1'', ''2'')]
     \<and> (\<exists>ic. vouched demo_auth demo_verifier 150 (demo_token demo_identity) ic \<and> lists_wallet demo_addresses ic 0xA1)"
proof -
  let ?i = "\<lparr>piAuthorization = demo_bearer, piIdentityToken = demo_token demo_identity\<rparr>"
  have digits: "FormatInt 1 = ''1''" "FormatInt 2 = ''2''" by code_simp+
  have hex: "rlAddressHex demo_addresses 0xB2 = ''0xb2''" by (simp add: demo_addresses_def)
  obtain body where body: "profile_route account_server demo_auth (Some demo_verifier) True 150 150 ?i account_tables = Inr body"
      "xbItems body = [action_dto demo_addresses \<lparr>acToken = 0xB2, acCurve = 1, acName = ''N'', acSymbol = ''S'', acPhase = ''curve'',
        acCreatorFees = 1, acRefund = 2\<rparr>]"
    by (simp add: profile_route_def demo_bearer_parsed demo_verified account_server_def account_page)
  have nonneg: "amounts_nonneg account_tables" by (simp add: amounts_nonneg_def account_tables_def)
  have sv: "svEnv account_server = account_env" "svLib account_server = demo_addresses" "svChainID account_server = 1"
    by (simp_all add: account_server_def)
  have law: "\<forall>n. numeric_stands_for (reNumeric (svEnv account_server) n) n" unfolding sv by (rule account_law)
  from profile_private[OF body(1) law nonneg] obtain v ic where v: "Some demo_verifier = Some v"
    and vi: "vouched demo_auth v 150 (piIdentityToken ?i) ic"
    and all: "\<forall>j \<in> set (xbItems body). \<exists>r \<in> set (dbTokens account_tables).
      xjCreatorFees j \<noteq> ''0'' \<longrightarrow> lists_wallet (svLib account_server) ic (tlCreator (trLaunched r))"
    by blast
  have ic: "vouched demo_auth demo_verifier 150 (demo_token demo_identity) ic" using v vi by simp
  have "lists_wallet demo_addresses ic 0xA1"
    using all body(2) digits by (simp add: action_dto_def decimal_def sv account_tables_def account_token_def)
  then show ?thesis using body ic digits hex by (auto simp: action_dto_def decimal_def)
qed

text \<open>
  C21: an account that claims what its profile shows for a token has nothing left there: once the
  ledger has claims of exactly the shown amounts, the profile is the same listing without that token.
\<close>

theorem profile_settles:
  fixes d :: rdb
  assumes serves: "serves env chainID deploymentID d s" and law: "\<forall>n. numeric_stands_for (reNumeric env n) n"
    and u: "distinct (map token_row_key (dbTokens d))"
    and page: "ProfileReader_List env deploymentID chainID wallets d = Inr page" and a: "a \<in> set (ppItems page)"
    and ps: "pays chainID (acToken a) wallets (acCreatorFees a) (acRefund a) ps"
  shows "ProfileReader_List env deploymentID chainID wallets (d\<lparr>dbEvents := dbEvents d @ ps\<rparr>)
    = Inr (page\<lparr>ppItems := filter (\<lambda>x. acToken x \<noteq> acToken a) (ppItems page)\<rparr>)"
proof -
  let ?d = "d\<lparr>dbEvents := dbEvents d @ ps\<rparr>"
  let ?rows = "sql_ListProfileActions chainID wallets d"
  obtain b where b: "b \<in> set ?rows" "a = action_of b" using a ProfileReader_items[OF law page] by auto
  have rows: "sql_ListProfileActions chainID wallets ?d = filter (\<lambda>x. pfToken x \<noteq> pfToken b) ?rows"
    by (rule paid_rows[OF _ b(1) u]) (use ps b(2) in \<open>simp add: action_of_def\<close>)
  have serves': "serves env chainID deploymentID ?d s" using serves by (auto simp: serves_def sql_GetSyncState_def split: option.splits)
  note run = ProfileReader_List_def serves_read[OF serves] serves_query[OF serves] serves_read[OF serves'] serves_query[OF serves'] read_actions[OF law]
  have fits: "list_all fits_numeric78 ?rows"
    and out: "page = \<lparr>ppItems = map action_of ?rows, ppSnapshot = readIdentity s, ppFinality = finality (readState s) (snBlockNumber (readIdentity s))\<rparr>"
    using page by (auto simp: run simp del: rtraverse_Inr split: if_splits)
  have "list_all fits_numeric78 (filter (\<lambda>x. pfToken x \<noteq> pfToken b) ?rows)" using fits by (auto simp: list_all_iff)
  moreover have "filter (\<lambda>x. acToken x \<noteq> acToken a) (map action_of ?rows) = map action_of (filter (\<lambda>x. pfToken x \<noteq> pfToken b) ?rows)"
    using b(2) by (simp add: filter_map comp_def action_of_def)
  ultimately show ?thesis by (simp add: run rows out del: rtraverse_Inr)
qed

theorem profile_settles_witness:
  "map acToken (case ProfileReader_List account_env ''demo'' 1 [0xA1] account_tables of Inr p \<Rightarrow> ppItems p | Inl _ \<Rightarrow> []) = [0xB2]
   \<and> map_sum id ppItems (ProfileReader_List account_env ''demo'' 1 [0xA1] (account_tables\<lparr>dbEvents := dbEvents account_tables @
        [\<lparr>leCoordinates = account_at 4 10 0, lePayload = LCreatorFeeClaim 0xB2 0xA1 (Some 1)\<rparr>,
         \<lparr>leCoordinates = account_at 4 10 1, lePayload = LRefundClaim 0xB2 0xA1 (Some 2)\<rparr>]\<rparr>)) = Inr []"
proof -
  let ?ps = "[\<lparr>leCoordinates = account_at 4 10 0, lePayload = LCreatorFeeClaim 0xB2 0xA1 (Some 1)\<rparr>,
    \<lparr>leCoordinates = account_at 4 10 1, lePayload = LRefundClaim 0xB2 0xA1 (Some 2)\<rparr>]"
  have u: "distinct (map token_row_key (dbTokens account_tables))" by (simp add: account_tables_def)
  let ?a = "\<lparr>acToken = 0xB2, acCurve = 1, acName = ''N'', acSymbol = ''S'', acPhase = ''curve'', acCreatorFees = 1, acRefund = 2\<rparr>"
  let ?p = "\<lparr>ppItems = [?a], ppSnapshot = readIdentity account_snapshot, ppFinality = finality (readState account_snapshot) 4\<rparr>"
  have a: "?a \<in> set (ppItems ?p)" by simp
  have ps: "pays 1 (acToken ?a) [0xA1] (acCreatorFees ?a) (acRefund ?a) ?ps" by (simp add: pays_def account_at_def)
  from profile_settles[OF account_serves account_law u account_page a ps] show ?thesis using account_page by simp
qed

end
