(* ===== verification/Event_Stream.thy ===== *)
theory Event_Stream
  imports Realtime_Hub Metadata_Store "HOL-Library.Sublist"
begin

text \<open>
  The path of a refresh hint: the payloads that the store's notifications carry, their decoding
  (\<^verbatim>\<open>realtime.Decode\<close>), the listener of the API process (\<^verbatim>\<open>store/postgres/api_notify.go\<close> and
  \<^verbatim>\<open>listenRefreshHints\<close> of \<^verbatim>\<open>cmd/api/main.go\<close>), and the server-sent event stream of
  \<^verbatim>\<open>apiserver/event_routes.go\<close> over the hub. Notifications, the clock and the clients interleave; the
  system is a step relation in which every hub call is one step.
\<close>

section \<open>Decoding\<close>

text \<open>\<^verbatim>\<open>json.Unmarshal\<close> into the struct: members in order, the last of a name wins, unknown ones are skipped.\<close>

definition set_int64 :: "json \<Rightarrow> (int \<Rightarrow> 'r \<Rightarrow> 'r) \<Rightarrow> 'r \<Rightarrow> string + 'r" where
  "set_int64 v put r =
     (case v of
        JNumber t \<Rightarrow> (case ParseInt 64 t of None \<Rightarrow> Inl ''cannot unmarshal number into int64'' | Some n \<Rightarrow> Inr (put n r))
      | JNull \<Rightarrow> Inr r
      | _ \<Rightarrow> Inl ''cannot unmarshal into int64'')"

definition event_field :: "string \<times> json \<Rightarrow> Event \<Rightarrow> string + Event" where
  "event_field m e =
     (let name = fold_name (fst m) in
      if name = ''type'' then set_field (snd m) (\<lambda>s. reType_update (\<lambda>_. s)) e
      else if name = ''chain_id'' then set_int64 (snd m) (\<lambda>n. reChainID_update (\<lambda>_. n)) e
      else if name = ''deployment_id'' then set_field (snd m) (\<lambda>s. reDeploymentID_update (\<lambda>_. s)) e
      else if name = ''token'' then set_field (snd m) (\<lambda>s. reToken_update (\<lambda>_. s)) e
      else if name = ''as_of_block'' then set_int64 (snd m) (\<lambda>n. reAsOfBlock_update (\<lambda>_. n)) e
      else if name = ''as_of_block_hash'' then set_field (snd m) (\<lambda>s. reAsOfBlockHash_update (\<lambda>_. s)) e
      else if name = ''common_ancestor'' then set_int64 (snd m) (\<lambda>n. reCommonAncestor_update (\<lambda>_. n)) e
      else Inr e)"

definition zero_event :: Event where
  "zero_event = \<lparr>reType = [], reChainID = 0, reDeploymentID = [], reToken = [], reAsOfBlock = 0, reAsOfBlockHash = [], reCommonAncestor = 0\<rparr>"

definition unmarshal_event :: "string \<Rightarrow> string + Event" where
  "unmarshal_event data =
     (case parse_document data of
        None \<Rightarrow> Inl ''invalid JSON''
      | Some (JObject ms) \<Rightarrow> rfold event_field ms zero_event
      | Some JNull \<Rightarrow> Inr zero_event
      | Some _ \<Rightarrow> Inl ''cannot unmarshal into Event'')"

section \<open>Payloads\<close>

text \<open>
  The hint of a launch, of a completed reorg and of a committed chunk; that of a metadata write is
  \<open>token_hint\<close>. A marshalled map has its keys in order. The hint of a chunk is printed, with the
  deployment quoted: a text of printable characters without quotes and backslashes stands as it is,
  and \<open>quote\<close> is the rest of \<^verbatim>\<open>%q\<close>. Deployment identifiers have letters, digits, dots, dashes and underscores.
\<close>

definition launch_hint :: "read_library \<Rightarrow> string \<Rightarrow> EventCoordinates \<Rightarrow> Address \<Rightarrow> json" where
  "launch_hint lib deploymentID c token = JObject
     [(''as_of_block'', JNumber (FormatInt (ecBlockNumber c))), (''as_of_block_hash'', JString (rlHashHex lib (ecBlockHash c))),
      (''chain_id'', JNumber (FormatInt (ecChainID c))), (''deployment_id'', JString deploymentID),
      (''token'', JString (rlAddressHex lib token)), (''type'', JString ''launch'')]"

definition reorg_hint :: "read_library \<Rightarrow> ReorgRecord \<Rightarrow> json" where
  "reorg_hint lib r = JObject
     [(''as_of_block'', JNumber (FormatInt (rrCommonAncestorNumber r))), (''as_of_block_hash'', JString (rlHashHex lib (rrCommonAncestorHash r))),
      (''chain_id'', JNumber (FormatInt (rrChainID r))), (''common_ancestor'', JNumber (FormatInt (rrCommonAncestorNumber r))),
      (''deployment_id'', JString (rrDeploymentID r)), (''type'', JString ''reorg'')]"

definition quotes_plainly :: "string \<Rightarrow> bool" where
  "quotes_plainly s \<longleftrightarrow> list_all (\<lambda>c. byte_between 0x20 0x7E c \<and> c \<noteq> CHR 0x22 \<and> c \<noteq> CHR 0x5C) s"

definition refresh_hint :: "(string \<Rightarrow> string) \<Rightarrow> int \<Rightarrow> string \<Rightarrow> string" where
  "refresh_hint quote chainID deploymentID =
     ''{'' @ json_string ''type'' @ '':'' @ json_string ''token'' @ '','' @ json_string ''chain_id'' @ '':'' @ FormatInt chainID @ '','' @
     json_string ''deployment_id'' @ '':'' @
     (if quotes_plainly deploymentID then [CHR 0x22] @ deploymentID @ [CHR 0x22] else quote deploymentID) @ ''}''"

section \<open>The listener\<close>

datatype listen_error = ListenCanceled | ListenFailed string

text \<open>What one connection does: acquiring it, the LISTEN statement, the notifications (some empty) and how waiting ends.\<close>

record listen_session =
  lsAcquire :: "listen_error option"
  lsListen :: "listen_error option"
  lsNotifications :: "string option list"
  lsEnd :: listen_error

fun wait_notifications :: "(string \<Rightarrow> 's \<Rightarrow> 's option) \<Rightarrow> string option list \<Rightarrow> 's \<Rightarrow> 's option" where
  "wait_notifications handler [] st = Some st"
| "wait_notifications handler (n # ns) st =
     Option.bind (case n of None \<Rightarrow> Some st | Some payload \<Rightarrow> handler payload st) (wait_notifications handler ns)"

definition ListenAPIRefreshReady ::
    "bool \<Rightarrow> (string \<Rightarrow> 's \<Rightarrow> 's option) \<Rightarrow> listen_session \<Rightarrow> 's \<Rightarrow> (listen_error \<times> 's) option" where
  "ListenAPIRefreshReady pool handler session st =
     (if \<not> pool then Some (ListenFailed ''API refresh listener requires pool and receiver'', st)
      else case lsAcquire session of
        Some e \<Rightarrow> Some (e, st)
      | None \<Rightarrow>
        (case lsListen session of
           Some e \<Rightarrow> Some (e, st)
         | None \<Rightarrow> map_option (\<lambda>st'. (lsEnd session, st')) (wait_notifications handler (lsNotifications session) st)))"

text \<open>The receiver of the API process: a hint that decodes and belongs to this deployment is published.\<close>

definition hint_event :: "int \<Rightarrow> string \<Rightarrow> string \<Rightarrow> Event option" where
  "hint_event chainID deploymentID payload =
     (case hub_Decode unmarshal_event payload of
        Inl _ \<Rightarrow> None
      | Inr event \<Rightarrow>
        if reChainID event \<noteq> chainID \<or> (reDeploymentID event \<noteq> [] \<and> reDeploymentID event \<noteq> deploymentID) then None else Some event)"

definition on_refresh :: "int \<Rightarrow> string \<Rightarrow> string \<Rightarrow> Hub \<Rightarrow> Hub option" where
  "on_refresh chainID deploymentID payload h =
     (case hint_event chainID deploymentID payload of None \<Rightarrow> Some h | Some event \<Rightarrow> Publish event h)"

text \<open>
  The loop over connections. Each round says whether the context was done at its start, after the
  connection ended, and during the pause of a second.
\<close>

record listen_round =
  lrStopped :: bool
  lrSession :: listen_session
  lrCancelled :: bool
  lrPauseCancelled :: bool

fun listenRefreshHints :: "int \<Rightarrow> string \<Rightarrow> bool \<Rightarrow> listen_round list \<Rightarrow> Hub \<Rightarrow> Hub option" where
  "listenRefreshHints chainID deploymentID pool [] h = Some h"
| "listenRefreshHints chainID deploymentID pool (r # rs) h =
     (if lrStopped r then Some h
      else Option.bind (ListenAPIRefreshReady pool (on_refresh chainID deploymentID) (lrSession r) h) (\<lambda>(err, h').
        if err = ListenCanceled \<or> lrCancelled r then Some h'
        else if lrPauseCancelled r then Some h'
        else listenRefreshHints chainID deploymentID pool rs h'))"

section \<open>The stream\<close>

record launchEvent =
  lvChainID :: int
  lvDeploymentID :: string
  lvToken :: string
  lvAsOfBlock :: int
  lvAsOfBlockHash :: string

record reorgEvent =
  rvChainID :: int
  rvDeploymentID :: string
  rvAsOfBlock :: int
  rvAsOfBlockHash :: string
  rvCommonAncestor :: int

text \<open>A token event has the fields of a launch event; the constructor is the name of the event.\<close>

datatype stream_data = LaunchData launchEvent | TokenData launchEvent | ReorgData reorgEvent

datatype stream_message = Comment string int | Data stream_data

record EventRoutes =
  erChainID :: int
  erDeploymentID :: string

definition deployment :: "string \<Rightarrow> string \<Rightarrow> string" where
  "deployment v fallback = (if v \<noteq> [] then v else fallback)"

definition stream_event :: "EventRoutes \<Rightarrow> Event \<Rightarrow> stream_data option" where
  "stream_event r e =
     (if reChainID e \<noteq> erChainID r \<or> (reDeploymentID e \<noteq> [] \<and> reDeploymentID e \<noteq> erDeploymentID r) then None
      else let d = deployment (reDeploymentID e) (erDeploymentID r);
               shared = \<lparr>lvChainID = reChainID e, lvDeploymentID = d, lvToken = reToken e, lvAsOfBlock = reAsOfBlock e,
                 lvAsOfBlockHash = reAsOfBlockHash e\<rparr> in
        if reType e = ''launch'' then Some (LaunchData shared)
        else if reType e = ''token'' then Some (TokenData shared)
        else if reType e = ''reorg''
        then Some (ReorgData \<lparr>rvChainID = reChainID e, rvDeploymentID = d, rvAsOfBlock = reAsOfBlock e, rvAsOfBlockHash = reAsOfBlockHash e,
          rvCommonAncestor = reCommonAncestor e\<rparr>)
        else None)"

definition greeting :: stream_message where
  "greeting = Comment ''refresh-only stream; fetch REST after reconnect'' 3000"

definition capacity_notice :: stream_message where
  "capacity_notice = Comment ''subscriber capacity reached'' 3000"

definition heartbeat :: stream_message where
  "heartbeat = Comment ''heartbeat'' 0"

text \<open>
  One handler: its subscription, the messages that were sent, whether its loop still runs. The cases
  of the \<^verbatim>\<open>select\<close> are the inputs; a send may fail, which ends the loop.
\<close>

record stream_client =
  clSubscription :: Subscription
  clSent :: "stream_message list"
  clRunning :: bool

definition sending :: "stream_message \<Rightarrow> bool \<Rightarrow> stream_client \<Rightarrow> stream_client" where
  "sending m ok c = (if ok then c\<lparr>clSent := clSent c @ [m]\<rparr> else c\<lparr>clRunning := False\<rparr>)"

datatype select_case = ContextDone_case | Shutdown_case | Heartbeat_case bool | Event_case Event bool | Closed_case

definition stream_select :: "EventRoutes \<Rightarrow> select_case \<Rightarrow> stream_client \<Rightarrow> stream_client" where
  "stream_select r s c =
     (case s of
        ContextDone_case \<Rightarrow> c\<lparr>clRunning := False\<rparr>
      | Shutdown_case \<Rightarrow> c\<lparr>clRunning := False\<rparr>
      | Heartbeat_case ok \<Rightarrow> sending heartbeat ok c
      | Closed_case \<Rightarrow> c\<lparr>clRunning := False\<rparr>
      | Event_case e ok \<Rightarrow> (case stream_event r e of None \<Rightarrow> c | Some m \<Rightarrow> sending (Data m) ok c))"

definition stream_open :: "Subscription \<Rightarrow> bool \<Rightarrow> stream_client" where
  "stream_open s ok = sending greeting ok \<lparr>clSubscription = s, clSent = [], clRunning = True\<rparr>"

section \<open>The system\<close>

text \<open>
  The hub, the payloads notified so far and the handlers. Each method of the hub, each send and each
  case of a \<^verbatim>\<open>select\<close> is one step. \<open>ssMark\<close> is how many payloads had been notified when a channel
  subscribed, \<open>ssRefused\<close> what clients above the capacity were sent. A handler that has returned
  closes its subscription, once or more.
\<close>

record stream_system =
  ssHub :: hub_system
  ssNotified :: "string list"
  ssClients :: "stream_client list"
  ssMark :: "nat \<Rightarrow> nat"
  ssRefused :: "stream_message list"

abbreviation events_of :: "EventRoutes \<Rightarrow> string list \<Rightarrow> Event list" where
  "events_of r ps \<equiv> List.map_filter (hint_event (erChainID r) (erDeploymentID r)) ps"

inductive stream_step :: "EventRoutes \<Rightarrow> stream_system \<Rightarrow> stream_system \<Rightarrow> bool" for r where
  connect: "Subscribe (hsHub (ssHub a)) = (Some s, h) \<Longrightarrow>
    stream_step r a (a\<lparr>ssHub := (ssHub a)\<lparr>hsHub := h, hsFrom := (hsFrom (ssHub a))(suChannel s := length (hsPublished (ssHub a)))\<rparr>,
      ssClients := ssClients a @ [stream_open s ok], ssMark := (ssMark a)(suChannel s := length (ssNotified a))\<rparr>)"
| refused: "Subscribe (hsHub (ssHub a)) = (None, h) \<Longrightarrow>
    stream_step r a (a\<lparr>ssHub := (ssHub a)\<lparr>hsHub := h\<rparr>,
      ssRefused := ssRefused a @ (if ok then [capacity_notice] else [])\<rparr>)"
| notified: "hint_event (erChainID r) (erDeploymentID r) payload = Some event \<Longrightarrow> Publish event (hsHub (ssHub a)) = Some h \<Longrightarrow>
    stream_step r a (a\<lparr>ssHub := mark_left (ssHub a) ((ssHub a)\<lparr>hsHub := h, hsPublished := hsPublished (ssHub a) @ [event]\<rparr>),
      ssNotified := ssNotified a @ [payload]\<rparr>)"
| ignored: "hint_event (erChainID r) (erDeploymentID r) payload = None \<Longrightarrow> stream_step r a (a\<lparr>ssNotified := ssNotified a @ [payload]\<rparr>)"
| event: "i < length (ssClients a) \<Longrightarrow> c = ssClients a ! i \<Longrightarrow> clRunning c \<Longrightarrow>
    receive (suChannel (clSubscription c)) (hsHub (ssHub a)) = Some (event, h) \<Longrightarrow>
    stream_step r a (a\<lparr>ssHub := (ssHub a)\<lparr>hsHub := h,
        hsReceived := (hsReceived (ssHub a))(suChannel (clSubscription c) := hsReceived (ssHub a) (suChannel (clSubscription c)) @ [event])\<rparr>,
      ssClients := (ssClients a)[i := stream_select r (Event_case event ok) c]\<rparr>)"
| closed: "i < length (ssClients a) \<Longrightarrow> c = ssClients a ! i \<Longrightarrow> clRunning c \<Longrightarrow>
    ch = hbChannels (hsHub (ssHub a)) ! suChannel (clSubscription c) \<Longrightarrow> chClosed ch \<Longrightarrow> chBuffer ch = [] \<Longrightarrow>
    stream_step r a (a\<lparr>ssClients := (ssClients a)[i := stream_select r Closed_case c]\<rparr>)"
| other: "i < length (ssClients a) \<Longrightarrow> c = ssClients a ! i \<Longrightarrow> clRunning c \<Longrightarrow> s \<in> {ContextDone_case, Shutdown_case, Heartbeat_case ok} \<Longrightarrow>
    stream_step r a (a\<lparr>ssClients := (ssClients a)[i := stream_select r s c]\<rparr>)"
| returned: "c \<in> set (ssClients a) \<Longrightarrow> \<not> clRunning c \<Longrightarrow> Subscription_Close (clSubscription c) (ssHub a) = Some y \<Longrightarrow>
    stream_step r a (a\<lparr>ssHub := mark_left (ssHub a) y\<rparr>)"

definition stream_start :: "int \<Rightarrow> int \<Rightarrow> stream_system" where
  "stream_start maximum buffer = \<lparr>ssHub = hub_start maximum buffer, ssNotified = [], ssClients = [], ssMark = (\<lambda>_. 0), ssRefused = []\<rparr>"

inductive stream_reach :: "EventRoutes \<Rightarrow> int \<Rightarrow> int \<Rightarrow> stream_system \<Rightarrow> bool" for r maximum buffer where
  start: "stream_reach r maximum buffer (stream_start maximum buffer)"
| step: "stream_reach r maximum buffer a \<Longrightarrow> stream_step r a a' \<Longrightarrow> stream_reach r maximum buffer a'"

text \<open>Every step is a step of the hub or leaves it alone.\<close>

lemma stream_step_hub: "stream_step r a a' \<Longrightarrow> hub_step (ssHub a) (ssHub a') \<or> ssHub a' = ssHub a"
  by (induction rule: stream_step.induct) (auto intro: hub_step.intros)

lemma stream_reach_hub: "stream_reach r maximum buffer a \<Longrightarrow> hub_reach maximum buffer (ssHub a)"
proof (induction rule: stream_reach.induct)
  case start
  then show ?case by (simp add: stream_start_def hub_reach.start)
next
  case (step a a')
  then show ?case using stream_step_hub[OF step(2)] by (auto intro: hub_reach.step)
qed

section \<open>The invariant\<close>

definition data_sent :: "stream_client \<Rightarrow> stream_data list" where
  "data_sent c = List.map_filter (\<lambda>m. case m of Data d \<Rightarrow> Some d | Comment _ _ \<Rightarrow> None) (clSent c)"

definition client_ok :: "EventRoutes \<Rightarrow> stream_system \<Rightarrow> stream_client \<Rightarrow> bool" where
  "client_ok r a c \<longleftrightarrow> (let ch = suChannel (clSubscription c); due = List.map_filter (stream_event r) (hsReceived (ssHub a) ch) in
     ch < length (hbChannels (hsHub (ssHub a))) \<and> (if clRunning c then data_sent c = due else prefix (data_sent c) due))"

definition stream_inv :: "EventRoutes \<Rightarrow> stream_system \<Rightarrow> bool" where
  "stream_inv r a \<longleftrightarrow> (\<forall>c \<in> set (ssClients a). client_ok r a c)
     \<and> distinct (map (suChannel \<circ> clSubscription) (ssClients a))
     \<and> hsPublished (ssHub a) = events_of r (ssNotified a)
     \<and> (\<forall>ch < length (hbChannels (hsHub (ssHub a))). ssMark a ch \<le> length (ssNotified a)
          \<and> hsFrom (ssHub a) ch = length (events_of r (take (ssMark a ch) (ssNotified a))))"

lemma map_filter_simps [simp]:
  "List.map_filter f [] = []" "List.map_filter f (x # xs) = (case f x of None \<Rightarrow> List.map_filter f xs | Some y \<Rightarrow> y # List.map_filter f xs)"
  "List.map_filter f (xs @ ys) = List.map_filter f xs @ List.map_filter f ys"
  by (simp_all add: List.map_filter_def split: option.split)

lemma data_sending [simp]:
  "data_sent (sending (Data d) True c) = data_sent c @ [d]" "data_sent (sending (Comment t n) ok c) = data_sent c"
  "data_sent (sending m False c) = data_sent c" "clSubscription (sending m ok c) = clSubscription c"
  "clRunning (sending m ok c) \<longleftrightarrow> clRunning c \<and> ok" "data_sent (c\<lparr>clRunning := b\<rparr>) = data_sent c"
  by (auto simp: sending_def data_sent_def)

lemma select_subscription [simp]: "clSubscription (stream_select r s c) = clSubscription c"
  by (simp add: stream_select_def split: select_case.split option.split)

text \<open>The channels of a hub only grow in number; publishing, receiving and closing keep their number.\<close>

lemma channels_kept:
  "Publish e h = Some h' \<Longrightarrow> length (hbChannels h') = length (hbChannels h)"
  "receive ref h = Some (e, h') \<Longrightarrow> length (hbChannels h') = length (hbChannels h)"
  "remove n h = Some h' \<Longrightarrow> length (hbChannels h') = length (hbChannels h)"
  using offer_all_grows[of e "hbSubscribers h" h h'] remove_grows[of n h h']
  by (auto simp: Publish_def receive_def split: if_splits list.splits)

lemma Subscribe_Some:
  assumes "Subscribe h = (Some s, h')"
  shows "suChannel s = length (hbChannels h)" "length (hbChannels h') = Suc (length (hbChannels h))"
  using assms by (auto simp: Subscribe_def Let_def split: if_splits)

lemma Subscribe_None: "Subscribe h = (None, h') \<Longrightarrow> h' = h"
  by (auto simp: Subscribe_def Let_def split: if_splits)

lemma Close_kept:
  assumes "Subscription_Close s y = Some y'"
  shows "length (hbChannels (hsHub y')) = length (hbChannels (hsHub y))" "hsReceived y' = hsReceived y"
    "hsPublished y' = hsPublished y" "hsFrom y' = hsFrom y"
  using assms by (auto simp: Subscription_Close_def channels_kept(3) split: if_splits Option.bind_splits)

lemma mark_left_simps [simp]:
  "hsHub (mark_left b y) = hsHub y" "hsReceived (mark_left b y) = hsReceived y" "hsPublished (mark_left b y) = hsPublished y"
  "hsFrom (mark_left b y) = hsFrom y"
  by (simp_all add: mark_left_def)

lemma client_ok_cong:
  "hsReceived (ssHub a') (suChannel (clSubscription c)) = hsReceived (ssHub a) (suChannel (clSubscription c)) \<Longrightarrow>
   length (hbChannels (hsHub (ssHub a))) \<le> length (hbChannels (hsHub (ssHub a'))) \<Longrightarrow> client_ok r a c \<Longrightarrow> client_ok r a' c"
  by (auto simp: client_ok_def Let_def)

text \<open>A handler that takes another case of its select: nothing was received.\<close>

lemma client_ok_select:
  assumes "client_ok r a c" "clRunning c" "s \<in> {ContextDone_case, Shutdown_case, Heartbeat_case ok, Closed_case}"
  shows "client_ok r a (stream_select r s c)"
  using assms by (auto simp: client_ok_def stream_select_def Let_def heartbeat_def)

lemma client_ok_event:
  assumes "client_ok r a c" "clRunning c" "hsReceived (ssHub a') (suChannel (clSubscription c)) = hsReceived (ssHub a) (suChannel (clSubscription c)) @ [e]"
    "length (hbChannels (hsHub (ssHub a))) \<le> length (hbChannels (hsHub (ssHub a')))"
  shows "client_ok r a' (stream_select r (Event_case e ok) c)"
  using assms by (cases ok) (auto simp: client_ok_def stream_select_def Let_def split: option.splits)

lemma stream_step_grows:
  assumes "stream_step r a a'"
  shows "length (hbChannels (hsHub (ssHub a))) \<le> length (hbChannels (hsHub (ssHub a')))"
  using stream_step_hub[OF assms] hub_step_grows by fastforce

lemma replaced_client:
  assumes "stream_inv r a" "i < length (ssClients a)" "c = ssClients a ! i" "client_ok r a (stream_select r s c)"
  shows "stream_inv r (a\<lparr>ssClients := (ssClients a)[i := stream_select r s c]\<rparr>)"
proof -
  have "\<forall>x \<in> set ((ssClients a)[i := stream_select r s c]). client_ok r a x"
    using assms set_update_subset_insert[of "ssClients a" i] by (auto simp: stream_inv_def)
  moreover have "map (suChannel \<circ> clSubscription) ((ssClients a)[i := stream_select r s c]) = map (suChannel \<circ> clSubscription) (ssClients a)"
    using assms(2,3) by (intro nth_equalityI) (auto simp: nth_list_update)
  ultimately show ?thesis using assms(1) by (simp add: stream_inv_def client_ok_def)
qed

lemma stream_step_inv:
  assumes "stream_step r a a'" "stream_inv r a" "history_inv (ssHub a)"
  shows "stream_inv r a'"
  using assms(1)
proof (cases rule: stream_step.cases)
  case (connect s h ok)
  note S = Subscribe_Some[OF connect(2)]
  have fresh: "hsReceived (ssHub a) (suChannel s) = []" using assms(3) S(1) by (simp add: history_inv_def)
  have old: "suChannel (clSubscription c) < length (hbChannels (hsHub (ssHub a)))" if "c \<in> set (ssClients a)" for c
    using assms(2) that by (auto simp: stream_inv_def client_ok_def Let_def)
  have "client_ok r a' (stream_open s ok)"
    using fresh S connect(1) by (simp add: client_ok_def stream_open_def Let_def greeting_def) (simp add: data_sent_def)
  moreover have "client_ok r a' c" if "c \<in> set (ssClients a)" for c
    using assms(2) that S connect(1) by (intro client_ok_cong[of a' c a]) (auto simp: stream_inv_def)
  moreover have "suChannel s \<notin> (suChannel \<circ> clSubscription) ` set (ssClients a)" using old S(1) by force
  moreover have "clSubscription (stream_open s ok) = s" by (simp add: stream_open_def)
  ultimately show ?thesis using assms(2) connect(1) S by (auto simp: stream_inv_def less_Suc_eq)
next
  case (refused h)
  then show ?thesis using assms(2) Subscribe_None[OF refused(2)] by (auto simp: stream_inv_def client_ok_def Let_def)
next
  case (notified payload event h)
  note k = channels_kept(1)[OF notified(3)]
  have "client_ok r a' c" if "c \<in> set (ssClients a)" for c
    using assms(2) that k notified(1) by (intro client_ok_cong[of a' c a]) (auto simp: stream_inv_def)
  then show ?thesis using assms(2) notified k by (auto simp: stream_inv_def)
next
  case (ignored payload)
  have "client_ok r a' c" if "c \<in> set (ssClients a)" for c
    using assms(2) that ignored(1) by (intro client_ok_cong[of a' c a]) (auto simp: stream_inv_def)
  then show ?thesis using assms(2) ignored by (auto simp: stream_inv_def)
next
  case (event i c e h ok)
  note k = channels_kept(2)[OF event(5)]
  let ?c = "stream_select r (Event_case e ok) c"
  have ok: "client_ok r a c" "c \<in> set (ssClients a)" using assms(2) event(2,3) by (auto simp: stream_inv_def)
  have new: "client_ok r a' ?c" using event(1) k by (intro client_ok_event[OF ok(1) event(4)]) auto
  have rest: "client_ok r a' (ssClients a ! j)" if "j < length (ssClients a)" "j \<noteq> i" for j
  proof -
    have "suChannel (clSubscription (ssClients a ! j)) \<noteq> suChannel (clSubscription c)"
      using assms(2) that event(2,3) nth_eq_iff_index_eq[of "map (suChannel \<circ> clSubscription) (ssClients a)" j i] by (auto simp: stream_inv_def)
    then show ?thesis using assms(2) that event(1) k by (intro client_ok_cong[of a' _ a]) (auto simp: stream_inv_def)
  qed
  have "\<forall>x \<in> set (ssClients a'). client_ok r a' x"
    using new rest event(1,2) by (auto simp: in_set_conv_nth nth_list_update)
  moreover have "map (suChannel \<circ> clSubscription) (ssClients a') = map (suChannel \<circ> clSubscription) (ssClients a)"
    using event(1-3) by (intro nth_equalityI) (auto simp: nth_list_update)
  ultimately show ?thesis using assms(2) event(1) k by (simp add: stream_inv_def)
next
  case (closed i c ch)
  have "client_ok r a c" using assms(2) closed(2,3) by (auto simp: stream_inv_def)
  then show ?thesis using replaced_client[OF assms(2) closed(2,3)] client_ok_select[of r a c Closed_case True] closed(1,4) by simp
next
  case (other i c s ok)
  have "client_ok r a c" using assms(2) other(2,3) by (auto simp: stream_inv_def)
  then show ?thesis using replaced_client[OF assms(2) other(2,3)] client_ok_select[of r a c s ok] other(1,4,5) by auto
next
  case (returned c y)
  note k = Close_kept[OF returned(4)]
  have "client_ok r a' x" if "x \<in> set (ssClients a)" for x
    using assms(2) that k returned(1) by (intro client_ok_cong[of a' x a]) (auto simp: stream_inv_def)
  then show ?thesis using assms(2) returned(1) k by (auto simp: stream_inv_def)
qed

lemma stream_reach_inv:
  "stream_reach r maximum buffer a \<Longrightarrow> length (hbChannels (hsHub (ssHub a))) < 2 ^ 64 \<Longrightarrow> stream_inv r a"
proof (induction rule: stream_reach.induct)
  case start
  then show ?case by (simp add: stream_start_def stream_inv_def hub_start_def NewHub_def)
next
  case (step a a')
  have "length (hbChannels (hsHub (ssHub a))) < 2 ^ 64" using stream_step_grows[OF step(2)] step.prems by simp
  then show ?case using step hub_reach_inv[OF stream_reach_hub[OF step(1)]] stream_step_inv[OF step(2)] by blast
qed

lemma drop_events:
  "m \<le> length ps \<Longrightarrow> drop (length (events_of r (take m ps))) (events_of r ps) = events_of r (drop m ps)"
  by (metis append_eq_conv_conj append_take_drop_id map_filter_simps(3))

text \<open>What a published hint becomes on the stream: the published event is always sent.\<close>

lemma hint_streamed:
  assumes "hint_event (erChainID r) (erDeploymentID r) p = Some e"
  shows "stream_event r e \<noteq> None"
  using assms by (auto simp: hint_event_def hub_Decode_def stream_event_def Let_def split: sum.splits if_splits)

definition hint_data :: "EventRoutes \<Rightarrow> string \<Rightarrow> stream_data option" where
  "hint_data r p = Option.bind (hint_event (erChainID r) (erDeploymentID r) p) (stream_event r)"

lemma map_filter_events: "List.map_filter (stream_event r) (events_of r ps) = List.map_filter (hint_data r) ps"
  by (induction ps) (auto simp: hint_data_def split: option.splits)

lemma received_prefix:
  assumes "stream_reach r maximum buffer a" "length (hbChannels (hsHub (ssHub a))) < 2 ^ 64" "ch < length (hbChannels (hsHub (ssHub a)))"
  shows "prefix (hsReceived (ssHub a) ch) (events_of r (drop (ssMark a ch) (ssNotified a)))"
    "ch \<in> live (hsHub (ssHub a)) \<Longrightarrow> chBuffer (hbChannels (hsHub (ssHub a)) ! ch) = [] \<Longrightarrow>
       hsReceived (ssHub a) ch = events_of r (drop (ssMark a ch) (ssNotified a))"
proof -
  let ?y = "ssHub a"
  have inv: "stream_inv r a" by (rule stream_reach_inv[OF assms(1,2)])
  have hist: "history_inv ?y" using hub_reach_inv[OF stream_reach_hub[OF assms(1)] assms(2)] by simp
  have h: "hsReceived ?y ch @ chBuffer (hbChannels (hsHub ?y) ! ch) =
      drop (hsFrom ?y ch) (take (until_or (length (hsPublished ?y)) (hsUntil ?y ch)) (hsPublished ?y))"
      "hsUntil ?y ch = None \<longleftrightarrow> ch \<in> live (hsHub ?y)"
    using hist assms(3) by (auto simp: history_inv_def)
  have p: "drop (hsFrom ?y ch) (hsPublished ?y) = events_of r (drop (ssMark a ch) (ssNotified a))"
    using inv assms(3) by (simp add: stream_inv_def drop_events)
  have "prefix (hsReceived ?y ch) (drop (hsFrom ?y ch) (take (until_or (length (hsPublished ?y)) (hsUntil ?y ch)) (hsPublished ?y)))"
    using h(1) by (metis prefixI)
  also have "prefix \<dots> (drop (hsFrom ?y ch) (hsPublished ?y))" by (metis append_take_drop_id drop_take prefixI take_drop)
  finally show "prefix (hsReceived ?y ch) (events_of r (drop (ssMark a ch) (ssNotified a)))" using p by simp
  show "ch \<in> live (hsHub ?y) \<Longrightarrow> chBuffer (hbChannels (hsHub ?y) ! ch) = [] \<Longrightarrow>
       hsReceived ?y ch = events_of r (drop (ssMark a ch) (ssNotified a))"
    using h p by simp
qed

lemma prefix_map_filter: "prefix xs ys \<Longrightarrow> prefix (List.map_filter f xs) (List.map_filter f ys)"
  by (auto simp: prefix_def)

section \<open>Hints are read back\<close>

lemma scan_canonical: "canonical_digits s \<Longrightarrow> scan_whole s = Some (s, [])"
  by (cases s; cases "tl s") (auto simp: canonical_digits_def scan_whole_def digits_front_def list_all_iff)

lemma FormatInt_number: "isValidNumber (FormatInt n)"
proof -
  obtain c t where d: "nat_digits (nat \<bar>n\<bar>) = c # t" by (cases "nat_digits (nat \<bar>n\<bar>)") auto
  have "c \<noteq> CHR ''-''" using digits_sign[OF d] by simp
  moreover have "scan_whole (nat_digits (nat \<bar>n\<bar>)) = Some (nat_digits (nat \<bar>n\<bar>), [])" by (rule scan_canonical[OF canonical_nat_digits])
  ultimately show ?thesis using d
    by (cases "n < 0") (simp_all add: isValidNumber_def scan_number_def scan_sign_def scan_fraction_def scan_exponent_def FormatInt_def)
qed

lemma ascii_valid: "ascii s \<Longrightarrow> ValidString s"
  by (rule ValidString_ascii) (simp add: ascii_def)

lemma field_names:
  "fold_name ''type'' = ''type''" "fold_name ''chain_id'' = ''chain_id''" "fold_name ''deployment_id'' = ''deployment_id''"
  "fold_name ''token'' = ''token''" "fold_name ''as_of_block'' = ''as_of_block''" "fold_name ''as_of_block_hash'' = ''as_of_block_hash''"
  "fold_name ''common_ancestor'' = ''common_ancestor''"
  by code_simp+

lemma field_names_valid:
  "ValidString ''type''" "ValidString ''chain_id''" "ValidString ''deployment_id''" "ValidString ''token''" "ValidString ''as_of_block''"
  "ValidString ''as_of_block_hash''" "ValidString ''common_ancestor''" "ValidString ''launch''" "ValidString ''reorg''"
  by (simp_all add: ValidString_ascii)

lemma unmarshal_object:
  assumes "json_ok (JObject ms)" "json_depth (JObject ms) \<le> 10000"
  shows "unmarshal_event (json_text (JObject ms)) = rfold event_field ms zero_event"
  using parse_document_text[OF assms] by (simp add: unmarshal_event_def)

text \<open>Texts and numbers that a hint can carry.\<close>

definition int64 :: "int \<Rightarrow> bool" where
  "int64 n \<longleftrightarrow> - (2 ^ 63) \<le> n \<and> n < 2 ^ 63"

lemma set_int64_number: "int64 n \<Longrightarrow> set_int64 (JNumber (FormatInt n)) put r = Inr (put n r)"
  by (simp add: set_int64_def int64_def)

lemma plain_string: "quotes_plainly s \<Longrightarrow> json_string s = [CHR 0x22] @ s @ [CHR 0x22] \<and> ascii s"
proof -
  assume "quotes_plainly s"
  then have "concat (map json_char s) = s \<and> ascii s"
    by (induction s) (auto simp: quotes_plainly_def json_char_def byte_between_def ascii_def)
  then show ?thesis by (simp add: json_string_def)
qed

lemmas hint_fields = rfold.simps event_field_def field_names set_int64_number set_field_def zero_event_def Let_def

lemma launch_hint_decoded:
  assumes "0 < ecChainID c" "int64 (ecChainID c)" "int64 (ecBlockNumber c)" "dep \<noteq> []" "ascii dep"
    "ascii (rlHashHex lib (ecBlockHash c))" "ascii (rlAddressHex lib t)"
  shows "hub_Decode unmarshal_event (json_text (launch_hint lib dep c t)) = Inr \<lparr>reType = ''launch'', reChainID = ecChainID c,
    reDeploymentID = dep, reToken = rlAddressHex lib t, reAsOfBlock = ecBlockNumber c, reAsOfBlockHash = rlHashHex lib (ecBlockHash c),
    reCommonAncestor = 0\<rparr>"
  using assms unfolding hub_Decode_def launch_hint_def
  by (subst unmarshal_object) (simp_all add: FormatInt_number ascii_valid field_names_valid hint_fields)

lemma reorg_hint_decoded:
  assumes "0 < rrChainID x" "int64 (rrChainID x)" "int64 (rrCommonAncestorNumber x)" "rrDeploymentID x \<noteq> []" "ascii (rrDeploymentID x)"
    "ascii (rlHashHex lib (rrCommonAncestorHash x))"
  shows "hub_Decode unmarshal_event (json_text (reorg_hint lib x)) = Inr \<lparr>reType = ''reorg'', reChainID = rrChainID x,
    reDeploymentID = rrDeploymentID x, reToken = [], reAsOfBlock = rrCommonAncestorNumber x, reAsOfBlockHash = rlHashHex lib (rrCommonAncestorHash x),
    reCommonAncestor = rrCommonAncestorNumber x\<rparr>"
  using assms unfolding hub_Decode_def reorg_hint_def
  by (subst unmarshal_object) (simp_all add: FormatInt_number ascii_valid field_names_valid hint_fields)

lemma token_hint_decoded:
  assumes "0 < chainID" "int64 chainID" "dep \<noteq> []" "ascii dep" "ascii (rlAddressHex lib t)"
  shows "hub_Decode unmarshal_event (json_text (token_hint lib chainID dep t)) = Inr \<lparr>reType = ''token'', reChainID = chainID,
    reDeploymentID = dep, reToken = rlAddressHex lib t, reAsOfBlock = 0, reAsOfBlockHash = [], reCommonAncestor = 0\<rparr>"
  using assms unfolding hub_Decode_def token_hint_def
  by (subst unmarshal_object) (simp_all add: FormatInt_number ascii_valid field_names_valid hint_fields)

lemma refresh_hint_text:
  "quotes_plainly dep \<Longrightarrow> refresh_hint quote chainID dep = json_text (JObject
     [(''type'', JString ''token''), (''chain_id'', JNumber (FormatInt chainID)), (''deployment_id'', JString dep)])"
  using plain_string[of dep] by (simp add: refresh_hint_def)

lemma refresh_hint_decoded:
  assumes "0 < chainID" "int64 chainID" "dep \<noteq> []" "quotes_plainly dep"
  shows "hub_Decode unmarshal_event (refresh_hint quote chainID dep) = Inr \<lparr>reType = ''token'', reChainID = chainID,
    reDeploymentID = dep, reToken = [], reAsOfBlock = 0, reAsOfBlockHash = [], reCommonAncestor = 0\<rparr>"
  using assms plain_string[OF assms(4)] unfolding hub_Decode_def refresh_hint_text[OF assms(4)]
  by (subst unmarshal_object) (simp_all add: FormatInt_number ascii_valid field_names_valid hint_fields)

section \<open>A concrete run\<close>

definition tap_route :: EventRoutes where "tap_route = \<lparr>erChainID = 1, erDeploymentID = ''demo''\<rparr>"

definition tap_event :: Event where
  "tap_event = \<lparr>reType = ''token'', reChainID = 1, reDeploymentID = ''demo'', reToken = [], reAsOfBlock = 0, reAsOfBlockHash = [], reCommonAncestor = 0\<rparr>"

definition tap_data :: stream_data where
  "tap_data = TokenData \<lparr>lvChainID = 1, lvDeploymentID = ''demo'', lvToken = [], lvAsOfBlock = 0, lvAsOfBlockHash = []\<rparr>"

definition tap_hub :: "Event list \<Rightarrow> Hub" where
  "tap_hub es = \<lparr>hbChannels = [\<lparr>chBuffer = es, chClosed = False\<rparr>], hbSubscribers = [(1, 0)], hbNextID = 1, hbMaximum = 2, hbBuffer = 1,
     hbEvictions = 0, hbActive = 1\<rparr>"

definition tap_system :: "Event list \<Rightarrow> Event list \<Rightarrow> Event list \<Rightarrow> string list \<Rightarrow> stream_message list \<Rightarrow> stream_system" where
  "tap_system buffered published received notified sent = \<lparr>ssHub = \<lparr>hsHub = tap_hub buffered, hsOnce = [], hsPublished = published,
       hsReceived = (\<lambda>_. [])(0 := received), hsFrom = (\<lambda>_. 0), hsUntil = (\<lambda>_. None)\<rparr>, ssNotified = notified,
     ssClients = [\<lparr>clSubscription = \<lparr>suChannel = 0, suID = 1\<rparr>, clSent = sent, clRunning = True\<rparr>], ssMark = (\<lambda>_. 0), ssRefused = []\<rparr>"

definition tap_final :: stream_system where
  "tap_final = tap_system [] [tap_event] [tap_event] [refresh_hint id 1 ''demo''] [greeting, Data tap_data]"

lemma tap_hint: "hint_event (erChainID tap_route) (erDeploymentID tap_route) (refresh_hint id 1 ''demo'') = Some tap_event"
proof -
  have "quotes_plainly ''demo''" by (simp add: quotes_plainly_def byte_between_def)
  then show ?thesis using refresh_hint_decoded[of 1 "''demo''" id] by (simp add: hint_event_def int64_def tap_route_def tap_event_def)
qed

lemma tap_reach: "stream_reach tap_route 2 1 tap_final"
proof -
  have "Subscribe (hsHub (ssHub (stream_start 2 1))) = (Some \<lparr>suChannel = 0, suID = 1\<rparr>, tap_hub [])"
    by (simp add: stream_start_def hub_start_def NewHub_def Subscribe_def tap_hub_def)
  from stream_step.connect[OF this, of tap_route True] have c: "stream_step tap_route (stream_start 2 1) (tap_system [] [] [] [] [greeting])"
    by (simp add: stream_start_def hub_start_def tap_system_def stream_open_def sending_def fun_upd_def cong: if_cong)
  have "Publish tap_event (hsHub (ssHub (tap_system [] [] [] [] [greeting]))) = Some (tap_hub [tap_event])"
    by (simp add: tap_system_def tap_hub_def Publish_def offer_def)
  from stream_step.notified[OF tap_hint this] have n: "stream_step tap_route (tap_system [] [] [] [] [greeting])
      (tap_system [tap_event] [tap_event] [] [refresh_hint id 1 ''demo''] [greeting])"
    by (simp add: tap_system_def mark_left_def live_def tap_hub_def)
  let ?a = "tap_system [tap_event] [tap_event] [] [refresh_hint id 1 ''demo''] [greeting]"
  have "stream_step tap_route ?a (?a\<lparr>ssHub := (ssHub ?a)\<lparr>hsHub := tap_hub [],
        hsReceived := (hsReceived (ssHub ?a))(0 := hsReceived (ssHub ?a) 0 @ [tap_event])\<rparr>,
      ssClients := (ssClients ?a)[0 := stream_select tap_route (Event_case tap_event True) (ssClients ?a ! 0)]\<rparr>)"
    using stream_step.event[of 0 ?a "ssClients ?a ! 0" tap_event "tap_hub []" tap_route True]
    by (simp add: tap_system_def receive_def tap_hub_def)
  then have e: "stream_step tap_route ?a tap_final"
    by (simp add: tap_system_def tap_final_def stream_select_def stream_event_def tap_event_def tap_route_def tap_data_def deployment_def
        sending_def)
  show ?thesis by (rule stream_reach.step[OF stream_reach.step[OF stream_reach.step[OF stream_reach.start c] n] e])
qed

section \<open>Properties\<close>

text \<open>
  C13: what the event stream sends. In every reachable state of notifications, clients, heartbeats,
  failing sends and evictions (fewer than 2^64 subscriptions), the data messages of a client are a
  prefix of the hints notified since it subscribed that belong to this chain and deployment, each
  once, in order and as the event of its own type; and a client whose loop runs, which is still
  subscribed and has nothing buffered, has been sent all of them.
\<close>

theorem stream_delivers:
  assumes "stream_reach r maximum buffer a" "length (hbChannels (hsHub (ssHub a))) < 2 ^ 64" "c \<in> set (ssClients a)"
  shows "let ch = suChannel (clSubscription c); due = List.map_filter (hint_data r) (drop (ssMark a ch) (ssNotified a)) in
    prefix (data_sent c) due
    \<and> (clRunning c \<and> ch \<in> live (hsHub (ssHub a)) \<and> chBuffer (hbChannels (hsHub (ssHub a)) ! ch) = [] \<longrightarrow> data_sent c = due)"
proof -
  let ?ch = "suChannel (clSubscription c)"
  have ok: "client_ok r a c" using stream_reach_inv[OF assms(1,2)] assms(3) by (simp add: stream_inv_def)
  then have ch: "?ch < length (hbChannels (hsHub (ssHub a)))" by (simp add: client_ok_def Let_def)
  note received = received_prefix[OF assms(1,2) ch]
  have "prefix (data_sent c) (List.map_filter (stream_event r) (hsReceived (ssHub a) ?ch))"
    using ok by (auto simp: client_ok_def Let_def split: if_splits)
  also have "prefix \<dots> (List.map_filter (stream_event r) (events_of r (drop (ssMark a ?ch) (ssNotified a))))"
    using received(1) by (rule prefix_map_filter)
  finally have "prefix (data_sent c) (List.map_filter (hint_data r) (drop (ssMark a ?ch) (ssNotified a)))"
    by (simp only: map_filter_events)
  moreover have "data_sent c = List.map_filter (hint_data r) (drop (ssMark a ?ch) (ssNotified a))"
    if "clRunning c" "?ch \<in> live (hsHub (ssHub a))" "chBuffer (hbChannels (hsHub (ssHub a)) ! ?ch) = []"
    using ok received(2)[OF that(2,3)] that(1) by (simp add: client_ok_def Let_def map_filter_events)
  ultimately show ?thesis by (simp add: Let_def)
qed

theorem stream_delivers_witness:
  "stream_reach tap_route 2 1 tap_final \<and> (\<exists>c \<in> set (ssClients tap_final). data_sent c = [tap_data]
     \<and> List.map_filter (hint_data tap_route) [refresh_hint id 1 ''demo''] = [tap_data])"
proof -
  let ?c = "\<lparr>clSubscription = \<lparr>suChannel = 0, suID = 1\<rparr>, clSent = [greeting, Data tap_data], clRunning = True\<rparr>"
  have c: "?c \<in> set (ssClients tap_final)" by (simp add: tap_final_def tap_system_def)
  have n: "length (hbChannels (hsHub (ssHub tap_final))) < 2 ^ 64" by (simp add: tap_final_def tap_system_def tap_hub_def)
  have "data_sent ?c = List.map_filter (hint_data tap_route) [refresh_hint id 1 ''demo'']"
    using stream_delivers[OF tap_reach n c] by (simp add: tap_final_def tap_system_def tap_hub_def live_def Let_def del: map_filter_simps)
  moreover have "data_sent ?c = [tap_data]" by (simp add: data_sent_def greeting_def)
  ultimately show ?thesis using tap_reach c by (metis (no_types, lifting))
qed

text \<open>
  C22: every hint that the store sends is understood by the API: the payloads of a launch, of a
  completed reorg, of a committed chunk and of a metadata write decode to the event that the sender
  described, so that none is dropped as malformed or out of scope.
\<close>

theorem hints_understood:
  assumes "0 < chainID" "int64 chainID" "dep \<noteq> []" "quotes_plainly dep"
    and "\<And>h. ascii (rlHashHex lib h)" "\<And>t. ascii (rlAddressHex lib t)"
    and "ecChainID c = chainID" "int64 (ecBlockNumber c)"
    and "rrChainID x = chainID" "rrDeploymentID x = dep" "int64 (rrCommonAncestorNumber x)"
  shows "hint_data \<lparr>erChainID = chainID, erDeploymentID = dep\<rparr> (json_text (launch_hint lib dep c t)) = Some (LaunchData
      \<lparr>lvChainID = chainID, lvDeploymentID = dep, lvToken = rlAddressHex lib t, lvAsOfBlock = ecBlockNumber c,
       lvAsOfBlockHash = rlHashHex lib (ecBlockHash c)\<rparr>)
    \<and> hint_data \<lparr>erChainID = chainID, erDeploymentID = dep\<rparr> (json_text (reorg_hint lib x)) = Some (ReorgData
      \<lparr>rvChainID = chainID, rvDeploymentID = dep, rvAsOfBlock = rrCommonAncestorNumber x,
       rvAsOfBlockHash = rlHashHex lib (rrCommonAncestorHash x), rvCommonAncestor = rrCommonAncestorNumber x\<rparr>)
    \<and> hint_data \<lparr>erChainID = chainID, erDeploymentID = dep\<rparr> (json_text (token_hint lib chainID dep t)) = Some (TokenData
      \<lparr>lvChainID = chainID, lvDeploymentID = dep, lvToken = rlAddressHex lib t, lvAsOfBlock = 0, lvAsOfBlockHash = []\<rparr>)
    \<and> hint_data \<lparr>erChainID = chainID, erDeploymentID = dep\<rparr> (refresh_hint quote chainID dep) = Some (TokenData
      \<lparr>lvChainID = chainID, lvDeploymentID = dep, lvToken = [], lvAsOfBlock = 0, lvAsOfBlockHash = []\<rparr>)"
proof -
  have dep: "ascii dep" using plain_string[OF assms(4)] by simp
  note decoded = launch_hint_decoded[of c dep lib t] reorg_hint_decoded[of x lib] token_hint_decoded[of chainID dep lib t]
    refresh_hint_decoded[of chainID dep quote]
  show ?thesis using assms dep decoded
    by (simp add: hint_data_def hint_event_def stream_event_def deployment_def Let_def)
qed

theorem hints_understood_witness:
  "hint_data \<lparr>erChainID = 1, erDeploymentID = ''demo''\<rparr> (json_text (token_hint demo_addresses 1 ''demo'' 0xB2)) = Some (TokenData
     \<lparr>lvChainID = 1, lvDeploymentID = ''demo'', lvToken = ''0xb2'', lvAsOfBlock = 0, lvAsOfBlockHash = []\<rparr>)"
proof -
  let ?c = "\<lparr>ecChainID = 1, ecBlockNumber = 3, ecBlockHash = 5, ecBlockTime = 100, ecTransactionIndex = 0, ecTxHash = 8, ecLogIndex = 2\<rparr>"
  let ?x = "\<lparr>rrChainID = 1, rrDeploymentID = ''demo'', rrDetectedTipNumber = 9, rrDetectedTipHash = 5, rrCommonAncestorNumber = 7,
    rrCommonAncestorHash = 6, rrDepth = 2, rrDetectedAt = 0\<rparr>"
  have "quotes_plainly ''demo''" by (simp add: quotes_plainly_def byte_between_def)
  moreover have "ascii (rlHashHex demo_addresses h)" "ascii (rlAddressHex demo_addresses t)" for h t
    by (simp_all add: demo_addresses_def ascii_def)
  moreover have "rlAddressHex demo_addresses 0xB2 = ''0xb2''" by (simp add: demo_addresses_def)
  ultimately show ?thesis using hints_understood[of 1 "''demo''" demo_addresses ?c ?x "0xB2"] by (simp add: int64_def)
qed

end
