(* ===== verification/Spec2Isabelle.thy ===== *)
theory Spec2Isabelle
  imports Curve_Trading Discovery_Complete Indexer_Safety Rpc_Client Realtime_Hub Aggregation_Worker Token_Stats
    Numeric_Codec Deployment_Registry Chain_Verify Service_Config Indexer_Health Quote_Service Projection_Recovery Read_Properties
    Metadata_Access Write_Limiter Account_Reads Event_Stream
begin

text \<open>
  A verification development for the LaunchTap backend, a Go service (\<^verbatim>\<open>src/backend\<close>) that indexes a
  token launchpad from an EVM chain into PostgreSQL and serves quotes and statistics from it.

  \<^bold>\<open>The program.\<close> An indexer process loads its configuration, resolves a reviewed deployment, verifies
  the chain it talks to and then polls: every step reads the heads, extends or repairs the canonical
  block table, discovers and decodes the logs of a chunk of blocks and writes the resulting ledger
  events, projections, dirty marks and watermarks in one transaction; a block whose parent is not
  the stored tip starts reorg recovery. A worker drains the dirty marks and recomputes statistics.
  The API quotes trades with the same bonding-curve arithmetic as the contracts, lists what the
  indexer stored, lets the verified creator of a token edit its metadata, and pushes refresh hints to
  its subscribers through a hub.

  \<^bold>\<open>Conventions.\<close> \<open>Launch_Prelude\<close> has the result type of fallible functions (\<open>Inl\<close> the error), its
  sequencing \<open>rbind\<close>, loops with early exit (\<open>rfold\<close>, \<open>rtraverse\<close>) and rounded division. A
  \<^verbatim>\<open>*big.Int\<close> is an optional integer, a w-bit integer a word or an integer with its bound written
  out, an address a 160-bit and a hash a 256-bit word, a Go struct a record and a Go map an
  association list where its iteration matters. Code outside the repository (go-ethereum,
  the PostgreSQL driver, schema libraries, Keccak-256, SHA-256, ECDSA, URL and duration parsing) is a
  parameter; what a theorem needs of it is a named hypothesis.

  \<^bold>\<open>Curve engine\<close> (\<^verbatim>\<open>internal/curve\<close>). \<open>Curve_Math\<close> translates \<^verbatim>\<open>math.go\<close> function by function, with every
  overflow and invariant check. \<open>Curve_Safety\<close> has the reserve invariant and the arithmetic
  specification of a buy and a sell; \<open>Curve_Trading\<close> proves that the code implements it, that value is
  conserved and the curve is solvent over every sequence of trades (through the locale
  \<open>trading_engine\<close>), when it graduates, which errors can occur, and monotonicity.
  \<open>Quote_Service\<close> is \<^verbatim>\<open>internal/quote\<close> over it: a quote is the trade it announces.

  \<^bold>\<open>Chain\<close> (\<^verbatim>\<open>internal/chain\<close>). \<open>Chain_Types\<close> has logs, emitters, the eighteen decoded events and ledger
  records; \<open>Event_Decoder\<close> the registration of events and the checks on one log; \<open>Rpc_Client\<close> the retry
  loop; \<open>Log_Discovery\<close> range splitting, batching, launch discovery, deduplication, and
  \<open>Discovery_Complete\<close> that discovery returns exactly the watched logs in chain order.
  \<open>Chain_Verify\<close> is \<^verbatim>\<open>verify.go\<close> and the start-up order of \<^verbatim>\<open>cmd/indexer\<close>.

  \<^bold>\<open>Store\<close> (\<^verbatim>\<open>internal/store/postgres\<close>). \<open>Ledger_Store\<close> models the tables the indexer writes, the SQL
  statements on them, transactions with lost connections and unknown commit outcomes, session
  ownership, and the block, watermark, reorg and dirty-queue operations of the adapter, in a
  state-and-exception style over a world that consumes one oracle answer per effect;
  \<open>Ledger_Ingest\<close> the conversion, idempotent insertion and projection of the eighteen events;
  \<open>Numeric_Codec\<close> the column types of \<^verbatim>\<open>sqlc/types.go\<close>. Statements on market data act on a component of
  the database that no other statement reads and are the parameter \<open>market_sql\<close>, so that the theorems
  about the indexer hold whatever they do. \<open>Market_Projections\<close> instantiates it with the statements on
  holders, candles and reserves, the view \<^verbatim>\<open>market_trades\<close> and the rebuild function of the fourth
  migration; \<open>Projection_Exact\<close> proves the incremental upserts equal to the rebuild row by row,
  \<open>Projection_Engine\<close> that routing keeps the tables equal to a rebuild of the whole ledger, and
  \<open>Projection_Recovery\<close> that the recovery transaction does, with a ledger on which the reserves of the
  two ways differ.

  \<^bold>\<open>Indexer\<close> (\<^verbatim>\<open>internal/indexer\<close>). \<open>Event_Router\<close> is the ledger router; \<open>Indexer_Engine\<close> settings, the
  whole of \<^verbatim>\<open>Step\<close>, reorg recovery and \<^verbatim>\<open>Run\<close>. \<open>Indexer_Invariant\<close> has the invariant of the
  canonical tables and a Hoare logic for the store's operations, in which \<open>Indexer_Commit\<close> treats
  the commit of a chunk and \<open>Indexer_Recovery\<close> recovery; \<open>Indexer_Safety\<close> concludes what one step and
  any run do under every provider answer and database fault. \<open>Indexer_Health\<close> is the health
  tracker and the exit code.

  \<^bold>\<open>Aggregation, statistics and hints.\<close> \<open>Aggregation_Worker\<close> is \<^verbatim>\<open>stats/worker.go\<close> over the store (through
  the locale \<open>batch_source\<close>) with the interleavings of many workers as an inductive step relation;
  \<open>Token_Stats\<close> is \<^verbatim>\<open>stats/calculator.go\<close>; \<open>Realtime_Hub\<close> is \<^verbatim>\<open>realtime/hub.go\<close> with channels and
  subscriptions as a step relation. \<open>Event_Stream\<close> follows a hint from the store's notifications
  through the listener of \<^verbatim>\<open>store/postgres/api_notify.go\<close> and \<^verbatim>\<open>cmd/api\<close> into the hub and out of the
  server-sent event stream of \<^verbatim>\<open>event_routes.go\<close>: every hint is understood, and a client receives the
  hints of its deployment in order until it is evicted or leaves.

  \<^bold>\<open>Read side\<close> (\<^verbatim>\<open>internal/pagination\<close>, the readers of \<^verbatim>\<open>internal/store/postgres\<close>, \<^verbatim>\<open>internal/apiserver\<close>).
  \<open>Text_Codec\<close> has decimal numbers, unpadded base64 and the amount syntax of the quote route;
  \<open>Page_Cursor\<close> is \<^verbatim>\<open>cursor.go\<close>, the keyset conditions of the listings and the locale \<open>keyset_listing\<close>, in
  which following the cursors of a listing is shown to visit every row once and in order;
  \<open>Read_Queries\<close> translates the statements of \<^verbatim>\<open>read.sql.go\<close> and the readers of \<^verbatim>\<open>read_adapter.go\<close>,
  \<^verbatim>\<open>public_reads.go\<close> and \<^verbatim>\<open>read_snapshot.go\<close>; \<open>Read_Routes\<close> and \<open>Quote_Routes\<close> the handlers of the
  public read routes and of the quote route, with their problem responses. \<open>Read_Paging\<close> interprets the
  locale for the trade, holder, token and candle listings as they are served, and \<open>Read_Properties\<close> draws
  the conclusions: complete listings, no page of another snapshot or request, quotes equal to a replay of
  the ledger's trades, and the two requests for which paging goes wrong. The JSON codec of the
  cursor, address and time formats, the filter digest and case folding are the fields of
  \<open>read_library\<close>, with their round trips as \<open>library_laws\<close>.

  \<^bold>\<open>Authentication and metadata\<close> (\<^verbatim>\<open>internal/privyauth\<close>, the metadata files of \<^verbatim>\<open>apiserver\<close> and of the store).
  \<open>Json_Text\<close> has JSON documents with their strings, UTF-8 and white space, and that what is printed is
  read back. \<open>Privy_Auth\<close> is \<^verbatim>\<open>verifier.go\<close>: keys, compact tokens, strict decoding, claims and linked
  wallets; a principal is accepted only for two vouched tokens of one subject, and tokens issued with
  the key are accepted exactly while their claims hold. \<open>Metadata_Store\<close> has the statements and
  transactions on revisioned rows, with the locale \<open>revisioned\<close> interpreted for metadata and images;
  \<open>Metadata_Routes\<close> the four routes, their validation, conditional requests and the write limiter;
  \<open>Metadata_Access\<close> shows over any sequence of requests who can change what, that no accepted write
  is lost, and that what was written is served; \<open>Write_Limiter\<close> bounds the accepted writes of a subject.
  \<open>Account_Reads\<close> has the profile and observation routes with their readers: whose claims a profile
  shows, what is left after a payment, and that an observation has every event of its transaction, with
  the finality of the indexer's watermarks.

  \<^bold>\<open>Start-up.\<close> \<open>Deployment_Registry\<close> is \<^verbatim>\<open>backend/deployments\<close>, \<open>Service_Config\<close> is \<^verbatim>\<open>internal/config\<close>
  with the settings the entry point derives, and shows that what loads is accepted by the engine.

  \<^bold>\<open>Fuel and termination.\<close> Range splitting, batching and the decoder's loops are total functions with
  termination proofs. \<open>Run\<close> and \<open>Worker_Run\<close> poll forever in the source; their fuel is the number of
  rounds observed, and the theorems hold for every amount of it. Retries are bounded by the
  configured attempts. \<open>follow\<close> reads a listing page by page; its fuel is the number of requests, and
  one more than the number of full pages reaches the end.

  \<^bold>\<open>Not modelled.\<close> Route registration and middleware of \<^verbatim>\<open>internal/apiserver\<close>, schema migrations other than the view, function and tables named above,
  the worker's LISTEN loop, the recorded curve vectors and the command-line tools: input and output, or
  calls into libraries. The generated insert and match statements of the eighteen event tables are one
  write-once ledger. Goroutine scheduling enters only through the step relations named above. The
  contracts and the web client are written in other languages.
\<close>

end
